(* ===== verification/Prelude.thy ===== *)
theory Prelude
  imports Complex_Main "HOL-Library.AList" "HOL-Library.Monad_Syntax" "HOL-Library.Sublist" "HOL-Library.Multiset"
begin

text \<open>
  Shared vocabulary of the development.  JavaScript data that the services pass
  around is represented once and for all here:
  \<^item> a \<open>Map\<close> (or a plain object used as a dictionary) is an association list in
    insertion order; \<open>m.get(k)\<close> is \<open>map_of m k\<close>, \<open>m.set(k, v)\<close> is
    \<open>AList.update k v m\<close>, which overwrites in place or appends, as JavaScript does;
  \<^item> a \<open>Set\<close> is a list without duplicates in insertion order;
  \<^item> the outcome of a promise is a value of type \<open>'a settled\<close>; a thrown error that a
    caller can see is the left side of a sum.
  The collections below gather the facts that the component theories feed to
  \<open>simp\<close> and \<open>auto\<close>.
\<close>

named_theorems js_map \<open>laws of insertion-ordered maps and sets\<close>
named_theorems settled \<open>laws of settled promises\<close>

section \<open>Insertion-ordered maps\<close>

type_synonym ('k, 'v) js_map = "('k \<times> 'v) list"

abbreviation js_get :: "('k, 'v) js_map \<Rightarrow> 'k \<Rightarrow> 'v option" where
  "js_get m k \<equiv> map_of m k"

abbreviation js_put :: "('k, 'v) js_map \<Rightarrow> 'k \<Rightarrow> 'v \<Rightarrow> ('k, 'v) js_map" where
  "js_put m k v \<equiv> AList.update k v m"

definition js_keys :: "('k, 'v) js_map \<Rightarrow> 'k list" where
  "js_keys m = map fst m"

definition js_wf :: "('k, 'v) js_map \<Rightarrow> bool" where
  "js_wf m \<longleftrightarrow> distinct (map fst m)"

lemma js_get_put [simp, js_map]: "js_get (js_put m k v) k' = (if k' = k then Some v else js_get m k')"
  by (simp add: update_conv')

lemma js_wf_put [simp, js_map]: "js_wf m \<Longrightarrow> js_wf (js_put m k v)"
  by (simp add: js_wf_def distinct_update)

lemma js_wf_Nil [simp, js_map]: "js_wf []"
  by (simp add: js_wf_def)

lemma js_keys_put_set [simp, js_map]: "set (js_keys (js_put m k v)) = insert k (set (js_keys m))"
  by (induction m) (auto simp: js_keys_def)

lemma js_keys_put_old [js_map]: "k \<in> set (js_keys m) \<Longrightarrow> js_keys (js_put m k v) = js_keys m"
  by (induction m) (auto simp: js_keys_def)

lemma js_put_new [js_map]: "k \<notin> set (js_keys m) \<Longrightarrow> js_put m k v = m @ [(k, v)]"
  by (induction m) (auto simp: js_keys_def)

lemma js_keys_get [js_map]: "k \<in> set (js_keys m) \<longleftrightarrow> js_get m k \<noteq> None"
  by (auto simp: js_keys_def map_of_eq_None_iff)

lemma js_get_None_iff [js_map]: "js_get m k = None \<longleftrightarrow> k \<notin> set (js_keys m)"
  by (simp add: js_keys_get)

lemma js_wf_get_iff [js_map]: "js_wf m \<Longrightarrow> js_get m k = Some v \<longleftrightarrow> (k, v) \<in> set m"
  by (simp add: js_wf_def)

lemma find_SomeD: "find P xs = Some x \<Longrightarrow> x \<in> set xs \<and> P x"
  by (induction xs) (auto split: if_splits)

lemma find_NoneD: "find P xs = None \<Longrightarrow> x \<in> set xs \<Longrightarrow> \<not> P x"
  by (induction xs) (auto split: if_splits)

lemma mset_by_key:
  assumes "distinct ks"
  shows "mset (concat (map (\<lambda>k. filter (\<lambda>x. f x = k) xs) ks)) = mset (filter (\<lambda>x. f x \<in> set ks) xs)"
  using assms
proof (induction ks)
  case (Cons k ks)
  have "mset (filter (\<lambda>x. f x = k \<or> f x \<in> set ks) xs) = mset (filter (\<lambda>x. f x = k) xs) + mset (filter (\<lambda>x. f x \<in> set ks) xs)"
    using Cons.prems by (induction xs) auto
  then show ?case using Cons by simp
qed simp

section \<open>Insertion-ordered sets\<close>

definition set_add :: "'a list \<Rightarrow> 'a \<Rightarrow> 'a list" where
  "set_add s x = (if x \<in> set s then s else s @ [x])"

definition js_set :: "'a list \<Rightarrow> 'a list" where
  "js_set xs = foldl set_add [] xs"

lemma set_set_add [simp, js_map]: "set (set_add s x) = insert x (set s)"
  by (auto simp: set_add_def)

lemma distinct_set_add [simp, js_map]: "distinct s \<Longrightarrow> distinct (set_add s x)"
  by (simp add: set_add_def)

lemma set_foldl_set_add [simp, js_map]: "set (foldl set_add s xs) = set s \<union> set xs"
  by (induction xs arbitrary: s) auto

lemma distinct_foldl_set_add [js_map]: "distinct s \<Longrightarrow> distinct (foldl set_add s xs)"
  by (induction xs arbitrary: s) auto

lemma set_js_set [simp, js_map]: "set (js_set xs) = set xs"
  by (simp add: js_set_def)

lemma distinct_js_set [simp, js_map]: "distinct (js_set xs)"
  by (simp add: js_set_def distinct_foldl_set_add)

lemma foldl_set_add_distinct:
  "distinct xs \<Longrightarrow> set s \<inter> set xs = {} \<Longrightarrow> foldl set_add s xs = s @ xs"
  by (induction xs arbitrary: s) (auto simp: set_add_def)

lemma js_set_id [js_map]: "distinct xs \<Longrightarrow> js_set xs = xs"
  by (simp add: js_set_def foldl_set_add_distinct)

lemma js_set_idem [simp, js_map]: "js_set (js_set xs) = js_set xs"
  by (simp add: js_set_id)

section \<open>Settled promises\<close>

datatype ('e, 'a) settled = Fulfilled 'a | Rejected 'e

fun settle :: "'e + 'a \<Rightarrow> ('e, 'a) settled" where
  "settle (Inl e) = Rejected e"
| "settle (Inr a) = Fulfilled a"

definition fulfilled_values :: "('e, 'a) settled list \<Rightarrow> 'a list" where
  "fulfilled_values rs = concat (map (\<lambda>r. case r of Fulfilled a \<Rightarrow> [a] | Rejected _ \<Rightarrow> []) rs)"

definition rejected_reasons :: "('e, 'a) settled list \<Rightarrow> 'e list" where
  "rejected_reasons rs = concat (map (\<lambda>r. case r of Fulfilled _ \<Rightarrow> [] | Rejected e \<Rightarrow> [e]) rs)"

lemma fulfilled_values_simps [simp, settled]:
  "fulfilled_values [] = []"
  "fulfilled_values (Fulfilled a # rs) = a # fulfilled_values rs"
  "fulfilled_values (Rejected e # rs) = fulfilled_values rs"
  by (simp_all add: fulfilled_values_def)

lemma rejected_reasons_simps [simp, settled]:
  "rejected_reasons [] = []"
  "rejected_reasons (Fulfilled a # rs) = rejected_reasons rs"
  "rejected_reasons (Rejected e # rs) = e # rejected_reasons rs"
  by (simp_all add: rejected_reasons_def)

lemma settled_length [settled]:
  "length (fulfilled_values rs) + length (rejected_reasons rs) = length rs"
proof (induction rs)
  case (Cons r rs)
  then show ?case by (cases r) auto
qed simp

section \<open>Strings\<close>

text \<open>
  Strings are lists of 8-bit characters; the operations below are those of JavaScript on ASCII text.
\<close>

named_theorems js_string \<open>laws of string operations\<close>

definition lower_char :: "char \<Rightarrow> char" where
  "lower_char c = (let n = of_char c :: nat in if 65 \<le> n \<and> n \<le> 90 then char_of (n + 32) else c)"

definition to_lower :: "string \<Rightarrow> string" where
  "to_lower s = map lower_char s"

definition is_space :: "char \<Rightarrow> bool" where
  "is_space c \<longleftrightarrow> (of_char c :: nat) \<in> {9, 10, 11, 12, 13, 32}"

definition trim :: "string \<Rightarrow> string" where
  "trim s = rev (dropWhile is_space (rev (dropWhile is_space s)))"

definition str_includes :: "string \<Rightarrow> string \<Rightarrow> bool" where
  "str_includes s part \<longleftrightarrow> list_ex (\<lambda>t. take (length part) t = part) (suffixes s)"

fun split_on :: "char \<Rightarrow> string \<Rightarrow> string list" where
  "split_on sep [] = [[]]"
| "split_on sep (c # s) =
     (if c = sep then [] # split_on sep s
      else (case split_on sep s of [] \<Rightarrow> [[c]] | w # ws \<Rightarrow> (c # w) # ws))"

fun join_with :: "string \<Rightarrow> string list \<Rightarrow> string" where
  "join_with sep [] = []"
| "join_with sep [w] = w"
| "join_with sep (w # ws) = w @ sep @ join_with sep ws"

text \<open>The decimal digits of a number, as string conversion prints them.\<close>

definition digit :: "nat \<Rightarrow> char" where
  "digit n = ''0123456789'' ! n"

fun decimal :: "nat \<Rightarrow> string" where
  "decimal n = (if n < 10 then [digit n] else decimal (n div 10) @ [digit (n mod 10)])"

declare decimal.simps [simp del]

lemma decimal_not_Nil [simp]: "decimal n \<noteq> []"
  by (subst decimal.simps) simp

definition quoted :: "string \<Rightarrow> string" where
  "quoted s = [CHR 0x27] @ s @ [CHR 0x27]"

definition show_int :: "int \<Rightarrow> string" where
  "show_int i = (if i < 0 then CHR ''-'' # decimal (nat (- i)) else decimal (nat i))"

lemma digit_simps [simp]:
  "digit 0 = CHR ''0''" "digit (Suc 0) = CHR ''1''" "digit 1 = CHR ''1''" "digit 2 = CHR ''2''"
  "digit 3 = CHR ''3''" "digit 4 = CHR ''4''" "digit 5 = CHR ''5''" "digit 6 = CHR ''6''"
  "digit 7 = CHR ''7''" "digit 8 = CHR ''8''" "digit 9 = CHR ''9''"
  by (simp_all add: digit_def)

lemma set_decimal: "set (decimal n) \<subseteq> digit ` {..<10}"
proof (induction n rule: decimal.induct)
  case (1 n)
  then show ?case
    by (cases "n < 10") (auto simp: decimal.simps[of n] simp del: decimal.simps)
qed

lemma digit_range: "n < 10 \<Longrightarrow> digit n \<in> set ''0123456789''"
  unfolding digit_def by (rule nth_mem) simp

lemma lower_char_idem [simp, js_string]: "lower_char (lower_char c) = lower_char c"
  by (simp add: lower_char_def Let_def)

lemma to_lower_idem [simp, js_string]: "to_lower (to_lower s) = to_lower s"
  by (simp add: to_lower_def)

lemma to_lower_simps [simp, js_string]:
  "to_lower [] = []" "to_lower (c # s) = lower_char c # to_lower s" "to_lower (s @ t) = to_lower s @ to_lower t"
  by (simp_all add: to_lower_def)

lemma trim_id [js_string]: "list_all (\<lambda>c. \<not> is_space c) s \<Longrightarrow> trim s = s"
proof -
  assume a: "list_all (\<lambda>c. \<not> is_space c) s"
  then have "dropWhile is_space s = s" by (cases s) simp_all
  moreover have "dropWhile is_space (rev s) = rev s" using a by (cases s rule: rev_cases) simp_all
  ultimately show "trim s = s" by (simp add: trim_def)
qed

lemma split_on_not_Nil [simp, js_string]: "split_on sep s \<noteq> []"
  by (cases s) (auto split: list.split)

lemma split_on_join [js_string]: "join_with [sep] (split_on sep s) = s"
proof (induction s)
  case (Cons c s)
  obtain w ws where "split_on sep s = w # ws" by (cases "split_on sep s") auto
  with Cons show ?case by (cases ws) auto
qed simp

lemma split_on_parts [js_string]: "w \<in> set (split_on sep s) \<Longrightarrow> sep \<notin> set w"
  by (induction s arbitrary: w) (auto split: list.splits if_splits)

section \<open>Values that may be absent, and results that may be errors\<close>

text \<open>A JavaScript value of a known type, with the two absent values apart.\<close>

datatype 'v js_value = Undef | Null | Val 'v

fun present :: "'v js_value \<Rightarrow> bool" where
  "present (Val v) = True"
| "present v = False"

lemma present_iff: "present v \<longleftrightarrow> (\<exists>x. v = Val x)"
  by (cases v) simp_all

named_theorems sums \<open>sequencing of computations that may throw\<close>

fun sum_bind :: "('e + 'a) \<Rightarrow> ('a \<Rightarrow> 'e + 'b) \<Rightarrow> 'e + 'b" where
  "sum_bind (Inl e) f = Inl e"
| "sum_bind (Inr a) f = f a"

fun sum_foldl :: "('s \<Rightarrow> 'a \<Rightarrow> 'e + 's) \<Rightarrow> 's \<Rightarrow> 'a list \<Rightarrow> 'e + 's" where
  "sum_foldl f s [] = Inr s"
| "sum_foldl f s (x # xs) = sum_bind (f s x) (\<lambda>s'. sum_foldl f s' xs)"

fun sum_map :: "('a \<Rightarrow> 'e + 'b) \<Rightarrow> 'a list \<Rightarrow> 'e + 'b list" where
  "sum_map f [] = Inr []"
| "sum_map f (x # xs) = sum_bind (f x) (\<lambda>y. sum_bind (sum_map f xs) (\<lambda>ys. Inr (y # ys)))"

lemma sum_bind_Inr_iff [sums]: "sum_bind m f = Inr b \<longleftrightarrow> (\<exists>a. m = Inr a \<and> f a = Inr b)"
  by (cases m) simp_all

lemma sum_bind_Inl_iff [sums]: "sum_bind m f = Inl e \<longleftrightarrow> m = Inl e \<or> (\<exists>a. m = Inr a \<and> f a = Inl e)"
  by (cases m) auto

lemma sum_map_Inr_iff [sums]: "sum_map f xs = Inr ys \<longleftrightarrow> list_all2 (\<lambda>x y. f x = Inr y) xs ys"
  by (induction xs arbitrary: ys) (auto simp: sums list_all2_Cons1)

lemma sum_map_total: "(\<And>x. x \<in> set xs \<Longrightarrow> f x = Inr (g x)) \<Longrightarrow> sum_map f xs = Inr (map g xs)"
  by (induction xs) simp_all

lemma sum_foldl_total: "(\<And>s x. x \<in> set xs \<Longrightarrow> f s x = Inr (g s x)) \<Longrightarrow> sum_foldl f s xs = Inr (foldl g s xs)"
  by (induction xs arbitrary: s) simp_all

section \<open>Numbers and requests\<close>

text \<open>A number of JavaScript without its rounding; \<open>None\<close> is \<open>NaN\<close> or \<open>undefined\<close>.\<close>

type_synonym js_number = "rat option"

definition truthy_num :: "js_number \<Rightarrow> bool" where
  "truthy_num n \<longleftrightarrow> n \<noteq> None \<and> n \<noteq> Some 0"

fun num_add :: "js_number \<Rightarrow> js_number \<Rightarrow> js_number" where
  "num_add (Some a) (Some b) = Some (a + b)"
| "num_add _ _ = None"

fun num_sub :: "js_number \<Rightarrow> js_number \<Rightarrow> js_number" where
  "num_sub (Some a) (Some b) = Some (a - b)"
| "num_sub _ _ = None"

fun num_mul :: "js_number \<Rightarrow> js_number \<Rightarrow> js_number" where
  "num_mul (Some a) (Some b) = Some (a * b)"
| "num_mul _ _ = None"

text \<open>A quotient by zero is infinite or \<open>NaN\<close>, which are not told apart.\<close>

fun num_div :: "js_number \<Rightarrow> js_number \<Rightarrow> js_number" where
  "num_div (Some a) (Some b) = (if b = 0 then None else Some (a / b))"
| "num_div _ _ = None"

lemma num_add_Some [simp]: "num_add x y = Some c \<longleftrightarrow> (\<exists>a b. x = Some a \<and> y = Some b \<and> c = a + b)"
  by (cases "(x, y)" rule: num_add.cases) auto

lemma num_sub_Some [simp]: "num_sub x y = Some c \<longleftrightarrow> (\<exists>a b. x = Some a \<and> y = Some b \<and> c = a - b)"
  by (cases "(x, y)" rule: num_sub.cases) auto

lemma num_mul_Some [simp]: "num_mul x y = Some c \<longleftrightarrow> (\<exists>a b. x = Some a \<and> y = Some b \<and> c = a * b)"
  by (cases "(x, y)" rule: num_mul.cases) auto

lemma num_add_comm: "num_add x y = num_add y x"
  by (cases x; cases y) simp_all

lemma num_add_assoc: "num_add (num_add x y) z = num_add x (num_add y z)"
  by (cases x; cases y; cases z) simp_all

lemma num_add_left_comm: "num_add x (num_add y z) = num_add y (num_add x z)"
  by (cases x; cases y; cases z) simp_all

lemma num_add_0 [simp]: "num_add x (Some 0) = x" "num_add (Some 0) x = x"
  by (cases x; simp)+

lemmas num_add_ac = num_add_assoc num_add_comm num_add_left_comm

lemma num_sub_add: "num_sub (num_add x y) z = num_add x (num_sub y z)"
  by (cases x; cases y; cases z) simp_all

text \<open>What a total gains, whenever it is a number afterwards; a value that is no number counts as zero.\<close>

definition valueOf :: "js_number \<Rightarrow> rat" where
  "valueOf n = (case n of Some x \<Rightarrow> x | None \<Rightarrow> 0)"

text \<open>A number that may be absent.  Arithmetic reads \<open>null\<close> as zero and \<open>undefined\<close> as \<open>NaN\<close>.\<close>

type_synonym js_num = "js_number js_value"

fun numberOf :: "js_num \<Rightarrow> js_number" where
  "numberOf Undef = None"
| "numberOf Null = Some 0"
| "numberOf (Val n) = n"

fun truthyValue :: "js_num \<Rightarrow> bool" where
  "truthyValue (Val n) = truthy_num n"
| "truthyValue _ = False"

abbreviation amountOf :: "js_num \<Rightarrow> rat" where
  "amountOf v \<equiv> valueOf (numberOf v)"

definition gains :: "js_number \<Rightarrow> js_number \<Rightarrow> rat \<Rightarrow> bool" where
  "gains t t' v \<longleftrightarrow> (\<forall>x'. t' = Some x' \<longrightarrow> (\<exists>x. t = Some x \<and> x' = x + v))"

lemma gains_refl [simp]: "gains t t 0"
  by (simp add: gains_def)

lemma gains_trans: "gains t t1 v \<Longrightarrow> gains t1 t2 w \<Longrightarrow> gains t t2 (v + w)"
  by (fastforce simp: gains_def)

fun digits_value :: "nat \<Rightarrow> string \<Rightarrow> nat option" where
  "digits_value n [] = Some n"
| "digits_value n (c # s) =
     (let d = of_char c :: nat in if 48 \<le> d \<and> d \<le> 57 then digits_value (10 * n + (d - 48)) s else None)"

lemma digits_value_snoc: "digits_value a (s @ [digit d]) = (if d < 10 then map_option (\<lambda>v. 10 * v + d) (digits_value a s) else digits_value a (s @ [digit d]))"
proof (cases "d < 10")
  case True
  then have d: "d \<in> {0, 1, 2, 3, 4, 5, 6, 7, 8, 9}" by auto
  then have "of_char (digit d) = 48 + d" by (auto simp: digit_def)
  then show ?thesis using True by (induction s arbitrary: a) (auto simp: Let_def)
qed simp

lemma digits_value_decimal: "digits_value 0 (decimal n) = Some n"
proof (induction n rule: decimal.induct)
  case (1 n)
  show ?case
  proof (cases "n < 10")
    case True
    then show ?thesis using digits_value_snoc[of 0 "[]" n] by (simp add: decimal.simps[of n])
  next
    case False
    then show ?thesis using 1 digits_value_snoc[of 0 "decimal (n div 10)" "n mod 10"] by (simp add: decimal.simps[of n])
  qed
qed

lemma decimal_inj:
  assumes "decimal m = decimal n"
  shows "m = n"
proof -
  have "Some m = Some n" using digits_value_decimal[of m] digits_value_decimal[of n] unfolding assms by (rule trans[OF sym])
  then show ?thesis by simp
qed

lemma digit_not_minus: "d < 10 \<Longrightarrow> digit d \<noteq> CHR ''-''"
proof -
  assume "d < 10"
  then have "d \<in> {0, 1, 2, 3, 4, 5, 6, 7, 8, 9}" by auto
  then show ?thesis by (auto simp: digit_def)
qed

lemma decimal_not_minus: "decimal n \<noteq> CHR ''-'' # s"
proof
  assume "decimal n = CHR ''-'' # s"
  then have "CHR ''-'' \<in> set (decimal n)" by simp
  then show False using set_decimal[of n] digit_not_minus by fastforce
qed

lemma show_int_inj [simp]: "show_int i = show_int j \<longleftrightarrow> i = j"
  using decimal_not_minus[of "nat i"] decimal_not_minus[of "nat j"]
  by (auto simp: show_int_def split: if_splits dest: decimal_inj) (metis decimal_inj eq_nat_nat_iff leI minus_equation_iff neg_0_le_iff_le
    order_less_imp_le)+

text \<open>
  \<open>Number\<close> of a text: the empty text is zero, other text is a decimal literal with an optional sign, fraction and
  exponent, or a literal in base 16, 8 or 2; the rest is \<open>NaN\<close>, as is the infinite value.
\<close>

definition is_digit :: "char \<Rightarrow> bool" where
  "is_digit c \<longleftrightarrow> (let d = of_char c :: nat in 48 \<le> d \<and> d \<le> 57)"

definition digit_value :: "char \<Rightarrow> nat" where
  "digit_value c = (let n = of_char c :: nat in
     if 48 \<le> n \<and> n \<le> 57 then n - 48 else if 97 \<le> n \<and> n \<le> 122 then n - 87 else if 65 \<le> n \<and> n \<le> 90 then n - 55 else 36)"

fun radix_value :: "nat \<Rightarrow> nat \<Rightarrow> string \<Rightarrow> nat option" where
  "radix_value b n [] = Some n"
| "radix_value b n (c # s) = (if digit_value c < b then radix_value b (b * n + digit_value c) s else None)"

definition radix_number :: "nat \<Rightarrow> string \<Rightarrow> js_number" where
  "radix_number b s = (if s = [] then None else map_option of_nat (radix_value b 0 s))"

definition scale_number :: "nat \<Rightarrow> int \<Rightarrow> rat" where
  "scale_number n e = (if 0 \<le> e then of_nat n * 10 ^ nat e else of_nat n / 10 ^ nat (- e))"

definition exponent :: "string \<Rightarrow> int option" where
  "exponent r =
     (if r = [] then Some 0
      else if hd r \<noteq> CHR ''e'' \<and> hd r \<noteq> CHR ''E'' then None
      else case tl r of
          [] \<Rightarrow> None
        | c # s \<Rightarrow> (let ds = (if c = CHR ''-'' \<or> c = CHR ''+'' then s else c # s)
            in if ds = [] then None else map_option (\<lambda>n. if c = CHR ''-'' then - int n else int n) (digits_value 0 ds)))"

definition unsigned_number :: "string \<Rightarrow> js_number" where
  "unsigned_number s =
     (let whole = takeWhile is_digit s;
          rest = dropWhile is_digit s;
          point = rest \<noteq> [] \<and> hd rest = CHR ''.'';
          fraction = (if point then takeWhile is_digit (tl rest) else []);
          rest1 = (if point then dropWhile is_digit (tl rest) else rest)
      in if whole @ fraction = [] then None
         else case (digits_value 0 (whole @ fraction), exponent rest1) of
             (Some n, Some e) \<Rightarrow> Some (scale_number n (e - int (length fraction)))
           | _ \<Rightarrow> None)"

definition text_number :: "string \<Rightarrow> js_number" where
  "text_number t =
     (let s = trim t; base = to_lower (take 2 s)
      in if s = [] then Some 0
         else if base = ''0x'' then radix_number 16 (drop 2 s)
         else if base = ''0o'' then radix_number 8 (drop 2 s)
         else if base = ''0b'' then radix_number 2 (drop 2 s)
         else if hd s = CHR ''-'' then map_option uminus (unsigned_number (tl s))
         else if hd s = CHR ''+'' then unsigned_number (tl s)
         else unsigned_number s)"

text \<open>All requests are made; the first error is the error of the whole.\<close>

fun requestAll :: "('a \<Rightarrow> 's \<Rightarrow> (string + 'b) \<times> 's) \<Rightarrow> 'a list \<Rightarrow> 's \<Rightarrow> (string + 'b list) \<times> 's" where
  "requestAll f [] s = (Inr [], s)"
| "requestAll f (x # xs) s =
     (let (r, s1) = f x s; (rs, s2) = requestAll f xs s1
      in (sum_bind r (\<lambda>y. sum_bind rs (\<lambda>ys. Inr (y # ys))), s2))"

end
