(* ===== verification/TickMath.thy ===== *)
theory TickMath
  imports Prelude "HOL-Library.Word"
begin

text \<open>
  \<open>apps/integration/src/common/utils/uniswapV3PositionMath.ts\<close>: the arithmetic of a Uniswap V3
  position (fees owed, token amounts).  All quantities are immutable \<open>BN\<close> objects
  of the package \<open>bn.js\<close>; an object is identified with the integer it denotes, and the
  operations of the package are the fields of the record \<open>bn_lib\<close>, a parameter of every
  definition.  The locale \<open>bn_arith\<close> states what the package documents of them (division and
  remainder truncate towards zero and assert that the divisor is not zero, the in-place style
  shifts assert a non-negative operand); \<open>bn_int\<close> is a concrete instance.
\<close>

unbundle bit_operations_syntax

section \<open>The big number package\<close>

record bn_lib =
  bn_new :: "string \<Rightarrow> int"
  bn_toString :: "int \<Rightarrow> string"
  bn_add :: "int \<Rightarrow> int \<Rightarrow> int"
  bn_sub :: "int \<Rightarrow> int \<Rightarrow> int"
  bn_mul :: "int \<Rightarrow> int \<Rightarrow> int"
  bn_div :: "int \<Rightarrow> int \<Rightarrow> int option"
  bn_mod :: "int \<Rightarrow> int \<Rightarrow> int option"
  bn_pow :: "int \<Rightarrow> nat \<Rightarrow> int"
  bn_shln :: "int \<Rightarrow> nat \<Rightarrow> int option"
  bn_shrn :: "int \<Rightarrow> nat \<Rightarrow> int option"
  bn_abs :: "int \<Rightarrow> int"
  bn_lt :: "int \<Rightarrow> int \<Rightarrow> bool"
  bn_gt :: "int \<Rightarrow> int \<Rightarrow> bool"
  bn_eq :: "int \<Rightarrow> int \<Rightarrow> bool"

definition trunc_div :: "int \<Rightarrow> int \<Rightarrow> int" where
  "trunc_div a b = sgn a * sgn b * (\<bar>a\<bar> div \<bar>b\<bar>)"

definition trunc_mod :: "int \<Rightarrow> int \<Rightarrow> int" where
  "trunc_mod a b = sgn a * (\<bar>a\<bar> mod \<bar>b\<bar>)"

locale bn_arith =
  fixes B :: bn_lib
  assumes add: "bn_add B x y = x + y"
    and sub: "bn_sub B x y = x - y"
    and mul: "bn_mul B x y = x * y"
    and div_zero: "bn_div B x 0 = None"
    and div_trunc: "y \<noteq> 0 \<Longrightarrow> bn_div B x y = Some (trunc_div x y)"
    and mod_zero: "bn_mod B x 0 = None"
    and mod_trunc: "y \<noteq> 0 \<Longrightarrow> bn_mod B x y = Some (trunc_mod x y)"
    and pow: "bn_pow B x n = x ^ n"
    and shln: "0 \<le> x \<Longrightarrow> bn_shln B x n = Some (x * 2 ^ n)"
    and shln_neg: "x < 0 \<Longrightarrow> bn_shln B x n = None"
    and shrn: "0 \<le> x \<Longrightarrow> bn_shrn B x n = Some (x div 2 ^ n)"
    and shrn_neg: "x < 0 \<Longrightarrow> bn_shrn B x n = None"
    and abs: "bn_abs B x = \<bar>x\<bar>"
    and lt: "bn_lt B x y \<longleftrightarrow> x < y"
    and gt: "bn_gt B x y \<longleftrightarrow> x > y"
    and eq: "bn_eq B x y \<longleftrightarrow> x = y"
begin

lemmas ops = add sub mul pow abs lt gt eq

lemma div_pos: "0 \<le> x \<Longrightarrow> 0 < y \<Longrightarrow> bn_div B x y = Some (x div y)"
  by (cases "x = 0") (simp_all add: div_trunc trunc_div_def)

lemma mod_pos: "0 \<le> x \<Longrightarrow> 0 < y \<Longrightarrow> bn_mod B x y = Some (x mod y)"
  by (cases "x = 0") (simp_all add: mod_trunc trunc_mod_def)

end

section \<open>Constants (\<open>libs/common/src/constant/numbers.ts\<close>)\<close>

definition Q32 :: "bn_lib \<Rightarrow> int" where "Q32 B = bn_pow B 2 32"
definition Q96 :: "bn_lib \<Rightarrow> int" where "Q96 B = bn_pow B 2 96"
definition Q128 :: "bn_lib \<Rightarrow> int" where "Q128 B = bn_pow B 2 128"
definition Q256 :: "bn_lib \<Rightarrow> int" where "Q256 B = bn_pow B 2 256"

definition MaxUint256 :: int where
  "MaxUint256 = 0xffffffffffffffffffffffffffffffffffffffffffffffffffffffffffffffff"

section \<open>Subtraction modulo \<open>2 ^ 256\<close> and the fee growth inside a range\<close>

record tick_data =
  tick :: int
  feeGrowthOutside0X128 :: string
  feeGrowthOutside1X128 :: string

text \<open>The variadic \<open>subIn256\<close>: a call without arguments returns \<open>undefined\<close>.\<close>

fun subIn256 :: "bn_lib \<Rightarrow> int list \<Rightarrow> int option" where
  "subIn256 B [] = None"
| "subIn256 B [num0] = Some num0"
| "subIn256 B (num0 # num1 # numbers) =
     (let difference = bn_sub B num0 num1;
          total = (if bn_lt B difference 0 then bn_add B (Q256 B) difference else difference)
      in subIn256 B (total # numbers))"

definition feeGrowthBelow :: "bn_lib \<Rightarrow> int \<Rightarrow> int \<Rightarrow> string \<Rightarrow> string \<Rightarrow> int option" where
  "feeGrowthBelow B tickCurrent lowerTick outside glob =
     (if tickCurrent \<ge> lowerTick then Some (bn_new B outside)
      else subIn256 B [bn_new B glob, bn_new B outside])"

definition feeGrowthAbove :: "bn_lib \<Rightarrow> int \<Rightarrow> int \<Rightarrow> string \<Rightarrow> string \<Rightarrow> int option" where
  "feeGrowthAbove B tickCurrent upperTick outside glob =
     (if tickCurrent < upperTick then Some (bn_new B outside)
      else subIn256 B [bn_new B glob, bn_new B outside])"

definition getTicksFeeGrowthInside ::
  "bn_lib \<Rightarrow> int \<Rightarrow> tick_data \<Rightarrow> tick_data \<Rightarrow> string \<Rightarrow> string \<Rightarrow> (int \<times> int) option" where
  "getTicksFeeGrowthInside B tickCurrent tickLower tickUpper feeGrowthGlobal0 feeGrowthGlobal1 =
     do {
       below0 \<leftarrow> feeGrowthBelow B tickCurrent (tick tickLower) (feeGrowthOutside0X128 tickLower) feeGrowthGlobal0;
       below1 \<leftarrow> feeGrowthBelow B tickCurrent (tick tickLower) (feeGrowthOutside1X128 tickLower) feeGrowthGlobal1;
       above0 \<leftarrow> feeGrowthAbove B tickCurrent (tick tickUpper) (feeGrowthOutside0X128 tickUpper) feeGrowthGlobal0;
       above1 \<leftarrow> feeGrowthAbove B tickCurrent (tick tickUpper) (feeGrowthOutside1X128 tickUpper) feeGrowthGlobal1;
       inside0 \<leftarrow> subIn256 B [bn_new B feeGrowthGlobal0, below0, above0];
       inside1 \<leftarrow> subIn256 B [bn_new B feeGrowthGlobal1, below1, above1];
       Some (inside0, inside1)
     }"

section \<open>Multiplication followed by division\<close>

definition mulDiv :: "bn_lib \<Rightarrow> int \<Rightarrow> int \<Rightarrow> int \<Rightarrow> int option" where
  "mulDiv B a b denominator = bn_div B (bn_mul B a b) denominator"

definition mulDivRoundingUp :: "bn_lib \<Rightarrow> int \<Rightarrow> int \<Rightarrow> int \<Rightarrow> int option" where
  "mulDivRoundingUp B a b denominator =
     (let product = bn_mul B a b in
      do {
        result \<leftarrow> bn_div B product denominator;
        remainder \<leftarrow> bn_mod B product denominator;
        Some (if \<not> bn_eq B remainder 0 then bn_add B result 1 else result)
      })"

definition getAmount0Delta :: "bn_lib \<Rightarrow> int \<Rightarrow> int \<Rightarrow> int \<Rightarrow> bool \<Rightarrow> int option" where
  "getAmount0Delta B ratioA ratioB liquidity roundUp =
     (let (sqrtRatioA, sqrtRatioB) = (if bn_gt B ratioA ratioB then (ratioB, ratioA) else (ratioA, ratioB))
      in do {
        numerator1 \<leftarrow> bn_shln B liquidity 96;
        let numerator2 = bn_sub B sqrtRatioB sqrtRatioA;
        if roundUp
        then do {
          inner \<leftarrow> mulDivRoundingUp B numerator1 numerator2 sqrtRatioB;
          mulDivRoundingUp B inner 1 sqrtRatioA
        }
        else do {
          inner \<leftarrow> bn_div B (bn_mul B numerator1 numerator2) sqrtRatioB;
          bn_div B inner sqrtRatioA
        }
      })"

definition getAmount1Delta :: "bn_lib \<Rightarrow> int \<Rightarrow> int \<Rightarrow> int \<Rightarrow> bool \<Rightarrow> int option" where
  "getAmount1Delta B ratioA ratioB liquidity roundUp =
     (let (sqrtRatioA, sqrtRatioB) = (if bn_gt B ratioA ratioB then (ratioB, ratioA) else (ratioA, ratioB))
      in if roundUp then mulDivRoundingUp B liquidity (bn_sub B sqrtRatioB sqrtRatioA) (Q96 B)
         else bn_div B (bn_mul B liquidity (bn_sub B sqrtRatioB sqrtRatioA)) (Q96 B))"

section \<open>The square root price of a tick\<close>

definition mulShift :: "bn_lib \<Rightarrow> int \<Rightarrow> int \<Rightarrow> int option" where
  "mulShift B val mulBy = bn_shrn B (bn_mul B val mulBy) 128"

text \<open>
  The nineteen statements \<open>if ((absTick & mask) !== 0) ratio = mulShift(ratio, factor)\<close> of the
  source are one table, run through by \<open>applyTickTable\<close> in the source's order.
\<close>

definition tickTable :: "(int \<times> int) list" where
  "tickTable =
    [(0x2, 0xfff97272373d413259a46990580e213a),
     (0x4, 0xfff2e50f5f656932ef12357cf3c7fdcc),
     (0x8, 0xffe5caca7e10e4e61c3624eaa0941cd0),
     (0x10, 0xffcb9843d60f6159c9db58835c926644),
     (0x20, 0xff973b41fa98c081472e6896dfb254c0),
     (0x40, 0xff2ea16466c96a3843ec78b326b52861),
     (0x80, 0xfe5dee046a99a2a811c461f1969c3053),
     (0x100, 0xfcbe86c7900a88aedcffc83b479aa3a4),
     (0x200, 0xf987a7253ac413176f2b074cf7815e54),
     (0x400, 0xf3392b0822b70005940c7a398e4b70f3),
     (0x800, 0xe7159475a2c29b7443b29c7fa6e889d9),
     (0x1000, 0xd097f3bdfd2022b8845ad8f792aa5825),
     (0x2000, 0xa9f746462d870fdf8a65dc1f90e061e5),
     (0x4000, 0x70d869a156d2a1b890bb3df62baf32f7),
     (0x8000, 0x31be135f97d08fd981231505542fcfa6),
     (0x10000, 0x9aa508b5b7a84e1c677de54f3e99bc9),
     (0x20000, 0x5d6af8dedb81196699c329225ee604),
     (0x40000, 0x2216e584f5fa1ea926041bedfe98),
     (0x80000, 0x48a170391f7dc42444e8fa2)]"

fun applyTickTable :: "bn_lib \<Rightarrow> int \<Rightarrow> (int \<times> int) list \<Rightarrow> int \<Rightarrow> int option" where
  "applyTickTable B absTick [] ratio = Some ratio"
| "applyTickTable B absTick ((msk, factor) # rest) ratio =
     (if absTick AND msk \<noteq> 0
      then do { ratio' \<leftarrow> mulShift B ratio factor; applyTickTable B absTick rest ratio' }
      else applyTickTable B absTick rest ratio)"

definition getSqrtRatioAtTick :: "bn_lib \<Rightarrow> int \<Rightarrow> int option" where
  "getSqrtRatioAtTick B t =
     (let absTick = (if t < 0 then t * -1 else t);
          ratio0 = (if absTick AND 0x1 \<noteq> 0 then 0xfffcb933bd6fad37aa2d162d1a594001
                    else 0x100000000000000000000000000000000)
      in do {
        ratio1 \<leftarrow> applyTickTable B absTick tickTable ratio0;
        ratio \<leftarrow> (if t > 0 then bn_div B MaxUint256 ratio1 else Some ratio1);
        remainder \<leftarrow> bn_mod B ratio (Q32 B);
        quotient \<leftarrow> bn_div B ratio (Q32 B);
        Some (if bn_gt B remainder 0 then bn_add B quotient 1 else quotient)
      })"

section \<open>The exported entry points\<close>

definition calculateTokensOwed ::
  "bn_lib \<Rightarrow> int \<Rightarrow> tick_data \<Rightarrow> tick_data \<Rightarrow> string \<Rightarrow> string \<Rightarrow> string \<Rightarrow> string \<Rightarrow> string
    \<Rightarrow> (string \<times> string) option" where
  "calculateTokensOwed B tickCurrent tickLower tickUpper inside0Last inside1Last global0 global1 liquidity =
     do {
       (inside0, inside1) \<leftarrow> getTicksFeeGrowthInside B tickCurrent tickLower tickUpper global0 global1;
       amount0 \<leftarrow> mulDiv B (bn_sub B inside0 (bn_new B inside0Last)) (bn_new B liquidity) (Q128 B);
       amount1 \<leftarrow> mulDiv B (bn_sub B inside1 (bn_new B inside1Last)) (bn_new B liquidity) (Q128 B);
       Some (bn_toString B (bn_abs B amount0), bn_toString B (bn_abs B amount1))
     }"

text \<open>
  \<open>normalizeToString\<close> converts to a double, divides and prints; it is the parameter \<open>printed\<close>.
\<close>

definition calculatePositionAmounts ::
  "bn_lib \<Rightarrow> (int \<Rightarrow> int \<Rightarrow> string) \<Rightarrow> int \<Rightarrow> int \<Rightarrow> int \<Rightarrow> string \<Rightarrow> string \<Rightarrow> int \<Rightarrow> int
    \<Rightarrow> (string \<times> string) option" where
  "calculatePositionAmounts B printed tickCurrent tickLower tickUpper liquidity sqrtPrice
       token0Decimal token1Decimal =
     (let bnLiquidity = bn_new B liquidity; sqrtRatio = bn_new B sqrtPrice in
      if tickCurrent < tickLower then do {
        lower \<leftarrow> getSqrtRatioAtTick B tickLower;
        upper \<leftarrow> getSqrtRatioAtTick B tickUpper;
        amount0 \<leftarrow> getAmount0Delta B lower upper bnLiquidity True;
        Some (printed amount0 token0Decimal, ''0'')
      }
      else if tickCurrent < tickUpper then do {
        upper \<leftarrow> getSqrtRatioAtTick B tickUpper;
        amount0 \<leftarrow> getAmount0Delta B sqrtRatio upper bnLiquidity True;
        lower \<leftarrow> getSqrtRatioAtTick B tickLower;
        amount1 \<leftarrow> getAmount1Delta B lower sqrtRatio bnLiquidity True;
        Some (printed amount0 token0Decimal, printed amount1 token1Decimal)
      }
      else do {
        lower \<leftarrow> getSqrtRatioAtTick B tickLower;
        upper \<leftarrow> getSqrtRatioAtTick B tickUpper;
        amount1 \<leftarrow> getAmount1Delta B lower upper bnLiquidity True;
        Some (''0'', printed amount1 token1Decimal)
      })"

section \<open>A concrete instance of the package\<close>

definition bn_int :: bn_lib where
  "bn_int = \<lparr> bn_new = (\<lambda>s. foldl (\<lambda>n c. 10 * n + (int (of_char c) - 48)) 0 s),
     bn_toString = (\<lambda>x. if x < 0 then CHR ''-'' # decimal (nat (- x)) else decimal (nat x)),
     bn_add = (+), bn_sub = (-), bn_mul = (*),
     bn_div = (\<lambda>x y. if y = 0 then None else Some (trunc_div x y)),
     bn_mod = (\<lambda>x y. if y = 0 then None else Some (trunc_mod x y)),
     bn_pow = (^),
     bn_shln = (\<lambda>x n. if x < 0 then None else Some (x * 2 ^ n)),
     bn_shrn = (\<lambda>x n. if x < 0 then None else Some (x div 2 ^ n)),
     bn_abs = abs, bn_lt = (<), bn_gt = (>), bn_eq = (=) \<rparr>"

interpretation bn_int: bn_arith bn_int
  by unfold_locales (simp_all add: bn_int_def)

context bn_arith
begin

lemma Q_values: "Q32 B = 2 ^ 32" "Q96 B = 2 ^ 96" "Q128 B = 2 ^ 128" "Q256 B = 2 ^ 256"
  by (simp_all add: Q32_def Q96_def Q128_def Q256_def pow)

lemma mulDivRoundingUp_pos:
  assumes "0 \<le> a" "0 \<le> b" "0 < d"
  shows "mulDivRoundingUp B a b d = Some ((a * b) div d + (if d dvd a * b then 0 else 1))"
  using assms by (simp add: mulDivRoundingUp_def ops div_pos mod_pos Let_def dvd_eq_mod_eq_0)

lemma mulDiv_trunc: "d \<noteq> 0 \<Longrightarrow> mulDiv B a b d = Some (trunc_div (a * b) d)"
  by (simp add: mulDiv_def ops div_trunc)

end

section \<open>Ceiling division\<close>

definition ceil_div :: "int \<Rightarrow> int \<Rightarrow> int" where
  "ceil_div x y = x div y + (if y dvd x then 0 else 1)"

lemma floor_div_bounds:
  fixes x d :: int
  assumes "0 < d"
  shows "x div d * d \<le> x" "x < (x div d + 1) * d" "\<not> d dvd x \<Longrightarrow> x div d * d < x"
proof -
  have m: "x div d * d = x - x mod d" by (simp add: minus_mod_eq_div_mult)
  note r = pos_mod_sign[OF assms, of x] pos_mod_bound[OF assms, of x]
  show "x div d * d \<le> x" "x < (x div d + 1) * d" using r by (simp_all only: distrib_right m)
  assume "\<not> d dvd x"
  then have "x mod d \<noteq> 0" by (simp add: dvd_eq_mod_eq_0)
  then show "x div d * d < x" using r unfolding m by linarith
qed

lemma ceil_div_le_iff:
  assumes y: "0 < y"
  shows "ceil_div x y \<le> q \<longleftrightarrow> x \<le> q * y"
proof (cases "y dvd x")
  case True
  then obtain k where "x = y * k" by (rule dvdE)
  then show ?thesis using y by (simp add: ceil_div_def mult.commute[of q y])
next
  case False
  have "x div y < q \<longleftrightarrow> x \<le> q * y"
  proof
    assume "x div y < q"
    then have "(x div y + 1) * y \<le> q * y" using y by (intro mult_right_mono) auto
    then show "x \<le> q * y" using floor_div_bounds(2)[OF y, of x] by linarith
  next
    assume "x \<le> q * y"
    then have "x div y * y < q * y" using floor_div_bounds(3)[OF y False] by linarith
    then show "x div y < q" using y by simp
  qed
  then show ?thesis using False by (simp add: ceil_div_def add1_zle_eq)
qed

lemma ceil_div_ceil_div:
  assumes "0 < a" "0 < b"
  shows "ceil_div (ceil_div x b) a = ceil_div x (a * b)"
proof -
  have "ceil_div (ceil_div x b) a \<le> q \<longleftrightarrow> ceil_div x (a * b) \<le> q" for q
    using assms by (simp add: ceil_div_le_iff ac_simps)
  then show ?thesis by (meson order_antisym order_refl)
qed

lemma ceil_div_bounds: "x div y \<le> ceil_div x y" "ceil_div x y \<le> x div y + 1"
  by (simp_all add: ceil_div_def)

lemma ceil_div_nonneg: "0 \<le> x \<Longrightarrow> 0 < y \<Longrightarrow> 0 \<le> ceil_div x y"
  by (simp add: ceil_div_def pos_imp_zdiv_nonneg_iff)

context bn_arith
begin

lemma mulDivRoundingUp_ceil:
  "0 \<le> a \<Longrightarrow> 0 \<le> b \<Longrightarrow> 0 < d \<Longrightarrow> mulDivRoundingUp B a b d = Some (ceil_div (a * b) d)"
  by (simp add: mulDivRoundingUp_pos ceil_div_def)

lemma getAmount0Delta_value:
  assumes "0 < a" "0 < b" "0 \<le> L"
  shows "getAmount0Delta B a b L up =
    (let x = L * 2 ^ 96 * \<bar>b - a\<bar> in Some (if up then ceil_div x (a * b) else x div (a * b)))"
proof (cases "a > b")
  case True
  with assms show ?thesis
    by (simp add: getAmount0Delta_def ops shln mulDivRoundingUp_ceil ceil_div_nonneg
        ceil_div_ceil_div div_pos pos_imp_zdiv_nonneg_iff zdiv_zmult2_eq[symmetric] ac_simps Let_def)
next
  case False
  with assms show ?thesis
    by (simp add: getAmount0Delta_def ops shln mulDivRoundingUp_ceil ceil_div_nonneg
        ceil_div_ceil_div div_pos pos_imp_zdiv_nonneg_iff zdiv_zmult2_eq[symmetric] ac_simps Let_def)
qed

lemma getAmount1Delta_value:
  assumes "0 \<le> L"
  shows "getAmount1Delta B a b L up =
    (let x = L * \<bar>b - a\<bar> in Some (if up then ceil_div x (2 ^ 96) else x div (2 ^ 96)))"
  using assms
  by (cases "a > b") (simp_all add: getAmount1Delta_def ops Q_values mulDivRoundingUp_ceil div_pos Let_def)

end

section \<open>The tick table\<close>

text \<open>The same table run without exceptions: each row multiplies by its factor over \<open>2 ^ 128\<close>.\<close>

fun shiftAll :: "(int \<Rightarrow> bool) \<Rightarrow> (int \<times> int) list \<Rightarrow> int \<Rightarrow> int" where
  "shiftAll sel [] r = r"
| "shiftAll sel ((m, c) # rest) r = shiftAll sel rest (if sel m then r * c div 2 ^ 128 else r)"

definition factors_ok :: "(int \<times> int) list \<Rightarrow> bool" where
  "factors_ok tab \<longleftrightarrow> list_all (\<lambda>(m, c). 0 \<le> c \<and> c \<le> 2 ^ 128) tab"

lemma factors_ok_tickTable: "factors_ok tickTable"
  by (simp add: factors_ok_def tickTable_def)

lemma shift_le:
  fixes r c :: int
  assumes "0 \<le> r" "0 \<le> c" "c \<le> 2 ^ 128"
  shows "r * c div 2 ^ 128 \<le> r" "0 \<le> r * c div 2 ^ 128"
proof -
  have "r * c \<le> r * 2 ^ 128" using assms by (simp add: mult_left_mono)
  then have "r * c div 2 ^ 128 \<le> r * 2 ^ 128 div 2 ^ 128" by (rule zdiv_mono1) simp
  then show "r * c div 2 ^ 128 \<le> r" by simp
  show "0 \<le> r * c div 2 ^ 128" using assms by (simp add: pos_imp_zdiv_nonneg_iff)
qed

lemma shift_mono:
  fixes r s c :: int
  shows "r \<le> s \<Longrightarrow> 0 \<le> c \<Longrightarrow> r * c div 2 ^ 128 \<le> s * c div 2 ^ 128"
  by (intro zdiv_mono1 mult_right_mono) auto

lemma shiftAll_bounds:
  assumes "factors_ok tab" "0 \<le> r" "r \<le> s"
  shows "shiftAll (\<lambda>_. True) tab r \<le> shiftAll sel tab s \<and> 0 \<le> shiftAll sel tab r
    \<and> shiftAll sel tab s \<le> s"
  using assms
proof (induction tab arbitrary: r s)
  case (Cons mc tab)
  obtain m c where mc: "mc = (m, c)" by (cases mc)
  have ok: "factors_ok tab" "0 \<le> c" "c \<le> 2 ^ 128" using Cons.prems by (auto simp: factors_ok_def mc)
  let ?sh = "\<lambda>x. x * c div 2 ^ 128"
  have sr: "?sh r \<le> r" "0 \<le> ?sh r" "?sh r \<le> ?sh s" "?sh s \<le> s" "0 \<le> ?sh s"
    using shift_le[of r c] shift_le[of s c] shift_mono[of r s c] ok Cons.prems by auto
  show ?case
  proof (cases "sel m")
    case True
    with Cons.IH[OF ok(1), of "?sh r" "?sh s"] sr show ?thesis by (auto simp: mc)
  next
    case False
    with Cons.IH[OF ok(1), of "?sh r" s] Cons.IH[OF ok(1), of r s] sr Cons.prems show ?thesis
      by (auto simp: mc)
  qed
qed auto

context bn_arith
begin

lemma applyTickTable_shiftAll:
  "factors_ok tab \<Longrightarrow> 0 \<le> r \<Longrightarrow>
   applyTickTable B t tab r = Some (shiftAll (\<lambda>m. t AND m \<noteq> 0) tab r)"
proof (induction tab arbitrary: r)
  case (Cons mc tab)
  obtain m c where mc: "mc = (m, c)" by (cases mc)
  have ok: "factors_ok tab" "0 \<le> c" "c \<le> 2 ^ 128" using Cons.prems by (auto simp: factors_ok_def mc)
  show ?case
    using Cons.IH[OF ok(1)] Cons.prems(2) shift_le(2)[OF Cons.prems(2) ok(2,3)] ok(2)
    by (simp add: mc mulShift_def ops shrn)
qed simp

end

text \<open>The price of \<open>-|t|\<close> as a \<open>Q128\<close> number, before rounding to \<open>Q96\<close>.\<close>

definition rawRatio :: "int \<Rightarrow> int" where
  "rawRatio t = shiftAll (\<lambda>m. \<bar>t\<bar> AND m \<noteq> 0) tickTable
     (if \<bar>t\<bar> AND 0x1 \<noteq> 0 then 0xfffcb933bd6fad37aa2d162d1a594001 else 2 ^ 128)"

lemma rawRatio_bounds: "2 ^ 52 < rawRatio t" "rawRatio t \<le> 2 ^ 128"
proof -
  let ?r0 = "if \<bar>t\<bar> AND 0x1 \<noteq> 0 then 0xfffcb933bd6fad37aa2d162d1a594001 else 2 ^ 128 :: int"
  have r0: "(0::int) \<le> 0xfffcb933bd6fad37aa2d162d1a594001"
    "0xfffcb933bd6fad37aa2d162d1a594001 \<le> ?r0" "?r0 \<le> 2 ^ 128"
    by auto
  note b = shiftAll_bounds[OF factors_ok_tickTable r0(1,2), of "\<lambda>m. \<bar>t\<bar> AND m \<noteq> 0"]
  have "(2::int) ^ 52 < shiftAll (\<lambda>_. True) tickTable 0xfffcb933bd6fad37aa2d162d1a594001"
    by (simp add: tickTable_def)
  with b show "2 ^ 52 < rawRatio t" unfolding rawRatio_def by linarith
  from b r0(3) show "rawRatio t \<le> 2 ^ 128" unfolding rawRatio_def by linarith
qed

context bn_arith
begin

lemma getSqrtRatioAtTick_value:
  "getSqrtRatioAtTick B t =
     Some (ceil_div (if t > 0 then MaxUint256 div rawRatio t else rawRatio t) (2 ^ 32))"
proof -
  have abs: "(if t < 0 then t * -1 else t) = \<bar>t\<bar>" by simp
  have r: "0 < rawRatio t" using rawRatio_bounds(1)[of t] by simp
  have raw: "applyTickTable B \<bar>t\<bar> tickTable
      (if \<bar>t\<bar> AND 0x1 \<noteq> 0 then 0xfffcb933bd6fad37aa2d162d1a594001
       else 0x100000000000000000000000000000000) = Some (rawRatio t)"
    by (simp add: applyTickTable_shiftAll factors_ok_tickTable rawRatio_def)
  define q where "q = (if t > 0 then MaxUint256 div rawRatio t else rawRatio t)"
  have q0: "0 \<le> q" using r by (simp add: q_def MaxUint256_def pos_imp_zdiv_nonneg_iff)
  have step: "(if t > 0 then bn_div B MaxUint256 (rawRatio t) else Some (rawRatio t)) = Some q"
    using r by (simp add: q_def div_pos MaxUint256_def)
  have up: "0 < q mod 2 ^ 32 \<longleftrightarrow> \<not> 2 ^ 32 dvd q"
    using pos_mod_sign[of "2 ^ 32" q] by (auto simp: dvd_eq_mod_eq_0 simp del: pos_mod_sign)
  show ?thesis
    unfolding getSqrtRatioAtTick_def Let_def abs raw q_def[symmetric]
    using up by (simp add: step Q_values div_pos mod_pos q0 ops ceil_div_def)
qed

end

lemma ceil_div_mono: "x \<le> y \<Longrightarrow> 0 < d \<Longrightarrow> ceil_div x d \<le> ceil_div y d"
  using ceil_div_le_iff[of d x "ceil_div y d"] ceil_div_le_iff[of d y "ceil_div y d"] by linarith


section \<open>Properties\<close>

lemma ceil_div_ge: "q * y < x \<Longrightarrow> 0 < y \<Longrightarrow> q < ceil_div x y"
  using ceil_div_le_iff[of y x q] by linarith

text \<open>C40: \<open>getSqrtRatioAtTick\<close> returns for every integer tick (no division by zero, no
  failed assertion), and the price lies on the right side of \<open>1 = 2 ^ 96\<close> in \<open>Q96\<close>: above \<open>2 ^ 20\<close> and at most
  \<open>2 ^ 96\<close> for ticks that are not positive, between \<open>2 ^ 96\<close> and \<open>2 ^ 172\<close> for positive ones.\<close>

theorem getSqrtRatioAtTick_bounds:
  assumes "bn_arith B"
  shows "\<exists>r. getSqrtRatioAtTick B t = Some r \<and>
    (t \<le> 0 \<longrightarrow> 2 ^ 20 < r \<and> r \<le> 2 ^ 96) \<and> (t > 0 \<longrightarrow> 2 ^ 96 \<le> r \<and> r \<le> 2 ^ 172)"
proof -
  note raw = rawRatio_bounds[of t]
  have up: "MaxUint256 div rawRatio t \<le> MaxUint256 div 2 ^ 52"
    using raw by (intro zdiv_mono2) (auto simp: MaxUint256_def)
  have lo: "MaxUint256 div 2 ^ 128 \<le> MaxUint256 div rawRatio t"
    using raw by (intro zdiv_mono2) (auto simp: MaxUint256_def)
  have pos: "(2::int) ^ 96 - 1 < ceil_div (MaxUint256 div rawRatio t) (2 ^ 32)"
    using lo by (intro ceil_div_ge) (simp_all add: MaxUint256_def)
  moreover have "ceil_div (MaxUint256 div rawRatio t) (2 ^ 32) \<le> 2 ^ 172"
    using up by (simp add: ceil_div_le_iff MaxUint256_def)
  moreover have "2 ^ 20 < ceil_div (rawRatio t) (2 ^ 32)"
    using raw by (intro ceil_div_ge) simp_all
  moreover have "ceil_div (rawRatio t) (2 ^ 32) \<le> 2 ^ 96"
    using raw by (simp add: ceil_div_le_iff)
  ultimately show ?thesis
    by (simp add: bn_arith.getSqrtRatioAtTick_value[OF assms])
qed

text \<open>At the lowest tick, at zero and at the highest tick of Uniswap V3 the price is exactly the
  constant \<open>MIN_SQRT_RATIO\<close>, \<open>2 ^ 96\<close> and \<open>MAX_SQRT_RATIO\<close> of the protocol.\<close>

theorem getSqrtRatioAtTick_known:
  assumes "bn_arith B"
  shows "getSqrtRatioAtTick B (-887272) = Some 4295128739
    \<and> getSqrtRatioAtTick B 0 = Some (2 ^ 96)
    \<and> getSqrtRatioAtTick B 887272 = Some 1461446703485210103287273052203988822378723970342"
  by (simp add: bn_arith.getSqrtRatioAtTick_value[OF assms] rawRatio_def tickTable_def ceil_div_def MaxUint256_def)

text \<open>For positive prices and a liquidity that is not negative, \<open>getAmount0Delta\<close> is
  the exact quotient \<open>L * 2^96 * |b - a| / (a * b)\<close> rounded down or up, although the code rounds twice, and
  it does not depend on the order of the two prices.\<close>

theorem getAmount0Delta_exact:
  assumes "bn_arith B" "0 < a" "0 < b" "0 \<le> L"
  shows "\<exists>down up. getAmount0Delta B a b L False = Some down \<and> getAmount0Delta B a b L True = Some up
    \<and> down * (a * b) \<le> L * 2 ^ 96 * \<bar>b - a\<bar> \<and> L * 2 ^ 96 * \<bar>b - a\<bar> < (down + 1) * (a * b)
    \<and> (up - 1) * (a * b) < L * 2 ^ 96 * \<bar>b - a\<bar> \<and> L * 2 ^ 96 * \<bar>b - a\<bar> \<le> up * (a * b)
    \<and> 0 \<le> down \<and> getAmount0Delta B b a L False = Some down \<and> getAmount0Delta B b a L True = Some up"
proof -
  define x d where "x = L * 2 ^ 96 * \<bar>b - a\<bar>" and "d = a * b"
  have d: "0 < d" and x: "0 \<le> x" using assms by (simp_all add: x_def d_def)
  note v = bn_arith.getAmount0Delta_value[OF assms(1)]
  have "x div d * d \<le> x" "x < (x div d + 1) * d" "0 \<le> x div d"
    using d x floor_div_bounds[OF d, of x] by (simp_all add: pos_imp_zdiv_nonneg_iff)
  moreover have "x \<le> ceil_div x d * d" "(ceil_div x d - 1) * d < x"
    using ceil_div_le_iff[OF d, of x "ceil_div x d"] ceil_div_le_iff[OF d, of x "ceil_div x d - 1"] by auto
  ultimately show ?thesis
    using assms by (simp add: v x_def d_def abs_minus_commute[of a b] mult.commute[of b a])
qed

text \<open>For a liquidity that is not negative, \<open>getAmount1Delta\<close> is \<open>L * |b - a| / 2^96\<close>
  rounded down or up, whatever the order of the prices.\<close>

theorem getAmount1Delta_exact:
  assumes "bn_arith B" "0 \<le> L"
  shows "\<exists>down up. getAmount1Delta B a b L False = Some down \<and> getAmount1Delta B a b L True = Some up
    \<and> down * 2 ^ 96 \<le> L * \<bar>b - a\<bar> \<and> L * \<bar>b - a\<bar> < (down + 1) * 2 ^ 96
    \<and> (up - 1) * 2 ^ 96 < L * \<bar>b - a\<bar> \<and> L * \<bar>b - a\<bar> \<le> up * 2 ^ 96
    \<and> 0 \<le> down \<and> getAmount1Delta B b a L False = Some down \<and> getAmount1Delta B b a L True = Some up"
proof -
  define x where "x = L * \<bar>b - a\<bar>"
  have d: "(0::int) < 2 ^ 96" and x: "0 \<le> x" using assms by (simp_all add: x_def)
  note fl = floor_div_bounds[OF d, of x] and
    ce = ceil_div_le_iff[OF d, of x "ceil_div x (2 ^ 96)"] ceil_div_le_iff[OF d, of x "ceil_div x (2 ^ 96) - 1"]
  have v: "getAmount1Delta B a b L up = Some (if up then ceil_div x (2 ^ 96) else x div 2 ^ 96)"
    "getAmount1Delta B b a L up = Some (if up then ceil_div x (2 ^ 96) else x div 2 ^ 96)" for up
    unfolding bn_arith.getAmount1Delta_value[OF assms] x_def by (simp_all add: abs_minus_commute[of a b] Let_def)
  have "0 \<le> x div 2 ^ 96" using x by (simp add: pos_imp_zdiv_nonneg_iff)
  then show ?thesis unfolding x_def[symmetric] v using fl ce by auto
qed

text \<open>Numbers of the range \<open>0 .. 2 ^ 256 - 1\<close>, read as the 256-bit words of the contract.\<close>

type_synonym u256 = "256 word"

definition in256 :: "int \<Rightarrow> bool" where
  "in256 n \<longleftrightarrow> 0 \<le> n \<and> n < 2 ^ 256"

lemma in256_word: "in256 n \<Longrightarrow> uint (word_of_int n :: u256) = n"
  by (simp add: in256_def uint_word_of_int)

lemma wi_2_256: "(word_of_int (2 ^ 256) :: u256) = 0"
  by (simp add: word_of_int_eq_iff take_bit_eq_mod)

definition sub256 :: "int \<Rightarrow> int \<Rightarrow> int" where
  "sub256 x y = (if x - y < 0 then 2 ^ 256 + (x - y) else x - y)"

lemma sub256_in256: "in256 x \<Longrightarrow> in256 y \<Longrightarrow> in256 (sub256 x y)"
  by (simp add: in256_def sub256_def)

lemma sub256_word: "(word_of_int (sub256 x y) :: u256) = word_of_int x - word_of_int y"
proof -
  have "(word_of_int (2 ^ 256 + (x - y)) :: u256) = word_of_int (x - y)"
    by (simp only: wi_hom_add[symmetric] wi_2_256 add_0)
  then show ?thesis by (auto simp only: sub256_def wi_hom_sub[symmetric] split: if_split)
qed

context bn_arith
begin

lemma subIn256_step: "subIn256 B (n # n1 # ns) = subIn256 B (sub256 n n1 # ns)"
  by (simp add: ops Q_values Let_def sub256_def)

lemma subIn256_Cons:
  "in256 n \<Longrightarrow> list_all in256 ns \<Longrightarrow> \<exists>r. subIn256 B (n # ns) = Some r \<and> in256 r
    \<and> (word_of_int r :: u256) = foldl (-) (word_of_int n) (map word_of_int ns)"
proof (induction ns arbitrary: n)
  case (Cons n1 ns)
  then show ?case
    using Cons.IH[of "sub256 n n1"] by (simp add: subIn256_step sub256_in256 sub256_word del: subIn256.simps)
qed simp

end

text \<open>On numbers of 256 bits the variadic \<open>subIn256\<close> is the chain of wrapping subtractions on
  256-bit words, and its result is again a number of 256 bits.\<close>

theorem subIn256_word:
  assumes "bn_arith B" "list_all in256 (n # ns)"
  shows "\<exists>r. subIn256 B (n # ns) = Some r \<and> in256 r \<and>
    (word_of_int r :: u256) = foldl (-) (word_of_int n) (map word_of_int ns)"
  using bn_arith.subIn256_Cons[OF assms(1)] assms(2) by simp

text \<open>
  The fee growth inside a range as the contract defines it on 256-bit words: what accrued
  below the range, inside it, or above it, depending on where the current tick is.
\<close>

definition growthInside :: "int \<Rightarrow> int \<Rightarrow> int \<Rightarrow> u256 \<Rightarrow> u256 \<Rightarrow> u256 \<Rightarrow> u256" where
  "growthInside current lower upper glob outLower outUpper =
     (if current < lower then outLower - outUpper
      else if current < upper then glob - outLower - outUpper
      else outUpper - outLower)"

lemma subIn256_2:
  assumes "bn_arith B" "in256 x" "in256 y"
  obtains r where "subIn256 B [x, y] = Some r" "in256 r" "(word_of_int r :: u256) = word_of_int x - word_of_int y"
  using bn_arith.subIn256_Cons[OF assms(1,2), of "[y]"] assms(3) by auto

lemma subIn256_3:
  assumes "bn_arith B" "in256 x" "in256 y" "in256 z"
  obtains r where "subIn256 B [x, y, z] = Some r" "in256 r"
    "(word_of_int r :: u256) = word_of_int x - word_of_int y - word_of_int z"
  using bn_arith.subIn256_Cons[OF assms(1,2), of "[y, z]"] assms(3,4) by auto

lemma growth_component:
  assumes B: "bn_arith B" and le: "lower \<le> upper"
    and rng: "in256 (bn_new B g)" "in256 (bn_new B lo)" "in256 (bn_new B up)"
  obtains below above i where
    "feeGrowthBelow B current lower lo g = Some below"
    "feeGrowthAbove B current upper up g = Some above"
    "subIn256 B [bn_new B g, below, above] = Some i" "in256 i"
    "(word_of_int i :: u256) = growthInside current lower upper (word_of_int (bn_new B g))
       (word_of_int (bn_new B lo)) (word_of_int (bn_new B up))"
proof -
  let ?w = "\<lambda>n. word_of_int n :: u256"
  obtain below where b: "feeGrowthBelow B current lower lo g = Some below" "in256 below"
    "?w below = (if current \<ge> lower then ?w (bn_new B lo) else ?w (bn_new B g) - ?w (bn_new B lo))"
    by (cases "current \<ge> lower")
      (use rng(2) subIn256_2[OF B rng(1,2)] in \<open>auto simp: feeGrowthBelow_def\<close>)
  obtain above where a: "feeGrowthAbove B current upper up g = Some above" "in256 above"
    "?w above = (if current < upper then ?w (bn_new B up) else ?w (bn_new B g) - ?w (bn_new B up))"
    by (cases "current < upper")
      (use rng(3) subIn256_2[OF B rng(1,3)] in \<open>auto simp: feeGrowthAbove_def\<close>)
  obtain i where i: "subIn256 B [bn_new B g, below, above] = Some i" "in256 i"
    "?w i = ?w (bn_new B g) - ?w below - ?w above"
    by (rule subIn256_3[OF B rng(1) b(2) a(2)])
  have "?w i = growthInside current lower upper (?w (bn_new B g)) (?w (bn_new B lo)) (?w (bn_new B up))"
    using le unfolding i(3) b(3) a(3) growthInside_def by auto
  with that b(1) a(1) i(1,2) show thesis by blast
qed

text \<open>C31: For ordered ticks and growth values of 256 bits, \<open>getTicksFeeGrowthInside\<close>
  computes, for both tokens, the growth inside the range as the contract defines it with wrapping arithmetic.\<close>

theorem getTicksFeeGrowthInside_word:
  assumes "bn_arith B" "tick lo \<le> tick up"
    and "list_all in256 (map (bn_new B) [g0, g1, feeGrowthOutside0X128 lo, feeGrowthOutside1X128 lo,
      feeGrowthOutside0X128 up, feeGrowthOutside1X128 up])"
  shows "\<exists>i0 i1. getTicksFeeGrowthInside B current lo up g0 g1 = Some (i0, i1) \<and> in256 i0 \<and> in256 i1
    \<and> (word_of_int i0 :: u256) = growthInside current (tick lo) (tick up) (word_of_int (bn_new B g0))
        (word_of_int (bn_new B (feeGrowthOutside0X128 lo))) (word_of_int (bn_new B (feeGrowthOutside0X128 up)))
    \<and> (word_of_int i1 :: u256) = growthInside current (tick lo) (tick up) (word_of_int (bn_new B g1))
        (word_of_int (bn_new B (feeGrowthOutside1X128 lo))) (word_of_int (bn_new B (feeGrowthOutside1X128 up)))"
proof -
  from assms(3) have rng: "in256 (bn_new B g0)" "in256 (bn_new B g1)"
    "in256 (bn_new B (feeGrowthOutside0X128 lo))" "in256 (bn_new B (feeGrowthOutside0X128 up))"
    "in256 (bn_new B (feeGrowthOutside1X128 lo))" "in256 (bn_new B (feeGrowthOutside1X128 up))"
    by simp_all
  obtain b0 a0 i0 where c0: "feeGrowthBelow B current (tick lo) (feeGrowthOutside0X128 lo) g0 = Some b0"
    "feeGrowthAbove B current (tick up) (feeGrowthOutside0X128 up) g0 = Some a0"
    "subIn256 B [bn_new B g0, b0, a0] = Some i0" "in256 i0"
    "(word_of_int i0 :: u256) = growthInside current (tick lo) (tick up) (word_of_int (bn_new B g0))
        (word_of_int (bn_new B (feeGrowthOutside0X128 lo))) (word_of_int (bn_new B (feeGrowthOutside0X128 up)))"
    by (rule growth_component[OF assms(1,2) rng(1,3,4)])
  obtain b1 a1 i1 where c1: "feeGrowthBelow B current (tick lo) (feeGrowthOutside1X128 lo) g1 = Some b1"
    "feeGrowthAbove B current (tick up) (feeGrowthOutside1X128 up) g1 = Some a1"
    "subIn256 B [bn_new B g1, b1, a1] = Some i1" "in256 i1"
    "(word_of_int i1 :: u256) = growthInside current (tick lo) (tick up) (word_of_int (bn_new B g1))
        (word_of_int (bn_new B (feeGrowthOutside1X128 lo))) (word_of_int (bn_new B (feeGrowthOutside1X128 up)))"
    by (rule growth_component[OF assms(1,2) rng(2,5,6)])
  show ?thesis
    unfolding getTicksFeeGrowthInside_def using c0(4,5) c1(4,5)
    by (simp add: c0(1,2,3) c1(1,2,3) del: subIn256.simps)
qed

section \<open>Fees owed\<close>

text \<open>What the contract pays: the growth since the last collection is again taken modulo \<open>2 ^ 256\<close>.\<close>

definition contractOwed :: "int \<Rightarrow> int \<Rightarrow> int \<Rightarrow> int" where
  "contractOwed inside lastInside liquidity =
     uint (word_of_int inside - word_of_int lastInside :: u256) * liquidity div 2 ^ 128"

lemma abs_trunc_div: "\<bar>trunc_div x y\<bar> = \<bar>x\<bar> div \<bar>y\<bar>"
  by (cases "x = 0"; cases "y = 0")
    (simp_all add: trunc_div_def abs_mult abs_sgn_eq pos_imp_zdiv_nonneg_iff)

lemma calculateTokensOwed_value:
  assumes B: "bn_arith B"
    and inside: "getTicksFeeGrowthInside B current lo up g0 g1 = Some (i0, i1)"
    and L: "0 \<le> bn_new B liquidity"
  shows "calculateTokensOwed B current lo up l0 l1 g0 g1 liquidity =
    Some (bn_toString B (\<bar>i0 - bn_new B l0\<bar> * bn_new B liquidity div 2 ^ 128),
          bn_toString B (\<bar>i1 - bn_new B l1\<bar> * bn_new B liquidity div 2 ^ 128))"
  using L by (simp add: calculateTokensOwed_def inside bn_arith.mulDiv_trunc[OF B]
      bn_arith.Q_values[OF B] bn_arith.ops[OF B] abs_trunc_div abs_mult)

lemma contractOwed_unwrapped:
  assumes "in256 inside" "in256 lst" "lst \<le> inside"
  shows "contractOwed inside lst L = (inside - lst) * L div 2 ^ 128"
proof -
  have "in256 (inside - lst)" using assms by (simp add: in256_def)
  then have "uint (word_of_int (inside - lst) :: u256) = inside - lst" by (rule in256_word)
  then show ?thesis by (simp add: contractOwed_def)
qed

lemma contractOwed_wrapped:
  assumes "in256 inside" "in256 lst" "inside < lst"
  shows "contractOwed inside lst L = (2 ^ 256 - (lst - inside)) * L div 2 ^ 128"
proof -
  have "in256 (sub256 inside lst)" using assms by (intro sub256_in256)
  then have "uint (word_of_int (sub256 inside lst) :: u256) = sub256 inside lst" by (rule in256_word)
  moreover have "(word_of_int inside - word_of_int lst :: u256) = word_of_int (sub256 inside lst)"
    by (simp only: sub256_word)
  moreover have "sub256 inside lst = 2 ^ 256 - (lst - inside)"
    using assms(3) by (simp add: sub256_def)
  ultimately show ?thesis unfolding contractOwed_def by argo
qed

text \<open>When the growth inside the range has not wrapped since the last collection,
  \<open>calculateTokensOwed\<close> prints exactly the amounts the contract owes.\<close>

theorem calculateTokensOwed_contract:
  assumes "bn_arith B" "getTicksFeeGrowthInside B current lo up g0 g1 = Some (i0, i1)"
    and "list_all in256 [i0, i1, bn_new B l0, bn_new B l1]" "0 \<le> bn_new B liquidity"
    and "bn_new B l0 \<le> i0" "bn_new B l1 \<le> i1"
  shows "calculateTokensOwed B current lo up l0 l1 g0 g1 liquidity =
    Some (bn_toString B (contractOwed i0 (bn_new B l0) (bn_new B liquidity)),
          bn_toString B (contractOwed i1 (bn_new B l1) (bn_new B liquidity)))"
  using assms by (simp add: calculateTokensOwed_value contractOwed_unwrapped)

text \<open>When the growth did wrap, \<open>calculateTokensOwed\<close> subtracts without \<open>subIn256\<close> and takes the
  absolute value: it prints the distance between the two growth values times the liquidity, where the
  contract owes the complement of that distance to \<open>2 ^ 256\<close>.\<close>

theorem calculateTokensOwed_wrapped:
  assumes "bn_arith B" "getTicksFeeGrowthInside B current lo up g0 g1 = Some (i0, i1)"
    and "list_all in256 [i0, i1, bn_new B l0, bn_new B l1]" "0 \<le> bn_new B liquidity"
    and "i0 < bn_new B l0" "i1 < bn_new B l1"
  shows "calculateTokensOwed B current lo up l0 l1 g0 g1 liquidity =
      Some (bn_toString B ((bn_new B l0 - i0) * bn_new B liquidity div 2 ^ 128),
            bn_toString B ((bn_new B l1 - i1) * bn_new B liquidity div 2 ^ 128))
    \<and> contractOwed i0 (bn_new B l0) (bn_new B liquidity)
      = (2 ^ 256 - (bn_new B l0 - i0)) * bn_new B liquidity div 2 ^ 128
    \<and> contractOwed i1 (bn_new B l1) (bn_new B liquidity)
      = (2 ^ 256 - (bn_new B l1 - i1)) * bn_new B liquidity div 2 ^ 128"
  using assms by (simp add: calculateTokensOwed_value contractOwed_wrapped)

section \<open>Position amounts\<close>

text \<open>C35: \<open>calculatePositionAmounts\<close> always returns for a positive price and a liquidity
  that is not negative, and gives only token 0 below the range, only token 1 above it and both inside it,
  each amount rounded up from the exact quotient.\<close>

theorem calculatePositionAmounts_cases:
  assumes B: "bn_arith B" and L: "0 \<le> bn_new B liquidity" and P: "0 < bn_new B sqrtPrice"
  shows "\<exists>pl pu. getSqrtRatioAtTick B lower = Some pl \<and> getSqrtRatioAtTick B upper = Some pu \<and> 0 < pl \<and> 0 < pu \<and>
    calculatePositionAmounts B printed cur lower upper liquidity sqrtPrice d0 d1 =
      (if cur < lower then Some (printed (ceil_div (bn_new B liquidity * 2 ^ 96 * \<bar>pu - pl\<bar>) (pl * pu)) d0, ''0'')
       else if cur < upper then
         Some (printed (ceil_div (bn_new B liquidity * 2 ^ 96 * \<bar>pu - bn_new B sqrtPrice\<bar>) (bn_new B sqrtPrice * pu)) d0,
               printed (ceil_div (bn_new B liquidity * \<bar>bn_new B sqrtPrice - pl\<bar>) (2 ^ 96)) d1)
       else Some (''0'', printed (ceil_div (bn_new B liquidity * \<bar>pu - pl\<bar>) (2 ^ 96)) d1))"
proof -
  have ratio: "\<exists>r. getSqrtRatioAtTick B t = Some r \<and> 0 < r" for t
  proof -
    have "0 < ceil_div (if t > 0 then MaxUint256 div rawRatio t else rawRatio t) (2 ^ 32)"
      using rawRatio_bounds[of t] by (intro ceil_div_ge) (auto simp: MaxUint256_def pos_imp_zdiv_pos_iff)
    then show ?thesis by (simp add: bn_arith.getSqrtRatioAtTick_value[OF B])
  qed
  obtain pl pu where p: "getSqrtRatioAtTick B lower = Some pl" "0 < pl"
    "getSqrtRatioAtTick B upper = Some pu" "0 < pu"
    using ratio by blast
  show ?thesis
    using L P p(2,4) by (simp add: calculatePositionAmounts_def p(1,3) Let_def
        bn_arith.getAmount0Delta_value[OF B] bn_arith.getAmount1Delta_value[OF B])
qed

section \<open>Witnesses\<close>

definition tick_a :: tick_data where
  "tick_a = \<lparr> tick = -10, feeGrowthOutside0X128 = ''30'', feeGrowthOutside1X128 = ''7'' \<rparr>"

definition tick_b :: tick_data where
  "tick_b = \<lparr> tick = 10, feeGrowthOutside0X128 = ''10'', feeGrowthOutside1X128 = ''5'' \<rparr>"

lemmas bn_eval = decimal.simps bn_int_def tick_a_def tick_b_def in256_def feeGrowthBelow_def feeGrowthAbove_def
  getTicksFeeGrowthInside_def Q256_def

theorem getSqrtRatioAtTick_bounds_witness: "\<exists>r. getSqrtRatioAtTick bn_int 5 = Some r \<and> 2 ^ 96 \<le> r"
  using getSqrtRatioAtTick_bounds[OF bn_int.bn_arith_axioms, of 5] by auto

theorem getSqrtRatioAtTick_known_witness: "getSqrtRatioAtTick bn_int (-887272) = Some 4295128739"
  using getSqrtRatioAtTick_known[OF bn_int.bn_arith_axioms] by simp

theorem getAmount0Delta_exact_witness: "\<exists>up. getAmount0Delta bn_int 3 5 7 True = Some up \<and> 7 * 2 ^ 96 * 2 \<le> up * 15"
  using getAmount0Delta_exact[OF bn_int.bn_arith_axioms, of 3 5 7] by auto

theorem getAmount1Delta_exact_witness: "\<exists>up. getAmount1Delta bn_int 3 5 7 True = Some up \<and> 14 \<le> up * 2 ^ 96"
  using getAmount1Delta_exact[OF bn_int.bn_arith_axioms, of 7 3 5] by auto

theorem subIn256_word_witness: "\<exists>r. subIn256 bn_int [3, 5, 7] = Some r \<and> (word_of_int r :: u256) = - 9"
  using subIn256_word[OF bn_int.bn_arith_axioms, of 3 "[5, 7]"] by (auto simp: in256_def)

theorem getTicksFeeGrowthInside_word_witness:
  "\<exists>i0 i1. getTicksFeeGrowthInside bn_int 0 tick_a tick_b ''100'' ''9'' = Some (i0, i1)
    \<and> (word_of_int i0 :: u256) = 60 \<and> (word_of_int i1 :: u256) = - 3"
  using getTicksFeeGrowthInside_word[OF bn_int.bn_arith_axioms, of tick_a tick_b "''100''" "''9''" 0]
  by (auto simp: bn_int_def tick_a_def tick_b_def in256_def growthInside_def)

theorem calculateTokensOwed_contract_witness:
  "calculateTokensOwed bn_int 0 tick_a tick_b ''40'' ''0'' ''100'' ''50'' ''340282366920938463463374607431768211456''
    = Some (''20'', ''38'')"
proof -
  have "getTicksFeeGrowthInside bn_int 0 tick_a tick_b ''100'' ''50'' = Some (60, 38)"
    by (simp add: bn_eval)
  from calculateTokensOwed_contract[OF bn_int.bn_arith_axioms this, of "''40''" "''0''"
      "''340282366920938463463374607431768211456''"]
  show ?thesis by (simp add: bn_eval contractOwed_unwrapped)
qed

theorem calculateTokensOwed_wrapped_witness:
  "calculateTokensOwed bn_int 0 tick_a tick_b ''65'' ''40'' ''100'' ''50'' ''340282366920938463463374607431768211456''
    = Some (''5'', ''2'') \<and> contractOwed 60 65 (2 ^ 128) = 2 ^ 256 - 5"
proof -
  have "getTicksFeeGrowthInside bn_int 0 tick_a tick_b ''100'' ''50'' = Some (60, 38)"
    by (simp add: bn_eval)
  from calculateTokensOwed_wrapped[OF bn_int.bn_arith_axioms this, of "''65''" "''40''"
      "''340282366920938463463374607431768211456''"]
  show ?thesis by (simp add: bn_eval)
qed

theorem calculatePositionAmounts_cases_witness:
  "\<exists>a0. calculatePositionAmounts bn_int (\<lambda>n d. decimal (nat n)) (-20) (-10) 10 ''7'' ''5'' 18 6
    = Some (a0, ''0'')"
  using calculatePositionAmounts_cases[OF bn_int.bn_arith_axioms, of "''7''" "''5''" "-10" 10
      "\<lambda>n d. decimal (nat n)" "-20" 18 6]
  by (auto simp: bn_int_def)

end
