(* ===== verification/Chains.thy ===== *)
theory Chains
  imports Prelude "HOL-Library.Multiset"
begin

text \<open>
  The chain catalogue: the enumerations of \<open>libs/common/src/enum/chain.enum.ts\<close> and the tables
  and lookups of \<open>libs/common/src/utils/chains.ts\<close>.  A TypeScript enumeration is a function
  on the datatype \<open>chain\<close> of its member names; a \<open>Record\<close> is an association list in the order of the
  source, so that \<open>R[key]\<close> is \<open>js_get R key\<close> and an absent key (\<open>undefined\<close>) is \<open>None\<close>.
\<close>

named_theorems chains \<open>the tables of the chain catalogue\<close>

section \<open>Enumerations\<close>

datatype chain = Eth | Bnb | Plg | Ftm | Arbi | Avax | Gnosis | Celo | Mriver | Harm | Heco
  | Sol | Okex | Cro | Boba | Kcc | Opt | Near | Terra | Klay | Fuse | Cardano
  | Metis | Ronin | Cosmos | Kava | Osmosis | Secret | Iotex | Milkomeda

text \<open>The members in the order of the enumeration.\<close>

definition all_chains :: "chain list" where
  "all_chains = [Eth, Bnb, Plg, Ftm, Arbi, Avax, Gnosis, Celo, Mriver, Harm, Heco, Sol, Okex, Cro, Boba, Kcc, Opt, Near, Terra, Klay, Fuse, Cardano, Metis, Ronin, Cosmos, Kava, Osmosis, Secret, Iotex, Milkomeda]"

fun ChainAbbrEnum :: "chain \<Rightarrow> string" where
  "ChainAbbrEnum Eth = ''eth''"
| "ChainAbbrEnum Bnb = ''bnb''"
| "ChainAbbrEnum Plg = ''plg''"
| "ChainAbbrEnum Ftm = ''ftm''"
| "ChainAbbrEnum Arbi = ''arbi''"
| "ChainAbbrEnum Avax = ''avax''"
| "ChainAbbrEnum Gnosis = ''gnosis''"
| "ChainAbbrEnum Celo = ''celo''"
| "ChainAbbrEnum Mriver = ''mriver''"
| "ChainAbbrEnum Harm = ''harm''"
| "ChainAbbrEnum Heco = ''heco''"
| "ChainAbbrEnum Sol = ''sol''"
| "ChainAbbrEnum Okex = ''okex''"
| "ChainAbbrEnum Cro = ''cro''"
| "ChainAbbrEnum Boba = ''boba''"
| "ChainAbbrEnum Kcc = ''kcc''"
| "ChainAbbrEnum Opt = ''opt''"
| "ChainAbbrEnum Near = ''near''"
| "ChainAbbrEnum Terra = ''terra''"
| "ChainAbbrEnum Klay = ''klay''"
| "ChainAbbrEnum Fuse = ''fuse''"
| "ChainAbbrEnum Cardano = ''cardano''"
| "ChainAbbrEnum Metis = ''metis''"
| "ChainAbbrEnum Ronin = ''ronin''"
| "ChainAbbrEnum Cosmos = ''cosmos''"
| "ChainAbbrEnum Kava = ''kava''"
| "ChainAbbrEnum Osmosis = ''osmosis''"
| "ChainAbbrEnum Secret = ''secret''"
| "ChainAbbrEnum Iotex = ''iotex''"
| "ChainAbbrEnum Milkomeda = ''milkomeda''"

fun ChainNameEnum :: "chain \<Rightarrow> string" where
  "ChainNameEnum Eth = ''ethereum''"
| "ChainNameEnum Bnb = ''binance''"
| "ChainNameEnum Plg = ''polygon''"
| "ChainNameEnum Ftm = ''fantom''"
| "ChainNameEnum Arbi = ''arbitrum''"
| "ChainNameEnum Avax = ''avalanche''"
| "ChainNameEnum Gnosis = ''gnosis''"
| "ChainNameEnum Celo = ''celo''"
| "ChainNameEnum Mriver = ''moonriver''"
| "ChainNameEnum Harm = ''harmony''"
| "ChainNameEnum Heco = ''heco''"
| "ChainNameEnum Sol = ''solana''"
| "ChainNameEnum Okex = ''okex''"
| "ChainNameEnum Cro = ''cronos''"
| "ChainNameEnum Boba = ''boba''"
| "ChainNameEnum Kcc = ''kucoin''"
| "ChainNameEnum Opt = ''optimism''"
| "ChainNameEnum Near = ''aurora''"
| "ChainNameEnum Terra = ''terra''"
| "ChainNameEnum Klay = ''klaytn''"
| "ChainNameEnum Fuse = ''fuse''"
| "ChainNameEnum Cardano = ''cardano''"
| "ChainNameEnum Metis = ''metis''"
| "ChainNameEnum Ronin = ''ronin''"
| "ChainNameEnum Cosmos = ''cosmos''"
| "ChainNameEnum Kava = ''kava''"
| "ChainNameEnum Osmosis = ''osmosis''"
| "ChainNameEnum Secret = ''secret''"
| "ChainNameEnum Iotex = ''iotex''"
| "ChainNameEnum Milkomeda = ''milkomeda''"

fun ChainIdEnum :: "chain \<Rightarrow> int" where
  "ChainIdEnum Eth = 1"
| "ChainIdEnum Bnb = 2"
| "ChainIdEnum Plg = 3"
| "ChainIdEnum Ftm = 4"
| "ChainIdEnum Arbi = 5"
| "ChainIdEnum Avax = 6"
| "ChainIdEnum Gnosis = 7"
| "ChainIdEnum Celo = 8"
| "ChainIdEnum Mriver = 9"
| "ChainIdEnum Harm = 10"
| "ChainIdEnum Heco = 11"
| "ChainIdEnum Sol = 12"
| "ChainIdEnum Okex = 13"
| "ChainIdEnum Cro = 14"
| "ChainIdEnum Boba = 15"
| "ChainIdEnum Kcc = 16"
| "ChainIdEnum Opt = 17"
| "ChainIdEnum Near = 18"
| "ChainIdEnum Terra = 19"
| "ChainIdEnum Klay = 20"
| "ChainIdEnum Fuse = 21"
| "ChainIdEnum Cardano = 22"
| "ChainIdEnum Metis = 23"
| "ChainIdEnum Ronin = 24"
| "ChainIdEnum Cosmos = 25"
| "ChainIdEnum Kava = 26"
| "ChainIdEnum Osmosis = 27"
| "ChainIdEnum Secret = 28"
| "ChainIdEnum Iotex = 29"
| "ChainIdEnum Milkomeda = 30"

text \<open>The platform enumeration has one member, \<open>vvs\<close>, that no chain refers to.\<close>

fun CoingeckoPlatformEnum :: "chain \<Rightarrow> string" where
  "CoingeckoPlatformEnum Eth = ''ethereum''"
| "CoingeckoPlatformEnum Bnb = ''binance-smart-chain''"
| "CoingeckoPlatformEnum Plg = ''polygon-pos''"
| "CoingeckoPlatformEnum Ftm = ''fantom''"
| "CoingeckoPlatformEnum Arbi = ''arbitrum-one''"
| "CoingeckoPlatformEnum Avax = ''avalanche''"
| "CoingeckoPlatformEnum Gnosis = ''xdai''"
| "CoingeckoPlatformEnum Celo = ''celo''"
| "CoingeckoPlatformEnum Mriver = ''moonriver''"
| "CoingeckoPlatformEnum Harm = ''harmony-shard-0''"
| "CoingeckoPlatformEnum Heco = ''huobi-token''"
| "CoingeckoPlatformEnum Sol = ''solana''"
| "CoingeckoPlatformEnum Okex = ''okex-chain''"
| "CoingeckoPlatformEnum Cro = ''cronos''"
| "CoingeckoPlatformEnum Boba = ''boba''"
| "CoingeckoPlatformEnum Kcc = ''kucoin-community-chain''"
| "CoingeckoPlatformEnum Opt = ''optimistic-ethereum''"
| "CoingeckoPlatformEnum Near = ''near-protocol''"
| "CoingeckoPlatformEnum Terra = ''terra''"
| "CoingeckoPlatformEnum Klay = ''klay-token''"
| "CoingeckoPlatformEnum Fuse = ''fuse''"
| "CoingeckoPlatformEnum Cardano = ''cardano''"
| "CoingeckoPlatformEnum Metis = ''metis-andromeda''"
| "CoingeckoPlatformEnum Ronin = ''ronin''"
| "CoingeckoPlatformEnum Cosmos = ''cosmos''"
| "CoingeckoPlatformEnum Kava = ''kava''"
| "CoingeckoPlatformEnum Osmosis = ''osmosis''"
| "CoingeckoPlatformEnum Secret = ''secret''"
| "CoingeckoPlatformEnum Iotex = ''iotex''"
| "CoingeckoPlatformEnum Milkomeda = ''milkomeda-cardano''"

datatype abs_chain_id = AbsNum int | AbsStr string

fun AbsoluteChainIdEnum :: "chain \<Rightarrow> abs_chain_id" where
  "AbsoluteChainIdEnum Eth = AbsNum 1"
| "AbsoluteChainIdEnum Bnb = AbsNum 56"
| "AbsoluteChainIdEnum Plg = AbsNum 137"
| "AbsoluteChainIdEnum Ftm = AbsNum 250"
| "AbsoluteChainIdEnum Arbi = AbsNum 42161"
| "AbsoluteChainIdEnum Avax = AbsNum 43114"
| "AbsoluteChainIdEnum Gnosis = AbsNum 100"
| "AbsoluteChainIdEnum Celo = AbsNum 42220"
| "AbsoluteChainIdEnum Mriver = AbsNum 1285"
| "AbsoluteChainIdEnum Harm = AbsNum 1666600000"
| "AbsoluteChainIdEnum Heco = AbsNum 128"
| "AbsoluteChainIdEnum Sol = AbsNum 101"
| "AbsoluteChainIdEnum Okex = AbsNum 66"
| "AbsoluteChainIdEnum Cro = AbsNum 25"
| "AbsoluteChainIdEnum Boba = AbsNum 288"
| "AbsoluteChainIdEnum Kcc = AbsNum 321"
| "AbsoluteChainIdEnum Opt = AbsNum 10"
| "AbsoluteChainIdEnum Near = AbsNum 1313161554"
| "AbsoluteChainIdEnum Terra = AbsStr ''columbus-5''"
| "AbsoluteChainIdEnum Klay = AbsNum 8217"
| "AbsoluteChainIdEnum Fuse = AbsNum 122"
| "AbsoluteChainIdEnum Cardano = AbsNum 1003"
| "AbsoluteChainIdEnum Metis = AbsNum 1088"
| "AbsoluteChainIdEnum Ronin = AbsNum 1002"
| "AbsoluteChainIdEnum Cosmos = AbsNum 2004"
| "AbsoluteChainIdEnum Kava = AbsNum 2005"
| "AbsoluteChainIdEnum Osmosis = AbsNum 2006"
| "AbsoluteChainIdEnum Secret = AbsNum 2007"
| "AbsoluteChainIdEnum Iotex = AbsNum 1099"
| "AbsoluteChainIdEnum Milkomeda = AbsNum 2001"

section \<open>Coin addresses (\<open>libs/common/src/constant/index.ts\<close>)\<close>

definition ZERO_ADDRESS :: string where
  "ZERO_ADDRESS = ''0x0000000000000000000000000000000000000000''"

definition SOL_COIN_ADDRESS :: string where
  "SOL_COIN_ADDRESS = ''11111111111111111111111111111111''"

definition CARDANO_COIN_ADDRESS :: string where
  "CARDANO_COIN_ADDRESS = ''addr100000000000000000000000000000000000000000000''"

definition COSMOS_COIN_ADDRESS :: string where
  "COSMOS_COIN_ADDRESS = ''00000000000000000000000000000000000000000000''"

definition RONIN_COIN_ADDRESS :: string where
  "RONIN_COIN_ADDRESS = ''ronin:0000000000000000000000000000000000000000''"

section \<open>Tables\<close>

definition AbsoluteChainIds :: "(int, abs_chain_id) js_map" where
  "AbsoluteChainIds =
    [(ChainIdEnum Arbi, AbsoluteChainIdEnum Arbi),
     (ChainIdEnum Avax, AbsoluteChainIdEnum Avax),
     (ChainIdEnum Bnb, AbsoluteChainIdEnum Bnb),
     (ChainIdEnum Eth, AbsoluteChainIdEnum Eth),
     (ChainIdEnum Ftm, AbsoluteChainIdEnum Ftm),
     (ChainIdEnum Plg, AbsoluteChainIdEnum Plg),
     (ChainIdEnum Gnosis, AbsoluteChainIdEnum Gnosis),
     (ChainIdEnum Celo, AbsoluteChainIdEnum Celo),
     (ChainIdEnum Mriver, AbsoluteChainIdEnum Mriver),
     (ChainIdEnum Harm, AbsoluteChainIdEnum Harm),
     (ChainIdEnum Heco, AbsoluteChainIdEnum Heco),
     (ChainIdEnum Sol, AbsoluteChainIdEnum Sol),
     (ChainIdEnum Okex, AbsoluteChainIdEnum Okex),
     (ChainIdEnum Cro, AbsoluteChainIdEnum Cro),
     (ChainIdEnum Boba, AbsoluteChainIdEnum Boba),
     (ChainIdEnum Kcc, AbsoluteChainIdEnum Kcc),
     (ChainIdEnum Opt, AbsoluteChainIdEnum Opt),
     (ChainIdEnum Near, AbsoluteChainIdEnum Near),
     (ChainIdEnum Terra, AbsoluteChainIdEnum Terra),
     (ChainIdEnum Klay, AbsoluteChainIdEnum Klay),
     (ChainIdEnum Fuse, AbsoluteChainIdEnum Fuse),
     (ChainIdEnum Cardano, AbsoluteChainIdEnum Cardano),
     (ChainIdEnum Metis, AbsoluteChainIdEnum Metis),
     (ChainIdEnum Ronin, AbsoluteChainIdEnum Ronin),
     (ChainIdEnum Cosmos, AbsoluteChainIdEnum Cosmos),
     (ChainIdEnum Kava, AbsoluteChainIdEnum Kava),
     (ChainIdEnum Osmosis, AbsoluteChainIdEnum Osmosis),
     (ChainIdEnum Secret, AbsoluteChainIdEnum Secret),
     (ChainIdEnum Iotex, AbsoluteChainIdEnum Iotex),
     (ChainIdEnum Milkomeda, AbsoluteChainIdEnum Milkomeda)]"

definition InternalChainIds :: "(abs_chain_id, int) js_map" where
  "InternalChainIds =
    [(AbsoluteChainIdEnum Arbi, ChainIdEnum Arbi),
     (AbsoluteChainIdEnum Avax, ChainIdEnum Avax),
     (AbsoluteChainIdEnum Bnb, ChainIdEnum Bnb),
     (AbsoluteChainIdEnum Eth, ChainIdEnum Eth),
     (AbsoluteChainIdEnum Ftm, ChainIdEnum Ftm),
     (AbsoluteChainIdEnum Plg, ChainIdEnum Plg),
     (AbsoluteChainIdEnum Gnosis, ChainIdEnum Gnosis),
     (AbsoluteChainIdEnum Celo, ChainIdEnum Celo),
     (AbsoluteChainIdEnum Mriver, ChainIdEnum Mriver),
     (AbsoluteChainIdEnum Harm, ChainIdEnum Harm),
     (AbsoluteChainIdEnum Heco, ChainIdEnum Heco),
     (AbsoluteChainIdEnum Sol, ChainIdEnum Sol),
     (AbsoluteChainIdEnum Okex, ChainIdEnum Okex),
     (AbsoluteChainIdEnum Cro, ChainIdEnum Cro),
     (AbsoluteChainIdEnum Boba, ChainIdEnum Boba),
     (AbsoluteChainIdEnum Kcc, ChainIdEnum Kcc),
     (AbsoluteChainIdEnum Opt, ChainIdEnum Opt),
     (AbsoluteChainIdEnum Near, ChainIdEnum Near),
     (AbsoluteChainIdEnum Terra, ChainIdEnum Terra),
     (AbsoluteChainIdEnum Klay, ChainIdEnum Klay),
     (AbsoluteChainIdEnum Fuse, ChainIdEnum Fuse),
     (AbsoluteChainIdEnum Cardano, ChainIdEnum Cardano),
     (AbsoluteChainIdEnum Metis, ChainIdEnum Metis),
     (AbsoluteChainIdEnum Ronin, ChainIdEnum Ronin),
     (AbsoluteChainIdEnum Cosmos, ChainIdEnum Cosmos),
     (AbsoluteChainIdEnum Kava, ChainIdEnum Kava),
     (AbsoluteChainIdEnum Osmosis, ChainIdEnum Osmosis),
     (AbsoluteChainIdEnum Secret, ChainIdEnum Secret),
     (AbsoluteChainIdEnum Iotex, ChainIdEnum Iotex),
     (AbsoluteChainIdEnum Milkomeda, ChainIdEnum Milkomeda)]"

definition InternalChainIdByAbbr :: "(string, int) js_map" where
  "InternalChainIdByAbbr =
    [(ChainAbbrEnum Eth, ChainIdEnum Eth),
     (ChainAbbrEnum Bnb, ChainIdEnum Bnb),
     (ChainAbbrEnum Plg, ChainIdEnum Plg),
     (ChainAbbrEnum Ftm, ChainIdEnum Ftm),
     (ChainAbbrEnum Arbi, ChainIdEnum Arbi),
     (ChainAbbrEnum Avax, ChainIdEnum Avax),
     (ChainAbbrEnum Gnosis, ChainIdEnum Gnosis),
     (ChainAbbrEnum Celo, ChainIdEnum Celo),
     (ChainAbbrEnum Mriver, ChainIdEnum Mriver),
     (ChainAbbrEnum Harm, ChainIdEnum Harm),
     (ChainAbbrEnum Heco, ChainIdEnum Heco),
     (ChainAbbrEnum Sol, ChainIdEnum Sol),
     (ChainAbbrEnum Okex, ChainIdEnum Okex),
     (ChainAbbrEnum Cro, ChainIdEnum Cro),
     (ChainAbbrEnum Boba, ChainIdEnum Boba),
     (ChainAbbrEnum Kcc, ChainIdEnum Kcc),
     (ChainAbbrEnum Opt, ChainIdEnum Opt),
     (ChainAbbrEnum Near, ChainIdEnum Near),
     (ChainAbbrEnum Terra, ChainIdEnum Terra),
     (ChainAbbrEnum Klay, ChainIdEnum Klay),
     (ChainAbbrEnum Fuse, ChainIdEnum Fuse),
     (ChainAbbrEnum Cardano, ChainIdEnum Cardano),
     (ChainAbbrEnum Metis, ChainIdEnum Metis),
     (ChainAbbrEnum Ronin, ChainIdEnum Ronin),
     (ChainAbbrEnum Cosmos, ChainIdEnum Cosmos),
     (ChainAbbrEnum Kava, ChainIdEnum Kava),
     (ChainAbbrEnum Osmosis, ChainIdEnum Osmosis),
     (ChainAbbrEnum Secret, ChainIdEnum Secret),
     (ChainAbbrEnum Iotex, ChainIdEnum Iotex),
     (ChainAbbrEnum Milkomeda, ChainIdEnum Milkomeda)]"

definition CoingeckoChainIds :: "(int, string) js_map" where
  "CoingeckoChainIds =
    [(ChainIdEnum Eth, CoingeckoPlatformEnum Eth),
     (ChainIdEnum Bnb, CoingeckoPlatformEnum Bnb),
     (ChainIdEnum Plg, CoingeckoPlatformEnum Plg),
     (ChainIdEnum Ftm, CoingeckoPlatformEnum Ftm),
     (ChainIdEnum Arbi, CoingeckoPlatformEnum Arbi),
     (ChainIdEnum Avax, CoingeckoPlatformEnum Avax),
     (ChainIdEnum Gnosis, CoingeckoPlatformEnum Gnosis),
     (ChainIdEnum Celo, CoingeckoPlatformEnum Celo),
     (ChainIdEnum Mriver, CoingeckoPlatformEnum Mriver),
     (ChainIdEnum Harm, CoingeckoPlatformEnum Harm),
     (ChainIdEnum Heco, CoingeckoPlatformEnum Heco),
     (ChainIdEnum Sol, CoingeckoPlatformEnum Sol),
     (ChainIdEnum Okex, CoingeckoPlatformEnum Okex),
     (ChainIdEnum Cro, CoingeckoPlatformEnum Cro),
     (ChainIdEnum Boba, CoingeckoPlatformEnum Boba),
     (ChainIdEnum Kcc, CoingeckoPlatformEnum Kcc),
     (ChainIdEnum Opt, CoingeckoPlatformEnum Opt),
     (ChainIdEnum Near, CoingeckoPlatformEnum Near),
     (ChainIdEnum Terra, CoingeckoPlatformEnum Terra),
     (ChainIdEnum Klay, CoingeckoPlatformEnum Klay),
     (ChainIdEnum Fuse, CoingeckoPlatformEnum Fuse),
     (ChainIdEnum Cardano, CoingeckoPlatformEnum Cardano),
     (ChainIdEnum Metis, CoingeckoPlatformEnum Metis),
     (ChainIdEnum Ronin, CoingeckoPlatformEnum Ronin),
     (ChainIdEnum Cosmos, CoingeckoPlatformEnum Cosmos),
     (ChainIdEnum Kava, CoingeckoPlatformEnum Kava),
     (ChainIdEnum Osmosis, CoingeckoPlatformEnum Osmosis),
     (ChainIdEnum Secret, CoingeckoPlatformEnum Secret),
     (ChainIdEnum Iotex, CoingeckoPlatformEnum Iotex),
     (ChainIdEnum Milkomeda, CoingeckoPlatformEnum Milkomeda)]"

definition ChainCoinAddresses :: "(int, string) js_map" where
  "ChainCoinAddresses =
    [(ChainIdEnum Eth, ZERO_ADDRESS),
     (ChainIdEnum Bnb, ZERO_ADDRESS),
     (ChainIdEnum Plg, ZERO_ADDRESS),
     (ChainIdEnum Ftm, ZERO_ADDRESS),
     (ChainIdEnum Arbi, ZERO_ADDRESS),
     (ChainIdEnum Avax, ZERO_ADDRESS),
     (ChainIdEnum Gnosis, ZERO_ADDRESS),
     (ChainIdEnum Celo, ZERO_ADDRESS),
     (ChainIdEnum Mriver, ZERO_ADDRESS),
     (ChainIdEnum Harm, ZERO_ADDRESS),
     (ChainIdEnum Heco, ZERO_ADDRESS),
     (ChainIdEnum Sol, SOL_COIN_ADDRESS),
     (ChainIdEnum Okex, ZERO_ADDRESS),
     (ChainIdEnum Cro, ZERO_ADDRESS),
     (ChainIdEnum Boba, ZERO_ADDRESS),
     (ChainIdEnum Kcc, ZERO_ADDRESS),
     (ChainIdEnum Opt, ZERO_ADDRESS),
     (ChainIdEnum Near, ZERO_ADDRESS),
     (ChainIdEnum Terra, ZERO_ADDRESS),
     (ChainIdEnum Klay, ZERO_ADDRESS),
     (ChainIdEnum Fuse, ZERO_ADDRESS),
     (ChainIdEnum Cardano, CARDANO_COIN_ADDRESS),
     (ChainIdEnum Metis, ZERO_ADDRESS),
     (ChainIdEnum Ronin, RONIN_COIN_ADDRESS),
     (ChainIdEnum Cosmos, COSMOS_COIN_ADDRESS),
     (ChainIdEnum Kava, COSMOS_COIN_ADDRESS),
     (ChainIdEnum Osmosis, COSMOS_COIN_ADDRESS),
     (ChainIdEnum Secret, COSMOS_COIN_ADDRESS),
     (ChainIdEnum Iotex, ZERO_ADDRESS),
     (ChainIdEnum Milkomeda, ZERO_ADDRESS)]"

definition CoinSymbols :: "(int, string) js_map" where
  "CoinSymbols =
    [(ChainIdEnum Eth, ''ETH''),
     (ChainIdEnum Bnb, ''BNB''),
     (ChainIdEnum Plg, ''MATIC''),
     (ChainIdEnum Ftm, ''FTM''),
     (ChainIdEnum Arbi, ''ETH''),
     (ChainIdEnum Avax, ''AVAX''),
     (ChainIdEnum Gnosis, ''xDai''),
     (ChainIdEnum Celo, ''CELO''),
     (ChainIdEnum Mriver, ''MOVR''),
     (ChainIdEnum Harm, ''ONE''),
     (ChainIdEnum Heco, ''HT''),
     (ChainIdEnum Sol, ''SOL''),
     (ChainIdEnum Okex, ''OKT''),
     (ChainIdEnum Cro, ''CRO''),
     (ChainIdEnum Boba, ''ETH''),
     (ChainIdEnum Kcc, ''KCS''),
     (ChainIdEnum Opt, ''ETH''),
     (ChainIdEnum Near, ''ETH''),
     (ChainIdEnum Terra, ''LUNA''),
     (ChainIdEnum Klay, ''KLAY''),
     (ChainIdEnum Fuse, ''FUSE''),
     (ChainIdEnum Cardano, ''ADA''),
     (ChainIdEnum Metis, ''METIS''),
     (ChainIdEnum Ronin, ''RON''),
     (ChainIdEnum Cosmos, ''ATOM''),
     (ChainIdEnum Kava, ''KAVA''),
     (ChainIdEnum Osmosis, ''OSMO''),
     (ChainIdEnum Secret, ''SCRT''),
     (ChainIdEnum Iotex, ''IOTX''),
     (ChainIdEnum Milkomeda, ''ADA'')]"

definition CoinNames :: "(int, string) js_map" where
  "CoinNames =
    [(ChainIdEnum Eth, ''Ethereum''),
     (ChainIdEnum Bnb, ''Binance Coin''),
     (ChainIdEnum Plg, ''Polygon''),
     (ChainIdEnum Ftm, ''Fantom''),
     (ChainIdEnum Arbi, ''Ethereum''),
     (ChainIdEnum Avax, ''Avalanche''),
     (ChainIdEnum Gnosis, ''xDai''),
     (ChainIdEnum Celo, ''Celo''),
     (ChainIdEnum Mriver, ''Moonriver''),
     (ChainIdEnum Harm, ''Harmony''),
     (ChainIdEnum Heco, ''Huobi Token''),
     (ChainIdEnum Sol, ''Solana''),
     (ChainIdEnum Okex, ''OEC Token''),
     (ChainIdEnum Cro, ''Crypto.com Coin''),
     (ChainIdEnum Boba, ''Ethereum''),
     (ChainIdEnum Kcc, ''KuCoin Token''),
     (ChainIdEnum Opt, ''Ethereum''),
     (ChainIdEnum Near, ''Ethereum''),
     (ChainIdEnum Terra, ''Terra''),
     (ChainIdEnum Klay, ''Klaytn''),
     (ChainIdEnum Fuse, ''Fuse''),
     (ChainIdEnum Cardano, ''Cardano''),
     (ChainIdEnum Metis, ''MetisDAO''),
     (ChainIdEnum Ronin, ''Ronin''),
     (ChainIdEnum Cosmos, ''Cosmos''),
     (ChainIdEnum Kava, ''Kava''),
     (ChainIdEnum Osmosis, ''Osmosis''),
     (ChainIdEnum Secret, ''Secret''),
     (ChainIdEnum Iotex, ''IoTeX''),
     (ChainIdEnum Milkomeda, ''Cardano'')]"

section \<open>Lookups\<close>

definition getAbsoluteChainId :: "int \<Rightarrow> abs_chain_id option" where
  "getAbsoluteChainId chainId = js_get AbsoluteChainIds chainId"

text \<open>The argument is an array, another iterable, or something else, for which nothing is returned.\<close>

datatype chain_ids_arg = ChainArray "int list" | ChainIterable "int list" | ChainOther

fun getAbsoluteChainIds :: "chain_ids_arg \<Rightarrow> abs_chain_id option list option" where
  "getAbsoluteChainIds (ChainArray chainIds) = Some (map getAbsoluteChainId chainIds)"
| "getAbsoluteChainIds (ChainIterable chainIds) = Some (map getAbsoluteChainId chainIds)"
| "getAbsoluteChainIds ChainOther = None"

definition getInternalChainId :: "abs_chain_id \<Rightarrow> int option" where
  "getInternalChainId chainId = js_get InternalChainIds chainId"

definition getCoingeckoPlatformId :: "int \<Rightarrow> string option" where
  "getCoingeckoPlatformId chainId = js_get CoingeckoChainIds chainId"

text \<open>
  A numeric enumeration compiles to an object with the members under their names and, reversed,
  the names under their numbers; property keys are strings.
\<close>

datatype enum_value = EnumNum int | EnumName string

definition ChainIdEnum_object :: "(string, enum_value) js_map" where
  "ChainIdEnum_object =
     map (\<lambda>c. (ChainAbbrEnum c, EnumNum (ChainIdEnum c))) all_chains @
     map (\<lambda>c. (decimal (nat (ChainIdEnum c)), EnumName (ChainAbbrEnum c))) all_chains"

record chain_dto =
  chain_id :: "enum_value option"
  chain_name :: "string option"
  chain_abbr :: "string option"

definition getChainByAbbr :: "(chain_dto \<Rightarrow> 'dto) \<Rightarrow> string \<Rightarrow> 'dto" where
  "getChainByAbbr plainToClass symbol = plainToClass
     \<lparr> chain_id = js_get ChainIdEnum_object symbol,
       chain_name = js_get (map (\<lambda>c. (ChainAbbrEnum c, ChainNameEnum c)) all_chains) symbol,
       chain_abbr = js_get (map (\<lambda>c. (ChainAbbrEnum c, ChainAbbrEnum c)) all_chains) symbol \<rparr>"

text \<open>\<open>ChainIdEnum[chainId]\<close> is \<open>undefined\<close> for an unknown number, and then read as the key \<open>''undefined''\<close>.\<close>

definition chainAbbrOfId :: "int \<Rightarrow> string option" where
  "chainAbbrOfId chainId = js_get (map (\<lambda>c. (ChainIdEnum c, ChainAbbrEnum c)) all_chains) chainId"

definition getChainById :: "(chain_dto \<Rightarrow> 'dto) \<Rightarrow> int \<Rightarrow> 'dto" where
  "getChainById plainToClass chainId =
     getChainByAbbr plainToClass (case chainAbbrOfId chainId of Some a \<Rightarrow> a | None \<Rightarrow> ''undefined'')"

definition isZeroAddress :: "string \<Rightarrow> bool" where
  "isZeroAddress address \<longleftrightarrow> address = ZERO_ADDRESS"

definition isEVMChain :: "int \<Rightarrow> bool" where
  "isEVMChain chainId = (case js_get ChainCoinAddresses chainId of
     Some address \<Rightarrow> isZeroAddress address | None \<Rightarrow> False)"

section \<open>The catalogue is complete\<close>

lemma set_all_chains [simp, chains]: "set all_chains = UNIV"
proof -
  have "c \<in> set all_chains" for c by (cases c) (simp_all add: all_chains_def)
  then show ?thesis by blast
qed

lemma distinct_all_chains [simp, chains]: "distinct all_chains"
  by (simp add: all_chains_def)

lemma ChainIdEnum_inj [chains]: "ChainIdEnum c = ChainIdEnum d \<Longrightarrow> c = d"
proof -
  have "inj_on ChainIdEnum (set all_chains)"
    by (rule distinct_map[THEN iffD1, THEN conjunct2]) (simp add: all_chains_def)
  then show "ChainIdEnum c = ChainIdEnum d \<Longrightarrow> c = d" by (auto dest: injD)
qed

lemma ChainAbbrEnum_inj [chains]: "ChainAbbrEnum c = ChainAbbrEnum d \<Longrightarrow> c = d"
proof -
  have "inj_on ChainAbbrEnum (set all_chains)"
    by (rule distinct_map[THEN iffD1, THEN conjunct2]) (simp add: all_chains_def)
  then show "ChainAbbrEnum c = ChainAbbrEnum d \<Longrightarrow> c = d" by (auto dest: injD)
qed

lemma AbsoluteChainIdEnum_inj [chains]: "AbsoluteChainIdEnum c = AbsoluteChainIdEnum d \<Longrightarrow> c = d"
proof -
  have "inj_on AbsoluteChainIdEnum (set all_chains)"
    by (rule distinct_map[THEN iffD1, THEN conjunct2]) (simp add: all_chains_def)
  then show "AbsoluteChainIdEnum c = AbsoluteChainIdEnum d \<Longrightarrow> c = d" by (auto dest: injD)
qed

text \<open>Chains are ordered by their internal number.\<close>

instantiation chain :: linorder
begin

definition less_eq_chain :: "chain \<Rightarrow> chain \<Rightarrow> bool" where
  "less_eq_chain c d \<longleftrightarrow> ChainIdEnum c \<le> ChainIdEnum d"

definition less_chain :: "chain \<Rightarrow> chain \<Rightarrow> bool" where
  "less_chain c d \<longleftrightarrow> ChainIdEnum c < ChainIdEnum d"

instance
  by intro_classes (auto simp: less_eq_chain_def less_chain_def intro: ChainIdEnum_inj)

end

lemma all_chains_sorted: "sorted all_chains"
  by (simp add: all_chains_def less_eq_chain_def)

definition known_chain :: "int \<Rightarrow> bool" where
  "known_chain i \<longleftrightarrow> i \<in> set (map ChainIdEnum all_chains)"

lemma known_chain_iff: "known_chain i \<longleftrightarrow> (\<exists>c. i = ChainIdEnum c)"
  by (auto simp: known_chain_def)

lemma known_chainE [elim]:
  assumes "known_chain i" obtains c where "i = ChainIdEnum c"
  using assms by (auto simp: known_chain_iff)

text \<open>A table of the catalogue lists, in some order, one value for every chain.\<close>

definition catalogue :: "('k, 'v) js_map \<Rightarrow> (chain \<Rightarrow> 'k) \<Rightarrow> (chain \<Rightarrow> 'v) \<Rightarrow> bool" where
  "catalogue tab key val \<longleftrightarrow> mset tab = mset (map (\<lambda>c. (key c, val c)) all_chains)"

lemma catalogue_get:
  assumes "catalogue tab key val" "inj key"
  shows "js_get tab (key c) = Some (val c)"
    and "k \<notin> range key \<Longrightarrow> js_get tab k = None"
proof -
  have s: "set tab = (\<lambda>c. (key c, val c)) ` UNIV"
    using mset_eq_setD[OF assms(1)[unfolded catalogue_def]] by simp
  have "distinct (map fst (map (\<lambda>c. (key c, val c)) all_chains))"
    using assms(2) by (simp add: distinct_map inj_on_def)
  moreover have "mset (map fst tab) = mset (map fst (map (\<lambda>c. (key c, val c)) all_chains))"
    using assms(1) unfolding catalogue_def by (metis mset_map)
  ultimately have "distinct (map fst tab)" by (metis mset_eq_imp_distinct_iff)
  then show "js_get tab (key c) = Some (val c)" using s by (auto intro!: map_of_is_SomeI)
  show "k \<notin> range key \<Longrightarrow> js_get tab k = None" using s by (auto simp: map_of_eq_None_iff)
qed

lemma catalogues [chains]:
  "catalogue AbsoluteChainIds ChainIdEnum AbsoluteChainIdEnum"
  "catalogue InternalChainIds AbsoluteChainIdEnum ChainIdEnum"
  "catalogue InternalChainIdByAbbr ChainAbbrEnum ChainIdEnum"
  "catalogue CoingeckoChainIds ChainIdEnum CoingeckoPlatformEnum"
  by (simp_all add: catalogue_def all_chains_def AbsoluteChainIds_def InternalChainIds_def
      InternalChainIdByAbbr_def CoingeckoChainIds_def)

lemma catalogue_all: "catalogue (map (\<lambda>c. (key c, val c)) all_chains) key val"
  by (simp add: catalogue_def)

lemma keys_inj [simp, intro]: "inj ChainIdEnum" "inj ChainAbbrEnum" "inj AbsoluteChainIdEnum"
  by (auto intro: injI ChainIdEnum_inj ChainAbbrEnum_inj AbsoluteChainIdEnum_inj)

lemmas table_gets = catalogue_get[OF catalogues(1) keys_inj(1)] catalogue_get[OF catalogues(2) keys_inj(3)]
  catalogue_get[OF catalogues(3) keys_inj(2)] catalogue_get[OF catalogues(4) keys_inj(1)]

lemma unknown_chain: "\<not> known_chain i \<Longrightarrow> i \<notin> range ChainIdEnum"
  by (auto simp: known_chain_iff)

lemma getAbsoluteChainId_simps [chains]:
  "getAbsoluteChainId (ChainIdEnum c) = Some (AbsoluteChainIdEnum c)"
  "\<not> known_chain i \<Longrightarrow> getAbsoluteChainId i = None"
  by (simp_all add: getAbsoluteChainId_def table_gets unknown_chain)

lemma getInternalChainId_simps [chains]:
  "getInternalChainId (AbsoluteChainIdEnum c) = Some (ChainIdEnum c)"
  "a \<notin> range AbsoluteChainIdEnum \<Longrightarrow> getInternalChainId a = None"
  by (simp_all add: getInternalChainId_def table_gets)

text \<open>Internal and public chain numbers are in bijection: a known internal number goes to a
  public one and back, and an unknown one has no public number at all.\<close>

theorem chain_id_roundtrip:
  "(do { a \<leftarrow> getAbsoluteChainId i; getInternalChainId a }) = (if known_chain i then Some i else None)"
  by (cases "known_chain i") (auto simp: chains)

lemma chain_id_roundtrip_back:
  "(do { i \<leftarrow> getInternalChainId a; getAbsoluteChainId i }) =
     (if a \<in> range AbsoluteChainIdEnum then Some a else None)"
  by (cases "a \<in> range AbsoluteChainIdEnum") (auto simp: chains)

lemma getAbsoluteChainIds_known:
  "list_all known_chain is \<Longrightarrow> getAbsoluteChainIds (ChainArray is) =
     Some (map (\<lambda>i. Some (AbsoluteChainIdEnum (the_inv ChainIdEnum i))) is)"
  by (induction "is") (auto simp: chains the_inv_f_f)

lemma ChainIdEnum_range: "1 \<le> ChainIdEnum c" "ChainIdEnum c \<le> 30"
  by (cases c; simp)+

text \<open>A name is never the text of a number, so a look-up by name always meets the forward entry.\<close>

lemma ChainIdEnum_object_name [chains]: "js_get ChainIdEnum_object (ChainAbbrEnum c) = Some (EnumNum (ChainIdEnum c))"
  using catalogue_get(1)[OF catalogue_all keys_inj(2), of "\<lambda>c. EnumNum (ChainIdEnum c)" c]
  by (simp add: ChainIdEnum_object_def map_add_def)

lemma getChainByAbbr_name [chains]:
  "getChainByAbbr P (ChainAbbrEnum c) = P \<lparr> chain_id = Some (EnumNum (ChainIdEnum c)),
     chain_name = Some (ChainNameEnum c), chain_abbr = Some (ChainAbbrEnum c) \<rparr>"
  by (simp add: getChainByAbbr_def chains catalogue_get(1)[OF catalogue_all keys_inj(2)])

lemma chainAbbrOfId_simps [chains]:
  "chainAbbrOfId (ChainIdEnum c) = Some (ChainAbbrEnum c)"
  "\<not> known_chain i \<Longrightarrow> chainAbbrOfId i = None"
  by (simp_all add: chainAbbrOfId_def catalogue_get[OF catalogue_all keys_inj(1)] unknown_chain)

lemma undefined_not_abbr: "ChainAbbrEnum c \<noteq> ''undefined''"
  by (cases c) simp_all

lemma decimal_not_undefined: "decimal n \<noteq> ''undefined''"
proof
  assume "decimal n = ''undefined''"
  then have "CHR ''u'' \<in> set (decimal n)" by (simp del: decimal.simps)
  with set_decimal[of n] obtain m where "CHR ''u'' = digit m" "m < 10" by blast
  with digit_range[of m] show False by (simp) (elim disjE; simp)
qed

lemma object_undefined: "js_get ChainIdEnum_object ''undefined'' = None"
  using undefined_not_abbr decimal_not_undefined
  by (force simp: map_of_eq_None_iff ChainIdEnum_object_def simp del: decimal.simps)

text \<open>\<open>getChainById\<close> describes a known chain by its number, name and abbreviation, and
  gives a description without any field for an unknown number.\<close>

theorem getChainById_cases:
  "getChainById P i =
    (if known_chain i then P \<lparr> chain_id = Some (EnumNum i),
       chain_name = Some (ChainNameEnum (the_inv ChainIdEnum i)),
       chain_abbr = Some (ChainAbbrEnum (the_inv ChainIdEnum i)) \<rparr>
     else P \<lparr> chain_id = None, chain_name = None, chain_abbr = None \<rparr>)"
proof (cases "known_chain i")
  case True
  then obtain c where "i = ChainIdEnum c" by blast
  then show ?thesis using True by (simp add: getChainById_def chains the_inv_f_f)
next
  case False
  have n: "js_get (map (\<lambda>c. (ChainAbbrEnum c, val c)) all_chains) ''undefined'' = None"
    for val :: "chain \<Rightarrow> string"
    by (rule catalogue_get(2)[OF catalogue_all keys_inj(2)]) (metis rangeE undefined_not_abbr)
  show ?thesis using False
    by (simp add: getChainById_def getChainByAbbr_def chains object_undefined n)
qed

lemma isEVMChain_iff [chains]:
  "isEVMChain (ChainIdEnum c) \<longleftrightarrow> c \<notin> {Sol, Cardano, Ronin, Cosmos, Kava, Osmosis, Secret}"
  by (cases c) (simp_all add: isEVMChain_def ChainCoinAddresses_def isZeroAddress_def ZERO_ADDRESS_def
      SOL_COIN_ADDRESS_def CARDANO_COIN_ADDRESS_def COSMOS_COIN_ADDRESS_def RONIN_COIN_ADDRESS_def)

lemma isEVMChain_unknown [chains]: "\<not> known_chain i \<Longrightarrow> \<not> isEVMChain i"
proof -
  have "set (js_keys ChainCoinAddresses) = set (map ChainIdEnum all_chains)"
    by (simp add: js_keys_def ChainCoinAddresses_def all_chains_def)
  then show "\<not> known_chain i \<Longrightarrow> \<not> isEVMChain i"
    by (auto simp: isEVMChain_def known_chain_def js_get_None_iff split: option.split)
       (metis js_get_None_iff option.distinct(1) rangeI)
qed

end
