(* ===== verification/Addresses.thy ===== *)
theory Addresses
  imports Chains
begin

text \<open>
  \<open>libs/common/src/utils/addresses.ts\<close>: normal forms and validation of account addresses.
  The format checks of the packages \<open>web3-utils\<close>, \<open>@solana/web3.js\<close> and \<open>bech32\<close> are the fields of
  the record \<open>address_lib\<close>; \<open>eth_addresses\<close> states what the first documents and the code relies on
  (the lower-case form of an address is an address, and an address holds no white space).
\<close>

record address_lib =
  isETHAddress :: "string \<Rightarrow> bool"
  toChecksumAddress :: "string \<Rightarrow> string"
  newPublicKey :: "string \<Rightarrow> bool"
  bech32_decode :: "string \<Rightarrow> nat option \<Rightarrow> string option"

text \<open>\<open>newPublicKey\<close> tells whether the constructor returns; \<open>bech32_decode\<close> gives the prefix, or throws (\<open>None\<close>).\<close>

section \<open>Format checks\<close>

definition isSolAddress :: "address_lib \<Rightarrow> string \<Rightarrow> bool" where
  "isSolAddress L address \<longleftrightarrow> newPublicKey L address"

definition isBech32LikeAddress :: "address_lib \<Rightarrow> string \<Rightarrow> nat option \<Rightarrow> bool" where
  "isBech32LikeAddress L address len = (case bech32_decode L address len of
     Some pre \<Rightarrow> pre \<in> set [''addr'', ''kava'', ''secret'', ''osmo'', ''terra'', ''cosmos'']
   | None \<Rightarrow> False)"

definition isCardanoAddress :: bool where
  "isCardanoAddress = True"

definition isRoninAddress :: "string \<Rightarrow> bool" where
  "isRoninAddress address = str_includes address ''ronin''"

definition isKavaAddress :: "address_lib \<Rightarrow> string \<Rightarrow> bool" where
  "isKavaAddress L address = isBech32LikeAddress L address None"

definition isCosmosAddress :: "address_lib \<Rightarrow> string \<Rightarrow> bool" where
  "isCosmosAddress L address = isBech32LikeAddress L address None"

definition isOsmosisAddress :: "address_lib \<Rightarrow> string \<Rightarrow> bool" where
  "isOsmosisAddress L address = isBech32LikeAddress L address None"

definition isSecretAddress :: "address_lib \<Rightarrow> string \<Rightarrow> bool" where
  "isSecretAddress L address = isBech32LikeAddress L address None"

definition isTerraAddress :: "address_lib \<Rightarrow> string \<Rightarrow> bool" where
  "isTerraAddress L address = isBech32LikeAddress L address None"

text \<open>The loop over the checkers stops at the first one that accepts.\<close>

fun someChecker :: "(string \<Rightarrow> bool) list \<Rightarrow> string \<Rightarrow> bool" where
  "someChecker [] address = False"
| "someChecker (addressChecker # rest) address = (if addressChecker address then True else someChecker rest address)"

definition isSomeAddress :: "address_lib \<Rightarrow> string \<Rightarrow> bool" where
  "isSomeAddress L address = someChecker
     [\<lambda>a. isBech32LikeAddress L a None, \<lambda>_. isCardanoAddress, isETHAddress L, isSolAddress L] address"

section \<open>Normal forms\<close>

definition unifyAddress :: "address_lib \<Rightarrow> string \<Rightarrow> string" where
  "unifyAddress L address = (if isETHAddress L address then trim (to_lower address) else address)"

definition unifyAddresses :: "address_lib \<Rightarrow> string list \<Rightarrow> string list" where
  "unifyAddresses L addresses = map (unifyAddress L) addresses"

definition keepSolAddresses :: "address_lib \<Rightarrow> string list \<Rightarrow> string list" where
  "keepSolAddresses L addresses = foldl (\<lambda>ar a. if isSolAddress L a then ar @ [a] else ar) [] addresses"

definition keepETHAddresses :: "address_lib \<Rightarrow> string list \<Rightarrow> string list" where
  "keepETHAddresses L addresses = foldl (\<lambda>ar a. if isETHAddress L a then ar @ [a] else ar) [] addresses"

definition formatAddress :: "address_lib \<Rightarrow> string \<Rightarrow> string" where
  "formatAddress L address = (if isETHAddress L address then toChecksumAddress L address else address)"

text \<open>The argument is absent, an array, or one string of addresses separated by commas.\<close>

datatype addresses_arg = NoAddresses | AddressArray "string list" | AddressString string

fun splitToAddressesArray :: "address_lib \<Rightarrow> addresses_arg \<Rightarrow> string list" where
  "splitToAddressesArray L NoAddresses = []"
| "splitToAddressesArray L (AddressArray addresses) = map (unifyAddress L) addresses"
| "splitToAddressesArray L (AddressString addresses) =
     (if addresses = [] then [] else map (unifyAddress L) (split_on (CHR '','') addresses))"

section \<open>Validators per chain\<close>

definition addressValidators :: "address_lib \<Rightarrow> (string, string \<Rightarrow> bool) js_map" where
  "addressValidators L =
    [(''eth'', isETHAddress L),
     (''bnb'', isETHAddress L),
     (''plg'', isETHAddress L),
     (''ftm'', isETHAddress L),
     (''arbi'', isETHAddress L),
     (''avax'', isETHAddress L),
     (''gnosis'', isETHAddress L),
     (''celo'', isETHAddress L),
     (''mriver'', isETHAddress L),
     (''harm'', isETHAddress L),
     (''heco'', isETHAddress L),
     (''sol'', isSolAddress L),
     (''okex'', isETHAddress L),
     (''cro'', isETHAddress L),
     (''boba'', isETHAddress L),
     (''kcc'', isETHAddress L),
     (''opt'', isETHAddress L),
     (''near'', isETHAddress L),
     (''terra'', isTerraAddress L),
     (''klay'', isETHAddress L),
     (''fuse'', isETHAddress L),
     (''cardano'', \<lambda>_. isCardanoAddress),
     (''metis'', isETHAddress L),
     (''ronin'', isRoninAddress),
     (''cosmos'', isCosmosAddress L),
     (''kava'', isKavaAddress L),
     (''osmosis'', isOsmosisAddress L),
     (''secret'', isSecretAddress L),
     (''iotex'', isETHAddress L),
     (''milkomeda'', isETHAddress L)]"

definition keepAddressesByChainId :: "address_lib \<Rightarrow> addresses_arg \<Rightarrow> int \<Rightarrow> string list" where
  "keepAddressesByChainId L addresses chainId =
     (let addressArray = splitToAddressesArray L addresses in
      case js_get (addressValidators L)
             (case chainAbbrOfId chainId of Some a \<Rightarrow> a | None \<Rightarrow> ''undefined'') of
        Some validator \<Rightarrow> filter validator addressArray
      | None \<Rightarrow> addressArray)"

section \<open>Laws of the Ethereum check and a concrete instance\<close>

locale eth_addresses =
  fixes L :: address_lib
  assumes lower_address: "isETHAddress L a \<Longrightarrow> isETHAddress L (to_lower a)"
    and no_space: "isETHAddress L a \<Longrightarrow> list_all (\<lambda>c. \<not> is_space c) a"
begin

lemma unify_eth: "isETHAddress L a \<Longrightarrow> unifyAddress L a = to_lower a"
  by (simp add: unifyAddress_def trim_id no_space lower_address)

lemma unify_other: "\<not> isETHAddress L a \<Longrightarrow> unifyAddress L a = a"
  by (simp add: unifyAddress_def)

lemma unify_keeps_eth: "isETHAddress L (unifyAddress L a) = isETHAddress L a"
  by (cases "isETHAddress L a") (simp_all add: unify_eth unify_other lower_address)

lemma unify_idem [simp]: "unifyAddress L (unifyAddress L a) = unifyAddress L a"
  by (cases "isETHAddress L a") (simp_all add: unify_eth unify_other lower_address)

lemma map_unify_idem [simp]: "map (unifyAddress L) (map (unifyAddress L) as) = map (unifyAddress L) as"
  by simp

lemma split_unified: "a \<in> set (splitToAddressesArray L arg) \<Longrightarrow> unifyAddress L a = a"
  by (cases "(L, arg)" rule: splitToAddressesArray.cases) (auto split: if_splits)

lemma resplit: "splitToAddressesArray L (AddressArray (splitToAddressesArray L arg)) = splitToAddressesArray L arg"
  by (auto intro: map_idI split_unified)

end

text \<open>An Ethereum address in one letter case: the prefix and forty hexadecimal digits.\<close>

definition lower_hex :: "char \<Rightarrow> bool" where
  "lower_hex c \<longleftrightarrow> (let n = of_char c :: nat in 48 \<le> n \<and> n \<le> 57 \<or> 97 \<le> n \<and> n \<le> 102)"

definition upper_hex :: "char \<Rightarrow> bool" where
  "upper_hex c \<longleftrightarrow> (let n = of_char c :: nat in 48 \<le> n \<and> n \<le> 57 \<or> 65 \<le> n \<and> n \<le> 70)"

definition plain_eth :: "string \<Rightarrow> bool" where
  "plain_eth a \<longleftrightarrow> length a = 42 \<and> take 2 a = ''0x'' \<and>
     (list_all lower_hex (drop 2 a) \<or> list_all upper_hex (drop 2 a))"

definition plain_lib :: address_lib where
  "plain_lib = \<lparr> isETHAddress = plain_eth, toChecksumAddress = to_lower,
     newPublicKey = (\<lambda>a. length a = 32), bech32_decode = (\<lambda>a _. if take 4 a = ''addr'' then Some ''addr'' else None) \<rparr>"

lemma hex_chars:
  "lower_hex c \<or> upper_hex c \<Longrightarrow> lower_hex (lower_char c)"
  "lower_hex c \<or> upper_hex c \<Longrightarrow> \<not> is_space c"
  by (auto simp: lower_hex_def upper_hex_def lower_char_def is_space_def Let_def)

lemma plain_eth_lower: "plain_eth a \<Longrightarrow> plain_eth (to_lower a)"
proof -
  assume a: "plain_eth a"
  have "to_lower (take 2 a) = ''0x''" using a by (simp add: plain_eth_def lower_char_def)
  then have 1: "take 2 (to_lower a) = ''0x''" by (simp add: to_lower_def take_map)
  have "list_all lower_hex (drop 2 (to_lower a))"
    using a hex_chars(1) by (auto simp: plain_eth_def to_lower_def drop_map list_all_iff)
  then show ?thesis using a 1 by (simp add: plain_eth_def to_lower_def)
qed

lemma plain_eth_no_space: "plain_eth a \<Longrightarrow> list_all (\<lambda>c. \<not> is_space c) a"
proof -
  assume a: "plain_eth a"
  have "list_all (\<lambda>c. \<not> is_space c) (drop 2 a)"
    using a hex_chars(2) by (auto simp: plain_eth_def list_all_iff)
  moreover have "list_all (\<lambda>c. \<not> is_space c) (take 2 a)" using a by (simp add: plain_eth_def is_space_def)
  ultimately show ?thesis by (metis append_take_drop_id list_all_append)
qed

interpretation plain: eth_addresses plain_lib
  by unfold_locales (simp_all add: plain_lib_def plain_eth_lower plain_eth_no_space)

section \<open>Validators and coin addresses agree\<close>

definition validatorOf :: "address_lib \<Rightarrow> chain \<Rightarrow> (string \<Rightarrow> bool)" where
  "validatorOf L c =
     (if isEVMChain (ChainIdEnum c) \<and> c \<noteq> Terra then isETHAddress L
      else if c = Sol then isSolAddress L
      else if c = Cardano then (\<lambda>_. True)
      else if c = Ronin then isRoninAddress
      else (\<lambda>a. isBech32LikeAddress L a None))"

lemma addressValidators_get: "js_get (addressValidators L) (ChainAbbrEnum c) = Some (validatorOf L c)"
  unfolding validatorOf_def isEVMChain_iff
  by (cases c) (simp_all add: addressValidators_def isCardanoAddress_def fun_eq_iff
      isKavaAddress_def isCosmosAddress_def isOsmosisAddress_def isSecretAddress_def isTerraAddress_def)

lemma addressValidators_undefined: "js_get (addressValidators L) ''undefined'' = None"
  by (simp add: addressValidators_def)

lemma keepAddressesByChainId_known [chains]:
  "keepAddressesByChainId L arg (ChainIdEnum c) = filter (validatorOf L c) (splitToAddressesArray L arg)"
  by (simp add: keepAddressesByChainId_def chains addressValidators_get)

lemma keepAddressesByChainId_unknown [chains]:
  "\<not> known_chain i \<Longrightarrow> keepAddressesByChainId L arg i = splitToAddressesArray L arg"
  by (simp add: keepAddressesByChainId_def chains addressValidators_undefined)

text \<open>On the chains with the zero address as coin address, \<open>keepAddressesByChainId\<close> keeps the
  Ethereum addresses and nothing else; the one exception is Terra, which \<open>isEVMChain\<close> counts as such a chain
  while its validator is the bech32 one.  On every chain what is kept is in normal form, and keeping again
  changes nothing.\<close>

theorem keepAddressesByChainId_normal:
  assumes "eth_addresses L"
  shows "(isEVMChain i \<longrightarrow> keepAddressesByChainId L arg i = filter
        (if i = ChainIdEnum Terra then \<lambda>a. isBech32LikeAddress L a None else isETHAddress L) (splitToAddressesArray L arg))
    \<and> list_all (\<lambda>a. unifyAddress L a = a) (keepAddressesByChainId L arg i)
    \<and> keepAddressesByChainId L (AddressArray (keepAddressesByChainId L arg i)) i = keepAddressesByChainId L arg i"
proof -
  have keep: "\<exists>v. \<forall>arg. keepAddressesByChainId L arg i = filter v (splitToAddressesArray L arg)"
  proof (cases "known_chain i")
    case False
    then show ?thesis by (intro exI[of _ "\<lambda>_. True"]) (simp add: chains)
  next
    case True
    then obtain c where "i = ChainIdEnum c" by blast
    then show ?thesis by (intro exI[of _ "validatorOf L c"]) (simp add: chains)
  qed
  then obtain v where v: "\<And>arg. keepAddressesByChainId L arg i = filter v (splitToAddressesArray L arg)" by blast
  have "isEVMChain i \<Longrightarrow> keepAddressesByChainId L arg i = filter
      (if i = ChainIdEnum Terra then \<lambda>a. isBech32LikeAddress L a None else isETHAddress L) (splitToAddressesArray L arg)"
  proof -
    assume evm: "isEVMChain i"
    then obtain c where c: "i = ChainIdEnum c" using isEVMChain_unknown by blast
    then have "c = Terra \<longleftrightarrow> i = ChainIdEnum Terra" using ChainIdEnum_inj by blast
    with evm show ?thesis unfolding c by (auto simp: keepAddressesByChainId_known validatorOf_def)
  qed
  moreover have n: "list_all (\<lambda>a. unifyAddress L a = a) (keepAddressesByChainId L arg i)"
    using eth_addresses.split_unified[OF assms] by (auto simp: v list_all_iff)
  then have "map (unifyAddress L) (keepAddressesByChainId L arg i) = keepAddressesByChainId L arg i"
    by (auto simp: list_all_iff intro: map_idI)
  then have "keepAddressesByChainId L (AddressArray (keepAddressesByChainId L arg i)) i = keepAddressesByChainId L arg i"
    by (simp add: v)
  ultimately show ?thesis using n by blast
qed

theorem keepAddressesByChainId_normal_witness:
  "keepAddressesByChainId plain_lib (AddressString ''0xAB0000000000000000000000000000000000000A,sol'') 1
     = filter plain_eth (splitToAddressesArray plain_lib (AddressString ''0xAB0000000000000000000000000000000000000A,sol''))"
proof -
  have "isEVMChain 1" using isEVMChain_iff[of Eth] by simp
  with keepAddressesByChainId_normal[OF plain.eth_addresses_axioms, of 1
      "AddressString ''0xAB0000000000000000000000000000000000000A,sol''"]
  show ?thesis by (simp add: plain_lib_def)
qed

lemma keep_is_filter: "foldl (\<lambda>ar a. if P a then ar @ [a] else ar) acc as = acc @ filter P as"
  by (induction "as" arbitrary: acc) simp_all

lemma keepETHAddresses_filter: "keepETHAddresses L as = filter (isETHAddress L) as"
  by (simp add: keepETHAddresses_def keep_is_filter)

lemma keepSolAddresses_filter: "keepSolAddresses L as = filter (newPublicKey L) as"
  by (simp add: keepSolAddresses_def isSolAddress_def keep_is_filter)

text \<open>The placeholder for Cardano accepts every string, and with it the combined check.\<close>

lemma isSomeAddress_always: "isSomeAddress L a"
  by (simp add: isSomeAddress_def isCardanoAddress_def)

end
