(* ===== verification/Collections.thy ===== *)
theory Collections
  imports Prelude
begin

text \<open>
  Helpers on arrays, strings and promises that the services share:
  \<open>libs/common/src/utils/{array,transform,string,retry,promise,promises.utils}.ts\<close> and the array helpers of
  \<open>apps/account/src/common/utils/index.ts\<close>.  An asynchronous callback is a function on the state it works on; it
  returns a sum (left when its promise is rejected) and the new state.
\<close>

section \<open>Arrays\<close>

text \<open>\<open>concat\<close> and \<open>flat\<close> spread an element that is itself an array, so elements carry that distinction.\<close>

datatype 'a js_item = Elem 'a | Arr "'a js_item list"

fun spread :: "'a js_item \<Rightarrow> 'a js_item list" where
  "spread (Elem a) = [Elem a]"
| "spread (Arr xs) = xs"

definition js_slice :: "'a list \<Rightarrow> int \<Rightarrow> int \<Rightarrow> 'a list" where
  "js_slice xs start stop =
     (let n = int (length xs);
          rel = (\<lambda>k. nat (if k < 0 then max (n + k) 0 else min k n))
      in take (rel stop - rel start) (drop (rel start) xs))"

text \<open>
  \<open>chunk\<close>: the group of an item is \<open>Math.floor(index / num)\<close>.  When that is not an index of an array
  (\<open>num\<close> zero, or a negative quotient) the write lands on a property outside the array.
\<close>

definition chunkStep :: "int \<Rightarrow> 'a js_item list list \<Rightarrow> 'a js_item \<times> nat \<Rightarrow> 'a js_item list list" where
  "chunkStep num results = (\<lambda>(item, index).
     if num = 0 \<or> int index div num < 0 then results
     else (let chunkIndex = nat (int index div num) in
       if chunkIndex < length results
       then results[chunkIndex := results ! chunkIndex @ spread item]
       else results @ replicate (chunkIndex - length results) [] @ [spread item]))"

definition chunk :: "'a js_item list \<Rightarrow> int \<Rightarrow> 'a js_item list list" where
  "chunk array num = foldl (chunkStep num) [] (zip array [0..<length array])"

definition getUniqList :: "'a list \<Rightarrow> 'a list" where
  "getUniqList values = js_set values"

definition filterByEnum :: "('a \<Rightarrow> bool) \<Rightarrow> 'a list \<Rightarrow> 'a list" where
  "filterByEnum enumHas value = filter enumHas value"

definition notEmpty :: "('a \<Rightarrow> bool) \<Rightarrow> 'a list \<Rightarrow> 'a list" where
  "notEmpty truthy arr = filter truthy arr"

text \<open>The loop of \<open>chunkRunAsync\<close>; it does not return when \<open>chunkSize\<close> never moves the index past the end.\<close>

partial_function (option) chunkRunLoop ::
  "('a list \<Rightarrow> int \<Rightarrow> 's \<Rightarrow> ('e + 'r) \<times> 's) \<Rightarrow> 'a list \<Rightarrow> int \<Rightarrow> int \<Rightarrow> 'r list \<Rightarrow> 's \<Rightarrow> (('e + 'r list) \<times> 's) option"
where
  "chunkRunLoop func array chunkSize index responses s =
     (if index < int (length array)
      then (case func (js_slice array index (index + chunkSize)) index s of
          (Inl e, s') \<Rightarrow> Some (Inl e, s')
        | (Inr response, s') \<Rightarrow>
            chunkRunLoop func array chunkSize (index + chunkSize) (responses @ [response]) s')
      else Some (Inr responses, s))"

definition chunkRunAsync ::
  "('a list \<Rightarrow> int \<Rightarrow> 's \<Rightarrow> ('e + 'r js_item) \<times> 's) \<Rightarrow> 'a list \<Rightarrow> int \<Rightarrow> 's
    \<Rightarrow> (('e + 'r js_item list) \<times> 's) option" where
  "chunkRunAsync func array chunkSize s =
     map_option (\<lambda>(r, s'). (map_sum id (\<lambda>responses. concat (map spread responses)) r, s'))
       (chunkRunLoop func array chunkSize 0 [] s)"

definition first :: "'a list \<Rightarrow> 'a option" where
  "first array = (if array = [] then None else Some (array ! 0))"

definition second :: "'a list \<Rightarrow> 'a option" where
  "second array = (if length array \<le> 1 then None else Some (array ! 1))"

partial_function (option) toChunkedLoop :: "'a list \<Rightarrow> int \<Rightarrow> int \<Rightarrow> 'a list list \<Rightarrow> 'a list list option" where
  "toChunkedLoop array chunkSize i result =
     (if i < int (length array)
      then toChunkedLoop array chunkSize (i + chunkSize) (result @ [js_slice array i (i + chunkSize)])
      else Some result)"

definition toChunkedArray :: "'a list \<Rightarrow> int \<Rightarrow> 'a list list option" where
  "toChunkedArray array chunkSize = toChunkedLoop array chunkSize 0 []"

text \<open>\<open>chunkArray\<close> of the account service is the same loop written a second time.\<close>

definition chunkArray :: "'a list \<Rightarrow> int \<Rightarrow> 'a list list option" where
  "chunkArray array chunkSize = toChunkedLoop array chunkSize 0 []"

definition insertAtPosition :: "'a list \<Rightarrow> int \<Rightarrow> 'a \<Rightarrow> 'a list" where
  "insertAtPosition array index newItem =
     js_slice array 0 index @ [newItem] @ js_slice array index (int (length array))"

text \<open>\<open>find\<close> returns the element it finds, and the empty string is falsy: it is never excluded.\<close>

definition excludeSecondArray :: "string list \<Rightarrow> string list \<Rightarrow> string list" where
  "excludeSecondArray keep exclude =
     filter (\<lambda>a. \<not> (case find (\<lambda>b. a = b) exclude of None \<Rightarrow> False | Some found \<Rightarrow> found \<noteq> [])) keep"

datatype string_or_array = OneString string | StringArray "string list"

fun getUniqueAndToLowerCaseArrayData :: "string_or_array \<Rightarrow> string list" where
  "getUniqueAndToLowerCaseArrayData (OneString input) = set_add [] (to_lower input)"
| "getUniqueAndToLowerCaseArrayData (StringArray input) = foldl (\<lambda>s x. set_add s (to_lower x)) [] input"

fun transferTokenAddressNotIn :: "string \<Rightarrow> string list \<Rightarrow> bool" where
  "transferTokenAddressNotIn tokenAddress [] = True"
| "transferTokenAddressNotIn tokenAddress (address # rest) =
     (if to_lower address = tokenAddress then False else transferTokenAddressNotIn tokenAddress rest)"

section \<open>Strings\<close>

datatype split_arg = NoValue | SplitArray "string list" | SplitString string

fun splitToArray :: "split_arg \<Rightarrow> string list" where
  "splitToArray NoValue = []"
| "splitToArray (SplitArray value) = value"
| "splitToArray (SplitString value) = (if value = [] then [] else split_on (CHR '','') value)"

definition getKey :: "string list \<Rightarrow> string" where
  "getKey seed = join_with ''_'' seed"

definition concatStrings :: "string list \<Rightarrow> string" where
  "concatStrings args = join_with ''_'' args"

definition startsWith :: "string \<Rightarrow> string \<Rightarrow> bool" where
  "startsWith name beginning \<longleftrightarrow> take (length beginning) (to_lower name) = to_lower beginning"

definition endsWith :: "string \<Rightarrow> string \<Rightarrow> bool" where
  "endsWith name en \<longleftrightarrow> length en \<le> length name \<and> drop (length name - length en) (to_lower name) = to_lower en"

definition equals :: "string \<Rightarrow> string \<Rightarrow> bool" where
  "equals nameOne nameTwo \<longleftrightarrow> to_lower nameOne = to_lower nameTwo"

definition hexDigit :: "nat \<Rightarrow> char" where
  "hexDigit n = ''0123456789abcdef'' ! n"

text \<open>\<open>Number(code).toString(16)\<close> of a character code below 256: one digit or two, without padding.\<close>

definition toHex :: "char \<Rightarrow> string" where
  "toHex c = (let n = of_char c :: nat in if n < 16 then [hexDigit n] else [hexDigit (n div 16), hexDigit (n mod 16)])"

definition stringToHex :: "string \<Rightarrow> string" where
  "stringToHex str = concat (map toHex str)"

definition hexValue :: "char \<Rightarrow> nat option" where
  "hexValue c = (let n = of_char c :: nat in
     if 48 \<le> n \<and> n \<le> 57 then Some (n - 48)
     else if 97 \<le> n \<and> n \<le> 102 then Some (n - 87)
     else if 65 \<le> n \<and> n \<le> 70 then Some (n - 55) else None)"

fun hexNumber :: "nat \<Rightarrow> string \<Rightarrow> nat option" where
  "hexNumber acc [] = Some acc"
| "hexNumber acc (c # cs) = (case hexValue c of None \<Rightarrow> None | Some d \<Rightarrow> hexNumber (16 * acc + d) cs)"

text \<open>
  \<open>String.fromCharCode(Number('0x' + digits))\<close>: a number that does not parse is \<open>NaN\<close>, whose character is
  the code 0.  The groups have at most two digits, so the code fits the character type.
\<close>

definition fromHex :: "char js_item list \<Rightarrow> char" where
  "fromHex ch = (case hexNumber 0 (concat (map (\<lambda>i. case i of Elem c \<Rightarrow> [c] | Arr _ \<Rightarrow> []) ch)) of
     Some n \<Rightarrow> char_of n | None \<Rightarrow> char_of (0 :: nat))"

definition hexToString :: "string \<Rightarrow> string" where
  "hexToString hex = map fromHex (chunk (map Elem hex) 2)"

definition filterObjectKeys :: "(string \<Rightarrow> bool) \<Rightarrow> (string, 'v) js_map \<Rightarrow> (string, 'v) js_map" where
  "filterObjectKeys keep obj = filter (\<lambda>x. keep (fst x)) obj"

definition groupStep :: "('t \<Rightarrow> 'k) \<Rightarrow> ('k, 't list) js_map \<Rightarrow> 't \<Rightarrow> ('k, 't list) js_map" where
  "groupStep keyExtractor m item =
     (case js_get m (keyExtractor item) of
        None \<Rightarrow> js_put m (keyExtractor item) [item]
      | Some collection \<Rightarrow> js_put m (keyExtractor item) (collection @ [item]))"

definition groupBy :: "('t \<Rightarrow> 'k) \<Rightarrow> 't list \<Rightarrow> ('k, 't list) js_map" where
  "groupBy keyExtractor list = foldl (groupStep keyExtractor) [] list"

text \<open>\<open>sortKeys\<close> rebuilds the object from its entries in the order they have.\<close>

definition sortKeys :: "(string, 'v) js_map \<Rightarrow> (string, 'v) js_map" where
  "sortKeys obj = foldl (\<lambda>m (k, v). js_put m k v) [] obj"

section \<open>Promises\<close>

fun getFulfilledLoop :: "('e, 'a) settled list \<Rightarrow> 'a list \<Rightarrow> 'a list" where
  "getFulfilledLoop [] results = results"
| "getFulfilledLoop (Fulfilled a # rest) results = getFulfilledLoop rest (results @ [a])"
| "getFulfilledLoop (Rejected e # rest) results = getFulfilledLoop rest results"

definition getFulfilledPromises :: "('e + 'a) list \<Rightarrow> 'a list" where
  "getFulfilledPromises promises = getFulfilledLoop (map settle promises) []"

definition eachPromiseAllSettled ::
  "('a \<Rightarrow> 's \<Rightarrow> 's) \<Rightarrow> ('e \<Rightarrow> 's \<Rightarrow> 's) \<Rightarrow> ('e, 'a) settled list \<Rightarrow> 's \<Rightarrow> 's" where
  "eachPromiseAllSettled callbackFulfilled callbackRejected resolvedProtocols s =
     foldl (\<lambda>s d. case d of Fulfilled v \<Rightarrow> callbackFulfilled v s | Rejected r \<Rightarrow> callbackRejected r s)
       s resolvedProtocols"

text \<open>\<open>retry\<close>; the third component lists the delays (milliseconds) it has waited.\<close>

function retry :: "('s \<Rightarrow> ('e + 'a) \<times> 's) \<Rightarrow> int \<Rightarrow> int \<Rightarrow> 's \<Rightarrow> ('e + 'a) \<times> 's \<times> int list" where
  "retry action delayInMilliseconds maxRetries s =
     (case action s of
        (Inr a, s') \<Rightarrow> (Inr a, s', [])
      | (Inl e, s') \<Rightarrow>
          if maxRetries \<le> 0 then (Inl e, s', [])
          else (case retry action delayInMilliseconds (maxRetries - 1) s' of
                  (r, s'', ds) \<Rightarrow> (r, s'', delayInMilliseconds # ds)))"
  by pat_completeness auto
termination by (relation "measure (\<lambda>(_, _, m, _). nat m)") auto

declare retry.simps [simp del]

section \<open>Chunking\<close>

text \<open>The reference: consecutive pieces of \<open>n\<close> elements with the index each starts at.\<close>

function pieces :: "nat \<Rightarrow> nat \<Rightarrow> 'a list \<Rightarrow> ('a list \<times> nat) list" where
  "pieces n i xs = (if xs = [] \<or> n = 0 then [] else (take n xs, i) # pieces n (i + n) (drop n xs))"
  by pat_completeness auto
termination by (relation "measure (\<lambda>(n, _, xs). length xs)") auto

declare pieces.simps [simp del]

lemma pieces_Nil [simp]: "pieces n i [] = []"
  by (simp add: pieces.simps)

lemma pieces_concat: "0 < n \<Longrightarrow> concat (map fst (pieces n i xs)) = xs"
proof (induction n i xs rule: pieces.induct)
  case (1 n i xs)
  then show ?case by (cases "xs = []") (simp_all add: pieces.simps[of n i xs])
qed

lemma pieces_length: "p \<in> set (pieces n i xs) \<Longrightarrow> 0 < length (fst p) \<and> length (fst p) \<le> n"
proof (induction n i xs rule: pieces.induct)
  case (1 n i xs)
  then show ?case by (cases "xs = [] \<or> n = 0") (auto simp: pieces.simps[of n i xs])
qed

lemma pieces_full: "p \<in> set (butlast (pieces n i xs)) \<Longrightarrow> length (fst p) = n"
proof (induction n i xs rule: pieces.induct)
  case (1 n i xs)
  then show ?case
    by (cases "xs = [] \<or> n = 0")
      (auto simp: pieces.simps[of n i xs] pieces.simps[of n "i + n" "drop n xs"] split: if_splits)
qed

lemma pieces_index: "map snd (pieces n i xs) = map (\<lambda>k. i + k * n) [0..<length (pieces n i xs)]"
proof (induction n i xs rule: pieces.induct)
  case (1 n i xs)
  show ?case
  proof (cases "xs = [] \<or> n = 0")
    case False
    with 1 show ?thesis
      by (simp add: pieces.simps[of n i xs] upt_conv_Cons map_Suc_upt[symmetric] add.assoc add.commute
          del: upt_Suc)
  qed (simp add: pieces.simps)
qed

lemma js_slice_piece:
  "0 < n \<Longrightarrow> i < length xs \<Longrightarrow> js_slice xs (int i) (int i + int n) = take n (drop i xs)"
  by (simp add: js_slice_def Let_def min_def nat_add_distrib)

text \<open>Running the callback on the pieces in turn, up to the first rejection.\<close>

fun runPieces :: "('a list \<Rightarrow> int \<Rightarrow> 's \<Rightarrow> ('e + 'r) \<times> 's) \<Rightarrow> ('a list \<times> nat) list \<Rightarrow> 's \<Rightarrow> ('e + 'r list) \<times> 's" where
  "runPieces f [] s = (Inr [], s)"
| "runPieces f ((c, i) # ps) s = (case f c (int i) s of
     (Inl e, s') \<Rightarrow> (Inl e, s')
   | (Inr r, s') \<Rightarrow> (case runPieces f ps s' of (Inl e, s'') \<Rightarrow> (Inl e, s'') | (Inr rs, s'') \<Rightarrow> (Inr (r # rs), s'')))"

lemma chunkRunLoop_pieces:
  assumes "0 < n"
  shows "chunkRunLoop f xs (int n) (int i) acc s =
    Some (case runPieces f (pieces n i (drop i xs)) s of
      (Inl e, s') \<Rightarrow> (Inl e, s') | (Inr rs, s') \<Rightarrow> (Inr (acc @ rs), s'))"
proof (induction "length xs - i" arbitrary: i acc s rule: less_induct)
  case less
  show ?case
  proof (cases "i < length xs")
    case False
    then show ?thesis by (simp add: chunkRunLoop.simps)
  next
    case True
    have IH: "chunkRunLoop f xs (int n) (int i + int n) acc' s' =
      Some (case runPieces f (pieces n (i + n) (drop n (drop i xs))) s' of
        (Inl e, s') \<Rightarrow> (Inl e, s') | (Inr rs, s') \<Rightarrow> (Inr (acc' @ rs), s'))" for acc' s'
      using less[of "i + n" acc' s'] True assms by (simp add: add.commute)
    have p: "pieces n i (drop i xs) = (take n (drop i xs), i) # pieces n (i + n) (drop n (drop i xs))"
      using True assms by (simp add: pieces.simps)
    show ?thesis using True
      by (subst chunkRunLoop.simps)
        (auto simp: js_slice_piece[OF assms] p IH split: prod.splits sum.splits)
  qed
qed

lemma toChunkedLoop_pieces:
  assumes "0 < n"
  shows "toChunkedLoop xs (int n) (int i) acc = Some (acc @ map fst (pieces n i (drop i xs)))"
proof (induction "length xs - i" arbitrary: i acc rule: less_induct)
  case less
  show ?case
  proof (cases "i < length xs")
    case False
    then show ?thesis by (simp add: toChunkedLoop.simps)
  next
    case True
    have p: "pieces n i (drop i xs) = (take n (drop i xs), i) # pieces n (i + n) (drop n (drop i xs))"
      using True assms by (simp add: pieces.simps)
    show ?thesis using True less[of "i + n" "acc @ [take n (drop i xs)]"] assms
      by (subst toChunkedLoop.simps) (simp add: js_slice_piece[OF assms] p add.commute)
  qed
qed

text \<open>With a step that is not positive the loop condition stays true for ever.\<close>

lemma chunkRunLoop_diverges:
  fixes f :: "'a list \<Rightarrow> int \<Rightarrow> 's \<Rightarrow> ('e + 'r) \<times> 's"
  assumes "\<And>c i s. \<exists>r s'. f c i s = (Inr r, s')" "csize \<le> 0" "index < int (length xs)"
  shows "chunkRunLoop f xs csize index acc s = None"
proof (cases "chunkRunLoop f xs csize index acc s")
  case (Some y)
  have "(\<forall>c i s. \<exists>r s'. f c i s = (Inr r, s')) \<longrightarrow> csize \<le> 0 \<longrightarrow> index < int (length xs) \<longrightarrow> False"
  proof (rule chunkRunLoop.raw_induct[where P = "\<lambda>f xs c i a s y. (\<forall>c i s. \<exists>r s'. f c i s = (Inr r, s')) \<longrightarrow>
        c \<le> 0 \<longrightarrow> i < int (length xs) \<longrightarrow> False", OF _ Some], intro impI)
    fix loop :: "('a list \<Rightarrow> int \<Rightarrow> 's \<Rightarrow> ('e + 'r) \<times> 's) \<Rightarrow> 'a list \<Rightarrow> int \<Rightarrow> int \<Rightarrow> 'r list \<Rightarrow> 's \<Rightarrow> (('e + 'r list) \<times> 's) option"
      and f :: "'a list \<Rightarrow> int \<Rightarrow> 's \<Rightarrow> ('e + 'r) \<times> 's" and xs c i acc s y
    assume IH: "\<And>f xs c i acc s y. loop f xs c i acc s = Some y \<Longrightarrow>
        (\<forall>c i s. \<exists>r s'. f c i s = (Inr r, s')) \<longrightarrow> c \<le> 0 \<longrightarrow> i < int (length xs) \<longrightarrow> False"
      and run: "(if i < int (length xs)
        then case f (js_slice xs i (i + c)) i s of (Inl e, s') \<Rightarrow> Some (Inl e, s')
             | (Inr r, s') \<Rightarrow> loop f xs c (i + c) (acc @ [r]) s'
        else Some (Inr acc, s)) = Some y"
      and ok: "\<forall>c i s. \<exists>r s'. f c i s = (Inr r, s')" and le: "c \<le> 0" "i < int (length xs)"
    obtain r s' where "f (js_slice xs i (i + c)) i s = (Inr r, s')" using ok by blast
    with run le(2) have "loop f xs c (i + c) (acc @ [r]) s' = Some y" by simp
    from IH[OF this] ok le show False by simp
  qed
  with assms show ?thesis by blast
qed

lemma toChunkedLoop_diverges:
  fixes xs :: "'a list"
  assumes "csize \<le> 0" "index < int (length xs)"
  shows "toChunkedLoop xs csize index acc = None"
proof (cases "toChunkedLoop xs csize index acc")
  case (Some y)
  have "csize \<le> 0 \<longrightarrow> index < int (length xs) \<longrightarrow> False"
  proof (rule toChunkedLoop.raw_induct[where P = "\<lambda>xs c i a y. c \<le> 0 \<longrightarrow> i < int (length xs) \<longrightarrow> False", OF _ Some],
      intro impI)
    fix loop :: "'a list \<Rightarrow> int \<Rightarrow> int \<Rightarrow> 'a list list \<Rightarrow> 'a list list option" and xs :: "'a list" and c i acc y
    assume IH: "\<And>xs c i acc y. loop xs c i acc = Some y \<Longrightarrow> c \<le> 0 \<longrightarrow> i < int (length xs) \<longrightarrow> False"
      and run: "(if i < int (length xs) then loop xs c (i + c) (acc @ [js_slice xs i (i + c)]) else Some acc) = Some y"
      and le: "c \<le> 0" "i < int (length xs)"
    from run le(2) have "loop xs c (i + c) (acc @ [js_slice xs i (i + c)]) = Some y" by simp
    from IH[OF this] le show False by simp
  qed
  with assms show ?thesis by blast
qed

text \<open>For a positive size, \<open>chunkRunAsync\<close> returns; it runs the callback on consecutive
  pieces that partition the array, each of the given size except perhaps the last, in order and with the index
  of each piece, stops at the first rejection, and otherwise returns the flattened responses.\<close>

theorem chunkRunAsync_partition:
  assumes "0 < n"
  shows "\<exists>ps. concat (map fst ps) = xs \<and> (\<forall>p \<in> set (butlast ps). length (fst p) = n)
    \<and> (\<forall>p \<in> set ps. 0 < length (fst p) \<and> length (fst p) \<le> n)
    \<and> map snd ps = map (\<lambda>k. k * n) [0..<length ps]
    \<and> chunkRunAsync f xs (int n) s = Some (case runPieces f ps s of
        (Inl e, s') \<Rightarrow> (Inl e, s') | (Inr rs, s') \<Rightarrow> (Inr (concat (map spread rs)), s'))"
proof (intro exI[of _ "pieces n 0 xs"] conjI)
  show "chunkRunAsync f xs (int n) s = Some (case runPieces f (pieces n 0 xs) s of
      (Inl e, s') \<Rightarrow> (Inl e, s') | (Inr rs, s') \<Rightarrow> (Inr (concat (map spread rs)), s'))"
    using chunkRunLoop_pieces[OF assms, of f xs 0 "[]" s]
    by (auto simp: chunkRunAsync_def split: prod.splits sum.splits)
  show "map snd (pieces n 0 xs) = map (\<lambda>k. k * n) [0..<length (pieces n 0 xs)]"
    using pieces_index[of n 0 xs] by simp
qed (use assms in \<open>auto simp: pieces_concat dest: pieces_length pieces_full\<close>)

definition sumPiece :: "int list \<Rightarrow> int \<Rightarrow> nat \<Rightarrow> (nat + int js_item) \<times> nat" where
  "sumPiece c i s = (Inr (Elem (sum_list c)), s + 1)"

theorem chunkRunAsync_partition_witness: "\<exists>r. chunkRunAsync sumPiece [1, 2, 3, 4, 5] (int 2) 0 = Some r"
proof -
  have "0 < (2 :: nat)" by simp
  from chunkRunAsync_partition[OF this, of "[1, 2, 3, 4, 5]" sumPiece 0] show ?thesis by blast
qed

text \<open>For a size that is not positive, the chunking loops do not return on any array with an
  element: \<open>chunkRunAsync\<close> (when the callback never rejects), \<open>toChunkedArray\<close> and \<open>chunkArray\<close>.\<close>

theorem chunking_diverges:
  assumes "csize \<le> 0" "xs \<noteq> []" "\<And>c i s. \<exists>r s'. f c i s = (Inr r, s')"
  shows "chunkRunAsync f xs csize s = None \<and> toChunkedArray xs csize = None \<and> chunkArray xs csize = None"
  using chunkRunLoop_diverges[OF assms(3,1), where xs = xs and index = 0] assms(2) toChunkedLoop_diverges[OF assms(1), of 0 xs]
  by (simp add: chunkRunAsync_def toChunkedArray_def chunkArray_def)

theorem chunking_diverges_witness: "chunkArray [1, 2 :: int] 0 = None"
  using chunking_diverges[of 0 "[1, 2 :: int]" "\<lambda>c i s. (Inr (Elem 1) :: nat + nat js_item, s)" "()"] by simp

lemma toChunkedArray_pieces: "0 < n \<Longrightarrow> toChunkedArray xs (int n) = Some (map fst (pieces n 0 xs))"
  using toChunkedLoop_pieces[of n xs 0 "[]"] by (simp add: toChunkedArray_def)

lemma chunkArray_eq: "chunkArray = toChunkedArray"
  by (simp add: chunkArray_def toChunkedArray_def fun_eq_iff)

section \<open>Retrying\<close>

text \<open>The outcome and the state after the \<open>k\<close>-th repetition of the action.\<close>

fun call :: "('s \<Rightarrow> ('e + 'a) \<times> 's) \<Rightarrow> nat \<Rightarrow> 's \<Rightarrow> ('e + 'a) \<times> 's" where
  "call action 0 s = action s"
| "call action (Suc k) s = action (snd (call action k s))"

lemma call_shift: "call action k (snd (action s)) = call action (Suc k) s"
  by (induction k) simp_all

text \<open>\<open>retry\<close> returns after at most \<open>maxRetries\<close> repetitions: with the first success, or, if
  every attempt failed, with the error of the last; it waits once before each repetition.\<close>

theorem retry_attempts:
  "\<exists>k \<le> nat maxRetries. retry action d maxRetries s = (fst (call action k s), snd (call action k s), replicate k d)
    \<and> (\<forall>j < k. isl (fst (call action j s))) \<and> (isl (fst (call action k s)) \<longrightarrow> k = nat maxRetries)"
proof (induction action d maxRetries s rule: retry.induct)
  case (1 action d m s)
  obtain r s' where a: "action s = (r, s')" by (cases "action s")
  show ?case
  proof (cases r)
    case (Inr x)
    then show ?thesis using a by (intro exI[of _ 0]) (simp add: retry.simps[of action d m s])
  next
    case (Inl e)
    show ?thesis
    proof (cases "m \<le> 0")
      case True
      then show ?thesis using a Inl by (intro exI[of _ 0]) (simp add: retry.simps[of action d m s])
    next
      case False
      from 1[OF a[symmetric] Inl False] obtain k where k: "k \<le> nat (m - 1)"
        "retry action d (m - 1) s' = (fst (call action k s'), snd (call action k s'), replicate k d)"
        "\<forall>j < k. isl (fst (call action j s'))" "isl (fst (call action k s')) \<longrightarrow> k = nat (m - 1)" by blast
      have sh: "call action j s' = call action (Suc j) s" for j
        using call_shift[of action j s] a by simp
      have first_fails: "isl (fst (call action 0 s))" using a Inl by simp
      have "\<forall>j < Suc k. isl (fst (call action j s))"
        using k(3) first_fails by (auto simp: less_Suc_eq_0_disj sh simp del: call.simps)
      then show ?thesis using a Inl False k(1,2,4)
        by (intro exI[of _ "Suc k"]) (auto simp: retry.simps[of action d m s] sh simp del: call.simps)
    qed
  qed
qed

definition thirdTime :: "nat \<Rightarrow> (string + nat) \<times> nat" where
  "thirdTime n = (if n < 2 then Inl ''busy'' else Inr n, n + 1)"

theorem retry_attempts_witness: "retry thirdTime 1000 3 0 = (Inr 2, 3, [1000, 1000])"
proof -
  obtain k where k: "k \<le> 3" "retry thirdTime 1000 3 0 = (fst (call thirdTime k 0), snd (call thirdTime k 0), replicate k 1000)"
    "\<forall>j < k. isl (fst (call thirdTime j 0))" "isl (fst (call thirdTime k 0)) \<longrightarrow> k = 3"
    using retry_attempts[of 3 thirdTime 1000 0] by auto
  have "call thirdTime 0 0 = (Inl ''busy'', 1)" "call thirdTime 1 0 = (Inl ''busy'', 2)" "call thirdTime 2 0 = (Inr 2, 3)"
    by (simp_all add: thirdTime_def numeral_2_eq_2)
  moreover from this k(3,4) have "k = 2"
    using k(1) by (cases "k = 0 \<or> k = 1 \<or> k = 2") (auto simp del: call.simps dest: spec[of _ 2])
  ultimately show ?thesis using k(2) by (simp add: numeral_2_eq_2 del: call.simps)
qed

section \<open>Grouping\<close>

lemma groupBy_snoc: "groupBy f (xs @ [x]) = groupStep f (groupBy f xs) x"
  by (simp add: groupBy_def)

lemma groupStep_put: "groupStep f m x = js_put m (f x) (case js_get m (f x) of None \<Rightarrow> [x] | Some ys \<Rightarrow> ys @ [x])"
  by (simp add: groupStep_def split: option.split)

lemma js_keys_put: "js_keys (js_put m k v) = set_add (js_keys m) k"
  by (cases "k \<in> set (js_keys m)") (simp_all add: js_keys_put_old js_put_new set_add_def, simp add: js_keys_def)

text \<open>\<open>groupBy\<close> returns one entry per key, in the order in which the keys first occur, and
  the entry of a key is the sublist of the items that have it.\<close>

theorem groupBy_partition:
  "js_keys (groupBy f xs) = js_set (map f xs) \<and>
   js_get (groupBy f xs) k = (if k \<in> set (map f xs) then Some (filter (\<lambda>x. f x = k) xs) else None)"
proof (induction xs rule: rev_induct)
  case Nil
  then show ?case by (simp add: groupBy_def js_keys_def js_set_def)
next
  case (snoc x xs)
  have "js_keys (groupBy f (xs @ [x])) = js_set (map f (xs @ [x]))"
    using snoc by (simp add: groupBy_snoc groupStep_put js_keys_put js_set_def)
  moreover have g: "js_get (groupBy f xs) (f x) =
      (if f x \<in> set (map f xs) then Some (filter (\<lambda>y. f y = f x) xs) else None)"
    if "f x = k" using snoc that by simp
  have "js_get (groupBy f (xs @ [x])) k =
      (if k \<in> set (map f (xs @ [x])) then Some (filter (\<lambda>x. f x = k) (xs @ [x])) else None)"
  proof (cases "f x = k")
    case True
    then show ?thesis using g
      by (auto simp: groupBy_snoc groupStep_put filter_empty_conv image_iff)
  next
    case False
    then show ?thesis using snoc by (auto simp: groupBy_snoc groupStep_put)
  qed
  ultimately show ?case by blast
qed

lemma sortKeys_id: "js_wf obj \<Longrightarrow> sortKeys obj = obj"
proof -
  have "distinct (map fst (m @ obj)) \<Longrightarrow> foldl (\<lambda>m (k, v). js_put m k v) m obj = m @ obj" for m :: "(string, 'a) js_map"
  proof (induction obj arbitrary: m)
    case (Cons e obj)
    obtain k v where e: "e = (k, v)" by (cases e)
    from Cons.prems e have "k \<notin> set (js_keys m)" by (auto simp: js_keys_def)
    then have "js_put m k v = m @ [(k, v)]" by (rule js_put_new)
    then show ?case using Cons.IH[of "m @ [(k, v)]"] Cons.prems by (simp add: e)
  qed simp
  from this[of "[]"] show "js_wf obj \<Longrightarrow> sortKeys obj = obj" by (simp add: sortKeys_def js_wf_def)
qed

section \<open>Hexadecimal text\<close>

definition padded :: "char \<Rightarrow> bool" where
  "padded c \<longleftrightarrow> 16 \<le> (of_char c :: nat)"

lemma toHex_padded: "padded c \<Longrightarrow> toHex c = [hexDigit (of_char c div 16), hexDigit (of_char c mod 16)]"
  by (simp add: toHex_def padded_def Let_def)

lemma hexValue_hexDigit: "n < 16 \<Longrightarrow> hexValue (hexDigit n) = Some n"
proof -
  have "list_all (\<lambda>n. hexValue (hexDigit n) = Some n) [0..<16]"
    by (simp add: upt_rec hexValue_def hexDigit_def)
  then show "n < 16 \<Longrightarrow> hexValue (hexDigit n) = Some n" by (simp add: list_all_iff)
qed

lemma chunk_snoc2:
  assumes "length xs = 2 * length (chunk xs 2)"
  shows "chunk (xs @ [Elem a, Elem b]) 2 = chunk xs 2 @ [[Elem a, Elem b]]"
proof -
  let ?n = "length xs"
  have z: "zip (xs @ [Elem a, Elem b]) [0..<length (xs @ [Elem a, Elem b])] = zip xs [0..<?n] @ [(Elem a, ?n), (Elem b, Suc ?n)]"
    by (simp add: zip_append1)
  have c: "foldl (chunkStep 2) [] (zip xs [0..<?n]) = chunk xs 2" by (simp add: chunk_def)
  have d: "nat (int ?n div 2) = length (chunk xs 2)" "nat ((1 + int ?n) div 2) = length (chunk xs 2)"
    using assms by simp_all
  have "chunkStep 2 (chunk xs 2) (Elem a, ?n) = chunk xs 2 @ [[Elem a]]"
    by (simp add: chunkStep_def Let_def d)
  moreover have "chunkStep 2 (chunk xs 2 @ [[Elem a]]) (Elem b, Suc ?n) = chunk xs 2 @ [[Elem a, Elem b]]"
    by (simp add: chunkStep_def Let_def d)
  ultimately show ?thesis unfolding chunk_def[of "xs @ _"] z by (simp add: c)
qed

lemma chunk_pairs:
  "chunk (map Elem (concat (map (\<lambda>c. [f c, g c]) s))) 2 = map (\<lambda>c. [Elem (f c), Elem (g c)]) s"
proof (induction s rule: rev_induct)
  case (snoc c s)
  have "length (map Elem (concat (map (\<lambda>c. [f c, g c]) s))) = 2 * length s" by (induction s) simp_all
  then show ?case
    using chunk_snoc2[of "map Elem (concat (map (\<lambda>c. [f c, g c]) s))" "f c" "g c"] snoc by simp
qed (simp add: chunk_def)

lemma fromHex_toHex: "padded c \<Longrightarrow> fromHex [Elem (hexDigit (of_char c div 16)), Elem (hexDigit (of_char c mod 16))] = c"
proof -
  have "(of_char c :: nat) < 256" by (cases c) (simp add: of_char_def)
  then have "(of_char c :: nat) div 16 < 16" by presburger
  then show ?thesis by (simp add: fromHex_def hexValue_hexDigit mult.commute)
qed

text \<open>\<open>hexToString\<close> undoes \<open>stringToHex\<close> on text without control characters; below code 16
  the missing padding makes \<open>stringToHex\<close> itself ambiguous.\<close>

theorem hex_roundtrip:
  "(list_all padded s \<longrightarrow> hexToString (stringToHex s) = s) \<and>
   stringToHex [char_of (3 :: nat), CHR ''1''] = stringToHex [CHR ''3'', char_of (1 :: nat)]"
proof
  show "list_all padded s \<longrightarrow> hexToString (stringToHex s) = s"
  proof
    assume p: "list_all padded s"
    then have "stringToHex s = concat (map (\<lambda>c. [hexDigit (of_char c div 16), hexDigit (of_char c mod 16)]) s)"
      by (induction s) (simp_all add: stringToHex_def toHex_padded)
    then have "hexToString (stringToHex s) =
        map fromHex (map (\<lambda>c. [Elem (hexDigit (of_char c div 16)), Elem (hexDigit (of_char c mod 16))]) s)"
      by (simp add: hexToString_def chunk_pairs)
    also have "\<dots> = s" using p by (simp add: fromHex_toHex list_all_iff map_idI)
    finally show "hexToString (stringToHex s) = s" .
  qed
qed (simp add: stringToHex_def toHex_def hexDigit_def Let_def)

theorem hex_roundtrip_witness: "hexToString (stringToHex ''transfer'') = ''transfer''"
  using hex_roundtrip[of "''transfer''"] by (simp add: padded_def)

section \<open>Remaining facts on the helpers\<close>

lemma getFulfilledLoop_values: "getFulfilledLoop rs acc = acc @ fulfilled_values rs"
  by (induction rs acc rule: getFulfilledLoop.induct) simp_all

lemma getFulfilledPromises_values: "getFulfilledPromises ps = fulfilled_values (map settle ps)"
  by (simp add: getFulfilledPromises_def getFulfilledLoop_values)

lemma lower_unique: "foldl (\<lambda>s x. set_add s (to_lower x)) acc xs = foldl set_add acc (map to_lower xs)"
  by (induction xs arbitrary: acc) simp_all

lemma getUniqueAndToLowerCaseArrayData_array:
  "getUniqueAndToLowerCaseArrayData (StringArray xs) = js_set (map to_lower xs)"
  by (simp add: lower_unique js_set_def)

lemma transferTokenAddressNotIn_iff:
  "transferTokenAddressNotIn t excluded \<longleftrightarrow> t \<notin> to_lower ` set excluded"
  by (induction excluded) auto

lemma excludeSecondArray_filter: "excludeSecondArray keep ex = filter (\<lambda>a. a = [] \<or> a \<notin> set ex) keep"
proof -
  have "(case find (\<lambda>b. a = b) xs of None \<Rightarrow> False | Some found \<Rightarrow> found \<noteq> []) \<longleftrightarrow> a \<noteq> [] \<and> a \<in> set xs" for a and xs :: "string list"
    by (induction xs) auto
  then show ?thesis by (simp add: excludeSecondArray_def)
qed

text \<open>An array as an item is spread into its group instead of being put into it.\<close>

lemma chunk_spreads: "chunk [Arr [Elem 1, Elem 2], Elem (3 :: int)] 2 = [[Elem 1, Elem 2, Elem 3]]"
  by (simp add: chunk_def chunkStep_def upt_rec)

end
