(* ===== verification/Cache.thy ===== *)
theory Cache
  imports Prelude
begin

text \<open>
  \<open>libs/common/src/services/cache.service.ts\<close>, the wrapper that the services use around the package
  \<open>cache-manager\<close>.  The operations of the package are the fields of \<open>cache_manager\<close>, functions on the
  state of the store; the locale \<open>cache_store\<close> states what it documents (a value can be read back after it was written,
  other keys are not touched, the variadic operations are the iterated ones).
\<close>

text \<open>The array handed to the variadic \<open>mset\<close> alternates keys and values.\<close>

datatype 'v mset_item = MKey string | MVal "'v js_value"

record ('s, 'v, 'o) cache_manager =
  cm_get :: "string \<Rightarrow> 's \<Rightarrow> 'v js_value"
  cm_set :: "string \<Rightarrow> 'v js_value \<Rightarrow> 'o option \<Rightarrow> 's \<Rightarrow> 's"
  cm_mget :: "string list \<Rightarrow> 's \<Rightarrow> 'v js_value list"
  cm_mset :: "'v mset_item list \<Rightarrow> 'o option \<Rightarrow> 's \<Rightarrow> 's"

text \<open>\<open>load\<close> may fail, and may itself change the store.\<close>

definition getOrLoad ::
  "('s, 'v, 'o) cache_manager \<Rightarrow> string \<Rightarrow> ('s \<Rightarrow> ('e + 'v js_value) \<times> 's) \<Rightarrow> 'o option \<Rightarrow> 's
    \<Rightarrow> ('e + 'v js_value) \<times> 's" where
  "getOrLoad C key load options s =
     (let cached = cm_get C key s in
      if cached \<noteq> Undef \<and> cached \<noteq> Null then (Inr cached, s)
      else (case load s of
          (Inl e, s') \<Rightarrow> (Inl e, s')
        | (Inr loaded, s') \<Rightarrow>
            (Inr loaded, if loaded \<noteq> Undef then cm_set C key loaded options s' else s')))"

definition cacheGet :: "('s, 'v, 'o) cache_manager \<Rightarrow> string \<Rightarrow> 's \<Rightarrow> 'v js_value" where
  "cacheGet C key s = cm_get C key s"

definition cacheMget :: "('s, 'v, 'o) cache_manager \<Rightarrow> string list \<Rightarrow> 's \<Rightarrow> 'v js_value list" where
  "cacheMget C keys s = (if keys = [] then [] else cm_mget C keys s)"

definition cacheSet :: "('s, 'v, 'o) cache_manager \<Rightarrow> string \<Rightarrow> 'v js_value \<Rightarrow> 'o option \<Rightarrow> 's \<Rightarrow> 's" where
  "cacheSet C key value options s = cm_set C key value options s"

definition cacheMset ::
  "('s, 'v, 'o) cache_manager \<Rightarrow> (string \<times> 'v js_value) list \<Rightarrow> 'o option \<Rightarrow> 's \<Rightarrow> 's" where
  "cacheMset C vals options s =
     (let validValues = filter (\<lambda>(key, value). value \<noteq> Undef) vals in
      if validValues = [] then s
      else cm_mset C (foldl (\<lambda>arr (key, value). arr @ [MKey key, MVal value]) [] validValues) options s)"

section \<open>The contract of the store\<close>

fun mset_items :: "(string \<times> 'v js_value) list \<Rightarrow> 'v mset_item list" where
  "mset_items [] = []"
| "mset_items ((k, v) # r) = MKey k # MVal v # mset_items r"

locale cache_store =
  fixes C :: "('s, 'v, 'o) cache_manager"
  assumes get_set: "cm_get C k' (cm_set C k v opts s) = (if k' = k then v else cm_get C k' s)"
    and mget: "cm_mget C ks s = map (\<lambda>k. cm_get C k s) ks"
    and mset: "cm_mset C (mset_items kvs) opts s = foldl (\<lambda>s (k, v). cm_set C k v opts s) s kvs"
begin

lemma items_foldl: "foldl (\<lambda>arr (key, value). arr @ [MKey key, MVal value]) acc kvs = acc @ mset_items kvs"
  by (induction kvs arbitrary: acc) (auto split: prod.splits)

lemma cacheMset_foldl:
  "cacheMset C kvs opts s = foldl (\<lambda>s (k, v). cm_set C k v opts s) s (filter (\<lambda>(k, v). v \<noteq> Undef) kvs)"
  by (simp add: cacheMset_def items_foldl mset Let_def)

lemma get_foldl: "cm_get C k (foldl (\<lambda>s (k, v). cm_set C k v opts s) s kvs) =
    (case map_of (rev kvs) k of Some v \<Rightarrow> v | None \<Rightarrow> cm_get C k s)"
proof (induction kvs arbitrary: s)
  case (Cons kv kvs)
  then show ?case by (cases kv) (auto simp: get_set map_add_def split: option.split)
qed simp

lemma get_cacheMset: "cm_get C k (cacheMset C kvs opts s) =
    (case map_of (rev (filter (\<lambda>(k, v). v \<noteq> Undef) kvs)) k of Some v \<Rightarrow> v | None \<Rightarrow> cm_get C k s)"
  by (simp add: cacheMset_foldl get_foldl)

lemma cacheMget_map: "cacheMget C ks s = map (\<lambda>k. cm_get C k s) ks"
  by (simp add: cacheMget_def mget)

lemma getOrLoad_hit: "cm_get C k s = Val v \<Longrightarrow> getOrLoad C k load opts s = (Inr (Val v), s)"
  by (simp add: getOrLoad_def)

lemma getOrLoad_miss:
  "\<not> present (cm_get C k s) \<Longrightarrow> getOrLoad C k load opts s =
    (case load s of (Inl e, s') \<Rightarrow> (Inl e, s')
     | (Inr v, s') \<Rightarrow> (Inr v, if v \<noteq> Undef then cm_set C k v opts s' else s'))"
  by (cases "cm_get C k s") (simp_all add: getOrLoad_def)

end

text \<open>A store that never evicts: an association list.\<close>

fun ml_set :: "'v mset_item list \<Rightarrow> (string, 'v js_value) js_map \<Rightarrow> (string, 'v js_value) js_map" where
  "ml_set (MKey k # MVal v # r) s = ml_set r (js_put s k v)"
| "ml_set _ s = s"

definition memory_get :: "string \<Rightarrow> (string, 'v js_value) js_map \<Rightarrow> 'v js_value" where
  "memory_get k s = (case js_get s k of Some v \<Rightarrow> v | None \<Rightarrow> Undef)"

definition memory_cache :: "((string, 'v js_value) js_map, 'v, 'o) cache_manager" where
  "memory_cache = \<lparr> cm_get = memory_get, cm_set = (\<lambda>k v _ s. js_put s k v),
     cm_mget = (\<lambda>ks s. map (\<lambda>k. memory_get k s) ks), cm_mset = (\<lambda>items _ s. ml_set items s) \<rparr>"

lemma ml_set_items: "ml_set (mset_items kvs) s = foldl (\<lambda>s (k, v). js_put s k v) s kvs"
  by (induction kvs arbitrary: s rule: mset_items.induct) simp_all

interpretation memory: cache_store memory_cache
  by unfold_locales (simp_all add: memory_cache_def memory_get_def ml_set_items)

text \<open>\<open>getOrLoad\<close> on a key with a cached value returns it without loading and without
  touching the store; otherwise it loads, and what it loaded answers the next request for the key
  without loading again, except that an absent value is never taken from the cache.\<close>

theorem getOrLoad_second_request:
  assumes "cache_store C" "getOrLoad C k load opts s = (Inr v, s')"
  shows "getOrLoad C k load2 opts s' = (if present v then (Inr v, s') else getOrLoad C k load2 opts s')
    \<and> (present (cm_get C k s) \<longrightarrow> v = cm_get C k s \<and> s' = s)
    \<and> (\<not> present (cm_get C k s) \<longrightarrow> fst (load s) = Inr v \<and> (\<forall>k'. k' \<noteq> k \<longrightarrow> cm_get C k' s' = cm_get C k' (snd (load s))))"
proof (cases "cm_get C k s")
  case (Val x)
  then have "v = Val x" "s' = s" using assms by (simp_all add: cache_store.getOrLoad_hit)
  then show ?thesis using Val by (simp add: cache_store.getOrLoad_hit[OF assms(1)])
next
  case Undef
  then show ?thesis using assms
    by (cases v) (auto simp: cache_store.getOrLoad_miss cache_store.getOrLoad_hit cache_store.get_set
        split: prod.splits sum.splits if_splits)
next
  case Null
  then show ?thesis using assms
    by (cases v) (auto simp: cache_store.getOrLoad_miss cache_store.getOrLoad_hit cache_store.get_set
        split: prod.splits sum.splits if_splits)
qed

theorem getOrLoad_second_request_witness:
  "getOrLoad memory_cache ''k'' (\<lambda>s. (Inl (), s)) (None :: unit option) [(''k'', Val (7 :: int))] = (Inr (Val 7), [(''k'', Val 7)])"
proof -
  have "getOrLoad memory_cache ''k'' (\<lambda>s. (Inr (Val 7) :: unit + int js_value, s)) (None :: unit option) [] =
      (Inr (Val 7), [(''k'', Val 7)])"
    by (simp add: getOrLoad_def memory_cache_def memory_get_def)
  from getOrLoad_second_request[OF memory.cache_store_axioms this, of "\<lambda>s. (Inl (), s)"] show ?thesis by simp
qed

text \<open>After \<open>mset\<close>, a key answers with the last value other than \<open>undefined\<close> that was given for
  it, and with its old value when there is none; \<open>mget\<close> answers a list of keys with the values of its keys in order.\<close>

theorem cacheMset_then_mget:
  assumes "cache_store C"
  shows "cacheMget C ks (cacheMset C kvs opts s) =
    map (\<lambda>k. case map_of (rev (filter (\<lambda>(k, v). v \<noteq> Undef) kvs)) k of Some v \<Rightarrow> v | None \<Rightarrow> cm_get C k s) ks"
  by (simp add: cache_store.cacheMget_map[OF assms] cache_store.get_cacheMset[OF assms])

theorem cacheMset_then_mget_witness:
  "cacheMget (memory_cache :: (_, _, unit) cache_manager) [''a'', ''b''] (cacheMset memory_cache [(''a'', Val 1), (''b'', Undef)] (None :: unit option) [(''b'', Val (2 :: int))])
    = [Val 1, Val 2]"
  using cacheMset_then_mget[OF memory.cache_store_axioms, of "[''a'', ''b'']" "[(''a'', Val 1), (''b'', Undef)]"
      "None :: unit option" "[(''b'', Val (2 :: int))]"]
  by (simp add: memory_cache_def memory_get_def)

end
