(* ===== verification/Endpoints.thy ===== *)
theory Endpoints
  imports Cache "HOL-Library.Multiset" Complex_Main
begin

text \<open>
  \<open>apps/rpc/src/modules/endpoints\<close>: the table of RPC endpoints and their call statistics.  Parameters of
  the model: the cache (\<open>Cache.cache_manager\<close>; its values are the lists that the stored JSON texts encode), the
  repository base class of TypeORM (record \<open>endpoint_orm\<close>) and the sort routine of the JavaScript engine, whose
  sequence of comparisons the language leaves open (argument \<open>jsort\<close>).
\<close>

section \<open>Data\<close>

datatype EndpointSortField = ENDPOINT | CHAIN_ID | PRIORITY | CREATED_AT | UPDATED_AT | IS_ENABLED

datatype EndpointCallScore = Score_success | Score_fail

fun score_value :: "EndpointCallScore \<Rightarrow> int" where
  "score_value Score_success = 1"
| "score_value Score_fail = -1"

record success_score =
  sc_value :: int
  sc_timestamp :: int

record endpoint_entity =
  ep_id :: int
  ep_endpoint :: string
  ep_chainId :: int
  ep_isEnabled :: bool
  ep_priority :: int
  ep_archived :: bool

record calls_statistic =
  cs_fail :: int
  cs_success :: int
  cs_rating :: rat

record endpoint_statistic =
  es_callsStatistic :: calls_statistic
  es_endpoint :: endpoint_entity

type_synonym endpoints_map = "(int, endpoint_statistic list) js_map"

record statistic_config =
  successRateTTL :: int
  maxItemsNum :: int
  historyTTL :: int

type_synonym 's score_cache = "('s, success_score list, int) cache_manager"

text \<open>The constructor of \<open>CallsStatistic\<close>.\<close>

definition countScore :: "int \<times> int \<Rightarrow> success_score \<Rightarrow> int \<times> int" where
  "countScore c score = (let (success, fail) = c;
       success' = (if sc_value score = score_value Score_success then success + 1 else success);
       fail' = (if sc_value score = score_value Score_fail then fail + 1 else fail)
     in (success', fail'))"

definition CallsStatistic :: "success_score list \<Rightarrow> calls_statistic" where
  "CallsStatistic scores =
     (let (success, fail) = foldl countScore (0, 0) scores; total = success + fail in
      \<lparr> cs_fail = fail, cs_success = success,
        cs_rating = (if total \<le> 5 then 1 else of_int success / of_int total) \<rparr>)"

section \<open>Statistics service\<close>

text \<open>The constructor reads the configuration; an absent or zero history time becomes a day in minutes.\<close>

definition mkConfig :: "int \<Rightarrow> int \<Rightarrow> int option \<Rightarrow> statistic_config" where
  "mkConfig ttl maxItems history =
     \<lparr> successRateTTL = ttl, maxItemsNum = maxItems,
       historyTTL = (case history of Some h \<Rightarrow> (if h = 0 then 24 * 60 else h) | None \<Rightarrow> 24 * 60) * 1000 \<rparr>"

definition endpointScoresCacheKey :: "endpoint_entity \<Rightarrow> string" where
  "endpointScoresCacheKey e = ''endpoint_score_'' @ show_int (ep_chainId e) @ ''_'' @ ep_endpoint e"

definition getEndpointSuccessScoreFromCache :: "'s score_cache \<Rightarrow> endpoint_entity \<Rightarrow> 's \<Rightarrow> success_score list" where
  "getEndpointSuccessScoreFromCache C e s =
     (case cm_get C (endpointScoresCacheKey e) s of Val scores \<Rightarrow> scores | _ \<Rightarrow> [])"

definition setEndpointToRPCSuccessRateCache ::
  "'s score_cache \<Rightarrow> statistic_config \<Rightarrow> endpoint_entity \<Rightarrow> success_score list \<Rightarrow> 's \<Rightarrow> 's" where
  "setEndpointToRPCSuccessRateCache C cfg e scores s =
     cm_set C (endpointScoresCacheKey e) (Val scores) (Some (historyTTL cfg)) s"

definition filterOutdatedEndpointScores :: "statistic_config \<Rightarrow> int \<Rightarrow> success_score list \<Rightarrow> success_score list" where
  "filterOutdatedEndpointScores cfg now scores =
     map fst (filter (\<lambda>(score, index). int index < maxItemsNum cfg - 1 \<and> now - sc_timestamp score < successRateTTL cfg)
       (zip scores [0..<length scores]))"

text \<open>
  \<open>updateEndpointSuccessRate\<close> reads the history, waits, and writes it back with the new score in front;
  the part after the wait is a definition of its own, with the two readings of the clock it makes.
\<close>

definition updatedScores :: "statistic_config \<Rightarrow> int \<Rightarrow> int \<Rightarrow> EndpointCallScore \<Rightarrow> success_score list \<Rightarrow> success_score list" where
  "updatedScores cfg now1 now2 scoreValue scores =
     [\<lparr> sc_value = score_value scoreValue, sc_timestamp = now1 \<rparr>] @ filterOutdatedEndpointScores cfg now2 scores"

definition updateEndpointSuccessRate ::
  "'s score_cache \<Rightarrow> statistic_config \<Rightarrow> int \<Rightarrow> int \<Rightarrow> endpoint_entity \<Rightarrow> EndpointCallScore \<Rightarrow> 's \<Rightarrow> 's" where
  "updateEndpointSuccessRate C cfg now1 now2 e scoreValue s =
     (let endpointSuccessScores = getEndpointSuccessScoreFromCache C e s in
      setEndpointToRPCSuccessRateCache C cfg e (updatedScores cfg now1 now2 scoreValue endpointSuccessScores) s)"

definition getEndpointByPriority :: "endpoints_map \<Rightarrow> int \<Rightarrow> bool \<Rightarrow> endpoint_entity list" where
  "getEndpointByPriority m chainId archive =
     (let endpoints = (case js_get m chainId of Some es \<Rightarrow> es | None \<Rightarrow> []) in
      map es_endpoint (filter (\<lambda>e. \<not> archive \<or> ep_archived (es_endpoint e) = archive) endpoints))"

text \<open>
  The comparator works on the objects of the array, here on their positions: its first test assigns the
  priority of \<open>b\<close> to \<open>a\<close> and asks whether the value is non-zero.
\<close>

definition compareEndpointStatistic ::
  "nat \<Rightarrow> nat \<Rightarrow> endpoint_statistic list \<Rightarrow> rat \<times> endpoint_statistic list" where
  "compareEndpointStatistic i j st =
     (let b = st ! j; p = ep_priority (es_endpoint b);
          st' = st[i := (st ! i) \<lparr> es_endpoint := es_endpoint (st ! i) \<lparr> ep_priority := p \<rparr> \<rparr>];
          a' = st' ! i; b' = st' ! j
      in if p \<noteq> 0 then (cs_rating (es_callsStatistic b') - cs_rating (es_callsStatistic a'), st')
         else (of_int (ep_priority (es_endpoint b') - ep_priority (es_endpoint a')), st'))"

type_synonym 'x js_sort = "(nat \<Rightarrow> nat \<Rightarrow> 'x list \<Rightarrow> rat \<times> 'x list) \<Rightarrow> nat list \<Rightarrow> 'x list \<Rightarrow> nat list \<times> 'x list"

definition sortedBy :: "'x js_sort \<Rightarrow> (nat \<Rightarrow> nat \<Rightarrow> 'x list \<Rightarrow> rat \<times> 'x list) \<Rightarrow> 'x list \<Rightarrow> 'x list" where
  "sortedBy jsort cmp xs = (let (order, xs') = jsort cmp [0..<length xs] xs in map (\<lambda>i. xs' ! i) order)"

text \<open>One turn of the outer loop; a chain that is no longer in the map makes the inner loop throw.\<close>

definition updateChainPriority ::
  "'s score_cache \<Rightarrow> endpoint_statistic js_sort \<Rightarrow> 's \<Rightarrow> endpoints_map \<Rightarrow> int \<Rightarrow> string + endpoints_map" where
  "updateChainPriority C jsort s m chainId =
     (case js_get m chainId of
        None \<Rightarrow> Inl ''TypeError: endpointStatistics is not iterable''
      | Some endpointStatistics \<Rightarrow>
          (let updatedEndpointStatistics = map (\<lambda>es. es
                 \<lparr> es_callsStatistic := CallsStatistic (getEndpointSuccessScoreFromCache C (es_endpoint es) s) \<rparr>)
               endpointStatistics
           in Inr (js_put m chainId (sortedBy jsort compareEndpointStatistic updatedEndpointStatistics))))"

definition updateEndpointsPriority ::
  "'s score_cache \<Rightarrow> endpoint_statistic js_sort \<Rightarrow> 's \<Rightarrow> endpoints_map \<Rightarrow> string + endpoints_map" where
  "updateEndpointsPriority C jsort s m = sum_foldl (updateChainPriority C jsort s) m (js_keys m)"

definition syncEndpoint :: "endpoints_map \<Rightarrow> endpoints_map \<Rightarrow> endpoint_entity \<Rightarrow> endpoints_map" where
  "syncEndpoint old newEndpointMap e =
     (let prevEndpoint = (case js_get old (ep_chainId e) of
            None \<Rightarrow> None
          | Some prevEndpoints \<Rightarrow> find (\<lambda>p. ep_id (es_endpoint p) = ep_id e) prevEndpoints);
          callsStatistic = (case prevEndpoint of Some p \<Rightarrow> es_callsStatistic p | None \<Rightarrow> CallsStatistic []);
          chainEndpoints = (case js_get newEndpointMap (ep_chainId e) of Some es \<Rightarrow> es | None \<Rightarrow> [])
      in js_put newEndpointMap (ep_chainId e)
           (chainEndpoints @ [\<lparr> es_callsStatistic = callsStatistic, es_endpoint = e \<rparr>]))"

definition syncEndpointsFromDatabase ::
  "'s score_cache \<Rightarrow> endpoint_statistic js_sort \<Rightarrow> endpoint_entity list \<Rightarrow> 's \<Rightarrow> endpoints_map \<Rightarrow> string + endpoints_map" where
  "syncEndpointsFromDatabase C jsort enabled s m =
     updateEndpointsPriority C jsort s (foldl (syncEndpoint m) [] enabled)"

section \<open>Repository and service\<close>

record endpoint_create =
  ec_chainId :: int
  ec_endpoint :: string
  ec_isEnabled :: "bool option"
  ec_priority :: "int option"
  ec_archived :: "bool option"

record endpoint_update =
  eu_chainId :: "int option"
  eu_isEnabled :: "bool option"
  eu_priority :: "int option"
  eu_archived :: "bool option"

datatype sort_direction = ASC | DESC

record list_query =
  lq_page :: int
  lq_limit :: int
  lq_sortDirection :: sort_direction
  lq_sortField :: EndpointSortField

record 't endpoint_orm =
  orm_find :: "(endpoint_entity \<Rightarrow> bool) \<Rightarrow> 't \<Rightarrow> endpoint_entity list"
  orm_findOne :: "(endpoint_entity \<Rightarrow> bool) \<Rightarrow> 't \<Rightarrow> endpoint_entity option"
  orm_many :: "int \<Rightarrow> int \<Rightarrow> EndpointSortField \<Rightarrow> sort_direction \<Rightarrow> 't \<Rightarrow> endpoint_entity list"
  orm_save :: "endpoint_create \<Rightarrow> 't \<Rightarrow> endpoint_entity \<times> 't"
  orm_update :: "int \<Rightarrow> endpoint_update \<Rightarrow> 't \<Rightarrow> 't"
  orm_delete :: "int \<Rightarrow> 't \<Rightarrow> 't"

definition getEnabled :: "'t endpoint_orm \<Rightarrow> 't \<Rightarrow> endpoint_entity list" where
  "getEnabled R t = orm_find R (\<lambda>e. ep_isEnabled e = True) t"

definition getList :: "'t endpoint_orm \<Rightarrow> list_query \<Rightarrow> 't \<Rightarrow> endpoint_entity list" where
  "getList R q t = orm_many R ((lq_page q - 1) * lq_limit q) (lq_limit q) (lq_sortField q) (lq_sortDirection q) t"

definition findById :: "'t endpoint_orm \<Rightarrow> int \<Rightarrow> 't \<Rightarrow> endpoint_entity option" where
  "findById R endpointId t = orm_findOne R (\<lambda>e. ep_id e = endpointId) t"

definition insertOne :: "'t endpoint_orm \<Rightarrow> endpoint_create \<Rightarrow> 't \<Rightarrow> (string + endpoint_entity) \<times> 't" where
  "insertOne R endpointData t =
     (case orm_findOne R (\<lambda>e. ep_endpoint e = ec_endpoint endpointData \<and> ep_chainId e = ec_chainId endpointData) t of
        Some _ \<Rightarrow> (Inl (''Endpoint '' @ quoted (ec_endpoint endpointData) @ '' exists on chainId '' @
          quoted (show_int (ec_chainId endpointData))), t)
      | None \<Rightarrow> (let (e, t') = orm_save R endpointData t in (Inr e, t')))"

definition updateItem :: "'t endpoint_orm \<Rightarrow> int \<Rightarrow> endpoint_update \<Rightarrow> 't \<Rightarrow> endpoint_entity option \<times> 't" where
  "updateItem R i updates t = (let t' = orm_update R i updates t in (findById R i t', t'))"

definition deleteItem :: "'t endpoint_orm \<Rightarrow> int \<Rightarrow> 't \<Rightarrow> 't" where
  "deleteItem R i t = orm_delete R i t"

definition getEndpointStatisticFromMap :: "endpoints_map \<Rightarrow> endpoint_entity \<Rightarrow> calls_statistic option" where
  "getEndpointStatisticFromMap m e =
     (let chainEndpoints = (case js_get m (ep_chainId e) of Some es \<Rightarrow> es | None \<Rightarrow> []) in
      map_option es_callsStatistic (find (\<lambda>x. ep_id (es_endpoint x) = ep_id e) chainEndpoints))"

definition getEndpointsList ::
  "'t endpoint_orm \<Rightarrow> endpoints_map \<Rightarrow> list_query \<Rightarrow> 't \<Rightarrow> (endpoint_entity \<times> calls_statistic option) list" where
  "getEndpointsList R m q t = map (\<lambda>e. (e, getEndpointStatisticFromMap m e)) (getList R q t)"

definition getEndpointById ::
  "'t endpoint_orm \<Rightarrow> endpoints_map \<Rightarrow> int \<Rightarrow> 't \<Rightarrow> string + (endpoint_entity \<times> calls_statistic option)" where
  "getEndpointById R m endpointId t =
     (case findById R endpointId t of
        None \<Rightarrow> Inl (''Not found! endpoint id: '' @ show_int endpointId)
      | Some e \<Rightarrow> Inr (e, getEndpointStatisticFromMap m e))"

section \<open>Call statistics\<close>

lemma countScore_foldl:
  "foldl countScore (a, b) scores =
    (a + int (length (filter (\<lambda>x. sc_value x = 1) scores)), b + int (length (filter (\<lambda>x. sc_value x = -1) scores)))"
  by (induction scores arbitrary: a b) (simp_all add: countScore_def)

lemma CallsStatistic_counts:
  "cs_success (CallsStatistic scores) = int (length (filter (\<lambda>x. sc_value x = 1) scores))"
  "cs_fail (CallsStatistic scores) = int (length (filter (\<lambda>x. sc_value x = -1) scores))"
  by (simp_all add: CallsStatistic_def countScore_foldl Let_def)

lemma CallsStatistic_rating: "0 \<le> cs_rating (CallsStatistic scores)" "cs_rating (CallsStatistic scores) \<le> 1"
  by (simp_all add: CallsStatistic_def countScore_foldl Let_def)

section \<open>The history of an endpoint\<close>

lemma take_zip_filter:
  "map fst (filter (\<lambda>(x, i). int i < m \<and> P x) (zip xs [0..<length xs])) = filter P (take (nat m) xs)"
proof (induction xs rule: rev_induct)
  case (snoc x xs)
  show ?case
  proof (cases "int (length xs) < m")
    case True
    then have "take (nat m) (xs @ [x]) = xs @ [x]" "take (nat m) xs = xs" by simp_all
    with snoc True show ?thesis by simp
  next
    case False
    then have "take (nat m) (xs @ [x]) = take (nat m) xs" by (simp add: take_Cons')
    with snoc False show ?thesis by simp
  qed
qed simp

lemma filterOutdated_eq:
  "filterOutdatedEndpointScores cfg now scores =
    filter (\<lambda>x. now - sc_timestamp x < successRateTTL cfg) (take (nat (maxItemsNum cfg - 1)) scores)"
  by (simp add: filterOutdatedEndpointScores_def take_zip_filter)

definition history_ok :: "statistic_config \<Rightarrow> int \<Rightarrow> success_score list \<Rightarrow> bool" where
  "history_ok cfg t scores \<longleftrightarrow> int (length scores) \<le> max 1 (maxItemsNum cfg)
     \<and> list_all (\<lambda>x. sc_timestamp x \<le> t \<and> sc_value x \<in> {1, -1}) scores
     \<and> sorted_wrt (\<lambda>x y. sc_timestamp y \<le> sc_timestamp x) scores"

lemma history_ok_Nil [simp]: "history_ok cfg t []"
  by (simp add: history_ok_def)

lemma history_ok_later: "history_ok cfg t scores \<Longrightarrow> t \<le> t' \<Longrightarrow> history_ok cfg t' scores"
  by (auto simp: history_ok_def list_all_iff)

lemma history_ok_updated:
  assumes "history_ok cfg t scores" "t \<le> now1" "now1 \<le> t'"
  shows "history_ok cfg t' (updatedScores cfg now1 now2 v scores)"
proof -
  let ?kept = "filterOutdatedEndpointScores cfg now2 scores"
  have sub: "set ?kept \<subseteq> set scores" by (auto simp: filterOutdated_eq dest: in_set_takeD)
  have len: "length ?kept \<le> nat (maxItemsNum cfg - 1)"
    by (simp add: filterOutdated_eq) (metis le_trans length_filter_le length_take min.cobounded2)
  have "sorted_wrt (\<lambda>x y. sc_timestamp y \<le> sc_timestamp x) ?kept"
    using assms(1) by (simp add: filterOutdated_eq history_ok_def sorted_wrt_filter sorted_wrt_take)
  moreover have "list_all (\<lambda>x. sc_timestamp x \<le> now1 \<and> sc_value x \<in> {1, -1}) ?kept"
    using assms(1,2) sub by (fastforce simp: history_ok_def list_all_iff)
  ultimately show ?thesis
    using len assms(3) by (cases v) (auto simp: history_ok_def updatedScores_def list_all_iff)
qed

section \<open>Interleaved updates\<close>

text \<open>
  Requests do not wait for their updates, so several run at once.  An update is split where it waits for the
  cache: it first reads the history of its endpoint, and later writes it back with its score in front.
\<close>

datatype update_proc =
    Waiting endpoint_entity EndpointCallScore
  | HasRead endpoint_entity EndpointCallScore "success_score list"
  | Done

type_synonym 's update_state = "'s \<times> int \<times> update_proc list"

inductive update_step :: "'s score_cache \<Rightarrow> statistic_config \<Rightarrow> 's update_state \<Rightarrow> 's update_state \<Rightarrow> bool"
  for C :: "'s score_cache" and cfg :: statistic_config where
  submit: "update_step C cfg (s, t, ps) (s, t, ps @ [Waiting e v])"
| fetch: "i < length ps \<Longrightarrow> ps ! i = Waiting e v \<Longrightarrow>
    update_step C cfg (s, t, ps) (s, t, ps[i := HasRead e v (getEndpointSuccessScoreFromCache C e s)])"
| store: "i < length ps \<Longrightarrow> ps ! i = HasRead e v scores \<Longrightarrow> t \<le> t' \<Longrightarrow>
    update_step C cfg (s, t, ps)
      (setEndpointToRPCSuccessRateCache C cfg e (updatedScores cfg t t' v scores) s, t', ps[i := Done])"
| tick: "t \<le> t' \<Longrightarrow> update_step C cfg (s, t, ps) (s, t', ps)"

inductive_cases update_stepE: "update_step C cfg (s, t, ps) st'"

lemmas step_then = converse_rtranclp_into_rtranclp

abbreviation "update_steps C cfg \<equiv> (update_step C cfg)\<^sup>*\<^sup>*"

definition updates_ok :: "'s score_cache \<Rightarrow> statistic_config \<Rightarrow> 's update_state \<Rightarrow> bool" where
  "updates_ok C cfg = (\<lambda>(s, t, ps). (\<forall>e. history_ok cfg t (getEndpointSuccessScoreFromCache C e s))
     \<and> list_all (\<lambda>p. case p of HasRead e v scores \<Rightarrow> history_ok cfg t scores | _ \<Rightarrow> True) ps)"

lemma get_set_history:
  assumes "cache_store C"
  shows "getEndpointSuccessScoreFromCache C e' (setEndpointToRPCSuccessRateCache C cfg e scores s) =
    (if endpointScoresCacheKey e' = endpointScoresCacheKey e then scores
     else getEndpointSuccessScoreFromCache C e' s)"
  by (simp add: getEndpointSuccessScoreFromCache_def setEndpointToRPCSuccessRateCache_def cache_store.get_set[OF assms])

lemma list_all_update: "list_all P xs \<Longrightarrow> P x \<Longrightarrow> list_all P (xs[i := x])"
  using set_update_subset_insert[of xs i x] by (auto simp: list_all_iff)

lemma procs_later: "t \<le> t' \<Longrightarrow> list_all (\<lambda>p. case p of HasRead e v scores \<Rightarrow> history_ok cfg t scores | _ \<Rightarrow> True) ps
    \<Longrightarrow> list_all (\<lambda>p. case p of HasRead e v scores \<Rightarrow> history_ok cfg t' scores | _ \<Rightarrow> True) ps"
  by (fastforce simp: list_all_iff split: update_proc.splits intro: history_ok_later)

lemma update_step_ok:
  assumes "cache_store C" "update_step C cfg st st'" "updates_ok C cfg st"
  shows "updates_ok C cfg st'"
  using assms(2,3)
proof (cases rule: update_step.cases)
  case (store i ps e v scores t t' s)
  have "history_ok cfg t scores"
    using assms(3) store by (fastforce simp: updates_ok_def list_all_length)
  then have "history_ok cfg t' (updatedScores cfg t t' v scores)"
    by (rule history_ok_updated) (simp_all add: store(5))
  then show ?thesis using assms(3) store
    by (auto simp: updates_ok_def get_set_history[OF assms(1)] intro!: list_all_update
        intro: history_ok_later procs_later)
qed (auto simp: updates_ok_def intro!: list_all_update intro: history_ok_later procs_later)

text \<open>C1: However the updates of the success rates interleave, every history in the cache stays
  within the configured number of items, is ordered from the newest score to the oldest, and holds only
  scores that are not from the future.\<close>

theorem update_steps_history:
  assumes "cache_store C" "\<And>e. getEndpointSuccessScoreFromCache C e s = []"
    and "update_steps C cfg (s, t, []) (s', t', ps)"
  shows "history_ok cfg t' (getEndpointSuccessScoreFromCache C e s')"
proof -
  have "updates_ok C cfg (s, t, [])" using assms(2) by (simp add: updates_ok_def)
  with assms(3) have "updates_ok C cfg (s', t', ps)"
    by (induction rule: rtranclp_induct) (auto intro: update_step_ok[OF assms(1)])
  then show ?thesis by (simp add: updates_ok_def)
qed

definition node_a :: endpoint_entity where
  "node_a = \<lparr> ep_id = 1, ep_endpoint = ''a'', ep_chainId = 5, ep_isEnabled = True, ep_priority = 1, ep_archived = False \<rparr>"

definition small_cfg :: statistic_config where
  "small_cfg = mkConfig 1000 100 None"

abbreviation mem :: "(string, success_score list js_value) js_map score_cache" where
  "mem \<equiv> memory_cache"

lemmas score_eval = getEndpointSuccessScoreFromCache_def setEndpointToRPCSuccessRateCache_def
  memory_cache_def memory_get_def updatedScores_def filterOutdated_eq small_cfg_def mkConfig_def

theorem update_steps_history_witness:
  "history_ok small_cfg 9 (getEndpointSuccessScoreFromCache mem node_a
     (setEndpointToRPCSuccessRateCache mem small_cfg node_a (updatedScores small_cfg 8 9 Score_success []) []))"
proof -
  have e: "getEndpointSuccessScoreFromCache mem e [] = []" for e by (simp add: score_eval)
  let ?h = "HasRead node_a Score_success []"
  have "update_step mem small_cfg ([], 8, []) ([], 8, [Waiting node_a Score_success])"
    using submit[of mem small_cfg "[]" 8 "[]"] by simp
  moreover have "update_step mem small_cfg ([], 8, [Waiting node_a Score_success]) ([], 8, [?h])"
    using fetch[of 0 "[Waiting node_a Score_success]" node_a Score_success mem small_cfg "[]" 8] by (simp add: e)
  moreover have "update_step mem small_cfg ([], 8, [?h])
      (setEndpointToRPCSuccessRateCache mem small_cfg node_a (updatedScores small_cfg 8 9 Score_success []) [], 9, [Done])"
    using store[of 0 "[?h]" node_a Score_success "[]" 8 9 mem small_cfg "[]"] by simp
  ultimately show ?thesis
    using update_steps_history[OF memory.cache_store_axioms e] by (meson step_then rtranclp.rtrancl_refl)
qed


text \<open>Two updates of one endpoint that overlap lose a score: there is a run in which both
  complete and the history holds only the later one on top of what was there before.\<close>

theorem overlapping_updates_lose_score:
  assumes "cache_store C"
  shows "\<exists>s'. update_steps C cfg (s, t, []) (s', t, [Done, Done]) \<and>
    getEndpointSuccessScoreFromCache C e s' = updatedScores cfg t t v2 (getEndpointSuccessScoreFromCache C e s)"
proof -
  let ?h = "getEndpointSuccessScoreFromCache C e s"
  let ?s1 = "setEndpointToRPCSuccessRateCache C cfg e (updatedScores cfg t t v1 ?h) s"
  let ?s2 = "setEndpointToRPCSuccessRateCache C cfg e (updatedScores cfg t t v2 ?h) ?s1"
  have s1: "update_step C cfg (s, t, []) (s, t, [Waiting e v1])"
    using submit[of C cfg s t "[]"] by simp
  have s2: "update_step C cfg (s, t, [Waiting e v1]) (s, t, [Waiting e v1, Waiting e v2])"
    using submit[of C cfg s t "[Waiting e v1]"] by simp
  have s3: "update_step C cfg (s, t, [Waiting e v1, Waiting e v2]) (s, t, [HasRead e v1 ?h, Waiting e v2])"
    using fetch[of 0 "[Waiting e v1, Waiting e v2]" e v1] by simp
  have s4: "update_step C cfg (s, t, [HasRead e v1 ?h, Waiting e v2]) (s, t, [HasRead e v1 ?h, HasRead e v2 ?h])"
    using fetch[of 1 "[HasRead e v1 ?h, Waiting e v2]" e v2] by simp
  have s5: "update_step C cfg (s, t, [HasRead e v1 ?h, HasRead e v2 ?h]) (?s1, t, [Done, HasRead e v2 ?h])"
    using store[of 0 "[HasRead e v1 ?h, HasRead e v2 ?h]" e v1 ?h t t C cfg s] by simp
  have s6: "update_step C cfg (?s1, t, [Done, HasRead e v2 ?h]) (?s2, t, [Done, Done])"
    using store[of 1 "[Done, HasRead e v2 ?h]" e v2 ?h t t C cfg ?s1] by simp
  have "update_steps C cfg (s, t, []) (?s2, t, [Done, Done])"
    by (rule step_then[OF s1 step_then[OF s2 step_then[OF s3 step_then[OF s4 step_then[OF s5 r_into_rtranclp[of "update_step C cfg", OF s6]]]]]])
  then show ?thesis by (intro exI[of _ ?s2]) (simp add: get_set_history[OF assms])
qed

theorem overlapping_updates_lose_score_witness:
  "\<exists>s'. update_steps mem small_cfg ([], 8, []) (s', 8, [Done, Done]) \<and>
    getEndpointSuccessScoreFromCache mem node_a s' = [\<lparr> sc_value = -1, sc_timestamp = 8 \<rparr>]"
  using overlapping_updates_lose_score[OF memory.cache_store_axioms, of small_cfg "[]" 8 node_a Score_fail]
  by (simp add: score_eval)

section \<open>Sorting with an unspecified order of comparisons\<close>

text \<open>
  What the language guarantees of \<open>Array.prototype.sort\<close>: the result is a permutation, the array is only
  observed through the comparator, and a consistent comparator yields an ordered result.
\<close>

locale js_sorting =
  fixes jsort :: "'x js_sort"
  assumes perm: "mset (fst (jsort cmp ids xs)) = mset ids"
    and inv: "\<lbrakk>\<And>i j st. i \<in> set ids \<Longrightarrow> j \<in> set ids \<Longrightarrow> I st \<Longrightarrow> I (snd (cmp i j st)); I xs\<rbrakk>
      \<Longrightarrow> I (snd (jsort cmp ids xs))"
    and ordered: "\<lbrakk>\<And>i j st. i \<in> set ids \<Longrightarrow> j \<in> set ids \<Longrightarrow> I st \<Longrightarrow> I (snd (cmp i j st)) \<and>
        (fst (cmp i j st) > 0 \<longleftrightarrow> key j < (key i :: rat)) \<and> (fst (cmp i j st) < 0 \<longleftrightarrow> key i < key j); I xs\<rbrakk>
      \<Longrightarrow> sorted (map key (fst (jsort cmp ids xs)))"
begin

lemma sortedBy_map:
  assumes "\<And>i j st. i < length xs \<Longrightarrow> j < length xs \<Longrightarrow> map f st = map f xs \<Longrightarrow> map f (snd (cmp i j st)) = map f xs"
  shows "mset (map f (sortedBy jsort cmp xs)) = mset (map f xs)"
proof -
  obtain order st where r: "jsort cmp [0..<length xs] xs = (order, st)" by (cases "jsort cmp [0..<length xs] xs")
  have st: "map f st = map f xs"
    using inv[of "[0..<length xs]" "\<lambda>st. map f st = map f xs" cmp xs] assms r by simp
  have p: "mset order = mset [0..<length xs]" using perm[of cmp "[0..<length xs]" xs] r by simp
  have len: "length st = length xs" using st by (metis length_map)
  have "f (st ! i) = f (xs ! i)" if "i \<in> set order" for i
    using that st len mset_eq_setD[OF p] by (metis atLeastLessThan_iff nth_map set_upt)
  then have "map f (sortedBy jsort cmp xs) = map (\<lambda>i. f (xs ! i)) order"
    by (simp add: sortedBy_def r)
  then have "mset (map f (sortedBy jsort cmp xs)) = image_mset (\<lambda>i. f (xs ! i)) (mset [0..<length xs])"
    by (simp add: p del: mset_upt)
  also have "\<dots> = mset (map (\<lambda>i. f (xs ! i)) [0..<length xs])" by (rule mset_map[symmetric])
  also have "map (\<lambda>i. f (xs ! i)) [0..<length xs] = map f xs" by (rule nth_equalityI) simp_all
  finally show ?thesis .
qed

end

text \<open>Insertion sort is an instance.\<close>

fun insertWith :: "(nat \<Rightarrow> nat \<Rightarrow> 's \<Rightarrow> rat \<times> 's) \<Rightarrow> nat \<Rightarrow> nat list \<Rightarrow> 's \<Rightarrow> nat list \<times> 's" where
  "insertWith cmp x [] st = ([x], st)"
| "insertWith cmp x (y # ys) st =
     (let (r, st') = cmp x y st in
      if r < 0 then (x # y # ys, st')
      else (let (zs, st'') = insertWith cmp x ys st' in (y # zs, st'')))"

fun insertionSort :: "(nat \<Rightarrow> nat \<Rightarrow> 's \<Rightarrow> rat \<times> 's) \<Rightarrow> nat list \<Rightarrow> nat list \<Rightarrow> 's \<Rightarrow> nat list \<times> 's" where
  "insertionSort cmp acc [] st = (acc, st)"
| "insertionSort cmp acc (x # xs) st = (let (acc', st') = insertWith cmp x acc st in insertionSort cmp acc' xs st')"

lemma insertWith_perm: "mset (fst (insertWith cmp x ys st)) = add_mset x (mset ys)"
  by (induction cmp x ys st rule: insertWith.induct) (auto split: prod.splits)

lemma insertWith_set: "insertWith cmp x ys st = (zs, st') \<Longrightarrow> set zs = insert x (set ys)"
  by (metis fst_conv insertWith_perm set_mset_add_mset_insert set_mset_mset)

lemma insertionSort_perm: "mset (fst (insertionSort cmp acc xs st)) = mset acc + mset xs"
proof (induction cmp acc xs st rule: insertionSort.induct)
  case (2 cmp acc x xs st)
  then show ?case using insertWith_perm[of cmp x acc st] by (auto split: prod.splits)
qed simp

lemma insertWith_inv:
  assumes "\<And>i j st. i \<in> A \<Longrightarrow> j \<in> A \<Longrightarrow> I st \<Longrightarrow> I (snd (cmp i j st))" "x \<in> A" "set ys \<subseteq> A" "I st"
  shows "I (snd (insertWith cmp x ys st))"
  using assms(3,4)
proof (induction ys arbitrary: st)
  case (Cons y ys)
  then have "I (snd (cmp x y st))" using assms(1,2) by simp
  then show ?case using Cons by (fastforce split: prod.splits)
qed simp

lemma insertionSort_inv:
  assumes "\<And>i j st. i \<in> A \<Longrightarrow> j \<in> A \<Longrightarrow> I st \<Longrightarrow> I (snd (cmp i j st))" "set acc \<union> set xs \<subseteq> A" "I st"
  shows "I (snd (insertionSort cmp acc xs st))"
  using assms(2,3)
proof (induction xs arbitrary: acc st)
  case (Cons x xs)
  obtain acc' st' where i: "insertWith cmp x acc st = (acc', st')" by (cases "insertWith cmp x acc st")
  have "I st'" using insertWith_inv[where A = A and I = I and cmp = cmp and x = x and ys = acc and st = st] assms(1) Cons.prems i by auto
  moreover have "set acc' = insert x (set acc)"
    using insertWith_set[OF i] .
  ultimately show ?case using Cons i by simp
qed simp

lemma insertWith_sorted:
  fixes key :: "nat \<Rightarrow> rat"
  assumes "\<And>i j st. i \<in> A \<Longrightarrow> j \<in> A \<Longrightarrow> I st \<Longrightarrow> I (snd (cmp i j st)) \<and>
        (fst (cmp i j st) > 0 \<longleftrightarrow> key j < key i) \<and> (fst (cmp i j st) < 0 \<longleftrightarrow> key i < key j)"
    and "x \<in> A" "set ys \<subseteq> A" "I st" "sorted (map key ys)"
  shows "sorted (map key (fst (insertWith cmp x ys st)))"
  using assms(3,4,5)
proof (induction ys arbitrary: st)
  case (Cons y ys)
  obtain r st' where c: "cmp x y st = (r, st')" by (cases "cmp x y st")
  have y: "I st'" "r < 0 \<longleftrightarrow> key x < key y" using assms(1)[of x y st] assms(2) Cons.prems c by auto
  obtain zs st'' where i: "insertWith cmp x ys st' = (zs, st'')" by (cases "insertWith cmp x ys st'")
  have "sorted (map key zs)" using Cons.IH[of st'] Cons.prems y(1) i by auto
  moreover have "set zs = insert x (set ys)"
    using insertWith_set[OF i] .
  ultimately show ?case using Cons.prems y(2) c i by (auto simp: not_less)
qed simp

lemma insertionSort_sorted:
  fixes key :: "nat \<Rightarrow> rat"
  assumes "\<And>i j st. i \<in> A \<Longrightarrow> j \<in> A \<Longrightarrow> I st \<Longrightarrow> I (snd (cmp i j st)) \<and>
        (fst (cmp i j st) > 0 \<longleftrightarrow> key j < key i) \<and> (fst (cmp i j st) < 0 \<longleftrightarrow> key i < key j)"
    and "set acc \<union> set xs \<subseteq> A" "I st" "sorted (map key acc)"
  shows "sorted (map key (fst (insertionSort cmp acc xs st)))"
  using assms(2,3,4)
proof (induction xs arbitrary: acc st)
  case (Cons x xs)
  obtain acc' st' where i: "insertWith cmp x acc st = (acc', st')" by (cases "insertWith cmp x acc st")
  have "I st'" using insertWith_inv[where A = A and I = I and cmp = cmp and x = x and ys = acc and st = st] assms(1) Cons.prems i by auto
  moreover have "sorted (map key acc')" using insertWith_sorted[where A = A and I = I and cmp = cmp and key = key and x = x and ys = acc and st = st]
      assms(1) Cons.prems i by auto
  moreover have "set acc' = insert x (set acc)"
    using insertWith_set[OF i] .
  ultimately show ?case using Cons i by simp
qed simp

definition insertion_js_sort :: "'x js_sort" where
  "insertion_js_sort cmp order xs = insertionSort cmp [] order xs"

interpretation insertion: js_sorting insertion_js_sort
proof unfold_locales
  fix cmp :: "nat \<Rightarrow> nat \<Rightarrow> 'x list \<Rightarrow> rat \<times> 'x list" and ids and xs :: "'x list"
  show "mset (fst (insertion_js_sort cmp ids xs)) = mset ids"
    by (simp add: insertion_js_sort_def insertionSort_perm)
next
  fix ids I and cmp :: "nat \<Rightarrow> nat \<Rightarrow> 'x list \<Rightarrow> rat \<times> 'x list" and xs :: "'x list"
  assume step: "\<And>i j st. i \<in> set ids \<Longrightarrow> j \<in> set ids \<Longrightarrow> I st \<Longrightarrow> I (snd (cmp i j st))" and init: "I xs"
  show "I (snd (insertion_js_sort cmp ids xs))" unfolding insertion_js_sort_def
    using insertionSort_inv[where A = "set ids" and I = I and cmp = cmp and acc = "[]" and xs = ids and st = xs, OF step] init
    by simp
next
  fix ids I and cmp :: "nat \<Rightarrow> nat \<Rightarrow> 'x list \<Rightarrow> rat \<times> 'x list" and key :: "nat \<Rightarrow> rat" and xs :: "'x list"
  assume step: "\<And>i j st. i \<in> set ids \<Longrightarrow> j \<in> set ids \<Longrightarrow> I st \<Longrightarrow> I (snd (cmp i j st)) \<and>
        (fst (cmp i j st) > 0 \<longleftrightarrow> key j < key i) \<and> (fst (cmp i j st) < 0 \<longleftrightarrow> key i < key j)" and init: "I xs"
  show "sorted (map key (fst (insertion_js_sort cmp ids xs)))" unfolding insertion_js_sort_def
    using insertionSort_sorted[where A = "set ids" and I = I and cmp = cmp and key = key and acc = "[]" and xs = ids and st = xs,
        OF step] init by simp
qed

section \<open>Synchronisation with the database\<close>

text \<open>What the comparator cannot change of an entry: all but the priority of its endpoint.\<close>

definition core :: "endpoint_statistic \<Rightarrow> endpoint_entity \<times> calls_statistic" where
  "core es = (es_endpoint es \<lparr> ep_priority := 0 \<rparr>, es_callsStatistic es)"

lemma compare_core: "map core (snd (compareEndpointStatistic i j st)) = map core st"
proof (cases "i < length st")
  case True
  then show ?thesis
    by (simp add: compareEndpointStatistic_def Let_def core_def map_update list_update_same_conv)
qed (simp add: compareEndpointStatistic_def Let_def not_less list_update_beyond)

lemma sortedBy_core:
  "js_sorting jsort \<Longrightarrow> mset (map core (sortedBy jsort compareEndpointStatistic xs)) = mset (map core xs)"
  by (rule js_sorting.sortedBy_map) (simp_all add: compare_core)

definition withScores :: "'s score_cache \<Rightarrow> 's \<Rightarrow> endpoint_statistic \<Rightarrow> endpoint_statistic" where
  "withScores C s es = es \<lparr> es_callsStatistic := CallsStatistic (getEndpointSuccessScoreFromCache C (es_endpoint es) s) \<rparr>"

lemma updateChainPriority_known:
  "js_get m c = Some es \<Longrightarrow> updateChainPriority C jsort s m c =
    Inr (js_put m c (sortedBy jsort compareEndpointStatistic (map (withScores C s) es)))"
  by (simp add: updateChainPriority_def withScores_def[abs_def])

lemma updateChains:
  assumes "distinct ks" "set ks \<subseteq> set (js_keys m)"
  shows "\<exists>m'. sum_foldl (updateChainPriority C jsort s) m ks = Inr m' \<and> js_keys m' = js_keys m
    \<and> (\<forall>c. js_get m' c = (if c \<in> set ks then
          map_option (\<lambda>es. sortedBy jsort compareEndpointStatistic (map (withScores C s) es)) (js_get m c) else js_get m c))"
  using assms
proof (induction ks arbitrary: m)
  case (Cons k ks)
  then obtain es where es: "js_get m k = Some es" by (metis insert_subset js_keys_get list.set(2) not_None_eq)
  let ?m = "js_put m k (sortedBy jsort compareEndpointStatistic (map (withScores C s) es))"
  have keys: "js_keys ?m = js_keys m" using Cons.prems by (intro js_keys_put_old) simp
  obtain m' where m': "sum_foldl (updateChainPriority C jsort s) ?m ks = Inr m'" "js_keys m' = js_keys ?m"
    "\<forall>c. js_get m' c = (if c \<in> set ks then
        map_option (\<lambda>es. sortedBy jsort compareEndpointStatistic (map (withScores C s) es)) (js_get ?m c) else js_get ?m c)"
    using Cons.IH[of ?m] Cons.prems keys by auto
  then show ?case using Cons.prems es keys by (auto simp: updateChainPriority_known)
qed simp

lemma syncEndpoint_get:
  "js_get (syncEndpoint old m e) c = (if c = ep_chainId e then
     Some ((case js_get m c of Some es \<Rightarrow> es | None \<Rightarrow> []) @
       [\<lparr> es_callsStatistic = (case (case js_get old c of None \<Rightarrow> None
            | Some prevEndpoints \<Rightarrow> find (\<lambda>p. ep_id (es_endpoint p) = ep_id e) prevEndpoints) of
              Some p \<Rightarrow> es_callsStatistic p | None \<Rightarrow> CallsStatistic []), es_endpoint = e \<rparr>])
     else js_get m c)"
  by (simp add: syncEndpoint_def Let_def)

lemma js_keys_put_add: "js_keys (js_put m k v) = set_add (js_keys m) k"
  by (cases "k \<in> set (js_keys m)") (simp_all add: js_keys_put_old js_put_new set_add_def, simp add: js_keys_def)

lemma syncEndpoint_keys: "js_keys (syncEndpoint old m e) = set_add (js_keys m) (ep_chainId e)"
  by (simp add: syncEndpoint_def Let_def js_keys_put_add)

lemma sync_foldl:
  "js_keys (foldl (syncEndpoint old) [] es) = js_set (map ep_chainId es) \<and>
   map_option (map es_endpoint) (js_get (foldl (syncEndpoint old) [] es) c) =
     (if c \<in> set (map ep_chainId es) then Some (filter (\<lambda>e. ep_chainId e = c) es) else None)"
proof (induction es rule: rev_induct)
  case (snoc e es)
  have "js_keys (foldl (syncEndpoint old) [] (es @ [e])) = js_set (map ep_chainId (es @ [e]))"
    using snoc by (simp add: syncEndpoint_keys js_set_def)
  moreover have "map_option (map es_endpoint) (js_get (foldl (syncEndpoint old) [] (es @ [e])) c) =
     (if c \<in> set (map ep_chainId (es @ [e])) then Some (filter (\<lambda>e. ep_chainId e = c) (es @ [e])) else None)"
  proof -
    have "c \<notin> ep_chainId ` set es \<Longrightarrow> filter (\<lambda>e. ep_chainId e = c) es = []" by (auto simp: filter_empty_conv)
    with snoc show ?thesis by (auto simp: syncEndpoint_get split: if_splits)
  qed
  ultimately show ?case by blast
qed (simp add: js_keys_def js_set_def)

text \<open>C9: Synchronisation never throws; the new map has one entry per chain with an enabled
  endpoint, in which exactly the enabled endpoints of the chain stand, each once and with the
  statistic of the scores that are cached for it; only their order and their priorities may differ from
  the database.\<close>

theorem sync_partitions_enabled:
  assumes "js_sorting jsort"
  shows "\<exists>m'. syncEndpointsFromDatabase C jsort enabled s m = Inr m' \<and> js_keys m' = js_set (map ep_chainId enabled) \<and>
    (\<forall>c \<in> set (js_keys m'). \<exists>es. js_get m' c = Some es \<and> mset (map core es) =
      mset (map (\<lambda>e. (e \<lparr> ep_priority := 0 \<rparr>, CallsStatistic (getEndpointSuccessScoreFromCache C e s)))
        (filter (\<lambda>e. ep_chainId e = c) enabled)))"
proof -
  let ?n = "foldl (syncEndpoint m) [] enabled"
  obtain m' where m': "sum_foldl (updateChainPriority C jsort s) ?n (js_keys ?n) = Inr m'" "js_keys m' = js_keys ?n"
    "\<And>c. js_get m' c = (if c \<in> set (js_keys ?n) then
        map_option (\<lambda>es. sortedBy jsort compareEndpointStatistic (map (withScores C s) es)) (js_get ?n c) else js_get ?n c)"
    using updateChains[of "js_keys ?n" ?n C jsort s] sync_foldl[of m enabled] by auto
  have entry: "\<exists>es. js_get m' c = Some es \<and> mset (map core es) =
      mset (map (\<lambda>e. (e \<lparr> ep_priority := 0 \<rparr>, CallsStatistic (getEndpointSuccessScoreFromCache C e s)))
        (filter (\<lambda>e. ep_chainId e = c) enabled))" if c: "c \<in> set (js_keys m')" for c
  proof -
    obtain es where es: "js_get ?n c = Some es" "map es_endpoint es = filter (\<lambda>e. ep_chainId e = c) enabled"
      using sync_foldl[of m enabled c] c m'(2) by auto
    have "map core (map (withScores C s) es) =
        map (\<lambda>e. (e \<lparr> ep_priority := 0 \<rparr>, CallsStatistic (getEndpointSuccessScoreFromCache C e s))) (map es_endpoint es)"
      by (simp add: core_def withScores_def)
    then show ?thesis using sortedBy_core[OF assms, of "map (withScores C s) es"] es m'(2) m'(3)[of c] c by simp
  qed
  show ?thesis
    using m'(1,2) sync_foldl[of m enabled] entry by (auto simp: syncEndpointsFromDatabase_def updateEndpointsPriority_def)
qed

definition node_b :: endpoint_entity where
  "node_b = node_a \<lparr> ep_id := 2, ep_endpoint := ''b'', ep_priority := 9 \<rparr>"

theorem sync_partitions_enabled_witness:
  "\<exists>m'. syncEndpointsFromDatabase mem insertion_js_sort [node_a, node_b] [] [] = Inr m' \<and> js_keys m' = [5]"
  using sync_partitions_enabled[OF insertion.js_sorting_axioms, of mem "[node_a, node_b]" "[]" "[]"]
  by (auto simp: node_a_def node_b_def js_set_def set_add_def)

text \<open>The priorities that operators configure do not decide the order: as soon as those of
  a chain are all non-zero, its endpoints are ordered by success rating alone.\<close>

theorem priority_ignored:
  assumes "js_sorting jsort" "list_all (\<lambda>es. ep_priority (es_endpoint es) \<noteq> 0) xs"
  shows "sorted_wrt (\<ge>) (map (\<lambda>es. cs_rating (es_callsStatistic es)) (sortedBy jsort compareEndpointStatistic xs))"
proof -
  let ?r = "\<lambda>es. cs_rating (es_callsStatistic es)"
  let ?I = "\<lambda>st. map ?r st = map ?r xs \<and> list_all (\<lambda>es. ep_priority (es_endpoint es) \<noteq> 0) st"
  obtain order st where res: "jsort compareEndpointStatistic [0..<length xs] xs = (order, st)"
    by (cases "jsort compareEndpointStatistic [0..<length xs] xs")
  have step: "?I (snd (compareEndpointStatistic i j st')) \<and>
      (fst (compareEndpointStatistic i j st') > 0 \<longleftrightarrow> - ?r (xs ! j) < - ?r (xs ! i)) \<and>
      (fst (compareEndpointStatistic i j st') < 0 \<longleftrightarrow> - ?r (xs ! i) < - ?r (xs ! j))"
    if "i \<in> set [0..<length xs]" "j \<in> set [0..<length xs]" "?I st'" for i j st'
  proof -
    have len: "length st' = length xs" using that(3) by (metis length_map)
    have ij: "i < length st'" "j < length st'" using that len by simp_all
    have p: "ep_priority (es_endpoint (st' ! j)) \<noteq> 0" using that(3) ij(2) by (simp add: list_all_length)
    have r: "?r (st' ! i) = ?r (xs ! i)" "?r (st' ! j) = ?r (xs ! j)"
      using that(3) ij len by (metis nth_map)+
    have m: "map ?r (snd (compareEndpointStatistic i j st')) = map ?r xs"
      using that(3) ij len r by (simp add: compareEndpointStatistic_def Let_def map_update list_update_same_conv)
    have l: "list_all (\<lambda>es. ep_priority (es_endpoint es) \<noteq> 0) (snd (compareEndpointStatistic i j st'))"
      using that(3) p by (simp add: compareEndpointStatistic_def Let_def list_all_update)
    have "fst (compareEndpointStatistic i j st') = ?r (xs ! j) - ?r (xs ! i)"
      using p r ij by (simp add: compareEndpointStatistic_def Let_def nth_list_update)
    with m l show ?thesis by auto
  qed
  have srt: "sorted (map (\<lambda>i. - ?r (xs ! i)) (fst (jsort compareEndpointStatistic [0..<length xs] xs)))"
    by (rule js_sorting.ordered[OF assms(1), where I = ?I]) (use step assms(2) in blast)+
  have "?I (snd (jsort compareEndpointStatistic [0..<length xs] xs))"
    by (rule js_sorting.inv[OF assms(1), where I = ?I]) (use step assms(2) in blast)+
  then have st: "map ?r st = map ?r xs" using res by simp
  have "set order = {0..<length xs}"
    using mset_eq_setD[OF js_sorting.perm[OF assms(1), of compareEndpointStatistic "[0..<length xs]" xs]] res by simp
  then have "map ?r (sortedBy jsort compareEndpointStatistic xs) = map (\<lambda>i. ?r (xs ! i)) order"
    using st by (auto simp: sortedBy_def res simp del: map_eq_conv intro!: map_cong) (metis length_map nth_map)
  with srt show ?thesis by (simp add: res sorted_wrt_map sorted_map)
qed

theorem priority_ignored_witness:
  "sorted_wrt (\<ge>) (map (\<lambda>es. cs_rating (es_callsStatistic es)) (sortedBy insertion_js_sort compareEndpointStatistic
     [\<lparr> es_callsStatistic = \<lparr> cs_fail = 5, cs_success = 5, cs_rating = 1 / 2 \<rparr>, es_endpoint = node_b \<rparr>,
      \<lparr> es_callsStatistic = \<lparr> cs_fail = 0, cs_success = 9, cs_rating = 1 \<rparr>, es_endpoint = node_a \<rparr>]))"
  by (rule priority_ignored[OF insertion.js_sorting_axioms]) (simp add: node_a_def node_b_def)

section \<open>The table of endpoints\<close>

locale endpoint_table =
  fixes R :: "'t endpoint_orm" and rows :: "'t \<Rightarrow> endpoint_entity list"
  assumes find: "mset (orm_find R P t) = mset (filter P (rows t))"
    and findOne_Some: "orm_findOne R P t = Some e \<Longrightarrow> e \<in> set (rows t) \<and> P e"
    and findOne_None: "orm_findOne R P t = None \<Longrightarrow> filter P (rows t) = []"
    and save: "orm_save R d t = (e, t') \<Longrightarrow> rows t' = rows t @ [e] \<and> ep_endpoint e = ec_endpoint d \<and> ep_chainId e = ec_chainId d"
begin

lemma getEnabled_rows: "mset (getEnabled R t) = mset (filter ep_isEnabled (rows t))"
  by (simp add: getEnabled_def find)

lemma insertOne_distinct:
  assumes "distinct (map (\<lambda>e. (ep_endpoint e, ep_chainId e)) (rows t))" "insertOne R d t = (r, t')"
  shows "distinct (map (\<lambda>e. (ep_endpoint e, ep_chainId e)) (rows t'))"
proof (cases "orm_findOne R (\<lambda>e. ep_endpoint e = ec_endpoint d \<and> ep_chainId e = ec_chainId d) t")
  case None
  obtain e u where s: "orm_save R d t = (e, u)" by (cases "orm_save R d t")
  then have "t' = u" using assms(2) None by (simp add: insertOne_def)
  moreover have "(ec_endpoint d, ec_chainId d) \<notin> set (map (\<lambda>e. (ep_endpoint e, ep_chainId e)) (rows t))"
    using findOne_None[OF None] by (auto simp: filter_empty_conv)
  ultimately show ?thesis using assms(1) save[OF s] by simp
next
  case (Some e)
  then show ?thesis using assms by (simp add: insertOne_def)
qed

end

text \<open>A list of rows whose next identifier is the number of rows.\<close>

definition list_orm :: "endpoint_entity list endpoint_orm" where
  "list_orm = \<lparr> orm_find = filter, orm_findOne = find,
     orm_many = (\<lambda>offset limit _ _ t. take (nat limit) (drop (nat offset) t)),
     orm_save = (\<lambda>d t. let e = \<lparr> ep_id = int (length t), ep_endpoint = ec_endpoint d, ep_chainId = ec_chainId d,
        ep_isEnabled = (case ec_isEnabled d of Some b \<Rightarrow> b | None \<Rightarrow> True),
        ep_priority = (case ec_priority d of Some p \<Rightarrow> p | None \<Rightarrow> 0),
        ep_archived = (case ec_archived d of Some b \<Rightarrow> b | None \<Rightarrow> True) \<rparr> in (e, t @ [e])),
     orm_update = (\<lambda>i u t. map (\<lambda>e. if ep_id e = i then e \<lparr> ep_priority := case eu_priority u of Some p \<Rightarrow> p | None \<Rightarrow> ep_priority e \<rparr> else e) t),
     orm_delete = (\<lambda>i t. filter (\<lambda>e. ep_id e \<noteq> i) t) \<rparr>"

interpretation list_table: endpoint_table list_orm "\<lambda>t. t"
  by unfold_locales (auto simp: list_orm_def Let_def find_Some_iff find_None_iff filter_empty_conv)

end
