(* ===== verification/RpcProxy.thy ===== *)
theory RpcProxy
  imports Endpoints
begin

text \<open>
  \<open>apps/rpc/src/modules/rpc/rpc.service.ts\<close>: a call is proxied to the endpoints of its chain, one after the other
  in round robin, until one replies with a valid response.  The HTTP client is the parameter \<open>http\<close>, a function
  of the state of the outside world; what is written to the client's response is the list of the bodies sent with their
  status, and the updates of the success rate, which the loop does not wait for, are the list of scores reported.
\<close>

datatype http_reply = Reply "string option" int | Failure

text \<open>A reply carries the JSON text of its data, if the data has one, and the status.\<close>

datatype body = DataBody "string option" | ErrorBody string

definition wrongRpcResponsePatterns :: "string list" where
  "wrongRpcResponsePatterns =
    [''invalid json rpc response'',
     ''missing trie node'',
     ''header not found'',
     ''upgrade to an archive plan add-on for your account'',
     ''error'',
     ''-32000'']"

definition validRpcResponsePatterns :: "string list" where
  "validRpcResponsePatterns = [''id'']"

definition isResponseValid :: "string \<Rightarrow> bool" where
  "isResponseValid responseString =
     (if responseString = [] then False
      else (let containsWrongPattern = list_ex (\<lambda>p. str_includes responseString p) wrongRpcResponsePatterns;
                containsRequiredPattern = list_ex (\<lambda>p. str_includes responseString p) validRpcResponsePatterns
            in containsRequiredPattern \<and> \<not> containsWrongPattern))"

type_synonym 'w http = "'w \<Rightarrow> string \<Rightarrow> http_reply \<times> 'w"

definition makeRPCCall :: "'w http \<Rightarrow> string \<Rightarrow> 'w \<Rightarrow> bool \<times> (int \<times> body) list \<times> 'w" where
  "makeRPCCall http target w = (case http w target of
     (Reply data status, w') \<Rightarrow>
       (let responseString = (case data of Some text \<Rightarrow> to_lower text | None \<Rightarrow> []) in
        if \<not> isResponseValid responseString then (False, [], w')
        else (True, [(status, DataBody data)], w'))
   | (Failure, w') \<Rightarrow> (False, [], w'))"

type_synonym 'w proxy_result = "(int \<times> body) list \<times> (endpoint_entity \<times> EndpointCallScore) list \<times> 'w"

definition noEndpointText :: "int \<Rightarrow> string" where
  "noEndpointText chainId = ''No endpoints for chainId '' @ show_int chainId"

definition sorryText :: "int \<Rightarrow> string" where
  "sorryText chainId =
     ''Sorry, no one of endpoints for chainId '' @ show_int chainId @ '' replies with success''"

function proxyLoop ::
  "'w http \<Rightarrow> int \<Rightarrow> endpoint_entity list \<Rightarrow> nat \<Rightarrow> int \<Rightarrow> (endpoint_entity \<times> EndpointCallScore) list \<Rightarrow> 'w
    \<Rightarrow> 'w proxy_result" where
  "proxyLoop http chainId endpoints index retries scores w =
     (if retries \<ge> 0
      then (let endpoint = endpoints ! index;
                (success, sent, w') = makeRPCCall http (ep_endpoint endpoint) w;
                score = (if success then Score_success else Score_fail);
                scores' = scores @ [(endpoint, score)]
            in if success then (sent, scores', w')
               else proxyLoop http chainId endpoints ((index + 1) mod length endpoints) (retries - 1) scores' w')
      else ([(418, ErrorBody (sorryText chainId))], scores, w))"
  by pat_completeness auto
termination by (relation "measure (\<lambda>(_, _, _, _, retries, _, _). nat (retries + 1))") auto

declare proxyLoop.simps [simp del]

text \<open>\<open>maxRetries\<close> is the number the configuration text converts to, \<open>None\<close> when it is not a number.\<close>

definition proxyRPCCall :: "'w http \<Rightarrow> int option \<Rightarrow> endpoints_map \<Rightarrow> int \<Rightarrow> bool \<Rightarrow> 'w \<Rightarrow> 'w proxy_result" where
  "proxyRPCCall http maxRetries m chainId archive w =
     (let endpoints = getEndpointByPriority m chainId archive in
      if endpoints = [] then ([(409, ErrorBody (noEndpointText chainId))], [], w)
      else (let retries = (case maxRetries of Some n \<Rightarrow> (if n = 0 then 3 else n) | None \<Rightarrow> 3) in
        proxyLoop http chainId endpoints 0 retries [] w))"

section \<open>Round robin\<close>

text \<open>The world before attempt \<open>k\<close>, and the outcome of that attempt, when every earlier one was made.\<close>

fun worldAt :: "'w http \<Rightarrow> endpoint_entity list \<Rightarrow> nat \<Rightarrow> 'w \<Rightarrow> 'w" where
  "worldAt http es 0 w = w"
| "worldAt http es (Suc k) w =
     snd (snd (makeRPCCall http (ep_endpoint (es ! (k mod length es))) (worldAt http es k w)))"

definition attempt :: "'w http \<Rightarrow> endpoint_entity list \<Rightarrow> nat \<Rightarrow> 'w \<Rightarrow> bool" where
  "attempt http es k w = fst (makeRPCCall http (ep_endpoint (es ! (k mod length es))) (worldAt http es k w))"

definition valid_answer :: "(int \<times> body) list \<Rightarrow> bool" where
  "valid_answer sent \<longleftrightarrow> (\<exists>status text. sent = [(status, DataBody (Some text))] \<and> isResponseValid (to_lower text))"

lemma makeRPCCall_sent: "makeRPCCall http target w = (True, sent, w') \<Longrightarrow> valid_answer sent"
  by (auto simp: makeRPCCall_def Let_def valid_answer_def isResponseValid_def
      split: prod.splits http_reply.splits if_splits option.splits)

lemma getEndpointByPriority_archive: "e \<in> set (getEndpointByPriority m c True) \<Longrightarrow> ep_archived e"
  by (auto simp: getEndpointByPriority_def)

definition failing :: "endpoint_entity list \<Rightarrow> nat \<Rightarrow> (endpoint_entity \<times> EndpointCallScore) list" where
  "failing es k = map (\<lambda>j. (es ! (j mod length es), Score_fail)) [0..<k]"

lemma failing_simps [simp]:
  "failing es 0 = []"
  "failing es (Suc k) = failing es k @ [(es ! (k mod length es), Score_fail)]"
  by (simp_all add: failing_def)

lemma proxyLoop_from:
  assumes "es \<noteq> []" "\<forall>j < k. \<not> attempt http es j w"
    and "proxyLoop http c es (k mod length es) r (failing es k) (worldAt http es k w) = (sent, scores, w')"
  shows "\<exists>n. k \<le> n \<and> int n \<le> int k + max 0 (r + 1) \<and> (\<forall>j < n. \<not> attempt http es j w) \<and>
    (if int n < int k + max 0 (r + 1)
     then attempt http es n w \<and> valid_answer sent \<and> scores = failing es n @ [(es ! (n mod length es), Score_success)]
     else scores = failing es n \<and> sent = [(418, ErrorBody (sorryText c))])"
  using assms(2,3)
proof (induction "nat (r + 1)" arbitrary: k r)
  case 0
  then have "sent = [(418, ErrorBody (sorryText c))]" "scores = failing es k" "r + 1 \<le> 0"
    by (simp_all add: proxyLoop.simps[of http c es _ r])
  then show ?case using 0 by (intro exI[of _ k]) simp
next
  case (Suc m)
  let ?e = "es ! (k mod length es)"
  obtain success sent' w1 where call: "makeRPCCall http (ep_endpoint ?e) (worldAt http es k w) = (success, sent', w1)"
    by (cases "makeRPCCall http (ep_endpoint ?e) (worldAt http es k w)")
  have r: "0 \<le> r" using Suc.hyps(2) by simp
  show ?case
  proof (cases success)
    case True
    then have "sent = sent'" "scores = failing es k @ [(?e, Score_success)]"
      using Suc.prems(2) call r by (simp_all add: proxyLoop.simps[of http c es _ r] Let_def)
    moreover have "valid_answer sent'" using makeRPCCall_sent call True by simp
    ultimately show ?thesis using Suc.prems(1) True call r by (intro exI[of _ k]) (simp add: attempt_def)
  next
    case False
    have fails: "\<forall>j < Suc k. \<not> attempt http es j w" using Suc.prems(1) False call by (auto simp: less_Suc_eq attempt_def)
    have m: "m = nat (r - 1 + 1)" using Suc.hyps(2) by simp
    have "proxyLoop http c es (Suc k mod length es) (r - 1) (failing es (Suc k)) (worldAt http es (Suc k) w) = (sent, scores, w')"
      using Suc.prems(2) False call r by (simp add: proxyLoop.simps[of http c es _ r] Let_def mod_Suc_eq)
    from Suc.hyps(1)[OF m fails this] r show ?thesis by (auto intro: Suc_leD)
  qed
qed

text \<open>C2: The proxy always answers, with exactly one response: a valid reply of an endpoint, or an apology.  Attempt number \<open>n\<close> goes to
  endpoint \<open>n\<close> modulo their number; there are at most one more attempts than retries are configured (three
  when none are), the first valid reply ends the loop, every attempt is reported with its score, and the
  apology is sent exactly when all of them failed.\<close>

theorem proxyRPCCall_round_robin:
  assumes "getEndpointByPriority m c archive = es" "es \<noteq> []"
    and "R = (case maxRetries of Some n \<Rightarrow> if n = 0 then 3 else n | None \<Rightarrow> 3)"
    and "proxyRPCCall http maxRetries m c archive w = (sent, scores, w')"
  shows "\<exists>n. int n \<le> max 0 (R + 1) \<and> (\<forall>j < n. \<not> attempt http es j w) \<and>
    (if int n < max 0 (R + 1)
     then attempt http es n w \<and> valid_answer sent \<and> scores = failing es n @ [(es ! (n mod length es), Score_success)]
     else scores = failing es n \<and> sent = [(418, ErrorBody (sorryText c))])"
proof -
  have "proxyLoop http c es (0 mod length es) R (failing es 0) (worldAt http es 0 w) = (sent, scores, w')"
    using assms by (simp add: proxyRPCCall_def Let_def)
  from proxyLoop_from[OF assms(2) _ this] show ?thesis by auto
qed

text \<open>A world in which the second reply is the first valid one.\<close>

definition flaky :: "nat http" where
  "flaky w target = (if w = 0 then Failure else Reply (Some ''{\"id\":1}'') 200, w + 1)"

lemma proxyRPCCall_flaky:
  "proxyRPCCall flaky None [(5, [\<lparr> es_callsStatistic = CallsStatistic [], es_endpoint = node_a \<rparr>])] 5 False 0 =
    ([(200, DataBody (Some ''{\"id\":1}''))], [(node_a, Score_fail), (node_a, Score_success)], 2)"
  by (simp add: proxyRPCCall_def getEndpointByPriority_def proxyLoop.simps makeRPCCall_def flaky_def isResponseValid_def
      wrongRpcResponsePatterns_def validRpcResponsePatterns_def str_includes_def lower_char_def Let_def)

theorem proxyRPCCall_round_robin_witness:
  "\<exists>n. int n \<le> 4 \<and> (\<forall>j < n. \<not> attempt flaky [node_a] j 0) \<and> attempt flaky [node_a] n 0"
proof -
  have e: "getEndpointByPriority [(5, [\<lparr> es_callsStatistic = CallsStatistic [], es_endpoint = node_a \<rparr>])] 5 False = [node_a]"
    by (simp add: getEndpointByPriority_def)
  from proxyRPCCall_round_robin[OF e _ refl proxyRPCCall_flaky] obtain n
    where "int n \<le> 4" "\<forall>j < n. \<not> attempt flaky [node_a] j 0" "attempt flaky [node_a] n 0"
    by (auto split: if_splits intro: less_imp_le_nat)
  then show ?thesis by blast
qed

text \<open>A chain without a suitable endpoint is answered with status 409, without a call and
  without a score; the archive nodes are the only suitable ones for an archive request.\<close>

theorem proxyRPCCall_no_endpoint:
  "proxyRPCCall http maxRetries m c archive w = ([(409, ErrorBody (noEndpointText c))], [], w) \<longleftrightarrow>
     (case js_get m c of None \<Rightarrow> True
      | Some es \<Rightarrow> archive \<and> list_all (\<lambda>x. \<not> ep_archived (es_endpoint x)) es \<or> es = [])"
proof -
  have empty: "getEndpointByPriority m c archive = [] \<longleftrightarrow> (case js_get m c of None \<Rightarrow> True
      | Some es \<Rightarrow> archive \<and> list_all (\<lambda>x. \<not> ep_archived (es_endpoint x)) es \<or> es = [])"
    by (auto simp: getEndpointByPriority_def filter_empty_conv list_all_iff split: option.split)
      (metis list.set_intros(1) neq_Nil_conv)
  have "proxyRPCCall http maxRetries m c archive w \<noteq> ([(409, ErrorBody (noEndpointText c))], [], w)"
    if ne: "getEndpointByPriority m c archive \<noteq> []"
  proof
    assume p: "proxyRPCCall http maxRetries m c archive w = ([(409, ErrorBody (noEndpointText c))], [], w)"
    from proxyRPCCall_round_robin[OF refl ne refl p] show False by (auto simp: valid_answer_def split: if_splits)
  qed
  then show ?thesis by (auto simp: proxyRPCCall_def empty Let_def)
qed

end
