(* ===== verification/ProtocolCache.thy ===== *)
theory ProtocolCache
  imports Cache "HOL-Library.Multiset"
begin

text \<open>
  \<open>apps/integration/src/framework/support/RootProtocolCacheable.ts\<close>: the base class of the protocol
  integrations.  It fetches the pools of a protocol, keeps them in the cache, completes them with token
  data and collects the positions of users.  The methods that a subclass supplies (fetching, updating and formatting)
  and the services it calls are arguments.  They work on one state \<open>'s\<close> that also holds
  the cache; arithmetic on JavaScript numbers is the record \<open>num_ops\<close>.
\<close>

section \<open>Data\<close>

record token_ref =
  tr_address :: string
  tr_underlying :: "string list option"

record token_item =
  ti_token :: token_ref
  ti_total :: "string option"

text \<open>\<open>mp_id\<close> is \<open>None\<close> for an absent identifier; \<open>mp_other\<close> are the fields that are copied unseen.\<close>

record 'm minimal_pool =
  mp_id :: "string option"
  mp_supplied :: "token_item list option"
  mp_supply :: "token_item option"
  mp_borrowed :: "token_item list option"
  mp_borrow :: "token_item option"
  mp_rewarded :: "token_item list option"
  mp_reward :: "token_item option"
  mp_other :: 'm

record ('m, 'f, 'r) opportunity =
  op_id :: "string option"
  op_link :: "string option"
  op_token :: "'r option"
  op_supplied :: "'f list option"
  op_supply :: "'f option"
  op_borrowed :: "'f list option"
  op_borrow :: "'f option"
  op_rewarded :: "'f list option"
  op_reward :: "'f option"
  op_other :: 'm

datatype 'e failure = TypeError | MissingOpportunity | MissingToken token_ref | Failed 'e

record ('o, 'e) pool_response =
  pr_data :: "'o list"
  pr_errors :: "'e failure list"

text \<open>What the cache holds, by kind of key.\<close>

datatype ('m, 'o, 'e) cached =
    PoolList "string list"
  | Pool "'m minimal_pool"
  | Hydrated "('o, 'e) pool_response"

record meta =
  protocolId :: string
  metaChain :: int

type_synonym ('s, 'm, 'o, 'e) protocol_cache = "('s, ('m, 'o, 'e) cached, int) cache_manager"

section \<open>Pool lists in the cache\<close>

definition poolListCacheKey :: "meta \<Rightarrow> string" where
  "poolListCacheKey M = ''pool_list_'' @ protocolId M"

definition singlePoolCacheKey :: "meta \<Rightarrow> string \<Rightarrow> string" where
  "singlePoolCacheKey M poolId = show_int (metaChain M) @ ''_'' @ poolId"

definition poolIdent :: "'m minimal_pool option \<Rightarrow> string option" where
  "poolIdent pool = (case pool of None \<Rightarrow> None
     | Some p \<Rightarrow> (case mp_id p of None \<Rightarrow> None | Some i \<Rightarrow> if i = [] then None else Some i))"

text \<open>The accumulators are the list of identifiers, the array for \<open>mset\<close>, and the pools warned about.\<close>

definition collectPool ::
  "meta \<Rightarrow> string list \<times> ('m, 'o, 'e) cached mset_item list \<times> 'm minimal_pool option list \<Rightarrow> 'm minimal_pool option
    \<Rightarrow> string list \<times> ('m, 'o, 'e) cached mset_item list \<times> 'm minimal_pool option list" where
  "collectPool M acc pool = (let (poolList, cached, warned) = acc in
     case poolIdent pool of
       Some i \<Rightarrow> (poolList @ [i], cached @ [MKey (singlePoolCacheKey M i), MVal (Val (Pool (the pool)))], warned)
     | None \<Rightarrow> (poolList, cached, warned @ [pool]))"

definition longestCacheTtl :: int where
  "longestCacheTtl = 60 * 60 * 24"

definition cachePoolData ::
  "('s, 'm, 'o, 'e) protocol_cache \<Rightarrow> meta \<Rightarrow> ('s \<Rightarrow> ('e failure + 'm minimal_pool option list) \<times> 's) \<Rightarrow> 's
    \<Rightarrow> ('e failure + 'm minimal_pool option list) \<times> 's" where
  "cachePoolData C M getCacheableOpportunityData s =
     (case getCacheableOpportunityData s of
        (Inl e, s') \<Rightarrow> (Inl e, s')
      | (Inr pools, s') \<Rightarrow>
          (let (poolList, cached, warned) = foldl (collectPool M) ([], [], []) pools in
           (Inr pools, cm_mset C ([MKey (poolListCacheKey M), MVal (Val (PoolList poolList))] @ cached)
              (Some longestCacheTtl) s')))"

section \<open>Tokens of the pools\<close>

definition addItem :: "string option list \<Rightarrow> token_item \<Rightarrow> string option list" where
  "addItem tokens item =
     (let tokens' = set_add tokens (Some (tr_address (ti_token item))) in
      case tr_underlying (ti_token item) of None \<Rightarrow> tokens'
      | Some us \<Rightarrow> foldl (\<lambda>t a. set_add t (Some a)) tokens' us)"

definition addMulti :: "string option list \<Rightarrow> token_item list option \<Rightarrow> string option list" where
  "addMulti tokens feature = (case feature of None \<Rightarrow> tokens | Some items \<Rightarrow> foldl addItem tokens items)"

definition addSingle :: "string option list \<Rightarrow> token_item option \<Rightarrow> string option list" where
  "addSingle tokens feature = (case feature of None \<Rightarrow> tokens | Some item \<Rightarrow> addItem tokens item)"

text \<open>The optional accesses \<open>pool?.[...]\<close> come after \<open>pool.id\<close>, which throws on a null pool.\<close>

definition addPoolTokens :: "string option list \<Rightarrow> 'm minimal_pool option \<Rightarrow> 'e failure + string option list" where
  "addPoolTokens tokens pool = (case pool of
     None \<Rightarrow> Inl TypeError
   | Some p \<Rightarrow>
       (let t0 = set_add tokens (mp_id p);
            t1 = addMulti (addMulti (addMulti t0 (mp_supplied p)) (mp_borrowed p)) (mp_rewarded p)
        in Inr (addSingle (addSingle (addSingle t1 (mp_supply p)) (mp_borrow p)) (mp_reward p))))"

definition getUniqueTokensFromRawPools :: "'m minimal_pool option list \<Rightarrow> 'e failure + string option list" where
  "getUniqueTokensFromRawPools pools = sum_foldl addPoolTokens [] pools"

type_synonym ('s, 't, 'e) asset_service =
  "(string option \<times> int) list \<Rightarrow> 's \<Rightarrow> ('e failure + (string option \<times> 't) list) \<times> 's"

definition getTokens :: "meta \<Rightarrow> ('s, 't, 'e) asset_service \<Rightarrow> string option list \<Rightarrow> 's
    \<Rightarrow> ('e failure + (string option \<times> 't) list) \<times> 's" where
  "getTokens M getAssets addresses s = getAssets (map (\<lambda>address. (address, metaChain M)) addresses) s"

text \<open>\<open>new Map(tokens)\<close> keeps the last value of a repeated key.\<close>

definition newMap :: "('k \<times> 'v) list \<Rightarrow> ('k, 'v) js_map" where
  "newMap kvs = foldl (\<lambda>m (k, v). js_put m k v) [] kvs"

definition getTokensForOpportunities ::
  "meta \<Rightarrow> ('s, 't, 'e) asset_service \<Rightarrow> 'm minimal_pool option list \<Rightarrow> 's
    \<Rightarrow> ('e failure + (string option, 't) js_map) \<times> 's" where
  "getTokensForOpportunities M getAssets opportunities s =
     (case getUniqueTokensFromRawPools opportunities of
        Inl e \<Rightarrow> (Inl e, s)
      | Inr addresses \<Rightarrow>
          (case getTokens M getAssets addresses s of
             (Inl e, s') \<Rightarrow> (Inl e, s')
           | (Inr tokens, s') \<Rightarrow> (Inr (newMap tokens), s')))"

section \<open>Completing the pools\<close>

text \<open>
  The accumulators of the reduction are the data and the errors; \<open>formatOpportunity\<close> is the
  method, which may be overridden, and gives nothing (\<open>None\<close>) for a pool it leaves out.
\<close>

definition hydratePool ::
  "('m minimal_pool option \<Rightarrow> 'e failure + 'o option) \<Rightarrow> ('o, 'e) pool_response \<Rightarrow> 'm minimal_pool option
    \<Rightarrow> ('o, 'e) pool_response" where
  "hydratePool fmt acc opportunity =
     (let attempt = (case fmt opportunity of
          Inl err \<Rightarrow> Inl err
        | Inr None \<Rightarrow> Inl MissingOpportunity
        | Inr (Some pool) \<Rightarrow> Inr pool)
      in case attempt of
          Inr pool \<Rightarrow> acc \<lparr> pr_data := pr_data acc @ [pool] \<rparr>
        | Inl MissingOpportunity \<Rightarrow> acc
        | Inl (MissingToken _) \<Rightarrow> acc
        | Inl err \<Rightarrow> acc \<lparr> pr_errors := pr_errors acc @ [err] \<rparr>)"

type_synonym ('s, 'm, 't, 'e) updater =
  "'m minimal_pool option list \<Rightarrow> (string option, 't) js_map \<Rightarrow> 's \<Rightarrow> ('e failure + 'm minimal_pool option list option) \<times> 's"

definition hydrateOpportunityData ::
  "meta \<Rightarrow> ('s, 't, 'e) asset_service \<Rightarrow> ('s, 'm, 't, 'e) updater option
    \<Rightarrow> ((string option, 't) js_map \<Rightarrow> 'm minimal_pool option \<Rightarrow> 'e failure + 'o option)
    \<Rightarrow> 'm minimal_pool option list \<Rightarrow> 's \<Rightarrow> ('o, 'e) pool_response \<times> 's" where
  "hydrateOpportunityData M getAssets updateRealTimeData formatOpportunity opportunities s =
     (case getTokensForOpportunities M getAssets opportunities s of
        (Inl e, s1) \<Rightarrow> (\<lparr> pr_data = [], pr_errors = [e] \<rparr>, s1)
      | (Inr tokens, s1) \<Rightarrow>
          (let (updated, updateErrors, s2) = (case updateRealTimeData of
                 None \<Rightarrow> (Some opportunities, [], s1)
               | Some f \<Rightarrow> (case f opportunities tokens s1 of
                     (Inl e, s2) \<Rightarrow> (None, [e], s2)
                   | (Inr r, s2) \<Rightarrow> (r, [], s2)))
           in (foldl (hydratePool (formatOpportunity tokens)) \<lparr> pr_data = [], pr_errors = updateErrors \<rparr>
                 (case updated of Some ps \<Rightarrow> ps | None \<Rightarrow> opportunities), s2)))"

definition getCache :: "('s, 'm, 'o, 'e) protocol_cache \<Rightarrow> string \<Rightarrow> 's \<Rightarrow> ('m, 'o, 'e) cached js_value" where
  "getCache C key s = cm_get C key s"

text \<open>The data handed to \<open>setCache\<close> here are objects, which are always truthy.\<close>

definition setCache ::
  "('s, 'm, 'o, 'e) protocol_cache \<Rightarrow> int \<Rightarrow> string \<Rightarrow> ('m, 'o, 'e) cached js_value \<Rightarrow> 's
    \<Rightarrow> ('m, 'o, 'e) cached js_value \<times> 's" where
  "setCache C ttl key data s = (data, if present data then cm_set C key data (Some ttl) s else s)"

definition getOrSet ::
  "('s, 'm, 'o, 'e) protocol_cache \<Rightarrow> int \<Rightarrow> string \<Rightarrow> ('s \<Rightarrow> ('x + ('m, 'o, 'e) cached js_value) \<times> 's) \<Rightarrow> 's
    \<Rightarrow> ('x + ('m, 'o, 'e) cached js_value) \<times> 's" where
  "getOrSet C ttl key callback s =
     (let cached = getCache C key s in
      if present cached then (Inr cached, s)
      else (case callback s of
          (Inl e, s') \<Rightarrow> (Inl e, s')
        | (Inr data, s') \<Rightarrow> (Inr data, snd (setCache C ttl key data s'))))"

definition cacheIfErrorFree ::
  "('s, 'm, 'o, 'e) protocol_cache \<Rightarrow> int \<Rightarrow> string \<Rightarrow> ('o, 'e) pool_response \<Rightarrow> 's
    \<Rightarrow> ('o, 'e) pool_response \<times> 's" where
  "cacheIfErrorFree C cacheTime cacheKey r s =
     (if pr_errors r \<noteq> [] then (r, s) else (r, snd (setCache C cacheTime cacheKey (Val (Hydrated r)) s)))"

definition hydratedKey :: "meta \<Rightarrow> string" where
  "hydratedKey M = protocolId M @ ''_hydrated_pool_list''"

text \<open>
  The pools that the cache still holds for a list of identifiers: absent entries are filtered out.
  (A value of another kind under such a key does not occur; it is read as absent.)
\<close>

definition cachedPools :: "('s, 'm, 'o, 'e) protocol_cache \<Rightarrow> meta \<Rightarrow> string list \<Rightarrow> 's \<Rightarrow> 'm minimal_pool option list" where
  "cachedPools C M list s =
     concat (map (\<lambda>v. case v of Val (Pool p) \<Rightarrow> [Some p] | _ \<Rightarrow> []) (cm_mget C (map (singlePoolCacheKey M) list) s))"

definition cachedPoolList :: "('s, 'm, 'o, 'e) protocol_cache \<Rightarrow> meta \<Rightarrow> 's \<Rightarrow> string list" where
  "cachedPoolList C M s = (case cm_get C (poolListCacheKey M) s of Val (PoolList list) \<Rightarrow> list | _ \<Rightarrow> [])"

definition fetchOnDemand ::
  "('s, 'm, 'o, 'e) protocol_cache \<Rightarrow> meta \<Rightarrow> ('s \<Rightarrow> ('e failure + 'm minimal_pool option list) \<times> 's)
    \<Rightarrow> ('m minimal_pool option list \<Rightarrow> 's \<Rightarrow> ('o, 'e) pool_response \<times> 's) \<Rightarrow> 's
    \<Rightarrow> ('e failure + ('o, 'e) pool_response) \<times> 's" where
  "fetchOnDemand C M fetch hydrate s =
     (case cachePoolData C M fetch s of
        (Inl e, s') \<Rightarrow> (Inl e, s')
      | (Inr pools, s') \<Rightarrow>
          (let (r, s'') = hydrate pools s'; (r', s3) = cacheIfErrorFree C 60 (hydratedKey M) r s''
           in (Inr r', s3)))"

definition getPoolData ::
  "('s, 'm, 'o, 'e) protocol_cache \<Rightarrow> meta \<Rightarrow> ('s \<Rightarrow> ('e failure + 'm minimal_pool option list) \<times> 's)
    \<Rightarrow> ('m minimal_pool option list \<Rightarrow> 's \<Rightarrow> ('o, 'e) pool_response \<times> 's) \<Rightarrow> 's
    \<Rightarrow> ('e failure + ('o, 'e) pool_response) \<times> 's" where
  "getPoolData C M fetch hydrate s =
     (case getCache C (hydratedKey M) s of
        Val (Hydrated cachedData) \<Rightarrow> (Inr cachedData, s)
      | _ \<Rightarrow>
          (let list = cachedPoolList C M s in
           if list = [] then fetchOnDemand C M fetch hydrate s
           else (let pools = cachedPools C M list s in
             if length list \<noteq> length pools then fetchOnDemand C M fetch hydrate s
             else (let (r, s') = hydrate pools s; (r', s'') = cacheIfErrorFree C 60 (hydratedKey M) r s'
                   in (Inr r', s'')))))"

definition enforcePool :: "('m, 'f, 'r) opportunity \<Rightarrow> ('m, 'f, 'r) opportunity" where
  "enforcePool pool =
     (let p1 = (case op_supply pool of None \<Rightarrow> pool
            | Some f \<Rightarrow> pool \<lparr> op_supplied := Some [f], op_supply := None \<rparr>);
          p2 = (case op_reward p1 of None \<Rightarrow> p1
            | Some f \<Rightarrow> p1 \<lparr> op_rewarded := Some [f], op_reward := None \<rparr>)
      in (case op_borrow p2 of None \<Rightarrow> p2
            | Some f \<Rightarrow> p2 \<lparr> op_borrowed := Some [f], op_borrow := None \<rparr>))"

definition enforceTokenArrayOutput :: "('m, 'f, 'r) opportunity list \<Rightarrow> ('m, 'f, 'r) opportunity list" where
  "enforceTokenArrayOutput pools = map enforcePool pools"

definition getFormattedPoolData ::
  "('s \<Rightarrow> ('e failure + (('m, 'f, 'r) opportunity, 'e) pool_response) \<times> 's) \<Rightarrow> 's
    \<Rightarrow> ('e failure + (('m, 'f, 'r) opportunity, 'e) pool_response) \<times> 's" where
  "getFormattedPoolData poolData s = (case poolData s of
     (Inl e, s') \<Rightarrow> (Inl e, s')
   | (Inr r, s') \<Rightarrow> (Inr \<lparr> pr_data = enforceTokenArrayOutput (pr_data r), pr_errors = pr_errors r \<rparr>, s'))"

section \<open>Formatting a pool\<close>

record 'n num_ops =
  n_zero :: 'n
  n_of :: "int \<Rightarrow> 'n"
  n_add :: "'n \<Rightarrow> 'n \<Rightarrow> 'n"
  n_mul :: "'n \<Rightarrow> 'n \<Rightarrow> 'n"
  n_div :: "'n \<Rightarrow> 'n \<Rightarrow> 'n"
  n_truthy :: "'n \<Rightarrow> bool"

record ('n, 'x) erc20_token =
  tk_price :: 'n
  tk_decimals :: int
  tk_underlying :: "string list option"
  tk_other :: 'x

text \<open>The overridable methods of the class that format one token or make a link.\<close>

record ('m, 'n, 'x, 'f) formatters =
  fmtSupplied :: "token_item \<Rightarrow> ('n, 'x) erc20_token \<Rightarrow> 'f"
  fmtRewarded :: "token_item \<Rightarrow> ('n, 'x) erc20_token \<Rightarrow> 'n \<Rightarrow> 'f"
  fmtBorrowed :: "token_item \<Rightarrow> ('n, 'x) erc20_token \<Rightarrow> 'f"
  linkOf :: "('m minimal_pool \<Rightarrow> string) option"

type_synonym ('n, 'x) token_map = "(string option, ('n, 'x) erc20_token) js_map"

definition generateLinks :: "('m, 'n, 'x, 'f) formatters \<Rightarrow> 'm minimal_pool \<Rightarrow> string option" where
  "generateLinks F p = (case linkOf F of None \<Rightarrow> None | Some getOpportunityLink \<Rightarrow> Some (getOpportunityLink p))"

definition formatOpportunityReceiptToken :: "('n, 'x) erc20_token option \<Rightarrow> ('n, 'x) erc20_token option" where
  "formatOpportunityReceiptToken token = (case token of None \<Rightarrow> None | Some t \<Rightarrow> Some (t \<lparr> tk_underlying := None \<rparr>))"

text \<open>\<open>token.price\<close> of an absent token throws.\<close>

definition getTokenPositionTVL ::
  "'n num_ops \<Rightarrow> (string \<Rightarrow> int \<Rightarrow> 'n) \<Rightarrow> ('n, 'x) erc20_token option \<Rightarrow> string option \<Rightarrow> 'e failure + 'n" where
  "getTokenPositionTVL N normalizeDecimals token amount = (case token of
     None \<Rightarrow> Inl TypeError
   | Some t \<Rightarrow> (case amount of
       None \<Rightarrow> Inr (n_zero N)
     | Some tot \<Rightarrow>
         if \<not> n_truthy N (tk_price t) \<or> tot = [] then Inr (n_zero N)
         else Inr (n_mul N (tk_price t) (normalizeDecimals tot (tk_decimals t)))))"

definition getOpportunityTVL ::
  "'n num_ops \<Rightarrow> (string \<Rightarrow> int \<Rightarrow> 'n) \<Rightarrow> 'm minimal_pool \<Rightarrow> ('n, 'x) token_map \<Rightarrow> 'e failure + 'n" where
  "getOpportunityTVL N normalizeDecimals p tokens = (case mp_supplied p of
     Some items \<Rightarrow> sum_foldl (\<lambda>tvl position. sum_bind
         (getTokenPositionTVL N normalizeDecimals (js_get tokens (Some (tr_address (ti_token position)))) (ti_total position))
         (\<lambda>v. Inr (n_add N tvl v))) (n_zero N) items
   | None \<Rightarrow> (case mp_supply p of
       Some item \<Rightarrow> getTokenPositionTVL N normalizeDecimals
         (js_get tokens (Some (tr_address (ti_token item)))) (ti_total item)
     | None \<Rightarrow> Inr (n_zero N)))"

definition tokenFor :: "('n, 'x) token_map \<Rightarrow> token_item \<Rightarrow> 'e failure + ('n, 'x) erc20_token" where
  "tokenFor tokens item = (case js_get tokens (Some (tr_address (ti_token item))) of
     None \<Rightarrow> Inl (MissingToken (ti_token item))
   | Some token \<Rightarrow> Inr token)"

text \<open>One kind of tokens: the array of them, or else the single one, or else none.\<close>

definition formatFeature ::
  "('n, 'x) token_map \<Rightarrow> (token_item \<Rightarrow> ('n, 'x) erc20_token \<Rightarrow> 'f) \<Rightarrow> token_item list option \<Rightarrow> token_item option
    \<Rightarrow> 'e failure + ('f list option \<times> 'f option)" where
  "formatFeature tokens fmt multi single = (case multi of
     Some items \<Rightarrow> sum_bind (sum_map (\<lambda>item. sum_bind (tokenFor tokens item) (\<lambda>t. Inr (fmt item t))) items)
       (\<lambda>fs. Inr (Some fs, None))
   | None \<Rightarrow> (case single of
       Some item \<Rightarrow> sum_bind (tokenFor tokens item) (\<lambda>t. Inr (None, Some (fmt item t)))
     | None \<Rightarrow> Inr (None, None)))"

definition formatOpportunity ::
  "'n num_ops \<Rightarrow> (string \<Rightarrow> int \<Rightarrow> 'n) \<Rightarrow> ('m, 'n, 'x, 'f) formatters \<Rightarrow> ('n, 'x) token_map \<Rightarrow> 'm minimal_pool option
    \<Rightarrow> 'e failure + ('m, 'f, ('n, 'x) erc20_token) opportunity option" where
  "formatOpportunity N normalizeDecimals F tokens opp = (case opp of
     None \<Rightarrow> Inl TypeError
   | Some p \<Rightarrow>
       sum_bind (formatFeature tokens (fmtSupplied F) (mp_supplied p) (mp_supply p)) (\<lambda>(supplied, supply).
       sum_bind (getOpportunityTVL N normalizeDecimals p tokens) (\<lambda>tvl.
       sum_bind (formatFeature tokens (\<lambda>i t. fmtRewarded F i t tvl) (mp_rewarded p) (mp_reward p)) (\<lambda>(rewarded, reward).
       sum_bind (formatFeature tokens (fmtBorrowed F) (mp_borrowed p) (mp_borrow p)) (\<lambda>(borrowed, borrow).
       Inr (Some \<lparr> op_id = mp_id p, op_link = generateLinks F p,
         op_token = formatOpportunityReceiptToken (js_get tokens (mp_id p)),
         op_supplied = supplied, op_supply = supply, op_borrowed = borrowed, op_borrow = borrow,
         op_rewarded = rewarded, op_reward = reward, op_other = mp_other p \<rparr>))))))"

section \<open>Yield\<close>

record 'n timeframes =
  tf_day :: 'n
  tf_week :: 'n
  tf_month :: 'n
  tf_year :: 'n

definition orZero :: "'n num_ops \<Rightarrow> 'n \<Rightarrow> 'n" where
  "orZero N x = (if n_truthy N x then x else n_zero N)"

definition getYieldBreakdown ::
  "'n num_ops \<Rightarrow> ('n \<Rightarrow> 'n \<Rightarrow> 'n) \<Rightarrow> 'n \<Rightarrow> 'n \<Rightarrow> 'n timeframes \<times> 'n timeframes" where
  "getYieldBreakdown N aprToApy perSecond ratio =
     (let perDay = n_mul N (n_mul N (n_mul N perSecond (n_of N 60)) (n_of N 60)) (n_of N 24);
          apr = \<lparr> tf_day = orZero N (n_div N perDay ratio),
                  tf_week = orZero N (n_div N (n_mul N perDay (n_of N 7)) ratio),
                  tf_month = orZero N (n_div N (n_div N (n_mul N perDay (n_of N 365)) (n_of N 12)) ratio),
                  tf_year = orZero N (n_div N (n_mul N perDay (n_of N 365)) ratio) \<rparr>
      in (apr, \<lparr> tf_day = orZero N (aprToApy (tf_day apr) (n_of N 1)),
                 tf_week = orZero N (aprToApy (tf_week apr) (n_of N 7)),
                 tf_month = orZero N (aprToApy (tf_month apr) (n_div N (n_of N 365) (n_of N 12))),
                 tf_year = orZero N (aprToApy (tf_year apr) (n_of N 365)) \<rparr>))"

definition getHarvestBreakdown ::
  "'n num_ops \<Rightarrow> ('n \<Rightarrow> 'n \<Rightarrow> 'n) \<Rightarrow> 'n \<Rightarrow> 'n timeframes \<times> 'n timeframes" where
  "getHarvestBreakdown N aprToApy perSecond = getYieldBreakdown N aprToApy perSecond (n_of N 1)"

definition formatOpportunitySuppliedToken ::
  "'n num_ops \<Rightarrow> (string option \<Rightarrow> int \<Rightarrow> 'n) \<Rightarrow> (token_item \<Rightarrow> 'a) option \<Rightarrow> token_item \<Rightarrow> ('n, 'x) erc20_token
    \<Rightarrow> ('n, 'x) erc20_token \<times> 'a option \<times> 'n" where
  "formatOpportunitySuppliedToken N normalizeDecimals formatSupplyApy supplied token =
     (let totalSupplied = normalizeDecimals (ti_total supplied) (tk_decimals token);
          apy = (case formatSupplyApy of None \<Rightarrow> None | Some f \<Rightarrow> Some (f supplied))
      in (token, apy, n_mul N totalSupplied (tk_price token)))"

definition formatOpportunityBorrowedToken ::
  "'n num_ops \<Rightarrow> (string option \<Rightarrow> int \<Rightarrow> 'n) \<Rightarrow> (token_item \<Rightarrow> 'a) option \<Rightarrow> token_item \<Rightarrow> ('n, 'x) erc20_token
    \<Rightarrow> ('n, 'x) erc20_token \<times> 'a option \<times> 'n" where
  "formatOpportunityBorrowedToken N normalizeDecimals formatBorrowApy borrowed token =
     (let totalBorrowed = normalizeDecimals (ti_total borrowed) (tk_decimals token);
          tvl = n_mul N totalBorrowed (tk_price token);
          apy = (case formatBorrowApy of None \<Rightarrow> None | Some f \<Rightarrow> Some (f borrowed))
      in (token, apy, tvl))"

definition formatOpportunityRewardedToken ::
  "'n num_ops \<Rightarrow> (string option \<Rightarrow> int \<Rightarrow> 'n) \<Rightarrow> ('n \<Rightarrow> 'n \<Rightarrow> 'n) \<Rightarrow> token_item \<Rightarrow> ('n, 'x) erc20_token \<Rightarrow> 'n
    \<Rightarrow> ('n, 'x) erc20_token \<times> 'n timeframes \<times> 'n timeframes \<times> 'n timeframes" where
  "formatOpportunityRewardedToken N normalizeDecimals aprToApy poolToken token tvl =
     (let tokensPerSecond = normalizeDecimals (ti_total poolToken) (tk_decimals token);
          pricePerSecond = n_mul N tokensPerSecond (tk_price token);
          harvests = fst (getHarvestBreakdown N aprToApy tokensPerSecond);
          (apr, apy) = getYieldBreakdown N aprToApy pricePerSecond tvl
      in (token, harvests, apr, apy))"

section \<open>Positions of users\<close>

text \<open>
  The requests for the addresses run at once; \<open>order\<close> lists the positions of the addresses in the order in
  which the requests complete.  \<open>fetchUserData\<close> is the outcome of the request for an address
  (an absent position in its list is \<open>None\<close>), or is not implemented.
\<close>

definition completeUser ::
  "(string \<Rightarrow> 'e failure + 'u option list) option \<Rightarrow> string list
    \<Rightarrow> (string, 'u list) js_map \<times> 'e failure list \<Rightarrow> nat \<Rightarrow> (string, 'u list) js_map \<times> 'e failure list" where
  "completeUser fetchUserData addresses acc i =
     (let (results, errors) = acc; address = addresses ! i in
      case fetchUserData of
        None \<Rightarrow> (results, errors)
      | Some fetch \<Rightarrow> (case fetch address of
          Inl err \<Rightarrow> (results, errors @ [err])
        | Inr userPools \<Rightarrow>
            (let filteredPools = concat (map (\<lambda>d. case d of None \<Rightarrow> [] | Some u \<Rightarrow> [u]) userPools) in
             if filteredPools = [] then (results, errors)
             else (js_put results address ((case js_get results address of None \<Rightarrow> [] | Some l \<Rightarrow> l) @ filteredPools), errors))))"

definition getUsersData ::
  "nat list \<Rightarrow> (string \<Rightarrow> 'o list \<Rightarrow> 'e failure + 'u option list) option \<Rightarrow> string list
    \<Rightarrow> 'e failure + ('o, 'e) pool_response \<Rightarrow> 'e failure + ((string, 'u list) js_map \<times> 'e failure list)" where
  "getUsersData order fetchUserData addresses poolData = sum_bind poolData (\<lambda>r.
     Inr (foldl (completeUser (map_option (\<lambda>f a. f a (pr_data r)) fetchUserData) addresses)
       (newMap (map (\<lambda>a. (a, [])) addresses), pr_errors r) order))"

section \<open>Facts on the pools in the cache\<close>

lemma collectPool_step:
  "collectPool M (l, c, w) p = (case poolIdent p of
     Some i \<Rightarrow> (l @ [i], c @ [MKey (singlePoolCacheKey M i), MVal (Val (Pool (the p)))], w)
   | None \<Rightarrow> (l, c, w @ [p]))"
  by (simp add: collectPool_def)

lemma collectPool_foldl:
  "foldl (collectPool M) (l, c, w) pools =
    (l @ concat (map (\<lambda>p. case poolIdent p of Some i \<Rightarrow> [i] | None \<Rightarrow> []) pools),
     c @ mset_items (concat (map (\<lambda>p. case poolIdent p of Some i \<Rightarrow> [(singlePoolCacheKey M i, Val (Pool (the p)))] | None \<Rightarrow> []) pools)),
     w @ filter (\<lambda>p. poolIdent p = None) pools)"
proof (induction pools arbitrary: l c w)
  case (Cons p pools)
  have app: "mset_items (a @ b) = mset_items a @ mset_items b" for a b :: "(string \<times> ('a, 'b, 'c) cached js_value) list"
    by (induction a rule: mset_items.induct) simp_all
  show ?case by (cases "poolIdent p") (simp_all add: collectPool_step Cons app)
qed simp

definition poolKeys :: "'m minimal_pool option list \<Rightarrow> string list" where
  "poolKeys pools = concat (map (\<lambda>p. case poolIdent p of Some i \<Rightarrow> [i] | None \<Rightarrow> []) pools)"

definition poolEntries :: "meta \<Rightarrow> 'm minimal_pool option list \<Rightarrow> (string \<times> ('m, 'o, 'e) cached js_value) list" where
  "poolEntries M pools = concat (map (\<lambda>p. case poolIdent p of
     Some i \<Rightarrow> [(singlePoolCacheKey M i, Val (Pool (the p)))] | None \<Rightarrow> []) pools)"

lemma cachePoolData_state:
  assumes "cache_store C" "fetch s = (Inr pools, s')"
  shows "cachePoolData C M fetch s = (Inr pools, foldl (\<lambda>s (k, v). cm_set C k v (Some longestCacheTtl) s) s'
    ((poolListCacheKey M, Val (PoolList (poolKeys pools))) # poolEntries M pools))"
  using cache_store.mset[OF assms(1), of "(poolListCacheKey M, Val (PoolList (poolKeys pools))) # poolEntries M pools"]
  by (simp add: cachePoolData_def assms(2) collectPool_foldl poolKeys_def poolEntries_def)

lemma map_of_poolEntries:
  fixes pools :: "'m minimal_pool option list"
  shows "distinct (poolKeys pools) \<Longrightarrow> p \<in> set pools \<Longrightarrow> poolIdent p = Some i \<Longrightarrow>
    map_of (rev (poolEntries M pools)) (singlePoolCacheKey M i) = Some (Val (Pool (the p) :: ('m, 'o, 'e) cached))"
proof (induction pools)
  case (Cons q pools)
  let ?entries = "poolEntries M :: 'm minimal_pool option list \<Rightarrow> (string \<times> ('m, 'o, 'e) cached js_value) list"
  have keys: "map fst (?entries qs) = map (singlePoolCacheKey M) (poolKeys qs)" for qs
    by (induction qs) (auto simp: poolEntries_def poolKeys_def split: option.split)
  have split: "map_of (rev (?entries (q # pools))) k = (case map_of (rev (?entries pools)) k of
      Some v \<Rightarrow> Some v | None \<Rightarrow> map_of (?entries [q]) k)" for k
    by (auto simp: poolEntries_def map_add_def split: option.split)
  have inj: "singlePoolCacheKey M i = singlePoolCacheKey M j \<Longrightarrow> i = j" for i j by (simp add: singlePoolCacheKey_def)
  show ?case
  proof (cases "p \<in> set pools")
    case True
    then show ?thesis using Cons by (simp add: split poolKeys_def split: option.splits)
  next
    case False
    then have q: "p = q" using Cons.prems by simp
    have "i \<notin> set (poolKeys pools)" using Cons.prems q by (simp add: poolKeys_def)
    then have "singlePoolCacheKey M i \<notin> fst ` set (?entries pools)"
      using keys[of pools] inj by (metis image_iff list.set_map)
    then have "map_of (rev (?entries pools)) (singlePoolCacheKey M i) = None"
      by (simp add: map_of_eq_None_iff)
    then show ?thesis using q Cons.prems(3) by (simp add: split) (simp add: poolEntries_def)
  qed
qed simp

text \<open>No key of a pool is the key of a pool list: the former begin with a number.\<close>

lemma show_int_head: "0 \<le> n \<Longrightarrow> show_int n \<noteq> [] \<and> hd (show_int n) \<in> set ''0123456789''"
proof -
  assume "0 \<le> n"
  then have "show_int n = decimal (nat n)" by (simp add: show_int_def)
  moreover have "hd (decimal (nat n)) \<in> digit ` {..<10}" using set_decimal[of "nat n"] hd_in_set[OF decimal_not_Nil] by blast
  ultimately show ?thesis using digit_range by (metis decimal_not_Nil imageE lessThan_iff)
qed

lemma pool_key_not_list: "0 \<le> metaChain M \<Longrightarrow> singlePoolCacheKey M i \<noteq> poolListCacheKey N"
proof
  assume "0 \<le> metaChain M" and eq: "singlePoolCacheKey M i = poolListCacheKey N"
  then have h: "show_int (metaChain M) \<noteq> []" "hd (show_int (metaChain M)) \<in> set ''0123456789''"
    using show_int_head by auto
  have "hd (singlePoolCacheKey M i) = hd (show_int (metaChain M))" using h(1) by (simp add: singlePoolCacheKey_def)
  moreover have "hd (poolListCacheKey N) = CHR ''p''" by (simp add: poolListCacheKey_def)
  ultimately have "CHR ''p'' \<in> set ''0123456789''" using eq h(2) by metis
  then show False by simp
qed

lemma cached_after:
  fixes C :: "('s, 'm, 'o, 'e) protocol_cache"
  assumes C: "cache_store C" and chain: "0 \<le> metaChain M"
    and fetch: "fetch s = (Inr pools, s')" and ids: "distinct (poolKeys pools)"
    and cached: "cachePoolData C M fetch s = (r, t)"
  shows "cachedPoolList C M t = poolKeys pools"
    and "cachedPools C M (poolKeys pools) t = filter (\<lambda>p. poolIdent p \<noteq> None) pools"
proof -
  let ?kvs = "(poolListCacheKey M, Val (PoolList (poolKeys pools))) # poolEntries M pools"
  have t: "t = foldl (\<lambda>s (k, v). cm_set C k v (Some longestCacheTtl) s) s' ?kvs"
    using cachePoolData_state[where C = C and fetch = fetch and s = s and M = M, OF C fetch] cached by simp
  have get: "cm_get C k t = (case map_of (rev ?kvs) k of Some v \<Rightarrow> v | None \<Rightarrow> cm_get C k s')" for k
    unfolding t by (rule cache_store.get_foldl[OF C])
  have "poolListCacheKey M \<notin> fst ` set (poolEntries M pools :: (string \<times> ('m, 'o, 'e) cached js_value) list)"
    using pool_key_not_list[OF chain]
    by (auto simp: poolEntries_def split: option.splits dest: sym)
  then have none: "map_of (rev (poolEntries M pools :: (string \<times> ('m, 'o, 'e) cached js_value) list)) (poolListCacheKey M) = None"
    by (simp add: map_of_eq_None_iff)
  show "cachedPoolList C M t = poolKeys pools" by (simp add: cachedPoolList_def get map_add_def none)
  have one: "cm_get C (singlePoolCacheKey M i) t = Val (Pool (the p))" if "p \<in> set pools" "poolIdent p = Some i" for p i
    by (simp add: get map_add_def map_of_poolEntries[OF ids that])
  have "set qs \<subseteq> set pools \<Longrightarrow> concat (map (\<lambda>v. case v of Val (Pool p) \<Rightarrow> [Some p] | _ \<Rightarrow> [])
      (map (\<lambda>k. cm_get C k t) (map (singlePoolCacheKey M) (poolKeys qs)))) = filter (\<lambda>p. poolIdent p \<noteq> None) qs" for qs
  proof (induction qs)
    case (Cons q qs)
    then show ?case
      by (cases "poolIdent q") (auto simp: poolKeys_def one poolIdent_def split: option.splits)
  qed (simp add: poolKeys_def)
  then show "cachedPools C M (poolKeys pools) t = filter (\<lambda>p. poolIdent p \<noteq> None) pools"
    by (simp add: cachedPools_def cache_store.mget[OF C])
qed

lemma length_poolKeys: "length (poolKeys pools) = length (filter (\<lambda>p. poolIdent p \<noteq> None) pools)"
  by (induction pools) (auto simp: poolKeys_def split: option.split)

text \<open>C25: What \<open>cachePoolData\<close> stored is what a later request reads: while no hydrated answer is
  cached, \<open>getPoolData\<close> completes exactly the identified pools of the protocol, in their order, without fetching
  them again.\<close>

theorem getPoolData_reads_cached_pools:
  assumes "cache_store C" "0 \<le> metaChain M" "fetch s = (Inr pools, s')" "distinct (poolKeys pools)" "poolKeys pools \<noteq> []"
    and "cachePoolData C M fetch s = (r, t)" "cm_get C (hydratedKey M) t = Undef"
  shows "getPoolData C M fetch2 hydrate t =
    (let (a, u) = hydrate (filter (\<lambda>p. poolIdent p \<noteq> None) pools) t in
       (Inr a, snd (cacheIfErrorFree C 60 (hydratedKey M) a u)))"
  using cached_after[where C = C and M = M and fetch = fetch and s = s and t = t, OF assms(1-4,6)] assms(5,7) length_poolKeys[of pools]
  by (simp add: getPoolData_def getCache_def cacheIfErrorFree_def split: prod.split)

text \<open>An answer without errors is served from the cache the next time, unchanged and without
  touching the pools; an answer with errors is not cached.\<close>

theorem getPoolData_served_again:
  assumes "cache_store C" "getPoolData C M fetch hydrate s = (Inr r, s')"
    and "\<And>ps s. cm_get C (hydratedKey M) (snd (hydrate ps s)) = Undef" "cm_get C (hydratedKey M) s = Undef"
  shows "if pr_errors r = [] then getPoolData C M fetch2 hydrate2 s' = (Inr r, s')
    else cm_get C (hydratedKey M) s' = Undef"
proof -
  have fin: "cm_get C (hydratedKey M) s' = (if pr_errors r = [] then Val (Hydrated r) else Undef)"
    if "cacheIfErrorFree C 60 (hydratedKey M) a (snd (hydrate ps u)) = (r, s')" for a ps u
    using that assms(3) by (auto simp: cacheIfErrorFree_def setCache_def cache_store.get_set[OF assms(1)] split: if_splits)
  have demand: "cm_get C (hydratedKey M) s' = (if pr_errors r = [] then Val (Hydrated r) else Undef)"
    if "fetchOnDemand C M fetch hydrate s = (Inr r, s')"
    using that fin by (auto simp: fetchOnDemand_def Let_def split: prod.splits sum.splits) (metis snd_conv)+
  have "cm_get C (hydratedKey M) s' = (if pr_errors r = [] then Val (Hydrated r) else Undef)"
    using assms(2,4) demand fin
    by (auto simp: getPoolData_def getCache_def Let_def split: prod.splits if_splits) (metis snd_conv)+
  then show ?thesis by (simp add: getPoolData_def getCache_def)
qed

text \<open>The key of a pool names the chain but not the protocol: when two protocols of one chain
  know pools under one identifier, the one that was cached later is read by both.\<close>

theorem pool_keys_collide:
  assumes "cache_store C" "metaChain M = metaChain N" "0 \<le> metaChain M"
    and "cachePoolData C M fetch s = (r, t)"
    and "fetchN t = (Inr pools, t)" "distinct (poolKeys pools)" "p \<in> set pools" "poolIdent p = Some i"
    and "cachePoolData C N fetchN t = (r', u)"
  shows "cachedPools C M [i] u = [p]"
proof -
  have key: "singlePoolCacheKey M i = singlePoolCacheKey N i" by (simp add: singlePoolCacheKey_def assms(2))
  have "u = foldl (\<lambda>s (k, v). cm_set C k v (Some longestCacheTtl) s) t
      ((poolListCacheKey N, Val (PoolList (poolKeys pools))) # poolEntries N pools)"
    using cachePoolData_state[where C = C and fetch = fetchN and s = t and M = N, OF assms(1,5)] assms(9) by simp
  then have "cm_get C (singlePoolCacheKey M i) u = Val (Pool (the p))"
    by (simp add: cache_store.get_foldl[OF assms(1)] key map_add_def map_of_poolEntries[OF assms(6,7,8)] del: foldl.simps)
  moreover have "p \<noteq> None" using assms(8) by (cases p) (simp_all add: poolIdent_def)
  ultimately show ?thesis by (auto simp: cachedPools_def cache_store.mget[OF assms(1)])
qed

section \<open>Facts on completing the pools\<close>

fun quiet :: "'e failure \<Rightarrow> bool" where
  "quiet MissingOpportunity = True"
| "quiet (MissingToken t) = True"
| "quiet err = False"

lemma hydratePool_foldl:
  "foldl (hydratePool fmt) acc ps = \<lparr>
     pr_data = pr_data acc @ concat (map (\<lambda>p. case fmt p of Inr (Some o') \<Rightarrow> [o'] | _ \<Rightarrow> []) ps),
     pr_errors = pr_errors acc @ concat (map (\<lambda>p. case fmt p of Inl err \<Rightarrow> if quiet err then [] else [err] | _ \<Rightarrow> []) ps) \<rparr>"
proof (induction ps arbitrary: acc)
  case (Cons p ps)
  then show ?case
    by (auto simp: hydratePool_def Let_def split: sum.splits option.splits failure.splits)
qed simp

text \<open>Completing the pools never throws.  Its data are the pools that could be formatted, in
  their order; its errors are the failure of the update or of the token service, then those of
  formatting, except the failures for a missing token or pool, which are only logged.\<close>

theorem hydrateOpportunityData_partition:
  "fst (hydrateOpportunityData M getAssets upd fmt pools s) =
    (case getTokensForOpportunities M getAssets pools s of
       (Inl e, _) \<Rightarrow> \<lparr> pr_data = [], pr_errors = [e] \<rparr>
     | (Inr tokens, s1) \<Rightarrow>
        (let outcome = (case upd of None \<Rightarrow> Inr (Some pools) | Some f \<Rightarrow> fst (f pools tokens s1));
             ps = (case outcome of Inr (Some qs) \<Rightarrow> qs | _ \<Rightarrow> pools)
         in \<lparr> pr_data = concat (map (\<lambda>p. case fmt tokens p of Inr (Some o') \<Rightarrow> [o'] | _ \<Rightarrow> []) ps),
              pr_errors = (case outcome of Inl e \<Rightarrow> [e] | _ \<Rightarrow> []) @
                concat (map (\<lambda>p. case fmt tokens p of Inl err \<Rightarrow> if quiet err then [] else [err] | _ \<Rightarrow> []) ps) \<rparr>))"
  by (auto simp: hydrateOpportunityData_def hydratePool_foldl Let_def split: prod.splits sum.splits option.splits)


section \<open>Facts on the positions of users\<close>

lemma newMap_snoc: "newMap (kvs @ [(k, v)]) = js_put (newMap kvs) k v"
  by (simp add: newMap_def)

lemma newMap_get: "js_get (newMap kvs) k = map_of (rev kvs) k"
  by (induction kvs rule: rev_induct) (auto simp: newMap_snoc newMap_def)

definition positionsOf :: "(string \<Rightarrow> 'e failure + 'u option list) \<Rightarrow> string \<Rightarrow> 'u list" where
  "positionsOf fetch a = (case fetch a of Inl _ \<Rightarrow> [] | Inr ps \<Rightarrow> concat (map (\<lambda>d. case d of None \<Rightarrow> [] | Some u \<Rightarrow> [u]) ps))"

definition failureOf :: "(string \<Rightarrow> 'e failure + 'u option list) \<Rightarrow> string \<Rightarrow> 'e failure list" where
  "failureOf fetch a = (case fetch a of Inl e \<Rightarrow> [e] | Inr _ \<Rightarrow> [])"

lemma completeUser_step:
  "completeUser (Some fetch) as (results, errors) i =
    (if positionsOf fetch (as ! i) = [] then results
     else js_put results (as ! i) ((case js_get results (as ! i) of None \<Rightarrow> [] | Some l \<Rightarrow> l) @ positionsOf fetch (as ! i)),
     errors @ failureOf fetch (as ! i))"
  by (auto simp: completeUser_def positionsOf_def failureOf_def Let_def split: sum.splits)

lemma completeUser_foldl:
  assumes "distinct order" "set order \<subseteq> {..<length as}" "distinct as" "\<forall>a \<in> set as. js_get results a \<noteq> None"
  shows "\<exists>m. foldl (completeUser (Some fetch) as) (results, errors) order = (m, errors @ concat (map (\<lambda>i. failureOf fetch (as ! i)) order))
    \<and> (\<forall>a. js_get m a = (if a \<in> (!) as ` set order then map_option (\<lambda>l. l @ positionsOf fetch a) (js_get results a) else js_get results a))"
  using assms
proof (induction order arbitrary: results errors)
  case (Cons i order)
  let ?r = "if positionsOf fetch (as ! i) = [] then results
     else js_put results (as ! i) ((case js_get results (as ! i) of None \<Rightarrow> [] | Some l \<Rightarrow> l) @ positionsOf fetch (as ! i))"
  have i: "i < length as" "as ! i \<in> set as" using Cons.prems(2) by auto
  have keep: "\<forall>a \<in> set as. js_get ?r a \<noteq> None" using Cons.prems(4) by simp
  have other: "as ! i \<notin> (!) as ` set order"
    using Cons.prems(1,2,3) i by (auto simp: nth_eq_iff_index_eq)
  obtain m where m: "foldl (completeUser (Some fetch) as) (?r, errors @ failureOf fetch (as ! i)) order =
      (m, (errors @ failureOf fetch (as ! i)) @ concat (map (\<lambda>i. failureOf fetch (as ! i)) order))"
    "\<forall>a. js_get m a = (if a \<in> (!) as ` set order then map_option (\<lambda>l. l @ positionsOf fetch a) (js_get ?r a) else js_get ?r a)"
    using Cons.IH[OF _ _ Cons.prems(3) keep, of "errors @ failureOf fetch (as ! i)"] Cons.prems(1,2) by auto
  have "js_get m a = (if a \<in> (!) as ` set (i # order) then map_option (\<lambda>l. l @ positionsOf fetch a) (js_get results a)
      else js_get results a)" for a
    using m(2) other Cons.prems(4) i(2) by (cases "a = as ! i") (auto split: option.splits)
  then show ?case using m(1) by (simp add: completeUser_step)
qed simp

lemma mset_concat_map: "mset xs = mset ys \<Longrightarrow> mset (concat (map g xs)) = mset (concat (map g ys))"
proof -
  have "mset (concat (map g zs)) = \<Sum>\<^sub># (image_mset (\<lambda>x. mset (g x)) (mset zs))" for zs
    by (induction zs) simp_all
  then show "mset xs = mset ys \<Longrightarrow> mset (concat (map g xs)) = mset (concat (map g ys))" by simp
qed

text \<open>Whatever the order in which the requests for the users complete, each of the (distinct)
  addresses gets exactly the positions that its own request found, and the errors are those of the pools followed by
  those of the failed requests.\<close>

theorem getUsersData_order:
  fixes fetch :: "string \<Rightarrow> 'o list \<Rightarrow> 'e failure + 'u option list"
  assumes "distinct addresses" "mset order = mset [0..<length addresses]"
  shows "\<exists>m errors. getUsersData order (Some fetch) addresses (Inr r) = Inr (m, pr_errors r @ errors) \<and>
    (\<forall>a \<in> set addresses. js_get m a = Some (positionsOf (\<lambda>a. fetch a (pr_data r)) a)) \<and>
    mset errors = mset (concat (map (failureOf (\<lambda>a. fetch a (pr_data r))) addresses))"
proof -
  let ?f = "\<lambda>a. fetch a (pr_data r)"
  have order: "distinct order" "set order = {..<length addresses}"
    using assms(2) mset_eq_setD[OF assms(2)] by (metis distinct_upt mset_eq_imp_distinct_iff) (auto simp: mset_eq_setD[OF assms(2)])
  have init: "js_get (newMap (map (\<lambda>a. (a, [] :: 'u list)) addresses)) a = (if a \<in> set addresses then Some [] else None)" for a
    by (induction addresses rule: rev_induct) (auto simp: newMap_snoc, simp add: newMap_def)
  have none: "\<forall>a \<in> set addresses. js_get (newMap (map (\<lambda>a. (a, [] :: 'u list)) addresses)) a \<noteq> None" using init by simp
  have sub: "set order \<subseteq> {..<length addresses}" using order(2) by simp
  obtain m where m: "foldl (completeUser (Some ?f) addresses) (newMap (map (\<lambda>a. (a, [] :: 'u list)) addresses), pr_errors r) order =
      (m, pr_errors r @ concat (map (\<lambda>i. failureOf ?f (addresses ! i)) order))"
    "\<forall>a. js_get m a = (if a \<in> (!) addresses ` set order
      then map_option (\<lambda>l. l @ positionsOf ?f a) (js_get (newMap (map (\<lambda>a. (a, [] :: 'u list)) addresses)) a)
      else js_get (newMap (map (\<lambda>a. (a, [] :: 'u list)) addresses)) a)"
    using completeUser_foldl[OF order(1) sub assms(1) none, of ?f "pr_errors r"] by blast
  have "(!) addresses ` set order = set addresses" unfolding order(2) by (auto simp: in_set_conv_nth)
  then have "\<forall>a \<in> set addresses. js_get m a = Some (positionsOf ?f a)" using m(2) init by simp
  moreover have "mset (concat (map (\<lambda>i. failureOf ?f (addresses ! i)) order)) = mset (concat (map (failureOf ?f) addresses))"
  proof -
    have "mset (concat (map g order)) = mset (concat (map g [0..<length addresses]))" for g :: "nat \<Rightarrow> 'e failure list"
      by (rule mset_concat_map[OF assms(2)])
    moreover have "map (\<lambda>i. failureOf ?f (addresses ! i)) [0..<length addresses] = map (failureOf ?f) addresses"
      by (rule nth_equalityI) simp_all
    ultimately show ?thesis by metis
  qed
  ultimately show ?thesis using m(1) by (simp add: getUsersData_def)
qed

section \<open>Facts on the output and the yield\<close>

definition array_form :: "('m, 'f, 'r) opportunity \<Rightarrow> bool" where
  "array_form p \<longleftrightarrow> op_supply p = None \<and> op_reward p = None \<and> op_borrow p = None"

lemma enforcePool_array: "array_form (enforcePool p)"
  by (simp add: enforcePool_def array_form_def Let_def split: option.split)

lemma enforcePool_id: "array_form p \<Longrightarrow> enforcePool p = p"
  by (simp add: enforcePool_def array_form_def)

lemma enforceTokenArrayOutput_idem:
  "enforceTokenArrayOutput (enforceTokenArrayOutput ps) = enforceTokenArrayOutput ps"
  by (simp add: enforceTokenArrayOutput_def enforcePool_id enforcePool_array)

lemma orZero_truthy: "n_truthy N (orZero N x) \<or> orZero N x = n_zero N"
  by (simp add: orZero_def)

lemma tokenFor_cases:
  "tokenFor tokens item = Inr t \<longleftrightarrow> js_get tokens (Some (tr_address (ti_token item))) = Some t"
  "tokenFor tokens item = Inl err \<longleftrightarrow> js_get tokens (Some (tr_address (ti_token item))) = None \<and> err = MissingToken (ti_token item)"
  by (auto simp: tokenFor_def split: option.split)

lemma sum_map_Inl: "sum_map f xs = Inl err \<Longrightarrow> \<exists>x \<in> set xs. f x = Inl err"
  by (induction xs) (auto simp: sum_bind_Inl_iff)

lemma formatFeature_Inl:
  "formatFeature tokens fmt multi single = Inl err \<Longrightarrow> \<exists>item :: token_item. err = MissingToken (ti_token item)
    \<and> js_get tokens (Some (tr_address (ti_token item))) = None"
  by (auto simp: formatFeature_def sum_bind_Inl_iff tokenFor_cases split: option.splits dest!: sum_map_Inl)

lemma formatFeature_known:
  "formatFeature tokens fmt multi single = Inr r \<Longrightarrow> multi = Some items \<Longrightarrow> item \<in> set items
    \<Longrightarrow> js_get tokens (Some (tr_address (ti_token item))) \<noteq> None"
  by (auto simp: formatFeature_def sums tokenFor_cases list_all2_conv_all_nth in_set_conv_nth)

lemma formatFeature_single:
  "formatFeature tokens fmt None (Some item) = Inr r \<Longrightarrow> js_get tokens (Some (tr_address (ti_token item))) \<noteq> None"
  by (auto simp: formatFeature_def sums tokenFor_cases)

lemma getOpportunityTVL_total:
  assumes "formatFeature tokens fmt (mp_supplied p) (mp_supply p) = Inr r"
  shows "\<exists>v. getOpportunityTVL (N :: 'n num_ops) nd p tokens = (Inr v :: 'x failure + 'n)"
proof -
  have pos: "js_get tokens k \<noteq> None \<Longrightarrow> \<exists>v. getTokenPositionTVL N nd (js_get tokens k) a = (Inr v :: 'x failure + 'n)" for k a
    by (auto simp: getTokenPositionTVL_def split: option.split)
  show ?thesis
  proof (cases "mp_supplied p")
    case None
    show ?thesis
    proof (cases "mp_supply p")
      case (Some item)
      have "js_get tokens (Some (tr_address (ti_token item))) \<noteq> None"
        using formatFeature_single[OF assms[unfolded None Some]] .
      from pos[OF this, of "ti_total item"] show ?thesis by (simp add: getOpportunityTVL_def None Some)
    qed (simp add: getOpportunityTVL_def None)
  next
    case (Some items)
    have tot: "\<forall>i \<in> set xs. js_get tokens (Some (tr_address (ti_token i))) \<noteq> None \<Longrightarrow>
      \<exists>v. sum_foldl (\<lambda>tvl position. sum_bind
         (getTokenPositionTVL N nd (js_get tokens (Some (tr_address (ti_token position)))) (ti_total position))
         (\<lambda>v. Inr (n_add N tvl v))) acc xs = (Inr v :: 'x failure + 'n)" for acc xs
    proof (induction xs arbitrary: acc)
      case (Cons x xs)
      obtain v where "getTokenPositionTVL N nd (js_get tokens (Some (tr_address (ti_token x)))) (ti_total x) = (Inr v :: 'x failure + 'n)"
        using pos[of "Some (tr_address (ti_token x))" "ti_total x"] Cons.prems by auto
      then show ?case using Cons by simp
    qed simp
    have "\<forall>i \<in> set items. js_get tokens (Some (tr_address (ti_token i))) \<noteq> None"
      using formatFeature_known[OF assms Some] by blast
    from tot[OF this, of "n_zero N"] show ?thesis by (simp add: getOpportunityTVL_def Some)
  qed
qed

text \<open>Formatting a pool fails in one way only, a token of the pool that the token service does
  not know; then the pool is left out by the completion without an error.\<close>

theorem formatOpportunity_failure:
  assumes "formatOpportunity N nd F tokens (Some p) = Inl err"
  shows "\<exists>item :: token_item. err = MissingToken (ti_token item) \<and> js_get tokens (Some (tr_address (ti_token item))) = None \<and> quiet err"
proof -
  obtain supplied where sup: "formatFeature tokens (fmtSupplied F) (mp_supplied p) (mp_supply p) = Inl err \<or>
      formatFeature tokens (fmtSupplied F) (mp_supplied p) (mp_supply p) = (Inr supplied :: 'a failure + _)"
    using assms by (auto simp: formatOpportunity_def sum_bind_Inl_iff)
  have "getOpportunityTVL N nd p tokens \<noteq> (Inl err :: 'a failure + _)"
    if "formatFeature tokens (fmtSupplied F) (mp_supplied p) (mp_supply p) = (Inr supplied :: 'a failure + _)"
    using getOpportunityTVL_total[OF that, of N nd] by (metis sum.distinct(1))
  then have "\<exists>item :: token_item. err = MissingToken (ti_token item) \<and> js_get tokens (Some (tr_address (ti_token item))) = None"
    using assms sup by (auto simp: formatOpportunity_def sum_bind_Inl_iff split: prod.splits dest!: formatFeature_Inl)
  then show ?thesis by auto
qed

section \<open>Witnesses\<close>

type_synonym wcache = "(unit, int, string) cached"

definition wmem :: "((string, wcache js_value) js_map, unit, int, string) protocol_cache" where
  "wmem = memory_cache"

definition pool_x :: "bool \<Rightarrow> unit minimal_pool" where
  "pool_x b = \<lparr> mp_id = Some ''x'', mp_supplied = None,
     mp_supply = (if b then Some \<lparr> ti_token = \<lparr> tr_address = ''t'', tr_underlying = None \<rparr>, ti_total = None \<rparr> else None),
     mp_borrowed = None, mp_borrow = None, mp_rewarded = None, mp_reward = None, mp_other = () \<rparr>"

definition meta_a :: meta where "meta_a = \<lparr> protocolId = ''a'', metaChain = 1 \<rparr>"
definition meta_b :: meta where "meta_b = \<lparr> protocolId = ''b'', metaChain = 1 \<rparr>"

definition fetchX :: "bool \<Rightarrow> (string, wcache js_value) js_map \<Rightarrow> (string failure + unit minimal_pool option list) \<times> (string, wcache js_value) js_map" where
  "fetchX b s = (Inr [Some (pool_x b)], s)"

definition countPools :: "unit minimal_pool option list \<Rightarrow> (string, wcache js_value) js_map \<Rightarrow> (int, string) pool_response \<times> (string, wcache js_value) js_map" where
  "countPools ps s = (\<lparr> pr_data = [int (length ps)], pr_errors = [] \<rparr>, [])"

lemma wmem_store: "cache_store wmem"
  unfolding wmem_def by (rule memory.cache_store_axioms)

lemma poolKeys_x: "poolKeys [Some (pool_x b)] = [''x'']"
  by (simp add: poolKeys_def poolIdent_def pool_x_def)

lemmas cache_eval = wmem_def memory_cache_def memory_get_def fetchX_def countPools_def hydratedKey_def meta_a_def meta_b_def
  show_int_def decimal.simps poolListCacheKey_def singlePoolCacheKey_def

theorem getPoolData_reads_cached_pools_witness:
  "fst (getPoolData wmem meta_a (fetchX True) countPools (snd (cachePoolData wmem meta_a (fetchX False) []))) =
    Inr \<lparr> pr_data = [1], pr_errors = [] \<rparr>"
proof -
  have "cm_get wmem (hydratedKey meta_a) (snd (cachePoolData wmem meta_a (fetchX False) [])) = Undef"
    by (simp add: cache_eval cachePoolData_def collectPool_step poolIdent_def pool_x_def)
  then have "getPoolData wmem meta_a (fetchX True) countPools (snd (cachePoolData wmem meta_a (fetchX False) [])) =
    (let (a, u) = countPools (filter (\<lambda>p. poolIdent p \<noteq> None) [Some (pool_x False)]) (snd (cachePoolData wmem meta_a (fetchX False) []))
     in (Inr a, snd (cacheIfErrorFree wmem 60 (hydratedKey meta_a) a u)))"
    by (intro getPoolData_reads_cached_pools[where fetch = "fetchX False" and s = "[]" and s' = "[]"
          and r = "fst (cachePoolData wmem meta_a (fetchX False) [])"])
      (simp_all add: wmem_store poolKeys_x meta_a_def fetchX_def)
  then show ?thesis by (simp add: countPools_def poolIdent_def pool_x_def Let_def)
qed

theorem getPoolData_served_again_witness:
  "\<exists>r s'. getPoolData wmem meta_a (fetchX False) countPools [] = (Inr r, s') \<and>
    getPoolData wmem meta_a (fetchX True) countPools s' = (Inr r, s')"
proof -
  have first_request: "getPoolData wmem meta_a (fetchX False) countPools [] =
      (Inr \<lparr> pr_data = [1], pr_errors = [] \<rparr>, [(hydratedKey meta_a, Val (Hydrated \<lparr> pr_data = [1], pr_errors = [] \<rparr>))])"
    by (simp add: cache_eval getPoolData_def getCache_def cachedPoolList_def fetchOnDemand_def cachePoolData_def collectPool_step
        poolIdent_def pool_x_def cacheIfErrorFree_def setCache_def)
  have "cm_get wmem (hydratedKey meta_a) (snd (countPools ps s)) = Undef" "cm_get wmem (hydratedKey meta_a) [] = Undef" for ps s
    by (simp_all add: cache_eval)
  from getPoolData_served_again[OF wmem_store first_request this, of "fetchX True" countPools] first_request show ?thesis by auto
qed

theorem pool_keys_collide_witness:
  "cachedPools wmem meta_a [''x'']
     (snd (cachePoolData wmem meta_b (fetchX True) (snd (cachePoolData wmem meta_a (fetchX False) [])))) = [Some (pool_x True)]"
  by (rule pool_keys_collide[where M = meta_a and N = meta_b and fetch = "fetchX False" and fetchN = "fetchX True" and s = "[]"
        and r = "fst (cachePoolData wmem meta_a (fetchX False) [])" and t = "snd (cachePoolData wmem meta_a (fetchX False) [])"
        and r' = "fst (cachePoolData wmem meta_b (fetchX True) (snd (cachePoolData wmem meta_a (fetchX False) [])))"
        and pools = "[Some (pool_x True)]"])
    (simp_all add: wmem_store poolKeys_x meta_a_def meta_b_def fetchX_def, simp add: poolIdent_def pool_x_def)

definition userFetch :: "string \<Rightarrow> int list \<Rightarrow> string failure + int option list" where
  "userFetch a pools = (if a = ''bad'' then Inl (Failed ''rpc'') else Inr [Some (int (length pools)), None])"

theorem getUsersData_order_witness:
  "\<exists>m errors. getUsersData [1, 0] (Some userFetch) [''u'', ''bad''] (Inr \<lparr> pr_data = [7], pr_errors = [] \<rparr>) = Inr (m, errors)
    \<and> js_get m ''u'' = Some [1] \<and> js_get m ''bad'' = Some [] \<and> mset errors = {# Failed ''rpc'' #}"
proof -
  have "mset [1, 0] = mset [0..<length [''u'', ''bad'']]" by (simp add: upt_rec)
  from getUsersData_order[OF _ this, of userFetch "\<lparr> pr_data = [7], pr_errors = [] \<rparr>"] show ?thesis
    by (auto simp: positionsOf_def failureOf_def userFetch_def)
qed

definition int_ops :: "int num_ops" where
  "int_ops = \<lparr> n_zero = 0, n_of = id, n_add = (+), n_mul = (*), n_div = (div), n_truthy = (\<lambda>x. x \<noteq> 0) \<rparr>"

definition plain_formatters :: "(unit, int, unit, int) formatters" where
  "plain_formatters = \<lparr> fmtSupplied = (\<lambda>i t. tk_price t), fmtRewarded = (\<lambda>i t tvl. tvl), fmtBorrowed = (\<lambda>i t. tk_price t), linkOf = None \<rparr>"

theorem formatOpportunity_failure_witness:
  "quiet (MissingToken \<lparr> tr_address = ''t'', tr_underlying = None \<rparr> :: string failure)"
proof -
  have "formatOpportunity int_ops (\<lambda>_ _. 0) plain_formatters [] (Some (pool_x True)) =
      Inl (MissingToken \<lparr> tr_address = ''t'', tr_underlying = None \<rparr> :: string failure)"
    by (simp add: formatOpportunity_def formatFeature_def tokenFor_def pool_x_def)
  from formatOpportunity_failure[OF this] show ?thesis by blast
qed

text \<open>A null pool is tolerated by the caching and throws when the tokens are collected.\<close>

lemma null_pool_throws: "getUniqueTokensFromRawPools [None] = Inl TypeError"
  by (simp add: getUniqueTokensFromRawPools_def addPoolTokens_def)

end
