(* ===== verification/Prices.thy ===== *)
theory Prices
  imports Cache Complex_Main "HOL-Library.Multiset"
begin

text \<open>
  The price service: \<open>apps/price/src/modules/prices/prices.service.ts\<close> with its helpers and the
  repository \<open>apps/price/src/modules/repositories/price.repository.ts\<close>.  Prices are values of an
  opaque type \<open>'v\<close>; a timestamp is an integer, or \<open>None\<close> for \<open>NaN\<close>.  The database is a record of
  queries that receive the text the repository builds; \<open>lodash\<close> is the record of the three functions the service uses
  of that package.  An update of the cache that the service does not wait for happens at the end of the call.
\<close>

section \<open>Data\<close>

type_synonym js_time = "int option"

record 'v timestamp_price =
  tp_timestamp :: js_time
  tp_price :: 'v

record 'v asset_prices =
  ap_address :: string
  ap_prices :: "'v timestamp_price list"

text \<open>A row as the query of current prices returns it; the query selects no timestamp.\<close>

record 'v price_row =
  row_address :: string
  row_timestamp :: js_time
  row_value :: 'v

record 'v price_request =
  rq_address :: string
  rq_price :: 'v
  rq_chainId :: int
  rq_currencyId :: int
  rq_sourceId :: "int option"

record 'v current_price =
  cp_address :: string
  cp_value :: "'v js_value"

record asset_entity =
  as_id :: int
  as_address :: string
  as_chainId :: int

record 'v associated_price =
  aa_assetId :: int
  aa_address :: string
  aa_chainId :: int
  aa_currencyId :: int
  aa_value :: 'v
  aa_sourceId :: int

record 'v asset_current_price =
  ac_assetId :: int
  ac_currencyId :: int
  ac_value :: 'v

text \<open>
  What the cache holds: lists of prices, current prices, and the requests that were written as they came in.
  Reading the field \<open>value\<close> of a request, which has none, gives \<open>undefined\<close>.
\<close>

datatype 'v price_entry =
    PriceList "'v timestamp_price list"
  | Current "'v current_price"
  | Request "'v price_request"

fun entry_address :: "'v price_entry \<Rightarrow> string option" where
  "entry_address (PriceList _) = None"
| "entry_address (Current c) = Some (cp_address c)"
| "entry_address (Request r) = Some (rq_address r)"

fun entry_value :: "'v price_entry \<Rightarrow> 'v js_value" where
  "entry_value (Current c) = cp_value c"
| "entry_value _ = Undef"

type_synonym ('s, 'v) price_cache = "('s, 'v price_entry, int) cache_manager"

datatype PriceRangePeriod = Day | Week | Month | Year | All

fun TimeframeFrequentlyInMin :: "PriceRangePeriod \<Rightarrow> int" where
  "TimeframeFrequentlyInMin Day = 5"
| "TimeframeFrequentlyInMin Week = 30"
| "TimeframeFrequentlyInMin Month = 120"
| "TimeframeFrequentlyInMin Year = 1440"
| "TimeframeFrequentlyInMin All = 1440"

fun TimePeriodInDays :: "PriceRangePeriod \<Rightarrow> int" where
  "TimePeriodInDays Day = 1"
| "TimePeriodInDays Week = 7"
| "TimePeriodInDays Month = 30"
| "TimePeriodInDays Year = 365"
| "TimePeriodInDays All = 365"

record 'v lodash =
  ld_orderBy :: "'v timestamp_price list \<Rightarrow> 'v timestamp_price list"
  ld_minBy :: "('v timestamp_price \<Rightarrow> int) \<Rightarrow> 'v timestamp_price list \<Rightarrow> 'v timestamp_price option"
  ld_last :: "'v timestamp_price list \<Rightarrow> 'v timestamp_price option"

record price_config =
  cacheTTLInSeconds :: int
  cacheHistoricalTTLInSeconds :: "int option"
  allowedCurrentPriceThresholdInSeconds :: int
  allowedHistoricalPriceThresholdInSeconds :: int

text \<open>The constructor: an absent or zero setting is replaced by its default.\<close>

definition orDefault :: "int option \<Rightarrow> int \<Rightarrow> int" where
  "orDefault v d = (case v of Some n \<Rightarrow> if n = 0 then d else n | None \<Rightarrow> d)"

definition mkPriceConfig :: "int option \<Rightarrow> int option \<Rightarrow> int option \<Rightarrow> int option \<Rightarrow> price_config" where
  "mkPriceConfig ttl historicTtl currentThreshold historicThreshold =
     \<lparr> cacheTTLInSeconds = orDefault ttl (15 * 60), cacheHistoricalTTLInSeconds = historicTtl,
       allowedCurrentPriceThresholdInSeconds = orDefault currentThreshold (6 * (60 * 60)),
       allowedHistoricalPriceThresholdInSeconds = orDefault historicThreshold (2 * (24 * (60 * 60))) \<rparr>"

section \<open>Times\<close>

definition getStepCount :: "int \<Rightarrow> int \<Rightarrow> rat" where
  "getStepCount freqInMin dayCount = of_int (60 * 24 * dayCount) / of_int freqInMin"

text \<open>The loop \<open>for (i = 0; i < stepsCount; i++)\<close> runs for every natural number below the count.\<close>

definition interpolation :: "js_time \<Rightarrow> int \<Rightarrow> rat \<Rightarrow> js_time list" where
  "interpolation timestamp stepInMinutes stepsCount =
     map (\<lambda>i. map_option (\<lambda>t. t - int i * stepInMinutes * 60) timestamp) [0..<nat \<lceil>stepsCount\<rceil>]"

text \<open>\<open>minFound\<close> is absent (\<open>None\<close>), \<open>NaN\<close> or a number.\<close>

definition getRangeTimestamps :: "int \<Rightarrow> PriceRangePeriod \<Rightarrow> js_time option \<Rightarrow> js_time list" where
  "getRangeTimestamps nowMs period minFound =
     (let now = nowMs div 1000;
          missing = (case minFound of None \<Rightarrow> True | Some None \<Rightarrow> True | Some (Some n) \<Rightarrow> n = 0);
          timestamp = (if period = All \<and> missing
            then (case minFound of Some (Some n) \<Rightarrow> Some (now - n) | _ \<Rightarrow> None) else Some now)
      in interpolation timestamp (TimeframeFrequentlyInMin period)
           (getStepCount (TimeframeFrequentlyInMin period) (TimePeriodInDays period)))"

text \<open>
  \<open>libs/common/src/utils/dates.ts\<close> on times in milliseconds, in a time zone of whole hours;
  the shift \<open>>> 0\<close> converts to a signed integer of 32 bits.
\<close>

definition roundToNearestHour :: "int \<Rightarrow> int" where
  "roundToNearestHour ms =
     (let hours = ms div 3600000; minutes = ms div 60000 mod 60
      in (hours + (if minutes \<ge> 30 then 1 else 0)) * 3600000)"

definition dateToTimestamp :: "int \<Rightarrow> int" where
  "dateToTimestamp ms = (ms div 1000 + 2 ^ 31) mod 2 ^ 32 - 2 ^ 31"

section \<open>Keys\<close>

definition getHistoricCacheKey :: "int \<Rightarrow> int \<Rightarrow> int \<Rightarrow> string \<Rightarrow> string" where
  "getHistoricCacheKey chain currency timestamp address =
     ''historic_price_'' @ show_int chain @ ''_'' @ show_int currency @ ''_'' @ show_int timestamp @ ''_'' @ address"

definition getCacheKey :: "int \<Rightarrow> int \<Rightarrow> string \<Rightarrow> string" where
  "getCacheKey chain currency address = ''price_'' @ show_int chain @ ''_'' @ show_int currency @ ''_'' @ address"

definition getCurrentPriceKey :: "int \<Rightarrow> int \<Rightarrow> string \<Rightarrow> string" where
  "getCurrentPriceKey chain currency address =
     ''current_price_'' @ show_int chain @ ''_'' @ show_int currency @ ''_'' @ address"

section \<open>Matching prices\<close>

definition matchPrice :: "'v lodash \<Rightarrow> int \<Rightarrow> js_time \<Rightarrow> 'v timestamp_price list \<Rightarrow> 'v js_value" where
  "matchPrice L maxTimeDifference timestamp prices =
     (let candidates = filter (\<lambda>p. case (tp_timestamp p, timestamp) of
            (Some a, Some b) \<Rightarrow> \<bar>a - b\<bar> \<le> maxTimeDifference | _ \<Rightarrow> False) prices
      in if candidates = [] then Null
         else (case ld_minBy L (\<lambda>p. \<bar>the (tp_timestamp p) - the timestamp\<bar>) candidates of
           Some p \<Rightarrow> Val (tp_price p) | None \<Rightarrow> Undef))"

definition time_text :: "js_time \<Rightarrow> string" where
  "time_text t = (case t of None \<Rightarrow> ''NaN'' | Some n \<Rightarrow> show_int n)"

definition matchPrices :: "'v lodash \<Rightarrow> int \<Rightarrow> js_time list \<Rightarrow> 'v timestamp_price list \<Rightarrow> (string, 'v js_value) js_map" where
  "matchPrices L maxTimeDifference timestamps prices =
     foldl (\<lambda>m t. js_put m (time_text t) (matchPrice L maxTimeDifference t prices)) [] timestamps"

definition getCurrentPrice :: "'v lodash \<Rightarrow> price_config \<Rightarrow> int \<Rightarrow> 'v timestamp_price list \<Rightarrow> 'v js_value" where
  "getCurrentPrice L cfg now prices = (case ld_last L prices of
     None \<Rightarrow> Null
   | Some lastPrice \<Rightarrow>
       (let isPriceOutdated = (case tp_timestamp lastPrice of
            None \<Rightarrow> False | Some t \<Rightarrow> now - t > allowedCurrentPriceThresholdInSeconds cfg)
        in if isPriceOutdated then Null else Val (tp_price lastPrice)))"

definition addRow :: "(string, 'v timestamp_price list) js_map \<Rightarrow> 'v price_row \<Rightarrow> (string, 'v timestamp_price list) js_map" where
  "addRow m row = js_put m (row_address row)
     ((case js_get m (row_address row) of Some l \<Rightarrow> l | None \<Rightarrow> []) @
       [\<lparr> tp_timestamp = row_timestamp row, tp_price = row_value row \<rparr>])"

definition mapRowsToAssetPrices :: "'v lodash \<Rightarrow> 'v price_row list \<Rightarrow> 'v asset_prices list" where
  "mapRowsToAssetPrices L rows =
     map (\<lambda>(address, prices). \<lparr> ap_address = address, ap_prices = ld_orderBy L prices \<rparr>) (foldl addRow [] rows)"

definition mapRowsToCurrentPrices :: "'v price_entry list \<Rightarrow> (string, 'v js_value) js_map" where
  "mapRowsToCurrentPrices rows =
     foldl (\<lambda>m row. js_put m (case entry_address row of Some a \<Rightarrow> a | None \<Rightarrow> ''undefined'') (entry_value row)) [] rows"

section \<open>Reading prices\<close>

definition getCachedPrices :: "('s, 'v) price_cache \<Rightarrow> int \<Rightarrow> int \<Rightarrow> string list \<Rightarrow> 's \<Rightarrow> 'v asset_prices list \<times> string list" where
  "getCachedPrices C chain currency addresses s =
     foldl (\<lambda>(cached, notCached) address.
       case cacheGet C (getCacheKey chain currency address) s of
         Val (PriceList ps) \<Rightarrow> (if ps \<noteq> [] then (cached @ [\<lparr> ap_address = address, ap_prices = ps \<rparr>], notCached)
            else (cached, notCached @ [address]))
       | _ \<Rightarrow> (cached, notCached @ [address])) ([], []) addresses"

definition updateCachedPrices ::
  "('s, 'v) price_cache \<Rightarrow> price_config \<Rightarrow> int \<Rightarrow> int \<Rightarrow> string list \<Rightarrow> 'v asset_prices list \<Rightarrow> 's \<Rightarrow> 's" where
  "updateCachedPrices C cfg chain currency addresses assetPrices s =
     (let s1 = foldl (\<lambda>s a. cacheSet C (getCacheKey chain currency (ap_address a)) (Val (PriceList (ap_prices a)))
            (Some (cacheTTLInSeconds cfg)) s) s assetPrices
      in foldl (\<lambda>s address. (let cacheKey = getCacheKey chain currency address in
           if \<not> present (cacheGet C cacheKey s) then cacheSet C cacheKey (Val (PriceList [])) (Some (cacheTTLInSeconds cfg)) s
           else s)) s1 addresses)"

text \<open>The queries of the repository; each receives the text that is put into the statement.\<close>

record ('s, 'v) price_db =
  db_pricesFor :: "string \<Rightarrow> int \<Rightarrow> int \<Rightarrow> 's \<Rightarrow> 'v price_row list"
  db_currentFor :: "string \<Rightarrow> int \<Rightarrow> 's \<Rightarrow> 'v current_price list"
  db_findAssets :: "string \<Rightarrow> 's \<Rightarrow> asset_entity list"
  db_saveAssets :: "string \<Rightarrow> 's \<Rightarrow> asset_entity list \<times> 's"
  db_saveCurrent :: "string \<Rightarrow> 's \<Rightarrow> 'v asset_current_price list \<times> 's"

text \<open>\<open>addresses.join("','")\<close> between single quotes.\<close>

definition addressList :: "string list \<Rightarrow> string" where
  "addressList addresses = quoted (join_with ([CHR 0x27] @ '','' @ [CHR 0x27]) addresses)"

definition getCurrentPricesByAddressesChainAndCurrency ::
  "('s, 'v) price_db \<Rightarrow> string list \<Rightarrow> int \<Rightarrow> int \<Rightarrow> 's \<Rightarrow> 'v price_row list" where
  "getCurrentPricesByAddressesChainAndCurrency D addresses chain currencyId s =
     map (\<lambda>r. r \<lparr> row_timestamp := None \<rparr>) (db_pricesFor D (addressList addresses) chain currencyId s)"

definition getAssetPricesByAddressesChainAndCurrency ::
  "('s, 'v) price_cache \<Rightarrow> ('s, 'v) price_db \<Rightarrow> 'v lodash \<Rightarrow> price_config \<Rightarrow> int \<Rightarrow> int \<Rightarrow> string list \<Rightarrow> 's
    \<Rightarrow> 'v asset_prices list \<times> 's" where
  "getAssetPricesByAddressesChainAndCurrency C D L cfg chain currency addresses s =
     (let (cached, notCached) = getCachedPrices C chain currency addresses s in
      if notCached = [] then (cached, s)
      else (let rows = getCurrentPricesByAddressesChainAndCurrency D notCached chain currency s;
                prices = mapRowsToAssetPrices L rows
            in (cached @ prices, updateCachedPrices C cfg chain currency addresses prices s)))"

definition pricesOf :: "'v asset_prices list \<Rightarrow> string \<Rightarrow> 'v timestamp_price list" where
  "pricesOf allPrices address =
     (case find (\<lambda>a. ap_address a = address) allPrices of Some a \<Rightarrow> ap_prices a | None \<Rightarrow> [])"

text \<open>The services that look up the chain and the currency of an answer are \<open>chainById\<close> and \<open>currencyById\<close>.\<close>

record ('p, 'c) price_response =
  re_prices :: 'p
  re_chain :: 'c
  re_currency :: 'c

definition getCurrentPrices ::
  "('s, 'v) price_cache \<Rightarrow> ('s, 'v) price_db \<Rightarrow> 'v lodash \<Rightarrow> price_config \<Rightarrow> (int \<Rightarrow> 'c) \<Rightarrow> (int \<Rightarrow> 'c) \<Rightarrow> int \<Rightarrow> int \<Rightarrow> int
    \<Rightarrow> string list \<Rightarrow> 's \<Rightarrow> ((string, 'v js_value) js_map, 'c) price_response \<times> 's" where
  "getCurrentPrices C D L cfg chainById currencyById now chain currency addresses s =
     (let (allPrices, s') = getAssetPricesByAddressesChainAndCurrency C D L cfg chain currency addresses s in
      (\<lparr> re_prices = foldl (\<lambda>m a. js_put m a (getCurrentPrice L cfg now (pricesOf allPrices a))) [] addresses,
         re_chain = chainById chain, re_currency = currencyById currency \<rparr>, s'))"

definition getHistoricalPrices ::
  "('s, 'v) price_cache \<Rightarrow> ('s, 'v) price_db \<Rightarrow> 'v lodash \<Rightarrow> price_config \<Rightarrow> (int \<Rightarrow> 'c) \<Rightarrow> (int \<Rightarrow> 'c) \<Rightarrow> int \<Rightarrow> int
    \<Rightarrow> string list \<Rightarrow> js_time list \<Rightarrow> 's \<Rightarrow> ((string, (string, 'v js_value) js_map) js_map, 'c) price_response \<times> 's" where
  "getHistoricalPrices C D L cfg chainById currencyById chain currency addresses timestamps s =
     (let (allPrices, s') = getAssetPricesByAddressesChainAndCurrency C D L cfg chain currency addresses s in
      (\<lparr> re_prices = foldl (\<lambda>m a. js_put m a (matchPrices L (allowedHistoricalPriceThresholdInSeconds cfg) timestamps
           (pricesOf allPrices a))) [] addresses,
         re_chain = chainById chain, re_currency = currencyById currency \<rparr>, s'))"

definition getPricesInBatches ::
  "('s, 'v) price_cache \<Rightarrow> ('s, 'v) price_db \<Rightarrow> 'v lodash \<Rightarrow> price_config \<Rightarrow> (int \<Rightarrow> 'c) \<Rightarrow> (int \<Rightarrow> 'c) \<Rightarrow> int \<Rightarrow> int
    \<Rightarrow> (string \<times> js_time list) list \<Rightarrow> 's \<Rightarrow> ((string, (string, 'v js_value) js_map) js_map, 'c) price_response \<times> 's" where
  "getPricesInBatches C D L cfg chainById currencyById chain currency assets s =
     (let addresses = map fst assets;
          (allPrices, s') = getAssetPricesByAddressesChainAndCurrency C D L cfg chain currency addresses s in
      (\<lparr> re_prices = foldl (\<lambda>m a. js_put m a (matchPrices L (allowedHistoricalPriceThresholdInSeconds cfg)
           (case find (\<lambda>x. fst x = a) assets of Some x \<Rightarrow> snd x | None \<Rightarrow> []) (pricesOf allPrices a))) [] addresses,
         re_chain = chainById chain, re_currency = currencyById currency \<rparr>, s'))"

text \<open>Under the period \<open>all\<close> the first timestamp of the prices of the address is passed on; an empty list of prices does not occur.\<close>

definition getRangePrices ::
  "('s, 'v) price_cache \<Rightarrow> ('s, 'v) price_db \<Rightarrow> 'v lodash \<Rightarrow> price_config \<Rightarrow> (int \<Rightarrow> 'c) \<Rightarrow> (int \<Rightarrow> 'c) \<Rightarrow> int \<Rightarrow> int \<Rightarrow> int
    \<Rightarrow> string list \<Rightarrow> PriceRangePeriod \<Rightarrow> 's \<Rightarrow> ((string, (string, 'v js_value) js_map) js_map, 'c) price_response \<times> 's" where
  "getRangePrices C D L cfg chainById currencyById nowMs chain currency addresses period s =
     (let timestamps = (if period = All then [Some 0] else getRangeTimestamps nowMs period None);
          (allPrices, s') = getAssetPricesByAddressesChainAndCurrency C D L cfg chain currency addresses s in
      (\<lparr> re_prices = foldl (\<lambda>m a. js_put m a (matchPrices L (allowedHistoricalPriceThresholdInSeconds cfg)
           (if period = All
            then getRangeTimestamps nowMs period
              (case pricesOf allPrices a of [] \<Rightarrow> None | p # _ \<Rightarrow> Some (tp_timestamp p))
            else timestamps) (pricesOf allPrices a))) [] addresses,
         re_chain = chainById chain, re_currency = currencyById currency \<rparr>, s'))"

section \<open>Current prices\<close>

definition getCachedCurrentPrices ::
  "('s, 'v) price_cache \<Rightarrow> int \<Rightarrow> int \<Rightarrow> string list \<Rightarrow> 's \<Rightarrow> 'v price_entry list \<times> string list" where
  "getCachedCurrentPrices C chain currency addresses s =
     (let keys = map (\<lambda>address. getCurrentPriceKey chain currency address) addresses;
          cached = concat (map (\<lambda>v. case v of Val e \<Rightarrow> [e] | _ \<Rightarrow> []) (cacheMget C keys s));
          notCached = filter (\<lambda>address. list_all (\<lambda>price. entry_address price \<noteq> Some address) cached) addresses
      in (cached, notCached))"

definition updateCachedCurrentPrices ::
  "('s, 'v) price_cache \<Rightarrow> price_config \<Rightarrow> int \<Rightarrow> int \<Rightarrow> 'v current_price list \<Rightarrow> string list \<Rightarrow> 's \<Rightarrow> 's" where
  "updateCachedCurrentPrices C cfg chain currency foundPrices allAddresses s =
     (let cacheItems = map (\<lambda>p. (getCurrentPriceKey chain currency (cp_address p), Val (Current p))) foundPrices;
          s' = cacheMset C cacheItems (Some (cacheTTLInSeconds cfg)) s
      in if length foundPrices \<noteq> length allAddresses
         then (let foundAddresses = map cp_address foundPrices;
                   unknownAddresses = filter (\<lambda>a. a \<notin> set foundAddresses) allAddresses;
                   unknownCacheItems = map (\<lambda>a. (getCurrentPriceKey chain currency a,
                      Val (Current \<lparr> cp_address = a, cp_value = Null \<rparr>))) unknownAddresses
               in cacheMset C unknownCacheItems (Some (cacheTTLInSeconds cfg)) s')
         else s')"

definition getCurrentPricesByAddressesAndChain ::
  "('s, 'v) price_db \<Rightarrow> string list \<Rightarrow> int \<Rightarrow> 's \<Rightarrow> 'v current_price list" where
  "getCurrentPricesByAddressesAndChain D addresses chain s = db_currentFor D (addressList addresses) chain s"

definition fetchPrices ::
  "('s, 'v) price_cache \<Rightarrow> ('s, 'v) price_db \<Rightarrow> price_config \<Rightarrow> (int \<Rightarrow> 'c) \<Rightarrow> (int \<Rightarrow> 'c) \<Rightarrow> int \<Rightarrow> int \<Rightarrow> string list \<Rightarrow> 's
    \<Rightarrow> ((string, 'v js_value) js_map, 'c) price_response \<times> 's" where
  "fetchPrices C D cfg chainById currencyById chain currency addresses s =
     (let (cached, notCached) = getCachedCurrentPrices C chain currency addresses s;
          respond = (\<lambda>rows. \<lparr> re_prices = mapRowsToCurrentPrices rows, re_chain = chainById chain,
            re_currency = currencyById currency \<rparr>)
      in if notCached = [] then (respond cached, s)
         else (let rows = getCurrentPricesByAddressesAndChain D notCached chain s
               in (respond (map Current rows @ cached),
                   updateCachedCurrentPrices C cfg chain currency rows notCached s)))"

definition updatePricesInCache ::
  "('s, 'v) price_cache \<Rightarrow> price_config \<Rightarrow> 'v price_request list \<Rightarrow> 's \<Rightarrow> 's" where
  "updatePricesInCache C cfg prices s =
     cacheMset C (map (\<lambda>p. (getCurrentPriceKey (rq_chainId p) (rq_currencyId p) (rq_address p), Val (Request p))) prices)
       (Some (cacheTTLInSeconds cfg)) s"

definition cachePricesFor24HourReturns ::
  "('s, 'v) price_cache \<Rightarrow> price_config \<Rightarrow> int \<Rightarrow> 'v price_request list \<Rightarrow> 's \<Rightarrow> 's" where
  "cachePricesFor24HourReturns C cfg nowMs prices s =
     (let nearestTimeStamp = dateToTimestamp (roundToNearestHour nowMs) in
      cacheMset C (map (\<lambda>p. (getHistoricCacheKey (rq_chainId p) (rq_currencyId p) nearestTimeStamp (rq_address p),
        Val (Request p))) prices) (cacheHistoricalTTLInSeconds cfg) s)"

definition getRawPriceRequests ::
  "('s, 'v) price_cache \<Rightarrow> int \<Rightarrow> int \<Rightarrow> int \<Rightarrow> string list \<Rightarrow> 's \<Rightarrow> 'v price_request list" where
  "getRawPriceRequests C chain currency timestamp assets s =
     concat (map (\<lambda>asset. case cacheGet C (getHistoricCacheKey chain currency timestamp asset) s of
       Val (Request r) \<Rightarrow> [r] | _ \<Rightarrow> []) assets)"

definition getPricesAtTimestamp ::
  "('s, 'v) price_cache \<Rightarrow> (int \<Rightarrow> 'c) \<Rightarrow> (int \<Rightarrow> 'c) \<Rightarrow> string list \<Rightarrow> int \<Rightarrow> int \<Rightarrow> int \<Rightarrow> 's
    \<Rightarrow> ((string, 'v js_value) js_map, 'c) price_response" where
  "getPricesAtTimestamp C chainById currencyById assets timestamp chain currency s =
     (let time = dateToTimestamp (roundToNearestHour (timestamp * 1000));
          data = getRawPriceRequests C chain currency time assets s
      in \<lparr> re_prices = foldl (\<lambda>tokens token. if to_lower (rq_address token) \<notin> set assets then tokens
             else js_put tokens (rq_address token) (Val (rq_price token))) [] data,
           re_chain = chainById chain, re_currency = currencyById currency \<rparr>)"

section \<open>Writing current prices\<close>

definition getFindAssetsSqlCondition :: "'v price_request list \<Rightarrow> string" where
  "getFindAssetsSqlCondition requestBody =
     foldl (\<lambda>result (dto, i). result @ ''(address='' @ quoted (rq_address dto) @ '' AND chain_id='' @ show_int (rq_chainId dto) @ '')'' @
       (if i \<noteq> length requestBody - 1 then '' OR '' else [])) [] (zip requestBody [0..<length requestBody])"

definition getSqlValues :: "'x list \<Rightarrow> ('x \<Rightarrow> string) \<Rightarrow> string" where
  "getSqlValues listOfObjects getValues =
     foldl (\<lambda>result (x, i). result @ getValues x @ (if i \<noteq> length listOfObjects - 1 then '','' else []))
       [] (zip listOfObjects [0..<length listOfObjects])"

text \<open>Reading a field of the request that belongs to an asset throws when there is none.\<close>

definition associate :: "'v price_request list \<Rightarrow> asset_entity \<Rightarrow> string + 'v associated_price" where
  "associate listOfDTO asset =
     (case find (\<lambda>dto. rq_address dto = as_address asset \<and> rq_chainId dto = as_chainId asset) listOfDTO of
        None \<Rightarrow> Inl ''TypeError''
      | Some dto \<Rightarrow> Inr \<lparr> aa_assetId = as_id asset, aa_address = as_address asset, aa_chainId = as_chainId asset,
          aa_currencyId = rq_currencyId dto, aa_value = rq_price dto,
          aa_sourceId = (case rq_sourceId dto of Some i \<Rightarrow> if i = 0 then 1 else i | None \<Rightarrow> 1) \<rparr>)"

definition getAssociatedAssetsPrices ::
  "asset_entity list \<Rightarrow> 'v price_request list \<Rightarrow> string + 'v associated_price list" where
  "getAssociatedAssetsPrices assets listOfDTO = sum_map (associate listOfDTO) assets"

definition assetSql :: "'v price_request \<Rightarrow> string" where
  "assetSql dto = ''('' @ quoted (rq_address dto) @ '','' @ show_int (rq_chainId dto) @ '')''"

definition priceSql :: "('v \<Rightarrow> string) \<Rightarrow> 'v associated_price \<Rightarrow> string" where
  "priceSql showValue p = ''('' @ show_int (aa_assetId p) @ '','' @ show_int (aa_currencyId p) @ '','' @
     showValue (aa_value p) @ '','' @ show_int (aa_sourceId p) @ '',NOW())''"

text \<open>The loop over the saved prices; the writes are not awaited, and an unknown asset throws.\<close>

fun storeCurrent ::
  "('s, 'v) price_cache \<Rightarrow> price_config \<Rightarrow> 'v associated_price list \<Rightarrow> 'v asset_current_price list \<Rightarrow> 's \<Rightarrow> string option \<times> 's" where
  "storeCurrent C cfg associated [] s = (None, s)"
| "storeCurrent C cfg associated (p # ps) s =
     (case find (\<lambda>v. aa_assetId v = ac_assetId p) associated of
        None \<Rightarrow> (Some ''TypeError'', s)
      | Some a \<Rightarrow> storeCurrent C cfg associated ps
          (cacheSet C (getCurrentPriceKey (aa_chainId a) (ac_currencyId p) (aa_address a))
            (Val (Current \<lparr> cp_address = aa_address a, cp_value = Val (ac_value p) \<rparr>)) (Some (cacheTTLInSeconds cfg)) s))"

text \<open>The result is the error that was thrown, if any, and the state that was reached; queries that fail are left out.\<close>

definition updateCurrentPrice ::
  "('s, 'v) price_cache \<Rightarrow> ('s, 'v) price_db \<Rightarrow> price_config \<Rightarrow> ('v \<Rightarrow> bool) \<Rightarrow> ('v \<Rightarrow> string) \<Rightarrow> int
    \<Rightarrow> 'v price_request list \<Rightarrow> 's \<Rightarrow> string option \<times> 's" where
  "updateCurrentPrice C D cfg truthy showValue nowMs requests s =
     (let notEmptyRequests = filter (\<lambda>dto. truthy (rq_price dto)) requests;
          s1 = updatePricesInCache C cfg notEmptyRequests s;
          s2 = cachePricesFor24HourReturns C cfg nowMs notEmptyRequests s1;
          foundAssets = db_findAssets D (getFindAssetsSqlCondition requests) s2;
          dtoForMissingAssets = filter (\<lambda>dto. \<not> list_ex (\<lambda>a. as_address a = rq_address dto \<and> as_chainId a = rq_chainId dto)
            foundAssets) requests;
          (addedAssets, s3) = (if dtoForMissingAssets \<noteq> []
            then db_saveAssets D (getSqlValues dtoForMissingAssets assetSql) s2 else ([], s2))
      in case getAssociatedAssetsPrices (foundAssets @ addedAssets) requests of
          Inl e \<Rightarrow> (Some e, s3)
        | Inr associated \<Rightarrow>
            (let (saved, s4) = db_saveCurrent D (getSqlValues associated (priceSql showValue)) s3
             in storeCurrent C cfg associated saved s4))"

section \<open>What the service relies on in \<open>lodash\<close>\<close>

locale lodash_laws =
  fixes L :: "'v lodash"
  assumes minBy_Nil: "ld_minBy L f [] = None"
    and minBy: "xs \<noteq> [] \<Longrightarrow> \<exists>x \<in> set xs. ld_minBy L f xs = Some x \<and> (\<forall>y \<in> set xs. f x \<le> f y)"
    and orderBy: "mset (ld_orderBy L xs) = mset xs"
    and last: "ld_last L xs = (if xs = [] then None else Some (List.last xs))"
begin

lemma set_orderBy: "set (ld_orderBy L xs) = set xs"
  using mset_eq_setD[OF orderBy] .

end

definition plain_lodash :: "'v lodash" where
  "plain_lodash = \<lparr> ld_orderBy = sort_key (\<lambda>p. case tp_timestamp p of Some t \<Rightarrow> t | None \<Rightarrow> 0),
     ld_minBy = (\<lambda>f xs. if xs = [] then None else Some (arg_min_list f xs)),
     ld_last = (\<lambda>xs. if xs = [] then None else Some (List.last xs)) \<rparr>"

interpretation plain_lodash: lodash_laws plain_lodash
  by unfold_locales (auto simp: plain_lodash_def arg_min_list_in f_arg_min_list_f intro!: bexI[of _ "arg_min_list _ _"])

section \<open>Matching\<close>

definition distance :: "int \<Rightarrow> 'v timestamp_price \<Rightarrow> int option" where
  "distance t p = map_option (\<lambda>a. \<bar>a - t\<bar>) (tp_timestamp p)"

lemma candidate_iff:
  "(case (tp_timestamp p, Some t) of (Some a, Some b) \<Rightarrow> \<bar>a - b\<bar> \<le> d | _ \<Rightarrow> False) \<longleftrightarrow> (\<exists>n. distance t p = Some n \<and> n \<le> d)"
  by (auto simp: distance_def split: option.split)

text \<open>\<open>matchPrice\<close> answers with the price of a nearest entry within the threshold, and with
  \<open>null\<close> exactly when no entry lies within it.\<close>

theorem matchPrice_nearest:
  assumes "lodash_laws L"
  shows "case matchPrice L d (Some t) ps of
      Null \<Rightarrow> \<not> (\<exists>p \<in> set ps. \<exists>n. distance t p = Some n \<and> n \<le> d)
    | Val v \<Rightarrow> (\<exists>p \<in> set ps. \<exists>n. tp_price p = v \<and> distance t p = Some n \<and> n \<le> d
        \<and> list_all (\<lambda>q. case distance t q of None \<Rightarrow> True | Some m \<Rightarrow> n \<le> m) ps)
    | Undef \<Rightarrow> False"
proof -
  define cs where "cs = filter (\<lambda>p. \<exists>n. distance t p = Some n \<and> n \<le> d) ps"
  have m: "matchPrice L d (Some t) ps = (if cs = [] then Null
      else (case ld_minBy L (\<lambda>p. \<bar>the (tp_timestamp p) - t\<bar>) cs of Some p \<Rightarrow> Val (tp_price p) | None \<Rightarrow> Undef))"
    by (simp only: matchPrice_def candidate_iff cs_def Let_def option.sel)
  show ?thesis
  proof (cases "cs = []")
    case True
    then have "\<not> (\<exists>p \<in> set ps. \<exists>n. distance t p = Some n \<and> n \<le> d)" by (auto simp: cs_def filter_empty_conv)
    then show ?thesis using True by (simp add: m)
  next
    case False
    obtain x where x: "x \<in> set cs" "ld_minBy L (\<lambda>p. \<bar>the (tp_timestamp p) - t\<bar>) cs = Some x"
      "\<forall>y \<in> set cs. \<bar>the (tp_timestamp x) - t\<bar> \<le> \<bar>the (tp_timestamp y) - t\<bar>"
      using lodash_laws.minBy[OF assms False] by blast
    obtain n where n: "x \<in> set ps" "distance t x = Some n" "n \<le> d" using x(1) by (auto simp: cs_def)
    have dist: "distance t y = Some k \<Longrightarrow> \<bar>the (tp_timestamp y) - t\<bar> = k" for y :: "'a timestamp_price" and k
      by (auto simp: distance_def)
    have "n \<le> k" if "q \<in> set ps" "distance t q = Some k" for q k
    proof (cases "k \<le> d")
      case True
      then have "q \<in> set cs" using that by (simp add: cs_def)
      then show ?thesis using x(3) dist[OF n(2)] dist[OF that(2)] by fastforce
    qed (use n(3) in simp)
    then have "list_all (\<lambda>q. case distance t q of None \<Rightarrow> True | Some m \<Rightarrow> n \<le> m) ps"
      by (simp add: list_all_iff split: option.split)
    with n have "\<exists>p \<in> set ps. \<exists>n. tp_price p = tp_price x \<and> distance t p = Some n \<and> n \<le> d
        \<and> list_all (\<lambda>q. case distance t q of None \<Rightarrow> True | Some m \<Rightarrow> n \<le> m) ps" by blast
    then show ?thesis using False x(2) by (simp add: m)
  qed
qed

definition quotes :: "int timestamp_price list" where
  "quotes = [\<lparr> tp_timestamp = Some 10, tp_price = 1 \<rparr>, \<lparr> tp_timestamp = Some 19, tp_price = 2 \<rparr>]"

theorem matchPrice_nearest_witness: "matchPrice plain_lodash 5 (Some 18) quotes = Val 2"
proof (cases "matchPrice plain_lodash 5 (Some 18) quotes")
  case (Val v)
  then show ?thesis
    using matchPrice_nearest[OF plain_lodash.lodash_laws_axioms, where d = 5 and t = 18 and ps = quotes] by (auto simp: quotes_def distance_def)
qed (use matchPrice_nearest[OF plain_lodash.lodash_laws_axioms, where d = 5 and t = 18 and ps = quotes] in \<open>auto simp: quotes_def distance_def\<close>)

section \<open>Prices from the database have no time\<close>

lemma addRow_step:
  "js_get (addRow m r) a = (if a = row_address r
     then Some ((case js_get m a of Some l \<Rightarrow> l | None \<Rightarrow> []) @ [\<lparr> tp_timestamp = row_timestamp r, tp_price = row_value r \<rparr>])
     else js_get m a)"
  "js_wf m \<Longrightarrow> js_wf (addRow m r)"
  by (simp_all add: addRow_def)

lemma addRow_get:
  "js_get (foldl addRow m rows) a = (if a \<in> row_address ` set rows \<or> js_get m a \<noteq> None
     then Some ((case js_get m a of Some l \<Rightarrow> l | None \<Rightarrow> []) @
       map (\<lambda>r. \<lparr> tp_timestamp = row_timestamp r, tp_price = row_value r \<rparr>) (filter (\<lambda>r. row_address r = a) rows))
     else None)"
proof (induction rows arbitrary: m)
  case (Cons r rows)
  show ?case by (cases "row_address r = a") (auto simp: Cons addRow_step split: option.split)
qed (auto split: option.split)

lemma addRow_wf: "js_wf m \<Longrightarrow> js_wf (foldl addRow m rows)"
  by (induction rows arbitrary: m) (simp_all add: addRow_step)

lemma mapRows_entries:
  assumes "lodash_laws L" "a \<in> set (mapRowsToAssetPrices L rows)" "p \<in> set (ap_prices a)"
  shows "\<exists>r \<in> set rows. row_address r = ap_address a \<and> p = \<lparr> tp_timestamp = row_timestamp r, tp_price = row_value r \<rparr>"
proof -
  obtain ps where ps: "(ap_address a, ps) \<in> set (foldl addRow [] rows)" "ap_prices a = ld_orderBy L ps"
    using assms(2) by (auto simp: mapRowsToAssetPrices_def)
  have "js_get (foldl addRow [] rows) (ap_address a) = Some ps"
    using ps(1) addRow_wf[of "[]" rows] by (simp add: js_wf_get_iff)
  then show ?thesis using assms(3) ps(2) lodash_laws.set_orderBy[OF assms(1)]
    by (auto simp: addRow_get split: if_splits)
qed

lemma matchPrice_no_time:
  "(\<And>p. p \<in> set ps \<Longrightarrow> tp_timestamp p = None) \<Longrightarrow> matchPrice L d t ps = Null"
proof -
  assume a: "\<And>p. p \<in> set ps \<Longrightarrow> tp_timestamp p = None"
  then have "filter (\<lambda>p. case (tp_timestamp p, t) of (Some a, Some b) \<Rightarrow> \<bar>a - b\<bar> \<le> d | _ \<Rightarrow> False) ps = []"
    by (simp add: filter_empty_conv)
  then show ?thesis by (simp add: matchPrice_def)
qed

lemma foldl_put_get:
  "js_get (foldl (\<lambda>m a. js_put m a (f a)) m xs) k = (if k \<in> set xs then Some (f k) else js_get m k)"
  by (induction xs arbitrary: m) auto

lemma matchPrices_get: "js_get (matchPrices L d ts ps) k = Some v \<Longrightarrow> \<exists>t \<in> set ts. v = matchPrice L d t ps"
proof -
  have "js_get (foldl (\<lambda>m t. js_put m (time_text t) (matchPrice L d t ps)) m ts) k = Some v \<Longrightarrow>
      (\<exists>t \<in> set ts. v = matchPrice L d t ps) \<or> js_get m k = Some v" for m
    by (induction ts arbitrary: m) (fastforce split: if_splits)+
  from this[of "[]"] show "js_get (matchPrices L d ts ps) k = Some v \<Longrightarrow> \<exists>t \<in> set ts. v = matchPrice L d t ps"
    by (simp add: matchPrices_def)
qed

text \<open>The query for prices selects no timestamp, so whatever the database holds, a historical
  request for addresses that are not in the cache answers \<open>null\<close> for every time.\<close>

theorem historical_prices_null:
  assumes "lodash_laws L" "getCachedPrices C chain currency addresses s = ([], addresses)"
    and "getHistoricalPrices C D L cfg chainById currencyById chain currency addresses timestamps s = (r, s')"
    and "js_get (re_prices r) a = Some m" "js_get m t = Some v"
  shows "v = Null"
proof -
  define rows where "rows = getCurrentPricesByAddressesChainAndCurrency D addresses chain currency s"
  define all where "all = (if addresses = [] then [] else mapRowsToAssetPrices L rows)"
  have all: "fst (getAssetPricesByAddressesChainAndCurrency C D L cfg chain currency addresses s) = all"
    using assms(2) by (simp add: getAssetPricesByAddressesChainAndCurrency_def all_def rows_def Let_def)
  have timeless: "tp_timestamp p = None" if "p \<in> set (pricesOf all a)" for p
  proof -
    obtain x where "x \<in> set all" "p \<in> set (ap_prices x)"
      using \<open>p \<in> set (pricesOf all a)\<close> by (cases "find (\<lambda>x. ap_address x = a) all") (auto simp: pricesOf_def dest: find_SomeD)
    then show ?thesis using mapRows_entries[OF assms(1), of x rows p]
      by (auto simp: all_def rows_def getCurrentPricesByAddressesChainAndCurrency_def split: if_splits)
  qed
  have "re_prices r = foldl (\<lambda>m a. js_put m a (matchPrices L (allowedHistoricalPriceThresholdInSeconds cfg) timestamps
      (pricesOf all a))) [] addresses"
    using assms(3) all by (auto simp: getHistoricalPrices_def split: prod.splits)
  then have "m = matchPrices L (allowedHistoricalPriceThresholdInSeconds cfg) timestamps (pricesOf all a)"
    using assms(4) by (simp add: foldl_put_get split: if_splits)
  then obtain u where "v = matchPrice L (allowedHistoricalPriceThresholdInSeconds cfg) u (pricesOf all a)"
    using assms(5) matchPrices_get by blast
  then show ?thesis by (simp add: matchPrice_no_time timeless)
qed


section \<open>The cache of current prices\<close>

lemma key_inj [simp]:
  "getCurrentPriceKey chain currency a = getCurrentPriceKey chain currency b \<longleftrightarrow> a = b"
  "getCacheKey chain currency a = getCacheKey chain currency b \<longleftrightarrow> a = b"
  by (simp_all add: getCurrentPriceKey_def getCacheKey_def)

text \<open>A cache is consistent when an entry under the key of an address is an entry of that address.\<close>

definition own_entries :: "('s, 'v) price_cache \<Rightarrow> int \<Rightarrow> int \<Rightarrow> string list \<Rightarrow> 's \<Rightarrow> bool" where
  "own_entries C chain currency addresses s \<longleftrightarrow>
     list_all (\<lambda>a. case cm_get C (getCurrentPriceKey chain currency a) s of
       Val e \<Rightarrow> entry_address e = Some a | _ \<Rightarrow> True) addresses"

definition hits :: "('s, 'v) price_cache \<Rightarrow> int \<Rightarrow> int \<Rightarrow> 's \<Rightarrow> string \<Rightarrow> 'v price_entry list" where
  "hits C chain currency s a = (case cm_get C (getCurrentPriceKey chain currency a) s of Val e \<Rightarrow> [e] | _ \<Rightarrow> [])"

lemma getCachedCurrentPrices_own:
  assumes "cache_store C" "own_entries C chain currency addresses s"
  shows "getCachedCurrentPrices C chain currency addresses s =
    (concat (map (hits C chain currency s) addresses),
     filter (\<lambda>a. \<not> present (cm_get C (getCurrentPriceKey chain currency a) s)) addresses)"
proof -
  let ?get = "\<lambda>a. cm_get C (getCurrentPriceKey chain currency a) s"
  have cached: "concat (map (\<lambda>v. case v of Val e \<Rightarrow> [e] | _ \<Rightarrow> [])
      (cacheMget C (map (\<lambda>a. getCurrentPriceKey chain currency a) addresses) s)) = concat (map (hits C chain currency s) addresses)"
    by (simp add: cache_store.cacheMget_map[OF assms(1)] hits_def[abs_def] comp_def)
  have own: "a \<in> set addresses \<Longrightarrow> ?get a = Val e \<Longrightarrow> entry_address e = Some a" for a e
    using assms(2) by (auto simp: own_entries_def list_all_iff)
  have "list_all (\<lambda>e. entry_address e \<noteq> Some a) (concat (map (hits C chain currency s) addresses)) \<longleftrightarrow> \<not> present (?get a)"
    if "a \<in> set addresses" for a
  proof
    assume l: "list_all (\<lambda>e. entry_address e \<noteq> Some a) (concat (map (hits C chain currency s) addresses))"
    show "\<not> present (?get a)"
    proof
      assume "present (?get a)"
      then obtain e where e: "?get a = Val e" by (auto simp: present_iff)
      then have "e \<in> set (hits C chain currency s a)" by (simp add: hits_def)
      with l that own[OF that e] show False by (auto simp: list_all_iff)
    qed
  next
    assume np: "\<not> present (?get a)"
    show "list_all (\<lambda>e. entry_address e \<noteq> Some a) (concat (map (hits C chain currency s) addresses))"
    proof (clarsimp simp: list_all_iff)
      fix e b assume "b \<in> set addresses" "e \<in> set (hits C chain currency s b)" "entry_address e = Some a"
      moreover from this have "?get b = Val e" by (auto simp: hits_def split: js_value.splits)
      ultimately have "b = a" "present (?get a)" using own[of b e] by auto
      with np show False by simp
    qed
  qed
  then show ?thesis by (simp add: getCachedCurrentPrices_def cached Let_def cong: filter_cong)
qed

lemma map_of_cacheItems:
  "distinct (map f ps) \<Longrightarrow> p \<in> set ps \<Longrightarrow> map_of (rev (map (\<lambda>p. (f p, g p)) ps)) (f p) = Some (g p)"
proof -
  assume d: "distinct (map f ps)" and p: "p \<in> set ps"
  have "distinct (map fst (rev (map (\<lambda>p. (f p, g p)) ps)))" using d by (simp add: comp_def rev_map[symmetric])
  then show ?thesis using p by (simp add: map_of_eq_Some_iff)
qed

lemma after_update:
  fixes C :: "('s, 'v) price_cache"
  assumes C: "cache_store C" and d: "distinct (map cp_address found)" "distinct asked" "cp_address ` set found \<subseteq> set asked"
  shows "cm_get C (getCurrentPriceKey chain currency a) (updateCachedCurrentPrices C cfg chain currency found asked s) =
    (if a \<in> set asked
     then Val (Current (case find (\<lambda>p. cp_address p = a) found of Some p \<Rightarrow> p | None \<Rightarrow> \<lparr> cp_address = a, cp_value = Null \<rparr>))
     else cm_get C (getCurrentPriceKey chain currency a) s)"
proof -
  let ?k = "getCurrentPriceKey chain currency"
  let ?items = "map (\<lambda>p. (?k (cp_address p), Val (Current p) :: 'v price_entry js_value)) found"
  let ?unknown = "filter (\<lambda>a. a \<notin> set (map cp_address found)) asked"
  let ?nulls = "map (\<lambda>a. (?k a, Val (Current \<lparr> cp_address = a, cp_value = Null \<rparr>) :: 'v price_entry js_value)) ?unknown"
  have defd: "filter (\<lambda>(k, v). v \<noteq> Undef) ?items = ?items" "filter (\<lambda>(k, v). v \<noteq> Undef) ?nulls = ?nulls"
    by (auto simp: filter_map comp_def)
  have find_found: "find (\<lambda>p. cp_address p = a) found = (if a \<in> cp_address ` set found then Some p else None)"
    if "p \<in> set found" "cp_address p = a \<or> a \<notin> cp_address ` set found" for p
  proof (cases "find (\<lambda>p. cp_address p = a) found")
    case None
    then show ?thesis using that by (auto dest: find_NoneD)
  next
    case (Some q)
    then have q: "q \<in> set found" "cp_address q = a" by (auto dest: find_SomeD)
    then have "p = q" using that d(1) by (auto simp: distinct_map inj_on_def)
    then show ?thesis using Some q by auto
  qed
  have items: "map_of (rev ?items) (?k a) = (if a \<in> cp_address ` set found
      then Some (Val (Current (the (find (\<lambda>p. cp_address p = a) found)))) else None)"
  proof (cases "a \<in> cp_address ` set found")
    case True
    then obtain p where p: "p \<in> set found" "cp_address p = a" by blast
    have "distinct (map (\<lambda>p. ?k (cp_address p)) found)" using d(1) by (simp add: distinct_map inj_on_def)
    from map_of_cacheItems[OF this p(1), of "\<lambda>p. Val (Current p)"] show ?thesis using p find_found[OF p(1)] True by simp
  qed (auto simp: map_of_eq_None_iff)
  have nulls: "map_of (rev ?nulls) (?k a) = (if a \<in> set ?unknown then Some (Val (Current \<lparr> cp_address = a, cp_value = Null \<rparr>)) else None)"
  proof (cases "a \<in> set ?unknown")
    case True
    have "distinct (map ?k ?unknown)" using d(2) by (simp add: distinct_map inj_on_def)
    from map_of_cacheItems[OF this True, of "\<lambda>a. Val (Current \<lparr> cp_address = a, cp_value = Null \<rparr>)"] show ?thesis using True by simp
  qed (auto simp: map_of_eq_None_iff)
  have all: "?unknown = []" if "length found = length asked"
  proof -
    have "card (cp_address ` set found) = card (set asked)"
      using distinct_card[OF d(1)] distinct_card[OF d(2)] that by (simp only: set_map length_map)
    then have "cp_address ` set found = set asked" using d(3) by (intro card_subset_eq) auto
    then show ?thesis by (auto simp: filter_empty_conv)
  qed
  have miss: "a \<notin> cp_address ` set found \<Longrightarrow> find (\<lambda>p. cp_address p = a) found = None"
    by (auto simp: find_None_iff)
  have hit: "a \<in> cp_address ` set found \<Longrightarrow> \<exists>p. find (\<lambda>p. cp_address p = a) found = Some p"
    by (metis (mono_tags, lifting) find_None_iff image_iff not_None_eq)
  have one: "cm_get C (?k a) (cacheMset C ?items o1 s) = (case map_of (rev ?items) (?k a) of Some v \<Rightarrow> v | None \<Rightarrow> cm_get C (?k a) s)"
    for o1 by (simp only: cache_store.get_cacheMset[OF C] defd)
  have two: "cm_get C (?k a) (cacheMset C ?nulls o1 s') = (case map_of (rev ?nulls) (?k a) of Some v \<Rightarrow> v | None \<Rightarrow> cm_get C (?k a) s')"
    for o1 s' by (simp only: cache_store.get_cacheMset[OF C] defd)
  show ?thesis
  proof (cases "length found = length asked")
    case True
    then have u: "updateCachedCurrentPrices C cfg chain currency found asked s = cacheMset C ?items (Some (cacheTTLInSeconds cfg)) s"
      by (simp add: updateCachedCurrentPrices_def)
    have "a \<in> set asked \<longleftrightarrow> a \<in> cp_address ` set found" using all[OF True] d(3) by (auto simp: filter_empty_conv)
    then show ?thesis unfolding u one items using hit by auto
  next
    case False
    then have u: "updateCachedCurrentPrices C cfg chain currency found asked s =
        cacheMset C ?nulls (Some (cacheTTLInSeconds cfg)) (cacheMset C ?items (Some (cacheTTLInSeconds cfg)) s)"
      by (simp add: updateCachedCurrentPrices_def Let_def)
    show ?thesis unfolding u two one items nulls using d(3) hit miss by auto
  qed
qed

definition price_of :: "'v current_price list \<Rightarrow> string \<Rightarrow> 'v js_value" where
  "price_of found a = (case find (\<lambda>p. cp_address p = a) found of Some p \<Rightarrow> cp_value p | None \<Rightarrow> Null)"

lemma rows_get:
  "list_all (\<lambda>a. entry_address (f a) = Some a) as \<Longrightarrow>
   js_get (mapRowsToCurrentPrices (map f as)) k = (if k \<in> set as then Some (entry_value (f k)) else None)"
proof -
  have "list_all (\<lambda>a. entry_address (f a) = Some a) as \<Longrightarrow>
     js_get (foldl (\<lambda>m row. js_put m (case entry_address row of Some a \<Rightarrow> a | None \<Rightarrow> ''undefined'') (entry_value row)) m (map f as)) k
       = (if k \<in> set as then Some (entry_value (f k)) else js_get m k)" for m
    by (induction as arbitrary: m) auto
  from this[of "[]"] show "list_all (\<lambda>a. entry_address (f a) = Some a) as \<Longrightarrow> ?thesis" by (simp add: mapRowsToCurrentPrices_def)
qed

lemma fetchPrices_all_cached:
  assumes "cache_store C" "\<And>a. a \<in> set addresses \<Longrightarrow> cm_get C (getCurrentPriceKey chain currency a) s = Val (f a) \<and> entry_address (f a) = Some a"
  shows "fetchPrices C D cfg chainById currencyById chain currency addresses s =
    (\<lparr> re_prices = mapRowsToCurrentPrices (map f addresses), re_chain = chainById chain, re_currency = currencyById currency \<rparr>, s)"
proof -
  have "own_entries C chain currency addresses s" using assms(2) by (simp add: own_entries_def list_all_iff)
  moreover have "concat (map (hits C chain currency s) addresses) = map f addresses"
    using assms(2) by (induction addresses) (auto simp: hits_def)
  moreover have "filter (\<lambda>a. \<not> present (cm_get C (getCurrentPriceKey chain currency a) s)) addresses = []"
    using assms(2) by (simp add: filter_empty_conv)
  ultimately show ?thesis by (simp add: fetchPrices_def getCachedCurrentPrices_own[OF assms(1)])
qed

definition asked_for :: "('s, 'v) price_cache \<Rightarrow> int \<Rightarrow> int \<Rightarrow> string list \<Rightarrow> 's \<Rightarrow> string list" where
  "asked_for C chain currency addresses s =
     filter (\<lambda>a. \<not> present (cm_get C (getCurrentPriceKey chain currency a) s)) addresses"

lemma fetchPrices_state:
  assumes "cache_store C" "own_entries C chain currency addresses s"
  shows "snd (fetchPrices C D cfg chainById currencyById chain currency addresses s) =
    (if asked_for C chain currency addresses s = [] then s
     else updateCachedCurrentPrices C cfg chain currency
       (getCurrentPricesByAddressesAndChain D (asked_for C chain currency addresses s) chain s)
       (asked_for C chain currency addresses s) s)"
  by (simp add: fetchPrices_def getCachedCurrentPrices_own[OF assms] asked_for_def Let_def)

text \<open>After a request for current prices, the same request is answered from the cache alone, whatever the
  database holds by then: an address that was in the cache with its entry, an address the database knew with the price
  it gave, and an address the database does not know with \<open>null\<close>; the cache is not written again.\<close>

theorem fetchPrices_second_request:
  assumes "cache_store C" "own_entries C chain currency addresses s" "distinct addresses"
    and "found = getCurrentPricesByAddressesAndChain D (asked_for C chain currency addresses s) chain s"
    and "distinct (map cp_address found)" "cp_address ` set found \<subseteq> set (asked_for C chain currency addresses s)"
    and "s' = snd (fetchPrices C D cfg chainById currencyById chain currency addresses s)"
    and "(r, s2) = fetchPrices C D2 cfg chainById currencyById chain currency addresses s'"
  shows "s2 = s' \<and> js_get (re_prices r) a = (if a \<in> set addresses
      then Some (case cm_get C (getCurrentPriceKey chain currency a) s of Val e \<Rightarrow> entry_value e | _ \<Rightarrow> price_of found a)
      else None)"
proof -
  let ?k = "getCurrentPriceKey chain currency"
  let ?asked = "asked_for C chain currency addresses s"
  define f where "f a = (case cm_get C (?k a) s of Val e \<Rightarrow> e
    | _ \<Rightarrow> Current (case find (\<lambda>p. cp_address p = a) found of Some p \<Rightarrow> p | None \<Rightarrow> \<lparr> cp_address = a, cp_value = Null \<rparr>))" for a
  have own: "entry_address (f a) = Some a" if "a \<in> set addresses" for a
    using that assms(2) by (auto simp: f_def own_entries_def list_all_iff split: js_value.splits option.splits dest: find_SomeD)
  have s': "cm_get C (?k a) s' = Val (f a)" if a: "a \<in> set addresses" for a
  proof (cases "a \<in> set ?asked")
    case True
    then have ne: "?asked \<noteq> []" and np: "\<not> present (cm_get C (?k a) s)" by (auto simp: asked_for_def filter_empty_conv)
    have d: "distinct ?asked" using assms(3) by (simp add: asked_for_def)
    have "s' = updateCachedCurrentPrices C cfg chain currency found ?asked s"
      using ne by (simp add: assms(7) fetchPrices_state[OF assms(1,2)] assms(4))
    then show ?thesis using True np by (cases "cm_get C (?k a) s") (simp_all add: after_update[OF assms(1,5) d assms(6)] f_def)
  next
    case False
    then obtain e where e: "cm_get C (?k a) s = Val e" using a by (auto simp: asked_for_def present_iff)
    have d: "distinct ?asked" using assms(3) by (simp add: asked_for_def)
    have "s' = s \<or> s' = updateCachedCurrentPrices C cfg chain currency found ?asked s"
      by (simp add: assms(7) fetchPrices_state[OF assms(1,2)] assms(4))
    then have "cm_get C (?k a) s' = cm_get C (?k a) s" using False by (auto simp: after_update[OF assms(1,5) d assms(6)])
    then show ?thesis using e by (simp add: f_def)
  qed
  have "(r, s2) = (\<lparr> re_prices = mapRowsToCurrentPrices (map f addresses), re_chain = chainById chain, re_currency = currencyById currency \<rparr>, s')"
    unfolding assms(8) by (rule fetchPrices_all_cached[OF assms(1)]) (simp add: s' own)
  moreover have "js_get (mapRowsToCurrentPrices (map f addresses)) a = (if a \<in> set addresses then Some (entry_value (f a)) else None)"
    using own by (intro rows_get) (simp add: list_all_iff)
  moreover have "entry_value (f a) = (case cm_get C (?k a) s of Val e \<Rightarrow> entry_value e | _ \<Rightarrow> price_of found a)"
    by (simp add: f_def price_of_def split: js_value.split option.split)
  ultimately show ?thesis by simp
qed


definition price_db :: "int current_price list \<Rightarrow> ('s, int) price_db" where
  "price_db known = \<lparr> db_pricesFor = (\<lambda>_ _ _ _. [\<lparr> row_address = ''0xa'', row_timestamp = Some 10, row_value = 4 \<rparr>]),
     db_currentFor = (\<lambda>_ _ _. known), db_findAssets = (\<lambda>_ _. []), db_saveAssets = (\<lambda>_ s. ([], s)), db_saveCurrent = (\<lambda>_ s. ([], s)) \<rparr>"

lemma memory_read: "cm_get memory_cache k s = memory_get k s"
  by (simp add: memory_cache_def)

theorem fetchPrices_second_request_witness:
  "let s' = snd (fetchPrices memory_cache (price_db [\<lparr> cp_address = ''0xa'', cp_value = Val 5 \<rparr>]) (mkPriceConfig None None None None)
        (\<lambda>i. i) (\<lambda>i. i) 1 2 [''0xa'', ''0xb''] []);
       r = fst (fetchPrices memory_cache (price_db []) (mkPriceConfig None None None None) (\<lambda>i. i) (\<lambda>i. i) 1 2 [''0xa'', ''0xb''] s')
   in js_get (re_prices r) ''0xa'' = Some (Val 5) \<and> js_get (re_prices r) ''0xb'' = Some Null"
proof -
  let ?found = "[\<lparr> cp_address = ''0xa'', cp_value = Val (5 :: int) \<rparr>]"
  have asked: "asked_for (memory_cache :: (_, int price_entry, int) cache_manager) 1 2 [''0xa'', ''0xb''] [] = [''0xa'', ''0xb'']"
    by (simp add: asked_for_def memory_cache_def memory_get_def)
  note second = fetchPrices_second_request[where C = memory_cache and D = "price_db ?found" and ?D2.0 = "price_db []" and chain = 1
      and currency = 2 and addresses = "[''0xa'', ''0xb'']" and s = "[]" and found = ?found and cfg = "mkPriceConfig None None None None"
      and chainById = "\<lambda>i. i" and currencyById = "\<lambda>i. i", OF memory.cache_store_axioms _ _ _ _ _ refl prod.collapse]
  have "own_entries memory_cache 1 2 [''0xa'', ''0xb''] ([] :: (string, int price_entry js_value) js_map)"
    by (simp add: own_entries_def memory_cache_def memory_get_def)
  then show ?thesis
    using second[of "''0xa''"] second[of "''0xb''"]
    by (simp add: asked getCurrentPricesByAddressesAndChain_def price_of_def memory_read memory_get_def Let_def)
      (simp add: price_db_def)
qed

theorem historical_prices_null_witness:
  "js_get (snd (hd (re_prices (fst (getHistoricalPrices memory_cache (price_db []) plain_lodash (mkPriceConfig None None None None)
     (\<lambda>i. i) (\<lambda>i. i) 1 2 [''0xa''] [Some 10] []))))) ''10'' = Some Null"
proof -
  let ?r = "getHistoricalPrices memory_cache (price_db []) plain_lodash (mkPriceConfig None None None None) (\<lambda>i. i :: int) (\<lambda>i. i) 1 2 [''0xa''] [Some 10] []"
  have un: "getCachedPrices (memory_cache :: (_, int price_entry, int) cache_manager) 1 2 [''0xa''] [] = ([], [''0xa''])"
    by (simp add: getCachedPrices_def cacheGet_def memory_cache_def memory_get_def)
  obtain m v where m: "re_prices (fst ?r) = [(''0xa'', m)]" "js_get m ''10'' = Some v"
    by (simp add: getHistoricalPrices_def matchPrices_def time_text_def show_int_def decimal.simps digit_def case_prod_beta)
  then show ?thesis using historical_prices_null[OF plain_lodash.lodash_laws_axioms un prod.collapse[symmetric], where a = "''0xa''" and m = m and t = "''10''" and v = v, of "price_db []" "mkPriceConfig None None None None" "\<lambda>i. i" "\<lambda>i. i" "[Some 10]"] by simp
qed

section \<open>The other cache of prices\<close>

definition listed :: "('s, 'v) price_cache \<Rightarrow> int \<Rightarrow> int \<Rightarrow> 's \<Rightarrow> string \<Rightarrow> 'v timestamp_price list" where
  "listed C chain currency s a = (case cm_get C (getCacheKey chain currency a) s of Val (PriceList ps) \<Rightarrow> ps | _ \<Rightarrow> [])"

lemma getCachedPrices_split:
  "getCachedPrices C chain currency addresses s =
    (map (\<lambda>a. \<lparr> ap_address = a, ap_prices = listed C chain currency s a \<rparr>) (filter (\<lambda>a. listed C chain currency s a \<noteq> []) addresses),
     filter (\<lambda>a. listed C chain currency s a = []) addresses)"
proof -
  let ?step = "\<lambda>(cached, notCached) address. case cacheGet C (getCacheKey chain currency address) s of
         Val (PriceList ps) \<Rightarrow> (if ps \<noteq> [] then (cached @ [\<lparr> ap_address = address, ap_prices = ps \<rparr>], notCached)
            else (cached, notCached @ [address]))
       | _ \<Rightarrow> (cached, notCached @ [address])"
  have "foldl ?step (c, n) addresses = (c @ map (\<lambda>a. \<lparr> ap_address = a, ap_prices = listed C chain currency s a \<rparr>)
      (filter (\<lambda>a. listed C chain currency s a \<noteq> []) addresses), n @ filter (\<lambda>a. listed C chain currency s a = []) addresses)" for c n
    by (induction addresses arbitrary: c n) (auto simp: listed_def cacheGet_def split: js_value.split price_entry.split)
  then show ?thesis by (simp add: getCachedPrices_def)
qed

lemma set_prices_get:
  assumes "cache_store C"
  shows "cm_get C (getCacheKey chain currency a) (foldl (\<lambda>s p. cacheSet C (getCacheKey chain currency (ap_address p))
      (Val (PriceList (ap_prices p))) o1 s) s ps) =
    (case find (\<lambda>p. ap_address p = a) (rev ps) of Some p \<Rightarrow> Val (PriceList (ap_prices p)) | None \<Rightarrow> cm_get C (getCacheKey chain currency a) s)"
proof (induction ps rule: rev_induct)
  case (snoc p ps)
  then show ?case by (simp add: cacheSet_def cache_store.get_set[OF assms])
qed simp

lemma set_unknown_get:
  assumes "cache_store C"
  shows "cm_get C (getCacheKey chain currency a) (foldl (\<lambda>s address. (let cacheKey = getCacheKey chain currency address in
      if \<not> present (cacheGet C cacheKey s) then cacheSet C cacheKey (Val (PriceList [])) o1 s else s)) s as) =
    (if a \<in> set as \<and> \<not> present (cm_get C (getCacheKey chain currency a) s) then Val (PriceList [])
     else cm_get C (getCacheKey chain currency a) s)"
  by (induction as arbitrary: s) (auto simp: Let_def cacheSet_def cacheGet_def cache_store.get_set[OF assms])

text \<open>\<open>updateCachedPrices\<close> writes an empty list for every address without a price, so that it is not
  asked for again; but \<open>getCachedPrices\<close> counts an empty list as not cached, so exactly the addresses with a
  non-empty list of prices are answered from the cache afterwards and every unknown one is asked for again.\<close>

theorem unknown_prices_asked_again:
  assumes "cache_store C" "list_all (\<lambda>p. ap_prices p \<noteq> []) found"
    and "list_all (\<lambda>a. listed C chain currency s a = []) addresses"
  shows "snd (getCachedPrices C chain currency addresses (updateCachedPrices C cfg chain currency addresses found s))
    = filter (\<lambda>a. a \<notin> ap_address ` set found) addresses"
proof -
  define s' where "s' = updateCachedPrices C cfg chain currency addresses found s"
  define s1 where "s1 = foldl (\<lambda>s p. cacheSet C (getCacheKey chain currency (ap_address p)) (Val (PriceList (ap_prices p)))
    (Some (cacheTTLInSeconds cfg)) s) s found"
  have s1: "cm_get C (getCacheKey chain currency a) s1 = (case find (\<lambda>p. ap_address p = a) (rev found) of
      Some p \<Rightarrow> Val (PriceList (ap_prices p)) | None \<Rightarrow> cm_get C (getCacheKey chain currency a) s)" for a
    unfolding s1_def by (rule set_prices_get[OF assms(1)])
  have s': "cm_get C (getCacheKey chain currency a) s' = (if a \<in> set addresses \<and> \<not> present (cm_get C (getCacheKey chain currency a) s1)
      then Val (PriceList []) else cm_get C (getCacheKey chain currency a) s1)" for a
    unfolding s'_def updateCachedPrices_def s1_def[symmetric] Let_def[of s1] by (rule set_unknown_get[OF assms(1)])
  have "listed C chain currency s' a = [] \<longleftrightarrow> a \<notin> ap_address ` set found" if a: "a \<in> set addresses" for a
  proof (cases "find (\<lambda>p. ap_address p = a) (rev found)")
    case None
    then have "a \<notin> ap_address ` set found" by (auto dest: find_NoneD)
    moreover have "listed C chain currency s a = []" using a assms(3) by (simp add: list_all_iff)
    ultimately show ?thesis using None by (simp add: listed_def s' s1)
  next
    case (Some p)
    then have "p \<in> set found" "ap_address p = a" by (auto dest: find_SomeD)
    then show ?thesis using Some assms(2) by (auto simp: listed_def s' s1 list_all_iff)
  qed
  then show ?thesis by (simp add: getCachedPrices_split s'_def cong: filter_cong)
qed


theorem unknown_prices_asked_again_witness:
  "snd (getCachedPrices memory_cache 1 2 [''0xa'', ''0xb''] (updateCachedPrices memory_cache (mkPriceConfig None None None None) 1 2 [''0xa'', ''0xb'']
     [\<lparr> ap_address = ''0xa'', ap_prices = quotes \<rparr>] [])) = [''0xb'']"
  using unknown_prices_asked_again[OF memory.cache_store_axioms, where found = "[\<lparr> ap_address = ''0xa'', ap_prices = quotes \<rparr>]"
      and chain = 1 and currency = 2 and addresses = "[''0xa'', ''0xb'']" and s = "[]" and cfg = "mkPriceConfig None None None None"]
  by (simp add: quotes_def listed_def memory_read memory_get_def)

section \<open>Requests in the cache\<close>

text \<open>Between \<open>updatePricesInCache\<close> and the writes that follow the update of the database, a request for
  the updated addresses is answered from the cache with \<open>undefined\<close> prices, although the new prices are known: what was
  cached are the requests, which carry \<open>price\<close> and not \<open>value\<close>.\<close>

theorem updated_prices_undefined:
  assumes "cache_store C" "distinct (map rq_address prices)"
    and "list_all (\<lambda>p. rq_chainId p = chain \<and> rq_currencyId p = currency) prices"
    and "s' = updatePricesInCache C cfg prices s"
  shows "snd (fetchPrices C D cfg chainById currencyById chain currency (map rq_address prices) s') = s'
    \<and> js_get (re_prices (fst (fetchPrices C D cfg chainById currencyById chain currency (map rq_address prices) s'))) a
      = (if a \<in> rq_address ` set prices then Some Undef else None)"
proof -
  let ?k = "getCurrentPriceKey chain currency"
  let ?items = "map (\<lambda>p. (?k (rq_address p), Val (Request p))) prices"
  define f where "f a = Request (the (find (\<lambda>p. rq_address p = a) prices))" for a
  have items: "map (\<lambda>p. (getCurrentPriceKey (rq_chainId p) (rq_currencyId p) (rq_address p), Val (Request p))) prices = ?items"
    using assms(3) by (simp add: list_all_iff)
  have defd: "filter (\<lambda>(k, v). v \<noteq> Undef) ?items = ?items" by (auto simp: filter_map comp_def)
  have d: "distinct (map (\<lambda>p. ?k (rq_address p)) prices)" using assms(2) by (simp add: distinct_map inj_on_def)
  have cached: "cm_get C (?k a) s' = Val (f a) \<and> entry_address (f a) = Some a" if "a \<in> set (map rq_address prices)" for a
  proof -
    obtain p where p: "p \<in> set prices" "rq_address p = a" using \<open>a \<in> set (map rq_address prices)\<close> by auto
    obtain q where q: "find (\<lambda>p. rq_address p = a) prices = Some q"
      using p by (cases "find (\<lambda>p. rq_address p = a) prices") (auto dest: find_NoneD)
    then have "q \<in> set prices" "rq_address q = a" by (auto dest: find_SomeD)
    then have "q = p" using p assms(2) by (auto simp: distinct_map inj_on_def)
    then have "f a = Request p" using q by (simp add: f_def)
    moreover have "cm_get C (?k a) s' = Val (Request p)"
      unfolding assms(4) updatePricesInCache_def items cache_store.get_cacheMset[OF assms(1)] defd
      using map_of_cacheItems[OF d p(1), of "\<lambda>p. Val (Request p)"] p(2) by simp
    ultimately show ?thesis using p(2) by simp
  qed
  have "fetchPrices C D cfg chainById currencyById chain currency (map rq_address prices) s' =
      (\<lparr> re_prices = mapRowsToCurrentPrices (map f (map rq_address prices)), re_chain = chainById chain, re_currency = currencyById currency \<rparr>, s')"
    by (rule fetchPrices_all_cached[OF assms(1) cached])
  moreover have "js_get (mapRowsToCurrentPrices (map f (map rq_address prices))) a
      = (if a \<in> set (map rq_address prices) then Some (entry_value (f a)) else None)"
    using cached by (intro rows_get) (simp add: list_all_iff)
  ultimately show ?thesis by (simp add: f_def)
qed

theorem updated_prices_undefined_witness:
  "js_get (re_prices (fst (fetchPrices memory_cache (price_db []) (mkPriceConfig None None None None) (\<lambda>i. i) (\<lambda>i. i) 1 2 [''0xa'']
     (updatePricesInCache memory_cache (mkPriceConfig None None None None)
       [\<lparr> rq_address = ''0xa'', rq_price = 5, rq_chainId = 1, rq_currencyId = 2, rq_sourceId = None \<rparr>] [])))) ''0xa'' = Some Undef"
  using updated_prices_undefined[OF memory.cache_store_axioms _ _ refl, where chain = 1 and currency = 2 and D = "price_db []"
      and prices = "[\<lparr> rq_address = ''0xa'', rq_price = 5, rq_chainId = 1, rq_currencyId = 2, rq_sourceId = None \<rparr>]"
      and cfg = "mkPriceConfig None None None None" and s = "[]" and a = "''0xa''" and chainById = "\<lambda>i. i" and currencyById = "\<lambda>i. i"]
  by simp

section \<open>Ranges\<close>

lemma getRangeTimestamps_all: "n \<noteq> 0 \<Longrightarrow>
    getRangeTimestamps nowMs All (Some (Some n)) =
      interpolation (Some (nowMs div 1000)) (TimeframeFrequentlyInMin All) (getStepCount 1440 365)"
  by (simp add: getRangeTimestamps_def)

lemma getRangeTimestamps_all_unknown: "set (getRangeTimestamps nowMs All None) = {None}"
  by (simp add: getRangeTimestamps_def interpolation_def getStepCount_def image_constant_conv)

lemma dateToTimestamp_exact: "0 \<le> ms \<Longrightarrow> ms < 2 ^ 31 * 1000 \<Longrightarrow> dateToTimestamp ms = ms div 1000"
  by (simp add: dateToTimestamp_def mod_pos_pos_trivial)

lemma dateToTimestamp_overflow: "dateToTimestamp (2 ^ 31 * 1000) = - (2 ^ 31)"
  by (simp add: dateToTimestamp_def)

end
