(* ===== verification/Transfers.thy ===== *)
theory Transfers
  imports Collections Cache
begin

text \<open>
  Token transfers of the account service: the merging of responses in \<open>apps/account/src/common/utils/index.ts\<close>, the
  service \<open>apps/account/src/modules/transfers/transfers.service.ts\<close>, the scan clients
  \<open>apps/account/src/common/providers/chainRelated/scans/scan.api.service.ts\<close> and the conversion of the events of
  \<open>modules/approvals/contracts/WETH.ts\<close>.  Numbers of JavaScript are rational numbers (rounding is not modelled), \<open>NaN\<close>
  is \<open>None\<close>.  The database, the scan servers, the price server, the subgraph and the contract are functions given as
  parameters; a thrown error is the left side of a sum.
\<close>

section \<open>Numbers\<close>

definition totalPrice :: "string \<Rightarrow> rat js_value \<Rightarrow> nat \<Rightarrow> js_number" where
  "totalPrice amount price decimals = (case (text_number amount, price) of
     (Some a, Val p) \<Rightarrow> Some (a * p / 10 ^ decimals) | _ \<Rightarrow> None)"

definition transactionFeeUSD :: "rat \<Rightarrow> rat \<Rightarrow> nat \<Rightarrow> rat js_value \<Rightarrow> js_number" where
  "transactionFeeUSD gasPrice gasUsed decimals ethPrice = (case ethPrice of
     Val p \<Rightarrow> Some (gasPrice * gasUsed / 10 ^ decimals * p) | _ \<Rightarrow> None)"

definition DEFAULT_MULTIPLIER :: rat where
  "DEFAULT_MULTIPLIER = 1 / 10 ^ 18"

definition getTokenDecimals :: "nat \<Rightarrow> rat" where
  "getTokenDecimals decimals = (if decimals \<noteq> 0 then 1 / 10 ^ decimals else DEFAULT_MULTIPLIER)"

section \<open>Data\<close>

record erc20_token =
  tk_address :: string
  tk_chainId :: "int js_value"
  tk_name :: string
  tk_symbol :: string
  tk_decimals :: nat

record erc20_transfer =
  et_fromAddress :: string
  et_toAddress :: string
  et_amount :: string
  et_token :: erc20_token
  et_tokenPriceUSD :: "rat js_value"
  et_totalPriceUSD :: "js_number js_value"

record scan_transfer =
  sc_chainId :: int
  sc_hash :: string
  sc_blockNumber :: int
  sc_blockTimeStamp :: "int option"
  sc_gas :: "rat option"
  sc_gasPrice :: "rat option"
  sc_gasUsed :: "rat option"
  sc_erc20 :: "erc20_transfer list"

text \<open>A row of the database; the last three fields are filled in by the service.\<close>

record transfer_row =
  tr_hash :: string
  tr_fromAddress :: string
  tr_toAddress :: string
  tr_blockTimeStamp :: string
  tr_amount :: string
  tr_tokenAddress :: string
  tr_tokenName :: string
  tr_tokenSymbol :: string
  tr_tokenDecimals :: nat
  tr_tokenPrice :: "rat js_value"
  tr_tokenPriceUSD :: "rat js_value"
  tr_totalPriceUSD :: "js_number js_value"

record transfer =
  tf_chainId :: int
  tf_hash :: string
  tf_blockTimeStamp :: string
  tf_erc20 :: "erc20_transfer list"

type_synonym 't transfers_response = "(string, 't list) js_map"

type_synonym 'k price_map = "(string, ('k, rat js_value) js_map) js_map"

section \<open>Merging responses\<close>

definition mergeTransfersByAddress :: "'t transfers_response \<Rightarrow> 't transfers_response \<Rightarrow> 't transfers_response" where
  "mergeTransfersByAddress transfers1 transfers2 =
     foldl (\<lambda>result (key, value). case js_get result key of
         Some t1Value \<Rightarrow> js_put result key (t1Value @ value)
       | None \<Rightarrow> js_put result key value) transfers1 transfers2"

definition combineResults :: "'t transfers_response \<Rightarrow> 't transfers_response \<Rightarrow> 't transfers_response" where
  "combineResults resultArray chainArray =
     (let chainKeys = js_keys chainArray in
      if chainKeys \<noteq> []
      then foldl (\<lambda>result transfer. if transfer \<in> set (js_keys result)
             then js_put result transfer (the (js_get result transfer) @ the (js_get chainArray transfer))
             else js_put result transfer (the (js_get chainArray transfer))) resultArray chainKeys
      else resultArray)"

definition truthy_int :: "int option \<Rightarrow> bool" where
  "truthy_int v \<longleftrightarrow> v \<noteq> None \<and> v \<noteq> Some 0"

definition mergeTransfer :: "scan_transfer \<Rightarrow> scan_transfer \<Rightarrow> scan_transfer" where
  "mergeTransfer t1 t2 = \<lparr> sc_chainId = sc_chainId t2, sc_hash = sc_hash t2, sc_blockNumber = sc_blockNumber t2,
     sc_blockTimeStamp = (if truthy_int (sc_blockTimeStamp t2) then sc_blockTimeStamp t2 else sc_blockTimeStamp t1),
     sc_gas = (if truthy_num (sc_gas t2) then sc_gas t2 else sc_gas t1),
     sc_gasPrice = (if truthy_num (sc_gasPrice t2) then sc_gasPrice t2 else sc_gasPrice t1),
     sc_gasUsed = (if truthy_num (sc_gasUsed t2) then sc_gasUsed t2 else sc_gasUsed t1),
     sc_erc20 = sc_erc20 t1 @ sc_erc20 t2 \<rparr>"

text \<open>The transfer of a hash that occurs in one of the two lists; \<open>undefined\<close> otherwise.\<close>

definition mergedOf :: "scan_transfer list \<Rightarrow> scan_transfer list \<Rightarrow> string \<Rightarrow> scan_transfer list" where
  "mergedOf rsp1 rsp2 hash =
     (case (find (\<lambda>t. sc_hash t = hash) rsp1, find (\<lambda>t. sc_hash t = hash) rsp2) of
        (Some t1, Some t2) \<Rightarrow> [mergeTransfer t1 t2]
      | (Some t1, None) \<Rightarrow> [t1]
      | (None, Some t2) \<Rightarrow> [t2]
      | (None, None) \<Rightarrow> [])"

definition mergeTransfersResponse ::
  "string list \<Rightarrow> scan_transfer transfers_response \<Rightarrow> scan_transfer transfers_response \<Rightarrow> scan_transfer transfers_response" where
  "mergeTransfersResponse addresses response1 response2 =
     foldl (\<lambda>final a. case (js_get response1 a, js_get response2 a) of
         (None, None) \<Rightarrow> js_put final a []
       | (Some rsp1, None) \<Rightarrow> js_put final a rsp1
       | (None, Some rsp2) \<Rightarrow> js_put final a rsp2
       | (Some rsp1, Some rsp2) \<Rightarrow>
           (let transactionHashes = foldl (\<lambda>acc c. if list_ex (\<lambda>h. h = c) acc then acc else acc @ [c]) []
                  (map sc_hash rsp1 @ map sc_hash rsp2)
            in foldl (\<lambda>final hash. case js_get final a of
                 None \<Rightarrow> js_put final a (mergedOf rsp1 rsp2 hash)
               | Some ts \<Rightarrow> js_put final a (ts @ mergedOf rsp1 rsp2 hash)) final transactionHashes))
       [] addresses"

section \<open>Events of the wrapped coin\<close>

record weth_event =
  we_user :: string
  we_wad :: string
  we_hash :: string
  we_block :: int

definition wethAddress :: string where
  "wethAddress = ''0xc02aaa39b223fe8d0a0e5c4f27ead9083c756cc2''"

definition wethToken :: erc20_token where
  "wethToken = \<lparr> tk_address = wethAddress, tk_chainId = Val 1, tk_name = ''Wrapped Ether'', tk_symbol = ''WETH'', tk_decimals = 18 \<rparr>"

definition depositTransfer :: "weth_event \<Rightarrow> erc20_transfer" where
  "depositTransfer d = \<lparr> et_fromAddress = wethAddress, et_toAddress = to_lower (we_user d), et_amount = we_wad d,
     et_token = wethToken, et_tokenPriceUSD = Null, et_totalPriceUSD = Null \<rparr>"

definition withdrawalTransfer :: "weth_event \<Rightarrow> erc20_transfer" where
  "withdrawalTransfer w = \<lparr> et_fromAddress = to_lower (we_user w), et_toAddress = wethAddress, et_amount = we_wad w,
     et_token = wethToken, et_tokenPriceUSD = Null, et_totalPriceUSD = Null \<rparr>"

text \<open>
  The step both conversions share.  A transaction that is found is changed in place and appended once more: the
  entries with its hash are one object, so that the change is seen in all of them.
\<close>

definition addEvent :: "erc20_transfer \<Rightarrow> weth_event \<Rightarrow> scan_transfer list \<Rightarrow> scan_transfer list" where
  "addEvent erc20Transfer event transfers =
     (case find (\<lambda>t. sc_hash t = we_hash event) transfers of
        None \<Rightarrow> transfers @ [\<lparr> sc_chainId = 1, sc_hash = we_hash event, sc_blockNumber = we_block event,
          sc_blockTimeStamp = None, sc_gas = None, sc_gasPrice = None, sc_gasUsed = None, sc_erc20 = [erc20Transfer] \<rparr>]
      | Some t \<Rightarrow> (let t' = t\<lparr> sc_erc20 := sc_erc20 t @ [erc20Transfer] \<rparr>
          in map (\<lambda>u. if sc_hash u = we_hash event then t' else u) transfers @ [t']))"

definition depositsToTransfersResponse :: "weth_event list \<Rightarrow> scan_transfer transfers_response" where
  "depositsToTransfersResponse deposits =
     foldl (\<lambda>response deposit. (let userAddress = to_lower (we_user deposit) in
       js_put response userAddress (addEvent (depositTransfer deposit) deposit
         (case js_get response userAddress of Some ts \<Rightarrow> ts | None \<Rightarrow> [])))) [] deposits"

definition withdrawalsToTransfersResponse :: "weth_event list \<Rightarrow> scan_transfer transfers_response" where
  "withdrawalsToTransfersResponse withdrawals =
     foldl (\<lambda>response withdrawal. (let userAddress = to_lower (we_user withdrawal) in
       js_put response userAddress (addEvent (withdrawalTransfer withdrawal) withdrawal
         (case js_get response userAddress of Some ts \<Rightarrow> ts | None \<Rightarrow> [])))) [] withdrawals"

text \<open>\<open>AssetService.getConvertedTransfers\<close>; the two queries of events may fail.\<close>

definition getConvertedTransfers ::
  "(string list \<Rightarrow> string + weth_event list) \<Rightarrow> (string list \<Rightarrow> string + weth_event list) \<Rightarrow> string list
    \<Rightarrow> string + scan_transfer transfers_response" where
  "getConvertedTransfers depositEvents withdrawalEvents addresses =
     sum_bind (depositEvents addresses) (\<lambda>deposits. sum_bind (withdrawalEvents addresses) (\<lambda>withdrawals.
       Inr (mergeTransfersResponse addresses (depositsToTransfersResponse deposits)
         (withdrawalsToTransfersResponse withdrawals))))"

section \<open>Transfers from the database\<close>

text \<open>The request for prices: the distinct tokens, each with the times of its rows.\<close>

definition priceAssets :: "transfer_row list \<Rightarrow> (string \<times> string list) list" where
  "priceAssets transferRows =
     (let tokenAddresses = foldl set_add [] (map tr_tokenAddress transferRows)
      in map (\<lambda>a. (a, map tr_blockTimeStamp (filter (\<lambda>tr. tr_tokenAddress tr = a) transferRows))) tokenAddresses)"

definition getPrices ::
  "((string \<times> string list) list \<Rightarrow> int \<Rightarrow> string + string price_map) \<Rightarrow> transfer_row list \<Rightarrow> int \<Rightarrow> string + string price_map" where
  "getPrices getHistoricalPrices transferRows chainId = getHistoricalPrices (priceAssets transferRows) chainId"

definition priceRow :: "string price_map \<Rightarrow> transfer_row \<Rightarrow> transfer_row" where
  "priceRow priceData ts =
     (let price = (case js_get priceData (tr_tokenAddress ts) of
            Some prices \<Rightarrow> (case js_get prices (tr_blockTimeStamp ts) of Some v \<Rightarrow> v | None \<Rightarrow> Undef)
          | None \<Rightarrow> Null);
          decimals = getTokenDecimals (tr_tokenDecimals ts);
          tokenPrice = (if price \<noteq> Undef then price else Null)
      in ts \<lparr> tr_tokenPrice := tokenPrice, tr_tokenPriceUSD := tokenPrice,
         tr_totalPriceUSD := (case tokenPrice of
             Val p \<Rightarrow> (if p \<noteq> 0 then Val (map_option (\<lambda>a. a * decimals * p) (text_number (tr_amount ts))) else Val (Some p))
           | Null \<Rightarrow> Null | Undef \<Rightarrow> Undef) \<rparr>)"

definition addPrices :: "transfer_row list \<Rightarrow> string price_map \<Rightarrow> transfer_row list" where
  "addPrices transferRows priceData = map (priceRow priceData) transferRows"

definition mkErc20Transfer :: "transfer_row \<Rightarrow> erc20_transfer" where
  "mkErc20Transfer t = \<lparr> et_fromAddress = tr_fromAddress t, et_toAddress = tr_toAddress t, et_amount = tr_amount t,
     et_token = \<lparr> tk_address = tr_tokenAddress t, tk_chainId = Undef, tk_name = tr_tokenName t, tk_symbol = tr_tokenSymbol t,
       tk_decimals = tr_tokenDecimals t \<rparr>,
     et_tokenPriceUSD = tr_tokenPriceUSD t, et_totalPriceUSD = tr_totalPriceUSD t \<rparr>"

text \<open>Reading the hash of the first transfer throws when no transfer has the hash.\<close>

definition transactionOf :: "transfer_row list \<Rightarrow> int \<Rightarrow> string \<Rightarrow> string + transfer" where
  "transactionOf userTransactions chainId hash =
     (let hashTransfers = filter (\<lambda>ts. tr_hash ts = hash) userTransactions in
      case hashTransfers of
        [] \<Rightarrow> Inl ''TypeError''
      | t # _ \<Rightarrow> Inr \<lparr> tf_chainId = chainId, tf_hash = tr_hash t, tf_blockTimeStamp = tr_blockTimeStamp t,
          tf_erc20 = map mkErc20Transfer hashTransfers \<rparr>)"

definition userTransactions :: "transfer_row list \<Rightarrow> string \<Rightarrow> transfer_row list" where
  "userTransactions transfers address = filter (\<lambda>t. tr_toAddress t = address \<or> tr_fromAddress t = address) transfers"

definition toTransfersResponse ::
  "transfer_row list \<Rightarrow> string list \<Rightarrow> int \<Rightarrow> string + transfer transfers_response" where
  "toTransfersResponse transfers addresses chainId =
     sum_foldl (\<lambda>response address.
       (let rows = userTransactions transfers address;
            uniqueUserHashes = getUniqueAndToLowerCaseArrayData (StringArray (map tr_hash rows))
        in sum_bind (sum_map (transactionOf rows chainId) uniqueUserHashes)
             (\<lambda>transactionWithTransfers. Inr (js_put response address transactionWithTransfers)))) [] addresses"

datatype ResultStatus = Ok | Error

record 'd detailed_response =
  dr_status :: ResultStatus
  dr_errors :: "string list"
  dr_data :: 'd

text \<open>\<open>queryTransfers\<close> gives the rows of the addresses on the chain; the price server may fail, which is only reported.\<close>

definition getTransfersByAddresses ::
  "(string list \<Rightarrow> int \<Rightarrow> string + transfer_row list) \<Rightarrow> ((string \<times> string list) list \<Rightarrow> int \<Rightarrow> string + string price_map)
    \<Rightarrow> string list \<Rightarrow> int \<Rightarrow> string + transfer transfers_response detailed_response" where
  "getTransfersByAddresses queryTransfers getHistoricalPrices addressArray chainId =
     sum_bind (queryTransfers addressArray chainId) (\<lambda>transferRows.
       (let (rows, status, errors) = (if transferRows \<noteq> [] then
            (case getPrices getHistoricalPrices transferRows chainId of
               Inr priceData \<Rightarrow> (if priceData \<noteq> [] then addPrices transferRows priceData else transferRows, Ok, [])
             | Inl e \<Rightarrow> (transferRows, Error, if e \<noteq> [] then [e] else []))
            else (transferRows, Ok, []))
        in sum_bind (toTransfersResponse rows addressArray chainId)
             (\<lambda>response. Inr \<lparr> dr_status = status, dr_errors = errors, dr_data = response \<rparr>)))"

definition getAllTransactionDataByAddress ::
  "(string list \<Rightarrow> int \<Rightarrow> string + transfer_row list) \<Rightarrow> ((string \<times> string list) list \<Rightarrow> int \<Rightarrow> string + string price_map)
    \<Rightarrow> string list \<Rightarrow> string + transfer transfers_response detailed_response" where
  "getAllTransactionDataByAddress queryTransfers getHistoricalPrices addresses =
     (let addressArray = getUniqueAndToLowerCaseArrayData (StringArray addresses) in
      sum_bind (getTransfersByAddresses queryTransfers getHistoricalPrices addressArray 1) (\<lambda>ethTransfers.
      sum_bind (getTransfersByAddresses queryTransfers getHistoricalPrices addressArray 2) (\<lambda>bscTransfers.
        (let errors = dr_errors ethTransfers @ dr_errors bscTransfers in
         Inr \<lparr> dr_status = (if errors \<noteq> [] then Error else Ok), dr_errors = errors,
           dr_data = mergeTransfersByAddress (dr_data ethTransfers) (dr_data bscTransfers) \<rparr>))))"

section \<open>Grouping by transaction\<close>

lemma sum_map_same_error:
  assumes "\<And>x. x \<in> set xs \<Longrightarrow> f x = (if P x then Inr (g x) else Inl e)"
  shows "sum_map f xs = (if list_all P xs then Inr (map g xs) else Inl e)"
  using assms by (induction xs) auto

lemma sum_foldl_same_error:
  assumes "\<And>s x. x \<in> set xs \<Longrightarrow> f s x = (if P x then Inr (g s x) else Inl e)"
  shows "sum_foldl f s xs = (if list_all P xs then Inr (foldl g s xs) else Inl e)"
  using assms by (induction xs arbitrary: s) auto

lemma foldl_put_keys: "set (js_keys (foldl (\<lambda>m a. js_put m a (f a)) m xs)) = set (js_keys m) \<union> set xs"
  by (induction xs arbitrary: m) auto

lemma foldl_put_lookup: "js_get (foldl (\<lambda>m a. js_put m a (f a)) m xs) k = (if k \<in> set xs then Some (f k) else js_get m k)"
  by (induction xs arbitrary: m) auto

definition groupOf :: "transfer_row list \<Rightarrow> int \<Rightarrow> string \<Rightarrow> transfer" where
  "groupOf us chainId h = \<lparr> tf_chainId = chainId, tf_hash = h,
     tf_blockTimeStamp = tr_blockTimeStamp (hd (filter (\<lambda>t. tr_hash t = h) us)),
     tf_erc20 = map mkErc20Transfer (filter (\<lambda>t. tr_hash t = h) us) \<rparr>"

lemma transactionOf_cases:
  "transactionOf us chainId h = (if h \<in> tr_hash ` set us then Inr (groupOf us chainId h) else Inl ''TypeError'')"
proof (cases "filter (\<lambda>t. tr_hash t = h) us")
  case (Cons t ts)
  then have "t \<in> set (filter (\<lambda>t. tr_hash t = h) us)" by simp
  then have t: "t \<in> set us" "tr_hash t = h" by auto
  then have "h \<in> tr_hash ` set us" by blast
  then show ?thesis using Cons t(2) by (simp add: transactionOf_def groupOf_def)
qed (auto simp: transactionOf_def filter_empty_conv)

definition lower_hashes :: "transfer_row list \<Rightarrow> string list" where
  "lower_hashes us = js_set (map to_lower (map tr_hash us))"

lemma unique_hashes: "getUniqueAndToLowerCaseArrayData (StringArray (map tr_hash us)) = lower_hashes us"
  by (simp only: getUniqueAndToLowerCaseArrayData_array lower_hashes_def)

lemma toTransfersResponse_eq:
  "toTransfersResponse rows addresses chainId =
    (if list_all (\<lambda>a. list_all (\<lambda>h. h \<in> tr_hash ` set (userTransactions rows a)) (lower_hashes (userTransactions rows a))) addresses
     then Inr (foldl (\<lambda>m a. js_put m a (map (groupOf (userTransactions rows a) chainId) (lower_hashes (userTransactions rows a)))) [] addresses)
     else Inl ''TypeError'')"
proof -
  have step: "sum_map (transactionOf us chainId) (lower_hashes us) =
      (if list_all (\<lambda>h. h \<in> tr_hash ` set us) (lower_hashes us) then Inr (map (groupOf us chainId) (lower_hashes us)) else Inl ''TypeError'')" for us
    by (rule sum_map_same_error) (rule transactionOf_cases)
  show ?thesis unfolding toTransfersResponse_def
    by (rule sum_foldl_same_error)
      (simp add: Let_def unique_hashes step del: map_map getUniqueAndToLowerCaseArrayData.simps)
qed

text \<open>The rows of the database are grouped for each asked address by transaction: hashes are not repeated and the
  transfers of an address are exactly its rows whose hash is in lower case, each once.  It throws exactly when a
  transaction of an address occurs only with a hash that is not in lower case; a row with such a hash beside a lower case one is lost.\<close>

theorem toTransfersResponse_partition:
  "case toTransfersResponse rows addresses chainId of
     Inl e \<Rightarrow> e = ''TypeError'' \<and>
       list_ex (\<lambda>a. list_ex (\<lambda>t. to_lower (tr_hash t) \<notin> tr_hash ` set (userTransactions rows a)) (userTransactions rows a)) addresses
   | Inr r \<Rightarrow> set (js_keys r) = set addresses \<and>
       list_all (\<lambda>a. let ts = the (js_get r a); us = userTransactions rows a in
         distinct (map tf_hash ts)
         \<and> mset (concat (map tf_erc20 ts)) = mset (map mkErc20Transfer (filter (\<lambda>t. to_lower (tr_hash t) = tr_hash t) us))
         \<and> list_all (\<lambda>t. to_lower (tr_hash t) \<in> tr_hash ` set us) us) addresses"
proof (cases "list_all (\<lambda>a. list_all (\<lambda>h. h \<in> tr_hash ` set (userTransactions rows a)) (lower_hashes (userTransactions rows a))) addresses")
  case False
  then have "toTransfersResponse rows addresses chainId = Inl ''TypeError''" by (simp only: toTransfersResponse_eq if_False)
  moreover have "list_ex (\<lambda>a. list_ex (\<lambda>t. to_lower (tr_hash t) \<notin> tr_hash ` set (userTransactions rows a)) (userTransactions rows a)) addresses"
    using False by (fastforce simp: list_all_iff list_ex_iff lower_hashes_def)
  ultimately show ?thesis by simp
next
  case True
  let ?r = "foldl (\<lambda>m a. js_put m a (map (groupOf (userTransactions rows a) chainId) (lower_hashes (userTransactions rows a)))) [] addresses"
  have r: "toTransfersResponse rows addresses chainId = Inr ?r" using True by (simp only: toTransfersResponse_eq if_True)
  have "distinct (map tf_hash (the (js_get ?r a)))
      \<and> mset (concat (map tf_erc20 (the (js_get ?r a)))) = mset (map mkErc20Transfer (filter (\<lambda>t. to_lower (tr_hash t) = tr_hash t) (userTransactions rows a)))
      \<and> list_all (\<lambda>t. to_lower (tr_hash t) \<in> tr_hash ` set (userTransactions rows a)) (userTransactions rows a)" if a: "a \<in> set addresses" for a
  proof -
    let ?us = "userTransactions rows a"
    have hs: "list_all (\<lambda>h. h \<in> tr_hash ` set ?us) (lower_hashes ?us)" using True a by (simp add: list_all_iff)
    have erc: "concat (map tf_erc20 (map (groupOf ?us chainId) (lower_hashes ?us))) =
        map mkErc20Transfer (concat (map (\<lambda>h. filter (\<lambda>t. tr_hash t = h) ?us) (lower_hashes ?us)))"
      by (simp add: map_concat groupOf_def comp_def)
    have low: "filter (\<lambda>t. tr_hash t \<in> set (lower_hashes ?us)) ?us = filter (\<lambda>t. to_lower (tr_hash t) = tr_hash t) ?us"
      by (rule filter_cong) (auto simp: lower_hashes_def image_iff, metis to_lower_idem)
    have "mset (concat (map tf_erc20 (map (groupOf ?us chainId) (lower_hashes ?us)))) =
        mset (map mkErc20Transfer (filter (\<lambda>t. to_lower (tr_hash t) = tr_hash t) ?us))"
      unfolding erc mset_map mset_by_key[OF distinct_js_set[of "map to_lower (map tr_hash ?us)", folded lower_hashes_def]] low ..
    moreover have "map tf_hash (map (groupOf ?us chainId) (lower_hashes ?us)) = lower_hashes ?us" by (simp add: groupOf_def comp_def)
    moreover have "list_all (\<lambda>t. to_lower (tr_hash t) \<in> tr_hash ` set ?us) ?us"
      using hs by (simp add: lower_hashes_def list_all_iff)
    ultimately show ?thesis using a by (simp add: foldl_put_lookup lower_hashes_def del: map_map)
  qed
  then show ?thesis by (simp add: r foldl_put_keys list_all_iff Let_def js_keys_def[of "[]"])
qed

section \<open>Merging two responses\<close>

lemma combine_merge: "js_wf r2 \<Longrightarrow> combineResults r1 r2 = mergeTransfersByAddress r1 r2"
proof -
  assume wf: "js_wf r2"
  have "foldl (\<lambda>result transfer. if transfer \<in> set (js_keys result)
             then js_put result transfer (the (js_get result transfer) @ the (js_get r2 transfer))
             else js_put result transfer (the (js_get r2 transfer))) r1 (map fst kvs) =
      foldl (\<lambda>result (key, value). case js_get result key of
         Some t1Value \<Rightarrow> js_put result key (t1Value @ value) | None \<Rightarrow> js_put result key value) r1 kvs"
    if "set kvs \<subseteq> set r2" for kvs
    using that
  proof (induction kvs rule: rev_induct)
    case (snoc kv kvs)
    obtain k v where kv: "kv = (k, v)" by (cases kv)
    have "js_get r2 k = Some v" using snoc.prems wf by (simp add: kv js_wf_get_iff)
    then show ?case using snoc by (auto simp: kv js_keys_get split: option.split)
  qed simp
  from this[of r2] show ?thesis by (auto simp: combineResults_def mergeTransfersByAddress_def js_keys_def)
qed

lemma mergeTransfersByAddress_get:
  "js_wf r2 \<Longrightarrow> js_get (mergeTransfersByAddress r1 r2) a = (case (js_get r1 a, js_get r2 a) of
     (None, x) \<Rightarrow> x | (x, None) \<Rightarrow> x | (Some xs, Some ys) \<Rightarrow> Some (xs @ ys))"
proof -
  let ?step = "\<lambda>result (key, value). case js_get result key of
         Some t1Value \<Rightarrow> js_put result key (t1Value @ value) | None \<Rightarrow> js_put result key value"
  have "js_wf r2 \<Longrightarrow> js_get (foldl ?step r1 r2) a = (case (js_get r1 a, js_get r2 a) of
     (None, x) \<Rightarrow> x | (x, None) \<Rightarrow> x | (Some xs, Some ys) \<Rightarrow> Some (xs @ ys))"
  proof (induction r2 arbitrary: r1)
    case (Cons kv r2)
    obtain k v where kv: "kv = (k, v)" by (cases kv)
    have "js_get r2 k = None" "js_wf r2" using Cons.prems by (auto simp: kv js_wf_def map_of_eq_None_iff)
    then show ?case using Cons.IH by (auto simp: kv split: option.splits)
  qed (auto split: option.split)
  then show "js_wf r2 \<Longrightarrow> ?thesis" by (simp add: mergeTransfersByAddress_def)
qed


definition entryOf :: "'t transfers_response \<Rightarrow> string \<Rightarrow> 't list" where
  "entryOf r a = (case js_get r a of Some ts \<Rightarrow> ts | None \<Rightarrow> [])"

definition allHashes :: "scan_transfer list \<Rightarrow> scan_transfer list \<Rightarrow> string list" where
  "allHashes rsp1 rsp2 = js_set (map sc_hash rsp1 @ map sc_hash rsp2)"

definition mergedEntry :: "scan_transfer transfers_response \<Rightarrow> scan_transfer transfers_response \<Rightarrow> string \<Rightarrow> scan_transfer list option" where
  "mergedEntry r1 r2 a = (case (js_get r1 a, js_get r2 a) of
     (Some x, Some y) \<Rightarrow> if allHashes x y = [] then None else Some (concat (map (mergedOf x y) (allHashes x y)))
   | _ \<Rightarrow> Some (entryOf r1 a @ entryOf r2 a))"

lemma add_merged_foldl:
  "js_get (foldl (\<lambda>final hash. case js_get final a of None \<Rightarrow> js_put final a (f hash) | Some ts \<Rightarrow> js_put final a (ts @ f hash)) final hs) b =
    (if b = a \<and> hs \<noteq> [] then Some ((case js_get final a of None \<Rightarrow> [] | Some ts \<Rightarrow> ts) @ concat (map f hs)) else js_get final b)"
  by (induction hs arbitrary: final) (auto split: option.split)

lemma allHashes_foldl:
  "foldl (\<lambda>acc c. if list_ex (\<lambda>h. h = c) acc then acc else acc @ [c]) [] (map sc_hash x @ map sc_hash y) = allHashes x y"
proof -
  have "(\<lambda>acc c. if list_ex (\<lambda>h. h = c) acc then acc else acc @ [c]) = (set_add :: string list \<Rightarrow> _)"
    by (auto simp: set_add_def list_ex_iff fun_eq_iff)
  then show ?thesis by (simp only: allHashes_def js_set_def)
qed

lemma mergeTransfersResponse_get:
  assumes "distinct addresses"
  shows "js_get (mergeTransfersResponse addresses r1 r2) b = (if b \<in> set addresses then mergedEntry r1 r2 b else None)"
proof -
  define step where "step final a = (case (js_get r1 a, js_get r2 a) of
         (None, None) \<Rightarrow> js_put final a []
       | (Some rsp1, None) \<Rightarrow> js_put final a rsp1
       | (None, Some rsp2) \<Rightarrow> js_put final a rsp2
       | (Some rsp1, Some rsp2) \<Rightarrow> foldl (\<lambda>final hash. case js_get final a of
                 None \<Rightarrow> js_put final a (mergedOf rsp1 rsp2 hash)
               | Some ts \<Rightarrow> js_put final a (ts @ mergedOf rsp1 rsp2 hash)) final (allHashes rsp1 rsp2))" for final a
  have step: "js_get final a = None \<Longrightarrow> js_get (step final a) b = (if b = a then mergedEntry r1 r2 a else js_get final b)" for final a b
    by (auto simp: step_def mergedEntry_def entryOf_def add_merged_foldl split: option.split)
  have "distinct as \<Longrightarrow> list_all (\<lambda>a. js_get final a = None) as \<Longrightarrow>
      js_get (foldl step final as) b = (if b \<in> set as then mergedEntry r1 r2 b else js_get final b)" for final as
    by (induction as arbitrary: final) (auto simp: step list_all_iff)
  from this[of addresses "[]"] assms have "js_get (foldl step [] addresses) b = (if b \<in> set addresses then mergedEntry r1 r2 b else None)"
    by (simp add: list_all_iff)
  moreover have "mergeTransfersResponse addresses r1 r2 = foldl step [] addresses"
    unfolding mergeTransfersResponse_def allHashes_foldl Let_def step_def[abs_def] by (rule refl)
  ultimately show ?thesis by simp
qed

lemma filter_as_find:
  "distinct (map f xs) \<Longrightarrow> filter (\<lambda>x. f x = k) xs = (case find (\<lambda>x. f x = k) xs of None \<Rightarrow> [] | Some x \<Rightarrow> [x])"
proof (induction xs)
  case (Cons a xs)
  have "f a = k \<Longrightarrow> filter (\<lambda>x. f x = k) xs = []" using Cons.prems by (auto simp: filter_empty_conv) (metis image_eqI)
  then show ?case using Cons by simp
qed simp

lemma mergedOf_content:
  assumes "distinct (map sc_hash x)" "distinct (map sc_hash y)"
  shows "concat (map sc_erc20 (mergedOf x y h)) =
      concat (map sc_erc20 (filter (\<lambda>t. sc_hash t = h) x)) @ concat (map sc_erc20 (filter (\<lambda>t. sc_hash t = h) y))"
  by (simp add: mergedOf_def filter_as_find assms mergeTransfer_def split: option.split)

lemma mergedOf_hash: "h \<in> set (allHashes x y) \<Longrightarrow> map sc_hash (mergedOf x y h) = [h]"
proof -
  assume "h \<in> set (allHashes x y)"
  then have "find (\<lambda>t. sc_hash t = h) x \<noteq> None \<or> find (\<lambda>t. sc_hash t = h) y \<noteq> None"
    by (auto simp: allHashes_def find_None_iff)
  then show ?thesis by (auto simp: mergedOf_def mergeTransfer_def split: option.split dest: find_SomeD)
qed

lemma mset_concat_map_cong: "mset xs = mset ys \<Longrightarrow> mset (concat (map g xs)) = mset (concat (map g ys))"
  by (simp add: mset_concat flip: sum_mset_sum_list)

lemma mset_concat_append: "mset (concat (map (\<lambda>h. f h @ g h) hs)) = mset (concat (map f hs)) + mset (concat (map g hs))"
  by (induction hs) auto

text \<open>Merging two responses: for an address the hashes of the result are the hashes of both, none repeated, and the
  token transfers of the result are those of both; the entry is missing exactly when both responses have an empty one.\<close>

theorem mergeTransfersResponse_content:
  assumes "distinct addresses" "a \<in> set addresses"
    and "distinct (map sc_hash (entryOf r1 a))" "distinct (map sc_hash (entryOf r2 a))"
    and "ts = entryOf (mergeTransfersResponse addresses r1 r2) a"
  shows "distinct (map sc_hash ts) \<and> set (map sc_hash ts) = sc_hash ` (set (entryOf r1 a) \<union> set (entryOf r2 a))
    \<and> mset (concat (map sc_erc20 ts)) = mset (concat (map sc_erc20 (entryOf r1 a))) + mset (concat (map sc_erc20 (entryOf r2 a)))
    \<and> (js_get (mergeTransfersResponse addresses r1 r2) a = None \<longleftrightarrow> js_get r1 a = Some [] \<and> js_get r2 a = Some [])"
proof (cases "\<exists>x y. js_get r1 a = Some x \<and> js_get r2 a = Some y")
  case True
  then obtain x y where xy: "js_get r1 a = Some x" "js_get r2 a = Some y" by blast
  then have e: "entryOf r1 a = x" "entryOf r2 a = y" by (simp_all add: entryOf_def)
  have d: "distinct (map sc_hash x)" "distinct (map sc_hash y)" using assms(3,4) by (simp_all only: e)
  let ?hs = "allHashes x y"
  have ts: "ts = concat (map (mergedOf x y) ?hs)"
    using assms(2,5) xy by (auto simp: entryOf_def mergeTransfersResponse_get[OF assms(1)] mergedEntry_def)
  have hs: "distinct ?hs" "set ?hs = sc_hash ` (set x \<union> set y)" by (auto simp: allHashes_def)
  have hashes: "map sc_hash ts = ?hs"
  proof -
    have "map sc_hash (concat (map (mergedOf x y) ks)) = ks" if "set ks \<subseteq> set ?hs" for ks
      using that by (induction ks) (auto simp: mergedOf_hash)
    then show ?thesis by (simp add: ts)
  qed
  have part: "mset (concat (map (\<lambda>h. concat (map sc_erc20 (filter (\<lambda>t. sc_hash t = h) z))) ?hs)) = mset (concat (map sc_erc20 z))"
    if "sc_hash ` set z \<subseteq> set ?hs" for z
  proof -
    have "concat (map (\<lambda>h. concat (map sc_erc20 (filter (\<lambda>t. sc_hash t = h) z))) ks) =
        concat (map sc_erc20 (concat (map (\<lambda>h. filter (\<lambda>t. sc_hash t = h) z) ks)))" for ks by (induction ks) auto
    moreover have "filter (\<lambda>t. sc_hash t \<in> set ?hs) z = z" using that by (auto simp: filter_id_conv)
    ultimately show ?thesis using mset_concat_map_cong[OF mset_by_key[OF hs(1), of sc_hash z], of sc_erc20] by simp
  qed
  have erc: "concat (map sc_erc20 (concat (map (mergedOf x y) ks))) = concat (map (\<lambda>h. concat (map sc_erc20 (filter (\<lambda>t. sc_hash t = h) x))
      @ concat (map sc_erc20 (filter (\<lambda>t. sc_hash t = h) y))) ks)" for ks
    by (induction ks) (simp_all add: mergedOf_content[OF d])
  have "mset (concat (map sc_erc20 ts)) = mset (concat (map sc_erc20 x)) + mset (concat (map sc_erc20 y))"
    unfolding ts erc mset_concat_append using part[of x] part[of y] hs(2) by (simp add: image_Un)
  moreover have "?hs = [] \<longleftrightarrow> x = [] \<and> y = []" using hs(2) by auto
  moreover have "js_get (mergeTransfersResponse addresses r1 r2) a = None \<longleftrightarrow> ?hs = []"
    using assms(2) xy by (simp add: mergeTransfersResponse_get[OF assms(1)] mergedEntry_def)
  ultimately show ?thesis using hashes hs xy by (simp add: e)
next
  case False
  then have one: "entryOf r1 a = [] \<or> entryOf r2 a = []" and some: "mergedEntry r1 r2 a = Some (entryOf r1 a @ entryOf r2 a)"
    by (auto simp: entryOf_def mergedEntry_def split: option.splits)
  then have "ts = entryOf r1 a @ entryOf r2 a"
    using assms(2,5) by (simp add: entryOf_def mergeTransfersResponse_get[OF assms(1)])
  then show ?thesis using one some assms(2-4) False by (auto simp: mergeTransfersResponse_get[OF assms(1)])
qed

definition plainScan :: "string \<Rightarrow> erc20_transfer list \<Rightarrow> scan_transfer" where
  "plainScan h es = \<lparr> sc_chainId = 1, sc_hash = h, sc_blockNumber = 7, sc_blockTimeStamp = None, sc_gas = None, sc_gasPrice = None,
     sc_gasUsed = None, sc_erc20 = es \<rparr>"

definition anEvent :: weth_event where
  "anEvent = \<lparr> we_user = ''0xa'', we_wad = ''5'', we_hash = ''0x1'', we_block = 7 \<rparr>"

theorem mergeTransfersResponse_content_witness:
  "mset (concat (map sc_erc20 (entryOf (mergeTransfersResponse [''0xa''] [(''0xa'', [plainScan ''0x1'' [depositTransfer anEvent]])]
     [(''0xa'', [plainScan ''0x1'' [withdrawalTransfer anEvent]])]) ''0xa''))) = {# depositTransfer anEvent, withdrawalTransfer anEvent #}"
  using mergeTransfersResponse_content[of "[''0xa'']" "''0xa''" "[(''0xa'', [plainScan ''0x1'' [depositTransfer anEvent]])]"
      "[(''0xa'', [plainScan ''0x1'' [withdrawalTransfer anEvent]])]", OF _ _ _ _ refl]
  by (simp add: entryOf_def plainScan_def)

section \<open>Repeated events\<close>

lemma deposits_snoc: "js_get (depositsToTransfersResponse (ds @ [d])) u =
    (if u = to_lower (we_user d) then Some (addEvent (depositTransfer d) d (entryOf (depositsToTransfersResponse ds) u))
     else js_get (depositsToTransfersResponse ds) u)"
  by (simp add: depositsToTransfersResponse_def entryOf_def Let_def)

text \<open>A user who deposits several times in one transaction gets that transaction once for every deposit, and every
  copy lists all the deposits: the amounts are counted as many times as there are deposits.\<close>

theorem deposits_repeated:
  assumes "ds \<noteq> []" "list_all (\<lambda>d. to_lower (we_user d) = u \<and> we_hash d = h) ds"
  shows "\<exists>t. js_get (depositsToTransfersResponse ds) u = Some (replicate (length ds) t)
    \<and> sc_hash t = h \<and> sc_erc20 t = map depositTransfer ds"
  using assms
proof (induction ds rule: rev_induct)
  case (snoc d ds)
  show ?case
  proof (cases "ds = []")
    case True
    then show ?thesis using snoc.prems by (simp add: deposits_snoc addEvent_def entryOf_def depositsToTransfersResponse_def)
  next
    case False
    then obtain t where t: "js_get (depositsToTransfersResponse ds) u = Some (replicate (length ds) t)"
      "sc_hash t = h" "sc_erc20 t = map depositTransfer ds" using snoc by auto
    have n: "length ds = Suc (length ds - 1)" using False by (cases ds) auto
    have f: "find (\<lambda>t. sc_hash t = h) (replicate (length ds) t) = Some t" by (subst n) (simp add: t(2))
    show ?thesis using snoc.prems t
      by (simp add: deposits_snoc addEvent_def entryOf_def f Let_def map_replicate_const replicate_append_same)
  qed
qed simp

theorem deposits_repeated_witness:
  "\<exists>t. js_get (depositsToTransfersResponse [anEvent, anEvent]) ''0xa'' = Some [t, t] \<and> sc_erc20 t = [depositTransfer anEvent, depositTransfer anEvent]"
  using deposits_repeated[of "[anEvent, anEvent]" "''0xa''" "''0x1''"]
  by (auto simp: anEvent_def lower_char_def)

end
