(* ===== verification/Scans.thy ===== *)
theory Scans
  imports Transfers
begin

text \<open>
  The clients of the scan servers, \<open>apps/account/src/common/providers/chainRelated/scans/scan.api.service.ts\<close>, and the
  transfers and transactions the account service obtains through them (\<open>getExternalTransfers\<close> of
  \<open>transfers.service.ts\<close>).  A client keeps nothing but its configuration; the state that is threaded through
  is the one of the cache and of the servers.
\<close>

section \<open>Data\<close>

record scan_item =
  si_blockNumber :: int
  si_timeStamp :: int
  si_hash :: string
  si_from :: string
  si_contractAddress :: string
  si_to :: string
  si_value :: string
  si_tokenName :: string
  si_tokenSymbol :: string
  si_tokenDecimal :: nat
  si_gas :: rat
  si_gasPrice :: rat

text \<open>What the field \<open>result\<close> of an answer holds: a list, or the text of an error.\<close>

datatype 'i scan_result = Items "'i list" | Text string

record scan_tx =
  tx_hash :: string
  tx_timeStamp :: int
  tx_value :: string
  tx_gasPrice :: rat
  tx_gasUsed :: rat
  tx_feeUSD :: js_number
  tx_coinPriceUSD :: js_number
  tx_valueUSD :: js_number
  tx_chainId :: int
  tx_isInternal :: bool

record scan_client =
  cl_chainAbbr :: string
  cl_chainId :: int
  cl_mainCoinAddress :: string

text \<open>The request of an action (\<open>tokentx\<close>, \<open>txlist\<close>, \<open>txlistinternal\<close>) for an address.\<close>

type_synonym ('s, 'i) scan_server = "string \<Rightarrow> string \<Rightarrow> 's \<Rightarrow> (string + 'i scan_result js_value) \<times> 's"

definition TRANSFERS_CACHE_TIME :: int where
  "TRANSFERS_CACHE_TIME = 30"

definition TRANSACTIONS_CACHE_TIME :: int where
  "TRANSACTIONS_CACHE_TIME = 30"

section \<open>Requests through the cache\<close>

text \<open>\<open>x && x.result ? x.result : []\<close>: an empty text is falsy.\<close>

definition resultOrEmpty :: "'i scan_result js_value \<Rightarrow> 'i scan_result" where
  "resultOrEmpty r = (case r of Val (Text t) \<Rightarrow> if t = [] then Items [] else Text t | Val (Items l) \<Rightarrow> Items l | _ \<Rightarrow> Items [])"

definition cachedItems :: "('s, 'i scan_result, int) cache_manager \<Rightarrow> string \<Rightarrow> 's \<Rightarrow> 'i list option" where
  "cachedItems C key s = (case cm_get C key s of Val (Items l) \<Rightarrow> Some l | _ \<Rightarrow> None)"

text \<open>When the request fails, the cache is read again: another process may have written to it.\<close>

definition fetchCached ::
  "('s, 'i scan_result, int) cache_manager \<Rightarrow> string \<Rightarrow> int \<Rightarrow> ('s \<Rightarrow> (string + 'i scan_result js_value) \<times> 's) \<Rightarrow> 's
    \<Rightarrow> (string + 'i scan_result) \<times> 's" where
  "fetchCached C cacheKey ttl request s =
     (case cachedItems C cacheKey s of
        Some l \<Rightarrow> (Inr (Items l), s)
      | None \<Rightarrow> (case request s of
            (Inr resp, s') \<Rightarrow> (let items = resultOrEmpty resp in (Inr items, cm_set C cacheKey (Val items) (Some ttl) s'))
          | (Inl e, s') \<Rightarrow> (case cachedItems C cacheKey s' of Some l \<Rightarrow> (Inr (Items l), s') | None \<Rightarrow> (Inl e, s'))))"

definition getTransfers ::
  "('s, scan_item scan_result, int) cache_manager \<Rightarrow> ('s, scan_item) scan_server \<Rightarrow> scan_client \<Rightarrow> string \<Rightarrow> 's
    \<Rightarrow> (string + scan_item scan_result) \<times> 's" where
  "getTransfers C server cl address s =
     (let action = ''tokentx'';
          cacheKey = cl_chainAbbr cl @ ''_transfers_'' @ action @ ''_'' @ address
      in fetchCached C cacheKey TRANSFERS_CACHE_TIME (server action address) s)"

definition fetchTransactions ::
  "('s, scan_tx scan_result, int) cache_manager \<Rightarrow> ('s, scan_tx) scan_server \<Rightarrow> scan_client \<Rightarrow> string \<Rightarrow> bool \<Rightarrow> 's
    \<Rightarrow> (string + scan_tx scan_result) \<times> 's" where
  "fetchTransactions C server cl address internal s =
     (let action = (if internal then ''txlistinternal'' else ''txlist'');
          cacheKey = cl_chainAbbr cl @ ''_transactions_'' @ action @ ''_'' @ address
      in fetchCached C cacheKey TRANSACTIONS_CACHE_TIME (server action address) s)"

section \<open>Transfers\<close>

definition EXCLUDE_TRANSFER_TOKEN_ADDRESSES :: "string list" where
  "EXCLUDE_TRANSFER_TOKEN_ADDRESSES = [''0xbb4CdB9CBd36B01bD1cBaEBF2De08d9173bc095c'',
     ''0x3212b29e33587a00fb1c83346f5dbfa69a458923'', ''0xc011a73ee8576fb46f5e1c5751ca3b9fe0af2a6f'']"

definition formatTransfersDto :: "scan_item list \<Rightarrow> erc20_transfer list" where
  "formatTransfersDto hashTransfers =
     map (\<lambda>t. \<lparr> et_fromAddress = si_from t, et_toAddress = si_to t, et_amount = si_value t,
       et_token = \<lparr> tk_address = si_contractAddress t, tk_chainId = Undef, tk_name = si_tokenName t, tk_symbol = si_tokenSymbol t,
         tk_decimals = si_tokenDecimal t \<rparr>,
       et_tokenPriceUSD = Null, et_totalPriceUSD = Null \<rparr>) hashTransfers"

definition scanTransferOf :: "int \<Rightarrow> scan_item list \<Rightarrow> string \<Rightarrow> string + scan_transfer" where
  "scanTransferOf chainId userTransfers hash =
     (let hashTransfers = filter (\<lambda>t. si_hash t = hash) userTransfers in
      case hashTransfers of
        [] \<Rightarrow> Inl ''TypeError''
      | t # _ \<Rightarrow> Inr \<lparr> sc_chainId = chainId, sc_hash = si_hash t, sc_blockNumber = si_blockNumber t,
          sc_blockTimeStamp = Some (si_timeStamp t), sc_gas = Some (si_gas t), sc_gasPrice = Some (si_gasPrice t),
          sc_gasUsed = Some (si_gas t * si_gasPrice t * DEFAULT_MULTIPLIER), sc_erc20 = formatTransfersDto hashTransfers \<rparr>)"

definition userScanTransfers :: "scan_item list \<Rightarrow> string \<Rightarrow> scan_item list" where
  "userScanTransfers transfers address =
     filter (\<lambda>t. (si_to t = address \<or> si_from t = address) \<and>
       transferTokenAddressNotIn (si_contractAddress t) EXCLUDE_TRANSFER_TOKEN_ADDRESSES) transfers"

text \<open>An error that is caught here has no response, so that handling it throws again.\<close>

definition scanTransfersResponse ::
  "scan_client \<Rightarrow> scan_item list \<Rightarrow> string list \<Rightarrow> string + scan_transfer transfers_response" where
  "scanTransfersResponse cl transfers addresses =
     sum_foldl (\<lambda>response address.
       (let userTransfers = userScanTransfers transfers address;
            uniqueUserHashes = getUniqueAndToLowerCaseArrayData (StringArray (map si_hash userTransfers))
        in sum_bind (sum_map (scanTransferOf (cl_chainId cl) userTransfers) uniqueUserHashes)
             (\<lambda>transactionWithTransfers. Inr (js_put response address transactionWithTransfers)))) [] addresses"

text \<open>Entries that are not transfers match no address.\<close>

fun itemsOf :: "'i scan_result \<Rightarrow> 'i list" where
  "itemsOf (Items l) = l"
| "itemsOf (Text t) = []"

definition handleScan ::
  "('s, scan_item scan_result, int) cache_manager \<Rightarrow> (scan_client \<Rightarrow> ('s, scan_item) scan_server) \<Rightarrow> scan_client option
    \<Rightarrow> string list \<Rightarrow> 's \<Rightarrow> (string + scan_transfer transfers_response) \<times> 's" where
  "handleScan C server service addresses s = (case service of
     None \<Rightarrow> (Inl ''TypeError'', s)
   | Some cl \<Rightarrow> (let (transfersResponse, s') = requestAll (getTransfers C (server cl) cl) addresses s
       in (sum_bind transfersResponse (\<lambda>rs. scanTransfersResponse cl (concat (map itemsOf rs)) addresses), s')))"

text \<open>\<open>Promise.allSettled\<close> over the scans; what a scan gives is combined when it is there, a failing scan adds nothing.
  The scans are given in the order in which they finish.\<close>

fun settleScans ::
  "('s, scan_item scan_result, int) cache_manager \<Rightarrow> (scan_client \<Rightarrow> ('s, scan_item) scan_server) \<Rightarrow> string list
    \<Rightarrow> scan_client option list \<Rightarrow> scan_transfer transfers_response \<Rightarrow> 's \<Rightarrow> scan_transfer transfers_response \<times> 's" where
  "settleScans C server addresses [] transfers s = (transfers, s)"
| "settleScans C server addresses (scan # scans) transfers s =
     (let (r, s') = handleScan C server scan addresses s
      in settleScans C server addresses scans
           (case r of Inr result \<Rightarrow> combineResults transfers result | Inl _ \<Rightarrow> transfers) s')"

section \<open>Times and prices of external transfers\<close>

definition missedBlocks :: "scan_transfer transfers_response \<Rightarrow> int list" where
  "missedBlocks response =
     foldl (\<lambda>missed t. if sc_chainId t = 1 \<and> sc_blockTimeStamp t = None
       then (case find (\<lambda>b. b = sc_blockNumber t) missed of
               Some b \<Rightarrow> if b \<noteq> 0 then missed else missed @ [sc_blockNumber t]
             | None \<Rightarrow> missed @ [sc_blockNumber t])
       else missed) [] (concat (map snd response))"

definition addTimestampsToTransfers ::
  "(int list \<Rightarrow> string + (int \<times> int) list) \<Rightarrow> scan_transfer transfers_response \<Rightarrow> scan_transfer transfers_response" where
  "addTimestampsToTransfers getBlocksTimestamps response =
     (case getBlocksTimestamps (missedBlocks response) of
        Inl _ \<Rightarrow> response
      | Inr blocks \<Rightarrow> map (\<lambda>(k, transfers). (k, map (\<lambda>t. if sc_chainId t = 1 \<and> sc_blockTimeStamp t = None
          then (case find (\<lambda>b. fst b = sc_blockNumber t) blocks of
                  Some b \<Rightarrow> t\<lparr> sc_blockTimeStamp := Some (snd b) \<rparr> | None \<Rightarrow> t)
          else t) transfers)) response)"

text \<open>The number that \<open>null\<close> is converted to is zero.\<close>

definition unpricedContracts :: "scan_transfer transfers_response \<Rightarrow> int \<Rightarrow> (string \<times> int list) list" where
  "unpricedContracts response chainId =
     foldl (\<lambda>contracts (t, transfer). let time = (case sc_blockTimeStamp t of Some n \<Rightarrow> n | None \<Rightarrow> 0) in
       case js_get contracts (tk_address (et_token transfer)) of
         Some ts \<Rightarrow> js_put contracts (tk_address (et_token transfer)) (ts @ [time])
       | None \<Rightarrow> contracts @ [(tk_address (et_token transfer), [time])])
       [] (concat (map (\<lambda>t. map (\<lambda>e. (t, e)) (sc_erc20 t)) (filter (\<lambda>t. sc_chainId t = chainId) (concat (map snd response)))))"

text \<open>
  The prices are a \<open>Map\<close>; reading them with brackets looks for a property of the object and not for an entry,
  and an address is no property of it.
\<close>

definition bracket :: "('k, 'v) js_map \<Rightarrow> 'k \<Rightarrow> 'v option" where
  "bracket m k = None"

definition priceScanTransfer :: "int price_map \<Rightarrow> int price_map \<Rightarrow> scan_transfer \<Rightarrow> erc20_transfer \<Rightarrow> string + erc20_transfer" where
  "priceScanTransfer ethPrices bscPrices t e =
     (case bracket (if sc_chainId t = 1 then ethPrices else bscPrices) (tk_address (et_token e)) of
        None \<Rightarrow> Inl ''TypeError''
      | Some prices \<Rightarrow>
          (let tokenPriceUsd = (case sc_blockTimeStamp t of
               Some n \<Rightarrow> (case js_get prices n of Some v \<Rightarrow> v | None \<Rightarrow> Undef) | None \<Rightarrow> Undef)
           in Inr (e\<lparr> et_tokenPriceUSD := tokenPriceUsd, et_totalPriceUSD := Val (totalPrice (et_amount e) tokenPriceUsd
                (if tk_decimals (et_token e) \<noteq> 0 then tk_decimals (et_token e) else 18)) \<rparr>)))"

definition addPricesToTransfers ::
  "((string \<times> int list) list \<Rightarrow> int \<Rightarrow> string + int price_map) \<Rightarrow> scan_transfer transfers_response
    \<Rightarrow> string + scan_transfer transfers_response" where
  "addPricesToTransfers getHistoricalPrices allTransfers =
     sum_bind (getHistoricalPrices (unpricedContracts allTransfers 1) 1) (\<lambda>ethPrices.
     sum_bind (getHistoricalPrices (unpricedContracts allTransfers 2) 2) (\<lambda>bscPrices.
       sum_map (\<lambda>(address, transfers). sum_bind
         (sum_map (\<lambda>t. sum_bind (sum_map (priceScanTransfer ethPrices bscPrices t) (sc_erc20 t)) (\<lambda>es. Inr (t\<lparr> sc_erc20 := es \<rparr>))) transfers)
         (\<lambda>ts. Inr (address, ts))) allTransfers))"

text \<open>The filter of the chains by \<open>isEthChain\<close> gives an array, which counts as true; \<open>chains\<close> is absent or a list.\<close>

definition getExternalTransfers ::
  "('s, scan_item scan_result, int) cache_manager \<Rightarrow> (scan_client \<Rightarrow> ('s, scan_item) scan_server) \<Rightarrow> (int \<Rightarrow> scan_client option)
    \<Rightarrow> (string list \<Rightarrow> string + scan_transfer transfers_response) \<Rightarrow> (int list \<Rightarrow> string + (int \<times> int) list)
    \<Rightarrow> ((string \<times> int list) list \<Rightarrow> int \<Rightarrow> string + int price_map) \<Rightarrow> string list \<Rightarrow> int list option \<Rightarrow> 's
    \<Rightarrow> (string + scan_transfer transfers_response) \<times> 's" where
  "getExternalTransfers C server chainToScan convertedTransfers getBlocksTimestamps getHistoricalPrices addresses wanted s =
     (let uniqueLowerCaseAddresses = getUniqueAndToLowerCaseArrayData (StringArray addresses);
          scans = (case wanted of Some ns \<Rightarrow> map chainToScan ns | None \<Rightarrow> [chainToScan 1, chainToScan 2]);
          (transfers, s') = settleScans C server uniqueLowerCaseAddresses scans [] s
      in if (case wanted of Some ns \<Rightarrow> ns \<noteq> [] | None \<Rightarrow> False)
         then (sum_bind (convertedTransfers uniqueLowerCaseAddresses) (\<lambda>additionalTransfers.
             addPricesToTransfers getHistoricalPrices (addTimestampsToTransfers getBlocksTimestamps
               (mergeTransfersResponse uniqueLowerCaseAddresses transfers additionalTransfers))), s')
         else (Inr transfers, s'))"

section \<open>Transactions\<close>

text \<open>The second parameter is the chain, which the body does not use, and the third has a default.\<close>

definition normalizeTxsResp :: "scan_client \<Rightarrow> scan_tx list \<Rightarrow> 'c \<Rightarrow> bool option \<Rightarrow> scan_tx list" where
  "normalizeTxsResp cl txsResp chainId isInternal =
     map (\<lambda>tx. tx\<lparr> tx_feeUSD := None, tx_coinPriceUSD := None, tx_valueUSD := None, tx_chainId := cl_chainId cl,
       tx_isInternal := (case isInternal of Some b \<Rightarrow> b | None \<Rightarrow> False) \<rparr>) txsResp"

record scan_transactions =
  st_status :: ResultStatus
  st_errors :: "string option"
  st_data :: "scan_tx list"

definition orNull :: "js_number \<Rightarrow> js_number" where
  "orNull n = (if truthy_num n then n else None)"

definition priceTransaction :: "int price_map \<Rightarrow> string \<Rightarrow> scan_tx \<Rightarrow> scan_tx" where
  "priceTransaction prices coin tx =
     (let price = (case js_get prices coin of
            Some ps \<Rightarrow> (case js_get ps (tx_timeStamp tx) of Some v \<Rightarrow> v | None \<Rightarrow> Undef)
          | None \<Rightarrow> Val 0);
          valueUSD = totalPrice (tx_value tx) price 18;
          feeUSD = transactionFeeUSD (tx_gasPrice tx) (tx_gasUsed tx) 18 price
      in tx\<lparr> tx_feeUSD := orNull feeUSD, tx_coinPriceUSD := orNull (case price of Val p \<Rightarrow> Some p | _ \<Rightarrow> None),
           tx_valueUSD := orNull valueUSD \<rparr>)"

text \<open>The text of an answer in place of a list has no \<open>forEach\<close>.\<close>

fun listOf :: "scan_tx scan_result \<Rightarrow> string + scan_tx list" where
  "listOf (Items l) = Inr l"
| "listOf (Text t) = Inl ''TypeError''"

definition getScanTransactions ::
  "('s, scan_tx scan_result, int) cache_manager \<Rightarrow> ('s, scan_tx) scan_server \<Rightarrow> scan_client
    \<Rightarrow> ((string \<times> int list) list \<Rightarrow> int \<Rightarrow> string + int price_map) \<Rightarrow> string \<Rightarrow> 's
    \<Rightarrow> (string + scan_transactions) \<times> 's" where
  "getScanTransactions C server cl getHistoricalPrices address s =
     (let (normalTxResp, s1) = fetchTransactions C server cl address False s;
          (internalTxResp, s2) = fetchTransactions C server cl address True s1
      in (sum_bind normalTxResp (\<lambda>normalResp. sum_bind internalTxResp (\<lambda>internalResp.
            sum_bind (listOf normalResp) (\<lambda>normalList. sum_bind (listOf internalResp) (\<lambda>internalList.
              (let normalTx = normalizeTxsResp cl normalList False None;
                   internalTx = normalizeTxsResp cl internalList True None;
                   transactions = normalTx @ internalTx
               in if transactions = [] then Inr \<lparr> st_status = Ok, st_errors = None, st_data = transactions \<rparr>
                  else (case getHistoricalPrices [(cl_mainCoinAddress cl, map tx_timeStamp transactions)] (cl_chainId cl) of
                      Inl e \<Rightarrow> Inr \<lparr> st_status = Error, st_errors = Some (''Price Service Error: '' @ e), st_data = transactions \<rparr>
                    | Inr prices \<Rightarrow> Inr \<lparr> st_status = Ok, st_errors = None,
                        st_data = map (priceTransaction prices (cl_mainCoinAddress cl)) transactions \<rparr>)))))), s2))"

section \<open>Prices of external transfers\<close>

lemma sum_map_Inr_length: "sum_map f xs = Inr ys \<Longrightarrow> length ys = length xs"
  by (auto simp: sum_map_Inr_iff dest: list_all2_lengthD)

lemma priceScanTransfer_fails: "priceScanTransfer p q t e = Inl ''TypeError''"
  by (simp add: priceScanTransfer_def bracket_def)

lemma prices_of_none: "sum_map (priceScanTransfer p q t) es = Inr rs \<Longrightarrow> es = [] \<and> rs = []"
  by (cases es) (simp_all add: priceScanTransfer_fails)

text \<open>When chains are given, a request for external transfers succeeds only if not a single token transfer was found:
  the prices are read from a \<open>Map\<close> with brackets, which throws at the first transfer.\<close>

theorem external_transfers_only_without_tokens:
  assumes "fst (getExternalTransfers C server chainToScan converted blocks prices addresses (Some wanted) s) = Inr r"
    and "wanted \<noteq> []"
  shows "list_all (\<lambda>(a, ts). list_all (\<lambda>t. sc_erc20 t = []) ts) r"
proof -
  obtain all where all: "addPricesToTransfers prices all = Inr r"
    using assms by (auto simp: getExternalTransfers_def Let_def sum_bind_Inr_iff simp del: getUniqueAndToLowerCaseArrayData.simps split: prod.splits)
  then obtain p q where "sum_map (\<lambda>(address, transfers). sum_bind
      (sum_map (\<lambda>t. sum_bind (sum_map (priceScanTransfer p q t) (sc_erc20 t)) (\<lambda>es. Inr (t\<lparr> sc_erc20 := es \<rparr>))) transfers)
      (\<lambda>ts. Inr (address, ts))) all = Inr r"
    by (auto simp: addPricesToTransfers_def sum_bind_Inr_iff)
  then have "list_all2 (\<lambda>x y. list_all (\<lambda>t. sc_erc20 t = []) (snd y)) all r"
    unfolding sum_map_Inr_iff
  proof (rule list_all2_mono)
    fix x y
    assume "(case x of (address, transfers) \<Rightarrow> sum_bind
      (sum_map (\<lambda>t. sum_bind (sum_map (priceScanTransfer p q t) (sc_erc20 t)) (\<lambda>es. Inr (t\<lparr> sc_erc20 := es \<rparr>))) transfers)
      (\<lambda>ts. Inr (address, ts))) = Inr y"
    then have "list_all2 (\<lambda>t u. sc_erc20 u = []) (snd x) (snd y)"
      by (cases x) (auto simp: sum_bind_Inr_iff sum_map_Inr_iff[of _ "snd x"] sum_map_Inr_iff elim!: list_all2_mono dest!: prices_of_none[unfolded sum_map_Inr_iff])
    then show "list_all (\<lambda>t. sc_erc20 t = []) (snd y)" by (auto simp: list_all2_conv_all_nth list_all_length)
  qed
  then have "list_all (\<lambda>y. list_all (\<lambda>t. sc_erc20 t = []) (snd y)) r" by (auto simp: list_all2_conv_all_nth list_all_length)
  then show ?thesis by (auto simp: list_all_iff)
qed

section \<open>Transactions\<close>

lemma normalized_external: "tx \<in> set (normalizeTxsResp cl txs c None) \<Longrightarrow> \<not> tx_isInternal tx"
  by (auto simp: normalizeTxsResp_def)

lemma priceTransaction_internal: "tx_isInternal (priceTransaction p c tx) = tx_isInternal tx"
  by (simp add: priceTransaction_def Let_def)

text \<open>No transaction is ever marked as internal, although the internal ones are asked for and normalised
  apart: the flag is passed in the place of the chain.\<close>

theorem no_transaction_internal:
  assumes "fst (getScanTransactions C server cl prices address s) = Inr r" "tx \<in> set (st_data r)"
  shows "\<not> tx_isInternal tx"
proof -
  define both where "both l k = normalizeTxsResp cl l False None @ normalizeTxsResp cl k True None" for l k
  have off: "\<not> tx_isInternal u" if "u \<in> set (both l k)" for u l k
    using that by (auto simp: both_def dest: normalized_external)
  obtain l k where "(if both l k = [] then Inr \<lparr> st_status = Ok, st_errors = None, st_data = both l k \<rparr>
      else (case prices [(cl_mainCoinAddress cl, map tx_timeStamp (both l k))] (cl_chainId cl) of
          Inl e \<Rightarrow> Inr \<lparr> st_status = Error, st_errors = Some (''Price Service Error: '' @ e), st_data = both l k \<rparr>
        | Inr p \<Rightarrow> Inr \<lparr> st_status = Ok, st_errors = None, st_data = map (priceTransaction p (cl_mainCoinAddress cl)) (both l k) \<rparr>))
      = (Inr r :: string + scan_transactions)"
    using assms(1) unfolding getScanTransactions_def Let_def both_def
    by (simp add: sum_bind_Inr_iff case_prod_beta del: append_is_Nil_conv map_append) blast
  then have "st_data r = both l k \<or> (\<exists>p. st_data r = map (priceTransaction p (cl_mainCoinAddress cl)) (both l k))"
    by (auto split: if_splits sum.splits)
  then show ?thesis using assms(2) off[of _ l k] by (auto simp: priceTransaction_internal)
qed


section \<open>Examples\<close>

definition aClient :: scan_client where
  "aClient = \<lparr> cl_chainAbbr = ''eth'', cl_chainId = 1, cl_mainCoinAddress = ''0xeee'' \<rparr>"

definition internalTx :: scan_tx where
  "internalTx = \<lparr> tx_hash = ''0x1'', tx_timeStamp = 10, tx_value = ''7'', tx_gasPrice = 1, tx_gasUsed = 1, tx_feeUSD = None,
     tx_coinPriceUSD = None, tx_valueUSD = None, tx_chainId = 1, tx_isInternal = True \<rparr>"

definition internalOnly :: "('s, scan_tx) scan_server" where
  "internalOnly action address s = (Inr (Val (Items (if action = ''txlistinternal'' then [internalTx] else []))), s)"

theorem external_transfers_only_without_tokens_witness:
  "fst (getExternalTransfers memory_cache (\<lambda>_ _ _ s. (Inl ''down'', s)) (\<lambda>_. None) (\<lambda>_. Inr []) (\<lambda>_. Inr []) (\<lambda>_ _. Inr [])
      [''0xa''] (Some [1]) []) = Inr [(''0xa'', [])]
   \<and> list_all (\<lambda>(a, ts). list_all (\<lambda>t. sc_erc20 t = []) ts) [(''0xa'', [] :: scan_transfer list)]"
proof -
  have run: "fst (getExternalTransfers memory_cache (\<lambda>_ _ _ s. (Inl ''down'', s)) (\<lambda>_. None) (\<lambda>_. Inr []) (\<lambda>_. Inr []) (\<lambda>_ _. Inr [])
      [''0xa''] (Some [1]) []) = Inr [(''0xa'', [])]"
    by (simp add: getExternalTransfers_def handleScan_def mergeTransfersResponse_def addTimestampsToTransfers_def
        addPricesToTransfers_def set_add_def lower_char_def)
  from external_transfers_only_without_tokens[OF run] run show ?thesis by simp
qed

theorem no_transaction_internal_witness:
  "\<exists>tx. fst (getScanTransactions memory_cache internalOnly aClient (\<lambda>_ _. Inr []) ''0xa'' []) =
     Inr \<lparr> st_status = Ok, st_errors = None, st_data = [tx] \<rparr> \<and> tx_hash tx = ''0x1'' \<and> \<not> tx_isInternal tx"
proof -
  let ?tx = "priceTransaction [] ''0xeee'' (internalTx\<lparr> tx_chainId := 1, tx_isInternal := False \<rparr>)"
  have run: "fst (getScanTransactions memory_cache internalOnly aClient (\<lambda>_ _. Inr []) ''0xa'' []) =
      Inr \<lparr> st_status = Ok, st_errors = None, st_data = [?tx] \<rparr>"
    by (simp add: getScanTransactions_def fetchTransactions_def fetchCached_def cachedItems_def memory_cache_def memory_get_def
        internalOnly_def aClient_def normalizeTxsResp_def resultOrEmpty_def internalTx_def Let_def)
  from no_transaction_internal[OF run, of ?tx] run show ?thesis by (auto simp: priceTransaction_def internalTx_def Let_def)
qed

end
