(* ===== verification/Platform.thy ===== *)
theory Platform
  imports Addresses Collections "HOL-Library.List_Lexorder" "HOL-Library.Char_ord"
begin

text \<open>
  The platforms of the integration service: \<open>apps/integration/src/framework/support/RootPlatform.ts\<close> and the
  registry \<open>apps/integration/src/framework/services/platform.service.ts\<close>.  A platform is a set of protocol
  instances, of which those whose initialisation failed are kept apart and tried again before every request.  Instances
  are values of a type \<open>'p\<close>; what they do is the record \<open>protocol_ops\<close>, functions on a state \<open>'s\<close> of the
  world outside.  A chain is its number, an error its message, and operations that run concurrently are
  performed in the order in which they are started.
\<close>

section \<open>Data\<close>

datatype feature = Pools | Staking | Farming | Claimable | Lending | Borrowing | Transactions | LockedBalances
  | Health | Collateral | Delegation

record token_info =
  ki_address :: string
  ki_name :: string
  ki_symbol :: string
  ki_decimals :: js_number
  ki_price :: js_number

record apy_rates =
  ay_year :: js_number
  ay_supplyApy :: js_number
  ay_borrowApy :: js_number
  ay_stableApy :: js_number
  ay_variableApy :: js_number

record underlying =
  ud_token :: token_info
  ud_reserve :: js_number
  ud_value :: js_number
  ud_balance :: js_number
  ud_amount :: js_number
  ud_position :: js_number

text \<open>The last five fields are fields of the token.\<close>

record entry =
  en_token :: token_info
  en_amount :: js_number
  en_value :: js_number
  en_unlockTime :: js_number
  en_tvl :: js_number
  en_aprYear :: js_number
  en_apy :: "apy_rates option"
  en_isCollateral :: bool
  en_healthFactor :: js_number
  en_underlying :: "underlying list"
  en_reserve :: js_number
  en_positionInPool :: js_number
  en_weight :: js_number

record receipt =
  rc_token :: token_info
  rc_amount :: js_number
  rc_totalSupply :: js_number

text \<open>A position carries its tokens in single fields or in lists; an absent field is \<open>None\<close>.\<close>

record position =
  po_id :: string
  po_feature :: feature
  po_token :: "receipt option"
  po_supply :: "entry option"
  po_supplied :: "entry list option"
  po_reward :: "entry option"
  po_rewarded :: "entry list option"
  po_borrow :: "entry option"
  po_borrowed :: "entry list option"
  po_debtRatio :: js_number
  po_validator :: "string option"

type_synonym user_positions = "(string, position list) js_map"

record ('p, 's, 'o) protocol_ops =
  pt_chain :: "'p \<Rightarrow> int"
  pt_list :: "'p \<Rightarrow> feature list"
  pt_create :: "'p \<Rightarrow> 's \<Rightarrow> string option \<times> 's"
  pt_initialize :: "'p \<Rightarrow> ('s \<Rightarrow> string option \<times> 's) option"
  pt_getUsersData :: "'p \<Rightarrow> (string list \<Rightarrow> 's \<Rightarrow> (string + user_positions \<times> string list) \<times> 's) option"
  pt_getFormattedPoolData :: "'p \<Rightarrow> ('s \<Rightarrow> (string + 'o list \<times> string list) \<times> 's) option"
  pt_getPoolData :: "'p \<Rightarrow> 's \<Rightarrow> (string + 'o list \<times> string list) \<times> 's"
  pt_cachePoolData :: "'p \<Rightarrow> ('s \<Rightarrow> (string + 'o list) \<times> 's) option"

record 'p platform_state =
  ps_name :: string
  ps_slug :: string
  ps_protocols :: "'p list"
  ps_protocolErrors :: "('p, string) js_map"
  ps_registrationLocked :: bool

record 'p platform_class =
  pc_name :: string
  pc_slug :: string
  pc_protocols :: "'p list"

record chain_entry =
  ce_positions :: "(feature, position list) js_map"
  ce_features :: "feature list"
  ce_total :: rat
  ce_chain :: int

record wallet_entry =
  we_address :: string
  we_total :: rat
  we_chains :: "chain_entry list"

record platform_meta =
  pm_name :: string
  pm_slug :: string
  pm_features :: "(int \<times> feature list) list"

section \<open>Registration\<close>

text \<open>An instance whose initialisation fails is only remembered with its error.  The outcome of a registration is the new state.\<close>

definition registerProtocol ::
  "('p, 's, 'o) protocol_ops \<Rightarrow> 'p \<Rightarrow> 'p platform_state \<Rightarrow> 's \<Rightarrow> (string + 'p platform_state) \<times> 's" where
  "registerProtocol P instance st s =
     (case pt_create P instance s of
        (Some e, s1) \<Rightarrow> (Inl e, s1)
      | (None, s1) \<Rightarrow>
          (let (failure, s2) = (case pt_initialize P instance of None \<Rightarrow> (None, s1) | Some initialize \<Rightarrow> initialize s1)
           in case failure of
               Some err \<Rightarrow> (Inr (st\<lparr> ps_protocolErrors := js_put (ps_protocolErrors st) instance err \<rparr>), s2)
             | None \<Rightarrow> (Inr (if ps_registrationLocked st then st
                 else st\<lparr> ps_protocols := set_add (ps_protocols st) instance \<rparr>), s2)))"

fun registerAll ::
  "('p, 's, 'o) protocol_ops \<Rightarrow> 'p list \<Rightarrow> 'p platform_state \<Rightarrow> 's \<Rightarrow> (string + 'p platform_state) \<times> 's" where
  "registerAll P [] st s = (Inr st, s)"
| "registerAll P (p # ps) st s = (case registerProtocol P p st s of
     (Inl e, s') \<Rightarrow> (Inl e, s') | (Inr st', s') \<Rightarrow> registerAll P ps st' s')"

text \<open>\<open>register\<close> of a concrete platform gives its name and registers its protocols one after the other.\<close>

definition initializePlatform ::
  "('p, 's, 'o) protocol_ops \<Rightarrow> 'p platform_class \<Rightarrow> 's \<Rightarrow> (string + 'p platform_state) \<times> 's" where
  "initializePlatform P c s =
     (case registerAll P (pc_protocols c) \<lparr> ps_name = pc_name c, ps_slug = pc_slug c, ps_protocols = [],
          ps_protocolErrors = [], ps_registrationLocked = False \<rparr> s of
        (Inl e, s') \<Rightarrow> (Inl e, s')
      | (Inr st, s') \<Rightarrow> (Inr (st\<lparr> ps_registrationLocked := True \<rparr>), s'))"

definition addMeta :: "('p, 's, 'o) protocol_ops \<Rightarrow> (int, feature list) js_map \<Rightarrow> 'p \<Rightarrow> (int, feature list) js_map" where
  "addMeta P features protocol = (case js_get features (pt_chain P protocol) of
     Some known \<Rightarrow> js_put features (pt_chain P protocol) (foldl set_add known (pt_list P protocol))
   | None \<Rightarrow> js_put features (pt_chain P protocol) (js_set (pt_list P protocol)))"

definition getMeta :: "('p, 's, 'o) protocol_ops \<Rightarrow> 'p platform_state \<Rightarrow> platform_meta" where
  "getMeta P st = \<lparr> pm_name = ps_name st, pm_slug = ps_slug st, pm_features = foldl (addMeta P) [] (ps_protocols st) \<rparr>"

definition getSupportedChains :: "('p, 's, 'o) protocol_ops \<Rightarrow> 'p platform_state \<Rightarrow> int list" where
  "getSupportedChains P st = map fst (pm_features (getMeta P st))"

text \<open>One entry of the loop over the failed protocols, and the loop.\<close>

definition revalidate ::
  "('p, 's, 'o) protocol_ops \<Rightarrow> 'p platform_state \<times> string list \<times> 's \<Rightarrow> 'p \<Rightarrow> 'p platform_state \<times> string list \<times> 's" where
  "revalidate P acc protocol = (let (st, errors, s) = acc;
       (failure, s') = (case pt_initialize P protocol of None \<Rightarrow> (Some ''TypeError'', s) | Some initialize \<Rightarrow> initialize s)
     in case failure of
         Some err \<Rightarrow> (st, errors @ [err], s')
       | None \<Rightarrow> (st\<lparr> ps_protocolErrors := AList.delete protocol (ps_protocolErrors st),
           ps_protocols := set_add (ps_protocols st) protocol \<rparr>, errors, s'))"

definition validatedProtocols ::
  "('p, 's, 'o) protocol_ops \<Rightarrow> 'p platform_state \<Rightarrow> 's \<Rightarrow> 'p platform_state \<times> string list \<times> 's" where
  "validatedProtocols P st s = foldl (revalidate P) (st, [], s) (js_keys (ps_protocolErrors st))"

section \<open>Positions of users\<close>

definition addValue :: "rat \<Rightarrow> entry \<Rightarrow> rat" where
  "addValue tokenAcc token = (if \<not> truthy_num (en_value token) then tokenAcc else tokenAcc + the (en_value token))"

definition addPosition :: "rat \<Rightarrow> position \<Rightarrow> rat" where
  "addPosition total0 position =
     (let total1 = (case po_supplied position of Some ts \<Rightarrow> total0 + foldl addValue 0 ts | None \<Rightarrow> total0);
          total2 = (case po_rewarded position of Some ts \<Rightarrow> total1 + foldl addValue 0 ts | None \<Rightarrow> total1)
      in (case po_borrowed position of Some ts \<Rightarrow> total2 - foldl addValue 0 ts | None \<Rightarrow> total2))"

definition getPositionsTotal :: "position list \<Rightarrow> rat" where
  "getPositionsTotal positions = foldl addPosition 0 positions"

definition getWalletTotal :: "chain_entry list \<Rightarrow> rat" where
  "getWalletTotal chainIds = foldl (\<lambda>total0 chain. total0 + ce_total chain) 0 chainIds"

definition enforcePosition :: "position \<Rightarrow> position" where
  "enforcePosition pool =
     (let p1 = (case po_supply pool of Some t \<Rightarrow> pool\<lparr> po_supplied := Some [t], po_supply := None \<rparr> | None \<Rightarrow> pool);
          p2 = (case po_reward p1 of Some t \<Rightarrow> p1\<lparr> po_rewarded := Some [t], po_reward := None \<rparr> | None \<Rightarrow> p1)
      in (case po_borrow p2 of Some t \<Rightarrow> p2\<lparr> po_borrowed := Some [t], po_borrow := None \<rparr> | None \<Rightarrow> p2))"

definition enforcePositions :: "position list \<Rightarrow> position list" where
  "enforcePositions pools = map enforcePosition pools"

record chain_wallets =
  cw_chain :: int
  cw_features :: "feature list"
  cw_wallets :: user_positions

definition mergeUserProtocolDataPerChain :: "string \<Rightarrow> int \<Rightarrow> chain_wallets list \<Rightarrow> chain_entry" where
  "mergeUserProtocolDataPerChain user chain resolvedProtocols =
     (let (positions, features) = foldl (\<lambda>(positions, features) protocol.
            if cw_chain protocol \<noteq> chain then (positions, features)
            else (positions @ (case js_get (cw_wallets protocol) user of
                     Some ps \<Rightarrow> enforcePositions ps | None \<Rightarrow> []),
                  foldl set_add features (cw_features protocol))) ([], []) resolvedProtocols;
          positionsByFeature = groupBy po_feature positions
      in \<lparr> ce_positions = foldl (\<lambda>m feature. if js_get m feature = None then js_put m feature [] else m) positionsByFeature features,
           ce_features = features, ce_total = getPositionsTotal positions, ce_chain = chain \<rparr>)"

text \<open>The requests to the protocols of the chains asked for; a protocol without valid addresses is not asked.\<close>

fun requestUsers ::
  "('p, 's, 'o) protocol_ops \<Rightarrow> address_lib \<Rightarrow> int list \<Rightarrow> string list \<Rightarrow> 'p list \<Rightarrow> 's
    \<Rightarrow> (string, chain_wallets \<times> string list) settled list \<times> 's" where
  "requestUsers P L chainIds addresses [] s = ([], s)"
| "requestUsers P L chainIds addresses (p # ps) s =
     (let validAddressesForChain = keepAddressesByChainId L (AddressArray addresses) (pt_chain P p);
          (r, s1) = (if pt_chain P p \<notin> set chainIds \<or> validAddressesForChain = [] then ([], s)
            else (case pt_getUsersData P p of
                None \<Rightarrow> ([], s)
              | Some platformUsersData \<Rightarrow> (case platformUsersData validAddressesForChain s of
                    (Inr (wallets, userErrors), s') \<Rightarrow>
                      ([Fulfilled (\<lparr> cw_chain = pt_chain P p, cw_features = pt_list P p, cw_wallets = wallets \<rparr>, userErrors)], s')
                  | (Inl e, s') \<Rightarrow> ([Rejected e], s'))));
          (rs, s2) = requestUsers P L chainIds addresses ps s1
      in (r @ rs, s2))"

definition unsupportedErrors :: "int list \<Rightarrow> int list \<Rightarrow> string list" where
  "unsupportedErrors chainIds supportedChains =
     map (\<lambda>chain. ''Protocol does not support Chain: '' @ show_int chain) (filter (\<lambda>chain. chain \<notin> set supportedChains) chainIds)"

definition platformUsersData ::
  "('p, 's, 'o) protocol_ops \<Rightarrow> address_lib \<Rightarrow> int list \<Rightarrow> string list \<Rightarrow> 'p platform_state \<Rightarrow> 's
    \<Rightarrow> (wallet_entry list \<times> string list) \<times> 'p platform_state \<times> 's" where
  "platformUsersData P L chainIds addresses st s =
     (let (st', errors, s1) = validatedProtocols P st s;
          (results, s2) = requestUsers P L chainIds addresses (ps_protocols st') s1;
          unsupported = unsupportedErrors chainIds (map (pt_chain P) (ps_protocols st'));
          resolvedProtocols = map fst (fulfilled_values results);
          wallets = map (\<lambda>address. (let chainData = map (\<lambda>chain. mergeUserProtocolDataPerChain address chain resolvedProtocols) chainIds
            in \<lparr> we_address = address, we_total = getWalletTotal chainData, we_chains = chainData \<rparr>)) addresses
      in ((wallets, errors @ unsupported @ concat (map snd (fulfilled_values results)) @ rejected_reasons results), st', s2))"

section \<open>Pools\<close>

fun settleAll :: "('a \<Rightarrow> 's \<Rightarrow> (string + 'b) \<times> 's) \<Rightarrow> 'a list \<Rightarrow> 's \<Rightarrow> (string, 'b) settled list \<times> 's" where
  "settleAll f [] s = ([], s)"
| "settleAll f (x # xs) s = (let (r, s1) = f x s; (rs, s2) = settleAll f xs s1 in (settle r # rs, s2))"

definition platformPoolData ::
  "('p, 's, 'o) protocol_ops \<Rightarrow> int list \<Rightarrow> 'p platform_state \<Rightarrow> 's \<Rightarrow> ('o list \<times> string list) \<times> 'p platform_state \<times> 's" where
  "platformPoolData P chainIds st s =
     (let (st', errors, s1) = validatedProtocols P st s;
          (results, s2) = settleAll (\<lambda>p. case pt_getFormattedPoolData P p of Some g \<Rightarrow> g | None \<Rightarrow> pt_getPoolData P p)
            (filter (\<lambda>p. pt_chain P p \<in> set chainIds) (ps_protocols st')) s1;
          unsupported = unsupportedErrors chainIds (map (pt_chain P) (ps_protocols st'))
      in ((concat (map fst (fulfilled_values results)),
           errors @ unsupported @ concat (map (\<lambda>r. case r of Fulfilled v \<Rightarrow> snd v | Rejected e \<Rightarrow> [e]) results)), st', s2))"

definition platformCachePoolData ::
  "('p, 's, 'o) protocol_ops \<Rightarrow> int list \<Rightarrow> 'p platform_state \<Rightarrow> 's \<Rightarrow> ('o list list \<times> string list) \<times> 's" where
  "platformCachePoolData P chainIds st s =
     (let (results, s') = settleAll (\<lambda>p. the (pt_cachePoolData P p))
            (filter (\<lambda>p. pt_chain P p \<in> set chainIds \<and> pt_cachePoolData P p \<noteq> None) (ps_protocols st)) s
      in ((fulfilled_values results, rejected_reasons results), s'))"

section \<open>The registry of platforms\<close>

record 'p platform_service =
  sv_platforms :: "(string, 'p platform_class) js_map"
  sv_initialized :: "(string, 'p platform_state) js_map"

definition registerPlatforms :: "(string \<times> 'p platform_class) list \<Rightarrow> 'p platform_service" where
  "registerPlatforms platforms =
     \<lparr> sv_platforms = foldl (\<lambda>m (name, platform). js_put m name platform) [] (sort_key fst platforms), sv_initialized = [] \<rparr>"

type_synonym ('p, 's) service_state = "'p platform_service \<times> 's"

definition getPlatform ::
  "('p, 's, 'o) protocol_ops \<Rightarrow> string \<Rightarrow> ('p, 's) service_state \<Rightarrow> (string + 'p platform_state) \<times> ('p, 's) service_state" where
  "getPlatform P name = (\<lambda>(sv, s). case js_get (sv_platforms sv) name of
     None \<Rightarrow> (Inl ''Platform Not Supported'', sv, s)
   | Some c \<Rightarrow> (case js_get (sv_initialized sv) name of
         Some st \<Rightarrow> (Inr st, sv, s)
       | None \<Rightarrow> (case initializePlatform P c s of
             (Inl e, s') \<Rightarrow> (Inl e, sv, s')
           | (Inr st, s') \<Rightarrow> (Inr st, sv\<lparr> sv_initialized := js_put (sv_initialized sv) name st \<rparr>, s'))))"

text \<open>A platform that cannot be initialised is logged and left out.\<close>

definition getProtocolList ::
  "('p, 's, 'o) protocol_ops \<Rightarrow> ('p, 's) service_state \<Rightarrow> platform_meta list \<times> ('p, 's) service_state" where
  "getProtocolList P sv0 =
     foldl (\<lambda>(metas, sv) name. case getPlatform P name sv of
         (Inr st, sv') \<Rightarrow> (metas @ [getMeta P st], sv') | (Inl e, sv') \<Rightarrow> (metas, sv'))
       ([], sv0) (js_keys (sv_platforms (fst sv0)))"

definition putPlatform :: "string \<Rightarrow> 'p platform_state \<Rightarrow> 'p platform_service \<Rightarrow> 'p platform_service" where
  "putPlatform name st sv = sv\<lparr> sv_initialized := js_put (sv_initialized sv) name st \<rparr>"

record user_response =
  ur_errors :: "string list"
  ur_protocol :: platform_meta
  ur_wallets :: "wallet_entry list"
  ur_total :: rat

definition getUserPositionsForPlatform ::
  "('p, 's, 'o) protocol_ops \<Rightarrow> address_lib \<Rightarrow> string \<Rightarrow> int list \<Rightarrow> string list \<Rightarrow> ('p, 's) service_state
    \<Rightarrow> (string + user_response) \<times> ('p, 's) service_state" where
  "getUserPositionsForPlatform P L platformName chainIds addresses sv0 =
     (case getPlatform P platformName sv0 of
        (Inl e, sv') \<Rightarrow> (Inl e, sv')
      | (Inr platform, sv, s) \<Rightarrow>
          (let ((wallets, errors), platform', s') = platformUsersData P L
                 (if chainIds \<noteq> [] then chainIds else getSupportedChains P platform) addresses platform s
           in (Inr \<lparr> ur_errors = js_set errors, ur_protocol = getMeta P platform', ur_wallets = wallets,
                 ur_total = foldl (\<lambda>total0 w. total0 + we_total w) 0 wallets \<rparr>, putPlatform platformName platform' sv, s')))"

record 'o opportunity_response =
  or_errors :: "string list"
  or_protocol :: platform_meta
  or_items :: "'o list"

definition getOpportunitiesForPlatform ::
  "('p, 's, 'o) protocol_ops \<Rightarrow> string \<Rightarrow> int list \<Rightarrow> ('p, 's) service_state
    \<Rightarrow> (string + 'o opportunity_response) \<times> ('p, 's) service_state" where
  "getOpportunitiesForPlatform P platformName chainIds sv0 =
     (case getPlatform P platformName sv0 of
        (Inl e, sv') \<Rightarrow> (Inl e, sv')
      | (Inr platform, sv, s) \<Rightarrow>
          (let ((items, errors), platform', s') = platformPoolData P
                 (if chainIds \<noteq> [] then chainIds else getSupportedChains P platform) platform s
           in (Inr \<lparr> or_errors = js_set errors, or_protocol = getMeta P platform', or_items = items \<rparr>,
               putPlatform platformName platform' sv, s')))"

record 'o sync_response =
  sy_errors :: "string list"
  sy_count :: nat
  sy_hydrated :: "'o list option"

text \<open>The texts of the answers are left out; with \<open>debug\<close> the pools are read back.\<close>

definition cacheOpportunitiesForPlatform ::
  "('p, 's, 'o) protocol_ops \<Rightarrow> string \<Rightarrow> int list \<Rightarrow> bool \<Rightarrow> ('p, 's) service_state
    \<Rightarrow> (string + 'o sync_response) \<times> ('p, 's) service_state" where
  "cacheOpportunitiesForPlatform P platformName chainIds debug sv0 =
     (case getPlatform P platformName sv0 of
        (Inl e, sv') \<Rightarrow> (Inl e, sv')
      | (Inr platform, sv, s) \<Rightarrow>
          (let requestedChains = (if chainIds \<noteq> [] then chainIds else getSupportedChains P platform);
               ((cached, errors), s1) = platformCachePoolData P requestedChains platform s
           in if debug
              then (let ((pools, poolErrors), platform', s2) = platformPoolData P requestedChains platform s1;
                        flat = concat cached;
                        missing = (if length flat \<noteq> length pools
                          then [''Failed to hydrate some opportunities. Missing '' @ show_int (int (length flat) - int (length pools))
                                 @ ''/'' @ show_int (int (length flat))] else [])
                    in (Inr \<lparr> sy_errors = js_set (errors @ missing @ poolErrors), sy_count = length flat, sy_hydrated = Some pools \<rparr>,
                        putPlatform platformName platform' sv, s2))
              else (Inr \<lparr> sy_errors = js_set errors, sy_count = length (concat cached), sy_hydrated = None \<rparr>, sv, s1)))"

text \<open>The entries of an object with numbers as keys come in the order of the numbers.\<close>

definition chainsProtocols :: "platform_meta list \<Rightarrow> (int, string list) js_map" where
  "chainsProtocols protocols = sort_key fst (foldl (\<lambda>m (name, chain).
       (let m' = (if js_get m chain = None then js_put m chain [] else m)
        in js_put m' chain (the (js_get m' chain) @ [name]))) []
     (concat (map (\<lambda>p. map (\<lambda>f. (pm_name p, fst f)) (pm_features p)) protocols)))"

fun awaitEach :: "('a \<Rightarrow> 's \<Rightarrow> (string + 'b) \<times> 's) \<Rightarrow> 'a list \<Rightarrow> 's \<Rightarrow> (string + 'b list) \<times> 's" where
  "awaitEach f [] s = (Inr [], s)"
| "awaitEach f (x # xs) s = (case f x s of
     (Inl e, s') \<Rightarrow> (Inl e, s')
   | (Inr y, s') \<Rightarrow> (let (ys, s2) = awaitEach f xs s' in (sum_bind ys (\<lambda>ys. Inr (y # ys)), s2)))"

definition cacheOpportunities ::
  "('p, 's, 'o) protocol_ops \<Rightarrow> ('p, 's) service_state \<Rightarrow> (string + (int \<times> 'o sync_response list) list) \<times> ('p, 's) service_state" where
  "cacheOpportunities P sv0 =
     (let (protocols, sv1) = getProtocolList P sv0
      in requestAll (\<lambda>(chain, cProtocols) sv. (let (r, sv') = awaitEach (\<lambda>protocol. cacheOpportunitiesForPlatform P protocol [chain] False) cProtocols sv
           in (sum_bind r (\<lambda>results. Inr (chain, results)), sv'))) (chainsProtocols protocols) sv1)"

section \<open>Registered and failed instances\<close>

text \<open>The states of a platform: after initialisation, and after the check that precedes each request.\<close>

inductive platform_reachable :: "('p, 's, 'o) protocol_ops \<Rightarrow> 'p platform_class \<Rightarrow> 'p platform_state \<Rightarrow> bool" for P c where
  initialized: "initializePlatform P c s = (Inr st, s') \<Longrightarrow> platform_reachable P c st"
| validated: "platform_reachable P c st \<Longrightarrow> validatedProtocols P st s = (st', errors, s') \<Longrightarrow> platform_reachable P c st'"

definition platform_inv :: "'p set \<Rightarrow> 'p platform_state \<Rightarrow> bool" where
  "platform_inv A st \<longleftrightarrow> distinct (ps_protocols st) \<and> js_wf (ps_protocolErrors st)
     \<and> set (ps_protocols st) \<inter> set (js_keys (ps_protocolErrors st)) = {}
     \<and> set (ps_protocols st) \<union> set (js_keys (ps_protocolErrors st)) = A"

lemma js_keys_delete: "set (js_keys (AList.delete k m)) = set (js_keys m) - {k}"
  by (auto simp: js_keys_def AList.delete_eq)

lemma js_wf_delete: "js_wf m \<Longrightarrow> js_wf (AList.delete k m)"
  by (simp add: js_wf_def distinct_delete)

lemma registerProtocol_inv:
  assumes "platform_inv A st" "p \<notin> A" "\<not> ps_registrationLocked st" "registerProtocol P p st s = (Inr st', s')"
  shows "platform_inv (insert p A) st' \<and> \<not> ps_registrationLocked st'"
  using assms by (auto simp: registerProtocol_def platform_inv_def split: option.splits prod.splits)

lemma registerAll_inv:
  "registerAll P ps st s = (Inr st', s') \<Longrightarrow> platform_inv A st \<Longrightarrow> distinct ps \<Longrightarrow> set ps \<inter> A = {} \<Longrightarrow>
   \<not> ps_registrationLocked st \<Longrightarrow> platform_inv (A \<union> set ps) st'"
proof (induction P ps st s arbitrary: A rule: registerAll.induct)
  case (2 P p ps st s)
  obtain st1 s1 where 1: "registerProtocol P p st s = (Inr st1, s1)" "registerAll P ps st1 s1 = (Inr st', s')"
    using 2(2) by (auto split: prod.splits sum.splits)
  have inv: "platform_inv (insert p A) st1 \<and> \<not> ps_registrationLocked st1"
    using registerProtocol_inv[OF _ _ _ 1(1)] 2(3-6) by auto
  show ?case using 2(1)[OF 1(1)[symmetric] refl 1(2), of "insert p A"] inv 2(4,5) by auto
qed simp

lemma revalidate_inv: "platform_inv A st \<Longrightarrow> p \<in> A \<Longrightarrow> platform_inv A (fst (revalidate P (st, e, s) p))"
  by (auto simp: revalidate_def platform_inv_def js_keys_delete js_wf_delete split: option.splits prod.splits)

lemma revalidate_foldl_inv:
  "platform_inv A (fst acc) \<Longrightarrow> set ps \<subseteq> A \<Longrightarrow> platform_inv A (fst (foldl (revalidate P) acc ps))"
proof (induction ps arbitrary: acc)
  case (Cons p ps)
  then show ?case using revalidate_inv[of A "fst acc" p P] by (cases acc) auto
qed simp

text \<open>C21: Each instance of a platform is either registered or remembered with its failure, never both and never twice,
  after the initialisation and after any number of requests.\<close>

theorem platform_reachable_inv:
  assumes "platform_reachable P c st" "distinct (pc_protocols c)"
  shows "distinct (ps_protocols st) \<and> distinct (js_keys (ps_protocolErrors st))
    \<and> set (ps_protocols st) \<inter> set (js_keys (ps_protocolErrors st)) = {}
    \<and> set (ps_protocols st) \<union> set (js_keys (ps_protocolErrors st)) = set (pc_protocols c)"
proof -
  have "platform_inv (set (pc_protocols c)) st"
    using assms(1)
  proof (induction rule: platform_reachable.induct)
    case (initialized s st s')
    obtain st0 where st0: "registerAll P (pc_protocols c) \<lparr> ps_name = pc_name c, ps_slug = pc_slug c, ps_protocols = [],
          ps_protocolErrors = [], ps_registrationLocked = False \<rparr> s = (Inr st0, s')" "st = st0\<lparr> ps_registrationLocked := True \<rparr>"
      using initialized by (auto simp: initializePlatform_def split: prod.splits sum.splits)
    have "platform_inv ({} \<union> set (pc_protocols c)) st0"
      by (rule registerAll_inv[OF st0(1)]) (simp_all add: assms(2) platform_inv_def js_keys_def)
    then show ?case by (simp add: st0(2) platform_inv_def)
  next
    case (validated st s st' errors s')
    have "platform_inv (set (pc_protocols c)) (fst (validatedProtocols P st s))"
      unfolding validatedProtocols_def using validated(3) by (intro revalidate_foldl_inv) (auto simp: platform_inv_def)
    then show ?case using validated(2) by simp
  qed
  then show ?thesis by (simp add: platform_inv_def js_wf_def js_keys_def)
qed

section \<open>Positions by feature\<close>

definition valueSum :: "entry list \<Rightarrow> rat" where
  "valueSum ts = (\<Sum>t\<leftarrow>ts. case en_value t of Some v \<Rightarrow> v | None \<Rightarrow> 0)"

definition tokensOf :: "entry list option \<Rightarrow> entry list" where
  "tokensOf ts = (case ts of Some l \<Rightarrow> l | None \<Rightarrow> [])"

definition positionValue :: "position \<Rightarrow> rat" where
  "positionValue p = valueSum (tokensOf (po_supplied p)) + valueSum (tokensOf (po_rewarded p)) - valueSum (tokensOf (po_borrowed p))"

lemma addValue_sum: "foldl addValue acc ts = acc + valueSum ts"
  by (induction ts arbitrary: acc) (auto simp: addValue_def valueSum_def truthy_num_def split: option.splits)

lemma getPositionsTotal_sum: "getPositionsTotal ps = (\<Sum>p\<leftarrow>ps. positionValue p)"
proof -
  have "foldl addPosition acc ps = acc + (\<Sum>p\<leftarrow>ps. positionValue p)" for acc
  proof (induction ps arbitrary: acc)
    case (Cons p ps)
    have "addPosition acc p = acc + positionValue p"
      by (simp add: addPosition_def positionValue_def tokensOf_def addValue_sum valueSum_def Let_def split: option.split)
    then show ?case using Cons by simp
  qed simp
  then show ?thesis by (simp add: getPositionsTotal_def)
qed

lemma foldl_plus: "foldl (\<lambda>acc x. acc + f x) a xs = a + (\<Sum>x\<leftarrow>xs. f x)" for a :: rat
  by (induction xs arbitrary: a) simp_all

text \<open>The positions the protocols of a chain reported for an address, and the features they have.\<close>

definition positionsOf :: "string \<Rightarrow> int \<Rightarrow> chain_wallets list \<Rightarrow> position list" where
  "positionsOf user chain resolved = concat (map (\<lambda>p. case js_get (cw_wallets p) user of
     Some ps \<Rightarrow> enforcePositions ps | None \<Rightarrow> []) (filter (\<lambda>p. cw_chain p = chain) resolved))"

definition featuresOf :: "int \<Rightarrow> chain_wallets list \<Rightarrow> feature list" where
  "featuresOf chain resolved = js_set (concat (map cw_features (filter (\<lambda>p. cw_chain p = chain) resolved)))"

lemma merge_foldl:
  "foldl (\<lambda>(positions, features) protocol.
      if cw_chain protocol \<noteq> chain then (positions, features)
      else (positions @ (case js_get (cw_wallets protocol) user of Some ps \<Rightarrow> enforcePositions ps | None \<Rightarrow> []),
            foldl set_add features (cw_features protocol))) (ps, fs) resolved =
   (ps @ positionsOf user chain resolved, foldl set_add fs (concat (map cw_features (filter (\<lambda>p. cw_chain p = chain) resolved))))"
  by (induction resolved arbitrary: ps fs) (auto simp: positionsOf_def)

lemma merge_eq:
  "mergeUserProtocolDataPerChain user chain resolved =
    \<lparr> ce_positions = foldl (\<lambda>m feature. if js_get m feature = None then js_put m feature [] else m)
        (groupBy po_feature (positionsOf user chain resolved)) (featuresOf chain resolved),
      ce_features = featuresOf chain resolved, ce_total = getPositionsTotal (positionsOf user chain resolved), ce_chain = chain \<rparr>"
  unfolding mergeUserProtocolDataPerChain_def merge_foldl by (simp add: featuresOf_def js_set_def)

lemma add_empty_foldl:
  "foldl (\<lambda>m feature. if js_get m feature = None then js_put m feature [] else m) m fs =
    m @ map (\<lambda>f. (f, [])) (filter (\<lambda>f. f \<notin> set (js_keys m)) (js_set fs))"
proof (induction fs rule: rev_induct)
  case (snoc f fs)
  let ?m = "foldl (\<lambda>m feature. if js_get m feature = None then js_put m feature [] else m) m fs"
  have keys: "set (js_keys ?m) = set (js_keys m) \<union> set fs"
    unfolding snoc by (auto simp: js_keys_def)
  show ?case
  proof (cases "f \<in> set (js_keys m) \<union> set fs")
    case True
    then have "js_get ?m f \<noteq> None" using keys js_keys_get[of f ?m] by blast
    then show ?thesis using True snoc by (auto simp: js_set_def set_add_def)
  next
    case False
    then have "js_get ?m f = None" using keys by (simp add: js_get_None_iff)
    then show ?thesis using False keys by (simp add: js_put_new) (simp add: snoc js_set_def set_add_def)
  qed
qed (simp add: js_set_def)

lemma groupBy_map: "groupBy f xs = map (\<lambda>k. (k, filter (\<lambda>x. f x = k) xs)) (js_set (map f xs))"
proof -
  have keys: "map fst (groupBy f xs) = js_set (map f xs)" using groupBy_partition[of f xs] by (simp add: js_keys_def)
  have wf: "js_wf (groupBy f xs)" unfolding js_wf_def keys by simp
  have "kv = (fst kv, filter (\<lambda>x. f x = fst kv) xs)" if "kv \<in> set (groupBy f xs)" for kv
  proof -
    have "js_get (groupBy f xs) (fst kv) = Some (snd kv)" using that wf by (simp add: js_wf_get_iff)
    then show ?thesis using groupBy_partition[of f xs "fst kv"] by (cases kv) (auto split: if_splits)
  qed
  then have "groupBy f xs = map (\<lambda>kv. (fst kv, filter (\<lambda>x. f x = fst kv) xs)) (groupBy f xs)"
    by (intro map_idI[symmetric]) simp
  then show ?thesis unfolding keys[symmetric] by (simp add: comp_def)
qed

text \<open>An entry holds a list of positions when it has each of them once, under its feature, and their value as total.\<close>

definition holds_positions :: "chain_entry \<Rightarrow> position list \<Rightarrow> bool" where
  "holds_positions e ps \<longleftrightarrow> mset (concat (map snd (ce_positions e))) = mset ps
     \<and> list_all (\<lambda>(f, xs). list_all (\<lambda>x. po_feature x = f) xs) (ce_positions e)
     \<and> distinct (js_keys (ce_positions e)) \<and> set (js_keys (ce_positions e)) = set (ce_features e) \<union> po_feature ` set ps
     \<and> ce_total e = (\<Sum>p\<leftarrow>ps. positionValue p)"

lemma merge_holds: "holds_positions (mergeUserProtocolDataPerChain user chain resolved) (positionsOf user chain resolved)"
proof -
  let ?ps = "positionsOf user chain resolved"
  let ?new = "filter (\<lambda>f. f \<notin> set (js_keys (groupBy po_feature ?ps))) (js_set (featuresOf chain resolved))"
  have keys: "js_keys (groupBy po_feature ?ps) = js_set (map po_feature ?ps)" by (simp add: groupBy_map js_keys_def comp_def)
  have pos: "ce_positions (mergeUserProtocolDataPerChain user chain resolved) = groupBy po_feature ?ps @ map (\<lambda>f. (f, [])) ?new"
    by (simp add: merge_eq add_empty_foldl)
  have nil: "concat (map snd (map (\<lambda>f. (f, [] :: position list)) fs)) = []" for fs :: "feature list" by (induction fs) auto
  have "concat (map snd (groupBy po_feature ?ps)) = concat (map (\<lambda>k. filter (\<lambda>x. po_feature x = k) ?ps) (js_set (map po_feature ?ps)))"
    by (simp add: groupBy_map comp_def)
  moreover have "filter (\<lambda>x. po_feature x \<in> set (js_set (map po_feature ?ps))) ?ps = ?ps" by (simp add: filter_id_conv)
  ultimately have "mset (concat (map snd (groupBy po_feature ?ps))) = mset ?ps"
    using mset_by_key[OF distinct_js_set, of po_feature ?ps "map po_feature ?ps"] by simp
  then have 1: "mset (concat (map snd (ce_positions (mergeUserProtocolDataPerChain user chain resolved)))) = mset ?ps"
    unfolding pos map_append concat_append nil by simp
  have 2: "list_all (\<lambda>(f, xs). list_all (\<lambda>x. po_feature x = f) xs) (ce_positions (mergeUserProtocolDataPerChain user chain resolved))"
    unfolding pos by (auto simp: list_all_iff groupBy_map)
  have 3: "js_keys (ce_positions (mergeUserProtocolDataPerChain user chain resolved)) = js_set (map po_feature ?ps) @ ?new"
    unfolding pos by (simp add: js_keys_def groupBy_map comp_def)
  have 4: "distinct (js_set (map po_feature ?ps) @ ?new)" "set (js_set (map po_feature ?ps) @ ?new) = set (featuresOf chain resolved) \<union> po_feature ` set ?ps"
    by (auto simp: keys)
  show ?thesis using 1 2 4 unfolding holds_positions_def 3 by (simp add: merge_eq getPositionsTotal_sum)
qed

lemma merge_chain: "ce_chain (mergeUserProtocolDataPerChain user chain resolved) = chain"
  by (simp add: merge_eq)

text \<open>C18: The answer for users has a wallet for each address and in it an entry for each chain asked for.
  An entry holds exactly the positions the protocols of its chain reported for the address, grouped by feature, its total is their
  value (supplied plus rewarded minus borrowed), and the total of a wallet is the sum of its entries.\<close>

theorem platform_users_positions:
  "case platformUsersData P L chainIds addresses st s of ((wallets, errors), st', s') \<Rightarrow>
     list_all2 (\<lambda>a w. we_address w = a \<and> map ce_chain (we_chains w) = chainIds \<and> we_total w = (\<Sum>e\<leftarrow>we_chains w. ce_total e)
       \<and> list_all (\<lambda>e. holds_positions e (positionsOf a (ce_chain e) (map fst (fulfilled_values (fst
           (requestUsers P L chainIds addresses (ps_protocols st') (snd (snd (validatedProtocols P st s))))))))) (we_chains w))
       addresses wallets"
  by (auto simp: platformUsersData_def getWalletTotal_def foldl_plus list_all2_conv_all_nth list_all_iff merge_holds merge_chain comp_def Let_def
      split: prod.splits)


section \<open>Recovery of a failed instance\<close>

lemma revalidate_registered:
  assumes "p \<in> set (ps_protocols (fst acc)) \<and> p \<notin> set (js_keys (ps_protocolErrors (fst acc)))"
  shows "p \<in> set (ps_protocols (fst (revalidate P acc q))) \<and> p \<notin> set (js_keys (ps_protocolErrors (fst (revalidate P acc q))))"
  using assms by (cases acc) (auto simp: revalidate_def js_keys_delete split: option.splits prod.splits)

lemma revalidate_registers:
  assumes "pt_initialize P p = Some initialize" "\<And>s. fst (initialize s) = None"
  shows "p \<in> set (ps_protocols (fst (revalidate P acc p))) \<and> p \<notin> set (js_keys (ps_protocolErrors (fst (revalidate P acc p))))"
proof -
  obtain st e s where "acc = (st, e, s)" by (cases acc)
  then show ?thesis using assms(1) assms(2)[of s]
    by (auto simp: revalidate_def js_keys_delete split: option.splits prod.splits)
qed

lemma revalidate_foldl_registered:
  assumes "p \<in> set (ps_protocols (fst acc)) \<and> p \<notin> set (js_keys (ps_protocolErrors (fst acc)))"
  shows "p \<in> set (ps_protocols (fst (foldl (revalidate P) acc qs))) \<and> p \<notin> set (js_keys (ps_protocolErrors (fst (foldl (revalidate P) acc qs))))"
  using assms
proof (induction qs arbitrary: acc)
  case (Cons q qs)
  show ?case using Cons.IH[OF revalidate_registered[OF Cons.prems]] by simp
qed simp

text \<open>C39: An instance whose initialisation failed is served again as soon as its initialisation succeeds: the next
  request registers it and forgets its failure, whatever happens to the other failed instances.\<close>

theorem failed_protocol_recovers:
  assumes "p \<in> set (js_keys (ps_protocolErrors st))"
    and "pt_initialize P p = Some initialize" "\<And>s. fst (initialize s) = None"
    and "(answer, st', s') = platformUsersData P L chainIds addresses st s"
  shows "p \<in> set (ps_protocols st') \<and> p \<notin> set (js_keys (ps_protocolErrors st'))"
proof -
  have st': "st' = fst (validatedProtocols P st s)"
    using assms(4) by (auto simp: platformUsersData_def Let_def split: prod.splits)
  obtain qs rs where split: "js_keys (ps_protocolErrors st) = qs @ p # rs" using split_list[OF assms(1)] by blast
  show ?thesis
    unfolding st' validatedProtocols_def split foldl_append foldl_Cons
    by (rule revalidate_foldl_registered) (rule revalidate_registers[OF assms(2,3)])
qed

section \<open>Synchronising all platforms\<close>

lemma getPlatform_platforms: "sv_platforms (fst (snd (getPlatform P name sv))) = sv_platforms (fst sv)"
  by (auto simp: getPlatform_def split: prod.splits option.splits sum.splits)

lemma sync_platforms: "sv_platforms (fst (snd (cacheOpportunitiesForPlatform P name cs debug sv))) = sv_platforms (fst sv)"
  using getPlatform_platforms[of P name sv]
  by (auto simp: cacheOpportunitiesForPlatform_def putPlatform_def Let_def split: prod.splits sum.splits)

lemma sync_unknown: "js_get (sv_platforms (fst sv)) name = None \<Longrightarrow>
    cacheOpportunitiesForPlatform P name cs debug sv = (Inl ''Platform Not Supported'', sv)"
  by (cases sv) (simp add: cacheOpportunitiesForPlatform_def getPlatform_def)

lemma awaitEach_inv: "(\<And>x sv. I sv \<Longrightarrow> I (snd (f x sv))) \<Longrightarrow> I sv \<Longrightarrow> I (snd (awaitEach f xs sv))"
proof (induction xs arbitrary: sv)
  case (Cons x xs)
  obtain r sv' where x: "f x sv = (r, sv')" by (cases "f x sv")
  have "I sv'" using Cons.prems(1)[OF Cons.prems(2), of x] x by simp
  then have "I (snd (awaitEach f xs sv'))" using Cons by blast
  with \<open>I sv'\<close> show ?case by (simp add: x case_prod_beta Let_def split: sum.split)
qed simp

lemma awaitEach_fails:
  "(\<And>x sv. I sv \<Longrightarrow> I (snd (f x sv))) \<Longrightarrow> (\<And>sv. I sv \<Longrightarrow> isl (fst (f x sv))) \<Longrightarrow> I sv \<Longrightarrow> x \<in> set xs \<Longrightarrow>
   isl (fst (awaitEach f xs sv))"
proof (induction xs arbitrary: sv)
  case (Cons y xs)
  show ?case
  proof (cases "f y sv")
    case (Pair r sv')
    have I: "I sv'" using Cons.prems(1)[OF Cons.prems(3), of y] Pair by simp
    show ?thesis
    proof (cases r)
      case (Inr z)
      then have "x \<in> set xs" using Cons.prems(2)[OF Cons.prems(3)] Cons.prems(4) Pair by auto
      then have "isl (fst (awaitEach f xs sv'))" using Cons.IH[OF Cons.prems(1,2) I] by simp
      then show ?thesis using Pair Inr by (auto simp: isl_def split: prod.split)
    qed (simp add: Pair)
  qed
qed simp

lemma requestAll_fails:
  "(\<And>x sv. I sv \<Longrightarrow> I (snd (f x sv))) \<Longrightarrow> (\<And>sv. I sv \<Longrightarrow> isl (fst (f x sv))) \<Longrightarrow> I sv \<Longrightarrow> x \<in> set xs \<Longrightarrow>
   isl (fst (requestAll f xs sv))"
proof (induction xs arbitrary: sv)
  case (Cons y xs)
  obtain r sv' where y: "f y sv = (r, sv')" by (cases "f y sv")
  have I: "I sv'" using Cons.prems(1)[OF Cons.prems(3), of y] y by simp
  show ?case
  proof (cases "y = x")
    case True
    then have "isl r" using Cons.prems(2)[OF Cons.prems(3)] y by simp
    then show ?thesis using y by (auto simp: isl_def split: prod.split)
  next
    case False
    then have "isl (fst (requestAll f xs sv'))" using Cons.IH[OF Cons.prems(1,2) I] Cons.prems(4) by simp
    then show ?thesis using y by (cases r) (auto simp: isl_def split: prod.split)
  qed
qed simp

lemma chainsProtocols_mem:
  assumes "m \<in> set metas" "(chain, fs) \<in> set (pm_features m)"
  shows "\<exists>ns. (chain, ns) \<in> set (chainsProtocols metas) \<and> pm_name m \<in> set ns"
proof -
  let ?step = "\<lambda>m (name, chain). (let m' = (if js_get m chain = None then js_put m chain [] else m)
        in js_put m' chain (the (js_get m' chain) @ [name]))"
  have step: "\<exists>ns. js_get (foldl ?step acc kvs) c = Some ns \<and> n \<in> set ns"
    if "(n, c) \<in> set kvs \<or> (\<exists>ns. js_get acc c = Some ns \<and> n \<in> set ns)" for acc :: "(int, string list) js_map" and kvs n c
    using that
  proof (induction kvs arbitrary: acc)
    case (Cons kv kvs)
    obtain n' c' where kv: "kv = (n', c')" by (cases kv)
    have "(n, c) \<in> set kvs \<or> (\<exists>ns. js_get (?step acc kv) c = Some ns \<and> n \<in> set ns)"
      using Cons.prems by (auto simp: kv Let_def)
    from Cons.IH[OF this] show ?case by simp
  qed simp
  have "(pm_name m, chain) \<in> set (concat (map (\<lambda>p. map (\<lambda>f. (pm_name p, fst f)) (pm_features p)) metas))"
    using assms by force
  from step[OF disjI1[OF this], of "[]"] show ?thesis
    unfolding chainsProtocols_def set_sort by (blast dest: map_of_SomeD)
qed

text \<open>The synchronisation of all platforms asks for each of them by its display name, while the registry knows
  them by the name they are exported with: one platform with a feature and a display name of its own makes the whole synchronisation fail.\<close>

theorem sync_fails_on_display_name:
  assumes "getProtocolList P sv0 = (metas, sv1)" "m \<in> set metas" "pm_features m \<noteq> []"
    and "pm_name m \<notin> set (js_keys (sv_platforms (fst sv0)))"
  shows "isl (fst (cacheOpportunities P sv0))"
proof -
  let ?I = "\<lambda>sv. sv_platforms (fst sv) = sv_platforms (fst sv0)"
  let ?f = "\<lambda>(chain, cProtocols) sv. (let (r, sv') = awaitEach (\<lambda>protocol. cacheOpportunitiesForPlatform P protocol [chain] False) cProtocols sv
           in (sum_bind r (\<lambda>results. Inr (chain, results)), sv'))"
  have I1: "?I sv1"
  proof -
    have "?I acc \<Longrightarrow> ?I (snd (foldl (\<lambda>(metas, sv) name. case getPlatform P name sv of
         (Inr st, sv') \<Rightarrow> (metas @ [getMeta P st], sv') | (Inl e, sv') \<Rightarrow> (metas, sv')) (ms, acc) names))" for acc ms names
    proof (induction names arbitrary: acc ms)
      case (Cons n names)
      then show ?case using getPlatform_platforms[of P n acc] by (auto split: prod.splits sum.splits)
    qed simp
    from this[of sv0 "[]" "js_keys (sv_platforms (fst sv0))"] show ?thesis using assms(1) by (simp add: getProtocolList_def)
  qed
  obtain chain fs where "(chain, fs) \<in> set (pm_features m)" using assms(3) by (cases "pm_features m") auto
  then obtain ns where ns: "(chain, ns) \<in> set (chainsProtocols metas)" "pm_name m \<in> set ns"
    using chainsProtocols_mem[OF assms(2)] by blast
  have keep: "?I (snd (awaitEach (\<lambda>protocol. cacheOpportunitiesForPlatform P protocol [c] False) cs sv))" if "?I sv" for c cs sv
    by (rule awaitEach_inv[where I = ?I]) (simp_all add: sync_platforms that)
  have fail: "isl (fst (awaitEach (\<lambda>protocol. cacheOpportunitiesForPlatform P protocol [chain] False) ns sv))" if "?I sv" for sv
    by (rule awaitEach_fails[where I = ?I, OF _ _ that ns(2)])
      (use assms(4) in \<open>auto simp: sync_platforms sync_unknown js_get_None_iff\<close>)
  have "isl (fst (requestAll ?f (chainsProtocols metas) sv1))"
  proof (rule requestAll_fails[where I = ?I, OF _ _ I1 ns(1)])
    show "?I (snd (?f x sv))" if "?I sv" for x sv by (cases x) (simp add: case_prod_beta Let_def keep[OF that])
    show "isl (fst (?f (chain, ns) sv))" if "?I sv" for sv using fail[OF that] by (auto simp: isl_def case_prod_beta Let_def)
  qed
  then show ?thesis by (simp add: cacheOpportunities_def assms(1))
qed


section \<open>Examples\<close>

text \<open>Two protocols on one chain; the first fails while the state is zero.\<close>

definition twoProtocols :: "(nat, nat, unit) protocol_ops" where
  "twoProtocols = \<lparr> pt_chain = (\<lambda>_. 1), pt_list = (\<lambda>_. [Staking]), pt_create = (\<lambda>_ s. (None, s)),
     pt_initialize = (\<lambda>p. if p = 1 then Some (\<lambda>s. if s = 0 then (Some ''down'', 0) else (None, s)) else None),
     pt_getUsersData = (\<lambda>_. None), pt_getFormattedPoolData = (\<lambda>_. None), pt_getPoolData = (\<lambda>_ s. (Inr ([], []), s)),
     pt_cachePoolData = (\<lambda>_. None) \<rparr>"

definition cardano :: "nat platform_class" where
  "cardano = \<lparr> pc_name = ''Cardano Staking'', pc_slug = ''CardanoStaking'', pc_protocols = [1, 2] \<rparr>"

definition cardanoState :: "nat platform_state" where
  "cardanoState = \<lparr> ps_name = ''Cardano Staking'', ps_slug = ''CardanoStaking'', ps_protocols = [2],
     ps_protocolErrors = [(1, ''down'')], ps_registrationLocked = True \<rparr>"

lemma cardano_down: "initializePlatform twoProtocols cardano 0 = (Inr cardanoState, 0)"
  by (simp add: initializePlatform_def cardano_def cardanoState_def registerProtocol_def twoProtocols_def set_add_def)

theorem platform_reachable_inv_witness:
  "platform_reachable twoProtocols cardano cardanoState
   \<and> set (ps_protocols cardanoState) \<union> set (js_keys (ps_protocolErrors cardanoState)) = {1, 2}"
proof -
  have r: "platform_reachable twoProtocols cardano cardanoState" using cardano_down by (rule platform_reachable.initialized)
  with platform_reachable_inv[OF r] show ?thesis by (simp add: cardano_def)
qed

theorem failed_protocol_recovers_witness:
  "1 \<in> set (ps_protocols (fst (snd (platformUsersData (twoProtocols\<lparr> pt_initialize := \<lambda>_. Some (\<lambda>s. (None, s)) \<rparr>) plain_lib [1] [] cardanoState 5))))"
proof -
  let ?P = "twoProtocols\<lparr> pt_initialize := \<lambda>_. Some (\<lambda>s. (None, s)) \<rparr>"
  obtain answer st' s' where run: "platformUsersData ?P plain_lib [1] [] cardanoState 5 = (answer, st', s')" by (metis surj_pair)
  show ?thesis unfolding run
    using failed_protocol_recovers[OF _ _ _ run[symmetric], of 1 "\<lambda>s. (None, s)"] by (simp add: cardanoState_def js_keys_def)
qed

theorem sync_fails_on_display_name_witness:
  "isl (fst (cacheOpportunities twoProtocols (registerPlatforms [(''CardanoStaking'', cardano)], 0)))"
proof -
  let ?sv = "registerPlatforms [(''CardanoStaking'', cardano)]"
  have list: "getProtocolList twoProtocols (?sv, 0) =
      ([getMeta twoProtocols cardanoState], putPlatform ''CardanoStaking'' cardanoState ?sv, 0)"
    by (simp add: getProtocolList_def registerPlatforms_def getPlatform_def cardano_down putPlatform_def js_keys_def)
  show ?thesis
    by (rule sync_fails_on_display_name[OF list, of "getMeta twoProtocols cardanoState"])
      (simp_all add: getMeta_def cardanoState_def addMeta_def twoProtocols_def registerPlatforms_def js_keys_def)
qed

end
