(* ===== verification/Integrations.thy ===== *)
theory Integrations
  imports Platform Cache
begin

text \<open>
  The conversion of the answers of the platforms to the second version of the interface:
  \<open>apps/integration/src/modules/integrations/integrations.service.v3.decorator.ts\<close>.  A thrown error is the left side of a
  sum; the total of the response, which every conversion of a chain changes, is threaded through the conversions.
\<close>

section \<open>Data\<close>

record v2_claimable =
  cl_token :: token_info
  cl_balance :: js_number
  cl_value :: js_number
  cl_apr :: js_number

record v2_underlying =
  vu_token :: token_info
  vu_reserve :: js_number
  vu_value :: js_number
  vu_balance :: js_number
  vu_positionInPool :: js_number

record v2_staking =
  sg_address :: string
  sg_poolId :: js_number
  sg_tvl :: js_number
  sg_poolApy :: js_number
  sg_token :: token_info
  sg_value :: js_number
  sg_balance :: js_number
  sg_unlockTime :: js_number
  sg_rewards :: "v2_claimable list"
  sg_tokens :: "v2_underlying list option"

record v2_locked =
  lo_token :: token_info
  lo_unlockTime :: js_number
  lo_balance :: js_number
  lo_value :: js_number
  lo_totalBalance :: js_number
  lo_totalValue :: js_number

record v2_pool_token =
  pk_token :: token_info
  pk_reserve :: js_number
  pk_value :: js_number
  pk_balance :: js_number
  pk_positionInPool :: js_number
  pk_weight :: js_number

record v2_pool =
  lp_address :: string
  lp_token :: "receipt option"
  lp_tokens :: "v2_pool_token list"
  lp_tvl :: js_number
  lp_share :: js_number
  lp_rewards :: "v2_claimable list option"

record v2_lending =
  ln_token :: token_info
  ln_balance :: js_number
  ln_value :: js_number
  ln_apy :: js_number
  ln_isCollateral :: bool
  ln_healthFactor :: js_number

record v2_delegation =
  dg_validator :: string
  dg_token :: token_info
  dg_value :: js_number
  dg_balance :: js_number
  dg_reward :: v2_claimable

record 'i feature_section =
  fi_totalValue :: js_number
  fi_items :: "'i list"

record v2_chain =
  vc_chain :: int
  vc_features :: "feature list"
  vc_staking :: "v2_staking feature_section option"
  vc_lockedBalances :: "v2_locked feature_section option"
  vc_pools :: "v2_pool feature_section option"
  vc_claimable :: "v2_claimable feature_section option"
  vc_delegation :: "v2_delegation feature_section option"
  vc_lending :: "v2_lending feature_section option"
  vc_borrowing :: "v2_lending feature_section option"
  vc_health :: "js_number feature_section option"

record v2_wallet =
  vw_address :: string
  vw_chains :: "v2_chain list"

record v2_response =
  vr_errors :: "string list"
  vr_name :: string
  vr_chains :: "string option list"
  vr_wallets :: "v2_wallet list"
  vr_total :: js_number

section \<open>Conversions of single positions\<close>

definition safelyAddDecimals :: "js_number \<Rightarrow> js_number \<Rightarrow> js_number" where
  "safelyAddDecimals dec1 dec2 = num_add dec1 dec2"

text \<open>Reading a field of the first token throws when there is none.\<close>

definition firstToken :: "entry list option \<Rightarrow> string + entry" where
  "firstToken ts = (case ts of Some (t # _) \<Rightarrow> Inr t | _ \<Rightarrow> Inl ''TypeError'')"

definition rewardToV2 :: "entry \<Rightarrow> v2_claimable" where
  "rewardToV2 r = \<lparr> cl_token = en_token r, cl_balance = en_amount r, cl_value = en_value r,
     cl_apr = num_mul (en_aprYear r) (Some 100) \<rparr>"

text \<open>The first two parts of an identifier that is split at double colons.\<close>

fun split_colons :: "string \<Rightarrow> string list" where
  "split_colons [] = [[]]"
| "split_colons [c] = [[c]]"
| "split_colons (c # d # s) =
     (if c = CHR '':'' \<and> d = CHR '':'' then [] # split_colons s
      else (case split_colons (d # s) of [] \<Rightarrow> [[c]] | w # ws \<Rightarrow> (c # w) # ws))"

definition poolIdOf :: "string \<Rightarrow> js_number" where
  "poolIdOf ident = (case split_colons ident of
     _ # poolId # _ \<Rightarrow> (if poolId = [] then Some 0 else text_number poolId) | _ \<Rightarrow> None)"

definition orZeroNum :: "js_number \<Rightarrow> js_number" where
  "orZeroNum n = (if truthy_num n then n else Some 0)"

definition stakingToV2 :: "position \<Rightarrow> string + v2_staking" where
  "stakingToV2 v3Item = sum_bind (firstToken (po_supplied v3Item)) (\<lambda>lpToken. Inr
     \<lparr> sg_address = to_lower (hd (split_colons (po_id v3Item))),
       sg_poolId = poolIdOf (po_id v3Item),
       sg_tvl = en_tvl lpToken,
       sg_poolApy = (case po_rewarded v3Item of
           Some rewarded \<Rightarrow> num_mul (foldl (\<lambda>total0 reward. num_add (orZeroNum (en_aprYear reward)) total0) (Some 0) rewarded) (Some 100)
         | None \<Rightarrow> Some 0),
       sg_token = en_token lpToken, sg_value = en_value lpToken, sg_balance = en_amount lpToken, sg_unlockTime = None,
       sg_rewards = (case po_rewarded v3Item of Some rewarded \<Rightarrow> map rewardToV2 rewarded | None \<Rightarrow> []),
       sg_tokens = (if en_underlying lpToken \<noteq> [] then Some (map (\<lambda>u. \<lparr> vu_token = ud_token u, vu_reserve = ud_reserve u,
           vu_value = ud_value u, vu_balance = (if truthy_num (ud_balance u) then ud_balance u else ud_amount u),
           vu_positionInPool = ud_position u \<rparr>) (en_underlying lpToken)) else None) \<rparr>)"

definition lockedBalanceToV2 :: "position \<Rightarrow> string + v2_locked" where
  "lockedBalanceToV2 v3Item = sum_bind (firstToken (po_supplied v3Item)) (\<lambda>supplied. Inr
     \<lparr> lo_token = en_token supplied, lo_unlockTime = en_unlockTime supplied, lo_balance = en_amount supplied,
       lo_value = en_value supplied, lo_totalBalance = en_amount supplied, lo_totalValue = en_value supplied \<rparr>)"

definition keepTruthy :: "js_number \<Rightarrow> js_number" where
  "keepTruthy n = (if truthy_num n then n else None)"

definition liquidityToV2 :: "position \<Rightarrow> string + v2_pool" where
  "liquidityToV2 liquidityV3 = (case po_supplied liquidityV3 of
     None \<Rightarrow> Inl ''TypeError''
   | Some supplied \<Rightarrow>
       (let tokens = map (\<lambda>t. \<lparr> pk_token = en_token t, pk_reserve = en_reserve t, pk_value = en_value t, pk_balance = en_amount t,
              pk_positionInPool = keepTruthy (en_positionInPool t), pk_weight = keepTruthy (en_weight t) \<rparr>) supplied;
            tvl = foldl (\<lambda>p c. num_add p (en_tvl c)) (Some 0) supplied
        in Inr \<lparr> lp_address = po_id liquidityV3, lp_token = po_token liquidityV3, lp_tokens = tokens, lp_tvl = tvl,
             lp_share = (case po_token liquidityV3 of
                 Some token \<Rightarrow> num_div (rc_amount token) (rc_totalSupply token)
               | None \<Rightarrow> num_div (foldl (\<lambda>total0 token. pk_value token) (Some 0) tokens) tvl),
             lp_rewards = map_option (map rewardToV2) (po_rewarded liquidityV3) \<rparr>))"

definition claimableToV2 :: "position \<Rightarrow> string + v2_claimable" where
  "claimableToV2 claimableV3 = (case po_supplied claimableV3 of
     None \<Rightarrow> Inl ''TypeError''
   | Some ts \<Rightarrow> sum_bind (case ts of t # _ \<Rightarrow> Inr t | [] \<Rightarrow> firstToken (po_rewarded claimableV3)) (\<lambda>supplied. Inr
       \<lparr> cl_token = en_token supplied, cl_balance = en_amount supplied, cl_value = en_value supplied, cl_apr = None \<rparr>))"

definition delegationToV2 :: "position \<Rightarrow> string + v2_delegation" where
  "delegationToV2 item =
     sum_bind (case po_validator item of Some v \<Rightarrow> Inr v | None \<Rightarrow> Inl ''TypeError'') (\<lambda>validator.
     sum_bind (firstToken (po_supplied item)) (\<lambda>supply.
     sum_bind (firstToken (po_rewarded item)) (\<lambda>reward. Inr
       \<lparr> dg_validator = validator, dg_token = en_token supply, dg_value = en_value supply, dg_balance = en_amount supply,
         dg_reward = rewardToV2 reward \<rparr>)))"

text \<open>\<open>a ?? b\<close>: the first value that is there.\<close>

definition lendingApy :: "apy_rates option \<Rightarrow> js_number" where
  "lendingApy apy = (case apy of None \<Rightarrow> None | Some a \<Rightarrow>
     if truthy_num (ay_year a) then num_mul (ay_year a) (Some 100)
     else if ay_supplyApy a \<noteq> None then ay_supplyApy a
     else if ay_borrowApy a \<noteq> None then ay_borrowApy a
     else if ay_stableApy a \<noteq> None then ay_stableApy a
     else ay_variableApy a)"

definition lendingToV2 :: "entry list option \<Rightarrow> string + v2_lending list" where
  "lendingToV2 v3Items = (case v3Items of
     None \<Rightarrow> Inl ''TypeError''
   | Some items \<Rightarrow> Inr (map (\<lambda>item. \<lparr> ln_token = en_token item, ln_balance = en_amount item, ln_value = en_value item,
       ln_apy = lendingApy (en_apy item), ln_isCollateral = en_isCollateral item,
       ln_healthFactor = keepTruthy (en_healthFactor item) \<rparr>) items))"

section \<open>Conversion of the sections of a chain\<close>

text \<open>Adding a value to the total of the response and to the total of a section; \<open>addTruthy\<close> leaves out a falsy one.\<close>

type_synonym totals = "js_number \<times> js_number"

definition addBoth :: "js_number \<Rightarrow> totals \<Rightarrow> totals" where
  "addBoth v = (\<lambda>(total0, sec). (safelyAddDecimals total0 v, safelyAddDecimals sec v))"

definition addTruthy :: "totals \<Rightarrow> js_number \<Rightarrow> totals" where
  "addTruthy t v = (if truthy_num v then addBoth v t else t)"

text \<open>A map with an effect on the totals.\<close>

fun convertAll :: "('a \<Rightarrow> totals \<Rightarrow> string + 'b \<times> totals) \<Rightarrow> 'a list \<Rightarrow> totals \<Rightarrow> string + 'b list \<times> totals" where
  "convertAll f [] t = Inr ([], t)"
| "convertAll f (x # xs) t = sum_bind (f x t) (\<lambda>(y, t1). sum_bind (convertAll f xs t1) (\<lambda>(ys, t2). Inr (y # ys, t2)))"

definition convertSection ::
  "('a \<Rightarrow> totals \<Rightarrow> string + 'b \<times> totals) \<Rightarrow> 'a list \<Rightarrow> js_number \<Rightarrow> string + 'b feature_section \<times> js_number" where
  "convertSection f xs total0 = sum_bind (convertAll f xs (total0, Some 0)) (\<lambda>(items, total1, sec).
     Inr (\<lparr> fi_totalValue = sec, fi_items = items \<rparr>, total1))"

definition stakingItem :: "position \<Rightarrow> totals \<Rightarrow> string + v2_staking \<times> totals" where
  "stakingItem v3StakingPos t = sum_bind (stakingToV2 v3StakingPos) (\<lambda>v2Staking.
     sum_bind (firstToken (po_supplied v3StakingPos)) (\<lambda>supplied.
       Inr (v2Staking\<lparr> sg_unlockTime := en_unlockTime supplied \<rparr>,
         foldl (\<lambda>t r. addTruthy t (cl_value r)) (addBoth (sg_value v2Staking) t) (sg_rewards v2Staking))))"

definition poolItem :: "position \<Rightarrow> totals \<Rightarrow> string + v2_pool \<times> totals" where
  "poolItem liquidityV3 t = sum_bind (liquidityToV2 liquidityV3) (\<lambda>liquidityV2.
     (let t1 = foldl (\<lambda>t token. addTruthy t (pk_value token)) t (lp_tokens liquidityV2);
          t2 = (case lp_rewards liquidityV2 of Some rs \<Rightarrow> foldl (\<lambda>t r. addTruthy t (cl_value r)) t1 rs | None \<Rightarrow> t1)
      in Inr (liquidityV2, t2)))"

definition claimableItem :: "position \<Rightarrow> totals \<Rightarrow> string + v2_claimable list \<times> totals" where
  "claimableItem claimable t = (case po_rewarded claimable of
     None \<Rightarrow> Inl ''TypeError''
   | Some rewarded \<Rightarrow>
       (let mergedItems = rewarded @ (case po_supplied claimable of Some ts \<Rightarrow> ts | None \<Rightarrow> [])
        in convertAll (\<lambda>x t. sum_bind (claimableToV2 (claimable\<lparr> po_rewarded := Some [x] \<rparr>)) (\<lambda>claimableV2.
             Inr (claimableV2, addBoth (cl_value claimableV2) t))) mergedItems t))"

definition delegationItem :: "position \<Rightarrow> totals \<Rightarrow> string + v2_delegation \<times> totals" where
  "delegationItem v3 t = sum_bind (delegationToV2 v3) (\<lambda>delegationV2. Inr (delegationV2, addBoth (dg_value delegationV2) t))"

text \<open>Positions whose first token has an unlock time are locked balances; their value is not part of the total.\<close>

definition isLocked :: "position \<Rightarrow> string + bool" where
  "isLocked p = sum_bind (firstToken (po_supplied p)) (\<lambda>t. Inr (truthy_num (en_unlockTime t)))"

definition stakingPart :: "position list \<Rightarrow> v2_chain \<times> js_number \<Rightarrow> string + v2_chain \<times> js_number" where
  "stakingPart positions = (\<lambda>(chain, total0).
     sum_bind (sum_map isLocked positions) (\<lambda>flags.
       (let locked = map fst (filter snd (zip positions flags));
            staking = map fst (filter (\<lambda>pf. \<not> snd pf) (zip positions flags))
        in sum_bind (convertSection stakingItem staking total0) (\<lambda>(stakingSection, total1).
           sum_bind (sum_map lockedBalanceToV2 locked) (\<lambda>lockedItems.
             (let chain1 = chain\<lparr> vc_staking := Some stakingSection \<rparr>
              in Inr (if locked \<noteq> []
                then chain1\<lparr> vc_features := vc_features chain1 @ [LockedBalances],
                  vc_lockedBalances := Some \<lparr> fi_totalValue = foldl (\<lambda>s l. safelyAddDecimals s (lo_totalValue l)) (Some 0) lockedItems,
                    fi_items = lockedItems \<rparr> \<rparr>
                else chain1, total1)))))))"

definition poolsPart :: "position list \<Rightarrow> v2_chain \<times> js_number \<Rightarrow> string + v2_chain \<times> js_number" where
  "poolsPart positions = (\<lambda>(chain, total0). sum_bind (convertSection poolItem positions total0) (\<lambda>(sec, total1).
     Inr (chain\<lparr> vc_pools := Some sec \<rparr>, total1)))"

definition claimablePart :: "position list \<Rightarrow> v2_chain \<times> js_number \<Rightarrow> string + v2_chain \<times> js_number" where
  "claimablePart positions = (\<lambda>(chain, total0). sum_bind (convertSection claimableItem positions total0) (\<lambda>(sec, total1).
     Inr (chain\<lparr> vc_claimable := Some \<lparr> fi_totalValue = fi_totalValue sec, fi_items = concat (fi_items sec) \<rparr> \<rparr>, total1)))"

definition delegationPart :: "position list \<Rightarrow> v2_chain \<times> js_number \<Rightarrow> string + v2_chain \<times> js_number" where
  "delegationPart positions = (\<lambda>(chain, total0). sum_bind (convertSection delegationItem positions total0) (\<lambda>(sec, total1).
     Inr (chain\<lparr> vc_delegation := Some sec \<rparr>, total1)))"

section \<open>Lending\<close>

definition healthStep :: "position \<Rightarrow> v2_chain \<Rightarrow> v2_chain" where
  "healthStep position chain = chain\<lparr> vc_health := Some \<lparr> fi_totalValue = Some 0,
     fi_items = (if truthy_num (po_debtRatio position)
       then (case vc_health chain of Some h \<Rightarrow> fi_items h | None \<Rightarrow> []) @ [po_debtRatio position] else []) \<rparr> \<rparr>"

definition extendSection :: "v2_lending feature_section option \<Rightarrow> js_number \<Rightarrow> v2_lending list \<Rightarrow> v2_lending feature_section" where
  "extendSection old totalValue items = (case old of
     None \<Rightarrow> \<lparr> fi_totalValue = totalValue, fi_items = items \<rparr>
   | Some s \<Rightarrow> \<lparr> fi_totalValue = (if truthy_num (fi_totalValue s) then safelyAddDecimals (fi_totalValue s) totalValue else totalValue),
       fi_items = fi_items s @ items \<rparr>)"

definition lendingStep :: "position \<Rightarrow> v2_chain \<times> js_number \<Rightarrow> string + v2_chain \<times> js_number" where
  "lendingStep position = (\<lambda>(chain, total0). sum_bind (lendingToV2 (po_supplied position)) (\<lambda>items.
     (let totalValue = foldl (\<lambda>s i. safelyAddDecimals s (ln_value i)) (Some 0) items
      in Inr (chain\<lparr> vc_lending := Some (extendSection (vc_lending chain) totalValue items) \<rparr>, safelyAddDecimals total0 totalValue))))"

definition borrowingStep :: "position \<Rightarrow> v2_chain \<times> js_number \<Rightarrow> string + v2_chain \<times> js_number" where
  "borrowingStep position = (\<lambda>(chain, total0). sum_bind (lendingToV2 (po_borrowed position)) (\<lambda>items.
     (let totalValue = foldl (\<lambda>s i. safelyAddDecimals s (ln_value i)) (Some 0) items
      in Inr (chain\<lparr> vc_borrowing := Some (extendSection (vc_borrowing chain) totalValue items) \<rparr>,
           safelyAddDecimals total0 (num_mul totalValue (Some (-1)))))))"

definition claimableStep :: "position \<Rightarrow> v2_chain \<times> js_number \<Rightarrow> v2_chain \<times> js_number" where
  "claimableStep position = (\<lambda>(chain, total0).
     (let old = (case vc_claimable chain of Some s \<Rightarrow> s | None \<Rightarrow> \<lparr> fi_totalValue = Some 0, fi_items = [] \<rparr>);
          rewarded = (case po_rewarded position of Some rs \<Rightarrow> rs | None \<Rightarrow> []);
          (total1, sec) = foldl (\<lambda>t r. addBoth (en_value r) t) (total0, fi_totalValue old) rewarded
      in (chain\<lparr> vc_claimable := Some \<lparr> fi_totalValue = sec, fi_items = fi_items old @ map (\<lambda>r.
            \<lparr> cl_token = en_token r, cl_balance = en_amount r, cl_value = en_value r, cl_apr = None \<rparr>) rewarded \<rparr> \<rparr>, total1)))"

fun featureStep :: "feature \<Rightarrow> position \<Rightarrow> v2_chain \<times> js_number \<Rightarrow> string + v2_chain \<times> js_number" where
  "featureStep Health position s = Inr (healthStep position (fst s), snd s)"
| "featureStep Borrowing position s = borrowingStep position s"
| "featureStep Lending position s = lendingStep position s"
| "featureStep Claimable position s = Inr (claimableStep position s)"
| "featureStep _ position s = Inr s"

text \<open>Three features are appended, and then every feature of the list goes over all positions.\<close>

definition lendingPart :: "position list \<Rightarrow> v2_chain \<times> js_number \<Rightarrow> string + v2_chain \<times> js_number" where
  "lendingPart positions = (\<lambda>(chain, total0).
     (let chain1 = chain\<lparr> vc_features := vc_features chain @ [Claimable, Borrowing, Health] \<rparr>
      in sum_foldl (\<lambda>s feature. sum_foldl (\<lambda>s position. featureStep feature position s) s positions)
           (chain1, total0) (vc_features chain1)))"

section \<open>The whole answer\<close>

definition part ::
  "feature \<Rightarrow> (position list \<Rightarrow> v2_chain \<times> js_number \<Rightarrow> string + v2_chain \<times> js_number) \<Rightarrow> chain_entry
    \<Rightarrow> v2_chain \<times> js_number \<Rightarrow> string + v2_chain \<times> js_number" where
  "part feature f e s = (case js_get (ce_positions e) feature of Some positions \<Rightarrow> f positions s | None \<Rightarrow> Inr s)"

definition chainToV2 :: "chain_entry \<Rightarrow> js_number \<Rightarrow> string + v2_chain \<times> js_number" where
  "chainToV2 e total0 =
     sum_bind (part Staking stakingPart e (\<lparr> vc_chain = ce_chain e, vc_features = ce_features e, vc_staking = None,
       vc_lockedBalances = None, vc_pools = None, vc_claimable = None, vc_delegation = None, vc_lending = None,
       vc_borrowing = None, vc_health = None \<rparr>, total0)) (\<lambda>s1.
     sum_bind (part Pools poolsPart e s1) (\<lambda>s2.
     sum_bind (part Claimable claimablePart e s2) (\<lambda>s3.
     sum_bind (part Delegation delegationPart e s3) (\<lambda>s4.
     sum_bind (part Lending lendingPart e s4) (\<lambda>(chain, total1).
       Inr (chain\<lparr> vc_features := js_set (vc_features chain) \<rparr>, total1))))))"

fun chainsToV2 :: "chain_entry list \<Rightarrow> js_number \<Rightarrow> string + v2_chain list \<times> js_number" where
  "chainsToV2 [] total0 = Inr ([], total0)"
| "chainsToV2 (e # es) total0 = sum_bind (chainToV2 e total0) (\<lambda>(c, total1).
     sum_bind (chainsToV2 es total1) (\<lambda>(cs, total2). Inr (c # cs, total2)))"

fun walletsToV2 :: "wallet_entry list \<Rightarrow> js_number \<Rightarrow> string + v2_wallet list \<times> js_number" where
  "walletsToV2 [] total0 = Inr ([], total0)"
| "walletsToV2 (w # ws) total0 = sum_bind (chainsToV2 (we_chains w) total0) (\<lambda>(cs, total1).
     sum_bind (walletsToV2 ws total1) (\<lambda>(vs, total2). Inr (\<lparr> vw_address = we_address w, vw_chains = cs \<rparr> # vs, total2)))"

definition toV2Response :: "user_response \<Rightarrow> string + v2_response" where
  "toV2Response v3response =
     sum_bind (walletsToV2 (ur_wallets v3response) (Some 0)) (\<lambda>(wallets, total1). Inr
       \<lparr> vr_errors = ur_errors v3response, vr_name = pm_name (ur_protocol v3response),
         vr_chains = js_set (map (\<lambda>f. chainAbbrOfId (fst f)) (pm_features (ur_protocol v3response))),
         vr_wallets = wallets, vr_total = total1 \<rparr>)"

section \<open>The two versions side by side\<close>

record protocol_data =
  pd_name :: string
  pd_project :: string
  pd_version :: "string option"
  pd_features :: "(int \<times> feature list) list"

text \<open>The list of protocols is kept in the cache for 300 seconds; a protocol of the third version is listed when the
  second has none of its name.\<close>

definition getProtocolsList ::
  "('s, protocol_data list, int) cache_manager \<Rightarrow> protocol_data list \<Rightarrow> ('s \<Rightarrow> platform_meta list \<times> 's) \<Rightarrow> 's
    \<Rightarrow> protocol_data list \<times> 's" where
  "getProtocolsList C v2Protocols listPlatforms s =
     (case cm_get C ''cached_features'' s of
        Val cachedFeatures \<Rightarrow> (cachedFeatures, s)
      | _ \<Rightarrow> (let (v3Protocols, s1) = listPlatforms s;
               v2ProtocolsSet = js_set (map pd_name v2Protocols);
               data = v2Protocols @ map (\<lambda>p. \<lparr> pd_name = pm_slug p, pd_project = pm_slug p, pd_version = Some ''v3'',
                   pd_features = pm_features p \<rparr>) (filter (\<lambda>p. pm_slug p \<notin> set v2ProtocolsSet) v3Protocols)
             in (data, cm_set C ''cached_features'' (Val data) (Some 300) s1)))"

datatype v2_answer = AnswerV2 v2_response | NotFound

definition getProtocolFeaturesDataV2 ::
  "protocol_data list \<Rightarrow> (string \<Rightarrow> int list \<Rightarrow> string list \<Rightarrow> 's \<Rightarrow> (string + v2_response) \<times> 's)
    \<Rightarrow> ('s \<Rightarrow> platform_meta list \<times> 's) \<Rightarrow> (string \<Rightarrow> int list \<Rightarrow> string list \<Rightarrow> 's \<Rightarrow> (string + user_response) \<times> 's)
    \<Rightarrow> string \<Rightarrow> int list \<Rightarrow> string list \<Rightarrow> 's \<Rightarrow> (string + v2_answer) \<times> 's" where
  "getProtocolFeaturesDataV2 v2AllProtocols integrationServiceV2 listPlatforms getUserPositions protocolName chainIds addresses s =
     (if list_ex (\<lambda>p. pd_name p = protocolName) v2AllProtocols
      then (let (r, s') = integrationServiceV2 protocolName chainIds addresses s in (sum_bind r (\<lambda>v. Inr (AnswerV2 v)), s'))
      else (let (v3AllProtocols, s1) = listPlatforms s in
        if list_ex (\<lambda>p. pm_slug p = protocolName) v3AllProtocols
        then (let (r, s2) = getUserPositions protocolName chainIds addresses s1
              in (sum_bind r (\<lambda>v3. sum_bind (toV2Response v3) (\<lambda>v. Inr (AnswerV2 v))), s2))
        else (Inr NotFound, s1)))"

section \<open>The total of the response and the totals of the sections\<close>

text \<open>Every addition to the total of a section is an addition to the total of the response.\<close>

definition mirrored :: "totals \<Rightarrow> totals \<Rightarrow> bool" where
  "mirrored p q \<longleftrightarrow> (\<forall>x'. fst q = Some x' \<longrightarrow> (\<exists>x. fst p = Some x \<and> (\<forall>y. snd p = Some y \<longrightarrow> snd q = Some (y + (x' - x)))))"

lemma mirrored_refl [simp]: "mirrored p p"
  by (simp add: mirrored_def)

lemma mirrored_trans: "mirrored p q \<Longrightarrow> mirrored q r \<Longrightarrow> mirrored p r"
  by (cases p; cases q; cases r) (fastforce simp: mirrored_def)

lemma mirrored_addBoth [simp]: "mirrored p (addBoth v p)"
  by (cases p) (auto simp: mirrored_def addBoth_def safelyAddDecimals_def)

lemma mirrored_addTruthy [simp]: "mirrored p (addTruthy p v)"
  by (simp add: addTruthy_def)

lemma mirrored_foldl:
  assumes step: "\<And>p x. mirrored p (f p x)"
  shows "mirrored p (foldl f p xs)"
proof (induction xs arbitrary: p)
  case (Cons x xs)
  then show ?case using mirrored_trans[OF step[of p x]] by simp
qed simp

lemma mirrored_foldl_eq: "(\<And>p x. mirrored p (f p x)) \<Longrightarrow> foldl f p xs = q \<Longrightarrow> mirrored p q"
  using mirrored_foldl by blast

lemma mirrored_addBoth_eq: "addBoth v p = q \<Longrightarrow> mirrored p q"
  using mirrored_addBoth by blast

lemma mirrored_convertAll:
  assumes "\<And>x t y t'. f x t = Inr (y, t') \<Longrightarrow> mirrored t t'" "convertAll f xs t = Inr (ys, t')"
  shows "mirrored t t'"
  using assms(2)
proof (induction xs arbitrary: t ys)
  case (Cons x xs)
  then obtain y t1 ys' where 1: "f x t = Inr (y, t1)" "convertAll f xs t1 = Inr (ys', t')"
    by (fastforce simp: sum_bind_Inr_iff)
  show ?case using mirrored_trans[OF assms(1)[OF 1(1)] Cons.IH[OF 1(2)]] .
qed simp

lemma stakingItem_mirrored:
  assumes "stakingItem p t = Inr (y, t')"
  shows "mirrored t t'"
proof -
  have t': "t' = foldl (\<lambda>t r. addTruthy t (cl_value r)) (addBoth (sg_value y) t) (sg_rewards y)"
    using assms by (auto simp: stakingItem_def sum_bind_Inr_iff)
  show ?thesis unfolding t' by (rule mirrored_trans[OF mirrored_addBoth]) (rule mirrored_foldl, simp)
qed

lemma poolItem_mirrored:
  assumes "poolItem p t = Inr (y, t')"
  shows "mirrored t t'"
proof -
  define t1 where "t1 = foldl (\<lambda>t token. addTruthy t (pk_value token)) t (lp_tokens y)"
  have t': "t' = (case lp_rewards y of Some rs \<Rightarrow> foldl (\<lambda>t r. addTruthy t (cl_value r)) t1 rs | None \<Rightarrow> t1)"
    unfolding t1_def using assms by (auto simp: poolItem_def sum_bind_Inr_iff Let_def cong: option.case_cong)
  have 1: "mirrored t t1" unfolding t1_def by (rule mirrored_foldl) simp
  show ?thesis
  proof (cases "lp_rewards y")
    case (Some rs)
    show ?thesis unfolding t' Some option.case by (rule mirrored_trans[OF 1]) (rule mirrored_foldl, simp)
  qed (use 1 t' in simp)
qed

lemma claimableItem_mirrored:
  assumes "claimableItem p t = Inr (y, t')"
  shows "mirrored t t'"
proof -
  obtain xs where c: "convertAll (\<lambda>x t. sum_bind (claimableToV2 (p\<lparr> po_rewarded := Some [x] \<rparr>)) (\<lambda>claimableV2.
             Inr (claimableV2, addBoth (cl_value claimableV2) t))) xs t = Inr (y, t')"
    using assms by (auto simp: claimableItem_def Let_def split: option.splits)
  show ?thesis
    by (rule mirrored_convertAll[OF _ c]) (auto simp: sum_bind_Inr_iff intro: mirrored_addBoth_eq)
qed

lemma delegationItem_mirrored: "delegationItem p t = Inr (y, t') \<Longrightarrow> mirrored t t'"
  by (auto simp: delegationItem_def sum_bind_Inr_iff intro: mirrored_addBoth_eq)

lemmas item_mirrored = stakingItem_mirrored poolItem_mirrored claimableItem_mirrored delegationItem_mirrored

lemma convertSection_total:
  assumes "\<And>x t y t'. f x t = Inr (y, t') \<Longrightarrow> mirrored t t'" "convertSection f xs t = Inr (sec, Some x')"
  shows "\<exists>x. t = Some x \<and> fi_totalValue sec = Some (x' - x)"
proof -
  obtain items s where c: "convertAll f xs (t, Some 0) = Inr (items, Some x', s)" "sec = \<lparr> fi_totalValue = s, fi_items = items \<rparr>"
    using assms(2) by (auto simp: convertSection_def sum_bind_Inr_iff)
  show ?thesis using mirrored_convertAll[OF assms(1) c(1)] c(2) by (auto simp: mirrored_def)
qed

section \<open>Accounting\<close>

definition sectionTotal :: "'i feature_section option \<Rightarrow> js_number" where
  "sectionTotal s = (case s of None \<Rightarrow> Some 0 | Some s \<Rightarrow> fi_totalValue s)"

text \<open>What a chain contributes to the total, when the totals of its sections are numbers.\<close>

definition chainBalance :: "v2_chain \<Rightarrow> js_number" where
  "chainBalance c = num_sub (num_add (num_add (num_add (num_add (sectionTotal (vc_staking c)) (sectionTotal (vc_pools c)))
     (sectionTotal (vc_claimable c))) (sectionTotal (vc_delegation c))) (sectionTotal (vc_lending c))) (sectionTotal (vc_borrowing c))"

definition accounted :: "js_number \<Rightarrow> v2_chain \<times> js_number \<Rightarrow> bool" where
  "accounted b s \<longleftrightarrow> (\<forall>x. snd s = Some x \<longrightarrow> (\<exists>x0. b = Some x0 \<and> chainBalance (fst s) = Some (x - x0)))"

lemma sectionTotal_simps [simp]: "sectionTotal None = Some 0" "sectionTotal (Some s) = fi_totalValue s"
  by (simp_all add: sectionTotal_def)

lemma accounted_convert:
  assumes conv: "convertSection f xs t = Inr (sec, t')" and f: "\<And>x t y t'. f x t = Inr (y, t') \<Longrightarrow> mirrored t t'"
    and old: "accounted b (c, t)"
    and new: "chainBalance c' = num_add (chainBalance c) (fi_totalValue sec)"
  shows "accounted b (c', t')"
  unfolding accounted_def
proof (intro allI impI)
  fix x' assume "snd (c', t') = Some x'"
  then have c2: "convertSection f xs t = Inr (sec, Some x')" using conv by simp
  have "\<exists>x. t = Some x \<and> fi_totalValue sec = Some (x' - x)"
    by (rule convertSection_total[OF _ c2]) (rule f)
  then show "\<exists>x0. b = Some x0 \<and> chainBalance (fst (c', t')) = Some (x' - x0)" using old by (auto simp: accounted_def new)
qed

lemma stakingPart_accounted:
  assumes "stakingPart ps (c, t) = Inr (c', t')" "accounted b (c, t)" "vc_staking c = None"
  shows "accounted b (c', t') \<and> vc_pools c' = vc_pools c \<and> vc_claimable c' = vc_claimable c \<and> vc_delegation c' = vc_delegation c"
proof -
  obtain staking locked sec where s: "convertSection stakingItem staking t = Inr (sec, t')"
    and c': "vc_staking c' = Some sec" "vc_pools c' = vc_pools c" "vc_claimable c' = vc_claimable c" "vc_delegation c' = vc_delegation c"
      "vc_lending c' = vc_lending c" "vc_borrowing c' = vc_borrowing c"
    using assms(1) by (auto simp: stakingPart_def sum_bind_Inr_iff Let_def split: if_splits)
  have "accounted b (c', t')"
    by (rule accounted_convert[OF s stakingItem_mirrored assms(2)])
      (simp_all add: chainBalance_def c' assms(3) num_sub_add num_add_ac)
  with c' show ?thesis by simp
qed

lemma poolsPart_accounted:
  assumes "poolsPart ps (c, t) = Inr (c', t')" "accounted b (c, t)" "vc_pools c = None"
  shows "accounted b (c', t') \<and> vc_claimable c' = vc_claimable c \<and> vc_delegation c' = vc_delegation c"
proof -
  obtain sec where s: "convertSection poolItem ps t = Inr (sec, t')" and c': "c' = c\<lparr> vc_pools := Some sec \<rparr>"
    using assms(1) by (auto simp: poolsPart_def sum_bind_Inr_iff)
  have "accounted b (c', t')"
    by (rule accounted_convert[OF s poolItem_mirrored assms(2)])
      (simp_all add: chainBalance_def c' assms(3) num_sub_add num_add_ac)
  with c' show ?thesis by simp
qed

lemma claimablePart_accounted:
  assumes "claimablePart ps (c, t) = Inr (c', t')" "accounted b (c, t)" "vc_claimable c = None"
  shows "accounted b (c', t') \<and> vc_delegation c' = vc_delegation c"
proof -
  obtain sec where s: "convertSection claimableItem ps t = Inr (sec, t')"
    and c': "c' = c\<lparr> vc_claimable := Some \<lparr> fi_totalValue = fi_totalValue sec, fi_items = concat (fi_items sec) \<rparr> \<rparr>"
    using assms(1) by (auto simp: claimablePart_def sum_bind_Inr_iff)
  have "accounted b (c', t')"
    by (rule accounted_convert[OF s claimableItem_mirrored assms(2)])
      (simp_all add: chainBalance_def c' assms(3) num_sub_add num_add_ac)
  with c' show ?thesis by simp
qed

lemma delegationPart_accounted:
  assumes "delegationPart ps (c, t) = Inr (c', t')" "accounted b (c, t)" "vc_delegation c = None"
  shows "accounted b (c', t')"
proof -
  obtain sec where s: "convertSection delegationItem ps t = Inr (sec, t')" and c': "c' = c\<lparr> vc_delegation := Some sec \<rparr>"
    using assms(1) by (auto simp: delegationPart_def sum_bind_Inr_iff)
  show ?thesis
    by (rule accounted_convert[OF s delegationItem_mirrored assms(2)])
      (simp_all add: chainBalance_def c' assms(3) num_sub_add num_add_ac)
qed

lemma extendSection_total: "fi_totalValue (extendSection old (Some v) items) = num_add (sectionTotal old) (Some v) \<or> sectionTotal old = None"
  by (auto simp: extendSection_def sectionTotal_def safelyAddDecimals_def truthy_num_def split: option.splits)

lemma featureStep_accounted:
  assumes "featureStep f p s = Inr s'" "accounted b s"
  shows "accounted b s'"
proof -
  obtain c t where s: "s = (c, t)" by (cases s)
  consider "f = Lending" | "f = Borrowing" | "f = Claimable" | "f = Health" | "s' = s"
    using assms(1) by (cases f) auto
  then show ?thesis
  proof cases
    case 1
    then obtain items v where s': "s' = (c\<lparr> vc_lending := Some (extendSection (vc_lending c) v items) \<rparr>, safelyAddDecimals t v)"
      using assms(1) by (auto simp: s lendingStep_def sum_bind_Inr_iff Let_def)
    show ?thesis unfolding accounted_def
    proof clarsimp
      fix x' assume "snd s' = Some x'"
      then obtain x w where x: "t = Some x" "v = Some w" "x' = x + w" by (auto simp: s' safelyAddDecimals_def)
      then show "\<exists>x0. b = Some x0 \<and> chainBalance (fst s') = Some (x' - x0)"
        using assms(2) extendSection_total[of "vc_lending c" w items] by (auto simp: s s' accounted_def chainBalance_def)
    qed
  next
    case 2
    then obtain items v where s': "s' = (c\<lparr> vc_borrowing := Some (extendSection (vc_borrowing c) v items) \<rparr>,
        safelyAddDecimals t (num_mul v (Some (-1))))"
      using assms(1) by (auto simp: s borrowingStep_def sum_bind_Inr_iff Let_def)
    show ?thesis unfolding accounted_def
    proof clarsimp
      fix x' assume "snd s' = Some x'"
      then obtain x w where x: "t = Some x" "v = Some w" "x' = x - w" by (auto simp: s' safelyAddDecimals_def)
      then show "\<exists>x0. b = Some x0 \<and> chainBalance (fst s') = Some (x' - x0)"
        using assms(2) extendSection_total[of "vc_borrowing c" w items] by (auto simp: s s' accounted_def chainBalance_def)
    qed
  next
    case 3
    define rs where "rs = (case po_rewarded p of Some rs \<Rightarrow> rs | None \<Rightarrow> [])"
    obtain t1 sec where r: "foldl (\<lambda>t r. addBoth (en_value r) t) (t, sectionTotal (vc_claimable c)) rs = (t1, sec)"
      by (metis prod.exhaust)
    have "sectionTotal (vc_claimable c) = fi_totalValue (case vc_claimable c of Some s \<Rightarrow> s | None \<Rightarrow> \<lparr> fi_totalValue = Some 0, fi_items = [] \<rparr>)"
      by (simp add: sectionTotal_def split: option.split)
    then obtain items where s': "s' = (c\<lparr> vc_claimable := Some \<lparr> fi_totalValue = sec, fi_items = items \<rparr> \<rparr>, t1)"
      using assms(1) 3 r by (auto simp: s claimableStep_def Let_def simp flip: rs_def)
    have "mirrored (t, sectionTotal (vc_claimable c)) (t1, sec)"
      unfolding r[symmetric] by (rule mirrored_foldl) simp
    then show ?thesis using assms(2) by (fastforce simp: s s' accounted_def chainBalance_def mirrored_def)
  next
    case 4
    then show ?thesis using assms by (auto simp: s healthStep_def accounted_def chainBalance_def)
  qed (use assms(2) in simp)
qed

lemma sum_foldl_inv: "(\<And>s x s'. I s \<Longrightarrow> f s x = Inr s' \<Longrightarrow> I s') \<Longrightarrow> I s \<Longrightarrow> sum_foldl f s xs = Inr s' \<Longrightarrow> I s'"
  by (induction xs arbitrary: s) (auto simp: sum_bind_Inr_iff)

lemma lendingPart_accounted:
  assumes "lendingPart ps (c, t) = Inr s'" "accounted b (c, t)"
  shows "accounted b s'"
proof -
  let ?c = "c\<lparr> vc_features := vc_features c @ [Claimable, Borrowing, Health] \<rparr>"
  have start: "accounted b (?c, t)" using assms(2) by (simp add: accounted_def chainBalance_def)
  have run: "sum_foldl (\<lambda>s feature. sum_foldl (\<lambda>s position. featureStep feature position s) s ps) (?c, t) (vc_features ?c) = Inr s'"
    using assms(1) by (simp add: lendingPart_def Let_def)
  show ?thesis
    by (rule sum_foldl_inv[where I = "accounted b", OF _ start run])
      (rule sum_foldl_inv[where I = "accounted b"], auto intro: featureStep_accounted)
qed

lemma chainToV2_accounted:
  assumes "chainToV2 e t = Inr (c, Some x')"
  shows "\<exists>x. t = Some x \<and> chainBalance c = Some (x' - x)"
proof -
  let ?c0 = "\<lparr> vc_chain = ce_chain e, vc_features = ce_features e, vc_staking = None,
       vc_lockedBalances = None, vc_pools = None, vc_claimable = None, vc_delegation = None, vc_lending = None,
       vc_borrowing = None, vc_health = None \<rparr>"
  obtain s1 s2 s3 s4 c5 where
    p1: "part Staking stakingPart e (?c0, t) = Inr s1" and p2: "part Pools poolsPart e s1 = Inr s2"
    and p3: "part Claimable claimablePart e s2 = Inr s3" and p4: "part Delegation delegationPart e s3 = Inr s4"
    and p5: "part Lending lendingPart e s4 = Inr (c5, Some x')" and c: "c = c5\<lparr> vc_features := js_set (vc_features c5) \<rparr>"
    using assms by (auto simp: chainToV2_def sum_bind_Inr_iff)
  have b0: "accounted t (?c0, t)" by (simp add: accounted_def chainBalance_def)
  have b1: "accounted t s1 \<and> vc_pools (fst s1) = None \<and> vc_claimable (fst s1) = None \<and> vc_delegation (fst s1) = None"
    using p1 b0 stakingPart_accounted[of _ ?c0 t "fst s1" "snd s1" t] by (auto simp: part_def split: option.splits)
  have b2: "accounted t s2 \<and> vc_claimable (fst s2) = None \<and> vc_delegation (fst s2) = None"
    using p2 b1 poolsPart_accounted[of _ "fst s1" "snd s1" "fst s2" "snd s2" t] by (auto simp: part_def split: option.splits)
  have b3: "accounted t s3 \<and> vc_delegation (fst s3) = None"
    using p3 b2 claimablePart_accounted[of _ "fst s2" "snd s2" "fst s3" "snd s3" t] by (auto simp: part_def split: option.splits)
  have b4: "accounted t s4"
    using p4 b3 delegationPart_accounted[of _ "fst s3" "snd s3" "fst s4" "snd s4" t] by (auto simp: part_def split: option.splits)
  have "accounted t (c5, Some x')"
    using p5 b4 lendingPart_accounted[of _ "fst s4" "snd s4" "(c5, Some x')" t] by (auto simp: part_def split: option.splits)
  then show ?thesis by (simp add: accounted_def chainBalance_def c)
qed

fun sumBalances :: "v2_chain list \<Rightarrow> js_number" where
  "sumBalances [] = Some 0"
| "sumBalances (c # cs) = num_add (chainBalance c) (sumBalances cs)"

lemma sumBalances_append [simp]: "sumBalances (cs @ ds) = num_add (sumBalances cs) (sumBalances ds)"
  by (induction cs) (simp_all add: num_add_assoc)

lemma chainsToV2_accounted:
  "chainsToV2 es t = Inr (cs, Some x') \<Longrightarrow> \<exists>x. t = Some x \<and> sumBalances cs = Some (x' - x)"
proof (induction es arbitrary: t cs)
  case (Cons e es)
  then obtain c t1 cs' where 1: "chainToV2 e t = Inr (c, t1)" "chainsToV2 es t1 = Inr (cs', Some x')" "cs = c # cs'"
    by (auto simp: sum_bind_Inr_iff)
  then show ?case using Cons.IH[OF 1(2)] chainToV2_accounted[of e t c] by auto
qed simp

lemma walletsToV2_accounted:
  "walletsToV2 ws t = Inr (vs, Some x') \<Longrightarrow> \<exists>x. t = Some x \<and> sumBalances (concat (map vw_chains vs)) = Some (x' - x)"
proof (induction ws arbitrary: t vs)
  case (Cons w ws)
  then obtain cs t1 vs' where 1: "chainsToV2 (we_chains w) t = Inr (cs, t1)" "walletsToV2 ws t1 = Inr (vs', Some x')"
      "vs = \<lparr> vw_address = we_address w, vw_chains = cs \<rparr> # vs'"
    by (auto simp: sum_bind_Inr_iff)
  then show ?case using Cons.IH[OF 1(2)] chainsToV2_accounted[of "we_chains w" t cs] by auto
qed simp

text \<open>Whenever the total of the converted answer is a number, it is the sum over all chains of all wallets of the totals of
  the sections for staking, pools, claimable tokens, delegation and lending, less the total of the borrowing section; locked
  balances and health factors do not count.\<close>

theorem v2_total_accounted:
  assumes "toV2Response r = Inr v" "vr_total v = Some x"
  shows "sumBalances (concat (map vw_chains (vr_wallets v))) = Some x"
  using assms walletsToV2_accounted[of "ur_wallets r" "Some 0" "vr_wallets v" x]
  by (auto simp: toV2Response_def sum_bind_Inr_iff)

section \<open>How often a lending position counts\<close>

definition entriesWorth :: "entry list option \<Rightarrow> rat" where
  "entriesWorth es = sum_list (map (\<lambda>e. valueOf (en_value e)) (case es of Some xs \<Rightarrow> xs | None \<Rightarrow> []))"

fun positionWorth :: "feature \<Rightarrow> position \<Rightarrow> rat" where
  "positionWorth Lending p = entriesWorth (po_supplied p)"
| "positionWorth Borrowing p = - entriesWorth (po_borrowed p)"
| "positionWorth Claimable p = entriesWorth (po_rewarded p)"
| "positionWorth _ p = 0"

lemma sum_foldl_gains:
  assumes "\<And>s x s'. f s x = Inr s' \<Longrightarrow> gains (snd s) (snd s') (g x)" "sum_foldl f s xs = Inr s'"
  shows "gains (snd s) (snd s') (sum_list (map g xs))"
  using assms(2)
proof (induction xs arbitrary: s)
  case (Cons x xs)
  then obtain s1 where 1: "f s x = Inr s1" "sum_foldl f s1 xs = Inr s'" by (auto simp: sum_bind_Inr_iff)
  show ?case using gains_trans[OF assms(1)[OF 1(1)] Cons.IH[OF 1(2)]] by simp
qed simp

lemma foldl_items_value:
  "foldl (\<lambda>s i. num_add s (g i)) (Some a) xs = Some y \<Longrightarrow> y = a + sum_list (map (\<lambda>i. valueOf (g i)) xs)"
proof (induction xs arbitrary: a)
  case (Cons x xs)
  show ?case
  proof (cases "g x")
    case None
    have "foldl (\<lambda>s i. num_add s (g i)) None xs = None" for xs by (induction xs) simp_all
    then show ?thesis using Cons.prems None by simp
  next
    case (Some v)
    then show ?thesis using Cons.prems Cons.IH[of "a + v"] by (simp add: valueOf_def)
  qed
qed simp

lemma foldl_addBoth_gains: "gains (fst t) (fst (foldl (\<lambda>t r. addBoth (g r) t) t rs)) (sum_list (map (\<lambda>r. valueOf (g r)) rs))"
proof (induction rs arbitrary: t)
  case (Cons r rs)
  have "gains (fst t) (fst (addBoth (g r) t)) (valueOf (g r))"
    by (cases t) (auto simp: gains_def addBoth_def safelyAddDecimals_def valueOf_def)
  from gains_trans[OF this Cons.IH] show ?case by simp
qed simp

lemma lendingToV2_values: "lendingToV2 es = Inr items \<Longrightarrow> foldl (\<lambda>s i. safelyAddDecimals s (ln_value i)) (Some 0) items = Some y
    \<Longrightarrow> y = entriesWorth es"
  by (cases es) (auto simp: lendingToV2_def safelyAddDecimals_def entriesWorth_def o_def dest!: foldl_items_value)

lemma featureStep_gains:
  assumes "featureStep f p s = Inr s'"
  shows "gains (snd s) (snd s') (positionWorth f p)"
proof -
  obtain c t where s: "s = (c, t)" by (cases s)
  show ?thesis
  proof (cases f)
    case Lending
    then show ?thesis using assms lendingToV2_values
      by (fastforce simp: s lendingStep_def sum_bind_Inr_iff Let_def gains_def safelyAddDecimals_def)
  next
    case Borrowing
    then show ?thesis using assms lendingToV2_values
      by (fastforce simp: s borrowingStep_def sum_bind_Inr_iff Let_def gains_def safelyAddDecimals_def)
  next
    case Claimable
    let ?rs = "case po_rewarded p of Some rs \<Rightarrow> rs | None \<Rightarrow> []"
    let ?old = "case vc_claimable c of Some s \<Rightarrow> s | None \<Rightarrow> \<lparr> fi_totalValue = Some 0, fi_items = [] \<rparr>"
    have "snd s' = fst (foldl (\<lambda>t r. addBoth (en_value r) t) (t, fi_totalValue ?old) ?rs)"
      using assms Claimable by (auto simp: s claimableStep_def Let_def case_prod_beta)
    then show ?thesis
      using foldl_addBoth_gains[where t = "(t, fi_totalValue ?old)" and rs = ?rs and g = en_value] Claimable
      by (simp add: s entriesWorth_def)
  qed (use assms in auto)
qed

lemma sum_list_worth:
  "sum_list (map (\<lambda>f. sum_list (map (positionWorth f) ps)) fs) =
     of_nat (count_list fs Lending) * sum_list (map (\<lambda>p. entriesWorth (po_supplied p)) ps)
   - of_nat (count_list fs Borrowing) * sum_list (map (\<lambda>p. entriesWorth (po_borrowed p)) ps)
   + of_nat (count_list fs Claimable) * sum_list (map (\<lambda>p. entriesWorth (po_rewarded p)) ps)"
proof (induction fs)
  case (Cons f fs)
  have neg: "sum_list (map (\<lambda>p. - g p) ps) = - sum_list (map g ps)" for g :: "position \<Rightarrow> rat"
    by (induction ps) simp_all
  have other: "sum_list (map (positionWorth g) ps) = 0" if "g \<in> - {Lending, Borrowing, Claimable}" for g
    using that by (induction ps) (cases g; simp)+
  have pw: "positionWorth Lending = (\<lambda>p. entriesWorth (po_supplied p))" "positionWorth Borrowing = (\<lambda>p. - entriesWorth (po_borrowed p))"
    "positionWorth Claimable = (\<lambda>p. entriesWorth (po_rewarded p))" by (simp_all add: fun_eq_iff)
  show ?case
    by (cases f) (simp_all add: Cons.IH pw neg other algebra_simps)
qed simp

text \<open>For the lending positions of a chain the total grows by the supplied tokens once per time the feature lending is listed,
  by the rewards once more than the feature claimable is listed, and shrinks by the borrowed tokens once more than borrowing is
  listed: a chain that already lists claimable counts the rewards of its lending positions twice.\<close>

theorem lending_counted:
  assumes "lendingPart ps (c, t) = Inr (c', Some x')"
  shows "\<exists>x. t = Some x \<and> x' = x
    + of_nat (count_list (vc_features c) Lending) * sum_list (map (\<lambda>p. entriesWorth (po_supplied p)) ps)
    - of_nat (count_list (vc_features c) Borrowing + 1) * sum_list (map (\<lambda>p. entriesWorth (po_borrowed p)) ps)
    + of_nat (count_list (vc_features c) Claimable + 1) * sum_list (map (\<lambda>p. entriesWorth (po_rewarded p)) ps)"
proof -
  let ?fs = "vc_features c @ [Claimable, Borrowing, Health]"
  have run: "sum_foldl (\<lambda>s feature. sum_foldl (\<lambda>s position. featureStep feature position s) s ps)
      (c\<lparr> vc_features := ?fs \<rparr>, t) ?fs = Inr (c', Some x')"
    using assms by (simp add: lendingPart_def Let_def)
  have "gains (snd (c\<lparr> vc_features := ?fs \<rparr>, t)) (snd (c', Some x')) (sum_list (map (\<lambda>f. sum_list (map (positionWorth f) ps)) ?fs))"
    by (rule sum_foldl_gains[OF _ run]) (rule sum_foldl_gains, auto intro: featureStep_gains)
  then show ?thesis unfolding sum_list_worth by (auto simp: gains_def algebra_simps)
qed

definition healthItems :: "v2_chain \<Rightarrow> js_number list" where
  "healthItems c = (case vc_health c of Some h \<Rightarrow> fi_items h | None \<Rightarrow> [])"

lemma healthItems_step:
  "healthItems (healthStep p c) = (if truthy_num (po_debtRatio p) then healthItems c @ [po_debtRatio p] else [])"
  by (simp add: healthItems_def healthStep_def)

text \<open>Of the debt ratios only those after the last position without one are kept.\<close>

lemma health_items:
  "healthItems (foldl (\<lambda>c p. healthStep p c) c ps) =
     (if list_all (\<lambda>p. truthy_num (po_debtRatio p)) ps then healthItems c @ map po_debtRatio ps
      else rev (takeWhile truthy_num (rev (map po_debtRatio ps))))"
  by (induction ps rule: rev_induct) (simp_all add: healthItems_step)

section \<open>Witnesses\<close>

definition anEntry :: "rat \<Rightarrow> entry" where
  "anEntry v = \<lparr> en_token = \<lparr> ki_address = ''0xa'', ki_name = ''A'', ki_symbol = ''A'', ki_decimals = Some 18, ki_price = Some 1 \<rparr>,
     en_amount = Some v, en_value = Some v, en_unlockTime = None, en_tvl = None, en_aprYear = None, en_apy = None,
     en_isCollateral = False, en_healthFactor = None, en_underlying = [], en_reserve = None, en_positionInPool = None,
     en_weight = None \<rparr>"

definition aLoan :: position where
  "aLoan = \<lparr> po_id = ''0xpool'', po_feature = Lending, po_token = None, po_supply = None, po_supplied = Some [anEntry 100],
     po_reward = None, po_rewarded = Some [anEntry 5], po_borrow = None, po_borrowed = Some [anEntry 30], po_debtRatio = None,
     po_validator = None \<rparr>"

definition aChain :: v2_chain where
  "aChain = \<lparr> vc_chain = 1, vc_features = [Lending, Claimable], vc_staking = None, vc_lockedBalances = None, vc_pools = None,
     vc_claimable = None, vc_delegation = None, vc_lending = None, vc_borrowing = None, vc_health = None \<rparr>"

lemma lendingPart_aLoan: "\<exists>c. lendingPart [aLoan] (aChain, Some 0) = Inr (c, Some 80)"
  by (simp add: lendingPart_def Let_def aChain_def aLoan_def anEntry_def lendingStep_def borrowingStep_def claimableStep_def
      healthStep_def lendingToV2_def safelyAddDecimals_def addBoth_def extendSection_def truthy_num_def)

text \<open>Supplied 100, borrowed 30 and rewards of 5 that count twice.\<close>

theorem lending_counted_witness:
  "of_nat (count_list [Lending, Claimable] Lending) * sum_list (map (\<lambda>p. entriesWorth (po_supplied p)) [aLoan])
    - of_nat (count_list [Lending, Claimable] Borrowing + 1) * sum_list (map (\<lambda>p. entriesWorth (po_borrowed p)) [aLoan])
    + of_nat (count_list [Lending, Claimable] Claimable + 1) * sum_list (map (\<lambda>p. entriesWorth (po_rewarded p)) [aLoan]) = 80"
proof -
  obtain c where "lendingPart [aLoan] (aChain, Some 0) = Inr (c, Some 80)" using lendingPart_aLoan by blast
  from lending_counted[OF this] show ?thesis by (simp add: aChain_def)
qed

definition anAnswer :: user_response where
  "anAnswer = \<lparr> ur_errors = [], ur_protocol = \<lparr> pm_name = ''Aave'', pm_slug = ''Aave'', pm_features = [] \<rparr>,
     ur_wallets = [\<lparr> we_address = ''0xw'', we_total = 75, we_chains = [\<lparr> ce_positions = [(Lending, [aLoan])],
       ce_features = [Lending, Claimable], ce_total = 75, ce_chain = 1 \<rparr>] \<rparr>], ur_total = 75 \<rparr>"

theorem v2_total_accounted_witness:
  "\<exists>v. toV2Response anAnswer = Inr v \<and> vr_total v = Some 80 \<and> sumBalances (concat (map vw_chains (vr_wallets v))) = Some 80"
proof -
  obtain c where l: "lendingPart [aLoan] (aChain, Some 0) = Inr (c, Some 80)" using lendingPart_aLoan by blast
  obtain v where v: "toV2Response anAnswer = Inr v" "vr_total v = Some 80"
    using l by (simp add: toV2Response_def anAnswer_def chainToV2_def part_def aChain_def)
  with v2_total_accounted[OF v] show ?thesis by blast
qed

end
