(* ===== verification/BasePrices.thy ===== *)
theory BasePrices
  imports Collections
begin

text \<open>
  The prices of the positions that the adapters report: \<open>adjustPrices\<close> and its helpers in
  \<open>apps/integration/src/modules/protocols/protocol.service.ts\<close>.  The code changes the positions in place and a thrown
  error stops the handling of one group of positions, so an operation returns what it leaves behind together with
  whether it threw.  A group of positions has one constructor per class of the code; groups of other classes are left alone.
\<close>

section \<open>Numbers that may be absent\<close>

fun coalesce :: "'v js_value \<Rightarrow> 'v js_value \<Rightarrow> 'v js_value" where
  "coalesce (Val n) b = Val n"
| "coalesce _ b = b"

definition orZero :: "js_num \<Rightarrow> js_number" where
  "orZero v = (if truthyValue v then numberOf v else Some 0)"

section \<open>Positions\<close>

record priced_token =
  tk_address :: string
  tk_price :: js_num
  tk_balance :: js_num
  tk_value :: js_num

record reward_token =
  rw_address :: string
  rw_price :: js_num
  rw_balance :: js_num
  rw_value :: js_num
  rw_lockedBalance :: js_num
  rw_lockedValue :: js_num

text \<open>A token of a staking token with the tokens it consists of; an absent list and an empty one are the same to the code.\<close>

record staking_lp =
  sl_token :: priced_token
  sl_tokens :: "priced_token list"

record lp_position =
  lq_tokens :: "priced_token list"
  lq_rewards :: "reward_token list"

record staking_position =
  sp_token :: priced_token
  sp_tokens :: "staking_lp list"
  sp_rewards :: "reward_token list"

record lending_position =
  le_address :: string
  le_price :: js_num
  le_balance :: js_num
  le_value :: js_num

text \<open>Without a farm token, or without the list of its tokens, \<open>lv_farmTokens\<close> is \<open>None\<close>.\<close>

record leverage_position =
  lv_farmToken :: priced_token
  lv_farmTokens :: "priced_token list option"
  lv_borrowToken :: "priced_token option"
  lv_earned :: js_num
  lv_debtRatio :: js_num

record locked_token =
  lt_address :: string
  lt_price :: js_num
  lt_locked :: "(js_num \<times> js_num) option"
  lt_unlocked :: "(js_num \<times> js_num) option"
  lt_totalValue :: js_num
  lt_rewards :: "priced_token option"
  lt_tokens :: "priced_token list"

record mint_position =
  mi_mintedToken :: priced_token
  mi_collateral :: priced_token

record short_farm_position =
  sf_stakingToken :: priced_token
  sf_locked :: priced_token
  sf_rewards :: "reward_token list"

datatype base_items =
    BaseDataLp "lp_position list"
  | BaseDataClaimable "reward_token list"
  | BaseDataStaking "staking_position list"
  | BaseDataLending "lending_position list"
  | BaseLeverageFarming "leverage_position list"
  | BaseDataLocked "locked_token list"
  | BaseDataMint "mint_position list"
  | BaseDataShortFarm "short_farm_position list"
  | BaseDataAirdrop "priced_token list"
  | OtherData

record base_data =
  bd_chain :: int
  bd_userAddress :: string
  bd_feature :: string
  bd_total :: js_num
  bd_locked :: js_num
  bd_items :: base_items

section \<open>Collecting the assets\<close>

text \<open>The addresses of one position in the order in which they are added, and whether adding them throws.\<close>

definition tokenAddresses :: "priced_token list \<Rightarrow> string list" where
  "tokenAddresses ts = map tk_address ts"

definition lpAssets :: "lp_position \<Rightarrow> string list \<times> bool" where
  "lpAssets p = (tokenAddresses (lq_tokens p) @ map rw_address (lq_rewards p), False)"

definition stakingAssets :: "staking_position \<Rightarrow> string list \<times> bool" where
  "stakingAssets p =
     ((if sp_tokens p \<noteq> []
       then concat (map (\<lambda>t. if sl_tokens t \<noteq> [] then tokenAddresses (sl_tokens t) else [tk_address (sl_token t)]) (sp_tokens p))
       else [tk_address (sp_token p)]) @ map rw_address (sp_rewards p), False)"

definition leverageAssets :: "leverage_position \<Rightarrow> string list \<times> bool" where
  "leverageAssets p = (case lv_farmTokens p of
     None \<Rightarrow> ([], True)
   | Some ts \<Rightarrow>
       (let farm = (if ts \<noteq> [] then tokenAddresses ts else [tk_address (lv_farmToken p)])
        in case lv_borrowToken p of Some b \<Rightarrow> (farm @ [tk_address b], False) | None \<Rightarrow> (farm, True)))"

definition lockedAssets :: "locked_token \<Rightarrow> string list \<times> bool" where
  "lockedAssets p = (if lt_tokens p \<noteq> []
     then tokenAddresses (lt_tokens p) @ (case lt_rewards p of Some r \<Rightarrow> [tk_address r] | None \<Rightarrow> []) else [lt_address p], False)"

definition mintAssets :: "mint_position \<Rightarrow> string list \<times> bool" where
  "mintAssets p = ([tk_address (mi_mintedToken p), tk_address (mi_collateral p)], False)"

definition shortFarmAssets :: "short_farm_position \<Rightarrow> string list \<times> bool" where
  "shortFarmAssets p =
     (let own = [tk_address (sf_locked p), tk_address (sf_stakingToken p)]
      in case sf_rewards p of r # _ \<Rightarrow> (own @ [rw_address r], False) | [] \<Rightarrow> (own, True))"

text \<open>What is collected before an error is kept.\<close>

fun collect :: "('i \<Rightarrow> string list \<times> bool) \<Rightarrow> 'i list \<Rightarrow> string list \<times> bool" where
  "collect f [] = ([], False)"
| "collect f (x # xs) = (let (as, threw) = f x in if threw then (as, True) else (let (bs, threw2) = collect f xs in (as @ bs, threw2)))"

fun assetsOf :: "base_items \<Rightarrow> string list \<times> bool" where
  "assetsOf (BaseDataLp xs) = collect lpAssets xs"
| "assetsOf (BaseDataClaimable xs) = (map rw_address xs, False)"
| "assetsOf (BaseDataStaking xs) = collect stakingAssets xs"
| "assetsOf (BaseDataLending xs) = (map le_address xs, False)"
| "assetsOf (BaseLeverageFarming xs) = collect leverageAssets xs"
| "assetsOf (BaseDataLocked xs) = collect lockedAssets xs"
| "assetsOf (BaseDataMint xs) = collect mintAssets xs"
| "assetsOf (BaseDataShortFarm xs) = collect shortFarmAssets xs"
| "assetsOf (BaseDataAirdrop xs) = (tokenAddresses xs, False)"
| "assetsOf OtherData = ([], False)"

text \<open>The addresses per chain are a set in the order of insertion.\<close>

type_synonym chain_assets = "(int, string list) js_map"

definition collectAssets :: "base_data \<Rightarrow> chain_assets \<times> string list \<Rightarrow> chain_assets \<times> string list" where
  "collectAssets bd = (\<lambda>(chainAssets, errors).
     (let (as, threw) = assetsOf (bd_items bd);
          old = (case js_get chainAssets (bd_chain bd) of Some s \<Rightarrow> s | None \<Rightarrow> [])
      in (js_put chainAssets (bd_chain bd) (foldl set_add old as),
          if threw then errors @ [''Failed collecting assets for chain '' @ show_int (bd_chain bd)] else errors)))"

section \<open>Requesting the prices\<close>

text \<open>A fulfilled answer without the expected fields throws when it is read, which ends the reading of all answers.\<close>

datatype price_answer = Failed string | Malformed | Prices int "(string, js_num) js_map"

type_synonym price_map = "(string, rat option) js_map"

definition priceEntries :: "(string, js_num) js_map \<Rightarrow> price_map" where
  "priceEntries ps = foldl (\<lambda>m (a, v). js_put m a (if truthyValue v then numberOf v else None)) [] ps"

fun readAnswers :: "(int, price_map) js_map \<Rightarrow> price_answer list \<Rightarrow> (int, price_map) js_map \<times> bool" where
  "readAnswers table [] = (table, False)"
| "readAnswers table (Failed reason # as) = readAnswers table as"
| "readAnswers table (Malformed # as) = (table, True)"
| "readAnswers table (Prices chain ps # as) = readAnswers (js_put table chain (priceEntries ps)) as"

section \<open>Pricing one position\<close>

text \<open>The map of the prices of a chain is absent when its request failed; then every look-up throws.\<close>

type_synonym chain_prices = "price_map option"

definition priceOf :: "price_map \<Rightarrow> string \<Rightarrow> js_num" where
  "priceOf m a = (case js_get m a of None \<Rightarrow> Undef | Some None \<Rightarrow> Null | Some (Some p) \<Rightarrow> Val (Some p))"

definition repriced :: "price_map \<Rightarrow> priced_token \<Rightarrow> priced_token" where
  "repriced m t = (let price = coalesce (priceOf m (tk_address t)) (tk_price t)
     in t\<lparr> tk_price := price, tk_value := Val (num_mul (numberOf (tk_balance t)) (numberOf (coalesce price (Val (Some 0))))) \<rparr>)"

definition setTokenPriceAndValue :: "chain_prices \<Rightarrow> priced_token \<Rightarrow> priced_token \<times> bool" where
  "setTokenPriceAndValue prices t = (case prices of None \<Rightarrow> (t, True) | Some m \<Rightarrow> (repriced m t, False))"

text \<open>Going over the elements of an array with a running total; the elements before a thrown error stay changed.\<close>

fun eachItem :: "('i \<Rightarrow> 't \<Rightarrow> ('i \<times> 't) \<times> bool) \<Rightarrow> 'i list \<Rightarrow> 't \<Rightarrow> ('i list \<times> 't) \<times> bool" where
  "eachItem f [] t = (([], t), False)"
| "eachItem f (x # xs) t =
     (let ((y, t1), threw) = f x t
      in if threw then ((y # xs, t1), True)
         else (let ((ys, t2), threw2) = eachItem f xs t1 in ((y # ys, t2), threw2)))"

definition tokenStep :: "chain_prices \<Rightarrow> priced_token \<Rightarrow> js_number \<Rightarrow> (priced_token \<times> js_number) \<times> bool" where
  "tokenStep prices t total0 =
     (let (t1, threw) = setTokenPriceAndValue prices t
      in if threw then ((t1, total0), True) else ((t1, num_add total0 (numberOf (tk_value t1))), False))"

definition rewardStep :: "chain_prices \<Rightarrow> reward_token \<Rightarrow> js_number \<Rightarrow> (reward_token \<times> js_number) \<times> bool" where
  "rewardStep prices r total0 = (case prices of
     None \<Rightarrow> ((r, total0), True)
   | Some m \<Rightarrow>
       (let price = coalesce (priceOf m (rw_address r)) (rw_price r);
            r1 = r\<lparr> rw_price := price, rw_value := Val (num_mul (numberOf (rw_balance r)) (numberOf price)) \<rparr>
        in ((r1, num_add total0 (numberOf (rw_value r1))), False)))"

definition priceLp :: "chain_prices \<Rightarrow> lp_position \<Rightarrow> js_number \<Rightarrow> (lp_position \<times> js_number) \<times> bool" where
  "priceLp prices p total0 =
     (let ((ts, total1), threw) = eachItem (tokenStep prices) (lq_tokens p) total0;
          p1 = p\<lparr> lq_tokens := ts \<rparr>
      in if threw then ((p1, total1), True)
         else (let ((rs, total2), threw2) = eachItem (rewardStep prices) (lq_rewards p) total1
               in ((p1\<lparr> lq_rewards := rs \<rparr>, total2), threw2)))"

definition priceLending :: "chain_prices \<Rightarrow> lending_position \<Rightarrow> js_number \<Rightarrow> (lending_position \<times> js_number) \<times> bool" where
  "priceLending prices p total0 = (case prices of
     None \<Rightarrow> ((p, total0), True)
   | Some m \<Rightarrow>
       (let price = coalesce (priceOf m (le_address p)) (le_price p);
            value = num_mul (numberOf (le_balance p)) (numberOf price)
        in ((p\<lparr> le_price := price, le_value := Val value \<rparr>, num_add total0 value), False)))"

section \<open>Pricing staking positions\<close>

text \<open>The running totals are the total and the locked value of the group.  A value that is already there is kept.\<close>

definition stakingReward :: "chain_prices \<Rightarrow> reward_token \<Rightarrow> js_number \<times> js_number \<Rightarrow> (reward_token \<times> js_number \<times> js_number) \<times> bool" where
  "stakingReward prices r = (\<lambda>(total0, locked0). (case prices of
     None \<Rightarrow> ((r, total0, locked0), True)
   | Some m \<Rightarrow>
       (let price = coalesce (priceOf m (rw_address r)) (rw_price r);
            r1 = r\<lparr> rw_price := price, rw_value := coalesce (rw_value r) (Val (num_mul (numberOf (rw_balance r)) (numberOf price))) \<rparr>;
            lockedValue = num_mul (numberOf (rw_lockedBalance r)) (numberOf price);
            (r2, locked1) = (if truthyValue (rw_lockedBalance r)
              then (r1\<lparr> rw_lockedValue := Val lockedValue \<rparr>, num_add locked0 lockedValue) else (r1, locked0))
        in ((r2, num_add total0 (numberOf (rw_value r2)), locked1), False))))"

text \<open>An LP token without a price of its own has the value of its tokens, which are dropped afterwards.\<close>

definition underlyingStakingTokensHandling ::
  "chain_prices \<Rightarrow> staking_lp \<Rightarrow> js_number \<Rightarrow> (staking_lp \<times> js_number) \<times> bool" where
  "underlyingStakingTokensHandling prices p total0 =
     (let ((us, derivedLpValue), threw) = eachItem (tokenStep prices) (sl_tokens p) (Some 0)
      in if threw then ((p\<lparr> sl_tokens := us \<rparr>, total0), True)
         else (let t = sl_token p;
                   value = (if truthyValue (tk_price t) then num_mul (numberOf (tk_balance t)) (numberOf (tk_price t)) else derivedLpValue)
               in ((p\<lparr> sl_token := t\<lparr> tk_value := Val value \<rparr>, sl_tokens := [] \<rparr>, num_add total0 value), False)))"

definition stakingTokenStep :: "chain_prices \<Rightarrow> staking_lp \<Rightarrow> js_number \<Rightarrow> (staking_lp \<times> js_number) \<times> bool" where
  "stakingTokenStep prices p total0 =
     (if sl_tokens p \<noteq> [] then underlyingStakingTokensHandling prices p total0
      else (let (t, threw) = setTokenPriceAndValue prices (sl_token p)
            in if threw then ((p\<lparr> sl_token := t \<rparr>, total0), True)
               else ((p\<lparr> sl_token := t \<rparr>, num_add total0 (orZero (tk_value t))), False)))"

definition alpacaDebtTokens :: "string list" where
  "alpacaDebtTokens =
    [''0xd19d6253d979ccf663869fee30b8e0ac86029ebd'', ''0x6a3487ce84fd83c66b83e598b18412bd1d2a55f9'',
     ''0x02da7035bed00ae645516bdb0c282a7fd4aa7442'', ''0x92110af24d280e412b3a89691f6b0b9e09258fe6'',
     ''0x11362ea137a799298306123eea014b7809a9db40'', ''0xbde156e6a814f7a56d3e389e681088649d24a07c'',
     ''0x3b4fbb2b8536ab144048abafdd27eaf52f0fa4dc'', ''0x262de19b5fde97ed5bdba10d630e34fb9a1b59b2'',
     ''0xb76ed435b93477511e4604c441550a23d5aeaf84'', ''0x5138133f0671071d8b8f1c4c180881bfcfe22cec'']"

text \<open>The staking token itself; a debt token takes the value of the first reward and does not count.\<close>

definition ownStakingToken :: "chain_prices \<Rightarrow> staking_position \<Rightarrow> js_number \<Rightarrow> (staking_position \<times> js_number) \<times> bool" where
  "ownStakingToken prices p total0 =
     (if tk_address (sp_token p) \<in> set alpacaDebtTokens
      then (case sp_rewards p of
          r # _ \<Rightarrow> ((p\<lparr> sp_token := (sp_token p)\<lparr> tk_value := rw_value r \<rparr> \<rparr>, total0), False)
        | [] \<Rightarrow> ((p, total0), True))
      else (let ((t, total1), threw) = tokenStep prices (sp_token p) total0 in ((p\<lparr> sp_token := t \<rparr>, total1), threw)))"

definition priceStaking ::
  "chain_prices \<Rightarrow> staking_position \<Rightarrow> js_number \<times> js_number \<Rightarrow> (staking_position \<times> js_number \<times> js_number) \<times> bool" where
  "priceStaking prices p s =
     (let ((rs, total1, locked1), threw) = eachItem (stakingReward prices) (sp_rewards p) s;
          p1 = p\<lparr> sp_rewards := rs \<rparr>
      in if threw then ((p1, total1, locked1), True)
         else if sp_tokens p \<noteq> []
         then (let ((ts, total2), threw2) = eachItem (stakingTokenStep prices) (sp_tokens p) total1
               in ((p1\<lparr> sp_tokens := ts \<rparr>, total2, locked1), threw2))
         else (let ((p2, total2), threw2) = ownStakingToken prices p1 total1 in ((p2, total2, locked1), threw2)))"

section \<open>Pricing the other positions\<close>

definition priceLeverage :: "chain_prices \<Rightarrow> leverage_position \<Rightarrow> js_number \<Rightarrow> (leverage_position \<times> js_number) \<times> bool" where
  "priceLeverage prices p total0 = (case lv_farmTokens p of
     None \<Rightarrow> ((p, total0), True)
   | Some ts \<Rightarrow>
       (let (p1, leverageTotal, threw) =
          (if ts \<noteq> []
           then (let ((us, total1), threw1) = eachItem (tokenStep prices) ts (Some 0) in (p\<lparr> lv_farmTokens := Some us \<rparr>, total1, threw1))
           else (let ((t, total1), threw1) = tokenStep prices (lv_farmToken p) (Some 0) in (p\<lparr> lv_farmToken := t \<rparr>, total1, threw1)))
        in if threw then ((p1, total0), True)
           else (case lv_borrowToken p of
               None \<Rightarrow> ((p1, total0), True)
             | Some b \<Rightarrow>
                 (let (b1, threw2) = setTokenPriceAndValue prices b
                  in if threw2 then ((p1\<lparr> lv_borrowToken := Some b1 \<rparr>, total0), True)
                     else (let debt = numberOf (tk_value b1); earned = num_sub leverageTotal debt
                           in ((p1\<lparr> lv_borrowToken := Some b1, lv_earned := Val earned,
                                 lv_debtRatio := Val (num_mul (num_div debt leverageTotal) (Some 100)) \<rparr>, num_add total0 earned), False))))))"

text \<open>The part of a locked position that collects the values of its tokens, in the pair of balance and value; without either
  part, adding throws.\<close>

definition addLocked :: "js_number \<Rightarrow> locked_token \<Rightarrow> locked_token \<times> bool" where
  "addLocked v p = (case lt_locked p of
     Some (balance, value) \<Rightarrow> (p\<lparr> lt_locked := Some (balance, Val (num_add (numberOf value) v)) \<rparr>, False)
   | None \<Rightarrow> (case lt_unlocked p of
       Some (balance, value) \<Rightarrow> (p\<lparr> lt_unlocked := Some (balance, Val (num_add (numberOf value) v)) \<rparr>, False)
     | None \<Rightarrow> (p, True)))"

definition lockedUnderlying :: "chain_prices \<Rightarrow> priced_token \<Rightarrow> locked_token \<Rightarrow> (priced_token \<times> locked_token) \<times> bool" where
  "lockedUnderlying prices t p =
     (let (t1, threw) = setTokenPriceAndValue prices t
      in if threw then ((t1, p), True) else (let (p1, threw1) = addLocked (numberOf (tk_value t1)) p in ((t1, p1), threw1)))"

definition lockedWithTokens :: "chain_prices \<Rightarrow> locked_token \<Rightarrow> js_number \<Rightarrow> (locked_token \<times> js_number) \<times> bool" where
  "lockedWithTokens prices p total0 =
     (let (p1, threw) = (case lt_rewards p of
            None \<Rightarrow> (p, False)
          | Some r \<Rightarrow> (let (r1, threw1) = setTokenPriceAndValue prices r in (p\<lparr> lt_rewards := Some r1 \<rparr>, threw1)))
      in if threw then ((p1, total0), True)
         else (let p2 = (case lt_locked p1 of
                    None \<Rightarrow> p1
                  | Some (balance, value) \<Rightarrow> p1\<lparr> lt_locked := Some (balance,
                      Val (case lt_rewards p1 of Some r \<Rightarrow> orZero (tk_value r) | None \<Rightarrow> Some 0)) \<rparr>);
                  ((ts, p3), threw3) = eachItem (lockedUnderlying prices) (lt_tokens p2) p2;
                  p4 = p3\<lparr> lt_tokens := ts \<rparr>
               in if threw3 then ((p4, total0), True)
                  else (case (lt_locked p4, lt_unlocked p4) of
                      (Some (_, value), _) \<Rightarrow> ((p4, num_add total0 (numberOf value)), False)
                    | (None, Some (_, value)) \<Rightarrow> ((p4, num_add total0 (numberOf value)), False)
                    | (None, None) \<Rightarrow> ((p4, total0), True))))"

definition lockedAlone :: "chain_prices \<Rightarrow> locked_token \<Rightarrow> js_number \<Rightarrow> (locked_token \<times> js_number) \<times> bool" where
  "lockedAlone prices p total0 = (case prices of
     None \<Rightarrow> ((p, total0), True)
   | Some m \<Rightarrow>
       (let price = coalesce (priceOf m (lt_address p)) (lt_price p); p1 = p\<lparr> lt_price := price \<rparr>
        in case lt_locked p of
             None \<Rightarrow> ((p1, total0), True)
           | Some (balance, _) \<Rightarrow>
               (let v = num_mul (numberOf price) (numberOf balance); p2 = p1\<lparr> lt_locked := Some (balance, Val v) \<rparr>
                in case lt_unlocked p of
                     None \<Rightarrow> ((p2, total0), True)
                   | Some (free, _) \<Rightarrow>
                       (let w = num_mul (numberOf price) (numberOf free)
                        in ((p2\<lparr> lt_unlocked := Some (free, Val w), lt_totalValue := Val (num_add v w) \<rparr>,
                             num_add total0 (num_add v w)), False)))))"

definition priceLocked :: "chain_prices \<Rightarrow> locked_token \<Rightarrow> js_number \<Rightarrow> (locked_token \<times> js_number) \<times> bool" where
  "priceLocked prices p total0 = (if lt_tokens p \<noteq> [] then lockedWithTokens prices p total0 else lockedAlone prices p total0)"

definition priceMint :: "chain_prices \<Rightarrow> mint_position \<Rightarrow> js_number \<Rightarrow> (mint_position \<times> js_number) \<times> bool" where
  "priceMint prices p total0 =
     (let (minted, threw1) = setTokenPriceAndValue prices (mi_mintedToken p); p1 = p\<lparr> mi_mintedToken := minted \<rparr>
      in if threw1 then ((p1, total0), True)
         else (let (collateral, threw2) = setTokenPriceAndValue prices (mi_collateral p); p2 = p1\<lparr> mi_collateral := collateral \<rparr>
               in if threw2 then ((p2, total0), True)
                  else ((p2, num_add total0 (num_sub (numberOf (tk_value collateral)) (numberOf (tk_value minted)))), False)))"

definition priceShortFarm :: "chain_prices \<Rightarrow> short_farm_position \<Rightarrow> js_number \<Rightarrow> (short_farm_position \<times> js_number) \<times> bool" where
  "priceShortFarm prices p total0 =
     (let (staked, threw1) = setTokenPriceAndValue prices (sf_stakingToken p); p1 = p\<lparr> sf_stakingToken := staked \<rparr>
      in if threw1 then ((p1, total0), True)
         else (let (locked, threw2) = setTokenPriceAndValue prices (sf_locked p); p2 = p1\<lparr> sf_locked := locked \<rparr>
               in if threw2 then ((p2, total0), True)
                  else (case sf_rewards p of
                      [] \<Rightarrow> ((p2, total0), True)
                    | r # rs \<Rightarrow>
                        (let ((r1, _), threw3) = rewardStep prices r (Some 0); p3 = p2\<lparr> sf_rewards := r1 # rs \<rparr>
                         in if threw3 then ((p3, total0), True)
                            else ((p3, num_add total0 (num_add (orZero (rw_value r1)) (numberOf (tk_value locked)))), False)))))"

section \<open>Pricing a group and all groups\<close>

definition withTotal :: "base_data \<Rightarrow> ('i list \<Rightarrow> base_items) \<Rightarrow> ('i list \<times> js_number) \<times> bool \<Rightarrow> base_data \<times> bool" where
  "withTotal bd build = (\<lambda>((xs, total1), threw). (bd\<lparr> bd_items := build xs, bd_total := Val total1 \<rparr>, threw))"

definition priceData :: "chain_prices \<Rightarrow> base_data \<Rightarrow> base_data \<times> bool" where
  "priceData prices bd = (case bd_items bd of
     BaseDataLp xs \<Rightarrow> withTotal bd BaseDataLp (eachItem (priceLp prices) xs (Some 0))
   | BaseDataClaimable xs \<Rightarrow> withTotal bd BaseDataClaimable (eachItem (rewardStep prices) xs (Some 0))
   | BaseDataStaking xs \<Rightarrow>
       (let ((ys, total1, locked1), threw) = eachItem (priceStaking prices) xs (Some 0, Some 0)
        in (bd\<lparr> bd_items := BaseDataStaking ys, bd_total := Val total1, bd_locked := Val locked1 \<rparr>, threw))
   | BaseDataLending xs \<Rightarrow> withTotal bd BaseDataLending (eachItem (priceLending prices) xs (Some 0))
   | BaseLeverageFarming xs \<Rightarrow> withTotal bd BaseLeverageFarming (eachItem (priceLeverage prices) xs (Some 0))
   | BaseDataLocked xs \<Rightarrow> withTotal bd BaseDataLocked (eachItem (priceLocked prices) xs (Some 0))
   | BaseDataMint xs \<Rightarrow> withTotal bd BaseDataMint (eachItem (priceMint prices) xs (Some 0))
   | BaseDataShortFarm xs \<Rightarrow> withTotal bd BaseDataShortFarm (eachItem (priceShortFarm prices) xs (Some 0))
   | BaseDataAirdrop xs \<Rightarrow> withTotal bd BaseDataAirdrop (eachItem (tokenStep prices) xs (Some 0))
   | OtherData \<Rightarrow> (bd, False))"

definition adjustPrices ::
  "(string list \<Rightarrow> int \<Rightarrow> price_answer) \<Rightarrow> base_data list \<Rightarrow> string list \<Rightarrow> base_data list \<times> string list" where
  "adjustPrices getTokenPricesFetch data errors =
     (let (chainAssets, errors1) = foldl (\<lambda>s bd. collectAssets bd s) ([], errors) data;
          answers = map (\<lambda>(chainId, assets). getTokenPricesFetch assets chainId) chainAssets;
          (table, threw) = readAnswers [] answers;
          errors2 = (if threw then errors1 @ [''Failed getting token prices in protocol.service''] else errors1);
          priced = map (\<lambda>bd. priceData (js_get table (bd_chain bd)) bd) data
      in (map fst priced, errors2 @ concat (map (\<lambda>p. if snd p then [''Failed calculating price''] else []) priced)))"

section \<open>Only the requested prices matter\<close>

definition sameOn :: "string list \<Rightarrow> price_map \<Rightarrow> price_map \<Rightarrow> bool" where
  "sameOn as m1 m2 \<longleftrightarrow> (\<forall>a\<in>set as. js_get m1 a = js_get m2 a)"

lemma sameOn_simps [simp]:
  "sameOn [] m1 m2" "sameOn (a # as) m1 m2 \<longleftrightarrow> js_get m1 a = js_get m2 a \<and> sameOn as m1 m2"
  "sameOn (as @ bs) m1 m2 \<longleftrightarrow> sameOn as m1 m2 \<and> sameOn bs m1 m2"
  by (auto simp: sameOn_def)

lemma eachItem_cong_all: "(\<And>x t. x \<in> set xs \<Longrightarrow> f x t = g x t) \<Longrightarrow> eachItem f xs t = eachItem g xs t"
  by (induction xs arbitrary: t) (auto simp: case_prod_beta Let_def)

text \<open>What is collected decides the pricing, when an error in collecting is also one in pricing.\<close>

lemma eachItem_collect:
  assumes cong: "\<And>x t. sameOn (fst (assets x)) m1 m2 \<Longrightarrow> f x t = g x t"
    and throws: "\<And>x t. snd (assets x) \<Longrightarrow> snd (f x t)"
    and same: "sameOn (fst (collect assets xs)) m1 m2"
  shows "eachItem f xs t = eachItem g xs t"
  using same
proof (induction xs arbitrary: t)
  case (Cons x xs)
  have x: "f x t = g x t" using Cons.prems by (intro cong) (auto simp: case_prod_beta Let_def split: if_splits)
  show ?case
  proof (cases "snd (f x t)")
    case True
    then show ?thesis using x by (simp add: case_prod_beta Let_def)
  next
    case False
    then have "\<not> snd (assets x)" using throws by blast
    then have "sameOn (fst (collect assets xs)) m1 m2" using Cons.prems by (simp add: case_prod_beta Let_def)
    from Cons.IH[OF this] show ?thesis using x by (simp add: case_prod_beta Let_def)
  qed
qed simp

lemma tokenStep_cong: "js_get m1 (tk_address t) = js_get m2 (tk_address t) \<Longrightarrow> tokenStep (Some m1) t = tokenStep (Some m2) t"
  by (simp add: tokenStep_def[abs_def] setTokenPriceAndValue_def repriced_def priceOf_def)

lemma set_cong: "js_get m1 (tk_address t) = js_get m2 (tk_address t) \<Longrightarrow>
    setTokenPriceAndValue (Some m1) t = setTokenPriceAndValue (Some m2) t"
  by (simp add: setTokenPriceAndValue_def repriced_def priceOf_def)

lemma rewardStep_cong: "js_get m1 (rw_address r) = js_get m2 (rw_address r) \<Longrightarrow> rewardStep (Some m1) r = rewardStep (Some m2) r"
  by (simp add: rewardStep_def[abs_def] priceOf_def)

lemma tokens_cong: "sameOn (tokenAddresses ts) m1 m2 \<Longrightarrow> eachItem (tokenStep (Some m1)) ts t = eachItem (tokenStep (Some m2)) ts t"
  by (rule eachItem_cong_all, rule fun_cong[OF tokenStep_cong]) (auto simp: sameOn_def tokenAddresses_def)

lemma rewards_cong: "sameOn (map rw_address rs) m1 m2 \<Longrightarrow> eachItem (rewardStep (Some m1)) rs t = eachItem (rewardStep (Some m2)) rs t"
  by (rule eachItem_cong_all, rule fun_cong[OF rewardStep_cong]) (auto simp: sameOn_def)

lemma priceLp_cong: "sameOn (fst (lpAssets p)) m1 m2 \<Longrightarrow> priceLp (Some m1) p t = priceLp (Some m2) p t"
  by (simp add: lpAssets_def priceLp_def case_prod_beta Let_def tokens_cong[of _ m1 m2] rewards_cong[of _ m1 m2])

lemma priceLending_cong: "js_get m1 (le_address p) = js_get m2 (le_address p) \<Longrightarrow> priceLending (Some m1) p t = priceLending (Some m2) p t"
  by (simp add: priceLending_def priceOf_def)

lemma stakingRewards_cong:
  "sameOn (map rw_address rs) m1 m2 \<Longrightarrow> eachItem (stakingReward (Some m1)) rs s = eachItem (stakingReward (Some m2)) rs s"
  by (rule eachItem_cong_all) (auto simp: sameOn_def stakingReward_def priceOf_def)

lemma stakingTokenStep_cong:
  "sameOn (if sl_tokens p \<noteq> [] then tokenAddresses (sl_tokens p) else [tk_address (sl_token p)]) m1 m2
    \<Longrightarrow> stakingTokenStep (Some m1) p t = stakingTokenStep (Some m2) p t"
  by (simp add: stakingTokenStep_def underlyingStakingTokensHandling_def case_prod_beta Let_def tokens_cong[of _ m1 m2] set_cong[of m1 _ m2]
      split: if_splits)

lemma stakingTokens_cong:
  "sameOn (concat (map (\<lambda>t. if sl_tokens t \<noteq> [] then tokenAddresses (sl_tokens t) else [tk_address (sl_token t)]) ts)) m1 m2
    \<Longrightarrow> eachItem (stakingTokenStep (Some m1)) ts t = eachItem (stakingTokenStep (Some m2)) ts t"
  by (rule eachItem_cong_all, rule stakingTokenStep_cong) (auto simp: sameOn_def split: if_splits)

lemma ownStakingToken_cong:
  "js_get m1 (tk_address (sp_token p)) = js_get m2 (tk_address (sp_token p))
    \<Longrightarrow> ownStakingToken (Some m1) p t = ownStakingToken (Some m2) p t"
  by (simp add: ownStakingToken_def tokenStep_cong[of m1 _ m2])

lemma priceStaking_cong:
  assumes "sameOn (fst (stakingAssets p)) m1 m2"
  shows "priceStaking (Some m1) p s = priceStaking (Some m2) p s"
proof -
  have rs: "eachItem (stakingReward (Some m1)) (sp_rewards p) s = eachItem (stakingReward (Some m2)) (sp_rewards p) s"
    using assms by (intro stakingRewards_cong) (simp add: stakingAssets_def)
  show ?thesis
  proof (cases "sp_tokens p = []")
    case True
    then have "ownStakingToken (Some m1) (p\<lparr> sp_rewards := qs \<rparr>) t = ownStakingToken (Some m2) (p\<lparr> sp_rewards := qs \<rparr>) t" for qs t
      using assms by (intro ownStakingToken_cong) (simp add: stakingAssets_def)
    then show ?thesis by (simp add: priceStaking_def rs True case_prod_beta Let_def)
  next
    case False
    then have "eachItem (stakingTokenStep (Some m1)) (sp_tokens p) t = eachItem (stakingTokenStep (Some m2)) (sp_tokens p) t" for t
      using assms by (intro stakingTokens_cong) (simp add: stakingAssets_def)
    then show ?thesis by (simp add: priceStaking_def rs False case_prod_beta Let_def)
  qed
qed

lemma priceLeverage_cong:
  assumes "sameOn (fst (leverageAssets p)) m1 m2"
  shows "priceLeverage (Some m1) p t = priceLeverage (Some m2) p t"
proof (cases "lv_farmTokens p")
  case (Some ts)
  have farm: "sameOn (if ts \<noteq> [] then tokenAddresses ts else [tk_address (lv_farmToken p)]) m1 m2"
    using assms Some by (auto simp: leverageAssets_def Let_def split: option.splits)
  have 1: "ts \<noteq> [] \<Longrightarrow> eachItem (tokenStep (Some m1)) ts (Some 0) = eachItem (tokenStep (Some m2)) ts (Some 0)"
    using farm by (intro tokens_cong) simp
  have 2: "ts = [] \<Longrightarrow> tokenStep (Some m1) (lv_farmToken p) = tokenStep (Some m2) (lv_farmToken p)"
    using farm by (intro tokenStep_cong) simp
  have 3: "setTokenPriceAndValue (Some m1) b = setTokenPriceAndValue (Some m2) b" if "lv_borrowToken p = Some b" for b
    using assms Some that by (intro set_cong) (simp add: leverageAssets_def Let_def)
  show ?thesis
    using 1 2 3 by (cases "ts = []"; cases "lv_borrowToken p") (simp_all add: priceLeverage_def Some case_prod_beta Let_def cong: option.case_cong)
qed (simp add: priceLeverage_def)

lemma lockedUnderlyings_cong:
  "sameOn (tokenAddresses ts) m1 m2 \<Longrightarrow> eachItem (lockedUnderlying (Some m1)) ts p = eachItem (lockedUnderlying (Some m2)) ts p"
  by (rule eachItem_cong_all) (auto simp: lockedUnderlying_def sameOn_def tokenAddresses_def set_cong[of m1 _ m2])

lemma priceLocked_cong:
  assumes "sameOn (fst (lockedAssets p)) m1 m2"
  shows "priceLocked (Some m1) p t = priceLocked (Some m2) p t"
proof (cases "lt_tokens p = []")
  case True
  then show ?thesis using assms by (simp add: priceLocked_def lockedAssets_def lockedAlone_def priceOf_def)
next
  case False
  have ts: "eachItem (lockedUnderlying (Some m1)) (lt_tokens p) q = eachItem (lockedUnderlying (Some m2)) (lt_tokens p) q" for q
    using assms False by (intro lockedUnderlyings_cong) (simp add: lockedAssets_def)
  have r: "setTokenPriceAndValue (Some m1) r = setTokenPriceAndValue (Some m2) r" if "lt_rewards p = Some r" for r
    using assms False that by (intro set_cong) (simp add: lockedAssets_def)
  have tk: "lt_tokens (p\<lparr> lt_rewards := rs \<rparr>) = lt_tokens p" "lt_tokens (p\<lparr> lt_rewards := rs, lt_locked := l \<rparr>) = lt_tokens p"
    "lt_tokens (p\<lparr> lt_locked := l \<rparr>) = lt_tokens p" for rs l by simp_all
  show ?thesis
    using False r by (cases "lt_rewards p"; cases "lt_locked p")
      (simp_all add: priceLocked_def lockedWithTokens_def case_prod_beta Let_def ts cong: option.case_cong)
qed

lemma priceMint_cong: "sameOn (fst (mintAssets p)) m1 m2 \<Longrightarrow> priceMint (Some m1) p t = priceMint (Some m2) p t"
  by (simp add: mintAssets_def priceMint_def case_prod_beta Let_def set_cong[of m1 _ m2])

lemma priceShortFarm_cong: "sameOn (fst (shortFarmAssets p)) m1 m2 \<Longrightarrow> priceShortFarm (Some m1) p t = priceShortFarm (Some m2) p t"
  by (cases "sf_rewards p")
    (simp_all add: shortFarmAssets_def priceShortFarm_def set_cong[of m1 _ m2] rewardStep_cong[of m1 _ m2] case_prod_beta Let_def)

lemma leverage_throws: "snd (leverageAssets p) \<Longrightarrow> snd (priceLeverage prices p t)"
  by (auto simp: leverageAssets_def priceLeverage_def case_prod_beta Let_def split: option.splits)

lemma shortFarm_throws: "snd (shortFarmAssets p) \<Longrightarrow> snd (priceShortFarm prices p t)"
  by (simp add: shortFarmAssets_def priceShortFarm_def case_prod_beta Let_def split: list.splits)

lemma no_throw [simp]: "\<not> snd (lpAssets p)" "\<not> snd (stakingAssets q)" "\<not> snd (lockedAssets r)" "\<not> snd (mintAssets s)"
  by (simp_all add: lpAssets_def stakingAssets_def lockedAssets_def mintAssets_def)

text \<open>Price maps that agree on the addresses collected from a group give the same priced group and the same error, also when
  collecting them threw.\<close>

lemma priceData_same:
  assumes "sameOn (fst (assetsOf (bd_items bd))) m1 m2"
  shows "priceData (Some m1) bd = priceData (Some m2) bd"
proof (cases "bd_items bd")
  case (BaseDataLp xs)
  have "eachItem (priceLp (Some m1)) xs t = eachItem (priceLp (Some m2)) xs t" for t
    using assms BaseDataLp by (intro eachItem_collect[where assets = lpAssets and ?m1.0 = m1 and ?m2.0 = m2]) (auto intro: priceLp_cong)
  then show ?thesis using BaseDataLp by (simp add: priceData_def)
next
  case (BaseDataStaking xs)
  have "eachItem (priceStaking (Some m1)) xs t = eachItem (priceStaking (Some m2)) xs t" for t
    using assms BaseDataStaking by (intro eachItem_collect[where assets = stakingAssets and ?m1.0 = m1 and ?m2.0 = m2]) (auto intro: priceStaking_cong)
  then show ?thesis using BaseDataStaking by (simp add: priceData_def)
next
  case (BaseLeverageFarming xs)
  have "eachItem (priceLeverage (Some m1)) xs t = eachItem (priceLeverage (Some m2)) xs t" for t
    using assms BaseLeverageFarming by (intro eachItem_collect[where assets = leverageAssets and ?m1.0 = m1 and ?m2.0 = m2]) (auto intro: priceLeverage_cong leverage_throws)
  then show ?thesis using BaseLeverageFarming by (simp add: priceData_def)
next
  case (BaseDataLocked xs)
  have "eachItem (priceLocked (Some m1)) xs t = eachItem (priceLocked (Some m2)) xs t" for t
    using assms BaseDataLocked by (intro eachItem_collect[where assets = lockedAssets and ?m1.0 = m1 and ?m2.0 = m2]) (auto intro: priceLocked_cong)
  then show ?thesis using BaseDataLocked by (simp add: priceData_def)
next
  case (BaseDataMint xs)
  have "eachItem (priceMint (Some m1)) xs t = eachItem (priceMint (Some m2)) xs t" for t
    using assms BaseDataMint by (intro eachItem_collect[where assets = mintAssets and ?m1.0 = m1 and ?m2.0 = m2]) (auto intro: priceMint_cong)
  then show ?thesis using BaseDataMint by (simp add: priceData_def)
next
  case (BaseDataShortFarm xs)
  have "eachItem (priceShortFarm (Some m1)) xs t = eachItem (priceShortFarm (Some m2)) xs t" for t
    using assms BaseDataShortFarm by (intro eachItem_collect[where assets = shortFarmAssets and ?m1.0 = m1 and ?m2.0 = m2]) (auto intro: priceShortFarm_cong shortFarm_throws)
  then show ?thesis using BaseDataShortFarm by (simp add: priceData_def)
next
  case (BaseDataLending xs)
  have "eachItem (priceLending (Some m1)) xs (Some 0) = eachItem (priceLending (Some m2)) xs (Some 0)"
    using assms BaseDataLending by (intro eachItem_cong_all priceLending_cong) (auto simp: sameOn_def)
  then show ?thesis using BaseDataLending by (simp add: priceData_def)
next
  case (BaseDataClaimable xs)
  then show ?thesis using assms by (simp add: priceData_def rewards_cong[of _ m1 m2])
next
  case (BaseDataAirdrop xs)
  then show ?thesis using assms by (simp add: priceData_def tokens_cong[of _ m1 m2])
qed (simp add: priceData_def)

section \<open>The total of a group\<close>

lemma gains_num_add [simp]: "gains t (num_add t v) (valueOf v)"
  by (auto simp: gains_def valueOf_def)

lemma eachItem_length: "length (fst (fst (eachItem f xs t))) = length xs"
  by (induction xs arbitrary: t) (simp_all add: case_prod_beta Let_def)

lemma eachItem_gains:
  assumes step: "\<And>x t y t'. f x t = ((y, t'), False) \<Longrightarrow> gains (pr t) (pr t') (w y)"
  shows "eachItem f xs t = ((ys, t'), False) \<Longrightarrow> gains (pr t) (pr t') (sum_list (map w ys))"
proof (induction xs arbitrary: t ys)
  case (Cons x xs)
  obtain y t1 where y: "f x t = ((y, t1), False)"
    using Cons.prems by (cases "f x t") (auto split: if_splits)
  obtain ys' where ys: "eachItem f xs t1 = ((ys', t'), False)" "ys = y # ys'"
    using Cons.prems y by (auto simp: case_prod_beta Let_def prod_eq_iff)
  show ?case using gains_trans[OF step[OF y] Cons.IH[OF ys(1)]] ys(2) by simp
qed simp

lemma eachItem_gains_num:
  "(\<And>x t y t'. f x t = ((y, t'), False) \<Longrightarrow> gains t t' (w y)) \<Longrightarrow> eachItem f xs t = ((ys, t'), False)
    \<Longrightarrow> gains t t' (sum_list (map w ys))"
  by (rule eachItem_gains[where pr = "\<lambda>t. t"])

lemma tokenStep_gains: "tokenStep prices p t = ((q, t'), False) \<Longrightarrow> gains t t' (amountOf (tk_value q))"
  by (auto simp: tokenStep_def case_prod_beta Let_def split: if_splits)

lemma rewardStep_gains: "rewardStep prices r t = ((q, t'), False) \<Longrightarrow> gains t t' (amountOf (rw_value q))"
  by (auto simp: rewardStep_def Let_def split: option.splits)

definition lpWorth :: "lp_position \<Rightarrow> rat" where
  "lpWorth p = sum_list (map (\<lambda>t. amountOf (tk_value t)) (lq_tokens p)) + sum_list (map (\<lambda>r. amountOf (rw_value r)) (lq_rewards p))"

lemma priceLp_gains:
  assumes "priceLp prices p t = ((q, t'), False)"
  shows "gains t t' (lpWorth q)"
proof -
  obtain ts t1 rs where 1: "eachItem (tokenStep prices) (lq_tokens p) t = ((ts, t1), False)"
      "eachItem (rewardStep prices) (lq_rewards p) t1 = ((rs, t'), False)" "q = p\<lparr> lq_tokens := ts, lq_rewards := rs \<rparr>"
    using assms by (auto simp: priceLp_def case_prod_beta Let_def prod_eq_iff split: if_splits)
  show ?thesis
    using gains_trans[OF eachItem_gains_num[OF tokenStep_gains 1(1)] eachItem_gains_num[OF rewardStep_gains 1(2)]] 1(3)
    by (simp add: lpWorth_def)
qed

lemma priceLending_gains: "priceLending prices p t = ((q, t'), False) \<Longrightarrow> gains t t' (amountOf (le_value q))"
  by (auto simp: priceLending_def Let_def split: option.splits)

definition stakingWorth :: "staking_position \<Rightarrow> rat" where
  "stakingWorth p = sum_list (map (\<lambda>r. amountOf (rw_value r)) (sp_rewards p)) +
     (if sp_tokens p \<noteq> [] then sum_list (map (\<lambda>t. amountOf (tk_value (sl_token t))) (sp_tokens p))
      else if tk_address (sp_token p) \<in> set alpacaDebtTokens then 0 else amountOf (tk_value (sp_token p)))"

lemma stakingReward_gains:
  "stakingReward prices r s = ((q, s'), False) \<Longrightarrow> gains (fst s) (fst s') (amountOf (rw_value q))"
  by (cases s) (auto simp: stakingReward_def Let_def case_prod_beta split: option.splits if_splits)

lemma orZero_value: "orZero v = Some x \<Longrightarrow> x = amountOf v"
  by (cases v) (auto simp: orZero_def valueOf_def truthy_num_def split: if_splits option.splits)

lemma stakingTokenStep_gains: "stakingTokenStep prices p t = ((q, t'), False) \<Longrightarrow> gains t t' (amountOf (tk_value (sl_token q)))"
  by (auto simp: stakingTokenStep_def underlyingStakingTokensHandling_def case_prod_beta Let_def gains_def valueOf_def
      split: if_splits dest!: orZero_value)

lemma address_kept: "tokenStep prices p t = ((q, t'), threw) \<Longrightarrow> tk_address q = tk_address p"
  by (auto simp: tokenStep_def setTokenPriceAndValue_def repriced_def Let_def split: option.splits if_splits)

lemma priceStaking_gains:
  assumes "priceStaking prices p s = ((q, s'), False)"
  shows "gains (fst s) (fst s') (stakingWorth q)"
proof -
  obtain rs t1 l1 where rs: "eachItem (stakingReward prices) (sp_rewards p) s = ((rs, t1, l1), False)"
    using assms by (auto simp: priceStaking_def case_prod_beta Let_def prod_eq_iff split: if_splits)
  have g: "gains (fst s) t1 (sum_list (map (\<lambda>r. amountOf (rw_value r)) rs))"
    using eachItem_gains[where pr = fst, OF stakingReward_gains rs] by simp
  show ?thesis
  proof (cases "sp_tokens p = []")
    case False
    obtain ts t2 where ts: "eachItem (stakingTokenStep prices) (sp_tokens p) t1 = ((ts, t2), False)" "s' = (t2, l1)"
        "q = p\<lparr> sp_rewards := rs, sp_tokens := ts \<rparr>"
      using assms False rs by (auto simp: priceStaking_def case_prod_beta Let_def prod_eq_iff)
    have "ts \<noteq> []" using eachItem_length[of "stakingTokenStep prices" "sp_tokens p" t1] ts(1) False by auto
    then show ?thesis using gains_trans[OF g eachItem_gains_num[OF stakingTokenStep_gains ts(1)]] ts(2,3)
      by (simp add: stakingWorth_def)
  next
    case True
    obtain t2 where own: "ownStakingToken prices (p\<lparr> sp_rewards := rs \<rparr>) t1 = ((q, t2), False)" "s' = (t2, l1)"
      using assms True rs by (auto simp: priceStaking_def case_prod_beta Let_def prod_eq_iff)
    show ?thesis
    proof (cases "tk_address (sp_token p) \<in> set alpacaDebtTokens")
      case True
      then show ?thesis using own g \<open>sp_tokens p = []\<close> by (auto simp: ownStakingToken_def stakingWorth_def split: list.splits)
    next
      case False
      obtain t where t: "tokenStep prices (sp_token p) t1 = ((t, t2), False)" "q = p\<lparr> sp_rewards := rs, sp_token := t \<rparr>"
        using own False by (auto simp: ownStakingToken_def case_prod_beta Let_def prod_eq_iff)
      show ?thesis
        using gains_trans[OF g tokenStep_gains[OF t(1)]] address_kept[OF t(1)] False \<open>sp_tokens p = []\<close> own(2) t(2)
        by (simp add: stakingWorth_def)
    qed
  qed
qed

lemma priceLeverage_gains:
  assumes "priceLeverage prices p t = ((q, t'), False)"
  shows "gains t t' (amountOf (lv_earned q))"
  using assms by (auto simp: priceLeverage_def case_prod_beta Let_def split: option.splits if_splits)

definition lockedWorth :: "locked_token \<Rightarrow> rat" where
  "lockedWorth p = (if lt_tokens p = [] then amountOf (lt_totalValue p)
     else (case (lt_locked p, lt_unlocked p) of (Some (_, v), _) \<Rightarrow> amountOf v | (None, Some (_, v)) \<Rightarrow> amountOf v | _ \<Rightarrow> 0))"

lemma lockedWithTokens_run:
  assumes "lockedWithTokens prices p t = ((q, t'), False)"
  shows "\<exists>p2 ts p3. eachItem (lockedUnderlying prices) (lt_tokens p2) p2 = ((ts, p3), False) \<and> lt_tokens p2 = lt_tokens p \<and>
    q = p3\<lparr> lt_tokens := ts \<rparr> \<and> ((\<exists>v b. lt_locked p3 = Some (b, v) \<and> t' = num_add t (numberOf v)) \<or>
        (\<exists>v b. lt_locked p3 = None \<and> lt_unlocked p3 = Some (b, v) \<and> t' = num_add t (numberOf v)))"
proof -
  define run where "run = (case lt_rewards p of None \<Rightarrow> (p, False)
    | Some r \<Rightarrow> (let (r1, threw1) = setTokenPriceAndValue prices r in (p\<lparr> lt_rewards := Some r1 \<rparr>, threw1)))"
  define p2 where "p2 = (case lt_locked (fst run) of None \<Rightarrow> fst run
    | Some (balance, value) \<Rightarrow> (fst run)\<lparr> lt_locked := Some (balance,
        Val (case lt_rewards (fst run) of Some r \<Rightarrow> orZero (tk_value r) | None \<Rightarrow> Some 0)) \<rparr>)"
  have kept: "lt_tokens p2 = lt_tokens p"
    by (simp add: p2_def run_def case_prod_beta Let_def split: option.split)
  obtain ts p3 threw where e: "eachItem (lockedUnderlying prices) (lt_tokens p2) p2 = ((ts, p3), threw)"
    by (metis prod.exhaust)
  have "lockedWithTokens prices p t = (if snd run then ((fst run, t), True)
      else if threw then ((p3\<lparr> lt_tokens := ts \<rparr>, t), True)
      else (case (lt_locked p3, lt_unlocked p3) of
          (Some (_, value), _) \<Rightarrow> ((p3\<lparr> lt_tokens := ts \<rparr>, num_add t (numberOf value)), False)
        | (None, Some (_, value)) \<Rightarrow> ((p3\<lparr> lt_tokens := ts \<rparr>, num_add t (numberOf value)), False)
        | (None, None) \<Rightarrow> ((p3\<lparr> lt_tokens := ts \<rparr>, t), True)))"
    unfolding lockedWithTokens_def run_def[symmetric] by (simp add: case_prod_beta Let_def p2_def[symmetric] e split: option.split)
  then show ?thesis using assms e kept
    by (intro exI[of _ p2] exI[of _ ts] exI[of _ p3]) (auto split: if_splits option.splits)
qed

lemma priceLocked_gains:
  assumes "priceLocked prices p t = ((q, t'), False)"
  shows "gains t t' (lockedWorth q)"
proof (cases "lt_tokens p = []")
  case True
  then show ?thesis using assms
    by (auto simp: priceLocked_def lockedAlone_def lockedWorth_def Let_def split: option.splits)
next
  case False
  then obtain p2 ts p3 where 1: "eachItem (lockedUnderlying prices) (lt_tokens p2) p2 = ((ts, p3), False)" "lt_tokens p2 = lt_tokens p"
      and q: "q = p3\<lparr> lt_tokens := ts \<rparr>" "(\<exists>v b. lt_locked p3 = Some (b, v) \<and> t' = num_add t (numberOf v)) \<or>
        (\<exists>v b. lt_locked p3 = None \<and> lt_unlocked p3 = Some (b, v) \<and> t' = num_add t (numberOf v))"
    using lockedWithTokens_run[of prices p t q t'] assms unfolding priceLocked_def by auto
  have "ts \<noteq> []" using eachItem_length[of "lockedUnderlying prices" "lt_tokens p2" p2] 1 False by auto
  then show ?thesis using q by (auto simp: lockedWorth_def)
qed

lemma priceMint_gains:
  "priceMint prices p t = ((q, t'), False) \<Longrightarrow> gains t t' (amountOf (tk_value (mi_collateral q)) - amountOf (tk_value (mi_mintedToken q)))"
  by (auto simp: priceMint_def case_prod_beta Let_def gains_def valueOf_def split: if_splits)

definition shortFarmWorth :: "short_farm_position \<Rightarrow> rat" where
  "shortFarmWorth p = amountOf (rw_value (hd (sf_rewards p))) + amountOf (tk_value (sf_locked p))"

lemma priceShortFarm_gains: "priceShortFarm prices p t = ((q, t'), False) \<Longrightarrow> gains t t' (shortFarmWorth q)"
  by (auto simp: priceShortFarm_def shortFarmWorth_def case_prod_beta Let_def gains_def valueOf_def split: if_splits list.splits
      dest!: orZero_value)

fun groupWorth :: "base_items \<Rightarrow> rat" where
  "groupWorth (BaseDataLp xs) = sum_list (map lpWorth xs)"
| "groupWorth (BaseDataClaimable xs) = sum_list (map (\<lambda>r. amountOf (rw_value r)) xs)"
| "groupWorth (BaseDataStaking xs) = sum_list (map stakingWorth xs)"
| "groupWorth (BaseDataLending xs) = sum_list (map (\<lambda>p. amountOf (le_value p)) xs)"
| "groupWorth (BaseLeverageFarming xs) = sum_list (map (\<lambda>p. amountOf (lv_earned p)) xs)"
| "groupWorth (BaseDataLocked xs) = sum_list (map lockedWorth xs)"
| "groupWorth (BaseDataMint xs) = sum_list (map (\<lambda>p. amountOf (tk_value (mi_collateral p)) - amountOf (tk_value (mi_mintedToken p))) xs)"
| "groupWorth (BaseDataShortFarm xs) = sum_list (map shortFarmWorth xs)"
| "groupWorth (BaseDataAirdrop xs) = sum_list (map (\<lambda>t. amountOf (tk_value t)) xs)"
| "groupWorth OtherData = 0"

lemma withTotal_gains:
  assumes "withTotal bd build (eachItem f xs (Some 0)) = (bd', False)" "bd_total bd' = Val (Some x)"
    and "\<And>x t y t'. f x t = ((y, t'), False) \<Longrightarrow> gains t t' (w y)"
  shows "\<exists>ys. bd_items bd' = build ys \<and> x = sum_list (map w ys)"
proof -
  obtain ys t' where e: "eachItem f xs (Some 0) = ((ys, t'), False)" and bd': "bd' = bd\<lparr> bd_items := build ys, bd_total := Val t' \<rparr>"
    using assms(1) by (auto simp: withTotal_def case_prod_beta prod_eq_iff)
  have "gains (Some 0) t' (sum_list (map w ys))"
    using e by (rule eachItem_gains_num[rotated]) (rule assms(3))
  then show ?thesis using assms(2) bd' by (auto simp: gains_def)
qed

text \<open>When the pricing of a group ends without an error and its total is a number, the total is the sum of the values that
  its positions show afterwards: supplied tokens and rewards, the staking token or its parts, what a leveraged position earned, the
  locked or unlocked value, collateral less minted tokens.\<close>

theorem group_total:
  assumes "priceData prices bd = (bd', False)" "bd_total bd' = Val (Some x)" "bd_items bd \<noteq> OtherData"
  shows "x = groupWorth (bd_items bd')"
proof (cases "bd_items bd")
  case (BaseDataStaking xs)
  obtain ys t l where e: "eachItem (priceStaking prices) xs (Some 0, Some 0) = ((ys, t, l), False)"
      "bd' = bd\<lparr> bd_items := BaseDataStaking ys, bd_total := Val t, bd_locked := Val l \<rparr>"
    using assms(1) BaseDataStaking by (auto simp: priceData_def case_prod_beta Let_def prod_eq_iff)
  show ?thesis using eachItem_gains[where pr = fst, OF priceStaking_gains e(1)] e(2) assms(2) by (auto simp: gains_def)
next
  case (BaseDataLp xs)
  then show ?thesis using assms withTotal_gains[where w = lpWorth, OF _ _ priceLp_gains] by (fastforce simp: priceData_def)
next
  case (BaseDataClaimable xs)
  then show ?thesis using assms withTotal_gains[where f = "rewardStep prices", OF _ _ rewardStep_gains] by (fastforce simp: priceData_def)
next
  case (BaseDataLending xs)
  then show ?thesis using assms withTotal_gains[where f = "priceLending prices", OF _ _ priceLending_gains] by (fastforce simp: priceData_def)
next
  case (BaseLeverageFarming xs)
  then show ?thesis using assms withTotal_gains[where f = "priceLeverage prices", OF _ _ priceLeverage_gains] by (fastforce simp: priceData_def)
next
  case (BaseDataLocked xs)
  then show ?thesis using assms withTotal_gains[where f = "priceLocked prices", OF _ _ priceLocked_gains] by (fastforce simp: priceData_def)
next
  case (BaseDataMint xs)
  then show ?thesis using assms withTotal_gains[where f = "priceMint prices", OF _ _ priceMint_gains] by (fastforce simp: priceData_def)
next
  case (BaseDataShortFarm xs)
  then show ?thesis using assms withTotal_gains[where f = "priceShortFarm prices", OF _ _ priceShortFarm_gains] by (fastforce simp: priceData_def)
next
  case (BaseDataAirdrop xs)
  then show ?thesis using assms withTotal_gains[where f = "tokenStep prices", OF _ _ tokenStep_gains] by (fastforce simp: priceData_def)
qed (use assms(3) in simp)

section \<open>A failed request\<close>

definition untouched :: "('i \<Rightarrow> string list \<times> bool) \<Rightarrow> ('i \<Rightarrow> 't \<Rightarrow> ('i \<times> 't) \<times> bool) \<Rightarrow> bool" where
  "untouched assets f \<longleftrightarrow> (\<forall>x t. snd (fst (f x t)) = t \<and> (fst (assets x) \<noteq> [] \<longrightarrow> snd (f x t)))"

lemma eachItem_untouched:
  assumes "untouched assets f"
  shows "snd (fst (eachItem f xs t)) = t \<and> (fst (collect assets xs) \<noteq> [] \<longrightarrow> snd (eachItem f xs t))"
proof (induction xs arbitrary: t)
  case (Cons x xs)
  have "snd (fst (f x t)) = t" "fst (assets x) \<noteq> [] \<Longrightarrow> snd (f x t)" using assms by (auto simp: untouched_def)
  then show ?case using Cons.IH[of t] by (auto simp: case_prod_beta Let_def)
qed simp

lemma set_None [simp]: "setTokenPriceAndValue None t = (t, True)"
  by (simp add: setTokenPriceAndValue_def)

lemma tokenStep_None [simp]: "tokenStep None p t = ((p, t), True)"
  by (simp add: tokenStep_def)

lemma rewardStep_None [simp]: "rewardStep None r t = ((r, t), True)"
  by (simp add: rewardStep_def)

lemma stakingReward_None [simp]: "stakingReward None r s = ((r, s), True)"
  by (cases s) (simp add: stakingReward_def)

lemma eachItem_None [simp]:
  "eachItem (\<lambda>x t. ((x, t), True)) xs t = ((xs, t), xs \<noteq> [])"
  by (cases xs) simp_all

lemma None_abs [simp]: "tokenStep None = (\<lambda>p t. ((p, t), True))" "rewardStep None = (\<lambda>p t. ((p, t), True))"
  "stakingReward None = (\<lambda>p t. ((p, t), True))"
  by (simp_all add: fun_eq_iff)

lemma eachItem_throws:
  assumes "\<And>x t. snd (f x t) \<and> snd (fst (f x t)) = t"
  shows "snd (fst (eachItem f xs t)) = t \<and> (snd (eachItem f xs t) \<longleftrightarrow> xs \<noteq> [])"
  using assms by (cases xs) (simp_all add: case_prod_beta Let_def)

lemma stakingTokens_None [simp]:
  "snd (fst (eachItem (stakingTokenStep None) ts t)) = t" "snd (eachItem (stakingTokenStep None) ts t) \<longleftrightarrow> ts \<noteq> []"
  using eachItem_throws[of "stakingTokenStep None" ts t]
  by (simp_all add: stakingTokenStep_def underlyingStakingTokensHandling_def)

lemma lockedUnderlyings_None [simp]: "snd (eachItem (lockedUnderlying None) ts p) \<longleftrightarrow> ts \<noteq> []"
  using eachItem_throws[of "lockedUnderlying None" ts p] by (simp add: lockedUnderlying_def)

lemma untouched_lp: "untouched lpAssets (priceLp None)"
  by (auto simp: untouched_def lpAssets_def priceLp_def tokenAddresses_def)

lemma untouched_staking: "untouched stakingAssets (priceStaking None)"
  by (auto simp: untouched_def stakingAssets_def priceStaking_def ownStakingToken_def case_prod_beta Let_def split: list.split)

lemma untouched_leverage: "untouched leverageAssets (priceLeverage None)"
  by (auto simp: untouched_def leverageAssets_def priceLeverage_def split: option.split)

lemma untouched_locked: "untouched lockedAssets (priceLocked None)"
  by (auto simp: untouched_def lockedAssets_def priceLocked_def lockedWithTokens_def lockedAlone_def case_prod_beta Let_def
      split: option.split)

lemma untouched_mint: "untouched mintAssets (priceMint None)"
  by (auto simp: untouched_def mintAssets_def priceMint_def)

lemma untouched_shortFarm: "untouched shortFarmAssets (priceShortFarm None)"
  by (auto simp: untouched_def shortFarmAssets_def priceShortFarm_def)

lemma priceLending_None [simp]: "priceLending None = (\<lambda>p t. ((p, t), True))"
  by (simp add: fun_eq_iff priceLending_def)

lemma priceData_None:
  assumes "fst (assetsOf (bd_items bd)) \<noteq> []"
  shows "snd (priceData None bd) \<and> bd_total (fst (priceData None bd)) = Val (Some 0)"
  using assms eachItem_untouched[OF untouched_lp] eachItem_untouched[OF untouched_staking] eachItem_untouched[OF untouched_leverage]
    eachItem_untouched[OF untouched_locked] eachItem_untouched[OF untouched_mint] eachItem_untouched[OF untouched_shortFarm]
  by (cases "bd_items bd")
    (simp_all add: priceData_def withTotal_def case_prod_beta Let_def tokenAddresses_def)

lemma readAnswers_other:
  "(\<And>ps. Prices c ps \<notin> set as) \<Longrightarrow> js_get (fst (readAnswers table as)) c = js_get table c"
proof (induction table as rule: readAnswers.induct)
  case (4 table chain ps as)
  then have "c \<noteq> chain" "\<And>qs. Prices c qs \<notin> set as" by auto
  then show ?case using "4.IH" by simp
qed simp_all

lemma adjustPrices_run:
  "adjustPrices fetch data errors =
     (let (chainAssets, errors1) = foldl (\<lambda>s bd. collectAssets bd s) ([], errors) data;
          answers = readAnswers [] (map (\<lambda>(chainId, assets). fetch assets chainId) chainAssets);
          priced = map (\<lambda>bd. priceData (js_get (fst answers) (bd_chain bd)) bd) data
      in (map fst priced, (if snd answers then errors1 @ [''Failed getting token prices in protocol.service''] else errors1) @
            concat (map (\<lambda>p. if snd p then [''Failed calculating price''] else []) priced)))"
  by (simp add: adjustPrices_def case_prod_beta Let_def)

text \<open>When the request for the prices of a chain fails, every group of that chain with at least one asset ends with a total of
  zero and an error, whatever prices its tokens already carry: the fallback to the price of a token is never reached.\<close>

theorem failed_prices_zero_total:
  assumes "\<And>as. fetch as c = Failed reason" "\<And>as d ps. d \<noteq> c \<Longrightarrow> fetch as d \<noteq> Prices c ps"
    and "i < length data" "bd_chain (data ! i) = c" "fst (assetsOf (bd_items (data ! i))) \<noteq> []"
  shows "bd_total (fst (adjustPrices fetch data errors) ! i) = Val (Some 0)
    \<and> ''Failed calculating price'' \<in> set (snd (adjustPrices fetch data errors))"
proof -
  obtain ca es where f: "foldl (\<lambda>s bd. collectAssets bd s) ([], errors) data = (ca, es)" by (metis prod.exhaust)
  define answers where "answers = readAnswers [] (map (\<lambda>(chainId, assets). fetch assets chainId) ca)"
  have "Prices c ps \<notin> set (map (\<lambda>(chainId, assets). fetch assets chainId) ca)" for ps
    using assms(1,2) by (auto simp: image_iff) (metis price_answer.distinct(3))
  then have none: "js_get (fst answers) c = None" by (simp add: answers_def readAnswers_other)
  have p: "priceData (js_get (fst answers) (bd_chain (data ! i))) (data ! i) = priceData None (data ! i)"
    using none assms(4) by simp
  have "data ! i \<in> set data \<inter> {x. snd (priceData (js_get (fst answers) (bd_chain x)) x)}"
    using assms(3) priceData_None[OF assms(5)] p by simp
  then have "set data \<inter> {x. snd (priceData (js_get (fst answers) (bd_chain x)) x)} \<noteq> {}" by blast
  then show ?thesis
    using priceData_None[OF assms(5)] p assms(3)
    by (simp add: adjustPrices_run f answers_def[symmetric] Let_def)
qed

section \<open>A service that answers\<close>

lemma collectAssets_inv:
  "foldl (\<lambda>s bd. collectAssets bd s) (ca, es) data = (ca', es') \<Longrightarrow> js_wf ca \<Longrightarrow>
    js_wf ca' \<and> (\<forall>c as. js_get ca c = Some as \<longrightarrow> (\<exists>as'. js_get ca' c = Some as' \<and> set as \<subseteq> set as'))
    \<and> (\<forall>bd\<in>set data. \<exists>as. js_get ca' (bd_chain bd) = Some as \<and> set (fst (assetsOf (bd_items bd))) \<subseteq> set as)"
proof (induction data arbitrary: ca es)
  case (Cons bd data)
  let ?old = "case js_get ca (bd_chain bd) of Some s \<Rightarrow> s | None \<Rightarrow> []"
  let ?ca1 = "js_put ca (bd_chain bd) (foldl set_add ?old (fst (assetsOf (bd_items bd))))"
  obtain es1 where step: "collectAssets bd (ca, es) = (?ca1, es1)" by (simp add: collectAssets_def case_prod_beta Let_def)
  have ih: "js_wf ca' \<and> (\<forall>c as. js_get ?ca1 c = Some as \<longrightarrow> (\<exists>as'. js_get ca' c = Some as' \<and> set as \<subseteq> set as'))
    \<and> (\<forall>bd\<in>set data. \<exists>as. js_get ca' (bd_chain bd) = Some as \<and> set (fst (assetsOf (bd_items bd))) \<subseteq> set as)"
    using Cons.prems step by (intro Cons.IH[of _ es1]) (simp_all only: foldl_Cons, simp_all)
  have grow: "\<exists>as'. js_get ?ca1 c = Some as' \<and> set as \<subseteq> set as'" if "js_get ca c = Some as" for c as
    using that by auto
  have own: "\<exists>as. js_get ca' (bd_chain bd) = Some as \<and> set (fst (assetsOf (bd_items bd))) \<subseteq> set as"
  proof -
    have "js_get ?ca1 (bd_chain bd) = Some (foldl set_add ?old (fst (assetsOf (bd_items bd))))" by simp
    then obtain as' where "js_get ca' (bd_chain bd) = Some as'" "set (foldl set_add ?old (fst (assetsOf (bd_items bd)))) \<subseteq> set as'"
      using ih by blast
    then show ?thesis by auto
  qed
  show ?case using ih grow own by (auto dest!: grow) (meson order_trans)+
qed simp

lemma priceEntries_get:
  assumes "\<And>a. p a \<noteq> 0"
  shows "js_get (foldl (\<lambda>m (a, v). js_put m a (if truthyValue v then numberOf v else None)) m (map (\<lambda>a. (a, Val (Some (p a)))) as)) b
    = (if b \<in> set as then Some (Some (p b)) else js_get m b)"
  using assms by (induction as arbitrary: m) (auto simp: truthy_num_def)

definition answering :: "(int \<Rightarrow> string \<Rightarrow> rat) \<Rightarrow> string list \<Rightarrow> int \<Rightarrow> price_answer" where
  "answering p as d = Prices d (map (\<lambda>a. (a, Val (Some (p d a)))) as)"

lemma readAnswers_answering:
  "js_wf ca \<Longrightarrow> js_get (fst (readAnswers table (map (\<lambda>(d, as). answering p as d) ca))) d =
    (case js_get ca d of None \<Rightarrow> js_get table d | Some as \<Rightarrow> Some (priceEntries (map (\<lambda>a. (a, Val (Some (p d a)))) as)))"
proof (induction ca arbitrary: table)
  case (Cons x ca)
  obtain e bs where x: "x = (e, bs)" by (cases x)
  have wf: "js_wf ca" "js_get ca e = None" using Cons.prems by (auto simp: x js_wf_def map_of_eq_None_iff)
  show ?case using Cons.IH[OF wf(1)] wf(2) by (simp add: x answering_def split: option.split)
qed simp

text \<open>C27: When the price service gives every requested token of every chain its price, each group is priced exactly as with a
  price map that holds the prices of its own chain for all of its assets: every price that the pricing of a group looks up has
  been requested, for groups of every class.\<close>

theorem priced_by_service:
  assumes "\<And>d a. p d a \<noteq> 0" "i < length data" "\<forall>a\<in>set (fst (assetsOf (bd_items (data ! i)))). js_get m a = Some (Some (p (bd_chain (data ! i)) a))"
  shows "fst (adjustPrices (answering p) data errors) ! i = fst (priceData (Some m) (data ! i))"
proof -
  obtain ca es where f: "foldl (\<lambda>s bd. collectAssets bd s) ([], errors) data = (ca, es)" by (metis prod.exhaust)
  define table where "table = fst (readAnswers [] (map (\<lambda>(d, as). answering p as d) ca))"
  have inv: "js_wf ca" "\<forall>bd\<in>set data. \<exists>as. js_get ca (bd_chain bd) = Some as \<and> set (fst (assetsOf (bd_items bd))) \<subseteq> set as"
    using collectAssets_inv[OF f] by auto
  obtain as where as: "js_get ca (bd_chain (data ! i)) = Some as" "set (fst (assetsOf (bd_items (data ! i)))) \<subseteq> set as"
    using inv(2) assms(2) nth_mem by blast
  let ?d = "bd_chain (data ! i)"
  let ?m = "priceEntries (map (\<lambda>a. (a, Val (Some (p ?d a)))) as)"
  have table: "js_get table ?d = Some ?m" by (simp add: table_def readAnswers_answering[OF inv(1)] as(1))
  have "js_get ?m a = Some (Some (p ?d a))" if "a \<in> set as" for a
    using that by (simp add: priceEntries_def priceEntries_get[of "p ?d"] assms(1))
  then have "sameOn (fst (assetsOf (bd_items (data ! i)))) ?m m" using as(2) assms(3) by (auto simp: sameOn_def)
  then have "priceData (Some ?m) (data ! i) = priceData (Some m) (data ! i)" by (rule priceData_same)
  then show ?thesis
    using table assms(2) by (simp add: adjustPrices_run f table_def[symmetric] Let_def)
qed

section \<open>Witnesses\<close>

definition aToken :: "string \<Rightarrow> rat \<Rightarrow> priced_token" where
  "aToken a n = \<lparr> tk_address = a, tk_price = Val (Some 7), tk_balance = Val (Some n), tk_value = Null \<rparr>"

definition aGroup :: base_data where
  "aGroup = \<lparr> bd_chain = 1, bd_userAddress = ''0xw'', bd_feature = ''airdrop'', bd_total = Undef, bd_locked = Undef, bd_items = BaseDataAirdrop [aToken ''0xa'' 2, aToken ''0xb'' 3] \<rparr>"

theorem failed_prices_zero_total_witness:
  "bd_total (fst (adjustPrices (\<lambda>as d. Failed ''503'') [aGroup] []) ! 0) = Val (Some 0)
    \<and> ''Failed calculating price'' \<in> set (snd (adjustPrices (\<lambda>as d. Failed ''503'') [aGroup] []))"
  by (rule failed_prices_zero_total[where c = 1 and reason = "''503''"]) (simp_all add: aGroup_def tokenAddresses_def)

definition aPricing :: "int \<Rightarrow> string \<Rightarrow> rat" where
  "aPricing d a = (if a = ''0xa'' then 5 else 11)"

theorem priced_by_service_witness:
  "fst (adjustPrices (answering aPricing) [aGroup] []) ! 0 = fst (priceData (Some [(''0xa'', Some 5), (''0xb'', Some 11)]) aGroup)
    \<and> bd_total (fst (priceData (Some [(''0xa'', Some 5), (''0xb'', Some 11)]) aGroup)) = Val (Some 43)"
  using priced_by_service[of aPricing 0 "[aGroup]" "[(''0xa'', Some 5), (''0xb'', Some 11)]" "[]"]
  by (simp add: aPricing_def aGroup_def aToken_def tokenAddresses_def priceData_def withTotal_def tokenStep_def setTokenPriceAndValue_def
      repriced_def priceOf_def Let_def)

theorem group_total_witness:
  "\<exists>bd'. priceData (Some [(''0xa'', Some 5)]) aGroup = (bd', False) \<and> groupWorth (bd_items bd') = 31"
proof -
  let ?m = "[(''0xa'', Some 5)] :: price_map"
  have t: "bd_total (fst (priceData (Some ?m) aGroup)) = Val (Some 31)" "priceData (Some ?m) aGroup = (fst (priceData (Some ?m) aGroup), False)"
    by (simp_all add: aGroup_def aToken_def priceData_def withTotal_def tokenStep_def setTokenPriceAndValue_def repriced_def priceOf_def Let_def)
  have "31 = groupWorth (bd_items (fst (priceData (Some ?m) aGroup)))"
    by (rule group_total[OF t(2,1)]) (simp add: aGroup_def)
  with t(2) show ?thesis by metis
qed

end
