(* ===== verification/IntegrationsV2.thy ===== *)
theory IntegrationsV2
  imports BasePrices Addresses Cache
begin

text \<open>
  The answers of the second version of the interface: \<open>apps/integration/src/modules/integrations/integrations.service.ts\<close>,
  \<open>features.service.ts\<close>, and the choice of a protocol in \<open>protocol.service.ts\<close>.  An adapter is a record with
  its data and the function that reads the positions of some addresses on a chain, which may reject.  The wallets of an
  answer are changed in place while the positions are sorted into them.
\<close>

section \<open>Protocols and features\<close>

record adapter =
  ad_name :: string
  ad_project :: string
  ad_chains :: "string list"
  ad_features :: "(string, string list) js_map"
  ad_getAllFeaturesBaseData :: "(string list \<Rightarrow> int \<Rightarrow> string + base_data list \<times> string list) option"

definition getProtocolByName :: "'a adapter_scheme list \<Rightarrow> string \<Rightarrow> 'a adapter_scheme option" where
  "getProtocolByName protocols protocolName = find (\<lambda>p. ad_name p = protocolName) protocols"

text \<open>The positions of a chain with their prices.  An absent protocol or reader is a rejected promise.\<close>

definition getProtocolFeaturesV2 ::
  "adapter list \<Rightarrow> (string list \<Rightarrow> int \<Rightarrow> price_answer) \<Rightarrow> string \<Rightarrow> string list \<Rightarrow> int \<Rightarrow> string + base_data list \<times> string list" where
  "getProtocolFeaturesV2 protocols getTokenPricesFetch protocolName addresses chain =
     (case getProtocolByName protocols protocolName of
        None \<Rightarrow> Inl ''TypeError''
      | Some protocol \<Rightarrow> (case ad_getAllFeaturesBaseData protocol of
          None \<Rightarrow> Inl ''TypeError''
        | Some getAllFeaturesBaseData \<Rightarrow> sum_bind (getAllFeaturesBaseData addresses chain) (\<lambda>(data, errors).
            Inr (adjustPrices getTokenPricesFetch data errors))))"

record features_export =
  fe_chain :: chain_dto
  fe_list :: "string list"

record protocol_export =
  pe_name :: string
  pe_project :: string
  pe_version :: string
  pe_features :: "features_export list"

definition createFeature :: "string \<Rightarrow> string list \<Rightarrow> features_export" where
  "createFeature abbr features = \<lparr> fe_chain = getChainByAbbr (\<lambda>d. d) abbr, fe_list = features \<rparr>"

definition getAllFeatures :: "adapter list \<Rightarrow> protocol_export list" where
  "getAllFeatures protocols = map (\<lambda>info. \<lparr> pe_name = ad_name info, pe_project = ad_project info, pe_version = ''v2'',
     pe_features = map (\<lambda>(chainAbbr, features). createFeature chainAbbr features) (ad_features info) \<rparr>) protocols"

text \<open>The active features are the cached items of each feature of each chain; absent ones are left out.\<close>

definition chainIdText :: "chain_dto \<Rightarrow> string" where
  "chainIdText c = (case chain_id c of Some (EnumNum i) \<Rightarrow> show_int i | Some (EnumName s) \<Rightarrow> s | None \<Rightarrow> ''undefined'')"

definition activeFeature ::
  "('s, 'v, 'o) cache_manager \<Rightarrow> 's \<Rightarrow> string \<Rightarrow> features_export \<Rightarrow> (string \<times> 'v) list" where
  "activeFeature C s name feature = concat (map (\<lambda>ft.
     case cm_get C (chainIdText (fe_chain feature) @ ''_'' @ name @ ''_'' @ ft) s of
       Val cachedData \<Rightarrow> [(ft, cachedData)] | _ \<Rightarrow> []) (fe_list feature))"

definition getActiveFeatures ::
  "('s, 'v, 'o) cache_manager \<Rightarrow> adapter list \<Rightarrow> 's \<Rightarrow> (protocol_export \<times> (string \<times> 'v) list list) list" where
  "getActiveFeatures C protocols s =
     map (\<lambda>p. (p, map (activeFeature C s (pe_name p)) (pe_features p))) (getAllFeatures protocols)"

section \<open>Wallets\<close>

record position_section =
  ps_totalValue :: js_num
  ps_items :: base_items
  ps_lockedValue :: "js_num option"

record chain_data =
  cd_chain :: int
  cd_total :: rat
  cd_features :: "string list option"
  cd_sections :: "(string, position_section) js_map"

record wallet_data =
  wd_address :: string
  wd_chains :: "chain_data list"

record v2_data =
  vd_errors :: "string list"
  vd_wallets :: "wallet_data list"
  vd_total :: rat

text \<open>The map from addresses to wallets holds the last wallet of an address.\<close>

fun updateWallet :: "string \<Rightarrow> (wallet_data \<Rightarrow> wallet_data) \<Rightarrow> wallet_data list \<Rightarrow> wallet_data list option" where
  "updateWallet a f [] = None"
| "updateWallet a f (w # ws) = (case updateWallet a f ws of
     Some ws' \<Rightarrow> Some (w # ws') | None \<Rightarrow> if wd_address w = a then Some (f w # ws) else None)"

fun findWallet :: "string \<Rightarrow> wallet_data list \<Rightarrow> wallet_data option" where
  "findWallet a [] = None"
| "findWallet a (w # ws) = (case findWallet a ws of Some v \<Rightarrow> Some v | None \<Rightarrow> if wd_address w = a then Some w else None)"

text \<open>The entry of a chain is the first with its number; without one it is appended.\<close>

fun updateChain :: "int \<Rightarrow> chain_data \<Rightarrow> (chain_data \<Rightarrow> chain_data) \<Rightarrow> chain_data list \<Rightarrow> chain_data list" where
  "updateChain c new f [] = [f new]"
| "updateChain c new f (d # ds) = (if cd_chain d = c then f d # ds else d # updateChain c new f ds)"

definition signedTotal :: "base_data \<Rightarrow> rat" where
  "signedTotal bd = (if truthyValue (bd_total bd)
     then (if bd_feature bd = ''borrowing'' then - valueOf (numberOf (bd_total bd)) else valueOf (numberOf (bd_total bd))) else 0)"

definition sectionOf :: "base_data \<Rightarrow> position_section" where
  "sectionOf bd = \<lparr> ps_totalValue = bd_total bd, ps_items = bd_items bd,
     ps_lockedValue = (if truthyValue (bd_locked bd) then Some (bd_locked bd) else None) \<rparr>"

definition newChain :: "adapter \<Rightarrow> int \<Rightarrow> chain_data" where
  "newChain protocol chain = \<lparr> cd_chain = chain, cd_total = 0,
     cd_features = (case chainAbbrOfId chain of Some abbr \<Rightarrow> js_get (ad_features protocol) abbr | None \<Rightarrow> None), cd_sections = [] \<rparr>"

text \<open>A group of positions adds its total and replaces the section of its feature.  A group of an unknown address throws.\<close>

definition placeData :: "adapter \<Rightarrow> int \<Rightarrow> wallet_data list \<times> rat \<Rightarrow> base_data \<Rightarrow> string + wallet_data list \<times> rat" where
  "placeData protocol chain = (\<lambda>(wallets, total0) bd.
     (case updateWallet (bd_userAddress bd) (\<lambda>w. w\<lparr> wd_chains := updateChain chain (newChain protocol chain) (\<lambda>d.
          d\<lparr> cd_total := cd_total d + signedTotal bd, cd_sections := js_put (cd_sections d) (bd_feature bd) (sectionOf bd) \<rparr>) (wd_chains w) \<rparr>) wallets of
        None \<Rightarrow> Inl ''TypeError''
      | Some ws \<Rightarrow> Inr (ws, total0 + signedTotal bd)))"

text \<open>Afterwards the features are compared with the declared ones, which only logs, but throws when none are declared.\<close>

definition validateChainFeatures :: "adapter \<Rightarrow> int \<Rightarrow> base_data list \<Rightarrow> string + unit" where
  "validateChainFeatures protocol chain data =
     (if data \<noteq> [] \<and> cd_features (newChain protocol chain) = None then Inl ''TypeError'' else Inr ())"

definition placeChain ::
  "adapter \<Rightarrow> wallet_data list \<times> rat \<times> string list \<Rightarrow> int \<times> (string + base_data list \<times> string list) \<Rightarrow> string + wallet_data list \<times> rat \<times> string list" where
  "placeChain protocol = (\<lambda>(wallets, total0, errors) (chain, answer). (case answer of
     Inl reason \<Rightarrow> Inr (wallets, total0, errors)
   | Inr (data, errs) \<Rightarrow>
       sum_bind (sum_foldl (placeData protocol chain) (wallets, total0) data) (\<lambda>(wallets1, total1).
       sum_bind (validateChainFeatures protocol chain data) (\<lambda>_. Inr (wallets1, total1, errors @ errs)))))"

section \<open>The answer\<close>

definition chainError :: "string \<Rightarrow> int \<Rightarrow> string" where
  "chainError protocolName chainId =
     ''Not found protocol '' @ quoted protocolName @ '' on '' @ show_int chainId @ '' ('' @
       (case chainAbbrOfId chainId of Some abbr \<Rightarrow> abbr | None \<Rightarrow> ''undefined'') @ '') chain''"

definition supports :: "'a adapter_scheme \<Rightarrow> int \<Rightarrow> bool" where
  "supports protocol chainId = (case chainAbbrOfId chainId of Some abbr \<Rightarrow> abbr \<in> set (ad_chains protocol) | None \<Rightarrow> False)"

definition protocolFeaturesDataV2 ::
  "address_lib \<Rightarrow> adapter list \<Rightarrow> (string list \<Rightarrow> int \<Rightarrow> price_answer) \<Rightarrow> string \<Rightarrow> int list \<Rightarrow> string list \<Rightarrow> string + v2_data" where
  "protocolFeaturesDataV2 L protocols getTokenPricesFetch protocolName chainIds addressList =
     (case getProtocolByName protocols protocolName of
        None \<Rightarrow> Inr \<lparr> vd_errors = [''Not found protocol '' @ quoted protocolName], vd_wallets = [], vd_total = 0 \<rparr>
      | Some protocol \<Rightarrow>
          (let errors0 = map (chainError protocolName) (filter (\<lambda>c. \<not> supports protocol c) chainIds);
               chainsToProceed = js_set (filter (supports protocol) chainIds);
               wallets = map (\<lambda>a. \<lparr> wd_address = a, wd_chains = [] \<rparr>) addressList;
               allData = map (\<lambda>c. (c, getProtocolFeaturesV2 protocols getTokenPricesFetch protocolName
                 (keepAddressesByChainId L (AddressArray addressList) c) c)) chainsToProceed
           in sum_bind (sum_foldl (placeChain protocol) (wallets, 0, errors0) allData) (\<lambda>(wallets1, total1, errors1).
                Inr \<lparr> vd_errors = errors1, vd_wallets = wallets1, vd_total = total1 \<rparr>)))"

section \<open>Totals\<close>

definition chainTotals :: "wallet_data list \<Rightarrow> rat" where
  "chainTotals ws = sum_list (map (\<lambda>w. sum_list (map cd_total (wd_chains w))) ws)"

lemma updateChain_total:
  "cd_total new = 0 \<Longrightarrow> (\<And>d. cd_total (f d) = cd_total d + v) \<Longrightarrow>
    sum_list (map cd_total (updateChain c new f ds)) = sum_list (map cd_total ds) + v"
  by (induction ds) simp_all

lemma updateWallet_total:
  "(\<And>w. sum_list (map cd_total (wd_chains (f w))) = sum_list (map cd_total (wd_chains w)) + v) \<Longrightarrow>
    updateWallet a f ws = Some ws' \<Longrightarrow> chainTotals ws' = chainTotals ws + v"
  by (induction ws arbitrary: ws') (auto simp: chainTotals_def split: option.splits if_splits)

lemma placeData_total:
  assumes "placeData protocol chain (ws, t) bd = Inr (ws', t')"
  shows "chainTotals ws' = chainTotals ws + signedTotal bd \<and> t' = t + signedTotal bd"
proof -
  obtain u where u: "updateWallet (bd_userAddress bd) (\<lambda>w. w\<lparr> wd_chains := updateChain chain (newChain protocol chain) (\<lambda>d.
          d\<lparr> cd_total := cd_total d + signedTotal bd, cd_sections := js_put (cd_sections d) (bd_feature bd) (sectionOf bd) \<rparr>) (wd_chains w) \<rparr>) ws = Some u"
    "ws' = u" "t' = t + signedTotal bd"
    using assms by (auto simp: placeData_def split: option.splits)
  have "chainTotals u = chainTotals ws + signedTotal bd"
    by (rule updateWallet_total[OF _ u(1)]) (simp add: updateChain_total newChain_def)
  with u show ?thesis by simp
qed

lemma placeAll_total:
  "sum_foldl (placeData protocol chain) (ws, t) data = Inr (ws', t') \<Longrightarrow>
    chainTotals ws' = chainTotals ws + sum_list (map signedTotal data) \<and> t' = t + sum_list (map signedTotal data)"
proof (induction data arbitrary: ws t)
  case (Cons bd data)
  then obtain ws1 t1 where 1: "placeData protocol chain (ws, t) bd = Inr (ws1, t1)"
      "sum_foldl (placeData protocol chain) (ws1, t1) data = Inr (ws', t')"
    by (auto simp: sum_bind_Inr_iff)
  show ?case using placeData_total[OF 1(1)] Cons.IH[OF 1(2)] by simp
qed simp

definition answered :: "int \<times> (string + base_data list \<times> string list) \<Rightarrow> base_data list" where
  "answered = (\<lambda>(c, answer). case answer of Inl _ \<Rightarrow> [] | Inr (data, _) \<Rightarrow> data)"

lemma placeChain_total:
  assumes "placeChain protocol (ws, t, es) a = Inr (ws', t', es')"
  shows "chainTotals ws' = chainTotals ws + sum_list (map signedTotal (answered a)) \<and> t' = t + sum_list (map signedTotal (answered a))"
  using assms placeAll_total by (auto simp: placeChain_def answered_def sum_bind_Inr_iff split: sum.splits prod.splits)

lemma placeChains_total:
  "sum_foldl (placeChain protocol) (ws, t, es) as = Inr (ws', t', es') \<Longrightarrow>
    chainTotals ws' = chainTotals ws + sum_list (map signedTotal (concat (map answered as)))
    \<and> t' = t + sum_list (map signedTotal (concat (map answered as)))"
proof (induction as arbitrary: ws t es)
  case (Cons a as)
  then obtain ws1 t1 es1 where 1: "placeChain protocol (ws, t, es) a = Inr (ws1, t1, es1)"
      "sum_foldl (placeChain protocol) (ws1, t1, es1) as = Inr (ws', t', es')"
    by (auto simp: sum_bind_Inr_iff)
  show ?case using placeChain_total[OF 1(1)] Cons.IH[OF 1(2)] by simp
qed simp

text \<open>The total of an answer is the sum of the totals of all chains of all wallets, and it is the sum of the totals of the groups
  that the supported chains report, borrowed groups counted negatively and each chain once however often it is asked for.\<close>

theorem v2_service_total:
  assumes "protocolFeaturesDataV2 L protocols fetch name chainIds as = Inr r"
  shows "vd_total r = chainTotals (vd_wallets r) \<and>
    (\<forall>protocol. getProtocolByName protocols name = Some protocol \<longrightarrow> vd_total r = sum_list (map signedTotal (concat (map (\<lambda>c.
       answered (c, getProtocolFeaturesV2 protocols fetch name (keepAddressesByChainId L (AddressArray as) c) c))
       (js_set (filter (supports protocol) chainIds))))))"
proof (cases "getProtocolByName protocols name")
  case None
  then show ?thesis using assms by (simp add: protocolFeaturesDataV2_def chainTotals_def flip: split_paired_Ex) (auto simp: chainTotals_def)
next
  case (Some protocol)
  let ?ws = "map (\<lambda>a. \<lparr> wd_address = a, wd_chains = [] \<rparr>) as"
  let ?all = "map (\<lambda>c. (c, getProtocolFeaturesV2 protocols fetch name (keepAddressesByChainId L (AddressArray as) c) c))
    (js_set (filter (supports protocol) chainIds))"
  obtain ws' t' es' where run: "sum_foldl (placeChain protocol) (?ws, 0, map (chainError name) (filter (\<lambda>c. \<not> supports protocol c) chainIds)) ?all
      = Inr (ws', t', es')" and r: "r = \<lparr> vd_errors = es', vd_wallets = ws', vd_total = t' \<rparr>"
    using assms Some by (auto simp: protocolFeaturesDataV2_def Let_def sum_bind_Inr_iff)
  have "chainTotals ?ws = 0" by (induction as) (simp_all add: chainTotals_def)
  then show ?thesis using placeChains_total[OF run] Some by (simp add: r o_def)
qed

section \<open>Sections\<close>

definition entryOf :: "wallet_data list \<Rightarrow> string \<Rightarrow> int \<Rightarrow> chain_data option" where
  "entryOf ws a c = (case findWallet a ws of Some w \<Rightarrow> find (\<lambda>d. cd_chain d = c) (wd_chains w) | None \<Rightarrow> None)"

lemma findWallet_update:
  "(\<And>w. wd_address (f w) = wd_address w) \<Longrightarrow> updateWallet a f ws = Some ws' \<Longrightarrow>
    findWallet b ws' = (if b = a then map_option f (findWallet a ws) else findWallet b ws) \<and> findWallet a ws \<noteq> None"
proof (induction ws arbitrary: ws')
  case (Cons w ws)
  have none: "updateWallet a f ws = None \<longleftrightarrow> findWallet a ws = None" for ws
    by (induction ws) (auto split: option.splits)
  show ?case
  proof (cases "updateWallet a f ws")
    case None
    then show ?thesis using Cons.prems none[of ws] by (auto split: if_splits option.splits)
  next
    case (Some us)
    then show ?thesis using Cons.prems Cons.IH[OF Cons.prems(1) Some] none[of ws] by (auto split: if_splits option.splits)
  qed
qed simp

lemma find_updateChain:
  "cd_chain new = c \<Longrightarrow> (\<And>d. cd_chain (f d) = cd_chain d) \<Longrightarrow> find (\<lambda>d. cd_chain d = c') (updateChain c new f ds) =
    (if c' = c then Some (f (case find (\<lambda>d. cd_chain d = c) ds of Some d \<Rightarrow> d | None \<Rightarrow> new)) else find (\<lambda>d. cd_chain d = c') ds)"
  by (induction ds) auto

definition withGroup :: "base_data \<Rightarrow> chain_data \<Rightarrow> chain_data" where
  "withGroup bd d = d\<lparr> cd_total := cd_total d + signedTotal bd, cd_sections := js_put (cd_sections d) (bd_feature bd) (sectionOf bd) \<rparr>"

lemma placeData_entry:
  assumes "placeData protocol chain (ws, t) bd = Inr (ws', t')"
  shows "entryOf ws' a c = (if a = bd_userAddress bd \<and> c = chain
    then Some (withGroup bd (case entryOf ws a c of Some d \<Rightarrow> d | None \<Rightarrow> newChain protocol chain)) else entryOf ws a c)"
proof -
  have u: "updateWallet (bd_userAddress bd) (\<lambda>w. w\<lparr> wd_chains := updateChain chain (newChain protocol chain) (withGroup bd) (wd_chains w) \<rparr>) ws
      = Some ws'"
    using assms unfolding withGroup_def by (auto simp: placeData_def split: option.splits)
  have f: "findWallet a ws' = (if a = bd_userAddress bd then map_option (\<lambda>w. w\<lparr> wd_chains :=
      updateChain chain (newChain protocol chain) (withGroup bd) (wd_chains w) \<rparr>) (findWallet (bd_userAddress bd) ws) else findWallet a ws)"
    "findWallet (bd_userAddress bd) ws \<noteq> None"
    using findWallet_update[OF _ u] by auto
  show ?thesis
    using f by (auto simp: entryOf_def find_updateChain newChain_def withGroup_def split: option.splits)
qed

lemma placeAll_entry:
  "sum_foldl (placeData protocol chain) (ws, t) data = Inr (ws', t') \<Longrightarrow> entryOf ws' a c =
    (if c = chain then fold (\<lambda>bd e. Some (withGroup bd (case e of Some d \<Rightarrow> d | None \<Rightarrow> newChain protocol chain)))
       (filter (\<lambda>bd. bd_userAddress bd = a) data) (entryOf ws a c) else entryOf ws a c)"
proof (induction data arbitrary: ws t)
  case (Cons bd data)
  then obtain ws1 t1 where 1: "placeData protocol chain (ws, t) bd = Inr (ws1, t1)"
      "sum_foldl (placeData protocol chain) (ws1, t1) data = Inr (ws', t')"
    by (auto simp: sum_bind_Inr_iff)
  show ?case using placeData_entry[OF 1(1), of a c] Cons.IH[OF 1(2)] by auto
qed simp

lemma fold_withGroup:
  "fold (\<lambda>bd e. Some (withGroup bd (case e of Some d \<Rightarrow> d | None \<Rightarrow> new))) bds (Some d) = Some (fold withGroup bds d)"
  by (induction bds arbitrary: d) simp_all

lemma fold_withGroup_None:
  "fold (\<lambda>bd e. Some (withGroup bd (case e of Some d \<Rightarrow> d | None \<Rightarrow> new))) bds None
    = (if bds = [] then None else Some (fold withGroup bds new))"
  by (cases bds) (simp_all add: fold_withGroup)

lemma fold_withGroup_fields:
  "cd_total (fold withGroup bds d) = cd_total d + sum_list (map signedTotal bds)"
  "js_get (cd_sections (fold withGroup bds d)) f =
    (case find (\<lambda>bd. bd_feature bd = f) (rev bds) of Some bd \<Rightarrow> Some (sectionOf bd) | None \<Rightarrow> js_get (cd_sections d) f)"
proof (induction bds arbitrary: d)
  case (Cons bd bds)
  have find_snoc: "find P (xs @ [x]) = (case find P xs of Some y \<Rightarrow> Some y | None \<Rightarrow> if P x then Some x else None)"
    for P :: "base_data \<Rightarrow> bool" and xs x by (induction xs) auto
  {
    case 1
    show ?case using Cons.IH(1)[of "withGroup bd d"] by (simp add: withGroup_def)
  next
    case 2
    show ?case using Cons.IH(2)[of "withGroup bd d"] by (auto simp: withGroup_def find_snoc split: option.splits)
  }
qed simp_all

lemma placeChain_entry:
  assumes "placeChain protocol (ws, t, es) (chain, answer) = Inr (ws', t', es')"
  shows "entryOf ws' a c = (if c = chain then fold (\<lambda>bd e. Some (withGroup bd (case e of Some d \<Rightarrow> d | None \<Rightarrow> newChain protocol chain)))
       (filter (\<lambda>bd. bd_userAddress bd = a) (answered (chain, answer))) (entryOf ws a c) else entryOf ws a c)"
proof (cases answer)
  case (Inr b)
  obtain data errs where b: "b = (data, errs)" by (cases b)
  have "sum_foldl (placeData protocol chain) (ws, t) data = Inr (ws', t')"
    using assms by (auto simp: placeChain_def Inr b sum_bind_Inr_iff)
  from placeAll_entry[OF this] show ?thesis by (simp add: answered_def Inr b)
qed (use assms in \<open>simp add: placeChain_def answered_def\<close>)

lemma placeChains_entry:
  "sum_foldl (placeChain protocol) (ws, t, es) as = Inr (ws', t', es') \<Longrightarrow> distinct (map fst as) \<Longrightarrow> entryOf ws' a c =
    (case map_of as c of None \<Rightarrow> entryOf ws a c
     | Some answer \<Rightarrow> fold (\<lambda>bd e. Some (withGroup bd (case e of Some d \<Rightarrow> d | None \<Rightarrow> newChain protocol c)))
         (filter (\<lambda>bd. bd_userAddress bd = a) (answered (c, answer))) (entryOf ws a c))"
proof (induction as arbitrary: ws t es)
  case (Cons x as)
  obtain chain answer where x: "x = (chain, answer)" by (cases x)
  obtain ws1 t1 es1 where 1: "placeChain protocol (ws, t, es) (chain, answer) = Inr (ws1, t1, es1)"
      "sum_foldl (placeChain protocol) (ws1, t1, es1) as = Inr (ws', t', es')"
    using Cons.prems(1) by (auto simp: x sum_bind_Inr_iff)
  have "chain \<notin> set (map fst as)" using Cons.prems(2) by (simp add: x)
  then have none: "map_of as chain = None" by (simp add: map_of_eq_None_iff)
  show ?case
  proof (cases "c = chain")
    case True
    show ?thesis
      unfolding True using placeChain_entry[OF 1(1), of a chain] Cons.IH[OF 1(2)] Cons.prems(2) none unfolding True by (simp add: x)
  next
    case False
    then show ?thesis using placeChain_entry[OF 1(1), of a c] Cons.IH[OF 1(2)] Cons.prems(2) by (simp add: x cong: option.case_cong)
  qed
qed simp

text \<open>In an answer, the entry of a supported chain for an address exists when the chain reported a group for that address; its
  total is the sum of the totals of all these groups, while the section of each feature is that of the last group of the feature:
  of two groups of one feature both count, but only one is shown.\<close>

theorem v2_service_sections:
  assumes "protocolFeaturesDataV2 L protocols fetch name chainIds as = Inr r" "getProtocolByName protocols name = Some protocol"
    and "c \<in> set chainIds" "supports protocol c"
    and "groups = filter (\<lambda>bd. bd_userAddress bd = a)
      (answered (c, getProtocolFeaturesV2 protocols fetch name (keepAddressesByChainId L (AddressArray as) c) c))"
  shows "if groups = [] then entryOf (vd_wallets r) a c = None
    else \<exists>d. entryOf (vd_wallets r) a c = Some d \<and> cd_total d = sum_list (map signedTotal groups) \<and>
      (\<forall>f. js_get (cd_sections d) f = map_option sectionOf (find (\<lambda>bd. bd_feature bd = f) (rev groups)))"
proof -
  let ?ws = "map (\<lambda>a. \<lparr> wd_address = a, wd_chains = [] \<rparr>) as"
  let ?ask = "\<lambda>c. getProtocolFeaturesV2 protocols fetch name (keepAddressesByChainId L (AddressArray as) c) c"
  let ?cs = "js_set (filter (supports protocol) chainIds)"
  obtain ws' t' es' where run: "sum_foldl (placeChain protocol) (?ws, 0, map (chainError name) (filter (\<lambda>c. \<not> supports protocol c) chainIds))
      (map (\<lambda>c. (c, ?ask c)) ?cs) = Inr (ws', t', es')" and r: "r = \<lparr> vd_errors = es', vd_wallets = ws', vd_total = t' \<rparr>"
    using assms(1,2) by (auto simp: protocolFeaturesDataV2_def Let_def sum_bind_Inr_iff)
  have dist: "distinct (map fst (map (\<lambda>c. (c, ?ask c)) ?cs))" by (simp add: o_def)
  have get: "map_of (map (\<lambda>c. (c, ?ask c)) ?cs) c = Some (?ask c)"
    using assms(3,4) by (simp add: map_of_map_restrict restrict_map_def)
  have mem: "w \<in> set ws" if "findWallet a ws = Some w" for ws w
    using that by (induction ws) (auto split: option.splits if_splits)
  have start: "entryOf ?ws a c = None" by (auto simp: entryOf_def dest!: mem split: option.split)
  have "entryOf (vd_wallets r) a c = (if groups = [] then None else Some (fold withGroup groups (newChain protocol c)))"
    using placeChains_entry[OF run dist, of a c] get start by (simp add: r fold_withGroup_None assms(5))
  then show ?thesis
    using fold_withGroup_fields[of groups "newChain protocol c"] by (simp add: newChain_def option.map_sel split: option.split)
qed

section \<open>Errors\<close>

definition answeredErrors :: "int \<times> (string + base_data list \<times> string list) \<Rightarrow> string list" where
  "answeredErrors = (\<lambda>(c, answer). case answer of Inl _ \<Rightarrow> [] | Inr (_, errs) \<Rightarrow> errs)"

lemma placeChains_errors:
  "sum_foldl (placeChain protocol) (ws, t, es) as = Inr (ws', t', es') \<Longrightarrow> es' = es @ concat (map answeredErrors as)"
proof (induction as arbitrary: ws t es)
  case (Cons x as)
  then obtain ws1 t1 es1 where 1: "placeChain protocol (ws, t, es) x = Inr (ws1, t1, es1)"
      "sum_foldl (placeChain protocol) (ws1, t1, es1) as = Inr (ws', t', es')"
    by (auto simp: sum_bind_Inr_iff)
  have "es1 = es @ answeredErrors x"
    using 1(1) by (auto simp: placeChain_def answeredErrors_def sum_bind_Inr_iff split: sum.splits prod.splits)
  then show ?case using Cons.IH[OF 1(2)] by simp
qed simp

text \<open>The errors of an answer are those for unsupported chains and those that the readers of the supported chains report; a chain
  whose reader rejects leaves no error and no entry, so that its answer cannot be told from that of a chain without positions.\<close>

theorem v2_service_errors:
  assumes "protocolFeaturesDataV2 L protocols fetch name chainIds as = Inr r" "getProtocolByName protocols name = Some protocol"
  shows "vd_errors r = map (chainError name) (filter (\<lambda>c. \<not> supports protocol c) chainIds) @ concat (map (\<lambda>c.
      case getProtocolFeaturesV2 protocols fetch name (keepAddressesByChainId L (AddressArray as) c) c of
        Inl reason \<Rightarrow> [] | Inr (data, errors) \<Rightarrow> errors) (js_set (filter (supports protocol) chainIds)))"
proof -
  let ?ask = "\<lambda>c. getProtocolFeaturesV2 protocols fetch name (keepAddressesByChainId L (AddressArray as) c) c"
  obtain ws' t' es' where run: "sum_foldl (placeChain protocol) (map (\<lambda>a. \<lparr> wd_address = a, wd_chains = [] \<rparr>) as, 0,
      map (chainError name) (filter (\<lambda>c. \<not> supports protocol c) chainIds))
      (map (\<lambda>c. (c, ?ask c)) (js_set (filter (supports protocol) chainIds))) = Inr (ws', t', es')" and r: "vd_errors r = es'"
    using assms by (auto simp: protocolFeaturesDataV2_def Let_def sum_bind_Inr_iff)
  show ?thesis using placeChains_errors[OF run] by (simp add: r o_def answeredErrors_def)
qed

section \<open>Witnesses\<close>

definition aStake :: "rat \<Rightarrow> base_data" where
  "aStake n = \<lparr> bd_chain = 1, bd_userAddress = ''0xw'', bd_feature = ''staking'', bd_total = Val (Some n), bd_locked = Undef, bd_items = OtherData \<rparr>"

definition anAdapter :: adapter where
  "anAdapter = \<lparr> ad_name = ''P'', ad_project = ''P'', ad_chains = [''eth'', ''bnb''], ad_features = [(''eth'', [''staking'']), (''bnb'', [''staking''])],
     ad_getAllFeaturesBaseData = Some (\<lambda>as c. if c = 1 then Inr ([aStake 5, aStake 7], []) else Inl ''timeout'') \<rparr>"

lemma anAdapter_supports [simp]: "supports anAdapter 1" "supports anAdapter 2" "\<not> supports anAdapter 99"
  by (simp_all add: supports_def anAdapter_def chainAbbrOfId_def all_chains_def)

lemma anAdapter_named [simp]: "getProtocolByName [anAdapter] ''P'' = Some anAdapter"
  by (simp add: getProtocolByName_def anAdapter_def)

lemma anAdapter_eth [simp]: "getProtocolFeaturesV2 [anAdapter] fetch ''P'' as 1 =
    Inr ([aStake 5, aStake 7], if fetch [] 1 = Malformed then [''Failed getting token prices in protocol.service''] else [])"
  by (cases "fetch [] 1")
    (simp_all add: getProtocolFeaturesV2_def anAdapter_def adjustPrices_def collectAssets_def aStake_def priceData_def getProtocolByName_def)

lemma anAdapter_bnb [simp]: "getProtocolFeaturesV2 [anAdapter] fetch ''P'' as 2 = Inl ''timeout''"
  by (simp add: getProtocolFeaturesV2_def) (simp add: anAdapter_def)

lemma anAdapter_valid [simp]: "validateChainFeatures anAdapter 1 data = Inr ()"
  by (simp add: validateChainFeatures_def newChain_def anAdapter_def chainAbbrOfId_def all_chains_def)

definition noPrices :: "string list \<Rightarrow> int \<Rightarrow> price_answer" where
  "noPrices as c = Failed ''503''"

lemma anAnswerV2: "\<exists>r. protocolFeaturesDataV2 plain_lib [anAdapter] noPrices ''P'' [1, 99, 2, 1] [''0xw''] = Inr r"
  by (simp add: protocolFeaturesDataV2_def js_set_def set_add_def noPrices_def placeChain_def placeData_def) (simp add: aStake_def)

theorem v2_service_total_witness:
  "\<exists>r. protocolFeaturesDataV2 plain_lib [anAdapter] noPrices ''P'' [1, 99, 2, 1] [''0xw''] = Inr r \<and> vd_total r = chainTotals (vd_wallets r)"
  using anAnswerV2 v2_service_total[of plain_lib "[anAdapter]" noPrices "''P''" "[1, 99, 2, 1]" "[''0xw'']"] by blast

theorem v2_service_sections_witness:
  "\<exists>r d. protocolFeaturesDataV2 plain_lib [anAdapter] noPrices ''P'' [1, 99, 2, 1] [''0xw''] = Inr r \<and>
    entryOf (vd_wallets r) ''0xw'' 1 = Some d \<and> cd_total d = 12 \<and> js_get (cd_sections d) ''staking'' = Some (sectionOf (aStake 7))"
proof -
  obtain r where r: "protocolFeaturesDataV2 plain_lib [anAdapter] noPrices ''P'' [1, 99, 2, 1] [''0xw''] = Inr r" using anAnswerV2 by blast
  have user: "bd_userAddress (aStake n) = ''0xw''" "bd_feature (aStake n) = ''staking''" "signedTotal (aStake n) = n" for n
    by (simp_all add: aStake_def signedTotal_def truthy_num_def valueOf_def)
  have g: "[aStake 5, aStake 7] = filter (\<lambda>bd. bd_userAddress bd = ''0xw'')
      (answered (1, getProtocolFeaturesV2 [anAdapter] noPrices ''P'' (keepAddressesByChainId plain_lib (AddressArray [''0xw'']) 1) 1))"
    by (simp add: answered_def user)
  show ?thesis using v2_service_sections[OF r anAdapter_named _ _ g] r by (auto simp: user)
qed

theorem v2_service_errors_witness:
  "\<exists>r. protocolFeaturesDataV2 plain_lib [anAdapter] noPrices ''P'' [1, 99, 2, 1] [''0xw''] = Inr r \<and> vd_errors r = [chainError ''P'' 99]"
proof -
  obtain r where r: "protocolFeaturesDataV2 plain_lib [anAdapter] noPrices ''P'' [1, 99, 2, 1] [''0xw''] = Inr r" using anAnswerV2 by blast
  show ?thesis using v2_service_errors[OF r anAdapter_named] r by (simp add: js_set_def set_add_def noPrices_def)
qed

end
