(* ===== verification/Scheduler.thy ===== *)
theory Scheduler
  imports Prelude
begin

text \<open>
  The scheduler: \<open>apps/scheduler/src/modules/tasks/task.service.ts\<close> and \<open>modules/cron/cron.service.ts\<close>.  Tasks are rows
  of a table, reached through the repository of the package \<open>typeorm\<close>; running jobs are kept under their names in the
  registry of the package \<open>@nestjs/schedule\<close>.  Both are records of functions on their own states, and the locales below
  state what they document.  A job is the task it was started with.  An operation returns its result, on the left an
  error, and the states it leaves; an update waits for the database twice, so it is cut into three phases that
  other requests may come between.
\<close>

section \<open>Tasks and the packages\<close>

record task =
  tk_id :: int
  tk_cron :: string
  tk_endpoint :: string
  tk_method :: string
  tk_isActive :: bool

record task_create =
  tc_endpoint :: string
  tc_cron :: string
  tc_method :: "string option"
  tc_isActive :: "bool option"

record task_update =
  tu_endpoint :: "string option"
  tu_cron :: "string option"
  tu_method :: "string option"
  tu_isActive :: "bool option"

text \<open>The columns with a default take it when the body leaves them out.\<close>

definition orElse :: "'a option \<Rightarrow> 'a \<Rightarrow> 'a" where
  "orElse x d = (case x of Some v \<Rightarrow> v | None \<Rightarrow> d)"

definition createTask :: "int \<Rightarrow> task_create \<Rightarrow> task" where
  "createTask i body = \<lparr> tk_id = i, tk_cron = tc_cron body, tk_endpoint = tc_endpoint body,
     tk_method = orElse (tc_method body) ''GET'', tk_isActive = orElse (tc_isActive body) True \<rparr>"

definition applyUpdate :: "task_update \<Rightarrow> task \<Rightarrow> task" where
  "applyUpdate body t = t\<lparr> tk_cron := orElse (tu_cron body) (tk_cron t), tk_endpoint := orElse (tu_endpoint body) (tk_endpoint t),
     tk_method := orElse (tu_method body) (tk_method t), tk_isActive := orElse (tu_isActive body) (tk_isActive t) \<rparr>"

record 'd repository =
  rp_findActive :: "'d \<Rightarrow> task list"
  rp_find :: "'d \<Rightarrow> task list"
  rp_findOne :: "int \<Rightarrow> 'd \<Rightarrow> task option"
  rp_insert :: "task_create \<Rightarrow> 'd \<Rightarrow> int \<times> 'd"
  rp_update :: "int \<Rightarrow> task_update \<Rightarrow> 'd \<Rightarrow> 'd"
  rp_delete :: "int \<Rightarrow> 'd \<Rightarrow> int \<times> 'd"

record 'r registry =
  rg_doesExist :: "string \<Rightarrow> 'r \<Rightarrow> bool"
  rg_addCronJob :: "string \<Rightarrow> task \<Rightarrow> 'r \<Rightarrow> string + 'r"
  rg_deleteCronJob :: "string \<Rightarrow> 'r \<Rightarrow> 'r"
  rg_getCronJob :: "string \<Rightarrow> 'r \<Rightarrow> task option"

section \<open>Jobs\<close>

definition getTaskJobName :: "task \<Rightarrow> string" where
  "getTaskJobName t = ''scheduled_task_'' @ show_int (tk_id t)"

text \<open>The package \<open>cron\<close> throws when the expression is not one; the check is a parameter.\<close>

definition cronStart :: "(string \<Rightarrow> bool) \<Rightarrow> 'r registry \<Rightarrow> task \<Rightarrow> 'r \<Rightarrow> string + 'r" where
  "cronStart validCron G t r = (if validCron (tk_cron t) then rg_addCronJob G (getTaskJobName t) t r else Inl ''Unknown alias'')"

definition cronExists :: "'r registry \<Rightarrow> task \<Rightarrow> 'r \<Rightarrow> bool" where
  "cronExists G t r = rg_doesExist G (getTaskJobName t) r"

definition cronStop :: "'r registry \<Rightarrow> task \<Rightarrow> 'r \<Rightarrow> 'r" where
  "cronStop G t r = (if \<not> cronExists G t r then r else rg_deleteCronJob G (getTaskJobName t) r)"

section \<open>Operations of the service\<close>

text \<open>Jobs started before an error stay started.\<close>

fun startAll :: "(string \<Rightarrow> bool) \<Rightarrow> 'r registry \<Rightarrow> task list \<Rightarrow> 'r \<Rightarrow> (string + unit) \<times> 'r" where
  "startAll validCron G [] r = (Inr (), r)"
| "startAll validCron G (t # ts) r = (case cronStart validCron G t r of
     Inl e \<Rightarrow> (Inl e, r) | Inr r1 \<Rightarrow> startAll validCron G ts r1)"

definition onApplicationBootstrap ::
  "(string \<Rightarrow> bool) \<Rightarrow> 'd repository \<Rightarrow> 'r registry \<Rightarrow> 'd \<times> 'r \<Rightarrow> (string + unit) \<times> 'd \<times> 'r" where
  "onApplicationBootstrap validCron D G = (\<lambda>(d, r). (let (result, r1) = startAll validCron G (rp_findActive D d) r in (result, d, r1)))"

definition storeTask ::
  "(string \<Rightarrow> bool) \<Rightarrow> 'd repository \<Rightarrow> 'r registry \<Rightarrow> task_create \<Rightarrow> 'd \<times> 'r \<Rightarrow> (string + task) \<times> 'd \<times> 'r" where
  "storeTask validCron D G body = (\<lambda>(d, r).
     (let (i, d1) = rp_insert D body d
      in case rp_findOne D i d1 of
           None \<Rightarrow> (Inl ''TypeError'', d1, r)
         | Some t \<Rightarrow> (case cronStart validCron G t r of
             Inl e \<Rightarrow> (Inl e, d1, r) | Inr r1 \<Rightarrow> (Inr t, d1, r1))))"

definition findTask :: "'d repository \<Rightarrow> int \<Rightarrow> 'd \<Rightarrow> task option" where
  "findTask D i d = rp_findOne D i d"

definition searchTasks :: "'d repository \<Rightarrow> 'd \<Rightarrow> task list" where
  "searchTasks D d = rp_find D d"

text \<open>The phases of an update: the row is read, then changed, then read again and the job exchanged.\<close>

definition updateFind :: "'d repository \<Rightarrow> int \<Rightarrow> 'd \<Rightarrow> task option" where
  "updateFind D i d = rp_findOne D i d"

definition updateWrite :: "'d repository \<Rightarrow> int \<Rightarrow> task_update \<Rightarrow> 'd \<Rightarrow> 'd" where
  "updateWrite D i body d = rp_update D i body d"

definition exchangeJob ::
  "(string \<Rightarrow> bool) \<Rightarrow> 'r registry \<Rightarrow> task option \<Rightarrow> task option \<Rightarrow> 'r \<Rightarrow> (string + task) \<times> 'r" where
  "exchangeJob validCron G preUpdate found r = (case (preUpdate, found) of
     (Some pre, Some t) \<Rightarrow>
       (let r1 = (if tk_isActive pre then cronStop G t r else r)
        in if tk_isActive t then (case cronStart validCron G t r1 of Inl e \<Rightarrow> (Inl e, r1) | Inr r2 \<Rightarrow> (Inr t, r2))
           else (Inr t, r1))
   | _ \<Rightarrow> (Inl ''TypeError'', r))"

definition updateTask ::
  "(string \<Rightarrow> bool) \<Rightarrow> 'd repository \<Rightarrow> 'r registry \<Rightarrow> int \<Rightarrow> task_update \<Rightarrow> 'd \<times> 'r \<Rightarrow> (string + task) \<times> 'd \<times> 'r" where
  "updateTask validCron D G i body = (\<lambda>(d, r).
     (let preUpdate = updateFind D i d;
          d1 = updateWrite D i body d;
          (result, r1) = exchangeJob validCron G preUpdate (updateFind D i d1) r
      in (result, d1, r1)))"

text \<open>Without a task the deletion of the row is carried out before the name of the job throws.\<close>

definition destroyTask :: "'d repository \<Rightarrow> 'r registry \<Rightarrow> int \<Rightarrow> 'd \<times> 'r \<Rightarrow> (string + bool) \<times> 'd \<times> 'r" where
  "destroyTask D G i = (\<lambda>(d, r).
     (let found = rp_findOne D i d; (affected, d1) = rp_delete D i d
      in case found of
           None \<Rightarrow> (Inl ''TypeError'', d1, r)
         | Some t \<Rightarrow> (Inr (affected \<ge> 0), d1, cronStop G t r)))"

text \<open>The request to the endpoint is a parameter, which may fail; every error is caught.\<close>

definition execute :: "(task \<Rightarrow> string + unit) \<Rightarrow> task \<Rightarrow> bool" where
  "execute request t = (case request t of Inr _ \<Rightarrow> True | Inl err \<Rightarrow> False)"

definition trigger :: "'d repository \<Rightarrow> (task \<Rightarrow> string + unit) \<Rightarrow> int \<Rightarrow> 'd \<Rightarrow> bool \<times> task option" where
  "trigger D request i d = (case rp_findOne D i d of
     Some t \<Rightarrow> (execute request t, Some t) | None \<Rightarrow> (False, None))"

section \<open>What the packages document\<close>

locale task_table =
  fixes D :: "'d repository"
  assumes find_id: "rp_findOne D i d = Some t \<Longrightarrow> tk_id t = i"
    and insert_fresh: "rp_insert D body d = (i, d1) \<Longrightarrow> rp_findOne D i d = None"
    and insert_find: "rp_insert D body d = (i, d1) \<Longrightarrow> rp_findOne D j d1 = (if j = i then Some (createTask i body) else rp_findOne D j d)"
    and update_find: "rp_findOne D j (rp_update D i change d) =
      (if j = i then map_option (applyUpdate change) (rp_findOne D j d) else rp_findOne D j d)"
    and delete_find: "rp_findOne D j (snd (rp_delete D i d)) = (if j = i then None else rp_findOne D j d)"
    and active_set: "t \<in> set (rp_findActive D d) \<longleftrightarrow> rp_findOne D (tk_id t) d = Some t \<and> tk_isActive t"
    and active_distinct: "distinct (rp_findActive D d)"

locale job_registry =
  fixes G :: "'r registry"
  assumes exists_iff: "rg_doesExist G name r \<longleftrightarrow> rg_getCronJob G name r \<noteq> None"
    and add_new: "\<not> rg_doesExist G name r \<Longrightarrow> \<exists>r1. rg_addCronJob G name t r = Inr r1
      \<and> (\<forall>other. rg_getCronJob G other r1 = (if other = name then Some t else rg_getCronJob G other r))"
    and add_old: "rg_doesExist G name r \<Longrightarrow> \<exists>e. rg_addCronJob G name t r = Inl e"
    and delete: "rg_getCronJob G other (rg_deleteCronJob G name r) = (if other = name then None else rg_getCronJob G other r)"

text \<open>The jobs that run are the active tasks as they are stored.\<close>

definition jobName :: "int \<Rightarrow> string" where
  "jobName i = ''scheduled_task_'' @ show_int i"

definition wanted :: "task option \<Rightarrow> task option" where
  "wanted found = (case found of Some t \<Rightarrow> if tk_isActive t then Some t else None | None \<Rightarrow> None)"

definition inSync :: "'d repository \<Rightarrow> 'r registry \<Rightarrow> 'd \<times> 'r \<Rightarrow> bool" where
  "inSync D G s \<longleftrightarrow> (\<forall>i. rg_getCronJob G (jobName i) (snd s) = wanted (rp_findOne D i (fst s)))"

lemma getTaskJobName_jobName: "getTaskJobName t = jobName (tk_id t)"
  by (simp add: getTaskJobName_def jobName_def)

section \<open>Names of jobs\<close>

lemma jobName_inj [simp]: "jobName i = jobName j \<longleftrightarrow> i = j"
  by (simp add: jobName_def)

section \<open>The service on its packages\<close>

definition schedulerGood :: "(string \<Rightarrow> bool) \<Rightarrow> 'd repository \<Rightarrow> 'r registry \<Rightarrow> 'd \<times> 'r \<Rightarrow> bool" where
  "schedulerGood validCron D G s \<longleftrightarrow> inSync D G s \<and> (\<forall>i t. rp_findOne D i (fst s) = Some t \<longrightarrow> validCron (tk_cron t))"

text \<open>The same up to the tasks of a set, whose jobs run although they were stored as inactive.\<close>

definition schedulerHolds :: "(string \<Rightarrow> bool) \<Rightarrow> 'd repository \<Rightarrow> 'r registry \<Rightarrow> int set \<Rightarrow> 'd \<times> 'r \<Rightarrow> bool" where
  "schedulerHolds validCron D G X s \<longleftrightarrow>
     (\<forall>i. if i \<in> X then rp_findOne D i (fst s) \<noteq> None \<and> (\<exists>t. rg_getCronJob G (jobName i) (snd s) = Some t \<and> \<not> tk_isActive t)
       else rg_getCronJob G (jobName i) (snd s) = wanted (rp_findOne D i (fst s)))
     \<and> (\<forall>i t. rp_findOne D i (fst s) = Some t \<longrightarrow> validCron (tk_cron t))"

locale scheduler = task_table D + job_registry G for D :: "'d repository" and G :: "'r registry" +
  fixes validCron :: "string \<Rightarrow> bool"
begin

lemma start_job:
  assumes "validCron (tk_cron t)" "rg_getCronJob G (jobName (tk_id t)) r = None"
  obtains r1 where "cronStart validCron G t r = Inr r1"
    "\<And>other. rg_getCronJob G other r1 = (if other = jobName (tk_id t) then Some t else rg_getCronJob G other r)"
  using assms add_new[of "jobName (tk_id t)" r t] that
  by (auto simp: cronStart_def getTaskJobName_jobName exists_iff)

lemma stop_job:
  "rg_getCronJob G other (cronStop G t r) = (if other = jobName (tk_id t) then None else rg_getCronJob G other r)"
  by (auto simp: cronStop_def cronExists_def getTaskJobName_jobName exists_iff delete)

abbreviation good :: "'d \<times> 'r \<Rightarrow> bool" where
  "good \<equiv> schedulerGood validCron D G"

lemmas good_def = schedulerGood_def

text \<open>The jobs that run for tasks in \<open>X\<close> are those of inactive tasks that were stored.\<close>

abbreviation holds :: "int set \<Rightarrow> 'd \<times> 'r \<Rightarrow> bool" where
  "holds \<equiv> schedulerHolds validCron D G"

lemmas holds_def = schedulerHolds_def

lemma good_holds: "good s = holds {} s"
  by (simp add: good_def holds_def inSync_def)

abbreviation fits :: "int set \<Rightarrow> int \<Rightarrow> 'd \<Rightarrow> 'r \<Rightarrow> bool" where
  "fits X i d r \<equiv> (if i \<in> X then rp_findOne D i d \<noteq> None \<and> (\<exists>t. rg_getCronJob G (jobName i) r = Some t \<and> \<not> tk_isActive t)
    else rg_getCronJob G (jobName i) r = wanted (rp_findOne D i d))"

lemma holdsD: "holds X (d, r) \<Longrightarrow> fits X i d r" "holds X (d, r) \<Longrightarrow> rp_findOne D i d = Some t \<Longrightarrow> validCron (tk_cron t)"
  unfolding holds_def fst_conv snd_conv by blast+

lemma holdsI: "(\<And>i. fits X i d r) \<Longrightarrow> (\<And>i t. rp_findOne D i d = Some t \<Longrightarrow> validCron (tk_cron t)) \<Longrightarrow> holds X (d, r)"
  unfolding holds_def fst_conv snd_conv by blast

lemma store_holds:
  assumes "holds X s" "validCron (tc_cron body)"
  shows "holds (if orElse (tc_isActive body) True then X else insert (fst (rp_insert D body (fst s))) X) (snd (storeTask validCron D G body s))"
proof -
  obtain d r where s: "s = (d, r)" by (cases s)
  obtain i d1 where ins: "rp_insert D body d = (i, d1)" by (metis prod.exhaust)
  let ?t = "createTask i body"
  have t: "tk_id ?t = i" "tk_cron ?t = tc_cron body" "tk_isActive ?t = orElse (tc_isActive body) True" by (simp_all add: createTask_def)
  have row: "rp_findOne D j d1 = (if j = i then Some ?t else rp_findOne D j d)" for j by (rule insert_find[OF ins])
  have fresh: "rp_findOne D i d = None" by (rule insert_fresh[OF ins])
  then have new: "i \<notin> X" "rg_getCronJob G (jobName i) r = None"
    using holdsD(1)[OF assms(1)[unfolded s], of i] by (auto simp: wanted_def split: if_splits)
  then obtain r1 where r1: "cronStart validCron G ?t r = Inr r1"
      "\<And>other. rg_getCronJob G other r1 = (if other = jobName i then Some ?t else rg_getCronJob G other r)"
    using start_job[of ?t r] t assms(2) by auto
  have run: "snd (storeTask validCron D G body s) = (d1, r1)" "fst (rp_insert D body (fst s)) = i"
    by (simp_all add: storeTask_def s ins row r1(1))
  have "fits (if orElse (tc_isActive body) True then X else insert i X) j d1 r1" for j
    using holdsD(1)[OF assms(1)[unfolded s], of j] new t(3) by (cases "j = i") (auto simp: row r1(2) wanted_def)
  moreover have "validCron (tk_cron u)" if "rp_findOne D j d1 = Some u" for j u
    using that t(2) assms(2) holdsD(2)[OF assms(1)[unfolded s]] by (auto simp: row split: if_splits)
  ultimately show ?thesis unfolding run by (rule holdsI)
qed

lemma update_holds:
  assumes "holds X s" "\<And>c. tu_cron body = Some c \<Longrightarrow> validCron c"
  shows "holds (if wanted (rp_findOne D i (fst s)) \<noteq> None then X - {i} else X) (snd (updateTask validCron D G i body s))"
proof -
  obtain d r where s: "s = (d, r)" by (cases s)
  show ?thesis
  proof (cases "rp_findOne D i d")
    case None
    have same: "rp_findOne D j (rp_update D i body d) = rp_findOne D j d" for j using None by (simp add: update_find)
    have run: "snd (updateTask validCron D G i body s) = (rp_update D i body d, r)"
      by (simp add: s updateTask_def updateFind_def updateWrite_def exchangeJob_def None)
    have "holds X (rp_update D i body d, r)" by (rule holdsI) (use holdsD[OF assms(1)[unfolded s]] in \<open>simp_all only: same\<close>)
    then show ?thesis unfolding run by (simp add: s None wanted_def)
  next
    case (Some pre)
    let ?t = "applyUpdate body pre"
    have id: "tk_id ?t = i" using find_id[OF Some] by (simp add: applyUpdate_def)
    have valid: "validCron (tk_cron ?t)"
      using assms(2) holdsD(2)[OF assms(1)[unfolded s] Some] by (simp add: applyUpdate_def orElse_def split: option.split)
    have row: "rp_findOne D j (rp_update D i body d) = (if j = i then Some ?t else rp_findOne D j d)" for j
      using Some by (simp add: update_find)
    let ?X = "if tk_isActive pre then X - {i} else X"
    define r1 where "r1 = (if tk_isActive pre then cronStop G ?t r else r)"
    have r1: "rg_getCronJob G (jobName j) r1 = (if j = i \<and> tk_isActive pre then None else rg_getCronJob G (jobName j) r)" for j
      using id by (simp add: r1_def stop_job)
    have rows: "validCron (tk_cron u)" if "rp_findOne D j (rp_update D i body d) = Some u" for j u
      using that valid holdsD(2)[OF assms(1)[unfolded s]] by (auto simp: row split: if_splits)
    note before = holdsD(1)[OF assms(1)[unfolded s]]
    have run: "snd (updateTask validCron D G i body s) = (rp_update D i body d,
        if tk_isActive ?t then (case cronStart validCron G ?t r1 of Inl e \<Rightarrow> r1 | Inr r2 \<Rightarrow> r2) else r1)"
      by (simp add: s updateTask_def updateFind_def updateWrite_def exchangeJob_def row Some Let_def r1_def split: sum.split)
    show ?thesis
    proof (cases "tk_isActive ?t \<and> rg_getCronJob G (jobName i) r1 = None")
      case True
      obtain r2 where r2: "cronStart validCron G ?t r1 = Inr r2"
          "\<And>other. rg_getCronJob G other r2 = (if other = jobName i then Some ?t else rg_getCronJob G other r1)"
        using start_job[of ?t r1] valid True id by auto
      have "i \<notin> ?X" using True before[of i] r1[of i] by (auto split: if_splits)
      then have "fits ?X j (rp_update D i body d) r2" for j
        using before[of j] True by (cases "j = i") (auto simp: row r2(2) r1 wanted_def)
      then have "holds ?X (rp_update D i body d, r2)" using rows by (rule holdsI)
      then show ?thesis using True unfolding run by (cases "tk_isActive pre") (simp_all add: r2(1) s Some wanted_def)
    next
      case False
      have kept: "(case cronStart validCron G ?t r1 of Inl e \<Rightarrow> r1 | Inr r2 \<Rightarrow> r2) = r1" if "tk_isActive ?t"
      proof -
        have "rg_doesExist G (jobName (tk_id ?t)) r1" using False that id by (simp add: exists_iff)
        from add_old[OF this, of ?t] show ?thesis by (auto simp: cronStart_def getTaskJobName_jobName)
      qed
      have "fits ?X j (rp_update D i body d) r1" for j
        using before[of j] False by (cases "j = i") (auto simp: row r1 wanted_def Some split: if_splits)
      then have "holds ?X (rp_update D i body d, r1)" using rows by (rule holdsI)
      then show ?thesis using kept unfolding run by (cases "tk_isActive pre") (simp_all add: s Some wanted_def)
    qed
  qed
qed

lemma destroy_holds:
  assumes "holds X s"
  shows "holds (X - {i}) (snd (destroyTask D G i s))"
proof -
  obtain d r where s: "s = (d, r)" by (cases s)
  let ?r = "case rp_findOne D i d of None \<Rightarrow> r | Some t \<Rightarrow> cronStop G t r"
  have gone: "rp_findOne D j (snd (rp_delete D i d)) = (if j = i then None else rp_findOne D j d)" for j by (rule delete_find)
  have run: "snd (destroyTask D G i s) = (snd (rp_delete D i d), ?r)"
    by (simp add: s destroyTask_def case_prod_beta Let_def split: option.split)
  have "fits (X - {i}) j (snd (rp_delete D i d)) ?r" for j
    using holdsD(1)[OF assms[unfolded s], of j] find_id[of i d]
    by (cases "j = i") (auto simp: gone stop_job wanted_def split: option.splits if_splits)
  then show ?thesis unfolding run by (rule holdsI) (use holdsD(2)[OF assms[unfolded s]] in \<open>auto simp: gone split: if_splits\<close>)
qed

lemma startAll_jobs:
  assumes "\<And>t. t \<in> set ts \<Longrightarrow> validCron (tk_cron t)" "distinct (map tk_id ts)"
    and "\<And>t. t \<in> set ts \<Longrightarrow> rg_getCronJob G (jobName (tk_id t)) r = None"
  shows "rg_getCronJob G (jobName i) (snd (startAll validCron G ts r)) =
    (case find (\<lambda>t. tk_id t = i) ts of Some t \<Rightarrow> Some t | None \<Rightarrow> rg_getCronJob G (jobName i) r)
    \<and> fst (startAll validCron G ts r) = Inr ()"
  using assms
proof (induction ts arbitrary: r)
  case (Cons t ts)
  obtain r1 where r1: "cronStart validCron G t r = Inr r1"
      "\<And>other. rg_getCronJob G other r1 = (if other = jobName (tk_id t) then Some t else rg_getCronJob G other r)"
    using start_job[of t r] Cons.prems by auto
  have ih: "rg_getCronJob G (jobName i) (snd (startAll validCron G ts r1)) =
    (case find (\<lambda>t. tk_id t = i) ts of Some t \<Rightarrow> Some t | None \<Rightarrow> rg_getCronJob G (jobName i) r1)
    \<and> fst (startAll validCron G ts r1) = Inr ()"
    using Cons.prems r1(2) by (intro Cons.IH) (auto simp: image_iff)
  have "find (\<lambda>u. tk_id u = tk_id t) ts = None" using Cons.prems(2) by (simp add: find_None_iff) (metis imageI)
  then show ?case using ih r1 by (auto split: option.splits)
qed simp

lemma active_ids: "distinct (map tk_id (rp_findActive D d))"
  using active_distinct[of d] active_set[of _ d] by (auto simp: distinct_map inj_on_def)

lemma boot_good:
  assumes "\<forall>i t. rp_findOne D i d = Some t \<longrightarrow> validCron (tk_cron t)" "\<And>name. rg_getCronJob G name r0 = None"
  shows "good (snd (onApplicationBootstrap validCron D G (d, r0))) \<and> fst (onApplicationBootstrap validCron D G (d, r0)) = Inr ()"
proof -
  have "rg_getCronJob G (jobName i) (snd (startAll validCron G (rp_findActive D d) r0)) = wanted (rp_findOne D i d)
    \<and> fst (startAll validCron G (rp_findActive D d) r0) = Inr ()" for i
  proof -
    have run: "rg_getCronJob G (jobName i) (snd (startAll validCron G (rp_findActive D d) r0)) =
      (case find (\<lambda>t. tk_id t = i) (rp_findActive D d) of Some t \<Rightarrow> Some t | None \<Rightarrow> rg_getCronJob G (jobName i) r0)
      \<and> fst (startAll validCron G (rp_findActive D d) r0) = Inr ()"
      using assms active_set by (intro startAll_jobs active_ids) blast+
    have "(case find (\<lambda>t. tk_id t = i) (rp_findActive D d) of Some t \<Rightarrow> Some t | None \<Rightarrow> None) = wanted (rp_findOne D i d)"
    proof (cases "find (\<lambda>t. tk_id t = i) (rp_findActive D d)")
      case None
      have "\<not> tk_isActive t" if "rp_findOne D i d = Some t" for t
        using None that find_id[OF that] active_set[of t d] by (auto simp: find_None_iff)
      then show ?thesis using None by (simp add: wanted_def split: option.split)
    next
      case (Some t)
      then have "t \<in> set (rp_findActive D d)" "tk_id t = i" by (auto dest: find_SomeD)
      then have "rp_findOne D i d = Some t" "tk_isActive t" using active_set[of t d] by auto
      then show ?thesis using Some by (simp add: wanted_def)
    qed
    with run assms(2) show ?thesis by (simp cong: option.case_cong)
  qed
  then show ?thesis using assms(1) by (simp add: onApplicationBootstrap_def case_prod_beta Let_def good_def inSync_def)
qed

text \<open>Two updates of one task whose phases overlap: the second reads and writes after the first has read for the last time.\<close>

lemma overlap_stale:
  assumes "good (d, r)" "rp_findOne D i d = Some t" "tk_isActive t" "validCron c1" "validCron c2" "c1 \<noteq> c2"
    and "body1 = \<lparr> tu_endpoint = None, tu_cron = Some c1, tu_method = None, tu_isActive = None \<rparr>"
    and "body2 = \<lparr> tu_endpoint = None, tu_cron = Some c2, tu_method = None, tu_isActive = None \<rparr>"
  shows "let pre1 = updateFind D i d; d1 = updateWrite D i body1 d; found1 = updateFind D i d1;
      pre2 = updateFind D i d1; d2 = updateWrite D i body2 d1; found2 = updateFind D i d2;
      (result2, r1) = exchangeJob validCron G pre2 found2 r;
      (result1, r2) = exchangeJob validCron G pre1 found1 r1
    in (\<exists>t1 t2. result1 = Inr t1 \<and> result2 = Inr t2)
      \<and> map_option tk_cron (rp_findOne D i d2) = Some c2 \<and> map_option tk_cron (rg_getCronJob G (jobName i) r2) = Some c1"
proof -
  let ?t1 = "applyUpdate body1 t" let ?t2 = "applyUpdate body2 ?t1"
  have f: "rp_findOne D i (rp_update D i body1 d) = Some ?t1"
      "rp_findOne D i (rp_update D i body2 (rp_update D i body1 d)) = Some ?t2"
    using assms(2) by (simp_all add: update_find)
  have id: "tk_id ?t1 = i" "tk_id ?t2 = i" using find_id[OF assms(2)] by (simp_all add: applyUpdate_def)
  have a: "tk_isActive ?t1" "tk_isActive ?t2" "tk_cron ?t1 = c1" "tk_cron ?t2 = c2"
    using assms(3,7,8) by (simp_all add: applyUpdate_def orElse_def)
  have "rg_getCronJob G (jobName i) (cronStop G ?t2 r) = None" by (simp add: stop_job id)
  then obtain r1 where r1: "cronStart validCron G ?t2 (cronStop G ?t2 r) = Inr r1"
    using start_job[of ?t2 "cronStop G ?t2 r"] a assms(5) id by metis
  have "rg_getCronJob G (jobName i) (cronStop G ?t1 r1) = None" by (simp add: stop_job id)
  then obtain r2 where r2: "cronStart validCron G ?t1 (cronStop G ?t1 r1) = Inr r2" "rg_getCronJob G (jobName i) r2 = Some ?t1"
    using start_job[of ?t1 "cronStop G ?t1 r1"] a assms(4) id by metis
  show ?thesis
    using assms(2,3) f a r1 r2 by (simp add: updateFind_def updateWrite_def exchangeJob_def Let_def)
qed

text \<open>A row with a wrong expression.\<close>

lemma startAll_invalid:
  "t \<in> set ts \<Longrightarrow> \<not> validCron (tk_cron t) \<Longrightarrow> \<exists>e. fst (startAll validCron G ts r) = Inl e"
  by (induction ts arbitrary: r) (auto simp: cronStart_def split: sum.split)

lemma store_invalid:
  assumes "orElse (tc_isActive body) True" "\<not> validCron (tc_cron body)"
  shows "\<exists>e d1. storeTask validCron D G body (d, r) = (Inl e, d1, r) \<and> (\<exists>i. rp_findOne D i d = None \<and> rp_findOne D i d1 = Some (createTask i body))
    \<and> (\<forall>r0. \<exists>e. fst (onApplicationBootstrap validCron D G (d1, r0)) = Inl e)"
proof -
  obtain i d1 where ins: "rp_insert D body d = (i, d1)" by (metis prod.exhaust)
  have found: "rp_findOne D i d1 = Some (createTask i body)" using insert_find[OF ins] by simp
  then have mem: "createTask i body \<in> set (rp_findActive D d1)" using active_set[of "createTask i body" d1] assms(1) by (simp add: createTask_def)
  have "\<not> validCron (tk_cron (createTask i body))" using assms(2) by (simp add: createTask_def)
  from startAll_invalid[OF mem this] have "\<exists>e. fst (startAll validCron G (rp_findActive D d1) r0) = Inl e" for r0 .
  then show ?thesis
    using found insert_fresh[OF ins] assms(2)
    by (auto simp: storeTask_def ins cronStart_def createTask_def onApplicationBootstrap_def case_prod_beta Let_def)
qed

lemma store_inactive:
  assumes "good (d, r)" "tc_isActive body = Some False" "validCron (tc_cron body)"
  shows "\<exists>t. fst (storeTask validCron D G body (d, r)) = Inr t \<and> \<not> tk_isActive t
    \<and> rg_getCronJob G (jobName (tk_id t)) (snd (snd (storeTask validCron D G body (d, r)))) = Some t"
proof -
  obtain i d1 where ins: "rp_insert D body d = (i, d1)" by (metis prod.exhaust)
  let ?t = "createTask i body"
  have t: "tk_id ?t = i" "tk_cron ?t = tc_cron body" "\<not> tk_isActive ?t" using assms(2) by (simp_all add: createTask_def orElse_def)
  have "rg_getCronJob G (jobName i) r = None"
    using assms(1) insert_fresh[OF ins] by (simp add: good_def inSync_def wanted_def)
  then obtain r1 where "cronStart validCron G ?t r = Inr r1" "rg_getCronJob G (jobName i) r1 = Some ?t"
    using start_job[of ?t r] t assms(3) by metis
  then show ?thesis using t insert_find[OF ins] by (simp add: storeTask_def ins)
qed

end

section \<open>The service in operation\<close>

text \<open>Requests that are served one after the other, with expressions that are valid, and restarts, which lose all jobs.  Beside the state
  the relation keeps the numbers of the tasks that were stored as inactive, until they are destroyed, updated while they are active, or the
  service restarts.\<close>

inductive serves ::
  "(string \<Rightarrow> bool) \<Rightarrow> 'd repository \<Rightarrow> 'r registry \<Rightarrow> int set \<times> 'd \<times> 'r \<Rightarrow> int set \<times> 'd \<times> 'r \<Rightarrow> bool" for validCron D G where
  serves_store: "validCron (tc_cron body) \<Longrightarrow>
    serves validCron D G (X, s) (if orElse (tc_isActive body) True then X else insert (fst (rp_insert D body (fst s))) X, snd (storeTask validCron D G body s))"
| serves_update: "(\<And>c. tu_cron body = Some c \<Longrightarrow> validCron c) \<Longrightarrow>
    serves validCron D G (X, s) (if wanted (rp_findOne D i (fst s)) \<noteq> None then X - {i} else X, snd (updateTask validCron D G i body s))"
| serves_destroy: "serves validCron D G (X, s) (X - {i}, snd (destroyTask D G i s))"
| serves_restart: "(\<And>name. rg_getCronJob G name r0 = None) \<Longrightarrow>
    serves validCron D G (X, d, r) ({}, snd (onApplicationBootstrap validCron D G (d, r0)))"

context scheduler
begin

lemma serves_holds: "serves validCron D G Xs Xs' \<Longrightarrow> holds (fst Xs) (snd Xs) \<Longrightarrow> holds (fst Xs') (snd Xs')"
proof (induction rule: serves.induct)
  case (serves_store body X s)
  then show ?case using store_holds[of X s body] by simp
next
  case (serves_update body X s i)
  then show ?case using update_holds[of X s body i] by simp
next
  case (serves_destroy X s i)
  then show ?case using destroy_holds[of X s i] by simp
next
  case (serves_restart r0 X d r)
  then show ?case using boot_good[of d r0] unfolding good_holds by (simp add: holds_def)
qed

lemma reachable_holds: "(serves validCron D G)\<^sup>*\<^sup>* Xs Xs' \<Longrightarrow> holds (fst Xs) (snd Xs) \<Longrightarrow> holds (fst Xs') (snd Xs')"
  by (induction rule: rtranclp_induct) (auto intro: serves_holds)

end

section \<open>An instance of the packages\<close>

text \<open>Rows and the next number; jobs under their names.\<close>

definition memory_table :: "(int \<times> (int, task) js_map) repository" where
  "memory_table = \<lparr>
     rp_findActive = (\<lambda>(n, rows). filter tk_isActive (map snd (filter (\<lambda>(i, t). i = tk_id t \<and> i < n) (AList.clearjunk rows)))),
     rp_find = (\<lambda>(n, rows). map snd (filter (\<lambda>(i, t). i = tk_id t \<and> i < n) (AList.clearjunk rows))),
     rp_findOne = (\<lambda>i (n, rows). if i < n then (case js_get rows i of Some t \<Rightarrow> if tk_id t = i then Some t else None | None \<Rightarrow> None) else None),
     rp_insert = (\<lambda>body (n, rows). (n, n + 1, js_put rows n (createTask n body))),
     rp_update = (\<lambda>i body (n, rows). (n, case js_get rows i of Some t \<Rightarrow> js_put rows i (applyUpdate body t) | None \<Rightarrow> rows)),
     rp_delete = (\<lambda>i (n, rows). (if js_get rows i = None then 0 else 1, n, AList.delete i rows)) \<rparr>"

definition memory_registry :: "(string, task) js_map registry" where
  "memory_registry = \<lparr>
     rg_doesExist = (\<lambda>name r. js_get r name \<noteq> None),
     rg_addCronJob = (\<lambda>name t r. if js_get r name \<noteq> None then Inl (''Cron Job with the given name ('' @ name @ '') already exists. Ignored.'')
       else Inr (js_put r name t)),
     rg_deleteCronJob = (\<lambda>name r. AList.delete name r),
     rg_getCronJob = (\<lambda>name r. js_get r name) \<rparr>"

lemma clearjunk_rows: "(i, t) \<in> set (AList.clearjunk rows) \<longleftrightarrow> js_get rows i = Some t"
  by (metis distinct_clearjunk map_of_clearjunk map_of_eq_Some_iff)

interpretation memory_rows: task_table memory_table
proof
  fix d :: "int \<times> (int, task) js_map" and t
  obtain n rows where d: "d = (n, rows)" by (cases d)
  show "t \<in> set (rp_findActive memory_table d) \<longleftrightarrow> rp_findOne memory_table (tk_id t) d = Some t \<and> tk_isActive t"
    by (auto simp: memory_table_def d clearjunk_rows image_iff split: option.split)
  have dist: "distinct (map fst (filter (\<lambda>(i, t). i = tk_id t \<and> i < n) (AList.clearjunk rows)))"
    by (simp add: distinct_map_filter distinct_clearjunk)
  have eq: "map tk_id (map snd (filter (\<lambda>(i, t). i = tk_id t \<and> i < n) xs)) = map fst (filter (\<lambda>(i, t). i = tk_id t \<and> i < n) xs)" for xs
    by (induction xs) auto
  have "distinct (map tk_id (map snd (filter (\<lambda>(i, t). i = tk_id t \<and> i < n) (AList.clearjunk rows))))"
    unfolding eq by (rule dist)
  then have "distinct (map snd (filter (\<lambda>(i, t). i = tk_id t \<and> i < n) (AList.clearjunk rows)))" by (rule iffD1[OF distinct_map, THEN conjunct1])
  then show "distinct (rp_findActive memory_table d)"
    unfolding memory_table_def d by simp
qed (auto simp: memory_table_def createTask_def applyUpdate_def delete_conv' split: option.splits if_splits)

interpretation memory_jobs: job_registry memory_registry
  by unfold_locales (auto simp: memory_registry_def delete_conv')

definition someCron :: "string \<Rightarrow> bool" where
  "someCron c \<longleftrightarrow> c \<noteq> []"

interpretation memory_scheduler: scheduler memory_table memory_registry someCron ..

section \<open>What holds of the service\<close>

lemma schedulerI: "task_table D \<Longrightarrow> job_registry G \<Longrightarrow> scheduler D G"
  by (rule scheduler.intro)

text \<open>C32: In every state that requests with valid expressions, served one after the other, and restarts lead to: the job of a task that is not in
  \<open>X\<close> runs exactly when the task is active in the table, with the expression, endpoint and method that are stored.  \<open>X\<close> are the tasks that
  were stored as inactive: a job runs for each of them all the same, until the task is destroyed, is updated while it is active, or the
  service restarts.\<close>

theorem scheduler_in_sync:
  assumes "task_table D" "job_registry G" "schedulerGood validCron D G s" "(serves validCron D G)\<^sup>*\<^sup>* ({}, s) (X, d, r)"
  shows "if i \<in> X then rp_findOne D i d \<noteq> None \<and> (\<exists>t. rg_getCronJob G (jobName i) r = Some t \<and> \<not> tk_isActive t)
    else rg_getCronJob G (jobName i) r = (case rp_findOne D i d of Some t \<Rightarrow> if tk_isActive t then Some t else None | None \<Rightarrow> None)"
proof -
  have good: "schedulerHolds validCron D G {} s" using assms(3) scheduler.good_holds[OF schedulerI[OF assms(1,2)], of validCron s] by simp
  have "schedulerHolds validCron D G X (d, r)"
    using scheduler.reachable_holds[OF schedulerI[OF assms(1,2)] assms(4)] good by simp
  then show ?thesis unfolding schedulerHolds_def fst_conv snd_conv wanted_def by (elim conjE) (erule spec)
qed

text \<open>Two updates of an active task that overlap can leave a job that no longer agrees with its row: when the second update reads
  and writes between the last read of the first and the exchange of its job, both succeed, the row has the second expression and
  the job that runs has the first.\<close>

theorem overlapping_updates_stale_job:
  assumes "task_table D" "job_registry G" "schedulerGood validCron D G (d, r)" "rp_findOne D i d = Some t" "tk_isActive t"
    and "validCron c1" "validCron c2" "c1 \<noteq> c2"
    and "body1 = \<lparr> tu_endpoint = None, tu_cron = Some c1, tu_method = None, tu_isActive = None \<rparr>"
    and "body2 = \<lparr> tu_endpoint = None, tu_cron = Some c2, tu_method = None, tu_isActive = None \<rparr>"
  shows "let pre1 = updateFind D i d; d1 = updateWrite D i body1 d; found1 = updateFind D i d1;
      pre2 = updateFind D i d1; d2 = updateWrite D i body2 d1; found2 = updateFind D i d2;
      (result2, r1) = exchangeJob validCron G pre2 found2 r;
      (result1, r2) = exchangeJob validCron G pre1 found1 r1
    in (\<exists>t1 t2. result1 = Inr t1 \<and> result2 = Inr t2)
      \<and> map_option tk_cron (rp_findOne D i d2) = Some c2 \<and> map_option tk_cron (rg_getCronJob G (jobName i) r2) = Some c1"
  by (rule scheduler.overlap_stale[OF schedulerI[OF assms(1,2)] assms(3-10)])

text \<open>Storing an active task with an expression that is not valid is answered with an error, but its row stays, and from then on
  every restart of the service ends with an error too.\<close>

theorem invalid_cron_blocks_restart:
  assumes "task_table D" "job_registry G" "orElse (tc_isActive body) True" "\<not> validCron (tc_cron body)"
  shows "\<exists>e d1. storeTask validCron D G body (d, r) = (Inl e, d1, r) \<and> (\<exists>i. rp_findOne D i d = None \<and> rp_findOne D i d1 = Some (createTask i body))
    \<and> (\<forall>r0. \<exists>e. fst (onApplicationBootstrap validCron D G (d1, r0)) = Inl e)"
  by (rule scheduler.store_invalid[where validCron = validCron and body = body, OF schedulerI[OF assms(1,2)] assms(3,4)])

section \<open>Witnesses\<close>

definition aBody :: "string \<Rightarrow> task_create" where
  "aBody c = \<lparr> tc_endpoint = ''http://sync'', tc_cron = c, tc_method = None, tc_isActive = None \<rparr>"

lemma memory_start: "schedulerGood someCron memory_table memory_registry ((1, []), [])"
  by (simp add: schedulerGood_def inSync_def memory_table_def memory_registry_def wanted_def)

definition anIdleBody :: task_create where
  "anIdleBody = (aBody ''0 * * * *'')\<lparr> tc_isActive := Some False \<rparr>"

text \<open>After an inactive task is stored its job runs.\<close>

theorem scheduler_in_sync_witness:
  "\<exists>d r t u. snd (storeTask someCron memory_table memory_registry anIdleBody ((1, []), [])) = (d, r)
    \<and> rp_findOne memory_table 1 d = Some t \<and> \<not> tk_isActive t \<and> rg_getCronJob memory_registry (jobName 1) r = Some u"
proof -
  obtain d r where s: "snd (storeTask someCron memory_table memory_registry anIdleBody ((1, []), [])) = (d, r)" by (metis surj_pair)
  have "someCron (tc_cron anIdleBody)" by (simp add: anIdleBody_def aBody_def someCron_def)
  from serves_store[of someCron, OF this, of memory_table memory_registry "{}" "((1, []), [])"]
  have step: "serves someCron memory_table memory_registry ({}, ((1, []), [])) ({1}, d, r)"
    unfolding s by (simp add: anIdleBody_def orElse_def memory_table_def)
  have "rp_findOne memory_table 1 d = Some (createTask 1 anIdleBody)"
    using arg_cong[OF s, of fst] by (auto simp: storeTask_def memory_table_def createTask_def anIdleBody_def split: sum.splits)
  then show ?thesis
    using s scheduler_in_sync[OF memory_rows.task_table_axioms memory_jobs.job_registry_axioms memory_start
        r_into_rtranclp[of "serves someCron memory_table memory_registry", OF step], of 1]
    by (auto simp: createTask_def anIdleBody_def orElse_def)
qed

definition aRow :: "(int \<times> (int, task) js_map) \<times> (string, task) js_map" where
  "aRow = ((2, [(1, createTask 1 (aBody ''0 * * * *''))]), [(jobName 1, createTask 1 (aBody ''0 * * * *''))])"

lemma aRow_good: "schedulerGood someCron memory_table memory_registry aRow"
  by (auto simp: schedulerGood_def inSync_def memory_table_def memory_registry_def wanted_def aRow_def createTask_def aBody_def
      orElse_def someCron_def split: option.splits if_splits)

theorem overlapping_updates_stale_job_witness:
  "\<exists>r2 d2. map_option tk_cron (rp_findOne memory_table 1 d2) = Some ''2 * * * *''
    \<and> map_option tk_cron (rg_getCronJob memory_registry (jobName 1) r2) = Some ''1 * * * *''"
proof -
  have t: "rp_findOne memory_table 1 (fst aRow) = Some (createTask 1 (aBody ''0 * * * *''))" "tk_isActive (createTask 1 (aBody ''0 * * * *''))"
    by (simp_all add: memory_table_def aRow_def createTask_def aBody_def orElse_def)
  have v: "someCron ''1 * * * *''" "someCron ''2 * * * *''" "''1 * * * *'' \<noteq> ''2 * * * *''" by (simp_all add: someCron_def)
  have g: "schedulerGood someCron memory_table memory_registry (fst aRow, snd aRow)" using aRow_good by simp
  show ?thesis
    using overlapping_updates_stale_job[OF memory_rows.task_table_axioms memory_jobs.job_registry_axioms g t v refl refl]
    by (simp only: Let_def case_prod_beta) blast
qed

theorem invalid_cron_blocks_restart_witness:
  "\<exists>e d1. storeTask someCron memory_table memory_registry (aBody []) aRow = (Inl e, d1, snd aRow)
    \<and> (\<exists>e. fst (onApplicationBootstrap someCron memory_table memory_registry (d1, [])) = Inl e)"
  using invalid_cron_blocks_restart[OF memory_rows.task_table_axioms memory_jobs.job_registry_axioms, of "aBody []" someCron "fst aRow" "snd aRow"]
  by (auto simp: aBody_def orElse_def someCron_def)

end
