(* ===== verification/Multicall.thy ===== *)
theory Multicall
  imports Collections
begin

text \<open>
  Batches of contract calls: \<open>libs/common/src/web3provider/multicall.aggregator.ts\<close>, \<open>utils/multicall.ts\<close> and the
  construction of calls in \<open>multicall.abi.proxy.ts\<close>.  The encoder and decoder of the package \<open>web3\<close>, the contract that
  answers a batch and the numbers of \<open>bignumber.js\<close> are parameters.  A call is one value: what the code writes into the
  call object is a field of the call in the map that is returned.
\<close>

section \<open>Calls\<close>

datatype call_arg = ArgString string | ArgNumber int | ArgBool bool | ArgArray "call_arg list"

datatype sol_value = Missing | Scalar string | BigNum js_number | SolArray "sol_value list"

record abi_output =
  ao_name :: string
  ao_type :: string

record abi_item =
  ai_name :: string
  ai_inputs :: "string list"
  ai_outputs :: "abi_output list"

text \<open>The result of the decoder can be read by the index and by the name of an output.\<close>

datatype result_key = ByIndex nat | ByName string

datatype output_data = Single sol_value | Fields "(result_key, sol_value) js_map"

record call_data =
  ca_address :: string
  ca_abi :: abi_item
  ca_input :: "call_arg list option"
  ca_inputPlain :: "string option"
  ca_outputPlain :: "string option"
  ca_output :: "output_data option"

record web3 =
  w3_encodeFunctionCall :: "abi_item \<Rightarrow> call_arg list \<Rightarrow> string + string"
  w3_decodeParameters :: "abi_output list \<Rightarrow> string \<Rightarrow> string + (result_key, sol_value) js_map"
  w3_bigNumber :: "sol_value \<Rightarrow> js_number"

text \<open>A method of the proxy makes a call from the ABI of its name; an unknown name throws.\<close>

definition proxyCall :: "(string, abi_item) js_map \<Rightarrow> string \<Rightarrow> string \<Rightarrow> string \<Rightarrow> call_arg list \<Rightarrow> string + call_data" where
  "proxyCall abis className address propKey args = (case js_get abis propKey of
     None \<Rightarrow> Inl (''Missing ABI for call: '' @ className @ ''.'' @ propKey @ '' ('' @ address @ '')'')
   | Some abi \<Rightarrow> Inr \<lparr> ca_address = address, ca_abi = abi, ca_input = Some args, ca_inputPlain = None, ca_outputPlain = None, ca_output = None \<rparr>)"

section \<open>Decoding\<close>

fun toInternalDataType :: "web3 \<Rightarrow> string \<Rightarrow> sol_value \<Rightarrow> sol_value" where
  "toInternalDataType W type (SolArray vs) =
     (if CHR ''['' \<in> set type then SolArray (map (toInternalDataType W (hd (split_on (CHR ''['') type))) vs)
      else if str_includes type ''int'' then BigNum (w3_bigNumber W (SolArray vs)) else SolArray vs)"
| "toInternalDataType W type v = (if str_includes type ''int'' then BigNum (w3_bigNumber W v) else v)"

definition readResult :: "(result_key, sol_value) js_map \<Rightarrow> result_key \<Rightarrow> sol_value" where
  "readResult outputResult k = (case js_get outputResult k of Some v \<Rightarrow> v | None \<Rightarrow> Missing)"

fun decodeFields :: "web3 \<Rightarrow> abi_output list \<Rightarrow> nat \<Rightarrow> (result_key, sol_value) js_map \<Rightarrow> (result_key, sol_value) js_map \<Rightarrow> (result_key, sol_value) js_map" where
  "decodeFields W [] idx outputResult decoded = decoded"
| "decodeFields W (out # outs) idx outputResult decoded =
     decodeFields W outs (Suc idx) outputResult
       (js_put (js_put decoded (ByName (ao_name out)) (toInternalDataType W (ao_type out) (readResult outputResult (ByName (ao_name out)))))
          (ByIndex idx) (toInternalDataType W (ao_type out) (readResult outputResult (ByIndex idx))))"

definition decodeOutput :: "web3 \<Rightarrow> abi_item \<Rightarrow> (result_key, sol_value) js_map \<Rightarrow> output_data" where
  "decodeOutput W abi outputResult = (case ai_outputs abi of
     [out] \<Rightarrow> Single (toInternalDataType W (ao_type out) (readResult outputResult (ByIndex 0)))
   | outs \<Rightarrow> Fields (decodeFields W outs 0 outputResult []))"

section \<open>Batches\<close>

definition encodeCall :: "web3 \<Rightarrow> call_data \<Rightarrow> string + call_data" where
  "encodeCall W c = sum_bind (w3_encodeFunctionCall W (ca_abi c) (case ca_input c of Some args \<Rightarrow> args | None \<Rightarrow> []))
     (\<lambda>plain. Inr (c\<lparr> ca_inputPlain := Some plain \<rparr>))"

definition callIdOf :: "int \<Rightarrow> call_data \<Rightarrow> string" where
  "callIdOf chain c = concatStrings [show_int chain, ca_address c, case ca_inputPlain c of Some p \<Rightarrow> p | None \<Rightarrow> []]"

text \<open>From the calls under the labels of the caller to the distinct calls under their identifiers.\<close>

definition collectCall ::
  "web3 \<Rightarrow> int \<Rightarrow> (string, string) js_map \<times> (string, call_data) js_map \<Rightarrow> string \<times> call_data
    \<Rightarrow> string + (string, string) js_map \<times> (string, call_data) js_map" where
  "collectCall W chain = (\<lambda>(callLabelToCallIdMap, callsMap) (k, c). sum_bind (encodeCall W c) (\<lambda>c1.
     Inr (js_put callLabelToCallIdMap k (callIdOf chain c1), js_put callsMap (callIdOf chain c1) c1)))"

definition decodeCall :: "web3 \<Rightarrow> call_data \<Rightarrow> string option \<Rightarrow> string + call_data" where
  "decodeCall W c returned = (case returned of
     None \<Rightarrow> Inl ''TypeError''
   | Some plain \<Rightarrow> sum_bind (w3_decodeParameters W (ai_outputs (ca_abi c)) plain) (\<lambda>outputResult.
       Inr (c\<lparr> ca_outputPlain := Some plain, ca_output := Some (decodeOutput W (ca_abi c) outputResult) \<rparr>)))"

fun decodeAll :: "web3 \<Rightarrow> (string, call_data) js_map \<Rightarrow> string list \<Rightarrow> string + (string, call_data) js_map" where
  "decodeAll W [] returnData = Inr []"
| "decodeAll W ((key, c) # m) returnData =
     sum_bind (decodeCall W c (case returnData of r # _ \<Rightarrow> Some r | [] \<Rightarrow> None)) (\<lambda>c1.
     sum_bind (decodeAll W m (tl returnData)) (\<lambda>m1. Inr ((key, c1) # m1)))"

definition handleInBatches ::
  "web3 \<Rightarrow> ((string \<times> string) list \<Rightarrow> string + string list) \<Rightarrow> (string, call_data) js_map \<Rightarrow> int \<Rightarrow> string + (string, call_data) js_map" where
  "handleInBatches W aggregate calls chain =
     sum_bind (sum_foldl (collectCall W chain) ([], []) calls) (\<lambda>(callLabelToCallIdMap, callsMap).
     sum_bind (aggregate (map (\<lambda>(key, c). (ca_address c, case ca_inputPlain c of Some p \<Rightarrow> p | None \<Rightarrow> [])) callsMap)) (\<lambda>returnData.
     sum_bind (decodeAll W callsMap returnData) (\<lambda>done.
       Inr (concat (map (\<lambda>(receivedId, internalId). case js_get done internalId of Some c \<Rightarrow> [(receivedId, c)] | None \<Rightarrow> [])
         callLabelToCallIdMap)))))"

text \<open>An answer without data is read as \<open>null\<close>.\<close>

definition multiCall :: "web3 \<Rightarrow> ((string \<times> string) list \<Rightarrow> string + string list) \<Rightarrow> call_data \<Rightarrow> int \<Rightarrow> string + output_data option" where
  "multiCall W aggregate c chain = sum_bind (handleInBatches W aggregate [(''single-call'', c)] chain) (\<lambda>results.
     (case js_get results ''single-call'' of Some r \<Rightarrow> Inr (ca_output r) | None \<Rightarrow> Inl ''TypeError''))"

section \<open>Arrays of calls\<close>

definition json_string :: "string \<Rightarrow> string" where
  "json_string s = [CHR 0x22] @ concat (map (\<lambda>c. if c = CHR 0x22 \<or> c = CHR 0x5C then [CHR 0x5C, c] else [c]) s) @ [CHR 0x22]"

fun json_arg :: "call_arg \<Rightarrow> string" where
  "json_arg (ArgString s) = json_string s"
| "json_arg (ArgNumber n) = show_int n"
| "json_arg (ArgBool b) = (if b then ''true'' else ''false'')"
| "json_arg (ArgArray xs) = ''['' @ join_with '','' (map json_arg xs) @ '']''"

definition json_args :: "call_arg list option \<Rightarrow> string" where
  "json_args args = (case args of Some xs \<Rightarrow> json_arg (ArgArray xs) | None \<Rightarrow> ''null'')"

definition callKey :: "call_data \<Rightarrow> string" where
  "callKey c = concatStrings [ca_address c, ai_name (ca_abi c), json_args (ca_input c)]"

definition callArray ::
  "web3 \<Rightarrow> ((string \<times> string) list \<Rightarrow> string + string list) \<Rightarrow> call_data list \<Rightarrow> int \<Rightarrow> string + output_data option list" where
  "callArray W aggregate calls chain =
     (let callMap = foldl (\<lambda>m c. js_put m (callKey c) c) [] calls
      in sum_bind (handleInBatches W aggregate callMap chain) (\<lambda>resultsMap.
           sum_map (\<lambda>c. case js_get resultsMap (callKey c) of Some r \<Rightarrow> Inr (ca_output r) | None \<Rightarrow> Inl ''TypeError'') calls))"

section \<open>The contract\<close>

text \<open>The contract answers the calls of a batch in their order, each as the node answers it alone.\<close>

locale multicall_contract =
  fixes aggregate :: "(string \<times> string) list \<Rightarrow> string + string list" and node :: "string \<times> string \<Rightarrow> string"
  assumes in_order: "aggregate xs = Inr ys \<Longrightarrow> ys = map node xs"

section \<open>Results of a batch\<close>

definition collected ::
  "web3 \<Rightarrow> int \<Rightarrow> (string \<times> call_data) list \<Rightarrow> (string, string) js_map \<times> (string, call_data) js_map \<Rightarrow> bool" where
  "collected W chain ps s \<longleftrightarrow> js_wf (fst s) \<and> set (js_keys (fst s)) = fst ` set ps
     \<and> (\<forall>(k, c)\<in>set ps. \<exists>c1. encodeCall W c = Inr c1 \<and> js_get (fst s) k = Some (callIdOf chain c1) \<and> js_get (snd s) (callIdOf chain c1) \<noteq> None)
     \<and> (\<forall>i d. js_get (snd s) i = Some d \<longrightarrow> callIdOf chain d = i \<and> (\<exists>(k, c)\<in>set ps. encodeCall W c = Inr d))"

lemma collected_step:
  assumes "collected W chain ps s" "collectCall W chain s (k, c) = Inr s'" "k \<notin> fst ` set ps"
  shows "collected W chain (ps @ [(k, c)]) s'"
proof -
  obtain labels m where s: "s = (labels, m)" by (cases s)
  obtain c1 where c1: "encodeCall W c = Inr c1" and s': "s' = (js_put labels k (callIdOf chain c1), js_put m (callIdOf chain c1) c1)"
    using assms(2) by (auto simp: collectCall_def s sum_bind_Inr_iff)
  have old: "js_get (js_put labels k (callIdOf chain c1)) k' = js_get labels k'" if "k' \<in> fst ` set ps" for k'
    using that assms(3) by auto
  have 1: "\<exists>e1. encodeCall W e = Inr e1 \<and> js_get (fst s') k' = Some (callIdOf chain e1) \<and> js_get (snd s') (callIdOf chain e1) \<noteq> None"
    if "(k', e) \<in> set (ps @ [(k, c)])" for k' e
  proof (cases "(k', e) \<in> set ps")
    case True
    then have "k' \<in> fst ` set ps" by force
    then have "js_get (fst s') k' = js_get labels k'" by (simp only: s' fst_conv old)
    moreover obtain e1 where "encodeCall W e = Inr e1" "js_get labels k' = Some (callIdOf chain e1)" "js_get m (callIdOf chain e1) \<noteq> None"
      using assms(1) True by (auto simp: collected_def s)
    ultimately show ?thesis by (simp add: s')
  next
    case False
    with that have "k' = k" "e = c" by auto
    then show ?thesis by (simp add: s' c1)
  qed
  have 2: "callIdOf chain d = i \<and> (\<exists>(k, c)\<in>set (ps @ [(k, c)]). encodeCall W c = Inr d)" if "js_get (snd s') i = Some d" for i d
    using that assms(1) c1 by (auto simp: s' collected_def s split: if_splits)
  have 3: "js_wf (fst s')" "set (js_keys (fst s')) = fst ` set (ps @ [(k, c)])"
    using assms(1) by (simp_all add: collected_def s s')
  show ?thesis unfolding collected_def using 1 2 3 by blast
qed

lemma collected_all:
  "sum_foldl (collectCall W chain) s xs = Inr s' \<Longrightarrow> collected W chain ps s \<Longrightarrow> distinct (map fst (ps @ xs)) \<Longrightarrow> collected W chain (ps @ xs) s'"
proof (induction xs arbitrary: s ps)
  case (Cons x xs)
  obtain k c where x: "x = (k, c)" by (cases x)
  obtain s1 where 1: "collectCall W chain s (k, c) = Inr s1" "sum_foldl (collectCall W chain) s1 xs = Inr s'"
    using Cons.prems(1) by (auto simp: x sum_bind_Inr_iff)
  have "k \<notin> fst ` set ps" using Cons.prems(3) by (auto simp: x)
  from Cons.IH[OF 1(2) collected_step[OF Cons.prems(2) 1(1) this]] Cons.prems(3) show ?case by (simp add: x)
qed simp

lemma decodeAll_get:
  "decodeAll W m (map (\<lambda>kc. f (snd kc)) m) = Inr done \<Longrightarrow> js_get m i = Some d \<Longrightarrow>
    \<exists>d'. js_get done i = Some d' \<and> decodeCall W d (Some (f d)) = Inr d'"
proof (induction m arbitrary: "done")
  case (Cons kc m)
  obtain k c where kc: "kc = (k, c)" by (cases kc)
  obtain c1 m1 where 1: "decodeCall W c (Some (f c)) = Inr c1" "decodeAll W m (map (\<lambda>kc. f (snd kc)) m) = Inr m1" "done = (k, c1) # m1"
    using Cons.prems(1) by (auto simp: kc sum_bind_Inr_iff)
  show ?case using Cons.IH[OF 1(2)] Cons.prems(2) 1 by (auto simp: kc split: if_splits)
qed simp

lemma response_get:
  "js_get labels k = Some i \<Longrightarrow> js_get m i = Some c \<Longrightarrow> js_wf labels \<Longrightarrow>
    js_get (concat (map (\<lambda>(receivedId, internalId). case js_get m internalId of Some c \<Rightarrow> [(receivedId, c)] | None \<Rightarrow> []) labels)) k = Some c"
proof (induction labels)
  case (Cons x labels)
  obtain k' i' where x: "x = (k', i')" by (cases x)
  show ?case using Cons by (cases "js_get m i'") (auto simp: x js_wf_def split: if_splits)
qed simp

lemma underscore_split:
  assumes "a @ ''_'' @ p = b @ ''_'' @ q" "CHR ''_'' \<notin> set a" "CHR ''_'' \<notin> set b"
  shows "a = b \<and> p = q"
proof -
  have cut: "takeWhile (\<lambda>c. c \<noteq> CHR ''_'') (x @ CHR ''_'' # y) = x" if "CHR ''_'' \<notin> set x" for x y
    using that by (induction x) auto
  from assms cut[of a p] cut[of b q] have "a = b" by simp
  with assms(1) show ?thesis by simp
qed

lemma callIdOf_same:
  assumes "callIdOf chain c = callIdOf chain d" "CHR ''_'' \<notin> set (ca_address c)" "CHR ''_'' \<notin> set (ca_address d)"
    and "ca_inputPlain c = Some p" "ca_inputPlain d = Some q"
  shows "ca_address c = ca_address d \<and> p = q"
  using underscore_split[of "ca_address c" p "ca_address d" q] assms by (simp add: callIdOf_def concatStrings_def)

text \<open>The decoded output of a call, read alone.\<close>

definition singleOutput :: "web3 \<Rightarrow> (string \<times> string \<Rightarrow> string) \<Rightarrow> call_data \<Rightarrow> string + output_data" where
  "singleOutput W node c = sum_bind (encodeCall W c) (\<lambda>c1.
     sum_bind (w3_decodeParameters W (ai_outputs (ca_abi c)) (node (ca_address c, case ca_inputPlain c1 of Some p \<Rightarrow> p | None \<Rightarrow> [])))
       (\<lambda>out. Inr (decodeOutput W (ca_abi c) out)))"

definition sameOutputs :: "web3 \<Rightarrow> int \<Rightarrow> call_data list \<Rightarrow> bool" where
  "sameOutputs W chain cs \<longleftrightarrow> (\<forall>c\<in>set cs. CHR ''_'' \<notin> set (ca_address c)) \<and>
     (\<forall>c\<in>set cs. \<forall>d\<in>set cs. \<forall>c1 d1. encodeCall W c = Inr c1 \<and> encodeCall W d = Inr d1 \<and> callIdOf chain c1 = callIdOf chain d1
        \<longrightarrow> ai_outputs (ca_abi c) = ai_outputs (ca_abi d))"

lemma encodeCall_fields:
  "encodeCall W c = Inr c1 \<Longrightarrow> ca_address c1 = ca_address c \<and> ca_abi c1 = ca_abi c \<and> (\<exists>p. ca_inputPlain c1 = Some p)"
  by (auto simp: encodeCall_def sum_bind_Inr_iff)

lemma decodeOutput_outputs: "ai_outputs a = ai_outputs b \<Longrightarrow> decodeOutput W a r = decodeOutput W b r"
  by (simp add: decodeOutput_def)

text \<open>When the contract answers the calls of a batch in their order, every label gets the output that its call has alone, although
  equal calls are sent only once: provided that calls with the same address and encoded input declare the same outputs.\<close>

lemma batch_outputs:
  assumes "multicall_contract aggregate node" "handleInBatches W aggregate calls chain = Inr res"
    and "js_wf calls" "sameOutputs W chain (map snd calls)" "js_get calls k = Some c"
  shows "\<exists>r out. js_get res k = Some r \<and> singleOutput W node c = Inr out \<and> ca_output r = Some out"
proof -
  let ?f = "\<lambda>d. node (ca_address d, case ca_inputPlain d of Some p \<Rightarrow> p | None \<Rightarrow> [])"
  obtain labels m ret dn where run: "sum_foldl (collectCall W chain) ([], []) calls = Inr (labels, m)"
      "aggregate (map (\<lambda>(key, c). (ca_address c, case ca_inputPlain c of Some p \<Rightarrow> p | None \<Rightarrow> [])) m) = Inr ret"
      "decodeAll W m ret = Inr dn"
      "res = concat (map (\<lambda>(receivedId, internalId). case js_get dn internalId of Some c \<Rightarrow> [(receivedId, c)] | None \<Rightarrow> []) labels)"
    using assms(2) by (auto simp: handleInBatches_def sum_bind_Inr_iff)
  have "collected W chain [] ([], [])" by (simp add: collected_def js_keys_def)
  then have col: "collected W chain calls (labels, m)" using collected_all[OF run(1), of "[]"] assms(3) by (simp add: js_wf_def)
  have mem: "(k, c) \<in> set calls" using assms(5) by (rule map_of_SomeD)
  then obtain c1 where c1: "encodeCall W c = Inr c1" "js_get labels k = Some (callIdOf chain c1)" "js_get m (callIdOf chain c1) \<noteq> None"
    using col by (auto simp: collected_def)
  then obtain d where d: "js_get m (callIdOf chain c1) = Some d" by blast
  have "callIdOf chain d = callIdOf chain c1 \<and> (\<exists>(k, c)\<in>set calls. encodeCall W c = Inr d)"
    using col d unfolding collected_def snd_conv by blast
  then obtain k' e where e: "(k', e) \<in> set calls" "encodeCall W e = Inr d" "callIdOf chain d = callIdOf chain c1" by blast
  have ret: "ret = map (\<lambda>kc. ?f (snd kc)) m" using multicall_contract.in_order[OF assms(1) run(2)] by (simp add: case_prod_beta o_def)
  obtain d' where d': "js_get dn (callIdOf chain c1) = Some d'" "decodeCall W d (Some (?f d)) = Inr d'"
    using decodeAll_get[of W m ?f dn, OF _ d] run(3) ret by auto
  have res: "js_get res k = Some d'"
    unfolding run(4) using response_get[OF c1(2) d'(1)] col by (simp add: collected_def)
  have outs: "ai_outputs (ca_abi c) = ai_outputs (ca_abi e)"
    using assms(4) mem e c1(1) unfolding sameOutputs_def by (metis image_eqI set_map snd_conv)
  obtain p q where pq: "ca_inputPlain c1 = Some p" "ca_inputPlain d = Some q" using encodeCall_fields c1(1) e(2) by blast
  have flds: "ca_address c1 = ca_address c" "ca_address d = ca_address e" "ca_abi d = ca_abi e"
    using encodeCall_fields c1(1) e(2) by blast+
  have "CHR ''_'' \<notin> set (ca_address c)" "CHR ''_'' \<notin> set (ca_address e)"
    using assms(4) mem e(1) unfolding sameOutputs_def by (metis image_eqI set_map snd_conv)+
  then have "ca_address e = ca_address c \<and> q = p"
    using callIdOf_same[OF e(3) _ _ pq(2,1)] flds by simp
  then have "?f d = node (ca_address c, p)" using pq flds by simp
  then obtain out where out: "w3_decodeParameters W (ai_outputs (ca_abi e)) (node (ca_address c, p)) = Inr out"
      "ca_output d' = Some (decodeOutput W (ca_abi e) out)"
    using d'(2) flds by (auto simp: decodeCall_def sum_bind_Inr_iff)
  then have "singleOutput W node c = Inr (decodeOutput W (ca_abi e) out)"
    using c1(1) pq(1) by (simp add: singleOutput_def outs decodeOutput_outputs[OF outs])
  then show ?thesis using res out(2) by blast
qed

section \<open>Results of an array of calls\<close>

lemma keyed_get:
  "js_get (foldl (\<lambda>m c. js_put m (callKey c) c) m cs) k =
    (case find (\<lambda>d. callKey d = k) (rev cs) of Some d \<Rightarrow> Some d | None \<Rightarrow> js_get m k)"
proof (induction cs rule: rev_induct)
  case (snoc c cs)
  then show ?case by (auto split: option.splits)
qed simp

lemma keyed_wf: "js_wf m \<Longrightarrow> js_wf (foldl (\<lambda>m c. js_put m (callKey c) c) m cs)"
  by (induction cs arbitrary: m) simp_all

lemma keyed_values: "(k, c) \<in> set (foldl (\<lambda>m c. js_put m (callKey c) c) [] cs) \<Longrightarrow> c \<in> set cs"
proof -
  assume a: "(k, c) \<in> set (foldl (\<lambda>m c. js_put m (callKey c) c) [] cs)"
  have "js_get (foldl (\<lambda>m c. js_put m (callKey c) c) [] cs) k = Some c"
    using a keyed_wf[of "[]" cs] by (simp add: js_wf_get_iff)
  then show ?thesis by (auto simp: keyed_get split: option.splits dest!: find_SomeD)
qed

lemma array_outputs:
  assumes "multicall_contract aggregate node" "callArray W aggregate calls chain = Inr results" "sameOutputs W chain calls"
  shows "list_all2 (\<lambda>c r. \<exists>d out. find (\<lambda>d. callKey d = callKey c) (rev calls) = Some d
    \<and> singleOutput W node d = Inr out \<and> r = Some out) calls results"
proof -
  let ?m = "foldl (\<lambda>m c. js_put m (callKey c) c) [] calls"
  obtain res where r: "handleInBatches W aggregate ?m chain = Inr res"
      "list_all2 (\<lambda>c y. (case js_get res (callKey c) of Some r \<Rightarrow> Inr (ca_output r) | None \<Rightarrow> Inl ''TypeError'') = Inr y) calls results"
    using assms(2) by (auto simp: callArray_def Let_def sum_bind_Inr_iff sum_map_Inr_iff)
  have "set (map snd ?m) \<subseteq> set calls" using keyed_values by fastforce
  then have same: "sameOutputs W chain (map snd ?m)" using assms(3) unfolding sameOutputs_def by blast
  have one: "\<exists>d out. find (\<lambda>d. callKey d = callKey c) (rev calls) = Some d \<and> singleOutput W node d = Inr out \<and> y = Some out"
    if "c \<in> set calls" "(case js_get res (callKey c) of Some r \<Rightarrow> Inr (ca_output r) | None \<Rightarrow> Inl ''TypeError'') = Inr y" for c y
  proof -
    have "find (\<lambda>d. callKey d = callKey c) (rev calls) \<noteq> None" using that(1) unfolding find_None_iff by auto
    then obtain d where d: "find (\<lambda>d. callKey d = callKey c) (rev calls) = Some d" by blast
    then have get: "js_get ?m (callKey c) = Some d" by (simp add: keyed_get)
    obtain x out where "js_get res (callKey c) = Some x" "singleOutput W node d = Inr out" "ca_output x = Some out"
      using batch_outputs[OF assms(1) r(1) keyed_wf same get] by auto
    then show ?thesis using d that(2) by auto
  qed
  show ?thesis by (rule list.rel_mono_strong[OF r(2)]) (use one in auto)
qed

text \<open>The results of an array of calls come in the order of the calls, and each is the output that the last call with the same key
  has alone.  The key is the address, the name of the function and the arguments: calls of two functions of one name with equal
  arguments both get the output of the later one.\<close>

theorem callArray_outputs:
  assumes "multicall_contract aggregate node" "callArray W aggregate calls chain = Inr results" "sameOutputs W chain calls" "i < length calls"
  shows "length results = length calls \<and> (\<exists>d out. find (\<lambda>d. callKey d = callKey (calls ! i)) (rev calls) = Some d
    \<and> singleOutput W node d = Inr out \<and> results ! i = Some out)"
  using array_outputs[OF assms(1-3)] assms(4) by (auto simp: list_all2_conv_all_nth)

text \<open>Only one level of an array is converted: the elements of an array of arrays are read as one number each.\<close>

lemma nested_array_read_as_number:
  "toInternalDataType W ''uint256[][]'' (SolArray [SolArray vs]) = SolArray [BigNum (w3_bigNumber W (SolArray vs))]"
  by (simp add: str_includes_def)

section \<open>Witnesses\<close>

definition aWeb3 :: web3 where
  "aWeb3 = \<lparr> w3_encodeFunctionCall = (\<lambda>abi args. Inr (ai_name abi @ ''('' @ concat (ai_inputs abi) @ '')'' @ json_arg (ArgArray args))),
     w3_decodeParameters = (\<lambda>outs plain. Inr [(ByIndex 0, Scalar plain)]), w3_bigNumber = (\<lambda>v. None) \<rparr>"

definition aNode :: "string \<times> string \<Rightarrow> string" where
  "aNode = (\<lambda>(a, p). p @ ''@'' @ a)"

definition aCall :: "string \<Rightarrow> string list \<Rightarrow> call_data" where
  "aCall name ins = \<lparr> ca_address = ''0xpool'', ca_abi = \<lparr> ai_name = name, ai_inputs = ins, ai_outputs = [\<lparr> ao_name = '''', ao_type = ''bytes'' \<rparr>] \<rparr>,
     ca_input = Some [], ca_inputPlain = None, ca_outputPlain = None, ca_output = None \<rparr>"

interpretation aNode: multicall_contract "\<lambda>xs. Inr (map aNode xs)" aNode
  by unfold_locales simp

lemmas aNode_contract = aNode.multicall_contract_axioms

lemma aCall_same: "sameOutputs aWeb3 1 [aCall f [], aCall g [], aCall h []]"
  by (auto simp: sameOutputs_def aCall_def)

theorem callArray_outputs_witness:
  "\<exists>results out. callArray aWeb3 (\<lambda>xs. Inr (map aNode xs)) [aCall ''f'' [], aCall ''g'' [], aCall ''f'' []] 1 = Inr results
    \<and> length results = 3 \<and> singleOutput aWeb3 aNode (aCall ''g'' []) = Inr out \<and> results ! 1 = Some out"
proof -
  have "\<exists>results. callArray aWeb3 (\<lambda>xs. Inr (map aNode xs)) [aCall ''f'' [], aCall ''g'' [], aCall ''f'' []] 1 = Inr results"
    by (simp add: callArray_def handleInBatches_def collectCall_def encodeCall_def aWeb3_def aCall_def callKey_def callIdOf_def concatStrings_def
        json_args_def decodeCall_def)
  then obtain results where r: "callArray aWeb3 (\<lambda>xs. Inr (map aNode xs)) [aCall ''f'' [], aCall ''g'' [], aCall ''f'' []] 1 = Inr results" ..
  have key: "find (\<lambda>d. callKey d = callKey (aCall ''g'' [])) (rev [aCall ''f'' [], aCall ''g'' [], aCall ''f'' []]) = Some (aCall ''g'' [])"
    by (simp add: callKey_def concatStrings_def aCall_def)
  show ?thesis using callArray_outputs[OF aNode_contract r aCall_same, of 1] r key by auto
qed

end
