(* ===== verification/TxParsing.thy ===== *)
theory TxParsing
  imports Collections
begin

text \<open>
  The consumer of migrated transactions: \<open>jobs/migration_transactions_consumer\<close>.  The decoder of topics, the numbers of
  \<open>web3\<close>, the node, the price service and the table of assets are parameters.  Amounts are exact; the rows of the
  insert statement are records, and the quoting of their last column is modelled separately.  An error is a message, with the
  event that is published before it where there is one.
\<close>

section \<open>Data\<close>

record mig_event =
  me_address :: "string option"
  me_topic1 :: "string option"
  me_topic2 :: "string option"
  me_topic3 :: "string option"
  me_data :: "string option"
  me_chainId :: "int option"

record mig_transaction =
  mt_hash :: string
  mt_blockNumber :: int
  mt_from :: "string option"
  mt_to :: "string option"
  mt_value :: string
  mt_gasPrice :: js_number
  mt_timestamp :: string
  mt_events :: "mig_event list"
  mt_gasUsed :: js_number
  mt_gasUsedUsd :: js_number
  mt_chainId :: "int option"

datatype token_type = OUT | IN

datatype token_operation = RECEIVE | SEND | EXCHANGE

record sub_transaction =
  st_address :: string
  st_amount :: rat
  st_price :: js_number
  st_symbol :: string
  st_tokenAddress :: string
  st_decimals :: nat
  st_from :: "string option"
  st_to :: "string option"
  st_type :: token_type

record asset_entity =
  ae_address :: string
  ae_symbol :: string
  ae_decimals :: nat
  ae_isDataPresent :: bool

record new_asset =
  na_chainId :: int
  na_contractAddress :: string
  na_userAddress :: "string option"

datatype parse_error = Thrown string | ThrownAfter new_asset string

record tx_row =
  tr_hash :: string
  tr_address :: string
  tr_sender :: "string option"
  tr_destination :: "string option"
  tr_gasUsed :: js_number
  tr_feeUsd :: js_number
  tr_operation :: token_operation
  tr_chainId :: int
  tr_isVisible :: bool
  tr_subTransactions :: "sub_transaction list"

text \<open>What the consumer uses of the world outside.\<close>

record tx_world =
  tw_decodeAddress :: "string \<Rightarrow> parse_error + string"
  tw_toBN :: "string option \<Rightarrow> parse_error + int"
  tw_fromDecimal :: "string \<Rightarrow> string"
  tw_gasUsed :: "string \<Rightarrow> parse_error + js_number"
  tw_historicalPrices :: "string list \<Rightarrow> string \<Rightarrow> int option \<Rightarrow> parse_error + (string, (string, js_number) js_map) js_map"
  tw_findAssets :: "string list \<Rightarrow> int \<Rightarrow> asset_entity list"

definition CHAIN_ID_ETH :: int where
  "CHAIN_ID_ETH = 1"

definition ETH_ADDRESS :: string where
  "ETH_ADDRESS = ''0x0000000000000000000000000000000000000000''"

definition ETH_TRANSFER_TOPIC :: string where
  "ETH_TRANSFER_TOPIC = ''0xddf252ad1be2c89b69c2b068fc378daa952ba7f163c4a11628f55a4df523b3ef''"

definition ZERO_DATA :: string where
  "ZERO_DATA = ''0x''"

text \<open>A chain number of zero counts as absent.\<close>

definition chainOr :: "int option \<Rightarrow> int" where
  "chainOr c = (case c of Some i \<Rightarrow> if i = 0 then CHAIN_ID_ETH else i | None \<Rightarrow> CHAIN_ID_ETH)"

section \<open>Transfers\<close>

definition truthyText :: "string option \<Rightarrow> bool" where
  "truthyText t \<longleftrightarrow> t \<noteq> None \<and> t \<noteq> Some []"

definition fromHexToAddress :: "tx_world \<Rightarrow> string option \<Rightarrow> parse_error + string option" where
  "fromHexToAddress W topic = (if truthyText topic then sum_bind (tw_decodeAddress W (the topic)) (\<lambda>a. Inr (Some (to_lower a))) else Inr None)"

definition addToSetAddress :: "string option \<Rightarrow> string list \<Rightarrow> string list" where
  "addToSetAddress topic uniqueAddresses = (if truthyText topic then set_add uniqueAddresses (the topic) else uniqueAddresses)"

definition modifiedTransfer :: "tx_world \<Rightarrow> mig_event list \<times> string list \<Rightarrow> mig_event \<Rightarrow> parse_error + mig_event list \<times> string list" where
  "modifiedTransfer W = (\<lambda>(transfers, uniqueAddresses) event.
     if me_topic1 event \<noteq> Some ETH_TRANSFER_TOPIC then Inr (transfers, uniqueAddresses)
     else sum_bind (fromHexToAddress W (me_topic2 event)) (\<lambda>topic2.
          sum_bind (fromHexToAddress W (me_topic3 event)) (\<lambda>topic3.
          (case me_address event of
             None \<Rightarrow> Inl (Thrown ''TypeError'')
           | Some a \<Rightarrow> Inr (transfers @ [event\<lparr> me_topic2 := topic2, me_topic3 := topic3, me_address := Some (to_lower a) \<rparr>],
               addToSetAddress topic3 (addToSetAddress topic2 uniqueAddresses))))))"

definition getModifiedTransactionTransfers :: "tx_world \<Rightarrow> mig_transaction \<Rightarrow> parse_error + mig_event list \<times> string list" where
  "getModifiedTransactionTransfers W transaction = sum_foldl (modifiedTransfer W) ([], []) (mt_events transaction)"

definition getEthTransactionTransfer :: "tx_world \<Rightarrow> mig_transaction \<Rightarrow> mig_event" where
  "getEthTransactionTransfer W t = \<lparr> me_address = Some ETH_ADDRESS, me_topic1 = None, me_topic2 = map_option to_lower (mt_from t),
     me_topic3 = map_option to_lower (mt_to t), me_data = Some (tw_fromDecimal W (mt_value t)), me_chainId = None \<rparr>"

section \<open>Amounts and prices\<close>

definition decimalsDivider :: "nat \<Rightarrow> rat" where
  "decimalsDivider decimals = (if decimals = 0 then 1 else 10 ^ decimals)"

definition fromHexToNumber :: "tx_world \<Rightarrow> string option \<Rightarrow> nat \<Rightarrow> parse_error + rat" where
  "fromHexToNumber W hexData decimals = sum_bind (tw_toBN W hexData) (\<lambda>n. Inr (of_int n / decimalsDivider decimals))"

definition modifyTransaction :: "mig_transaction \<Rightarrow> js_number \<Rightarrow> js_number \<Rightarrow> parse_error + mig_transaction" where
  "modifyTransaction t ethPrice gasUsed =
     (if \<not> truthy_num ethPrice then Inl (Thrown ''Price-service is not working correctly!'')
      else Inr (t\<lparr> mt_from := map_option to_lower (mt_from t), mt_to := map_option to_lower (mt_to t), mt_gasUsed := gasUsed,
        mt_gasUsedUsd := num_mul (num_div (num_mul gasUsed (mt_gasPrice t)) (Some (decimalsDivider 18))) ethPrice \<rparr>))"

definition priceAt :: "(string, (string, js_number) js_map) js_map \<Rightarrow> string \<Rightarrow> string \<Rightarrow> parse_error + js_number" where
  "priceAt prices a timestamp = (case js_get prices a of None \<Rightarrow> Inl (Thrown ''TypeError'')
     | Some ps \<Rightarrow> Inr (case js_get ps timestamp of Some p \<Rightarrow> p | None \<Rightarrow> None))"

definition getAssetsPricesAndModifyTransaction ::
  "tx_world \<Rightarrow> mig_transaction \<Rightarrow> string list \<Rightarrow> js_number \<Rightarrow> parse_error + (string, (string, js_number) js_map) js_map \<times> mig_transaction" where
  "getAssetsPricesAndModifyTransaction W t tokenAddresses gasUsed =
     sum_bind (tw_historicalPrices W tokenAddresses (mt_timestamp t) (mt_chainId t)) (\<lambda>prices.
     sum_bind (priceAt prices ETH_ADDRESS (mt_timestamp t)) (\<lambda>ethPrice.
     sum_bind (modifyTransaction t ethPrice gasUsed) (\<lambda>t1. Inr (prices, t1))))"

section \<open>Sub-transactions\<close>

definition getSubTransactions ::
  "tx_world \<Rightarrow> asset_entity \<Rightarrow> js_number \<Rightarrow> mig_event \<Rightarrow> token_type \<Rightarrow> sub_transaction list \<Rightarrow> parse_error + sub_transaction list" where
  "getSubTransactions W asset price event type subs =
     (if \<not> ae_isDataPresent asset
      then Inl (ThrownAfter \<lparr> na_chainId = chainOr (me_chainId event), na_contractAddress = ae_address asset, na_userAddress = me_topic2 event \<rparr>
        ''GetSubTransaction method - incorrect data for AssetsNewEntity object!'')
      else sum_bind (fromHexToNumber W (me_data event) (ae_decimals asset)) (\<lambda>amount.
        (let owner = (if type = OUT then me_topic2 event else me_topic3 event)
         in Inr (if truthyText owner
           then subs @ [\<lparr> st_address = the owner, st_amount = amount, st_price = price, st_symbol = ae_symbol asset,
             st_tokenAddress = ae_address asset, st_decimals = ae_decimals asset,
             st_from = (if truthyText (me_topic2 event) then me_topic2 event else None),
             st_to = (if truthyText (me_topic3 event) then me_topic3 event else None), st_type = type \<rparr>]
           else subs))))"

definition eventSubTransactions ::
  "tx_world \<Rightarrow> asset_entity list \<Rightarrow> (string, (string, js_number) js_map) js_map \<Rightarrow> string \<Rightarrow> sub_transaction list \<Rightarrow> mig_event
    \<Rightarrow> parse_error + sub_transaction list" where
  "eventSubTransactions W assets prices timestamp subs event =
     (case find (\<lambda>a. Some (ae_address a) = me_address event) assets of
        None \<Rightarrow> Inr subs
      | Some asset \<Rightarrow>
          if me_data event = Some ZERO_DATA then Inr subs
          else sum_bind (priceAt prices (ae_address asset) timestamp) (\<lambda>price.
               sum_bind (getSubTransactions W asset price event IN subs) (\<lambda>subs1.
               getSubTransactions W asset price event OUT subs1)))"

definition getArrayOfSubTransactions ::
  "tx_world \<Rightarrow> mig_event list \<Rightarrow> mig_transaction \<Rightarrow> js_number \<Rightarrow> parse_error + sub_transaction list \<times> mig_transaction" where
  "getArrayOfSubTransactions W events t gasUsed =
     (let tokenAddresses = set_add (js_set (map (\<lambda>e. the (me_address e)) events)) ETH_ADDRESS
      in sum_bind (getAssetsPricesAndModifyTransaction W t tokenAddresses gasUsed) (\<lambda>(prices, t1).
           (let assets = tw_findAssets W tokenAddresses (chainOr (mt_chainId t1))
            in sum_bind (sum_foldl (eventSubTransactions W assets prices (mt_timestamp t1)) [] events) (\<lambda>subs. Inr (subs, t1)))))"

section \<open>Rows\<close>

definition rowOf :: "mig_transaction \<Rightarrow> sub_transaction list \<Rightarrow> string \<Rightarrow> tx_row" where
  "rowOf t subs a =
     (let own = filter (\<lambda>s. a = st_address s) subs
      in \<lparr> tr_hash = mt_hash t, tr_address = a, tr_sender = mt_from t, tr_destination = mt_to t, tr_gasUsed = mt_gasUsed t,
           tr_feeUsd = mt_gasUsedUsd t,
           tr_operation = (if list_ex (\<lambda>s. st_type s = OUT) own then (if list_ex (\<lambda>s. st_type s = IN) own then EXCHANGE else SEND) else RECEIVE),
           tr_chainId = chainOr (mt_chainId t), tr_isVisible = (own \<noteq> []), tr_subTransactions = own \<rparr>)"

definition getInsertRows :: "mig_transaction \<Rightarrow> string list \<Rightarrow> sub_transaction list \<Rightarrow> tx_row list" where
  "getInsertRows t uniqueAddresses subs = map (rowOf t subs) uniqueAddresses"

text \<open>Without a receipt nothing is written.\<close>

definition parseTransactions :: "tx_world \<Rightarrow> mig_transaction \<Rightarrow> parse_error + tx_row list option" where
  "parseTransactions W t = sum_bind (tw_gasUsed W (mt_hash t)) (\<lambda>gasUsed.
     if \<not> truthy_num gasUsed then Inr None
     else sum_bind (getModifiedTransactionTransfers W t) (\<lambda>(transfers, addrs).
       (let withEth = truthy_num (text_number (mt_value t));
            addrs1 = (if withEth then addToSetAddress (map_option to_lower (mt_to t)) (addToSetAddress (map_option to_lower (mt_from t)) addrs) else addrs);
            transfers1 = (if withEth then transfers @ [getEthTransactionTransfer W t] else transfers)
        in sum_bind (getArrayOfSubTransactions W transfers1 t gasUsed) (\<lambda>(subs, t1).
             Inr (Some (getInsertRows t1 addrs1 subs))))))"

text \<open>An error gives the message back to the queue.\<close>

datatype acknowledgement = Ack | Nack

definition migrateTransactions :: "tx_world \<Rightarrow> (tx_row list \<Rightarrow> bool) \<Rightarrow> mig_transaction \<Rightarrow> acknowledgement" where
  "migrateTransactions W insertRows t = (case parseTransactions W t of
     Inl e \<Rightarrow> Nack | Inr None \<Rightarrow> Ack | Inr (Some rows) \<Rightarrow> if insertRows rows then Ack else Nack)"

section \<open>Quoting\<close>

definition replaceAll :: "string \<Rightarrow> char \<Rightarrow> string \<Rightarrow> string" where
  "replaceAll s search replace = join_with replace (split_on search s)"

text \<open>How a database reads the text after an opening quote: a doubled quote is one, a single one ends it.\<close>

fun readLiteral :: "string \<Rightarrow> (string \<times> string) option" where
  "readLiteral [] = None"
| "readLiteral [c] = (if c = CHR 0x27 then Some ([], []) else None)"
| "readLiteral (c # d # s) =
     (if c = CHR 0x27 then (if d = CHR 0x27 then map_option (\<lambda>(t, r). (CHR 0x27 # t, r)) (readLiteral s) else Some ([], d # s))
      else map_option (\<lambda>(t, r). (c # t, r)) (readLiteral (d # s)))"

section \<open>Quoted text reads back\<close>

lemma join_split_cons:
  "join_with q (split_on sep (c # s)) = (if c = sep then q @ join_with q (split_on sep s) else c # join_with q (split_on sep s))"
proof -
  obtain w ws where "split_on sep s = w # ws" by (cases "split_on sep s") auto
  then show ?thesis by (cases ws) auto
qed

lemma readLiteral_cons:
  "c \<noteq> CHR 0x27 \<Longrightarrow> s \<noteq> [] \<Longrightarrow> readLiteral (c # s) = map_option (\<lambda>(t, r). (c # t, r)) (readLiteral s)"
  by (cases s) auto

text \<open>Whatever text the last column of a row holds, quotes included, the database reads back exactly that text: the doubling of
  the quotes neither ends the literal early nor changes it.\<close>

theorem quoted_text_reads_back:
  assumes "r = [] \<or> hd r \<noteq> CHR 0x27"
  shows "readLiteral (replaceAll s (CHR 0x27) [CHR 0x27, CHR 0x27] @ CHR 0x27 # r) = Some (s, r)"
proof (induction s)
  case Nil
  then show ?case using assms by (cases r) (simp_all add: replaceAll_def)
next
  case (Cons c s)
  show ?case
  proof (cases "c = CHR 0x27")
    case True
    have "replaceAll (c # s) (CHR 0x27) [CHR 0x27, CHR 0x27] = CHR 0x27 # CHR 0x27 # replaceAll s (CHR 0x27) [CHR 0x27, CHR 0x27]"
      unfolding replaceAll_def join_split_cons by (simp add: True)
    then show ?thesis using Cons True by simp
  next
    case False
    have "replaceAll (c # s) (CHR 0x27) [CHR 0x27, CHR 0x27] = c # replaceAll s (CHR 0x27) [CHR 0x27, CHR 0x27]"
      unfolding replaceAll_def join_split_cons by (simp add: False)
    then show ?thesis using Cons readLiteral_cons[OF False] by simp
  qed
qed

theorem quoted_text_reads_back_witness:
  "readLiteral (replaceAll (''[it'' @ CHR 0x27 # ''s]'') (CHR 0x27) [CHR 0x27, CHR 0x27] @ CHR 0x27 # '')'') = Some (''[it'' @ CHR 0x27 # ''s]'', '')'')"
  by (rule quoted_text_reads_back) simp

section \<open>Received and sent amounts\<close>

definition flow :: "string \<Rightarrow> sub_transaction list \<Rightarrow> rat" where
  "flow token subs = sum_list (map (\<lambda>s. if st_tokenAddress s = token then (if st_type s = IN then st_amount s else - st_amount s) else 0) subs)"

lemma flow_simps [simp]: "flow token [] = 0" "flow token (xs @ ys) = flow token xs + flow token ys"
  "flow token (s # xs) = (if st_tokenAddress s = token then (if st_type s = IN then st_amount s else - st_amount s) else 0) + flow token xs"
  by (simp_all add: flow_def)

lemma flow_mset: "mset xs = mset ys \<Longrightarrow> flow token xs = flow token ys"
  unfolding flow_def sum_mset_sum_list[symmetric] mset_map by simp

text \<open>A transfer that names its sender and its receiver.\<close>

definition namesBoth :: "sub_transaction \<Rightarrow> bool" where
  "namesBoth s \<longleftrightarrow> st_from s \<noteq> None \<and> st_to s \<noteq> None"

definition endsOf :: "mig_event \<Rightarrow> string set" where
  "endsOf e = {a. a \<noteq> [] \<and> (me_topic2 e = Some a \<or> me_topic3 e = Some a)}"

lemma eventSubTransactions_flow:
  assumes "eventSubTransactions W assets prices ts subs e = Inr subs'"
  shows "flow token (filter namesBoth subs') = flow token (filter namesBoth subs) \<and> st_address ` set subs' \<subseteq> st_address ` set subs \<union> endsOf e"
  using assms by (auto simp: eventSubTransactions_def getSubTransactions_def sum_bind_Inr_iff Let_def namesBoth_def endsOf_def truthyText_def
      split: option.splits if_splits) (metis imageI)+

lemma eventsSubTransactions_flow:
  "sum_foldl (eventSubTransactions W assets prices ts) subs es = Inr subs' \<Longrightarrow>
    flow token (filter namesBoth subs') = flow token (filter namesBoth subs) \<and> st_address ` set subs' \<subseteq> st_address ` set subs \<union> (\<Union>e\<in>set es. endsOf e)"
proof (induction es arbitrary: subs)
  case (Cons e es)
  then obtain subs1 where 1: "eventSubTransactions W assets prices ts subs e = Inr subs1"
      "sum_foldl (eventSubTransactions W assets prices ts) subs1 es = Inr subs'"
    by (auto simp: sum_bind_Inr_iff)
  from eventSubTransactions_flow[OF 1(1), of token] Cons.IH[OF 1(2)] show ?case by (simp, blast)
qed simp

text \<open>The addresses of a transaction are those of its transfers.\<close>

definition knownEnds :: "mig_event list \<times> string list \<Rightarrow> bool" where
  "knownEnds s \<longleftrightarrow> distinct (snd s) \<and> (\<forall>e\<in>set (fst s). endsOf e \<subseteq> set (snd s))"

lemma addToSetAddress_set: "set (addToSetAddress a as) = (if truthyText a then insert (the a) (set as) else set as)"
  by (simp add: addToSetAddress_def)

lemma addToSetAddress_distinct: "distinct as \<Longrightarrow> distinct (addToSetAddress a as)"
  by (simp add: addToSetAddress_def)

lemma to_lower_Nil [simp]: "to_lower s = [] \<longleftrightarrow> s = []"
  by (cases s) simp_all

lemma knownEnds_add:
  "knownEnds (ts, as) \<Longrightarrow> knownEnds (ts @ [e], addToSetAddress (me_topic3 e) (addToSetAddress (me_topic2 e) as))"
  by (auto simp: knownEnds_def endsOf_def addToSetAddress_set addToSetAddress_distinct truthyText_def)

lemma modifiedTransfer_known:
  assumes "modifiedTransfer W s e = Inr s'" "knownEnds s"
  shows "knownEnds s'"
proof (cases "me_topic1 e = Some ETH_TRANSFER_TOPIC")
  case False
  then show ?thesis using assms(1,2) by (cases s) (simp add: modifiedTransfer_def)
next
  case True
  obtain ts as where s: "s = (ts, as)" by (cases s)
  obtain t2 t3 a where "s' = (ts @ [e\<lparr> me_topic2 := t2, me_topic3 := t3, me_address := Some (to_lower a) \<rparr>], addToSetAddress t3 (addToSetAddress t2 as))"
    using assms(1) True by (auto simp: modifiedTransfer_def s sum_bind_Inr_iff split: option.splits)
  then show ?thesis
    using knownEnds_add[of ts as "e\<lparr> me_topic2 := t2, me_topic3 := t3, me_address := Some (to_lower a) \<rparr>"] assms(2) by (simp add: s)
qed

lemma modifiedTransfers_known:
  "sum_foldl (modifiedTransfer W) s es = Inr s' \<Longrightarrow> knownEnds s \<Longrightarrow> knownEnds s'"
proof (induction es arbitrary: s)
  case (Cons e es)
  then obtain s1 where 1: "modifiedTransfer W s e = Inr s1" "sum_foldl (modifiedTransfer W) s1 es = Inr s'"
    by (auto simp: sum_bind_Inr_iff)
  show ?case using Cons.IH[OF 1(2) modifiedTransfer_known[OF 1(1)]] Cons.prems by simp
qed simp

lemma rows_flow:
  assumes "distinct as" "st_address ` set subs \<subseteq> set as"
  shows "sum_list (map (\<lambda>r. flow token (tr_subTransactions r)) (getInsertRows t as subs)) = flow token subs"
proof -
  have 1: "map tr_subTransactions (getInsertRows t as subs) = map (\<lambda>a. filter (\<lambda>s. st_address s = a) subs) as"
    by (auto simp: getInsertRows_def rowOf_def Let_def intro: filter_cong)
  have "sum_list (map (\<lambda>r. flow token (tr_subTransactions r)) rs) = flow token (concat (map tr_subTransactions rs))" for rs
    by (induction rs) simp_all
  from this[of "getInsertRows t as subs"] have "sum_list (map (\<lambda>r. flow token (tr_subTransactions r)) (getInsertRows t as subs))
      = flow token (concat (map (\<lambda>a. filter (\<lambda>s. st_address s = a) subs) as))" unfolding 1 .
  also have "\<dots> = flow token (filter (\<lambda>s. st_address s \<in> set as) subs)"
    by (rule flow_mset) (rule mset_by_key[OF assms(1)])
  also have "filter (\<lambda>s. st_address s \<in> set as) subs = subs"
    using assms(2) by (intro filter_True) auto
  finally show ?thesis .
qed

lemma rows_flow_filter:
  assumes "distinct as" "st_address ` set subs \<subseteq> set as"
  shows "sum_list (map (\<lambda>r. flow token (filter P (tr_subTransactions r))) (getInsertRows t as subs)) = flow token (filter P subs)"
proof -
  have "map (\<lambda>r. flow token (filter P (tr_subTransactions r))) (getInsertRows t as subs)
      = map (\<lambda>r. flow token (tr_subTransactions r)) (getInsertRows t as (filter P subs))"
    by (auto simp: getInsertRows_def rowOf_def Let_def filter_filter conj_commute intro!: arg_cong[where f = "flow token"] filter_cong)
  then show ?thesis using rows_flow[of as "filter P subs" token t] assms by auto
qed

lemma flow_split: "flow token subs = flow token (filter P subs) + flow token (filter (\<lambda>s. \<not> P s) subs)"
  by (induction subs) auto

lemma parseTransactions_run:
  assumes "parseTransactions W t = Inr (Some rows)" "getModifiedTransactionTransfers W t = Inr (ts, as)"
  shows "\<exists>g subs t1.
    getArrayOfSubTransactions W (if truthy_num (text_number (mt_value t)) then ts @ [getEthTransactionTransfer W t] else ts) t g
      = Inr (subs, t1) \<and>
    rows = getInsertRows t1 (if truthy_num (text_number (mt_value t))
      then addToSetAddress (map_option to_lower (mt_to t)) (addToSetAddress (map_option to_lower (mt_from t)) as) else as) subs"
proof -
  obtain g where g: "tw_gasUsed W (mt_hash t) = Inr g" "truthy_num g"
    using assms(1) by (cases "tw_gasUsed W (mt_hash t)") (auto simp: parseTransactions_def split: if_splits)
  show ?thesis
  proof (cases "getArrayOfSubTransactions W
      (if truthy_num (text_number (mt_value t)) then ts @ [getEthTransactionTransfer W t] else ts) t g")
    case (Inl e)
    then show ?thesis using assms g by (simp add: parseTransactions_def Let_def)
  next
    case (Inr r)
    obtain subs t1 where r: "r = (subs, t1)" by (cases r)
    have "parseTransactions W t = Inr (Some (getInsertRows t1 (if truthy_num (text_number (mt_value t))
      then addToSetAddress (map_option to_lower (mt_to t)) (addToSetAddress (map_option to_lower (mt_from t)) as) else as) subs))"
      using g assms(2) Inr unfolding r by (simp only: parseTransactions_def sum_bind.simps Let_def case_prod_conv if_False not_True_eq_False)
    then have "rows = getInsertRows t1 (if truthy_num (text_number (mt_value t))
      then addToSetAddress (map_option to_lower (mt_to t)) (addToSetAddress (map_option to_lower (mt_from t)) as) else as) subs"
      using assms(1) by simp
    with Inr r show ?thesis by (intro exI conjI) simp_all
  qed
qed

text \<open>C37: The rows of a transaction have distinct addresses.  Each transfer that names its sender and its receiver is booked once for each of them: over
  all rows these received and sent amounts are equal for every token.  What the rows do not balance are the transfers that name one end only, such as the
  value of a transaction that creates a contract, which is booked as sent and received by nobody.\<close>

theorem transfers_balanced:
  assumes "parseTransactions W t = Inr (Some rows)"
  shows "distinct (map tr_address rows)
    \<and> sum_list (map (\<lambda>r. flow token (filter (\<lambda>s. st_from s \<noteq> None \<and> st_to s \<noteq> None) (tr_subTransactions r))) rows) = 0
    \<and> sum_list (map (\<lambda>r. flow token (tr_subTransactions r)) rows)
      = sum_list (map (\<lambda>r. flow token (filter (\<lambda>s. st_from s = None \<or> st_to s = None) (tr_subTransactions r))) rows)"
proof -
  define eth where "eth = truthy_num (text_number (mt_value t))"
  obtain ts as where tr: "getModifiedTransactionTransfers W t = Inr (ts, as)"
    using assms(1) by (auto simp: parseTransactions_def sum_bind_Inr_iff split: if_splits)
  let ?as = "if eth then addToSetAddress (map_option to_lower (mt_to t)) (addToSetAddress (map_option to_lower (mt_from t)) as) else as"
  let ?ts = "if eth then ts @ [getEthTransactionTransfer W t] else ts"
  obtain g subs t1 where run: "getArrayOfSubTransactions W ?ts t g = Inr (subs, t1)" "rows = getInsertRows t1 ?as subs"
    using parseTransactions_run[OF assms(1) tr] unfolding eth_def by blast
  have known: "knownEnds (ts, as)"
    by (rule modifiedTransfers_known[OF tr[unfolded getModifiedTransactionTransfers_def]]) (simp add: knownEnds_def)
  have known1: "knownEnds (?ts, ?as)"
    using known knownEnds_add[OF known, of "getEthTransactionTransfer W t"] by (simp add: getEthTransactionTransfer_def)
  obtain assets prices where fold: "sum_foldl (eventSubTransactions W assets prices (mt_timestamp t1)) [] ?ts = Inr subs"
    using run(1) by (auto simp: getArrayOfSubTransactions_def sum_bind_Inr_iff Let_def)
  note b = eventsSubTransactions_flow[OF fold, of token]
  have "(\<Union>e\<in>set ?ts. endsOf e) \<subseteq> set ?as" and dist: "distinct ?as" using known1 unfolding knownEnds_def fst_conv snd_conv by blast+
  moreover have "st_address ` set subs \<subseteq> (\<Union>e\<in>set ?ts. endsOf e)" using b by (simp only: list.set(1) image_empty Un_empty_left)
  ultimately have addresses: "st_address ` set subs \<subseteq> set ?as" by (simp only: subset_trans)
  have both: "flow token (filter namesBoth subs) = 0" using b by simp
  have one: "(\<lambda>s. \<not> namesBoth s) = (\<lambda>s. st_from s = None \<or> st_to s = None)" by (simp add: namesBoth_def fun_eq_iff)
  have "map tr_address rows = ?as" by (simp add: run(2) getInsertRows_def rowOf_def Let_def o_def)
  moreover have "sum_list (map (\<lambda>r. flow token (filter namesBoth (tr_subTransactions r))) rows) = 0"
    unfolding run(2) rows_flow_filter[OF dist addresses] by (rule both)
  moreover have "sum_list (map (\<lambda>r. flow token (tr_subTransactions r)) rows) = sum_list (map (\<lambda>r. flow token (filter (\<lambda>s. \<not> namesBoth s) (tr_subTransactions r))) rows)"
    unfolding run(2) rows_flow_filter[OF dist addresses] rows_flow[OF dist addresses] using flow_split[of token subs namesBoth] both by simp
  moreover have "namesBoth = (\<lambda>s. st_from s \<noteq> None \<and> st_to s \<noteq> None)" by (simp add: namesBoth_def fun_eq_iff)
  ultimately show ?thesis using dist unfolding one by (simp only: simp_thms)
qed

definition demoTxWorld :: tx_world where
  "demoTxWorld = \<lparr> tw_decodeAddress = (\<lambda>s. if s = [] then Inl (Thrown ''Error'') else Inr s), tw_toBN = (\<lambda>_. Inr 16), tw_fromDecimal = (\<lambda>s. ''0x'' @ s),
     tw_gasUsed = (\<lambda>_. Inr (Some 21000)),
     tw_historicalPrices = (\<lambda>tokens ts c. Inr (map (\<lambda>a. (a, [(ts, Some 2)])) tokens)),
     tw_findAssets = (\<lambda>tokens c. map (\<lambda>a. \<lparr> ae_address = a, ae_symbol = ''T'', ae_decimals = 0, ae_isDataPresent = True \<rparr>) tokens) \<rparr>"

definition demoMigTransaction :: mig_transaction where
  "demoMigTransaction = \<lparr> mt_hash = ''h'', mt_blockNumber = 1, mt_from = Some ''a'', mt_to = Some ''c'', mt_value = ''5'',
     mt_gasPrice = Some 1, mt_timestamp = ''9'',
     mt_events = [\<lparr> me_address = Some ''t'', me_topic1 = Some ETH_TRANSFER_TOPIC, me_topic2 = Some ''a'', me_topic3 = Some ''b'',
       me_data = Some ''0x10'', me_chainId = None \<rparr>],
     mt_gasUsed = None, mt_gasUsedUsd = None, mt_chainId = None \<rparr>"

definition demoTxRows :: "tx_row list" where
  "demoTxRows = (case parseTransactions demoTxWorld demoMigTransaction of Inr (Some rows) \<Rightarrow> rows | _ \<Rightarrow> [])"

lemma demoTxRows: "parseTransactions demoTxWorld demoMigTransaction = Inr (Some demoTxRows)" "map tr_address demoTxRows = [''a'', ''b'', ''c'']"
  by code_simp+

text \<open>The same transaction creates a contract: the value that is sent is received by nobody.\<close>

definition demoCreation :: "tx_row list" where
  "demoCreation = (case parseTransactions demoTxWorld (demoMigTransaction\<lparr> mt_to := None \<rparr>) of Inr (Some rows) \<Rightarrow> rows | _ \<Rightarrow> [])"

lemma demoCreation: "parseTransactions demoTxWorld (demoMigTransaction\<lparr> mt_to := None \<rparr>) = Inr (Some demoCreation)" "map tr_address demoCreation = [''a'', ''b'']"
    "flow ETH_ADDRESS (concat (map (\<lambda>r. filter (\<lambda>s. st_from s = None \<or> st_to s = None) (tr_subTransactions r)) demoCreation)) \<noteq> 0"
  by code_simp+

theorem transfers_balanced_witness:
  "distinct (map tr_address demoTxRows) \<and> sum_list (map (\<lambda>r. flow ''t'' (filter (\<lambda>s. st_from s \<noteq> None \<and> st_to s \<noteq> None) (tr_subTransactions r))) demoTxRows) = 0
    \<and> sum_list (map (\<lambda>r. flow ETH_ADDRESS (filter (\<lambda>s. st_from s \<noteq> None \<and> st_to s \<noteq> None) (tr_subTransactions r))) demoCreation) = 0
    \<and> sum_list (map (\<lambda>r. flow ETH_ADDRESS (tr_subTransactions r)) demoCreation)
      = sum_list (map (\<lambda>r. flow ETH_ADDRESS (filter (\<lambda>s. st_from s = None \<or> st_to s = None) (tr_subTransactions r))) demoCreation)"
  using transfers_balanced[OF demoTxRows(1), of "''t''"] transfers_balanced[OF demoCreation(1), of ETH_ADDRESS] by blast

end
