(* ===== verification/FeatureResults.thy ===== *)
theory FeatureResults
  imports IntegrationsV2
begin

text \<open>
  The first version of the interface: \<open>getProtocolFeatures\<close> and what it calls in
  \<open>apps/integration/src/modules/protocols/protocol.service.ts\<close>, the raw data of the adapters in
  \<open>protocols/dataProviderProtocol.ts\<close>, \<open>common/utils/object.ts\<close>, and \<open>getProtocolFeaturesData\<close> in
  \<open>integrations.service.ts\<close>.  The services that answer with tokens and prices are parameters.  Positions are changed in
  place by the code and returned changed here; after a thrown error the code uses none of them.  The texts of staked amounts are
  only read as numbers and are numbers here; the texts of pools are kept, since some of them are tested for being empty.
\<close>

section \<open>Positions of pools\<close>

record erc20 =
  er_address :: string
  er_name :: "string option"
  er_symbol :: "string option"
  er_decimals :: js_num

record raw_token = erc20 +
  rt_reserve :: "string option"
  rt_value :: js_num
  rt_amount :: "string option"
  rt_balance :: "string option"
  rt_priceUSD :: js_num

record pool_info =
  pi_address :: string
  pi_name :: "string option"

record liquidity_position =
  rp_lpToken :: erc20
  rp_pool :: "pool_info option"
  rp_address :: "string option"
  rp_poolTokens :: "raw_token list option"
  rp_rewards :: "raw_token list"

text \<open>A formatted token; what is absent or empty in the source is \<open>null\<close>.\<close>

record pool_token =
  pt_address :: "string option"
  pt_name :: "string option"
  pt_symbol :: "string option"
  pt_reserve :: "string option"
  pt_value :: js_num
  pt_balance :: "string option"
  pt_price :: js_num
  pt_decimals :: js_num

record pool_feature =
  pf_address :: "string option"
  pf_name :: "string option"
  pf_lpToken :: erc20
  pf_TVL :: js_number
  pf_feeRate :: js_num
  pf_userValue :: js_number
  pf_userShare :: js_number
  pf_tokens :: "pool_token list"
  pf_rewards :: "pool_token list"

record 'i feature_result =
  fr_totalValue :: js_number
  fr_items :: "'i list"

section \<open>Updates of objects\<close>

definition truthyString :: "string option \<Rightarrow> bool" where
  "truthyString t \<longleftrightarrow> t \<noteq> None \<and> t \<noteq> Some []"

definition textOrNull :: "string option \<Rightarrow> string option" where
  "textOrNull t = (if truthyString t then t else None)"

definition numOrNull :: "js_num \<Rightarrow> js_num" where
  "numOrNull n = (if truthyValue n then n else Null)"

text \<open>The strategy \<open>fill\<close>: the fields of the source that hold something replace those of the target.\<close>

definition fillToken :: "'a erc20_scheme \<Rightarrow> erc20 \<Rightarrow> 'a erc20_scheme" where
  "fillToken target source = target
     \<lparr> er_address := (if er_address source \<noteq> [] then er_address source else er_address target),
       er_name := (if truthyString (er_name source) then er_name source else er_name target),
       er_symbol := (if truthyString (er_symbol source) then er_symbol source else er_symbol target),
       er_decimals := (if truthyValue (er_decimals source) then er_decimals source else er_decimals target) \<rparr>"

text \<open>The strategy \<open>default\<close> with the dictionary of pool tokens.\<close>

definition defaultToken :: "raw_token \<Rightarrow> pool_token" where
  "defaultToken t = \<lparr> pt_address = textOrNull (Some (er_address t)), pt_name = textOrNull (er_name t), pt_symbol = textOrNull (er_symbol t),
     pt_reserve = textOrNull (rt_reserve t), pt_value = numOrNull (rt_value t), pt_balance = textOrNull (rt_amount t),
     pt_price = numOrNull (rt_priceUSD t), pt_decimals = numOrNull (er_decimals t) \<rparr>"

section \<open>Data that the adapters leave out\<close>

text \<open>An error with its message and the text it turns into.\<close>

record js_error =
  je_message :: string
  je_text :: string

definition typeError :: js_error where
  "typeError = \<lparr> je_message = ''TypeError'', je_text = ''TypeError'' \<rparr>"

definition plainError :: "string \<Rightarrow> js_error" where
  "plainError message = \<lparr> je_message = message, je_text = ''Error: '' @ message \<rparr>"

text \<open>The answer of the assets service: tokens, or the errors it reports.\<close>

datatype assets_answer = Assets "erc20 list" | AssetErrors "string list"

type_synonym assets_reader = "string list \<Rightarrow> int \<Rightarrow> js_error + assets_answer"

type_synonym prices_reader = "string list \<Rightarrow> int \<Rightarrow> js_error + (string, js_num) js_map option"

definition getAllTokenInfo :: "assets_reader \<Rightarrow> string list \<Rightarrow> int \<Rightarrow> js_error + assets_answer" where
  "getAllTokenInfo getAssets addresses chainId =
     (case getAssets addresses chainId of
        Inl e \<Rightarrow> Inl (plainError (if startsWith (je_message e) ''connect ECONNREFUSED'' then ''connect ECONNREFUSED Asset Service''
          else ''GetAllTokenInfoError: '' @ [CHR 0x0a] @ '' '' @ je_text e))
      | Inr a \<Rightarrow> Inr a)"

definition getAllTokenPrices :: "prices_reader \<Rightarrow> string list \<Rightarrow> int \<Rightarrow> js_error + (string, js_num) js_map option" where
  "getAllTokenPrices getPrices addresses chainId =
     (case getPrices addresses chainId of
        Inl e \<Rightarrow> Inl (plainError (if startsWith (je_message e) ''connect ECONNREFUSED'' then ''connect ECONNREFUSED Price Service''
          else ''getAllTokenPrices: '' @ [CHR 0x0a] @ '' '' @ je_text e))
      | Inr a \<Rightarrow> Inr a)"

definition missesData :: "raw_token \<Rightarrow> bool" where
  "missesData t \<longleftrightarrow> \<not> truthyString (er_name t) \<or> \<not> truthyString (er_symbol t) \<or> \<not> truthyValue (er_decimals t)"

definition missesPrice :: "raw_token \<Rightarrow> bool" where
  "missesPrice t \<longleftrightarrow> \<not> truthyValue (rt_priceUSD t)"

definition poolTokensOf :: "liquidity_position list \<Rightarrow> raw_token list" where
  "poolTokensOf pools = concat (map (\<lambda>p. case rp_poolTokens p of Some ts \<Rightarrow> ts | None \<Rightarrow> []) pools)"

definition missingData :: "liquidity_position list \<Rightarrow> string list" where
  "missingData pools = js_set (map er_address (filter missesData (poolTokensOf pools)))"

definition missingPrices :: "liquidity_position list \<Rightarrow> string list" where
  "missingPrices pools = js_set (map er_address (filter missesPrice (poolTokensOf pools)))"

definition mapPoolTokens :: "(raw_token \<Rightarrow> raw_token) \<Rightarrow> liquidity_position \<Rightarrow> liquidity_position" where
  "mapPoolTokens f p = p\<lparr> rp_poolTokens := map_option (map f) (rp_poolTokens p) \<rparr>"

text \<open>The tokens of the pools are taken from the end of the answer, by their position.\<close>

definition fillPool :: "liquidity_position \<times> erc20 \<Rightarrow> js_error + liquidity_position" where
  "fillPool = (\<lambda>(p, lpToken). case rp_pool p of
       None \<Rightarrow> Inl typeError
     | Some i \<Rightarrow> Inr (p\<lparr> rp_pool := Some (i\<lparr> pi_name := er_name lpToken \<rparr>), rp_lpToken := fillToken (rp_lpToken p) lpToken \<rparr>))"

definition fillMissed :: "erc20 list \<Rightarrow> raw_token \<Rightarrow> raw_token" where
  "fillMissed fullTokens t = (if missesData t then foldl fillToken t (filter (\<lambda>a. er_address a = er_address t) fullTokens) else t)"

definition applyAssets :: "liquidity_position list \<Rightarrow> erc20 list \<Rightarrow> js_error + liquidity_position list" where
  "applyAssets pools data =
     (let n = int (length pools);
          lpTokens = js_slice data (- n) (int (length data));
          fullTokens = js_slice data 0 (int (length data) - n)
      in sum_bind (sum_map fillPool (zip pools lpTokens)) (\<lambda>filled.
           if list_ex (\<lambda>a. er_address a \<notin> set (missingData pools)) fullTokens then Inl typeError
           else Inr (map (mapPoolTokens (fillMissed fullTokens)) (filled @ drop (length lpTokens) pools))))"

definition pricedToken :: "(string, js_num) js_map \<Rightarrow> raw_token \<Rightarrow> raw_token" where
  "pricedToken prices t = (case js_get prices (er_address t) of
       Some price \<Rightarrow> if missesPrice t then t\<lparr> rt_priceUSD := price \<rparr> else t
     | None \<Rightarrow> t)"

definition applyPrices :: "liquidity_position list \<Rightarrow> liquidity_position list \<Rightarrow> (string, js_num) js_map option \<Rightarrow> js_error + liquidity_position list" where
  "applyPrices asked pools prices = (case prices of
       None \<Rightarrow> Inr pools
     | Some m \<Rightarrow> if list_ex (\<lambda>a. a \<notin> set (missingPrices asked)) (js_keys m) then Inl typeError
         else Inr (map (mapPoolTokens (pricedToken m)) pools))"

text \<open>Both requests are made before either answer is read.\<close>

definition handleMissedData ::
  "assets_reader \<Rightarrow> prices_reader \<Rightarrow> liquidity_position list \<Rightarrow> int \<Rightarrow> js_error + liquidity_position list \<times> string list" where
  "handleMissedData getAssets getPrices rawPools chainId =
     (let data = missingData rawPools; prices = missingPrices rawPools
      in if rawPools = [] then Inr (rawPools, [])
         else sum_bind (if data = [] then Inr (rawPools, [])
             else case getAllTokenInfo getAssets (data @ map (\<lambda>p. er_address (rp_lpToken p)) rawPools) chainId of
                 Inr (Assets tokens) \<Rightarrow> sum_bind (applyAssets rawPools tokens) (\<lambda>ps. Inr (ps, []))
               | Inr (AssetErrors es) \<Rightarrow> Inr (rawPools, es)
               | Inl e \<Rightarrow> Inr (rawPools, [je_message e])) (\<lambda>(pools, errors).
           if prices = [] then Inr (pools, errors)
           else case getAllTokenPrices getPrices prices chainId of
               Inr m \<Rightarrow> sum_bind (applyPrices rawPools pools m) (\<lambda>ps. Inr (ps, errors))
             | Inl e \<Rightarrow> Inr (pools, errors @ [je_message e])))"

section \<open>Pools\<close>

definition numberOfText :: "string option \<Rightarrow> js_number" where
  "numberOfText t = (case t of Some s \<Rightarrow> text_number s | None \<Rightarrow> Some 0)"

text \<open>A token of a pool adds its value to that of the user, and its reserve to that of the pool.\<close>

definition formatToken :: "raw_token \<Rightarrow> pool_token" where
  "formatToken token =
     (let formatted = defaultToken token;
          balance = (if truthyString (rt_balance token) then rt_balance token else pt_balance formatted)
      in formatted\<lparr> pt_balance := balance, pt_value := Val (num_mul (numberOfText balance) (numberOf (pt_price formatted))) \<rparr>)"

definition tokenTVL :: "pool_token \<Rightarrow> js_number" where
  "tokenTVL t = (if pt_reserve t \<noteq> None then num_mul (numberOfText (pt_reserve t)) (numberOf (pt_price t)) else Some 0)"

definition formatReward :: "raw_token \<Rightarrow> pool_token" where
  "formatReward token =
     (let amount = (case rt_amount token of Some s \<Rightarrow> text_number s | None \<Rightarrow> None)
      in \<lparr> pt_address = Some (er_address token), pt_name = er_name token, pt_symbol = er_symbol token, pt_reserve = rt_reserve token,
           pt_value = (if truthy_num amount \<and> truthyValue (rt_priceUSD token) then Val (num_mul amount (numberOf (rt_priceUSD token))) else Null),
           pt_balance = rt_amount token, pt_price = rt_priceUSD token, pt_decimals = er_decimals token \<rparr>)"

definition formatPool :: "js_num \<Rightarrow> liquidity_position \<Rightarrow> js_error + pool_feature" where
  "formatPool feeRate inputPool = (case rp_poolTokens inputPool of
       None \<Rightarrow> Inl typeError
     | Some poolTokens \<Rightarrow>
         (let tokens = map formatToken poolTokens;
              rewards = map formatReward (rp_rewards inputPool);
              userValue = foldl (\<lambda>v t. num_add v (numberOf (pt_value t))) (Some 0) (tokens @ rewards);
              TVL = foldl (\<lambda>v t. num_add v (tokenTVL t)) (Some 0) tokens
          in Inr \<lparr> pf_address = (case rp_pool inputPool of Some i \<Rightarrow> Some (pi_address i) | None \<Rightarrow> rp_address inputPool),
               pf_name = (case rp_pool inputPool of Some i \<Rightarrow> pi_name i | None \<Rightarrow> None), pf_lpToken = rp_lpToken inputPool,
               pf_TVL = TVL, pf_feeRate = feeRate, pf_userValue = userValue, pf_userShare = num_div userValue TVL,
               pf_tokens = tokens, pf_rewards = rewards \<rparr>))"

text \<open>A pool without value for the user is left out, but what it is worth enters the total.\<close>

definition reducePool ::
  "js_num \<Rightarrow> pool_feature list \<times> js_number \<Rightarrow> liquidity_position \<Rightarrow> js_error + pool_feature list \<times> js_number" where
  "reducePool feeRate = (\<lambda>(resultArray, totalValue) inputPool. sum_bind (formatPool feeRate inputPool) (\<lambda>outPool.
     Inr (if truthy_num (pf_userValue outPool) then resultArray @ [outPool] else resultArray, num_add totalValue (pf_userValue outPool))))"

definition transformPools ::
  "assets_reader \<Rightarrow> prices_reader \<Rightarrow> liquidity_position list \<Rightarrow> int \<Rightarrow> js_num \<Rightarrow> js_error + pool_feature feature_result \<times> string list" where
  "transformPools getAssets getPrices rawPools chainId feeRate =
     sum_bind (handleMissedData getAssets getPrices rawPools chainId) (\<lambda>(pools, errors).
     sum_bind (sum_foldl (reducePool feeRate) ([], Some 0) pools) (\<lambda>(items, totalValue).
       Inr (\<lparr> fr_totalValue = totalValue, fr_items = items \<rparr>, errors)))"

section \<open>Staking\<close>

record held_token =
  ht_address :: string
  ht_reserve :: js_number
  ht_balance :: js_number
  ht_price :: js_num
  ht_value :: js_num

record staked_token =
  sk_address :: string
  sk_totalSupply :: js_number
  sk_balance :: js_number
  sk_price :: js_num
  sk_value :: js_num
  sk_tokens :: "held_token list option"

record staking_reward =
  sw_address :: string
  sw_price :: js_num
  sw_balance :: js_number
  sw_value :: js_num

record legacy_staking =
  ls_stakingToken :: staked_token
  ls_rewardToken :: staking_reward

text \<open>\<open>Number(price) || null\<close>, where a price that is missing is no number.\<close>

definition priceOrNull :: "(string, js_num) js_map \<Rightarrow> string \<Rightarrow> js_num" where
  "priceOrNull prices a = numOrNull (Val (numberOf (case js_get prices a of Some p \<Rightarrow> p | None \<Rightarrow> Undef)))"

lemma numOrNull_None [simp]: "numOrNull (Val None) = Null"
  by (simp add: numOrNull_def truthy_num_def)

definition stakeHeldToken :: "(string, js_num) js_map \<Rightarrow> js_number \<Rightarrow> held_token \<Rightarrow> held_token" where
  "stakeHeldToken prices poolShare token =
     (let price = priceOrNull prices (ht_address token); tokenBalance = num_mul poolShare (ht_reserve token)
      in token\<lparr> ht_price := price, ht_balance := tokenBalance, ht_value := Val (num_mul tokenBalance (numberOf price)) \<rparr>)"

definition stakePosition :: "(string, js_num) js_map \<Rightarrow> js_num \<Rightarrow> legacy_staking \<Rightarrow> legacy_staking" where
  "stakePosition prices rewardTokenPrice p =
     (let st = ls_stakingToken p; rw = ls_rewardToken p; price = js_get prices (sk_address st);
          poolShare = num_div (sk_balance st) (sk_totalSupply st)
      in \<lparr> ls_stakingToken = st\<lparr> sk_price := priceOrNull prices (sk_address st),
             sk_value := numOrNull (Val (num_mul (numberOf (case price of Some q \<Rightarrow> q | None \<Rightarrow> Undef)) (sk_balance st))),
             sk_tokens := map_option (map (stakeHeldToken prices poolShare)) (sk_tokens st) \<rparr>,
           ls_rewardToken = rw\<lparr> sw_price := rewardTokenPrice, sw_value := Val (num_mul (numberOf rewardTokenPrice) (sw_balance rw)) \<rparr> \<rparr>)"

definition stakingAddresses :: "legacy_staking list \<Rightarrow> string list" where
  "stakingAddresses positions = concat (map (\<lambda>p. sk_address (ls_stakingToken p) #
     (case sk_tokens (ls_stakingToken p) of Some ts \<Rightarrow> map ht_address ts | None \<Rightarrow> [])) positions)"

text \<open>
  All positions are given the price of the reward of the first one, which is then deleted from the prices.  Without
  positions the request holds an absent address, which is the text of nothing in the list that is sent.
\<close>

definition handleStakingMissedData :: "prices_reader \<Rightarrow> legacy_staking list \<Rightarrow> int \<Rightarrow> js_error + legacy_staking list" where
  "handleStakingMissedData getPrices positions chainId =
     (let reward = (case positions of [] \<Rightarrow> None | p # _ \<Rightarrow> Some (sw_address (ls_rewardToken p)))
      in sum_bind (getPrices ((case reward of Some a \<Rightarrow> a | None \<Rightarrow> []) # stakingAddresses positions) chainId) (\<lambda>answer.
         case answer of
           None \<Rightarrow> Inl typeError
         | Some prices \<Rightarrow>
             (let key = (case reward of Some a \<Rightarrow> a | None \<Rightarrow> ''undefined'');
                  rewardTokenPrice = (case js_get prices key of Some q \<Rightarrow> q | None \<Rightarrow> Undef);
                  rest = filter (\<lambda>e. fst e \<noteq> key) prices
              in Inr (map (stakePosition rest rewardTokenPrice) positions))))"

definition addStaking :: "js_number \<Rightarrow> legacy_staking \<Rightarrow> js_number" where
  "addStaking totalValue sp =
     (let staked = (case sk_tokens (ls_stakingToken sp) of
              Some tokens \<Rightarrow> foldl (\<lambda>v t. num_add v (numberOf (ht_value t))) totalValue tokens
            | None \<Rightarrow> num_add totalValue (numberOf (sk_value (ls_stakingToken sp))))
      in num_add staked (numberOf (sw_value (ls_rewardToken sp))))"

definition pricesItself :: "string list" where
  "pricesItself = [''Alpaca'', ''SpookySwap'', ''QuickSwap'']"

definition transformStaking ::
  "prices_reader \<Rightarrow> legacy_staking list \<Rightarrow> int \<Rightarrow> string \<Rightarrow> js_error + legacy_staking feature_result" where
  "transformStaking getPrices positions chainId protocolName =
     sum_bind (if protocolName \<in> set pricesItself then Inr positions else handleStakingMissedData getPrices positions chainId) (\<lambda>ps.
       Inr \<lparr> fr_totalValue = foldl addStaking (Some 0) ps, fr_items = ps \<rparr>)"

section \<open>Lending, borrowing and leverage farming\<close>

record credit_position =
  cp_address :: string
  cp_balance :: js_num
  cp_totalDebtDecimal :: js_num
  cp_price :: js_num

record leverage_farming =
  lf_address :: string
  lf_earned :: js_num

text \<open>What an adapter returns for one kind of position; each list may be absent.\<close>

record raw_data =
  rd_liquidityPositions :: "liquidity_position list option"
  rd_stakingPositions :: "legacy_staking list option"
  rd_lendingPositions :: "credit_position list option"
  rd_borrowingPositions :: "credit_position list option"
  rd_leverageFarmingPositions :: "leverage_farming list option"

definition getBasicFeatureResult ::
  "raw_data \<Rightarrow> (raw_data \<Rightarrow> credit_position list option) \<Rightarrow> (credit_position \<Rightarrow> js_num) \<Rightarrow> js_error + credit_position feature_result" where
  "getBasicFeatureResult data rootKey totalKey = (case rootKey data of
       None \<Rightarrow> Inl typeError
     | Some positions \<Rightarrow> Inr \<lparr> fr_totalValue = foldl (\<lambda>v cur. num_add v (num_mul (numberOf (totalKey cur)) (numberOf (cp_price cur)))) (Some 0) positions,
         fr_items = positions \<rparr>)"

definition transformLending :: "raw_data \<Rightarrow> js_error + credit_position feature_result" where
  "transformLending rawLending = getBasicFeatureResult rawLending rd_lendingPositions cp_balance"

definition transformBorrowing :: "raw_data \<Rightarrow> js_error + credit_position feature_result" where
  "transformBorrowing rawBorrowing = getBasicFeatureResult rawBorrowing rd_borrowingPositions cp_totalDebtDecimal"

definition transformLeverageFarming :: "leverage_farming list \<Rightarrow> js_error + leverage_farming feature_result" where
  "transformLeverageFarming positions = Inr \<lparr> fr_totalValue = foldl (\<lambda>v f. num_add v (numberOf (lf_earned f))) (Some 0) positions,
     fr_items = positions \<rparr>"

section \<open>The answer for a protocol\<close>

record features_data =
  fd_errors :: "string list"
  fd_pools :: "pool_feature feature_result js_value"
  fd_staking :: "legacy_staking feature_result js_value"
  fd_lending :: "credit_position feature_result js_value"
  fd_borrowing :: "credit_position feature_result js_value"
  fd_leverageFarming :: "leverage_farming feature_result js_value"

definition handleResultPools ::
  "assets_reader \<Rightarrow> prices_reader \<Rightarrow> int \<Rightarrow> js_num \<Rightarrow> liquidity_position list \<Rightarrow> features_data \<Rightarrow> features_data" where
  "handleResultPools getAssets getPrices chainId feeRate rawPools result =
     (case transformPools getAssets getPrices rawPools chainId feeRate of
        Inr (data, errors) \<Rightarrow> result\<lparr> fd_errors := fd_errors result @ errors, fd_pools := Val data \<rparr>
      | Inl e \<Rightarrow> result\<lparr> fd_errors := fd_errors result @ [je_message e], fd_pools := Null \<rparr>)"

definition handleResultStaking :: "prices_reader \<Rightarrow> int \<Rightarrow> string \<Rightarrow> legacy_staking list \<Rightarrow> features_data \<Rightarrow> features_data" where
  "handleResultStaking getPrices chainId protocolName rawStaking result =
     (case transformStaking getPrices rawStaking chainId protocolName of
        Inr data \<Rightarrow> result\<lparr> fd_staking := Val data \<rparr>
      | Inl e \<Rightarrow> result\<lparr> fd_errors := fd_errors result @ [je_message e], fd_staking := Null \<rparr>)"

definition handleResultLending :: "raw_data \<Rightarrow> features_data \<Rightarrow> features_data" where
  "handleResultLending rawLending result =
     (case transformLending rawLending of
        Inr data \<Rightarrow> result\<lparr> fd_lending := Val data \<rparr>
      | Inl e \<Rightarrow> result\<lparr> fd_errors := fd_errors result @ [je_message e], fd_lending := Null \<rparr>)"

definition handleResultLeverageFarming :: "leverage_farming list \<Rightarrow> features_data \<Rightarrow> features_data" where
  "handleResultLeverageFarming rawLeverageFarming result =
     (case transformLeverageFarming rawLeverageFarming of
        Inr data \<Rightarrow> result\<lparr> fd_leverageFarming := Val data \<rparr>
      | Inl e \<Rightarrow> result\<lparr> fd_errors := fd_errors result @ [je_message e], fd_lending := Null \<rparr>)"

definition handleResultBorrowing :: "raw_data \<Rightarrow> features_data \<Rightarrow> features_data" where
  "handleResultBorrowing rawBorrowing result =
     (case transformBorrowing rawBorrowing of
        Inr data \<Rightarrow> result\<lparr> fd_borrowing := Val data \<rparr>
      | Inl e \<Rightarrow> result\<lparr> fd_errors := fd_errors result @ [je_message e], fd_borrowing := Null \<rparr>)"

record raw_features =
  rf_pools :: "liquidity_position list option"
  rf_staking :: "legacy_staking list option"
  rf_lending :: "raw_data option"
  rf_borrowing :: "raw_data option"
  rf_leverageFarming :: "leverage_farming list option"

text \<open>The first of the data that has each kind of position; all positions of staking.\<close>

definition rawFeatures :: "raw_data list \<Rightarrow> raw_features" where
  "rawFeatures data = \<lparr>
     rf_pools = (case find (\<lambda>d. rd_liquidityPositions d \<noteq> None) data of Some d \<Rightarrow> rd_liquidityPositions d | None \<Rightarrow> None),
     rf_staking = Some (concat (map (\<lambda>d. case rd_stakingPositions d of Some ps \<Rightarrow> ps | None \<Rightarrow> []) data)),
     rf_lending = find (\<lambda>d. rd_lendingPositions d \<noteq> None) data,
     rf_borrowing = find (\<lambda>d. rd_borrowingPositions d \<noteq> None) data,
     rf_leverageFarming = (case find (\<lambda>d. rd_leverageFarmingPositions d \<noteq> None) data of Some d \<Rightarrow> rd_leverageFarmingPositions d | None \<Rightarrow> None) \<rparr>"

definition whenGiven :: "'a option \<Rightarrow> ('a \<Rightarrow> 'r \<Rightarrow> 'r) \<Rightarrow> 'r \<Rightarrow> 'r" where
  "whenGiven raw handle result = (case raw of Some x \<Rightarrow> handle x result | None \<Rightarrow> result)"

text \<open>
  The handlers of pools and staking wait for requests, the others run at once and in the order of the calls; whether the pools
  or the staking come first is a parameter.
\<close>

definition formatFeaturesData ::
  "assets_reader \<Rightarrow> prices_reader \<Rightarrow> bool \<Rightarrow> raw_features \<Rightarrow> int \<Rightarrow> js_num \<Rightarrow> string \<Rightarrow> features_data" where
  "formatFeaturesData getAssets getPrices poolsFirst raw chainId feeRate protocolName =
     (let result0 = \<lparr> fd_errors = [], fd_pools = Undef, fd_staking = Undef, fd_lending = Undef, fd_borrowing = Undef, fd_leverageFarming = Undef \<rparr>;
          result1 = whenGiven (rf_leverageFarming raw) handleResultLeverageFarming
            (whenGiven (rf_borrowing raw) handleResultLending
            (whenGiven (rf_lending raw) handleResultLending result0));
          pools = whenGiven (rf_pools raw) (handleResultPools getAssets getPrices chainId feeRate);
          staking = whenGiven (rf_staking raw) (handleResultStaking getPrices chainId protocolName)
      in if poolsFirst then staking (pools result1) else pools (staking result1))"

record legacy_adapter = adapter +
  la_feeRate :: js_num
  la_getAllFeaturesData :: "(string \<Rightarrow> int \<Rightarrow> js_error + features_data) option"
  la_getData :: "string \<Rightarrow> int \<Rightarrow> js_error + raw_data list"

definition getProtocolFeatures ::
  "legacy_adapter list \<Rightarrow> assets_reader \<Rightarrow> prices_reader \<Rightarrow> bool \<Rightarrow> string \<Rightarrow> string \<Rightarrow> int \<Rightarrow> js_error + features_data" where
  "getProtocolFeatures protocols getAssets getPrices poolsFirst protocolName addresses chain =
     (case getProtocolByName protocols protocolName of
        None \<Rightarrow> Inl (plainError (''Protocol '' @ quoted protocolName @ '' is not supported yet''))
      | Some protocol \<Rightarrow> (case la_getAllFeaturesData protocol of
          Some getAllFeaturesData \<Rightarrow> getAllFeaturesData addresses chain
        | None \<Rightarrow> sum_bind (la_getData protocol addresses chain) (\<lambda>data.
            Inr (formatFeaturesData getAssets getPrices poolsFirst (rawFeatures data) chain (la_feeRate protocol) (ad_name protocol)))))"

section \<open>The answer for some chains\<close>

record chain_features =
  cf_chain :: int
  cf_features :: "string list"
  cf_data :: "features_data option"

record features_response =
  fs_ok :: bool
  fs_errors :: "string list"
  fs_chains :: "chain_features list"

definition chainFeatures :: "'a adapter_scheme \<Rightarrow> int \<Rightarrow> js_error + features_data \<Rightarrow> chain_features" where
  "chainFeatures protocol chainId outcome = \<lparr> cf_chain = chainId,
     cf_features = (case chainAbbrOfId chainId of Some abbr \<Rightarrow> (case js_get (ad_features protocol) abbr of Some fs \<Rightarrow> fs | None \<Rightarrow> []) | None \<Rightarrow> []),
     cf_data = (case outcome of Inr d \<Rightarrow> Some d | Inl e \<Rightarrow> None) \<rparr>"

definition outcomeErrors :: "js_error + features_data \<Rightarrow> string list" where
  "outcomeErrors outcome = (case outcome of Inr d \<Rightarrow> fd_errors d | Inl e \<Rightarrow> [if je_message e \<noteq> [] then je_message e else je_text e])"

definition getProtocolFeaturesData ::
  "legacy_adapter list \<Rightarrow> assets_reader \<Rightarrow> prices_reader \<Rightarrow> bool \<Rightarrow> string \<Rightarrow> int list \<Rightarrow> string \<Rightarrow> js_error + features_response" where
  "getProtocolFeaturesData protocols getAssets getPrices poolsFirst protocolName chainIds addresses =
     (case getProtocolByName protocols protocolName of
        None \<Rightarrow> Inl (plainError (''Protocol '' @ quoted protocolName @ '' is not supported yet''))
      | Some protocol \<Rightarrow>
          (let allowedChains = filter (supports protocol) chainIds
           in if allowedChains = []
              then Inl (plainError (''Protocol '' @ quoted protocolName @ '' doesn'' @ [CHR 0x27] @ ''t support any of these chains: '' @
                join_with '', '' (map show_int chainIds)))
              else (let allData = map (getProtocolFeatures protocols getAssets getPrices poolsFirst protocolName addresses) allowedChains;
                        errors = concat (map outcomeErrors allData)
                    in Inr \<lparr> fs_ok = (errors = []), fs_errors = errors,
                         fs_chains = map (\<lambda>(c, r). chainFeatures protocol c r) (zip allowedChains allData) \<rparr>)))"

section \<open>Totals\<close>

text \<open>What a list of numbers adds to a total that is a number afterwards.\<close>

lemma foldl_num_add:
  "foldl (\<lambda>v t. num_add v (f t)) a xs = Some x \<Longrightarrow> \<exists>y. a = Some y \<and> x = y + sum_list (map (\<lambda>t. valueOf (f t)) xs)"
proof (induction xs arbitrary: a)
  case (Cons t xs)
  then have "\<exists>y. num_add a (f t) = Some y \<and> x = y + sum_list (map (\<lambda>t. valueOf (f t)) xs)"
    by (intro Cons.IH) simp
  then show ?case by (auto simp: valueOf_def)
qed simp

lemma foldl_total: "foldl (\<lambda>v t. num_add v (f t)) (Some 0) xs = Some x \<Longrightarrow> x = sum_list (map (\<lambda>t. valueOf (f t)) xs)"
  using foldl_num_add[of f "Some 0" xs x] by simp

lemma foldl_gains: "(\<And>v t. gains v (f v t) (w t)) \<Longrightarrow> gains a (foldl f a xs) (sum_list (map w xs))"
proof (induction xs arbitrary: a)
  case (Cons t xs)
  show ?case using gains_trans[OF Cons.prems[of a t] Cons.IH[OF Cons.prems, of "f a t"]] by simp
qed simp

definition listedWorth :: "pool_token list \<Rightarrow> rat" where
  "listedWorth ts = sum_list (map (\<lambda>t. valueOf (numberOf (pt_value t))) ts)"

definition stakedWorth :: "legacy_staking \<Rightarrow> rat" where
  "stakedWorth p = (case sk_tokens (ls_stakingToken p) of
       Some tokens \<Rightarrow> sum_list (map (\<lambda>t. valueOf (numberOf (ht_value t))) tokens)
     | None \<Rightarrow> valueOf (numberOf (sk_value (ls_stakingToken p)))) + valueOf (numberOf (sw_value (ls_rewardToken p)))"

definition creditWorth :: "credit_position \<Rightarrow> rat" where
  "creditWorth p = valueOf (num_mul (numberOf (cp_balance p)) (numberOf (cp_price p)))"

text \<open>A section with a total shows positions that are worth the total.\<close>

definition adds_up :: "('i \<Rightarrow> rat) \<Rightarrow> 'i feature_result js_value \<Rightarrow> bool" where
  "adds_up worth s \<longleftrightarrow> (\<forall>r x. s = Val r \<longrightarrow> fr_totalValue r = Some x \<longrightarrow> x = sum_list (map worth (fr_items r)))"

lemma adds_up_simps [simp]: "adds_up w Undef" "adds_up w Null"
  "adds_up w (Val r) \<longleftrightarrow> (\<forall>x. fr_totalValue r = Some x \<longrightarrow> x = sum_list (map w (fr_items r)))"
  by (simp_all add: adds_up_def)

definition poolWorth :: "pool_feature \<Rightarrow> rat" where
  "poolWorth p = listedWorth (pf_tokens p @ pf_rewards p)"

lemma formatPool_worth: "formatPool feeRate p = Inr q \<Longrightarrow> pf_userValue q = Some x \<Longrightarrow> x = poolWorth q"
  using foldl_num_add[of "\<lambda>t. numberOf (pt_value t)" "Some 0" "pf_tokens q @ pf_rewards q" x]
  by (auto simp: formatPool_def Let_def poolWorth_def listedWorth_def split: option.splits)

lemma reducePool_worth:
  "sum_foldl (reducePool feeRate) s ps = Inr (items, Some x) \<Longrightarrow>
    (\<And>y. snd s = Some y \<Longrightarrow> y = sum_list (map poolWorth (fst s))) \<Longrightarrow> x = sum_list (map poolWorth items)"
proof (induction ps arbitrary: s)
  case (Cons p ps)
  obtain qs t where s: "s = (qs, t)" by (cases s)
  obtain q where q: "formatPool feeRate p = Inr q"
      "sum_foldl (reducePool feeRate) (if truthy_num (pf_userValue q) then qs @ [q] else qs, num_add t (pf_userValue q)) ps
        = Inr (items, Some x)"
    using Cons.prems(1) unfolding s by (auto simp: reducePool_def sums)
  show ?case
  proof (rule Cons.IH[OF q(2)])
    fix y assume "snd (if truthy_num (pf_userValue q) then qs @ [q] else qs, num_add t (pf_userValue q)) = Some y"
    then obtain a b where ab: "t = Some a" "pf_userValue q = Some b" "y = a + b" by auto
    then have "a = sum_list (map poolWorth qs)" "b = poolWorth q"
      using Cons.prems(2)[of a] formatPool_worth[OF q(1)] by (simp_all add: s)
    then show "y = sum_list (map poolWorth (fst (if truthy_num (pf_userValue q) then qs @ [q] else qs, num_add t (pf_userValue q))))"
      using ab by (simp add: truthy_num_def)
  qed
qed simp

lemma transformPools_adds_up: "transformPools A P ps c feeRate = Inr (r, es) \<Longrightarrow> adds_up poolWorth (Val r)"
  by (auto simp: transformPools_def sums intro: reducePool_worth)

lemma addStaking_gains: "gains t (addStaking t p) (stakedWorth p)"
proof -
  have *: "gains t (num_add t n) (valueOf n)" for t n by (auto simp: gains_def valueOf_def)
  show ?thesis
  proof (cases "sk_tokens (ls_stakingToken p)")
    case None
    then show ?thesis
      using gains_trans[OF *[of t "numberOf (sk_value (ls_stakingToken p))"] *[of _ "numberOf (sw_value (ls_rewardToken p))"]]
      by (simp add: addStaking_def stakedWorth_def)
  next
    case (Some tokens)
    then show ?thesis
      using gains_trans[OF foldl_gains[of "\<lambda>v t. num_add v (numberOf (ht_value t))" "\<lambda>t. valueOf (numberOf (ht_value t))" t tokens, OF *]
          *[of _ "numberOf (sw_value (ls_rewardToken p))"]]
      by (simp add: addStaking_def stakedWorth_def)
  qed
qed

lemma transformStaking_adds_up: "transformStaking P ps c name = Inr r \<Longrightarrow> adds_up stakedWorth (Val r)"
  using foldl_gains[of addStaking stakedWorth "Some 0" "fr_items r", OF addStaking_gains]
  by (auto simp: transformStaking_def sums gains_def)

lemma transformLending_adds_up: "transformLending d = Inr r \<Longrightarrow> adds_up creditWorth (Val r)"
  unfolding creditWorth_def[abs_def]
  by (auto simp: transformLending_def getBasicFeatureResult_def split: option.splits dest!: foldl_total)

lemma transformLeverage_adds_up: "transformLeverageFarming ps = Inr r \<Longrightarrow> adds_up (\<lambda>p. valueOf (numberOf (lf_earned p))) (Val r)"
  by (auto simp: transformLeverageFarming_def dest!: foldl_total)

section \<open>Handlers\<close>

text \<open>Each handler writes its section and adds its errors.\<close>

definition lendingSection :: "raw_data \<Rightarrow> credit_position feature_result js_value" where
  "lendingSection d = (case transformLending d of Inr r \<Rightarrow> Val r | Inl e \<Rightarrow> Null)"

lemma whenGiven_simps [simp]: "whenGiven None h r = r" "whenGiven (Some x) h r = h x r"
  by (simp_all add: whenGiven_def)

definition poolsOutcome :: "assets_reader \<Rightarrow> prices_reader \<Rightarrow> raw_features \<Rightarrow> int \<Rightarrow> js_num \<Rightarrow> string list \<times> pool_feature feature_result js_value" where
  "poolsOutcome A P raw c feeRate = (case rf_pools raw of
       None \<Rightarrow> ([], Undef)
     | Some ps \<Rightarrow> (case transformPools A P ps c feeRate of Inr (r, es) \<Rightarrow> (es, Val r) | Inl e \<Rightarrow> ([je_message e], Null)))"

definition stakingOutcome :: "prices_reader \<Rightarrow> raw_features \<Rightarrow> int \<Rightarrow> string \<Rightarrow> string list \<times> legacy_staking feature_result js_value" where
  "stakingOutcome P raw c name = (case rf_staking raw of
       None \<Rightarrow> ([], Undef)
     | Some ps \<Rightarrow> (case transformStaking P ps c name of Inr r \<Rightarrow> ([], Val r) | Inl e \<Rightarrow> ([je_message e], Null)))"

lemma poolsOutcome_adds_up: "adds_up poolWorth (snd (poolsOutcome A P raw c feeRate))"
  by (simp add: poolsOutcome_def del: adds_up_simps(3) split: option.split sum.split prod.split)
    (auto simp del: adds_up_simps(3) dest: transformPools_adds_up)

lemma stakingOutcome_adds_up: "adds_up stakedWorth (snd (stakingOutcome P raw c name))"
  by (simp add: stakingOutcome_def del: adds_up_simps(3) split: option.split sum.split)
    (auto simp del: adds_up_simps(3) dest: transformStaking_adds_up)

lemma pools_step:
  "fd_pools r = Undef \<Longrightarrow> whenGiven (rf_pools raw) (handleResultPools A P c feeRate) r
    = r\<lparr> fd_errors := fd_errors r @ fst (poolsOutcome A P raw c feeRate), fd_pools := snd (poolsOutcome A P raw c feeRate) \<rparr>"
  by (cases r) (simp add: poolsOutcome_def handleResultPools_def split: option.split sum.split prod.split)

lemma staking_step:
  "fd_staking r = Undef \<Longrightarrow> whenGiven (rf_staking raw) (handleResultStaking P c name) r
    = r\<lparr> fd_errors := fd_errors r @ fst (stakingOutcome P raw c name), fd_staking := snd (stakingOutcome P raw c name) \<rparr>"
  by (cases r) (simp add: stakingOutcome_def handleResultStaking_def split: option.split sum.split)

lemma handleResultLending_eq:
  "handleResultLending d r = r\<lparr> fd_errors := fd_errors r @ (case rd_lendingPositions d of None \<Rightarrow> [''TypeError''] | Some _ \<Rightarrow> []),
    fd_lending := lendingSection d \<rparr>"
  by (simp add: handleResultLending_def lendingSection_def transformLending_def getBasicFeatureResult_def typeError_def split: option.splits)

lemma lendingSection_adds_up: "adds_up creditWorth (lendingSection d)"
  using transformLending_adds_up[of d] by (auto simp: lendingSection_def simp del: adds_up_simps(3) split: sum.splits)

definition emptyFeatures :: features_data where
  "emptyFeatures = \<lparr> fd_errors = [], fd_pools = Undef, fd_staking = Undef, fd_lending = Undef, fd_borrowing = Undef, fd_leverageFarming = Undef \<rparr>"

text \<open>What the handlers that run at once leave behind.\<close>

definition firstFeatures :: "raw_features \<Rightarrow> features_data" where
  "firstFeatures raw = emptyFeatures
     \<lparr> fd_errors := concat (map (\<lambda>d. if rd_lendingPositions d = None then [''TypeError''] else []) 
          ((case rf_lending raw of Some d \<Rightarrow> [d] | None \<Rightarrow> []) @ (case rf_borrowing raw of Some d \<Rightarrow> [d] | None \<Rightarrow> []))),
       fd_lending := (case rf_borrowing raw of Some d \<Rightarrow> lendingSection d
         | None \<Rightarrow> (case rf_lending raw of Some d \<Rightarrow> lendingSection d | None \<Rightarrow> Undef)),
       fd_leverageFarming := (case rf_leverageFarming raw of
           Some ps \<Rightarrow> (case transformLeverageFarming ps of Inr r \<Rightarrow> Val r | Inl e \<Rightarrow> Undef) | None \<Rightarrow> Undef) \<rparr>"

lemma firstFeatures_eq:
  "whenGiven (rf_leverageFarming raw) handleResultLeverageFarming
    (whenGiven (rf_borrowing raw) handleResultLending (whenGiven (rf_lending raw) handleResultLending emptyFeatures)) = firstFeatures raw"
  by (cases "rf_leverageFarming raw"; cases "rf_borrowing raw"; cases "rf_lending raw")
    (simp_all add: firstFeatures_def handleResultLending_eq handleResultLeverageFarming_def transformLeverageFarming_def emptyFeatures_def
      split: option.splits)

lemma formatFeaturesData_eq:
  "formatFeaturesData A P b raw c feeRate name = (firstFeatures raw)
    \<lparr> fd_errors := fd_errors (firstFeatures raw) @ (if b then fst (poolsOutcome A P raw c feeRate) @ fst (stakingOutcome P raw c name)
        else fst (stakingOutcome P raw c name) @ fst (poolsOutcome A P raw c feeRate)),
      fd_pools := snd (poolsOutcome A P raw c feeRate), fd_staking := snd (stakingOutcome P raw c name) \<rparr>"
proof -
  have u: "fd_pools (firstFeatures raw) = Undef" "fd_staking (firstFeatures raw) = Undef"
    by (simp_all add: firstFeatures_def emptyFeatures_def)
  show ?thesis
    unfolding formatFeaturesData_def Let_def emptyFeatures_def[symmetric] firstFeatures_eq
    by (simp add: pools_step staking_step u)
qed

text \<open>C30: In the answer for a protocol every section with a total shows exactly the positions that make up the total: the pools by
  the values of their tokens and rewards, the staking by its tokens and reward, the lending by balance and price, the leverage
  farming by what it earned.  Pools that are left out are worth nothing.\<close>

theorem features_add_up:
  "let r = formatFeaturesData A P poolsFirst raw chainId feeRate name
   in adds_up poolWorth (fd_pools r) \<and> adds_up stakedWorth (fd_staking r) \<and> adds_up creditWorth (fd_lending r) \<and>
      adds_up (\<lambda>p. valueOf (numberOf (lf_earned p))) (fd_leverageFarming r)"
proof -
  have "adds_up creditWorth (fd_lending (firstFeatures raw))"
    by (simp add: firstFeatures_def lendingSection_adds_up split: option.split)
  moreover have "adds_up (\<lambda>p. valueOf (numberOf (lf_earned p))) (fd_leverageFarming (firstFeatures raw))"
    using transformLeverage_adds_up by (simp add: firstFeatures_def emptyFeatures_def split: option.split sum.split)
  ultimately show ?thesis
    by (simp add: formatFeaturesData_eq Let_def poolsOutcome_adds_up stakingOutcome_adds_up)
qed

text \<open>Whether the requests of the pools or those of the staking are answered first changes nothing of an answer but the order
  of its errors.\<close>

theorem features_order:
  "let r1 = formatFeaturesData A P True raw chainId feeRate name; r2 = formatFeaturesData A P False raw chainId feeRate name
   in mset (fd_errors r1) = mset (fd_errors r2) \<and> r1 = r2\<lparr> fd_errors := fd_errors r1 \<rparr>"
  by (simp add: formatFeaturesData_eq Let_def)

text \<open>Borrowed positions spoil the lent ones: when some data of an adapter have borrowed positions, and those that have them
  have no lent ones, the answer shows no borrowing, its lending is \<open>null\<close> whatever was lent, and it reports an error.\<close>

theorem borrowing_spoils_lending:
  assumes "d \<in> set data" "rd_borrowingPositions d \<noteq> None"
    and "\<And>e. e \<in> set data \<Longrightarrow> rd_borrowingPositions e \<noteq> None \<Longrightarrow> rd_lendingPositions e = None"
  shows "let r = formatFeaturesData A P poolsFirst (rawFeatures data) chainId feeRate name
    in fd_borrowing r = Undef \<and> fd_lending r = Null \<and> ''TypeError'' \<in> set (fd_errors r)"
proof -
  obtain b where b: "rf_borrowing (rawFeatures data) = Some b" "rd_lendingPositions b = None"
  proof (cases "find (\<lambda>d. rd_borrowingPositions d \<noteq> None) data")
    case None
    then show thesis using find_NoneD[OF None assms(1)] assms(2) by simp
  next
    case (Some b)
    show thesis using that Some assms(3) find_SomeD[OF Some] by (simp add: rawFeatures_def)
  qed
  have "lendingSection b = Null" using b(2) by (simp add: lendingSection_def transformLending_def getBasicFeatureResult_def)
  then show ?thesis using b by (simp add: formatFeaturesData_eq Let_def firstFeatures_def emptyFeatures_def)
qed

section \<open>Prices of staked tokens\<close>

text \<open>After the prices of staking are read, every reward has the price of the first position's reward; a staked token that is
  this reward has neither price nor value; any other staked token has its price from the answer and is worth its balance times it.\<close>

theorem staking_reward_price:
  assumes "handleStakingMissedData getPrices positions chainId = Inr ps" "i < length positions"
    and "reward = sw_address (ls_rewardToken (hd positions))"
  shows "length ps = length positions \<and> (\<exists>prices. getPrices (reward # stakingAddresses positions) chainId = Inr (Some prices) \<and>
    sw_price (ls_rewardToken (ps ! i)) = (case js_get prices reward of Some q \<Rightarrow> q | None \<Rightarrow> Undef) \<and>
    (let before = ls_stakingToken (positions ! i); after = ls_stakingToken (ps ! i); price = js_get prices (sk_address before)
     in if sk_address before = reward \<or> price = None then sk_price after = Null \<and> sk_value after = Null
        else sk_price after = numOrNull (Val (numberOf (the price))) \<and>
          sk_value after = numOrNull (Val (num_mul (numberOf (the price)) (sk_balance before)))))"
proof -
  obtain p rest where p: "positions = p # rest" using assms(2) by (cases positions) auto
  have reward: "reward = sw_address (ls_rewardToken p)" using assms(3) by (simp add: p)
  obtain prices where prices: "getPrices (reward # stakingAddresses positions) chainId = Inr (Some prices)"
      "ps = map (stakePosition (filter (\<lambda>e. fst e \<noteq> reward) prices) (case js_get prices reward of Some q \<Rightarrow> q | None \<Rightarrow> Undef)) positions"
    using assms(1) by (auto simp: handleStakingMissedData_def sums Let_def p reward split: option.splits)
  have get: "js_get (filter (\<lambda>e. fst e \<noteq> reward) prices) a = (if a = reward then None else js_get prices a)" for a
    by (induction prices) auto
  have i: "ps ! i = stakePosition (filter (\<lambda>e. fst e \<noteq> reward) prices) (case js_get prices reward of Some q \<Rightarrow> q | None \<Rightarrow> Undef) (positions ! i)"
    using assms(2) by (simp add: prices(2))
  show ?thesis
  proof (intro conjI exI[of _ prices])
    show "length ps = length positions" by (simp add: prices(2))
    show "sw_price (ls_rewardToken (ps ! i)) = (case js_get prices reward of Some q \<Rightarrow> q | None \<Rightarrow> Undef)"
      by (simp add: i stakePosition_def Let_def)
    show "let before = ls_stakingToken (positions ! i); after = ls_stakingToken (ps ! i); price = js_get prices (sk_address before)
     in if sk_address before = reward \<or> price = None then sk_price after = Null \<and> sk_value after = Null
        else sk_price after = numOrNull (Val (numberOf (the price))) \<and>
          sk_value after = numOrNull (Val (num_mul (numberOf (the price)) (sk_balance before)))"
      by (cases "js_get prices (sk_address (ls_stakingToken (positions ! i)))")
        (simp_all add: i stakePosition_def Let_def priceOrNull_def get)
  qed (rule prices(1))
qed

section \<open>Chains\<close>

text \<open>The answer of the first version has one entry for each requested chain that the protocol supports, in their order; each
  holds the data of its chain unless that chain failed, and a chain that fails takes nothing from the others.  The status is
  \<open>ok\<close> exactly when no chain reports an error.\<close>

theorem features_response:
  assumes "getProtocolByName protocols name = Some protocol" "filter (supports protocol) chainIds \<noteq> []"
  shows "\<exists>r. getProtocolFeaturesData protocols A P poolsFirst name chainIds addresses = Inr r \<and>
    map cf_chain (fs_chains r) = filter (supports protocol) chainIds \<and>
    (\<forall>e\<in>set (fs_chains r). cf_data e = (case getProtocolFeatures protocols A P poolsFirst name addresses (cf_chain e) of
        Inr d \<Rightarrow> Some d | Inl _ \<Rightarrow> None)) \<and>
    fs_errors r = concat (map (\<lambda>c. outcomeErrors (getProtocolFeatures protocols A P poolsFirst name addresses c)) (filter (supports protocol) chainIds)) \<and>
    (fs_ok r \<longleftrightarrow> fs_errors r = [])"
proof -
  let ?c = "filter (supports protocol) chainIds"
  let ?f = "getProtocolFeatures protocols A P poolsFirst name addresses"
  have "map (\<lambda>(c, r). chainFeatures protocol c r) (zip ?c (map ?f ?c)) = map (\<lambda>c. chainFeatures protocol c (?f c)) ?c"
    by (simp add: zip_map2 zip_same_conv_map o_def)
  then have "getProtocolFeaturesData protocols A P poolsFirst name chainIds addresses = Inr
      \<lparr> fs_ok = (concat (map (\<lambda>c. outcomeErrors (?f c)) ?c) = []), fs_errors = concat (map (\<lambda>c. outcomeErrors (?f c)) ?c),
        fs_chains = map (\<lambda>c. chainFeatures protocol c (?f c)) ?c \<rparr>"
    using assms by (simp add: getProtocolFeaturesData_def Let_def o_def)
  then show ?thesis by (simp add: chainFeatures_def o_def)
qed

section \<open>Witnesses\<close>

definition lentData :: raw_data where
  "lentData = \<lparr> rd_liquidityPositions = None, rd_stakingPositions = None, rd_lendingPositions = Some [\<lparr> cp_address = ''0xl'',
     cp_balance = Val (Some 2), cp_totalDebtDecimal = Undef, cp_price = Val (Some 3) \<rparr>], rd_borrowingPositions = None,
     rd_leverageFarmingPositions = None \<rparr>"

definition borrowedData :: raw_data where
  "borrowedData = \<lparr> rd_liquidityPositions = None, rd_stakingPositions = None, rd_lendingPositions = None,
     rd_borrowingPositions = Some [], rd_leverageFarmingPositions = None \<rparr>"

definition noAssets :: assets_reader where
  "noAssets as c = Inl (plainError ''503'')"

definition somePrices :: prices_reader where
  "somePrices as c = Inr (Some [(''0xr'', Val (Some 2)), (''0xs'', Val (Some 5))])"

theorem borrowing_spoils_lending_witness:
  "fd_lending (formatFeaturesData noAssets somePrices True (rawFeatures [lentData]) 1 Undef ''P'') \<noteq> Null \<and>
   fd_lending (formatFeaturesData noAssets somePrices True (rawFeatures [lentData, borrowedData]) 1 Undef ''P'') = Null"
proof -
  have "fd_lending (formatFeaturesData noAssets somePrices True (rawFeatures [lentData]) 1 Undef ''P'') \<noteq> Null"
    by (simp add: formatFeaturesData_eq firstFeatures_def rawFeatures_def lentData_def lendingSection_def transformLending_def
        getBasicFeatureResult_def)
  moreover have "fd_lending (formatFeaturesData noAssets somePrices True (rawFeatures [lentData, borrowedData]) 1 Undef ''P'') = Null"
  proof -
    have "e \<in> set [lentData, borrowedData] \<Longrightarrow> rd_borrowingPositions e \<noteq> None \<Longrightarrow> rd_lendingPositions e = None" for e
      by (auto simp: lentData_def borrowedData_def)
    then have "let r = formatFeaturesData noAssets somePrices True (rawFeatures [lentData, borrowedData]) 1 Undef ''P''
        in fd_borrowing r = Undef \<and> fd_lending r = Null \<and> ''TypeError'' \<in> set (fd_errors r)"
      by (intro borrowing_spoils_lending[where d = borrowedData]) (simp_all add: borrowedData_def)
    then show ?thesis by (simp add: Let_def)
  qed
  ultimately show ?thesis ..
qed

definition aStaking :: "string \<Rightarrow> legacy_staking" where
  "aStaking token = \<lparr> ls_stakingToken = \<lparr> sk_address = token, sk_totalSupply = Some 100, sk_balance = Some 10, sk_price = Null, sk_value = Null,
     sk_tokens = None \<rparr>, ls_rewardToken = \<lparr> sw_address = ''0xr'', sw_price = Null, sw_balance = Some 4, sw_value = Null \<rparr> \<rparr>"

theorem staking_reward_price_witness:
  "\<exists>ps. handleStakingMissedData somePrices [aStaking ''0xs'', aStaking ''0xr''] 1 = Inr ps \<and> length ps = 2 \<and>
    sk_value (ls_stakingToken (ps ! 0)) = Val (Some 50) \<and> sk_value (ls_stakingToken (ps ! 1)) = Null"
proof -
  let ?ps = "[aStaking ''0xs'', aStaking ''0xr'']"
  obtain ps where ps: "handleStakingMissedData somePrices ?ps 1 = Inr ps"
    by (simp add: handleStakingMissedData_def somePrices_def Let_def)
  show ?thesis
    using ps staking_reward_price[OF ps, of 0 "''0xr''"] staking_reward_price[OF ps, of 1 "''0xr''"]
    by (auto simp: aStaking_def somePrices_def Let_def numOrNull_def truthy_num_def)
qed

definition aLegacyAdapter :: legacy_adapter where
  "aLegacyAdapter = \<lparr> ad_name = ''P'', ad_project = ''P'', ad_chains = [''eth'', ''bnb''], ad_features = [(''eth'', [''lending''])],
     ad_getAllFeaturesBaseData = None, la_feeRate = Undef, la_getAllFeaturesData = None,
     la_getData = (\<lambda>as c. if c = 1 then Inr [lentData] else Inl (plainError ''timeout'')) \<rparr>"

theorem features_response_witness:
  "\<exists>r. getProtocolFeaturesData [aLegacyAdapter] noAssets somePrices True ''P'' [2, 99, 1] ''0xw'' = Inr r \<and>
    map cf_chain (fs_chains r) = [2, 1] \<and> fs_errors r = [''timeout''] \<and> \<not> fs_ok r"
proof -
  have s: "supports aLegacyAdapter 1" "supports aLegacyAdapter 2" "\<not> supports aLegacyAdapter 99"
    by (simp_all add: supports_def aLegacyAdapter_def chainAbbrOfId_def all_chains_def)
  have n: "getProtocolByName [aLegacyAdapter] ''P'' = Some aLegacyAdapter"
    by (simp add: getProtocolByName_def aLegacyAdapter_def)
  have "outcomeErrors (getProtocolFeatures [aLegacyAdapter] noAssets somePrices True ''P'' ''0xw'' 2) = [''timeout'']"
    by (simp add: getProtocolFeatures_def n) (simp add: aLegacyAdapter_def outcomeErrors_def plainError_def)
  moreover have "outcomeErrors (getProtocolFeatures [aLegacyAdapter] noAssets somePrices True ''P'' ''0xw'' 1) = []"
    by (simp add: getProtocolFeatures_def n) (simp add: aLegacyAdapter_def outcomeErrors_def formatFeaturesData_eq firstFeatures_def
        rawFeatures_def lentData_def emptyFeatures_def poolsOutcome_def stakingOutcome_def transformStaking_def pricesItself_def
        handleStakingMissedData_def somePrices_def stakingAddresses_def)
  ultimately show ?thesis
    using features_response[OF n, of "[2, 99, 1]" noAssets somePrices True "''0xw''"] by (auto simp: s)
qed

end
