(* ===== verification/Blocks.thy ===== *)
theory Blocks
  imports Cache Collections "HOL-Library.Word"
begin

text \<open>
  The block of a chain at a time: \<open>apps/account/src/common/services/blocktime.service.ts\<close>.  The node is a parameter: it
  answers with the block of a number, after the retries, or fails; a number that is none is \<open>None\<close>.  Dates are in
  milliseconds.  The search has no bound in the code, so that it is a partial function here.
\<close>

section \<open>The search\<close>

record node_block =
  nb_number :: int
  nb_timestamp :: int

record block_timestamp =
  bt_date :: int
  bt_block :: int
  bt_timestamp :: int

type_synonym block_reader = "int option \<Rightarrow> string + node_block"

text \<open>\<open>n >> 0\<close>: the lower 32 bits with their sign.\<close>

definition toInt32 :: "int \<Rightarrow> int" where
  "toInt32 n = sint (word_of_int n :: 32 word)"

definition floorOf :: "js_number \<Rightarrow> int option" where
  "floorOf n = map_option floor n"

definition differenceTo :: "int \<Rightarrow> node_block \<Rightarrow> int" where
  "differenceTo target block = (nb_timestamp block * 1000 - target) div 1000"

partial_function (option) estimateBlockTimes ::
  "block_reader \<Rightarrow> int option \<Rightarrow> int \<Rightarrow> js_number \<Rightarrow> int \<Rightarrow> (string + block_timestamp) option" where
  "estimateBlockTimes getBlock guess target avgBlockTime tolerance =
     (case getBlock guess of
        Inl e \<Rightarrow> Some (Inl e)
      | Inr guessedBlock \<Rightarrow>
          (if \<bar>differenceTo target guessedBlock\<bar> < tolerance
           then Some (Inr \<lparr> bt_date = nb_timestamp guessedBlock * 1000, bt_block = nb_number guessedBlock,
             bt_timestamp = toInt32 (nb_timestamp guessedBlock) \<rparr>)
           else estimateBlockTimes getBlock
             (map_option (\<lambda>k. nb_number guessedBlock - k) (floorOf (num_div (Some (of_int (differenceTo target guessedBlock))) avgBlockTime)))
             target avgBlockTime tolerance))"

declare estimateBlockTimes.simps [code]

definition getBlockFromDate :: "(string + node_block) \<Rightarrow> block_reader \<Rightarrow> int \<Rightarrow> (string + block_timestamp) option" where
  "getBlockFromDate latest getBlock target =
     (case latest of Inl e \<Rightarrow> Some (Inl e) | Inr latestBlock \<Rightarrow>
       (case getBlock (Some (3 * nb_number latestBlock div 4)) of Inl e \<Rightarrow> Some (Inl e) | Inr earlyBlock \<Rightarrow>
          (let avgBlockTime = num_div (Some (of_int (nb_timestamp latestBlock - nb_timestamp earlyBlock)))
                 (Some (of_int (nb_number latestBlock - nb_number earlyBlock)));
               guessedBlocksIn24Hours = floorOf (num_div (Some 86400) avgBlockTime)
           in estimateBlockTimes getBlock (map_option (\<lambda>k. nb_number latestBlock - k) guessedBlocksIn24Hours) target avgBlockTime 900)))"

section \<open>Blocks that are found\<close>

text \<open>Whatever block is returned lies within the tolerance.\<close>

lemma estimateBlockTimes_sound:
  assumes "estimateBlockTimes getBlock guess target avg tol = Some (Inr bt)"
  shows "\<exists>n b. getBlock n = Inr b \<and> \<bar>differenceTo target b\<bar> < tol \<and> bt_block bt = nb_number b \<and> bt_date bt = nb_timestamp b * 1000"
proof -
  let ?P = "\<lambda>(getBlock :: block_reader) (guess :: int option) target (avg :: js_number) tol (y :: string + block_timestamp). \<forall>bt. y = Inr bt \<longrightarrow> (\<exists>n b. getBlock n = Inr b \<and>
      \<bar>differenceTo target b\<bar> < tol \<and> bt_block bt = nb_number b \<and> bt_date bt = nb_timestamp b * 1000)"
  have "?P getBlock guess target avg tol (Inr bt)"
  proof (rule estimateBlockTimes.raw_induct[where P = ?P, OF _ assms])
    fix search :: "block_reader \<Rightarrow> int option \<Rightarrow> int \<Rightarrow> js_number \<Rightarrow> int \<Rightarrow> (string + block_timestamp) option"
      and getBlock guess target avg tol y
    assume IH: "\<And>getBlock guess target avg tol y. search getBlock guess target avg tol = Some y \<Longrightarrow> ?P getBlock guess target avg tol y"
      and run: "(case getBlock guess of
        Inl e \<Rightarrow> Some (Inl e)
      | Inr guessedBlock \<Rightarrow>
          (if \<bar>differenceTo target guessedBlock\<bar> < tol
           then Some (Inr \<lparr> bt_date = nb_timestamp guessedBlock * 1000, bt_block = nb_number guessedBlock,
             bt_timestamp = toInt32 (nb_timestamp guessedBlock) \<rparr>)
           else search getBlock
             (map_option (\<lambda>k. nb_number guessedBlock - k) (floorOf (num_div (Some (of_int (differenceTo target guessedBlock))) avg)))
             target avg tol)) = Some y"
    show "?P getBlock guess target avg tol y"
    proof (cases "getBlock guess")
      case (Inl e)
      then show ?thesis using run by auto
    next
      case (Inr b)
      show ?thesis
      proof (cases "\<bar>differenceTo target b\<bar> < tol")
        case True
        then have "y = Inr \<lparr> bt_date = nb_timestamp b * 1000, bt_block = nb_number b, bt_timestamp = toInt32 (nb_timestamp b) \<rparr>"
          using run Inr by simp
        then show ?thesis using True Inr by (intro allI impI exI[of _ guess] exI[of _ b]) auto
      next
        case False
        then show ?thesis using run Inr IH by simp
      qed
    qed
  qed
  then show ?thesis by simp
qed

text \<open>The blocks of a chain from the first to the last, one every \<open>b\<close> seconds.\<close>

definition regular :: "block_reader \<Rightarrow> int \<Rightarrow> int \<Rightarrow> int \<Rightarrow> bool" where
  "regular getBlock t0 b newest \<longleftrightarrow>
     (\<forall>n\<in>{0..newest}. getBlock (Some n) = Inr \<lparr> nb_number = n, nb_timestamp = t0 + b * n \<rparr>)"

lemma regular_get: "regular getBlock t0 b newest \<Longrightarrow> 0 \<le> n \<Longrightarrow> n \<le> newest \<Longrightarrow>
    getBlock (Some n) = Inr \<lparr> nb_number = n, nb_timestamp = t0 + b * n \<rparr>"
  by (simp add: regular_def)

lemma differenceTo_eq: "differenceTo target \<lparr> nb_number = n, nb_timestamp = t \<rparr> = t - (target + 999) div 1000"
proof -
  have "(t * 1000 - target) div 1000 = t + (- target) div 1000" by simp
  also have "(- target) div 1000 = - ((target + 999) div 1000)"
  proof -
    have "target mod 1000 \<noteq> 0 \<Longrightarrow> (target mod 1000 + 999) div 1000 = 1"
      using pos_mod_bound[of 1000 target] pos_mod_sign[of 1000 target]
      by (intro int_div_pos_eq[of _ _ _ "target mod 1000 - 1"]) auto
    then show ?thesis by (simp add: zdiv_zminus1_eq_if div_add1_eq[of target 999 1000])
  qed
  finally show ?thesis by (simp add: differenceTo_def)
qed

lemma floorOf_div: "0 < b \<Longrightarrow> floorOf (num_div (Some (of_int d)) (Some (of_int b))) = Some (d div b)"
  by (simp add: floorOf_def floor_divide_of_int_eq)

text \<open>C3: On a chain with regular blocks, at most fifteen minutes apart, the search ends: it finds a block whose time is less than
  fifteen minutes from the one asked for, whenever that lies between the first and the last block and the chain is a day long.\<close>

theorem block_found:
  assumes "regular getBlock t0 b newest" "0 < b" "b \<le> 900" "1 \<le> newest" "86400 div b \<le> newest"
    and "t0 * 1000 \<le> target" "target \<le> (t0 + b * newest) * 1000"
  shows "\<exists>bt. getBlockFromDate (getBlock (Some newest)) getBlock target = Some (Inr bt) \<and> 0 \<le> bt_block bt \<and> bt_block bt \<le> newest \<and>
    \<bar>bt_date bt - target\<bar> < 900 * 1000"
proof -
  let ?early = "3 * newest div 4"
  let ?T = "(target + 999) div 1000"
  have early: "0 \<le> ?early" "?early < newest" using assms(4) by auto
  have "b * newest - b * ?early = b * (newest - ?early)" by (simp add: algebra_simps)
  then have avg: "num_div (Some (of_int (b * newest - b * ?early))) (Some (of_int (newest - ?early))) = Some (of_int b)"
    using early(2) by (simp only: of_int_mult num_div.simps) simp
  define g1 where "g1 = newest - 86400 div b"
  have g1: "0 \<le> g1" "g1 \<le> newest" using assms(2,5) by (simp_all add: g1_def pos_imp_zdiv_nonneg_iff)
  have run: "getBlockFromDate (getBlock (Some newest)) getBlock target = estimateBlockTimes getBlock (Some g1) target (Some (of_int b)) 900"
    using regular_get[OF assms(1)] early assms(4) floorOf_div[OF assms(2), of 86400]
    by (simp add: getBlockFromDate_def avg g1_def Let_def del: of_int_diff of_int_add of_int_mult num_div.simps)
  let ?d = "t0 + b * g1 - ?T"
  let ?out = "\<lambda>n. \<lparr> bt_date = (t0 + b * n) * 1000, bt_block = n, bt_timestamp = toInt32 (t0 + b * n) \<rparr>"
  have step: "estimateBlockTimes getBlock (Some n) target (Some (of_int b)) 900 =
      (if \<bar>t0 + b * n - ?T\<bar> < 900 then Some (Inr (?out n))
       else estimateBlockTimes getBlock (Some (n - (t0 + b * n - ?T) div b)) target (Some (of_int b)) 900)" if "0 \<le> n" "n \<le> newest" for n
    by (subst estimateBlockTimes.simps)
      (simp add: regular_get[OF assms(1) that] differenceTo_eq floorOf_div[OF assms(2)] del: of_int_diff of_int_add of_int_mult num_div.simps)
  have near: "\<bar>bt_date (?out n) - target\<bar> < 900 * 1000" if "\<bar>t0 + b * n - ?T\<bar> < 900" for n
    using that by simp
  show ?thesis
  proof (cases "\<bar>?d\<bar> < 900")
    case True
    then show ?thesis using step[OF g1] near[OF True] g1 by (simp add: run)
  next
    case False
    define g2 where "g2 = g1 - ?d div b"
    have "t0 + b * g2 - ?T = ?d - b * (?d div b)" by (simp add: g2_def algebra_simps)
    also have "\<dots> = ?d mod b" by (simp add: minus_mult_div_eq_mod)
    finally have m: "t0 + b * g2 - ?T = ?d mod b" .
    have r: "0 \<le> ?d mod b" "?d mod b < b" using assms(2) by simp_all
    have T: "t0 \<le> ?T" "?T \<le> t0 + b * newest"
      using zdiv_mono1[of "t0 * 1000 + 999" "target + 999" 1000] zdiv_mono1[of "target + 999" "(t0 + b * newest) * 1000 + 999" 1000] assms(6,7)
      by simp_all
    have "0 \<le> b * g2" using m r T by linarith
    moreover have "b * g2 < b * (newest + 1)" using m r T by (simp add: algebra_simps)
    ultimately have g2: "0 \<le> g2" "g2 \<le> newest" using assms(2) by (simp_all add: zero_le_mult_iff)
    have ok: "\<bar>t0 + b * g2 - ?T\<bar> < 900" using m r assms(3) by linarith
    show ?thesis using step[OF g1] step[OF g2] False ok near[OF ok] g2 by (simp add: run g2_def[symmetric])
  qed
qed

definition demoChain :: block_reader where
  "demoChain n = (case n of Some k \<Rightarrow> if 0 \<le> k \<and> k \<le> 20000 then Inr \<lparr> nb_number = k, nb_timestamp = 1000000 + 12 * k \<rparr> else Inl ''not found''
     | None \<Rightarrow> Inl ''not a number'')"

theorem block_found_witness:
  "\<exists>bt. getBlockFromDate (demoChain (Some 20000)) demoChain 1100000500 = Some (Inr bt) \<and> 0 \<le> bt_block bt \<and> bt_block bt \<le> 20000 \<and>
    \<bar>bt_date bt - 1100000500\<bar> < 900 * 1000"
  by (rule block_found[of demoChain 1000000 12 20000]) (simp_all add: regular_def demoChain_def)

end
