(* ===== verification/Balances.thy ===== *)
theory Balances
  imports Blocks Addresses
begin

text \<open>
  The balances of accounts: \<open>balances-v2.service.ts\<close>, \<open>balances.helpers.ts\<close>, the strategy that asks a contract
  on the chain (\<open>network.strategy.ts\<close>), and the block of a day ago (\<open>blocktime.service.ts\<close>), in \<open>apps/account/src\<close>.
  The services for assets and prices, the contract, the node and the list of blocked accounts are parameters; the cache is
  the one of \<open>Cache\<close>, with one constructor for each kind of value that is stored.  Requests that the code makes together
  are made in their order here.  An amount is a text, as the contract answers it.
\<close>

section \<open>Data\<close>

record asset_info =
  as_address :: string
  as_symbol :: "string option"
  as_name :: "string option"
  as_icon :: "string option"
  as_decimals :: nat
  as_price :: js_num

record token_balance =
  tb_chainId :: int
  tb_address :: string
  tb_symbol :: "string option"
  tb_name :: "string option"
  tb_icon :: "string option"
  tb_decimals :: "nat option"
  tb_amount :: string
  tb_decimalsAmount :: js_num
  tb_tokenPriceUSD :: js_num
  tb_totalPriceUSD :: js_num

record balance_error =
  be_chainId :: int
  be_message :: string
  be_statusCode :: int

record partial_balances =
  pb_address :: string
  pb_errors :: "balance_error list"
  pb_balances :: "token_balance list"

record account_balance =
  ab_account :: string
  ab_tokens :: "token_balance list"
  ab_totalUsd :: rat
  ab_errors :: "balance_error list"

datatype cached_value = CachedBalances partial_balances | CachedAssets "asset_info list" | CachedBlock block_timestamp

datatype strategy_class = NetworkStrategy | SolanaStrategy | TerraStrategy | CardanoStrategy | CosmosStrategy | KavaStrategy
  | OsmosisStrategy | SecretStrategy | RoninStrategy

type_synonym balance_reader = "string \<Rightarrow> int \<Rightarrow> string list \<Rightarrow> block_timestamp option \<Rightarrow> string + token_balance list"

record balances_world =
  bw_blacklisted :: "string list"
  bw_getAssets :: "int \<Rightarrow> string list \<Rightarrow> string + asset_info list"
  bw_getAccountedAssets :: "int \<Rightarrow> string + asset_info list"
  bw_strategy :: "strategy_class \<Rightarrow> balance_reader"
  bw_blockFromDate :: "int \<Rightarrow> int \<Rightarrow> string + block_timestamp"
  bw_getBulkPriceAtTimestamp :: "string list \<Rightarrow> int \<Rightarrow> int \<Rightarrow> string + (string, js_num) js_map"

definition BLACKLISTED_TOKENS :: "string list" where
  "BLACKLISTED_TOKENS = [''0x0df62d2cd80591798721ddc93001afe868c367ff'', ''0x82dfdb2ec1aa6003ed4acba663403d7c2127ff67'',
     ''0xb4a81261b16b92af0b9f7c4a83f1e885132d81e4'', ''0x7dff46370e9ea5f0bad3c4e29711ad50062ea7a4'']"

section \<open>Balances of a chain\<close>

definition getStrategyForNetwork :: "int \<Rightarrow> strategy_class" where
  "getStrategyForNetwork chainId =
     (if chainId = ChainIdEnum Sol then SolanaStrategy else if chainId = ChainIdEnum Terra then TerraStrategy
      else if chainId = ChainIdEnum Cardano then CardanoStrategy else if chainId = ChainIdEnum Cosmos then CosmosStrategy
      else if chainId = ChainIdEnum Kava then KavaStrategy else if chainId = ChainIdEnum Osmosis then OsmosisStrategy
      else if chainId = ChainIdEnum Secret then SecretStrategy else if chainId = ChainIdEnum Ronin then RoninStrategy
      else NetworkStrategy)"

text \<open>A block that is not found is logged, and \<open>undefined\<close> for the caller.\<close>

definition getBlockAtDate ::
  "('s, cached_value, nat) cache_manager \<Rightarrow> balances_world \<Rightarrow> int \<Rightarrow> int \<Rightarrow> 's \<Rightarrow> (string + block_timestamp option) \<times> 's" where
  "getBlockAtDate C W chain date s =
     (case getOrLoad C (''24hour_ago_block_'' @ show_int chain @ ''_'' @ show_int date)
         (\<lambda>s. (Inr (case bw_blockFromDate W chain date of Inr b \<Rightarrow> Val (CachedBlock b) | Inl e \<Rightarrow> Undef), s)) (Some (65 * 60)) s of
        (Inr (Val (CachedBlock b)), s1) \<Rightarrow> (Inr (Some b), s1)
      | (Inr (Val _), s1) \<Rightarrow> (Inl ''TypeError'', s1)
      | (Inr _, s1) \<Rightarrow> (Inr None, s1)
      | (Inl e, s1) \<Rightarrow> (Inl e, s1))"

definition assetsOrError :: "(string + cached_value js_value) \<Rightarrow> string + asset_info list" where
  "assetsOrError r = (case r of Inl e \<Rightarrow> Inl e | Inr (Val (CachedAssets as)) \<Rightarrow> Inr as | Inr _ \<Rightarrow> Inl ''TypeError'')"

definition getAssetsToHandle ::
  "('s, cached_value, nat) cache_manager \<Rightarrow> balances_world \<Rightarrow> nat \<Rightarrow> int \<Rightarrow> string list \<Rightarrow> 's \<Rightarrow> (string + asset_info list) \<times> 's" where
  "getAssetsToHandle C W ttl chainId assets s =
     (if assets \<noteq> [] then (bw_getAssets W chainId assets, s)
      else (case getOrLoad C (''accounted_assets_'' @ show_int chainId)
          (\<lambda>s. (case bw_getAccountedAssets W chainId of Inl e \<Rightarrow> Inl e | Inr as \<Rightarrow> Inr (Val (CachedAssets as)), s)) (Some ttl) s of
        (r, s1) \<Rightarrow> (assetsOrError r, s1)))"

definition balancesKey :: "int \<Rightarrow> string \<Rightarrow> string list \<Rightarrow> block_timestamp option \<Rightarrow> string" where
  "balancesKey chainId address assets block = join_with ''-'' [show_int chainId, address, join_with '','' assets,
     (case block of Some b \<Rightarrow> show_int (bt_block b) | None \<Rightarrow> ''latest'')]"

text \<open>A strategy that fails gives an error in place of balances, and its answer is not cached.\<close>

definition getBalancesSafe :: "balance_reader \<Rightarrow> int \<Rightarrow> string \<Rightarrow> string list \<Rightarrow> block_timestamp option \<Rightarrow> partial_balances" where
  "getBalancesSafe strategy chainId address assets block = (case strategy address chainId assets block of
       Inr bs \<Rightarrow> \<lparr> pb_address = address, pb_errors = [], pb_balances = bs \<rparr>
     | Inl e \<Rightarrow> \<lparr> pb_address = address, pb_errors = [\<lparr> be_chainId = chainId, be_message = e, be_statusCode = 500 \<rparr>], pb_balances = [] \<rparr>)"

definition getBalancesForChainForAddress ::
  "('s, cached_value, nat) cache_manager \<Rightarrow> balance_reader \<Rightarrow> int \<Rightarrow> string list \<Rightarrow> block_timestamp option \<Rightarrow> string \<Rightarrow> 's
    \<Rightarrow> (string + partial_balances) \<times> 's" where
  "getBalancesForChainForAddress C strategy chainId assets block address s =
     (let key = balancesKey chainId address assets block;
          ttl = (if block \<noteq> None then 65 * 60 else 50)
      in case cm_get C key s of
           Val (CachedBalances r) \<Rightarrow> (Inr r, s)
         | Val _ \<Rightarrow> (Inl ''TypeError'', s)
         | _ \<Rightarrow> (let final = getBalancesSafe strategy chainId address assets block
              in (Inr final, if pb_errors final = [] then cm_set C key (Val (CachedBalances final)) (Some ttl) s else s)))"

definition assetOf :: "asset_info list \<Rightarrow> string \<Rightarrow> asset_info option" where
  "assetOf assets a = find (\<lambda>x. as_address x = a) (rev assets)"

definition addAssetInformation :: "asset_info list \<Rightarrow> token_balance \<Rightarrow> token_balance" where
  "addAssetInformation assets balance = (case assetOf assets (tb_address balance) of
       None \<Rightarrow> balance
     | Some asset \<Rightarrow>
         (let amount = num_div (text_number (tb_amount balance)) (Some (10 ^ as_decimals asset));
              b1 = balance\<lparr> tb_symbol := as_symbol asset, tb_name := as_name asset, tb_decimals := Some (as_decimals asset),
                tb_icon := as_icon asset, tb_decimalsAmount := Val amount \<rparr>
          in if truthyValue (as_price asset)
             then b1\<lparr> tb_tokenPriceUSD := as_price asset, tb_totalPriceUSD := Val (num_mul amount (numberOf (as_price asset))) \<rparr>
             else b1))"

definition mapBalances :: "(token_balance \<Rightarrow> token_balance) \<Rightarrow> partial_balances list \<Rightarrow> partial_balances list" where
  "mapBalances f results = map (\<lambda>r. r\<lparr> pb_balances := map f (pb_balances r) \<rparr>) results"

definition addAssetsInformation :: "asset_info list \<Rightarrow> partial_balances list \<Rightarrow> partial_balances list" where
  "addAssetsInformation assets results = mapBalances (addAssetInformation assets) results"

definition hasBalance :: "token_balance \<Rightarrow> bool" where
  "hasBalance b \<longleftrightarrow> tb_decimalsAmount b \<noteq> Undef \<and> (case text_number (tb_amount b) of Some n \<Rightarrow> 0 < n | None \<Rightarrow> False)"

definition applyPrice :: "(string, js_num) js_map \<Rightarrow> token_balance \<Rightarrow> token_balance" where
  "applyPrice prices b = (case js_get prices (tb_address b) of
       Some price \<Rightarrow> if truthyValue price
         then b\<lparr> tb_tokenPriceUSD := price, tb_totalPriceUSD := Val (num_mul (numberOf (tb_decimalsAmount b)) (numberOf price)) \<rparr> else b
     | None \<Rightarrow> b)"

definition applyHistoricalPrices :: "balances_world \<Rightarrow> int \<Rightarrow> partial_balances list \<Rightarrow> block_timestamp \<Rightarrow> string + partial_balances list" where
  "applyHistoricalPrices W chain results block =
     (let tokensWithBalances = concat (map (\<lambda>r. map tb_address (filter hasBalance (pb_balances r))) results)
      in sum_bind (bw_getBulkPriceAtTimestamp W tokensWithBalances chain (bt_timestamp block)) (\<lambda>prices.
           Inr (mapBalances (applyPrice prices) results)))"

text \<open>Without a block, the balances are the latest ones.\<close>

definition getBalancesPerChain ::
  "('s, cached_value, nat) cache_manager \<Rightarrow> balances_world \<Rightarrow> nat \<Rightarrow> string list \<Rightarrow> string list \<Rightarrow> int option \<Rightarrow> int \<Rightarrow> 's
    \<Rightarrow> (string + partial_balances list) \<times> 's" where
  "getBalancesPerChain C W ttl addresses assets atTime chainId s =
     (case getAssetsToHandle C W ttl chainId assets s of
        (Inl e, s1) \<Rightarrow> (Inl e, s1)
      | (Inr assetsToHandle, s1) \<Rightarrow>
          (case (case atTime of None \<Rightarrow> (Inr None, s1) | Some t \<Rightarrow> getBlockAtDate C W chainId t s1) of
             (Inl e, s2) \<Rightarrow> (Inl e, s2)
           | (Inr block, s2) \<Rightarrow>
               (case requestAll (getBalancesForChainForAddress C (bw_strategy W (getStrategyForNetwork chainId)) chainId
                   (map as_address assetsToHandle) block) addresses s2 of
                  (Inl e, s3) \<Rightarrow> (Inl e, s3)
                | (Inr balances, s3) \<Rightarrow>
                    (let informed = addAssetsInformation assetsToHandle balances
                     in (case block of None \<Rightarrow> Inr informed | Some b \<Rightarrow> applyHistoricalPrices W chainId informed b, s3)))))"

section \<open>Balances of accounts\<close>

definition partialUsd :: "token_balance list \<Rightarrow> rat" where
  "partialUsd balances = foldl (\<lambda>sum b. sum + (if truthyValue (tb_totalPriceUSD b) then valueOf (numberOf (tb_totalPriceUSD b)) else 0)) 0 balances"

definition visible :: "token_balance \<Rightarrow> bool" where
  "visible b \<longleftrightarrow> tb_address b \<notin> set BLACKLISTED_TOKENS"

definition mergeBalance :: "(string, account_balance) js_map \<Rightarrow> partial_balances \<Rightarrow> (string, account_balance) js_map" where
  "mergeBalance response r =
     (let account = (case js_get response (pb_address r) of Some a \<Rightarrow> a
          | None \<Rightarrow> \<lparr> ab_account = pb_address r, ab_tokens = [], ab_totalUsd = 0, ab_errors = [] \<rparr>)
      in js_put response (pb_address r) (account\<lparr> ab_tokens := ab_tokens account @ filter visible (pb_balances r),
           ab_errors := ab_errors account @ pb_errors r, ab_totalUsd := ab_totalUsd account + partialUsd (pb_balances r) \<rparr>))"

definition mergeBalances :: "partial_balances list \<Rightarrow> (string, account_balance) js_map" where
  "mergeBalances results = foldl mergeBalance [] results"

definition filterIsBlacklisted :: "balances_world \<Rightarrow> string list \<Rightarrow> string list" where
  "filterIsBlacklisted W addresses = filter (\<lambda>a. to_lower a \<in> set (bw_blacklisted W)) addresses"

definition excludeBlacklisted :: "balances_world \<Rightarrow> string list \<Rightarrow> string list" where
  "excludeBlacklisted W addresses = excludeSecondArray addresses (filterIsBlacklisted W addresses)"

definition getBalance ::
  "address_lib \<Rightarrow> ('s, cached_value, nat) cache_manager \<Rightarrow> balances_world \<Rightarrow> nat \<Rightarrow> string list \<Rightarrow> int list \<Rightarrow> string list \<Rightarrow> int option \<Rightarrow> 's
    \<Rightarrow> (string + (string, account_balance) js_map) \<times> 's" where
  "getBalance L C W ttl addresses chainIds assets atTime s =
     (let chainsToHandle = getUniqList chainIds;
          addressesToHandle = excludeBlacklisted W (unifyAddresses L (getUniqList addresses))
      in if addressesToHandle = [] \<or> chainsToHandle = [] then (Inr [], s)
         else (case requestAll (getBalancesPerChain C W ttl addressesToHandle assets atTime) chainsToHandle s of
             (Inl e, s1) \<Rightarrow> (Inl e, s1)
           | (Inr results, s1) \<Rightarrow> (Inr (mergeBalances (concat results)), s1)))"

section \<open>Changes of a day\<close>

record token_change =
  tc_chainId :: int
  tc_address :: string
  tc_balance :: js_number
  tc_price :: js_number
  tc_totalUSD :: js_number

record account_returns =
  ar_account :: string
  ar_errors :: "balance_error list"
  ar_totalUSD :: rat
  ar_chains :: "(int \<times> rat) list"
  ar_tokens :: "token_change list"

definition getTokenKey :: "token_balance \<Rightarrow> string" where
  "getTokenKey t = show_int (tb_chainId t) @ ''_'' @ tb_address t"

definition tokenMap :: "token_balance list \<Rightarrow> (string, token_balance) js_map" where
  "tokenMap tokens = foldl (\<lambda>m t. js_put m (getTokenKey t) t) [] tokens"

fun getTokenChange :: "token_balance option \<Rightarrow> token_balance option \<Rightarrow> token_change option" where
  "getTokenChange None None = None"
| "getTokenChange (Some t) None = Some \<lparr> tc_chainId = tb_chainId t, tc_address = tb_address t,
     tc_balance = num_sub (Some 0) (numberOf (tb_decimalsAmount t)), tc_price = Some 0, tc_totalUSD = num_sub (Some 0) (numberOf (tb_totalPriceUSD t)) \<rparr>"
| "getTokenChange None (Some n) = Some \<lparr> tc_chainId = tb_chainId n, tc_address = tb_address n,
     tc_balance = numberOf (tb_decimalsAmount n), tc_price = Some 0, tc_totalUSD = numberOf (tb_totalPriceUSD n) \<rparr>"
| "getTokenChange (Some t) (Some n) = Some \<lparr> tc_chainId = tb_chainId n, tc_address = tb_address n,
     tc_balance = num_sub (numberOf (tb_decimalsAmount n)) (numberOf (tb_decimalsAmount t)),
     tc_price = num_sub (numberOf (tb_tokenPriceUSD n)) (numberOf (tb_tokenPriceUSD t)),
     tc_totalUSD = num_sub (numberOf (tb_totalPriceUSD n)) (numberOf (tb_totalPriceUSD t)) \<rparr>"

definition addChange :: "account_returns \<Rightarrow> token_change option \<Rightarrow> account_returns" where
  "addChange acc change = (case change of
       None \<Rightarrow> acc
     | Some tc \<Rightarrow> if \<not> truthy_num (tc_totalUSD tc) then acc
         else acc\<lparr> ar_tokens := ar_tokens acc @ [tc], ar_totalUSD := ar_totalUSD acc + valueOf (tc_totalUSD tc),
           ar_chains := map (\<lambda>(c, t). if c = tc_chainId tc then (c, t + valueOf (tc_totalUSD tc)) else (c, t)) (ar_chains acc) \<rparr>)"

definition accountReturns :: "string list \<Rightarrow> string \<Rightarrow> account_balance \<Rightarrow> account_balance \<Rightarrow> account_returns" where
  "accountReturns tokenKeys account nowA thenA =
     foldl (\<lambda>acc k. addChange acc (getTokenChange (js_get (tokenMap (ab_tokens thenA)) k) (js_get (tokenMap (ab_tokens nowA)) k)))
       \<lparr> ar_account = account, ar_errors = ab_errors nowA @ ab_errors thenA, ar_totalUSD = 0,
         ar_chains = map (\<lambda>c. (c, 0)) (js_set (map tb_chainId (ab_tokens nowA))), ar_tokens = [] \<rparr> tokenKeys"

definition calculate24HourReturns ::
  "(string, account_balance) js_map \<Rightarrow> (string, account_balance) js_map \<Rightarrow> string + (string, account_returns) js_map" where
  "calculate24HourReturns nowB thenB =
     (let accounts = js_set (js_keys nowB @ js_keys thenB);
          keysOf = (\<lambda>b. concat (map (\<lambda>(_, a). map getTokenKey (ab_tokens a)) b));
          tokenKeys = js_set (keysOf thenB @ keysOf nowB)
      in sum_map (\<lambda>account. case (js_get nowB account, js_get thenB account) of
           (Some nowA, Some thenA) \<Rightarrow> Inr (account, accountReturns tokenKeys account nowA thenA)
         | _ \<Rightarrow> Inl ''TypeError'') accounts)"

definition get24HourReturns ::
  "address_lib \<Rightarrow> ('s, cached_value, nat) cache_manager \<Rightarrow> balances_world \<Rightarrow> nat \<Rightarrow> string list \<Rightarrow> int list \<Rightarrow> string list \<Rightarrow> int \<Rightarrow> 's
    \<Rightarrow> (string + (string, account_returns) js_map) \<times> 's" where
  "get24HourReturns L C W ttl addresses chainIds assets pastDate s =
     (case getBalance L C W ttl addresses chainIds assets None s of
        (r1, s1) \<Rightarrow> (case getBalance L C W ttl addresses chainIds assets (Some pastDate) s1 of
          (r2, s2) \<Rightarrow> (sum_bind r1 (\<lambda>nowB. sum_bind r2 (\<lambda>thenB. calculate24HourReturns nowB thenB)), s2)))"

section \<open>Merged accounts\<close>

lemma partialUsd_sum: "partialUsd bs = sum_list (map (\<lambda>b. amountOf (tb_totalPriceUSD b)) bs)"
proof -
  have v: "(if truthyValue n then amountOf n else 0) = amountOf n" for n
    by (cases n rule: numberOf.cases) (auto simp: truthy_num_def valueOf_def split: option.splits)
  have "foldl (\<lambda>sum b. sum + amountOf (tb_totalPriceUSD b)) x bs = x + sum_list (map (\<lambda>b. amountOf (tb_totalPriceUSD b)) bs)" for x
    by (induction bs arbitrary: x) simp_all
  from this[of 0] show ?thesis by (simp add: partialUsd_def v)
qed

lemma merged_account:
  "js_get (mergeBalances results) a = (let own = filter (\<lambda>r. pb_address r = a) results
     in if own = [] then None
        else Some \<lparr> ab_account = a, ab_tokens = filter visible (concat (map pb_balances own)),
          ab_totalUsd = sum_list (map (\<lambda>b. amountOf (tb_totalPriceUSD b)) (concat (map pb_balances own))),
          ab_errors = concat (map pb_errors own) \<rparr>)"
proof (induction results rule: rev_induct)
  case (snoc r rs)
  have "mergeBalances (rs @ [r]) = mergeBalance (mergeBalances rs) r" by (simp add: mergeBalances_def)
  then show ?case
    using snoc by (cases "pb_address r = a") (auto simp: mergeBalance_def Let_def partialUsd_sum filter_concat)
qed (simp add: mergeBalances_def)

text \<open>C13: The answer for an address is made of the partial answers for it and of no others: it lists their visible tokens and their
  errors in order, and is worth all their balances, those of the tokens that are not listed included.\<close>

theorem merged_accounts:
  "js_get (mergeBalances results) a = (let own = filter (\<lambda>r. pb_address r = a) results
     in if own = [] then None
        else Some \<lparr> ab_account = a, ab_tokens = filter visible (concat (map pb_balances own)),
          ab_totalUsd = sum_list (map (\<lambda>b. amountOf (tb_totalPriceUSD b)) (concat (map pb_balances own))),
          ab_errors = concat (map pb_errors own) \<rparr>)"
  by (rule merged_account)

text \<open>Two spellings of one address are told apart before they are unified, so that its balances are counted twice.\<close>

lemma spellings_counted_twice:
  assumes "a \<noteq> b" "unifyAddress L a = unifyAddress L b"
  shows "unifyAddresses L (getUniqList [a, b]) = [unifyAddress L a, unifyAddress L a]"
    and "js_get (mergeBalances [r, r]) (pb_address r) = Some acc \<Longrightarrow> ab_totalUsd acc = 2 * partialUsd (pb_balances r)"
  using assms by (auto simp: unifyAddresses_def getUniqList_def js_set_def set_add_def merged_account partialUsd_sum Let_def)

section \<open>Sums over keys\<close>

lemma tokenMap_eq: "distinct (map getTokenKey ts) \<Longrightarrow> tokenMap ts = map (\<lambda>t. (getTokenKey t, t)) ts"
proof (induction ts rule: rev_induct)
  case (snoc t ts)
  have "tokenMap (ts @ [t]) = js_put (tokenMap ts) (getTokenKey t) t" by (simp add: tokenMap_def)
  then show ?case using snoc by (simp add: js_put_new js_keys_def o_def)
qed (simp add: tokenMap_def)

lemma sum_by_key:
  fixes f :: "token_balance \<Rightarrow> rat"
  assumes "distinct (map getTokenKey ts)" "distinct ks" "getTokenKey ` set ts \<subseteq> set ks"
  shows "sum_list (map (\<lambda>k. case js_get (tokenMap ts) k of Some t \<Rightarrow> f t | None \<Rightarrow> 0) ks) = sum_list (map f ts)"
proof -
  let ?g = "\<lambda>k. case js_get (tokenMap ts) k of Some t \<Rightarrow> f t | None \<Rightarrow> 0"
  have get: "js_get (tokenMap ts) (getTokenKey t) = Some t" if "t \<in> set ts" for t
    using that assms(1) by (simp add: tokenMap_eq map_of_eq_Some_iff o_def) 
  have none: "js_get (tokenMap ts) k = None" if "k \<notin> getTokenKey ` set ts" for k
    using that assms(1) by (auto simp: tokenMap_eq map_of_eq_None_iff image_iff)
  have "sum_list (map ?g ks) = sum ?g (set ks)" using assms(2) by (simp add: sum_list_distinct_conv_sum_set)
  also have "\<dots> = sum ?g (getTokenKey ` set ts)"
    using assms(3) none by (intro sum.mono_neutral_right) auto
  also have "\<dots> = sum (\<lambda>t. ?g (getTokenKey t)) (set ts)"
    using assms(1) by (simp add: sum.reindex distinct_map o_def)
  also have "\<dots> = sum f (set ts)" using get by (intro sum.cong) simp_all
  also have "\<dots> = sum_list (map f ts)" using assms(1) by (simp add: sum_list_distinct_conv_sum_set distinct_map)
  finally show ?thesis .
qed

section \<open>Totals of changes\<close>

definition changeOf :: "account_balance \<Rightarrow> account_balance \<Rightarrow> string \<Rightarrow> token_change option" where
  "changeOf nowA thenA k = getTokenChange (js_get (tokenMap (ab_tokens thenA)) k) (js_get (tokenMap (ab_tokens nowA)) k)"

definition changeWorth :: "token_change option \<Rightarrow> rat" where
  "changeWorth c = (case c of Some tc \<Rightarrow> valueOf (tc_totalUSD tc) | None \<Rightarrow> 0)"

definition listed :: "token_change option list \<Rightarrow> token_change list" where
  "listed cs = concat (map (\<lambda>c. case c of Some tc \<Rightarrow> if truthy_num (tc_totalUSD tc) then [tc] else [] | None \<Rightarrow> []) cs)"

lemma not_truthy_value: "\<not> truthy_num n \<Longrightarrow> valueOf n = 0"
  by (auto simp: truthy_num_def valueOf_def)

lemma foldl_addChange:
  "foldl addChange acc cs = acc\<lparr> ar_tokens := ar_tokens acc @ listed cs, ar_totalUSD := ar_totalUSD acc + sum_list (map changeWorth cs),
    ar_chains := map (\<lambda>(c, t). (c, t + sum_list (map (\<lambda>tc. if tc_chainId tc = c then valueOf (tc_totalUSD tc) else 0) (listed cs)))) (ar_chains acc) \<rparr>"
proof (induction cs arbitrary: acc)
  case Nil
  then show ?case by (cases acc) (simp add: listed_def case_prod_beta)
next
  case (Cons c cs)
  show ?case
  proof (cases "\<exists>tc. c = Some tc \<and> truthy_num (tc_totalUSD tc)")
    case True
    then obtain tc where tc: "c = Some tc" "truthy_num (tc_totalUSD tc)" by blast
    then have "listed (c # cs) = tc # listed cs" "changeWorth c = valueOf (tc_totalUSD tc)"
      by (simp_all add: listed_def changeWorth_def)
    moreover have "addChange acc c = acc\<lparr> ar_tokens := ar_tokens acc @ [tc], ar_totalUSD := ar_totalUSD acc + valueOf (tc_totalUSD tc),
        ar_chains := map (\<lambda>(c, t). (c, t + (if tc_chainId tc = c then valueOf (tc_totalUSD tc) else 0))) (ar_chains acc) \<rparr>"
    proof -
      have "(\<lambda>(c, t). if c = tc_chainId tc then (c, t + valueOf (tc_totalUSD tc)) else (c, t))
          = (\<lambda>(c, t). (c, t + (if tc_chainId tc = c then valueOf (tc_totalUSD tc) else 0)))" by (auto simp: fun_eq_iff)
      then show ?thesis using tc by (simp add: addChange_def)
    qed
    ultimately show ?thesis by (simp add: Cons case_prod_beta add.assoc o_def)
  next
    case False
    then have "addChange acc c = acc" "listed (c # cs) = listed cs" "changeWorth c = 0"
      by (auto simp: addChange_def listed_def changeWorth_def not_truthy_value split: option.splits)
    then show ?thesis by (simp add: Cons)
  qed
qed

lemma accountReturns_eq:
  "accountReturns ks account nowA thenA = \<lparr> ar_account = account, ar_errors = ab_errors nowA @ ab_errors thenA,
     ar_totalUSD = sum_list (map (\<lambda>k. changeWorth (changeOf nowA thenA k)) ks),
     ar_chains = map (\<lambda>c. (c, sum_list (map (\<lambda>tc. if tc_chainId tc = c then valueOf (tc_totalUSD tc) else 0)
       (listed (map (changeOf nowA thenA) ks))))) (js_set (map tb_chainId (ab_tokens nowA))),
     ar_tokens = listed (map (changeOf nowA thenA) ks) \<rparr>"
proof -
  have fold: "foldl (\<lambda>acc k. addChange acc (changeOf nowA thenA k)) acc ks = foldl addChange acc (map (changeOf nowA thenA) ks)" for acc
    by (simp add: foldl_map)
  show ?thesis
    unfolding accountReturns_def changeOf_def[symmetric] fold foldl_addChange by (simp add: o_def)
qed

lemma changeWorth_sub:
  "(\<And>b c. x = Some b \<Longrightarrow> y = Some c \<Longrightarrow> numberOf (tb_totalPriceUSD b) = None \<longleftrightarrow> numberOf (tb_totalPriceUSD c) = None) \<Longrightarrow>
    changeWorth (getTokenChange y x) = (case x of Some b \<Rightarrow> amountOf (tb_totalPriceUSD b) | None \<Rightarrow> 0)
      - (case y of Some c \<Rightarrow> amountOf (tb_totalPriceUSD c) | None \<Rightarrow> 0)"
proof (cases x; cases y)
  fix b c assume pr: "\<And>b c. x = Some b \<Longrightarrow> y = Some c \<Longrightarrow> numberOf (tb_totalPriceUSD b) = None \<longleftrightarrow> numberOf (tb_totalPriceUSD c) = None"
    and xy: "x = Some b" "y = Some c"
  show ?thesis using pr[OF xy]
    by (cases "numberOf (tb_totalPriceUSD b)"; cases "numberOf (tb_totalPriceUSD c)") (simp_all add: xy changeWorth_def valueOf_def)
next
  fix c assume "x = None" "y = Some c"
  then show ?thesis by (cases "numberOf (tb_totalPriceUSD c)") (simp_all add: changeWorth_def valueOf_def)
qed (simp_all add: changeWorth_def)

lemma tokenMap_get: "js_get (tokenMap ts) k = Some t \<Longrightarrow> t \<in> set ts \<and> getTokenKey t = k"
proof (induction ts rule: rev_induct)
  case (snoc u ts)
  then show ?case by (cases "k = getTokenKey u") (auto simp: tokenMap_def)
qed (simp add: tokenMap_def)

lemma sum_map_lookup:
  "sum_map f ks = Inr rs \<Longrightarrow> k \<in> set ks \<Longrightarrow> (\<And>j r. j \<in> set ks \<Longrightarrow> f j = Inr r \<Longrightarrow> fst r = j) \<Longrightarrow> \<exists>v. js_get rs k = Some v \<and> f k = Inr (k, v)"
proof (induction ks arbitrary: rs)
  case (Cons j ks)
  then obtain r rs' where r: "f j = Inr r" "sum_map f ks = Inr rs'" "rs = r # rs'" by (auto simp: sum_bind_Inr_iff)
  have "fst r = j" using Cons.prems(3) r(1) by simp
  then show ?case using Cons.IH[OF r(2)] Cons.prems(2,3) r by (cases r; cases "k = j") auto
qed simp

lemma changeWorth_listed: "sum_list (map changeWorth cs) = sum_list (map (\<lambda>tc. valueOf (tc_totalUSD tc)) (listed cs))"
  by (induction cs) (auto simp: listed_def changeWorth_def not_truthy_value split: option.split)

lemma sum_over_keys:
  fixes v :: "'a \<Rightarrow> rat"
  assumes "distinct cs"
  shows "sum_list (map (\<lambda>c. sum_list (map (\<lambda>t. if k t = c then v t else 0) ts)) cs) = sum_list (map v (filter (\<lambda>t. k t \<in> set cs) ts))"
proof (induction ts)
  case (Cons t ts)
  have "sum_list (map (\<lambda>c. if k t = c then v t else 0) cs) = (if k t \<in> set cs then v t else 0)"
    using assms by (induction cs) auto
  then show ?case by (simp add: sum_list_addf Cons)
qed simp

lemma sum_split: "sum_list (map v ts) = sum_list (map v (filter P ts)) + sum_list (map v (filter (\<lambda>t. \<not> P t) ts))" for v :: "'a \<Rightarrow> rat"
  by (induction ts) simp_all

text \<open>C14: When no token of an account is listed twice and each token that is listed both times is priced both times or never, the change of the
  account over the day is what its tokens are worth now less what they were worth then.  Only the chains of the tokens that are held now are
  shown, each with the sum of the changes listed for it; what changed on other chains is in the change of the account, but on no chain.\<close>

theorem returns_total:
  assumes "calculate24HourReturns nowB thenB = Inr rs" "js_get nowB a = Some x" "js_get thenB a = Some y"
    and "distinct (map getTokenKey (ab_tokens x))" "distinct (map getTokenKey (ab_tokens y))"
    and "\<And>b c. b \<in> set (ab_tokens x) \<Longrightarrow> c \<in> set (ab_tokens y) \<Longrightarrow> getTokenKey b = getTokenKey c \<Longrightarrow>
      numberOf (tb_totalPriceUSD b) = None \<longleftrightarrow> numberOf (tb_totalPriceUSD c) = None"
  shows "\<exists>r. js_get rs a = Some r \<and>
    ar_totalUSD r = sum_list (map (\<lambda>b. amountOf (tb_totalPriceUSD b)) (ab_tokens x)) - sum_list (map (\<lambda>b. amountOf (tb_totalPriceUSD b)) (ab_tokens y)) \<and>
    ar_chains r = map (\<lambda>c. (c, sum_list (map (\<lambda>tc. if tc_chainId tc = c then valueOf (tc_totalUSD tc) else 0) (ar_tokens r))))
      (js_set (map tb_chainId (ab_tokens x))) \<and>
    ar_totalUSD r = sum_list (map snd (ar_chains r))
      + sum_list (map (\<lambda>tc. valueOf (tc_totalUSD tc)) (filter (\<lambda>tc. tc_chainId tc \<notin> tb_chainId ` set (ab_tokens x)) (ar_tokens r)))"
proof -
  let ?keysOf = "\<lambda>b. concat (map (\<lambda>(_, a). map getTokenKey (ab_tokens a)) b)"
  let ?ks = "js_set (?keysOf thenB @ ?keysOf nowB)"
  let ?f = "\<lambda>account. case (js_get nowB account, js_get thenB account) of
      (Some nowA, Some thenA) \<Rightarrow> Inr (account, accountReturns ?ks account nowA thenA) | _ \<Rightarrow> Inl ''TypeError''"
  have run: "sum_map ?f (js_set (js_keys nowB @ js_keys thenB)) = Inr rs"
    using assms(1) by (simp add: calculate24HourReturns_def Let_def)
  have a: "a \<in> set (js_set (js_keys nowB @ js_keys thenB))"
    using assms(2) js_keys_get[of a nowB] by simp
  have keyed: "?f j = Inr r \<Longrightarrow> fst r = j" for j r by (auto split: option.splits)
  obtain r where r: "js_get rs a = Some r" "?f a = Inr (a, r)" using sum_map_lookup[OF run a keyed] by blast
  then have eq: "r = accountReturns ?ks a x y" using assms(2,3) by simp
  have keys: "getTokenKey ` set (ab_tokens x) \<subseteq> set ?ks" "getTokenKey ` set (ab_tokens y) \<subseteq> set ?ks"
    using map_of_SomeD[OF assms(2)] map_of_SomeD[OF assms(3)] by force+
  have "changeWorth (changeOf x y k) = (case js_get (tokenMap (ab_tokens x)) k of Some b \<Rightarrow> amountOf (tb_totalPriceUSD b) | None \<Rightarrow> 0)
      - (case js_get (tokenMap (ab_tokens y)) k of Some c \<Rightarrow> amountOf (tb_totalPriceUSD c) | None \<Rightarrow> 0)" for k
    unfolding changeOf_def by (intro changeWorth_sub) (use tokenMap_get assms(6) in metis)
  then have "ar_totalUSD r = sum_list (map (\<lambda>b. amountOf (tb_totalPriceUSD b)) (ab_tokens x))
      - sum_list (map (\<lambda>b. amountOf (tb_totalPriceUSD b)) (ab_tokens y))"
    using sum_by_key[OF assms(4) distinct_js_set keys(1)] sum_by_key[OF assms(5) distinct_js_set keys(2)]
    by (simp add: eq accountReturns_eq sum_list_subtractf)
  moreover have "ar_totalUSD r = sum_list (map snd (ar_chains r))
      + sum_list (map (\<lambda>tc. valueOf (tc_totalUSD tc)) (filter (\<lambda>tc. tc_chainId tc \<notin> tb_chainId ` set (ab_tokens x)) (ar_tokens r)))"
  proof -
    let ?ts = "listed (map (changeOf x y) ?ks)" and ?v = "\<lambda>tc. valueOf (tc_totalUSD tc)"
    have "ar_totalUSD r = sum_list (map ?v ?ts)"
      using changeWorth_listed[of "map (changeOf x y) ?ks"] by (simp add: eq accountReturns_eq o_def)
    also have "\<dots> = sum_list (map ?v (filter (\<lambda>tc. tc_chainId tc \<in> set (js_set (map tb_chainId (ab_tokens x)))) ?ts))
        + sum_list (map ?v (filter (\<lambda>tc. tc_chainId tc \<notin> set (js_set (map tb_chainId (ab_tokens x)))) ?ts))" by (rule sum_split)
    finally show ?thesis
      using sum_over_keys[OF distinct_js_set, of tc_chainId ?v ?ts "map tb_chainId (ab_tokens x)"]
      by (simp add: eq accountReturns_eq o_def)
  qed
  ultimately show ?thesis using r(1) by (simp add: eq accountReturns_eq)
qed

section \<open>Without a block\<close>

lemma changeWorth_same: "changeWorth (getTokenChange x x) = 0" "listed [getTokenChange x x] = []"
proof -
  have "truthy_num (num_sub n n) = False" "valueOf (num_sub n n) = 0" for n
    by (cases n; simp add: truthy_num_def valueOf_def)+
  then show "changeWorth (getTokenChange x x) = 0" "listed [getTokenChange x x] = []"
    by (cases x; simp add: changeWorth_def listed_def)+
qed

lemma accountReturns_same: "ar_totalUSD (accountReturns ks a x x) = 0 \<and> ar_tokens (accountReturns ks a x x) = []"
proof -
  have "changeWorth (changeOf x x k) = 0" "listed [changeOf x x k] = []" for k
    by (simp_all add: changeOf_def changeWorth_same)
  moreover have "listed (map (changeOf x x) ks) = []" for ks
  proof (induction ks)
    case (Cons k ks)
    have "listed (c # cs) = listed [c] @ listed cs" for c cs by (simp add: listed_def)
    then show ?case using Cons calculation(2)[of k] by (metis append_Nil list.simps(9))
  qed (simp add: listed_def)
  ultimately show ?thesis by (simp add: accountReturns_eq)
qed

lemma sum_map_member: "sum_map f ks = Inr rs \<Longrightarrow> y \<in> set rs \<Longrightarrow> \<exists>k\<in>set ks. f k = Inr y"
  by (induction ks arbitrary: rs) (auto simp: sum_bind_Inr_iff)

lemma calculate_same:
  assumes "calculate24HourReturns b b = Inr rs" "(a, r) \<in> set rs"
  shows "ar_totalUSD r = 0 \<and> ar_tokens r = []"
proof -
  let ?ks = "js_set (concat (map (\<lambda>(_, a). map getTokenKey (ab_tokens a)) b) @ concat (map (\<lambda>(_, a). map getTokenKey (ab_tokens a)) b))"
  let ?f = "\<lambda>account. case (js_get b account, js_get b account) of
      (Some nowA, Some thenA) \<Rightarrow> Inr (account, accountReturns ?ks account nowA thenA) | _ \<Rightarrow> Inl ''TypeError''"
  have "sum_map ?f (js_set (js_keys b @ js_keys b)) = Inr rs"
    using assms(1) by (simp add: calculate24HourReturns_def Let_def)
  from sum_map_member[OF this assms(2)] obtain k where "?f k = Inr (a, r)" by (elim bexE)
  then show ?thesis using accountReturns_same by (cases "js_get b k") auto
qed

text \<open>A block that is not found turns the balances of yesterday into the latest ones: the answer for a chain is the same with the
  date as without, no error is reported, and the changes of balances that are the same are empty for every account.\<close>

theorem missing_block_no_changes:
  assumes "bw_blockFromDate W chainId date = Inl e"
    and "cm_get C (''24hour_ago_block_'' @ show_int chainId @ ''_'' @ show_int date) (snd (getAssetsToHandle C W ttl chainId assets s)) = Undef"
  shows "getBalancesPerChain C W ttl addresses assets (Some date) chainId s = getBalancesPerChain C W ttl addresses assets None chainId s \<and>
    (\<forall>b rs a r. calculate24HourReturns b b = Inr rs \<longrightarrow> (a, r) \<in> set rs \<longrightarrow> ar_totalUSD r = 0 \<and> ar_tokens r = [])"
proof
  have "getBlockAtDate C W chainId date (snd (getAssetsToHandle C W ttl chainId assets s))
      = (Inr None, snd (getAssetsToHandle C W ttl chainId assets s))"
    using assms by (simp add: getBlockAtDate_def getOrLoad_def)
  then show "getBalancesPerChain C W ttl addresses assets (Some date) chainId s = getBalancesPerChain C W ttl addresses assets None chainId s"
    by (cases "fst (getAssetsToHandle C W ttl chainId assets s)"; cases "getAssetsToHandle C W ttl chainId assets s")
      (simp_all add: getBalancesPerChain_def)
qed (use calculate_same in blast)

section \<open>Balances from a contract\<close>

definition addressAt :: "string list \<Rightarrow> nat \<Rightarrow> string" where
  "addressAt tokens i = (if i < length tokens then tokens ! i else ''undefined'')"

definition COIN_ADDRESS :: string where
  "COIN_ADDRESS = ''0x0000000000000000000000000000000000000000''"

definition bareBalance :: "int \<Rightarrow> string \<Rightarrow> string \<Rightarrow> token_balance" where
  "bareBalance chainId a amount = \<lparr> tb_chainId = chainId, tb_address = a, tb_symbol = None, tb_name = None, tb_icon = None, tb_decimals = None,
     tb_amount = amount, tb_decimalsAmount = Undef, tb_tokenPriceUSD = Undef, tb_totalPriceUSD = Undef \<rparr>"

definition positive :: "token_balance \<Rightarrow> bool" where
  "positive b \<longleftrightarrow> (case text_number (tb_amount b) of Some n \<Rightarrow> 0 < n | None \<Rightarrow> False)"

definition batchSizeOf :: "int option \<Rightarrow> int" where
  "batchSizeOf metadataBatchSize = (case metadataBatchSize of Some n \<Rightarrow> if n = 0 then 1000 else n | None \<Rightarrow> 1000)"

text \<open>The native coin is asked for on its own and put back where it was; the other tokens are asked for in batches.  A size of the
  batches that is not positive makes the splitting of the tokens run for ever.\<close>

definition networkGetBalances ::
  "address_lib \<Rightarrow> int option \<Rightarrow> (string \<Rightarrow> string + string) \<Rightarrow> (string \<Rightarrow> string list \<Rightarrow> string + string list) \<Rightarrow> string \<Rightarrow> int \<Rightarrow> string list
    \<Rightarrow> (string + token_balance list) option" where
  "networkGetBalances L metadataBatchSize getCoinBalance contractBalances address chainId originalTokens =
     (if originalTokens = [] \<or> \<not> isETHAddress L address then Some (Inr [])
      else let nativeCoinIndex = length (takeWhile (\<lambda>t. t \<noteq> COIN_ADDRESS) originalTokens);
               hasNativeCoin = nativeCoinIndex < length originalTokens;
               tokens = (if hasNativeCoin then take nativeCoinIndex originalTokens @ drop (Suc nativeCoinIndex) originalTokens else originalTokens)
           in map_option (\<lambda>chunks.
                sum_bind (if hasNativeCoin then sum_bind (getCoinBalance address) (\<lambda>b. Inr (Some b)) else Inr None) (\<lambda>coinBalance.
                sum_bind (sum_map (contractBalances address) chunks) (\<lambda>tokenBalances.
                  (let (tokens1, balances) = (case coinBalance of
                         Some b \<Rightarrow> (insertAtPosition tokens (int nativeCoinIndex) COIN_ADDRESS, insertAtPosition (concat tokenBalances) (int nativeCoinIndex) b)
                       | None \<Rightarrow> (tokens, concat tokenBalances))
                   in Inr (filter positive (map (\<lambda>(i, b). bareBalance chainId (addressAt tokens1 i) b) (enumerate 0 balances)))))))
              (chunkArray tokens (batchSizeOf metadataBatchSize)))"

lemma first_index: "length (takeWhile (\<lambda>t. t \<noteq> c) ts) < length ts \<longleftrightarrow> c \<in> set ts"
  by (induction ts) auto

lemma insertAt_nat: "i \<le> length xs \<Longrightarrow> insertAtPosition xs (int i) x = take i xs @ x # drop i xs"
  by (simp add: insertAtPosition_def js_slice_def Let_def)

text \<open>C16: The batches do not show in the answer: when the contract answers each batch with the balances of its tokens, an account has
  exactly the requested tokens with a positive balance, each with its own balance, in the order of the request, whatever the size
  of the batches and wherever the native coin is among them.\<close>

theorem network_balances:
  assumes "isETHAddress L address" "0 \<le> batchSizeOf size1" "\<And>ts. contractBalances address ts = Inr (map bal ts)"
    and "getCoinBalance address = Inr (bal COIN_ADDRESS)"
  shows "networkGetBalances L size1 getCoinBalance contractBalances address chainId tokens
    = Some (Inr (filter positive (map (\<lambda>t. bareBalance chainId t (bal t)) tokens)))"
proof -
  have "0 < batchSizeOf size1" using assms(2) by (auto simp: batchSizeOf_def split: option.splits if_splits)
  then obtain n where n: "batchSizeOf size1 = int n" "0 < n" by (metis pos_int_cases)
  have chunks: "chunkArray ts (batchSizeOf size1) = Some (map fst (pieces n 0 ts))" for ts :: "string list"
    using toChunkedArray_pieces[OF n(2), of ts] by (simp add: chunkArray_eq n(1))
  have asked: "sum_map (contractBalances address) (map fst (pieces n 0 ts)) = Inr (map (map bal) (map fst (pieces n 0 ts)))" for ts
    by (rule sum_map_total) (simp add: assms(3))
  have joined: "concat (map (map bal \<circ> fst) (pieces n 0 ts)) = map bal ts" for ts
    by (simp only: map_map[symmetric] map_concat[symmetric] pieces_concat[OF n(2)])
  have placed: "map (\<lambda>(i, b). bareBalance chainId (addressAt ts i) b) (enumerate 0 (map bal ts)) = map (\<lambda>t. bareBalance chainId t (bal t)) ts" for ts
    by (rule nth_equalityI) (simp_all add: nth_enumerate_eq addressAt_def)
  show ?thesis
  proof (cases "COIN_ADDRESS \<in> set tokens")
    case True
    define i where "i = length (takeWhile (\<lambda>t. t \<noteq> COIN_ADDRESS) tokens)"
    have i: "i < length tokens" "tokens ! i = COIN_ADDRESS"
      using True first_index[of COIN_ADDRESS tokens] nth_length_takeWhile[of "\<lambda>t. t \<noteq> COIN_ADDRESS" tokens] by (simp_all add: i_def)
    let ?rest = "take i tokens @ drop (Suc i) tokens"
    have replaced: "insertAtPosition (map f ?rest) (int i) (f COIN_ADDRESS) = map f tokens" for f :: "string \<Rightarrow> string"
    proof -
      have "insertAtPosition (map f ?rest) (int i) (f COIN_ADDRESS) = map f (take i tokens @ tokens ! i # drop (Suc i) tokens)"
        using i by (simp add: insertAt_nat)
      then show ?thesis using i(1) by (simp only: id_take_nth_drop[symmetric])
    qed
    show ?thesis
      using True i replaced[of bal] replaced[of "\<lambda>t. t"]
      by (auto simp: networkGetBalances_def Let_def i_def[symmetric] chunks asked joined assms(1,4) placed simp del: map_append)
  next
    case False
    then have "\<not> length (takeWhile (\<lambda>t. t \<noteq> COIN_ADDRESS) tokens) < length tokens" by (simp add: first_index)
    then show ?thesis by (auto simp: networkGetBalances_def Let_def chunks asked joined placed assms(1))
  qed
qed

section \<open>Witnesses\<close>

definition heldToken :: "int \<Rightarrow> string \<Rightarrow> rat option \<Rightarrow> token_balance" where
  "heldToken chainId a worth = (bareBalance chainId a ''1'')\<lparr> tb_totalPriceUSD := (case worth of Some w \<Rightarrow> Val (Some w) | None \<Rightarrow> Undef) \<rparr>"

definition anAccount :: "token_balance list \<Rightarrow> account_balance" where
  "anAccount tokens = \<lparr> ab_account = ''0xa'', ab_tokens = tokens, ab_totalUsd = 0, ab_errors = [] \<rparr>"

definition todayAccount :: account_balance where
  "todayAccount = anAccount [heldToken 1 ''0xt'' (Some 7), heldToken 1 ''0xu'' None]"

definition yesterdayAccount :: account_balance where
  "yesterdayAccount = anAccount [heldToken 1 ''0xt'' (Some 5), heldToken 2 ''0xt'' (Some 4)]"

theorem returns_total_witness:
  "\<exists>rs r. calculate24HourReturns [(''0xa'', todayAccount)] [(''0xa'', yesterdayAccount)] = Inr rs \<and> js_get rs ''0xa'' = Some r \<and>
    ar_totalUSD r = - 2 \<and> map fst (ar_chains r) = [1] \<and>
    ar_totalUSD r = sum_list (map snd (ar_chains r)) + sum_list (map (\<lambda>tc. valueOf (tc_totalUSD tc)) (filter (\<lambda>tc. tc_chainId tc \<noteq> 1) (ar_tokens r)))"
proof -
  obtain rs where rs: "calculate24HourReturns [(''0xa'', todayAccount)] [(''0xa'', yesterdayAccount)] = Inr rs"
    by (simp add: calculate24HourReturns_def Let_def js_keys_def js_set_def set_add_def)
  have dec: "show_int 1 = ''1''" "show_int 2 = ''2''" by code_simp+
  have "\<exists>r. js_get rs ''0xa'' = Some r \<and> ar_totalUSD r =
      sum_list (map (\<lambda>b. amountOf (tb_totalPriceUSD b)) (ab_tokens todayAccount)) -
      sum_list (map (\<lambda>b. amountOf (tb_totalPriceUSD b)) (ab_tokens yesterdayAccount)) \<and>
      ar_chains r = map (\<lambda>c. (c, sum_list (map (\<lambda>tc. if tc_chainId tc = c then valueOf (tc_totalUSD tc) else 0) (ar_tokens r))))
        (js_set (map tb_chainId (ab_tokens todayAccount))) \<and>
      ar_totalUSD r = sum_list (map snd (ar_chains r)) + sum_list (map (\<lambda>tc. valueOf (tc_totalUSD tc))
        (filter (\<lambda>tc. tc_chainId tc \<notin> tb_chainId ` set (ab_tokens todayAccount)) (ar_tokens r)))"
    by (rule returns_total[OF rs])
      (auto simp: todayAccount_def yesterdayAccount_def anAccount_def heldToken_def bareBalance_def getTokenKey_def dec)
  then show ?thesis
    using rs by (auto simp: todayAccount_def yesterdayAccount_def anAccount_def heldToken_def bareBalance_def valueOf_def js_set_def set_add_def
        comp_def)
qed

definition quietWorld :: balances_world where
  "quietWorld = \<lparr> bw_blacklisted = [], bw_getAssets = (\<lambda>c as. Inr []), bw_getAccountedAssets = (\<lambda>c. Inr []),
     bw_strategy = (\<lambda>k a c ts b. Inr []), bw_blockFromDate = (\<lambda>c d. Inl ''missing trie node''),
     bw_getBulkPriceAtTimestamp = (\<lambda>ts c t. Inr []) \<rparr>"

theorem missing_block_no_changes_witness:
  "getBalancesPerChain memory_cache quietWorld 120 [''0xa''] [] (Some 5000) 1 [] = getBalancesPerChain memory_cache quietWorld 120 [''0xa''] [] None 1 []"
  by (rule conjunct1[OF missing_block_no_changes[of quietWorld 1 5000 "''missing trie node''" memory_cache 120 "[]" "[]"]])
    (simp_all add: quietWorld_def memory_cache_def memory_get_def getAssetsToHandle_def getOrLoad_def)

theorem network_balances_witness:
  "networkGetBalances plain_lib (Some 2) (\<lambda>a. Inr ''5'') (\<lambda>a ts. Inr (map (\<lambda>t. ''5'') ts)) (''0x'' @ replicate 40 (CHR ''a'')) 1 [''0xt'', COIN_ADDRESS, ''0xu'', ''0xv'']
    = Some (Inr (filter positive (map (\<lambda>t. bareBalance 1 t ''5'') [''0xt'', COIN_ADDRESS, ''0xu'', ''0xv''])))"
  by (rule network_balances[where bal = "\<lambda>t. ''5''"]) (code_simp, simp_all add: batchSizeOf_def)

end
