(* ===== verification/AbiFunctions.thy ===== *)
theory AbiFunctions
  imports Multicall Cache Chains
begin

text \<open>
  \<open>framework/support/EVM/AbiModule/AbiService.ts\<close>: how a protocol finds the functions of a contract.  The ABI of an address
  is taken from the cache, from one of several sources, or, when the contract is a proxy, from the contract it points to; among the
  functions of the ABI the first one is taken that satisfies the predicate of a name.  The sources, the node and the encoder of
  calls are the record \<open>abi_world\<close>.  \<open>fetchAbi\<close> may follow proxies for ever: it is a \<open>partial_function\<close>
  whose result is \<open>None\<close> then.
\<close>

section \<open>Entries of an ABI\<close>

text \<open>An absent name is the empty text.\<close>

record abi_entry = abi_item +
  ae_type :: string
  ae_mutability :: "string option"

datatype abi_error = RateLimit string | SourceError string

record abi_world =
  aw_strategies :: "(string \<times> (string \<Rightarrow> int \<Rightarrow> abi_error + abi_entry list option)) list"
  aw_web3 :: web3
  aw_aggregate :: "(string \<times> string) list \<Rightarrow> string + string list"
  aw_storage :: "string \<Rightarrow> string \<Rightarrow> string + string"

definition abiNotFound :: "int \<Rightarrow> string \<Rightarrow> string" where
  "abiNotFound chain address = ''ABI not found using any strategy - '' @ show_int chain @ ''/'' @ address"

definition loadAbiFromStrategy ::
  "string \<Rightarrow> int \<Rightarrow> (string \<times> (string \<Rightarrow> int \<Rightarrow> abi_error + abi_entry list option)) option \<Rightarrow> abi_error + abi_entry list option" where
  "loadAbiFromStrategy address chain strategy = (case strategy of None \<Rightarrow> Inr None | Some (_, fetch) \<Rightarrow> fetch address chain)"

text \<open>Errors of a source are logged.\<close>

fun loadAbi :: "(string \<times> (string \<Rightarrow> int \<Rightarrow> abi_error + abi_entry list option)) list \<Rightarrow> string \<Rightarrow> int \<Rightarrow> string + abi_entry list" where
  "loadAbi [] address chain = Inl (abiNotFound chain address)"
| "loadAbi (strategy # strategies) address chain =
     (case loadAbiFromStrategy address chain (Some strategy) of
        Inr (Some abi) \<Rightarrow> Inr abi
      | _ \<Rightarrow> loadAbi strategies address chain)"

definition fetchAbiUsingStrategy :: "abi_world \<Rightarrow> string \<Rightarrow> int \<Rightarrow> string \<Rightarrow> (abi_error + string) + abi_entry list" where
  "fetchAbiUsingStrategy W address chain strategyName =
     (case loadAbiFromStrategy address chain (find (\<lambda>strat. fst strat = strategyName) (aw_strategies W)) of
        Inl e \<Rightarrow> Inl (Inl e)
      | Inr (Some abi) \<Rightarrow> Inr abi
      | Inr None \<Rightarrow> Inl (Inr (abiNotFound chain address)))"

section \<open>Proxies\<close>

definition isNonZeroAddress :: "string \<Rightarrow> bool" where
  "isNonZeroAddress address \<longleftrightarrow> address \<noteq> ZERO_ADDRESS \<and> address \<noteq> ''0x0''"

text \<open>What a test for a proxy answers: nothing, an address, or a value that is no text, which is truthy and fails as an address.\<close>

datatype proxy_target = NoProxy | ProxyAt string | BadProxy

fun targetOf :: "output_data option \<Rightarrow> proxy_target" where
  "targetOf None = NoProxy"
| "targetOf (Some (Single Missing)) = NoProxy"
| "targetOf (Some (Single (Scalar a))) = (if a \<noteq> [] \<and> isNonZeroAddress a then ProxyAt a else NoProxy)"
| "targetOf (Some _) = BadProxy"

text \<open>Calls the function of the ABI with a name, if there is one; a call without an ABI throws.  Errors are swallowed.\<close>

definition attemptNamedTarget :: "abi_world \<Rightarrow> string \<Rightarrow> string \<Rightarrow> int \<Rightarrow> abi_entry list \<Rightarrow> proxy_target" where
  "attemptNamedTarget W name address chain abi = (case find (\<lambda>item. ai_name item = name) abi of
     None \<Rightarrow> NoProxy
   | Some implementation \<Rightarrow>
       (case multiCall (aw_web3 W) (aw_aggregate W)
          \<lparr> ca_address = address, ca_abi = abi_item.truncate implementation, ca_input = Some [], ca_inputPlain = None,
             ca_outputPlain = None, ca_output = None \<rparr> chain of
          Inl _ \<Rightarrow> NoProxy
        | Inr target \<Rightarrow> targetOf target))"

definition attemptEIP897ProxyAddress :: "abi_world \<Rightarrow> string \<Rightarrow> int \<Rightarrow> abi_entry list \<Rightarrow> proxy_target" where
  "attemptEIP897ProxyAddress W = attemptNamedTarget W ''implementation''"

definition attemptCustomComptrollerProxyAddress :: "abi_world \<Rightarrow> string \<Rightarrow> int \<Rightarrow> abi_entry list \<Rightarrow> proxy_target" where
  "attemptCustomComptrollerProxyAddress W = attemptNamedTarget W ''comptrollerImplementation''"

definition logicContractAddress :: string where
  "logicContractAddress = ''0x360894a13ba1a3210667c828492db98dca3e2076cc3735a920a3ca505d382bbc''"

definition beaconContractAddress :: string where
  "beaconContractAddress = ''0xa3f0ad74e5423aebfd80d3ef4346578335a9a72aeaee59ff6cb3582b35133d50''"

fun hexText :: "nat \<Rightarrow> string" where
  "hexText n = (if n < 16 then [hexDigit n] else hexText (n div 16) @ [hexDigit (n mod 16)])"

definition padLeft :: "string \<Rightarrow> nat \<Rightarrow> char \<Rightarrow> string" where
  "padLeft s n c = replicate (n - length s) c @ s"

text \<open>The word of the storage as an address; a text that is no number is \<open>NaN\<close>, which is padded like a number.\<close>

definition targetOfWord :: "string \<Rightarrow> string" where
  "targetOfWord rawTarget = ''0x'' @ padLeft (case text_number rawTarget of Some r \<Rightarrow> hexText (nat \<lfloor>r\<rfloor>) | None \<Rightarrow> ''NaN'') 40 (CHR ''0'')"

definition attemptEIP1967ProxyAddress :: "abi_world \<Rightarrow> string \<Rightarrow> proxy_target" where
  "attemptEIP1967ProxyAddress W address =
     (case sum_map (aw_storage W address) [logicContractAddress, beaconContractAddress] of
        Inl _ \<Rightarrow> NoProxy
      | Inr rawTargets \<Rightarrow> (case find isNonZeroAddress (map targetOfWord rawTargets) of
          Some target \<Rightarrow> ProxyAt target | None \<Rightarrow> NoProxy))"

definition checkForProxyAddress :: "abi_world \<Rightarrow> string \<Rightarrow> int \<Rightarrow> abi_entry list \<Rightarrow> proxy_target" where
  "checkForProxyAddress W address chain abi =
     (case attemptEIP897ProxyAddress W address chain abi of
        NoProxy \<Rightarrow> (case attemptEIP1967ProxyAddress W address of
            NoProxy \<Rightarrow> attemptCustomComptrollerProxyAddress W address chain abi
          | t \<Rightarrow> t)
      | t \<Rightarrow> t)"

definition abiCacheKey :: "string \<Rightarrow> int \<Rightarrow> string" where
  "abiCacheKey address chain = show_int chain @ ''/'' @ to_lower address"

definition abiDay :: int where
  "abiDay = 60 * 60 * 24"

text \<open>
  The cache is asked first.  The ABI of a proxy is the ABI of its target, fetched in the same way, and is kept under the
  address of the proxy as well; in the event of an error nothing is kept.
\<close>

partial_function (option) fetchAbi ::
  "abi_world \<Rightarrow> ('s, abi_entry list, int) cache_manager \<Rightarrow> int \<Rightarrow> string \<Rightarrow> 's \<Rightarrow> ((string + abi_entry list) \<times> 's) option" where
  "fetchAbi W C chain address s =
     (case cm_get C (abiCacheKey address chain) s of
        Val cached \<Rightarrow> Some (Inr cached, s)
      | _ \<Rightarrow> (case loadAbi (aw_strategies W) address chain of
          Inl e \<Rightarrow> Some (Inl e, s)
        | Inr abi \<Rightarrow> (case checkForProxyAddress W address chain abi of
            BadProxy \<Rightarrow> Some (Inl ''TypeError'', s)
          | NoProxy \<Rightarrow> Some (Inr abi, cm_set C (abiCacheKey address chain) (Val abi) (Some abiDay) s)
          | ProxyAt proxyAddress \<Rightarrow> Option.bind (fetchAbi W C chain proxyAddress s) (\<lambda>(r, s').
              Some (case r of
                Inl e \<Rightarrow> (Inl e, s')
              | Inr data \<Rightarrow> (Inr data, cm_set C (abiCacheKey address chain) (Val data) (Some abiDay) s'))))))"

section \<open>Functions by predicate\<close>

text \<open>
  A predicate gets the functions that may be taken, the full ABI and the functions found so far; it may throw.
\<close>

type_synonym named_functions = "(string, abi_entry) js_map"
type_synonym predicate = "abi_entry list \<Rightarrow> abi_entry list \<Rightarrow> named_functions \<Rightarrow> abi_entry \<Rightarrow> string + bool"

fun findItem :: "(abi_entry \<Rightarrow> string + bool) \<Rightarrow> abi_entry list \<Rightarrow> string + abi_entry option" where
  "findItem p [] = Inr None"
| "findItem p (item # items) = sum_bind (p item) (\<lambda>b. if b then Inr (Some item) else findItem p items)"

definition acceptable :: "string list \<Rightarrow> abi_entry \<Rightarrow> bool" where
  "acceptable acceptableStateMutability item \<longleftrightarrow> ae_type item = ''function''
     \<and> (case ae_mutability item of Some m \<Rightarrow> m | None \<Rightarrow> []) \<in> set acceptableStateMutability"

definition findFunction ::
  "abi_entry list \<Rightarrow> abi_entry list \<Rightarrow> string \<Rightarrow> int \<Rightarrow> named_functions \<Rightarrow> string \<times> predicate \<Rightarrow> string + named_functions" where
  "findFunction abi readonly address chain context = (\<lambda>(name, predicate).
     sum_bind (findItem (predicate readonly abi context) readonly) (\<lambda>found. case found of
       None \<Rightarrow> Inl (''Failed to find ABI Item for '' @ quoted name @ '' ('' @ show_int chain @ ''/'' @ address @ '')'')
     | Some item \<Rightarrow> Inr (js_put context name item)))"

definition parseFunctionsFromAbi ::
  "abi_entry list \<Rightarrow> (string \<times> predicate) list \<Rightarrow> string \<Rightarrow> int \<Rightarrow> string list \<Rightarrow> string + named_functions" where
  "parseFunctionsFromAbi abi predicates address chain acceptableStateMutability =
     (let readonly = filter (acceptable acceptableStateMutability) abi
      in sum_foldl (findFunction abi readonly address chain) [] predicates)"

definition viewFunctions :: "string list" where
  "viewFunctions = [''view'', ''pure'']"

definition parseFunctionsFromAddress ::
  "abi_world \<Rightarrow> ('s, abi_entry list, int) cache_manager \<Rightarrow> string \<Rightarrow> int \<Rightarrow> (string \<times> predicate) list \<Rightarrow> string list \<Rightarrow> 's
    \<Rightarrow> ((string + named_functions) \<times> 's) option" where
  "parseFunctionsFromAddress W C address chain predicates acceptableStateMutability s =
     map_option (\<lambda>(r, s'). (sum_bind r (\<lambda>abi. parseFunctionsFromAbi abi predicates address chain acceptableStateMutability), s'))
       (fetchAbi W C chain address s)"

section \<open>Proxies are followed to their end\<close>

text \<open>What the chain of proxies of an address leads to, in a given state of the cache.\<close>

inductive resolves ::
  "abi_world \<Rightarrow> ('s, abi_entry list, int) cache_manager \<Rightarrow> int \<Rightarrow> 's \<Rightarrow> string \<Rightarrow> string + abi_entry list \<Rightarrow> bool"
  for W C chain s where
  cached_abi: "cm_get C (abiCacheKey a chain) s = Val abi \<Longrightarrow> resolves W C chain s a (Inr abi)"
| no_abi: "\<not> present (cm_get C (abiCacheKey a chain) s) \<Longrightarrow> loadAbi (aw_strategies W) a chain = Inl e \<Longrightarrow> resolves W C chain s a (Inl e)"
| bad_proxy: "\<not> present (cm_get C (abiCacheKey a chain) s) \<Longrightarrow> loadAbi (aw_strategies W) a chain = Inr abi
    \<Longrightarrow> checkForProxyAddress W a chain abi = BadProxy \<Longrightarrow> resolves W C chain s a (Inl ''TypeError'')"
| contract: "\<not> present (cm_get C (abiCacheKey a chain) s) \<Longrightarrow> loadAbi (aw_strategies W) a chain = Inr abi
    \<Longrightarrow> checkForProxyAddress W a chain abi = NoProxy \<Longrightarrow> resolves W C chain s a (Inr abi)"
| proxy: "\<not> present (cm_get C (abiCacheKey a chain) s) \<Longrightarrow> loadAbi (aw_strategies W) a chain = Inr abi
    \<Longrightarrow> checkForProxyAddress W a chain abi = ProxyAt p \<Longrightarrow> resolves W C chain s p r \<Longrightarrow> resolves W C chain s a r"

lemma fetchAbi_cached: "cm_get C (abiCacheKey a chain) s = Val abi \<Longrightarrow> fetchAbi W C chain a s = Some (Inr abi, s)"
  by (simp add: fetchAbi.simps)

lemma fetchAbi_loaded:
  "\<not> present (cm_get C (abiCacheKey a chain) s) \<Longrightarrow> fetchAbi W C chain a s =
     (case loadAbi (aw_strategies W) a chain of
        Inl e \<Rightarrow> Some (Inl e, s)
      | Inr abi \<Rightarrow> (case checkForProxyAddress W a chain abi of
          BadProxy \<Rightarrow> Some (Inl ''TypeError'', s)
        | NoProxy \<Rightarrow> Some (Inr abi, cm_set C (abiCacheKey a chain) (Val abi) (Some abiDay) s)
        | ProxyAt p \<Rightarrow> Option.bind (fetchAbi W C chain p s) (\<lambda>(r, s').
            Some (case r of
              Inl e \<Rightarrow> (Inl e, s')
            | Inr data \<Rightarrow> (Inr data, cm_set C (abiCacheKey a chain) (Val data) (Some abiDay) s')))))"
  by (subst fetchAbi.simps) (cases "cm_get C (abiCacheKey a chain) s"; simp)

lemma resolves_fetch: "resolves W C chain s a r \<Longrightarrow> \<exists>s'. fetchAbi W C chain a s = Some (r, s')"
proof (induction rule: resolves.induct)
  case (proxy a abi p r)
  then obtain s' where "fetchAbi W C chain p s = Some (r, s')" by blast
  with proxy show ?case by (cases r) (auto simp: fetchAbi_loaded)
qed (simp_all add: fetchAbi_cached fetchAbi_loaded)

lemma fetch_resolves:
  assumes "fetchAbi W C chain a s = Some rs"
  shows "resolves W C chain s a (fst rs)"
proof -
  let ?P = "\<lambda>W (C :: ('s, abi_entry list, int) cache_manager) chain a s (rs :: (string + abi_entry list) \<times> 's). resolves W C chain s a (fst rs)"
  show ?thesis
  proof (rule fetchAbi.raw_induct[where P = ?P, OF _ assms], goal_cases)
    case (1 f W C chain a s rs)
    show ?case
    proof (cases "present (cm_get C (abiCacheKey a chain) s)")
      case True
      then obtain abi where "cm_get C (abiCacheKey a chain) s = Val abi" by (cases "cm_get C (abiCacheKey a chain) s") auto
      with 1(2) show ?thesis by (auto intro: resolves.cached_abi)
    next
      case False
      then have run: "(case loadAbi (aw_strategies W) a chain of
          Inl e \<Rightarrow> Some (Inl e, s)
        | Inr abi \<Rightarrow> (case checkForProxyAddress W a chain abi of
            BadProxy \<Rightarrow> Some (Inl ''TypeError'', s)
          | NoProxy \<Rightarrow> Some (Inr abi, cm_set C (abiCacheKey a chain) (Val abi) (Some abiDay) s)
          | ProxyAt p \<Rightarrow> Option.bind (f W C chain p s) (\<lambda>(r, s').
              Some (case r of
                Inl e \<Rightarrow> (Inl e, s')
              | Inr data \<Rightarrow> (Inr data, cm_set C (abiCacheKey a chain) (Val data) (Some abiDay) s'))))) = Some rs"
        using 1(2) by (cases "cm_get C (abiCacheKey a chain) s") simp_all
      show ?thesis
      proof (cases "loadAbi (aw_strategies W) a chain")
        case (Inl e)
        with run False show ?thesis by (auto intro: resolves.no_abi)
      next
        case abi: (Inr abi)
        show ?thesis
        proof (cases "checkForProxyAddress W a chain abi")
          case NoProxy
          with run abi False show ?thesis by (auto intro: resolves.contract)
        next
          case BadProxy
          with run abi False show ?thesis by (auto intro: resolves.bad_proxy)
        next
          case (ProxyAt p)
          then obtain r s' where rs: "f W C chain p s = Some (r, s')"
              "rs = (case r of Inl e \<Rightarrow> (Inl e, s')
                | Inr data \<Rightarrow> (Inr data, cm_set C (abiCacheKey a chain) (Val data) (Some abiDay) s'))"
            using run abi by (auto simp: bind_eq_Some_conv)
          then have "fst rs = r" by (cases r) simp_all
          from 1(1)[OF rs(1)] \<open>fst rs = r\<close> show ?thesis using abi ProxyAt False by (auto intro: resolves.proxy)
        qed
      qed
    qed
  qed
qed

text \<open>The ABIs that the sources have for an address, in the order of the sources; a source without one, or that fails, is passed over.\<close>

definition knownAbis :: "abi_world \<Rightarrow> int \<Rightarrow> string \<Rightarrow> abi_entry list list" where
  "knownAbis W chain a = concat (map (\<lambda>(name, fetch). case fetch a chain of Inr (Some abi) \<Rightarrow> [abi] | _ \<Rightarrow> []) (aw_strategies W))"

text \<open>The addresses in the two slots of EIP-1967: that of the implementation and that of the beacon.\<close>

definition slotTargets :: "abi_world \<Rightarrow> string \<Rightarrow> string list" where
  "slotTargets W a = (case (aw_storage W a ''0x360894a13ba1a3210667c828492db98dca3e2076cc3735a920a3ca505d382bbc'',
       aw_storage W a ''0xa3f0ad74e5423aebfd80d3ef4346578335a9a72aeaee59ff6cb3582b35133d50'') of
     (Inr logic, Inr beacon) \<Rightarrow> filter isNonZeroAddress [targetOfWord logic, targetOfWord beacon] | _ \<Rightarrow> [])"

text \<open>A contract points to another one by its function \<open>implementation\<close>, or else by its slots, or else by its function
  \<open>comptrollerImplementation\<close>.\<close>

definition pointers :: "abi_world \<Rightarrow> int \<Rightarrow> string \<Rightarrow> abi_entry list \<Rightarrow> proxy_target list" where
  "pointers W chain a abi = filter (\<lambda>t. t \<noteq> NoProxy)
     (attemptNamedTarget W ''implementation'' a chain abi # map ProxyAt (slotTargets W a) @ [attemptNamedTarget W ''comptrollerImplementation'' a chain abi])"

lemma loadAbi_known: "loadAbi (aw_strategies W) a chain = (case knownAbis W chain a of abi # _ \<Rightarrow> Inr abi | [] \<Rightarrow> Inl (abiNotFound chain a))"
proof -
  have "loadAbi fs a chain = (case concat (map (\<lambda>(name, fetch). case fetch a chain of Inr (Some abi) \<Rightarrow> [abi] | _ \<Rightarrow> []) fs) of
      abi # _ \<Rightarrow> Inr abi | [] \<Rightarrow> Inl (abiNotFound chain a))" for fs :: "(string \<times> (string \<Rightarrow> int \<Rightarrow> abi_error + abi_entry list option)) list"
    by (induction fs) (auto simp: loadAbiFromStrategy_def split: sum.split option.split)
  then show ?thesis by (simp add: knownAbis_def)
qed

lemma slots_target: "attemptEIP1967ProxyAddress W a = (case slotTargets W a of t # _ \<Rightarrow> ProxyAt t | [] \<Rightarrow> NoProxy)"
  by (cases "aw_storage W a logicContractAddress"; cases "aw_storage W a beaconContractAddress")
    (simp_all add: attemptEIP1967ProxyAddress_def slotTargets_def logicContractAddress_def[symmetric] beaconContractAddress_def[symmetric])

lemma check_pointers: "checkForProxyAddress W a chain abi = (case pointers W chain a abi of t # _ \<Rightarrow> t | [] \<Rightarrow> NoProxy)"
proof -
  have first: "filter (\<lambda>t. t \<noteq> NoProxy) (x # map ProxyAt ts @ [y])
      = (if x \<noteq> NoProxy then [x] else []) @ map ProxyAt ts @ (if y \<noteq> NoProxy then [y] else [])" for x y ts
    by (induction ts) auto
  show ?thesis
    unfolding pointers_def first
    by (cases "attemptNamedTarget W ''implementation'' a chain abi"; cases "slotTargets W a";
        cases "attemptNamedTarget W ''comptrollerImplementation'' a chain abi")
      (simp_all add: checkForProxyAddress_def attemptEIP897ProxyAddress_def attemptCustomComptrollerProxyAddress_def slots_target)
qed

text \<open>A chain of proxies: each contract but the last one points first of all to the next one, the last one to none.\<close>

fun proxyChain :: "abi_world \<Rightarrow> int \<Rightarrow> string list \<Rightarrow> abi_entry list \<Rightarrow> bool" where
  "proxyChain W chain [] data = False"
| "proxyChain W chain [a] data = (\<exists>rest. knownAbis W chain a = data # rest \<and> pointers W chain a data = [])"
| "proxyChain W chain (a # b # as) data =
     ((\<exists>abi rest more. knownAbis W chain a = abi # rest \<and> pointers W chain a abi = ProxyAt b # more) \<and> proxyChain W chain (b # as) data)"

lemma chain_fetched:
  "proxyChain W chain as data \<Longrightarrow> \<forall>a\<in>set as. \<not> present (cm_get C (abiCacheKey a chain) s) \<Longrightarrow>
    fetchAbi W C chain (hd as) s = Some (Inr data, foldr (\<lambda>a. cm_set C (abiCacheKey a chain) (Val data) (Some 86400)) as s)"
proof (induction as)
  case (Cons a as)
  then have new: "\<not> present (cm_get C (abiCacheKey a chain) s)" by simp
  show ?case
  proof (cases as)
    case Nil
    then show ?thesis using Cons.prems(1) by (auto simp: fetchAbi_loaded[OF new] loadAbi_known check_pointers abiDay_def)
  next
    case (Cons b bs)
    then obtain abi rest more where "knownAbis W chain a = abi # rest" "pointers W chain a abi = ProxyAt b # more" "proxyChain W chain as data"
      using Cons.prems(1) by auto
    moreover from this(3) have "fetchAbi W C chain b s = Some (Inr data, foldr (\<lambda>a. cm_set C (abiCacheKey a chain) (Val data) (Some 86400)) as s)"
      using Cons.IH Cons.prems(2) Cons by simp
    ultimately show ?thesis by (simp add: fetchAbi_loaded[OF new] loadAbi_known check_pointers abiDay_def)
  qed
qed simp

text \<open>The ABI of an address is fetched exactly when its chain of proxies comes to an end.\<close>

lemma fetchAbi_resolves:
  "(\<exists>s'. fetchAbi W C chain a s = Some (r, s')) \<longleftrightarrow> resolves W C chain s a r"
  using resolves_fetch fetch_resolves[of W C chain a s] by (metis fst_conv)

text \<open>C17: A chain of proxies of which nothing is cached, each contract pointing to the next by its function \<open>implementation\<close>, or else by a slot of
  EIP-1967, or else by its function \<open>comptrollerImplementation\<close>, is followed to its end: the answer is the ABI that the first source that has
  one gives for the last contract, and this ABI is put into the cache, for a day, under every address of the chain, from the last
  one to the first, and nothing else.\<close>

theorem proxies_followed:
  assumes "proxyChain W chain as data" "\<forall>a\<in>set as. \<not> present (cm_get C (abiCacheKey a chain) s)"
  shows "fetchAbi W C chain (hd as) s = Some (Inr data, foldr (\<lambda>a. cm_set C (abiCacheKey a chain) (Val data) (Some 86400)) as s)"
  by (rule chain_fetched[OF assms])

text \<open>Addresses that point at each other and are not in the cache are followed for ever.\<close>

lemma cyclic_proxies:
  assumes "\<And>a. a \<in> A \<Longrightarrow> \<not> present (cm_get C (abiCacheKey a chain) s) \<and>
      (\<exists>abi p. loadAbi (aw_strategies W) a chain = Inr abi \<and> checkForProxyAddress W a chain abi = ProxyAt p \<and> p \<in> A)"
    and "a \<in> A"
  shows "fetchAbi W C chain a s = None"
proof -
  have "b \<notin> A" if "resolves W C chain s b r" for b r
    using that by (induction rule: resolves.induct) (use assms(1) in fastforce)+
  with assms(2) show ?thesis using fetch_resolves[of W C chain a s] by (cases "fetchAbi W C chain a s") blast+
qed

section \<open>A second request\<close>

lemma cache_written: "cache_store C \<Longrightarrow> cm_get C k (cm_set C k' v opts s) = (if k = k' then v else cm_get C k s)"
  by (simp add: cache_store.get_set)

lemma fetched_is_cached:
  assumes "cache_store C" "resolves W C chain s a r" "r = Inr abi" "fetchAbi W C chain a s = Some (Inr abi, s')"
  shows "cm_get C (abiCacheKey a chain) s' = Val abi"
  using assms(2,3,4)
proof (cases rule: resolves.cases)
  case (proxy abi' p)
  then obtain s1 where "fetchAbi W C chain p s = Some (r, s1)" by (auto dest: resolves_fetch)
  then show ?thesis using proxy assms(1,3,4) by (auto simp: fetchAbi_loaded cache_written)
qed (use assms in \<open>auto simp: fetchAbi_cached fetchAbi_loaded cache_written\<close>)

text \<open>An ABI that was fetched answers the next request for the address from the cache: it is the same, the cache stays as it is,
  and neither the sources nor the node are asked again.\<close>

theorem fetchAbi_second_request:
  assumes "cache_store C" "fetchAbi W C chain a s = Some (Inr abi, s')"
  shows "fetchAbi W2 C chain a s' = Some (Inr abi, s')"
  using fetched_is_cached[OF assms(1) _ refl assms(2)] fetch_resolves[OF assms(2)] by (simp add: fetchAbi_cached)

section \<open>The functions that are found\<close>

lemma findItem_first:
  "findItem p xs = Inr (Some x) \<Longrightarrow> \<exists>pre post. xs = pre @ x # post \<and> p x = Inr True \<and> (\<forall>y\<in>set pre. p y = Inr False)"
proof (induction xs)
  case (Cons y ys)
  then obtain b where b: "p y = Inr b" "(if b then Inr (Some y) else findItem p ys) = Inr (Some x)"
    by (auto simp: sum_bind_Inr_iff)
  show ?case
  proof (cases b)
    case True
    with b have "y # ys = [] @ x # ys \<and> p x = Inr True" by simp
    then show ?thesis by fastforce
  next
    case False
    with b Cons.IH obtain pre post where "ys = pre @ x # post" "p x = Inr True" "\<forall>y\<in>set pre. p y = Inr False" by auto
    then have "y # ys = (y # pre) @ x # post \<and> p x = Inr True \<and> (\<forall>z\<in>set (y # pre). p z = Inr False)" using b False by simp
    then show ?thesis by blast
  qed
qed simp

text \<open>An entry is the first of the candidates that satisfies its predicate, given the functions found before.\<close>

definition firstMatch :: "abi_entry list \<Rightarrow> abi_entry list \<Rightarrow> named_functions \<Rightarrow> string \<times> predicate \<Rightarrow> string \<times> abi_entry \<Rightarrow> bool" where
  "firstMatch abi readonly context np f \<longleftrightarrow> fst f = fst np \<and>
     (\<exists>pre post. readonly = pre @ snd f # post \<and> snd np readonly abi context (snd f) = Inr True
       \<and> (\<forall>y\<in>set pre. snd np readonly abi context y = Inr False))"

lemma functions_found:
  "sum_foldl (findFunction abi readonly address chain) acc ps = Inr m \<Longrightarrow> distinct (map fst acc @ map fst ps) \<Longrightarrow>
    length m = length acc + length ps \<and> take (length acc) m = acc
      \<and> (\<forall>i<length ps. firstMatch abi readonly (take (length acc + i) m) (ps ! i) (m ! (length acc + i)))"
proof (induction ps arbitrary: acc)
  case (Cons np ps)
  obtain name p where np: "np = (name, p)" by (cases np)
  obtain acc' where step: "findFunction abi readonly address chain acc np = Inr acc'"
      "sum_foldl (findFunction abi readonly address chain) acc' ps = Inr m"
    using Cons.prems(1) by (auto simp: sum_bind_Inr_iff)
  then obtain item where item: "findItem (p readonly abi acc) readonly = Inr (Some item)" "acc' = js_put acc name item"
    by (auto simp: findFunction_def np sum_bind_Inr_iff split: option.splits)
  have acc': "acc' = acc @ [(name, item)]" using item(2) Cons.prems(2) by (simp add: np js_put_new js_keys_def)
  have IH: "length m = length acc' + length ps" "take (length acc') m = acc'"
      "\<And>i. i < length ps \<Longrightarrow> firstMatch abi readonly (take (length acc' + i) m) (ps ! i) (m ! (length acc' + i))"
    using Cons.IH[OF step(2)] Cons.prems(2) by (simp_all add: acc' np)
  have tk: "take (length acc) m = acc" using arg_cong[OF IH(2), of "take (length acc)"] by (simp add: acc' min_def)
  have "take (length acc') m ! length acc = (name, item)" by (simp add: IH(2)) (simp add: acc')
  then have nth: "m ! length acc = (name, item)" by (simp add: acc')
  obtain pre post where "readonly = pre @ item # post" "p readonly abi acc item = Inr True" "\<forall>y\<in>set pre. p readonly abi acc y = Inr False"
    using findItem_first[OF item(1)] by blast
  then have "firstMatch abi readonly acc np (name, item)" unfolding firstMatch_def np by (intro conjI exI[of _ pre] exI[of _ post]) simp_all
  then have "firstMatch abi readonly (take (length acc + i) m) ((np # ps) ! i) (m ! (length acc + i))" if "i < Suc (length ps)" for i
    using that IH(3)[of "i - 1"] tk nth by (cases i) (simp_all add: acc')
  then show ?case using IH(1) tk by (simp add: acc')
qed simp

text \<open>A parsed contract has exactly the functions that were asked for, each under its name: an entry of the ABI that is a function
  with an accepted mutability, and the first such entry that satisfies the predicate of the name in the context of the functions
  found before it.\<close>

theorem parsed_functions:
  assumes "parseFunctionsFromAbi abi ps address chain mutability = Inr m" "distinct (map fst ps)"
  shows "js_keys m = map fst ps \<and> (\<forall>f\<in>set m. snd f \<in> set abi \<and> acceptable mutability (snd f))
    \<and> (\<forall>i<length ps. firstMatch abi (filter (acceptable mutability) abi) (take i m) (ps ! i) (m ! i))"
proof -
  have found: "length m = length ps" "\<And>i. i < length ps \<Longrightarrow> firstMatch abi (filter (acceptable mutability) abi) (take i m) (ps ! i) (m ! i)"
    using functions_found[of abi "filter (acceptable mutability) abi" address chain "[]" ps m] assms
    by (simp_all add: parseFunctionsFromAbi_def)
  then have "js_keys m = map fst ps" by (auto simp: js_keys_def firstMatch_def intro!: nth_equalityI)
  moreover have "\<forall>f\<in>set m. snd f \<in> set abi \<and> acceptable mutability (snd f)"
  proof
    fix f assume "f \<in> set m"
    then obtain i where i: "i < length ps" "f = m ! i" using found(1) by (metis in_set_conv_nth)
    then have "snd f \<in> set (filter (acceptable mutability) abi)" using found(2) unfolding firstMatch_def by fastforce
    then show "snd f \<in> set abi \<and> acceptable mutability (snd f)" by simp
  qed
  ultimately show ?thesis using found(2) by blast
qed

section \<open>Concrete contracts\<close>

definition viewEntry :: "string \<Rightarrow> abi_entry" where
  "viewEntry name = \<lparr> ai_name = name, ai_inputs = [], ai_outputs = [], ae_type = ''function'', ae_mutability = Some ''view'' \<rparr>"

definition named :: "(string \<Rightarrow> bool) \<Rightarrow> predicate" where
  "named p readonly abi context item = Inr (p (ai_name item))"

text \<open>Two sources, the first of which knows nothing; the contract \<open>0xaa\<close> points at itself and \<open>0x1\<close> at nothing.\<close>

definition someContracts :: abi_world where
  "someContracts = \<lparr> aw_strategies = [(''LocalFile'', \<lambda>_ _. Inr None), (''Tenderly'', \<lambda>_ _. Inr (Some [viewEntry ''poolLength'']))],
     aw_web3 = \<lparr> w3_encodeFunctionCall = (\<lambda>_ _. Inl ''no encoder''), w3_decodeParameters = (\<lambda>_ _. Inl ''no decoder''),
       w3_bigNumber = (\<lambda>_. None) \<rparr>,
     aw_aggregate = (\<lambda>_. Inl ''no contract''),
     aw_storage = (\<lambda>address _. Inr (if address = ''0x1'' then ''0x0'' else ''0xaa'')) \<rparr>"

text \<open>A contract whose storage points at the contract itself is never fetched.\<close>

lemma self_proxy_never_fetched:
  "fetchAbi someContracts memory_cache 1 (targetOfWord ''0xaa'') [] = None"
proof (rule cyclic_proxies[where A = "{targetOfWord ''0xaa''}"])
  fix a assume "a \<in> {targetOfWord ''0xaa''}"
  then have a: "a = targetOfWord ''0xaa''" by simp
  have eip: "attemptEIP897ProxyAddress someContracts a 1 [viewEntry ''poolLength''] = NoProxy"
    by (simp add: attemptEIP897ProxyAddress_def attemptNamedTarget_def viewEntry_def)
  have "attemptEIP1967ProxyAddress someContracts (targetOfWord ''0xaa'') = ProxyAt (targetOfWord ''0xaa'')" by code_simp
  then have "checkForProxyAddress someContracts a 1 [viewEntry ''poolLength''] = ProxyAt a"
    using eip by (simp add: checkForProxyAddress_def a)
  then show "\<not> present (cm_get memory_cache (abiCacheKey a 1) []) \<and>
      (\<exists>abi p. loadAbi (aw_strategies someContracts) a 1 = Inr abi \<and> checkForProxyAddress someContracts a 1 abi = ProxyAt p
        \<and> p \<in> {targetOfWord ''0xaa''})"
    by (simp add: someContracts_def loadAbiFromStrategy_def memory_cache_def memory_get_def a)
qed simp

text \<open>The slots of \<open>0xaa\<close> point to \<open>0xb\<close>, whose slots are empty.\<close>

definition proxiedContracts :: abi_world where
  "proxiedContracts = someContracts\<lparr> aw_storage := (\<lambda>address _. Inr (if address = ''0xaa'' then ''0xb'' else ''0x0'')) \<rparr>"

theorem proxies_followed_witness:
  "\<exists>s. fetchAbi proxiedContracts memory_cache 1 ''0xaa'' [] = Some (Inr [viewEntry ''poolLength''], s)
    \<and> cm_get memory_cache ''1/0xaa'' s = Val [viewEntry ''poolLength'']"
proof -
  let ?b = "targetOfWord ''0xb''" and ?abi = "[viewEntry ''poolLength'']"
  have abi: "knownAbis proxiedContracts 1 a = [?abi]" for a by (simp add: knownAbis_def proxiedContracts_def someContracts_def)
  have named: "attemptNamedTarget proxiedContracts ''implementation'' a 1 ?abi = NoProxy"
    "attemptNamedTarget proxiedContracts ''comptrollerImplementation'' a 1 ?abi = NoProxy" for a
    by (simp_all add: attemptNamedTarget_def viewEntry_def)
  have slots: "slotTargets proxiedContracts ''0xaa'' = [?b, ?b]" "slotTargets proxiedContracts ?b = []" by code_simp+
  have chain: "proxyChain proxiedContracts 1 [''0xaa'', ?b] ?abi"
    by (simp add: abi pointers_def named slots)
  have key: "abiCacheKey ''0xaa'' 1 = ''1/0xaa''" by code_simp
  show ?thesis
    using proxies_followed[OF chain, of memory_cache "[]"]
    by (simp add: memory_cache_def memory_get_def key)
qed

theorem parsed_functions_witness:
  "js_keys [(''poolLength'', viewEntry ''poolLength'')] = [''poolLength'']
    \<and> acceptable viewFunctions (viewEntry ''poolLength'')
    \<and> firstMatch [viewEntry ''owner'', viewEntry ''poolLength''] [viewEntry ''owner'', viewEntry ''poolLength''] []
        (''poolLength'', named (\<lambda>n. n = ''poolLength'')) (''poolLength'', viewEntry ''poolLength'')"
proof -
  have "parseFunctionsFromAbi [viewEntry ''owner'', viewEntry ''poolLength''] [(''poolLength'', named (\<lambda>n. n = ''poolLength''))] ''0x1'' 1 viewFunctions
      = Inr [(''poolLength'', viewEntry ''poolLength'')]"
    by (simp add: parseFunctionsFromAbi_def acceptable_def viewEntry_def viewFunctions_def findFunction_def named_def js_put_new js_keys_def)
  from parsed_functions[OF this] show ?thesis
    by (simp add: acceptable_def viewEntry_def viewFunctions_def)
qed

end
