(* ===== verification/MasterChef.thy ===== *)
theory MasterChef
  imports AbiFunctions ProtocolCache
begin

text \<open>
  \<open>framework/support/EVM/SingleContractProtocol.ts\<close> and \<open>protocols/Yield/MasterChef.ts\<close>, the base classes of most staking
  protocols: one contract holds numbered pools, each with a staked token and a share of the emission of a reward token.  The functions
  of the contract are found in its ABI (\<open>AbiFunctions\<close>), called in batches (\<open>Multicall\<close>), and their results become the
  pools and the positions of a user.  A decimal text that is only read back as a number is modelled by its number.
\<close>

section \<open>Numbers\<close>

text \<open>\<open>bignumber.js\<close> divides to twenty decimal places, rounding half up (away from zero).\<close>

definition roundPlaces :: "rat \<Rightarrow> rat" where
  "roundPlaces r = (let n = of_int \<lfloor>\<bar>r\<bar> * 10 ^ 20 + 1 / 2\<rfloor> / 10 ^ 20 in if r < 0 then - n else n)"

definition dividedBy :: "js_number \<Rightarrow> js_number \<Rightarrow> js_number" where
  "dividedBy a b = map_option roundPlaces (num_div a b)"

definition normalizeDecimals :: "js_number \<Rightarrow> nat \<Rightarrow> js_number" where
  "normalizeDecimals number decimals = dividedBy number (Some (10 ^ decimals))"

text \<open>
  \<open>parseInt\<close>: the digits at the front of the text.  The text of a large number of \<open>bignumber.js\<close> is in exponential form from
  \<open>1e+21\<close> on, of which only the first digit is read.
\<close>

definition parseIntText :: "string \<Rightarrow> int option" where
  "parseIntText t =
     (let s = trim t; neg = s \<noteq> [] \<and> hd s = CHR ''-'';
          ds = takeWhile is_digit (if s \<noteq> [] \<and> (hd s = CHR ''-'' \<or> hd s = CHR ''+'') then tl s else s)
      in if ds = [] then None
         else map_option (\<lambda>n. if neg then - int n else int n) (digits_value 0 ds))"

fun leadingDigit :: "nat \<Rightarrow> nat" where
  "leadingDigit n = (if n < 10 then n else leadingDigit (n div 10))"

definition parseIntOfInteger :: "int \<Rightarrow> int" where
  "parseIntOfInteger n = (if \<bar>n\<bar> < 10 ^ 21 then n else sgn n * int (leadingDigit (nat \<bar>n\<bar>)))"

fun parseIntOf :: "sol_value \<Rightarrow> int option" where
  "parseIntOf Missing = None"
| "parseIntOf (Scalar s) = parseIntText s"
| "parseIntOf (BigNum n) = map_option (\<lambda>r. parseIntOfInteger \<lfloor>r\<rfloor>) n"
| "parseIntOf (SolArray []) = None"
| "parseIntOf (SolArray (v # vs)) = parseIntOf v"

text \<open>The number that \<open>bignumber.js\<close> reads from the text of a value.\<close>

fun numberText :: "sol_value \<Rightarrow> js_number" where
  "numberText (BigNum n) = n"
| "numberText (Scalar s) = (if s = [] then None else text_number s)"
| "numberText (SolArray [v]) = numberText v"
| "numberText _ = None"

section \<open>A protocol with one contract\<close>

record chef_meta =
  ch_address :: string
  ch_chain :: int
  ch_badPools :: "int list option"

record node_calls =
  nc_web3 :: web3
  nc_aggregate :: "(string \<times> string) list \<Rightarrow> string + string list"

definition createCall :: "string \<Rightarrow> abi_entry \<Rightarrow> call_arg list \<Rightarrow> call_data" where
  "createCall address abi inputs = \<lparr> ca_address = address, ca_abi = abi_item.truncate abi, ca_input = Some inputs, ca_inputPlain = None,
     ca_outputPlain = None, ca_output = None \<rparr>"

text \<open>A call of a function that was not found throws when it is encoded.\<close>

definition callNamed :: "string \<Rightarrow> named_functions \<Rightarrow> string \<Rightarrow> call_arg list \<Rightarrow> string + call_data" where
  "callNamed address fs name inputs = (case js_get fs name of
     None \<Rightarrow> Inl ''TypeError'' | Some abi \<Rightarrow> Inr (createCall address abi inputs))"

definition initialize ::
  "abi_world \<Rightarrow> ('s, abi_entry list, int) cache_manager \<Rightarrow> chef_meta \<Rightarrow> (string \<times> predicate) list \<Rightarrow> (string \<times> predicate) list option \<Rightarrow> 's
    \<Rightarrow> ((string + named_functions \<times> named_functions) \<times> 's) option" where
  "initialize W C M functionPredicates interactiveFunctionPredicates s =
     Option.bind (parseFunctionsFromAddress W C (ch_address M) (ch_chain M) functionPredicates viewFunctions s) (\<lambda>(r, s1).
       case r of
         Inl e \<Rightarrow> Some (Inl e, s1)
       | Inr fs \<Rightarrow> (case interactiveFunctionPredicates of
           None \<Rightarrow> Some (Inr (fs, []), s1)
         | Some ps \<Rightarrow> map_option (\<lambda>(r2, s2). (sum_bind r2 (\<lambda>ifs. Inr (fs, ifs)), s2))
             (parseFunctionsFromAddress W C (ch_address M) (ch_chain M) ps [''nonpayable''] s1)))"

text \<open>The functions without inputs are called; their results, by name, are the context.\<close>

definition callInputlessFunctions :: "node_calls \<Rightarrow> chef_meta \<Rightarrow> named_functions \<Rightarrow> string + (string, output_data) js_map" where
  "callInputlessFunctions N M fs =
     (let inputlessCalls = filter (\<lambda>(_, abiItem). ai_inputs abiItem = []) fs
      in sum_bind (callArray (nc_web3 N) (nc_aggregate N) (map (\<lambda>(_, abiItem). createCall (ch_address M) abiItem []) inputlessCalls) (ch_chain M))
           (\<lambda>results. Inr (foldl (\<lambda>acc (name, r). case r of Some d \<Rightarrow> js_put acc name d | None \<Rightarrow> acc) []
              (zip (map fst inputlessCalls) results))))"

section \<open>The functions of the contract\<close>

text \<open>
  \<open>/^(\w+)(per)((block|sec(ond)?))$/\<close> on a name in lower case.  The three endings exclude each other, so that the first group is
  what is before the one that matches.
\<close>

definition is_word_char :: "char \<Rightarrow> bool" where
  "is_word_char c \<longleftrightarrow> is_digit c \<or> c = CHR ''_'' \<or> (let n = of_char c :: nat in 65 \<le> n \<and> n \<le> 90 \<or> 97 \<le> n \<and> n \<le> 122)"

definition rewardName :: "string \<Rightarrow> string option" where
  "rewardName name =
     (let s = to_lower name in
      case find (\<lambda>en. length en < length s \<and> drop (length s - length en) s = en) [''perblock'', ''persecond'', ''persec''] of
        None \<Rightarrow> None
      | Some en \<Rightarrow> (let g = take (length s - length en) s in if list_all is_word_char g then Some g else None))"

definition on_name :: "(string \<Rightarrow> bool) \<Rightarrow> predicate" where
  "on_name p readonly full context item = Inr (p (ai_name item))"

text \<open>The name of the reward token is read off the name of the function that tells the rate; an unknown rate throws.\<close>

definition isRewardToken :: predicate where
  "isRewardToken readonly full context item =
     (case js_get context ''rewardPerSecond'' of
        None \<Rightarrow> Inl ''TypeError''
      | Some rate \<Rightarrow> (case rewardName (ai_name rate) of
          None \<Rightarrow> Inl ''TypeError''
        | Some name \<Rightarrow> Inr (equals (ai_name item) name)))"

definition chefPredicates :: "(string \<times> predicate) list" where
  "chefPredicates =
    [(''poolLength'', on_name (\<lambda>n. startsWith n ''poolLen'')),
     (''rewardPerSecond'', on_name (\<lambda>n. \<not> startsWith n ''max'' \<and> rewardName n \<noteq> None)),
     (''rewardToken'', isRewardToken),
     (''totalAllocPoint'', on_name (\<lambda>n. startsWith n ''totalAlloc'')),
     (''poolInfo'', on_name (\<lambda>n. startsWith n ''poolInf'')),
     (''userInfo'', on_name (\<lambda>n. startsWith n ''userInf'')),
     (''pendingRewards'', on_name (\<lambda>n. startsWith n ''pending''))]"

definition chefInteractivePredicates :: "(string \<times> predicate) list" where
  "chefInteractivePredicates = [(''claim'', on_name (\<lambda>n. equals n ''withdraw''))]"

section \<open>The pools\<close>

record chef_context =
  cx_poolLength :: "int option"
  cx_rewardToken :: string
  cx_totalAllocPoint :: "int option"
  cx_rewardPerSecond :: js_number

definition averageBlockTimeByChain :: "int \<Rightarrow> int option" where
  "averageBlockTimeByChain = (\<lambda>_. None)(ChainIdEnum Ftm := Some 1, ChainIdEnum Bnb := Some 3)"

definition contextInt :: "(string, output_data) js_map \<Rightarrow> string \<Rightarrow> int option" where
  "contextInt context name = (case js_get context name of Some (Single v) \<Rightarrow> parseIntOf v | _ \<Rightarrow> None)"

definition formatContext :: "int \<Rightarrow> (string, output_data) js_map \<Rightarrow> string + chef_context" where
  "formatContext chain context =
     (case js_get context ''rewardToken'' of
        Some (Single (Scalar token)) \<Rightarrow>
          (let avgBlockTime = (case averageBlockTimeByChain chain of Some t \<Rightarrow> t | None \<Rightarrow> 1);
               rate = (case js_get context ''rewardPerSecond'' of Some (Single v) \<Rightarrow> numberText v | _ \<Rightarrow> None)
           in Inr \<lparr> cx_poolLength = contextInt context ''poolLength'', cx_rewardToken = to_lower token,
                cx_totalAllocPoint = contextInt context ''totalAllocPoint'',
                cx_rewardPerSecond = dividedBy rate (Some (of_int avgBlockTime)) \<rparr>)
      | _ \<Rightarrow> Inl ''TypeError'')"

text \<open>\<open>xs.splice(start, 1)\<close>, where a negative position counts from the end.\<close>

definition spliceOne :: "'a list \<Rightarrow> int \<Rightarrow> 'a list" where
  "spliceOne xs start = (let i = (if start < 0 then nat (int (length xs) + start) else nat start) in take i xs @ drop (Suc i) xs)"

definition keptPools :: "int \<Rightarrow> int list option \<Rightarrow> int list" where
  "keptPools poolLength badPools =
     (let poolIds = map int [0..<nat poolLength]
      in case badPools of None \<Rightarrow> poolIds | Some bad \<Rightarrow> foldl spliceOne poolIds (rev (sort bad)))"

record chef_pool_info =
  pi_poolId :: int
  pi_stakedToken :: "string option"
  pi_allocPoint :: "int option"

definition indexWhere :: "('a \<Rightarrow> bool) \<Rightarrow> 'a list \<Rightarrow> nat option" where
  "indexWhere p xs = (let i = length (takeWhile (\<lambda>x. \<not> p x) xs) in if i < length xs then Some i else None)"

text \<open>
  The values of a decoded result come first by index (\<open>Object.values\<close> lists integer keys first).  An output of type
  \<open>address\<close> is a text.
\<close>

definition valueAt :: "(result_key, sol_value) js_map \<Rightarrow> nat option \<Rightarrow> sol_value" where
  "valueAt pool i = (case i of None \<Rightarrow> Missing | Some n \<Rightarrow> readResult pool (ByIndex n))"

definition stakedTokenOf :: "(result_key, sol_value) js_map \<Rightarrow> nat option \<Rightarrow> string option" where
  "stakedTokenOf pool lpTokenIdx =
     (case readResult pool (ByName ''stakedToken'') of
        Scalar (c # s) \<Rightarrow> Some (c # s)
      | _ \<Rightarrow> (case valueAt pool lpTokenIdx of Scalar s \<Rightarrow> Some (to_lower s) | _ \<Rightarrow> None))"

definition formatPoolInfo :: "abi_output list \<Rightarrow> (int \<times> (result_key, sol_value) js_map) list \<Rightarrow> string + chef_pool_info list" where
  "formatPoolInfo poolInfoOutputs pools =
     (let lpTokenIdx = indexWhere (\<lambda>output. ao_type output = ''address'') poolInfoOutputs;
          allocPointIdx = indexWhere (\<lambda>output. take 5 (to_lower (ao_name output)) = ''alloc'') poolInfoOutputs
      in sum_map (\<lambda>(poolId, pool). case valueAt pool allocPointIdx of
             Missing \<Rightarrow> Inl ''TypeError''
           | v \<Rightarrow> Inr \<lparr> pi_poolId = poolId, pi_stakedToken = stakedTokenOf pool lpTokenIdx, pi_allocPoint = parseIntOf v \<rparr>) pools)"

text \<open>A pool info is a structure; another kind of result is outside this model and counts as an error.\<close>

definition poolFields :: "int \<times> output_data option \<Rightarrow> string + int \<times> (result_key, sol_value) js_map" where
  "poolFields = (\<lambda>(poolId, r). case r of Some (Fields pool) \<Rightarrow> Inr (poolId, pool) | _ \<Rightarrow> Inl ''TypeError'')"

definition fetchPoolInfos :: "node_calls \<Rightarrow> chef_meta \<Rightarrow> named_functions \<Rightarrow> int list \<Rightarrow> string + chef_pool_info list" where
  "fetchPoolInfos N M fs poolIds =
     sum_bind (sum_map (\<lambda>poolId. callNamed (ch_address M) fs ''poolInfo'' [ArgNumber poolId]) poolIds) (\<lambda>poolInfoCalls.
     sum_bind (callArray (nc_web3 N) (nc_aggregate N) poolInfoCalls (ch_chain M)) (\<lambda>poolInfo.
     sum_bind (sum_map poolFields (zip poolIds poolInfo)) (\<lambda>pools.
     (case js_get fs ''poolInfo'' of
        None \<Rightarrow> Inl ''TypeError''
      | Some abi \<Rightarrow> formatPoolInfo (ai_outputs abi) pools))))"

text \<open>What a user can do with a pool: a claim is a withdrawal of nothing.  The inputs of a function are given by their names.\<close>

record claim_action =
  cl_input :: "(string, int) js_map"
  cl_abi :: abi_entry

definition claimInput :: "int \<Rightarrow> (string, int) js_map \<Rightarrow> string \<Rightarrow> string + (string, int) js_map" where
  "claimInput poolId inputValues name =
     (if name = ''_pid'' then Inr (js_put inputValues name poolId)
      else if name = ''_amount'' then Inr (js_put inputValues name 0)
      else Inl (''Unable to build claim input '' @ name))"

definition getClaimInputValues :: "string list \<Rightarrow> int \<Rightarrow> string + (string, int) js_map" where
  "getClaimInputValues inputs poolId = sum_foldl (claimInput poolId) [] inputs"

definition formatOpportunityInteractiveFunctions :: "named_functions \<Rightarrow> int \<Rightarrow> string + claim_action list" where
  "formatOpportunityInteractiveFunctions interactive poolId = (case js_get interactive ''claim'' of
     None \<Rightarrow> Inr []
   | Some claimFunctionAbi \<Rightarrow> sum_bind (getClaimInputValues (ai_inputs claimFunctionAbi) poolId) (\<lambda>input.
       Inr [\<lparr> cl_input = input, cl_abi = claimFunctionAbi \<rparr>]))"

record chef_minimal =
  mo_id :: string
  mo_chain :: int
  mo_staked :: string
  mo_totalSupplied :: js_number
  mo_rewardToken :: string
  mo_rewardPerSecond :: js_number
  mo_interactive :: "claim_action list"

definition chefPoolId :: "chef_meta \<Rightarrow> int \<Rightarrow> string" where
  "chefPoolId M poolId = ch_address M @ ''::'' @ show_int poolId"

definition numOfInt :: "int option \<Rightarrow> js_number" where
  "numOfInt n = map_option of_int n"

definition formatStakingOpportunityMinimal ::
  "chef_meta \<Rightarrow> named_functions \<Rightarrow> chef_context \<Rightarrow> chef_pool_info \<Rightarrow> string \<Rightarrow> js_number \<Rightarrow> string + chef_minimal" where
  "formatStakingOpportunityMinimal M interactive context poolInfo stakedToken totalStaked =
     (let rewardShare = num_div (numOfInt (pi_allocPoint poolInfo)) (numOfInt (cx_totalAllocPoint context));
          rewardPerSecond = num_mul (cx_rewardPerSecond context) rewardShare
      in sum_bind (formatOpportunityInteractiveFunctions interactive (pi_poolId poolInfo)) (\<lambda>actions.
           Inr \<lparr> mo_id = chefPoolId M (pi_poolId poolInfo), mo_chain = ch_chain M, mo_staked = stakedToken, mo_totalSupplied = totalStaked,
             mo_rewardToken = cx_rewardToken context, mo_rewardPerSecond = rewardPerSecond, mo_interactive = actions \<rparr>))"

definition ERC20_balanceOf :: abi_item where
  "ERC20_balanceOf = \<lparr> ai_name = ''balanceOf'', ai_inputs = [[]], ai_outputs = [\<lparr> ao_name = [], ao_type = ''uint256'' \<rparr>] \<rparr>"

text \<open>A call to an absent address cannot be sent.\<close>

definition stakedCall :: "chef_meta \<Rightarrow> chef_pool_info \<Rightarrow> string + call_data" where
  "stakedCall M poolInfo = (case pi_stakedToken poolInfo of
     None \<Rightarrow> Inl ''invalid address''
   | Some token \<Rightarrow> Inr \<lparr> ca_address = token, ca_abi = ERC20_balanceOf, ca_input = Some [ArgString (ch_address M)], ca_inputPlain = None,
       ca_outputPlain = None, ca_output = None \<rparr>)"

text \<open>The result of \<open>balanceOf\<close> is a number.\<close>

definition stakedAmount :: "output_data option \<Rightarrow> string + js_number" where
  "stakedAmount r = (case r of Some (Single (BigNum n)) \<Rightarrow> Inr n | _ \<Rightarrow> Inl ''TypeError'')"

definition completePool :: "chef_meta \<Rightarrow> named_functions \<Rightarrow> chef_context \<Rightarrow> chef_pool_info \<times> output_data option \<Rightarrow> string + chef_minimal" where
  "completePool M interactive context = (\<lambda>(poolInfo, r). sum_bind (stakedAmount r) (\<lambda>totalStaked.
     formatStakingOpportunityMinimal M interactive context poolInfo
       (case pi_stakedToken poolInfo of Some t \<Rightarrow> t | None \<Rightarrow> []) totalStaked))"

text \<open>The number of pools is the length of a new array, which must be a number of 32 bits.\<close>

definition fetchOpportunityData ::
  "node_calls \<Rightarrow> chef_meta \<Rightarrow> named_functions \<Rightarrow> named_functions \<Rightarrow> chef_context \<Rightarrow> string + chef_minimal list" where
  "fetchOpportunityData N M fs interactive context =
     (case cx_poolLength context of
        None \<Rightarrow> Inl ''RangeError''
      | Some n \<Rightarrow>
          if n < 0 \<or> 2 ^ 32 \<le> n then Inl ''RangeError''
          else sum_bind (fetchPoolInfos N M fs (keptPools n (ch_badPools M))) (\<lambda>poolInfos.
               sum_bind (sum_map (stakedCall M) poolInfos) (\<lambda>totalStakedCalls.
               sum_bind (callArray (nc_web3 N) (nc_aggregate N) totalStakedCalls (ch_chain M)) (\<lambda>totalStakedPerPool.
                 sum_map (completePool M interactive context) (zip poolInfos totalStakedPerPool)))))"

definition getCacheableOpportunityData ::
  "node_calls \<Rightarrow> chef_meta \<Rightarrow> named_functions \<Rightarrow> named_functions \<Rightarrow> string + chef_minimal list" where
  "getCacheableOpportunityData N M fs interactive =
     sum_bind (callInputlessFunctions N M fs) (\<lambda>context.
     sum_bind (formatContext (ch_chain M) context) (\<lambda>c. fetchOpportunityData N M fs interactive c))"

section \<open>Positions\<close>

record underlying_token =
  ut_reserve :: js_number
  ut_price :: js_number
  ut_balance :: "js_number option"
  ut_value :: "js_number option"

record staked_token =
  st_address :: string
  st_decimals :: nat
  st_price :: js_number
  st_totalSupply :: js_number
  st_underlying :: "underlying_token list option"

record pool_item =
  it_token :: staked_token
  it_amount :: "js_number option"
  it_value :: "js_number option"

record stake_pool =
  sp_id :: string
  sp_supplied :: "pool_item list"
  sp_rewarded :: "pool_item list"

definition userInfoLabel :: "string \<Rightarrow> string \<Rightarrow> string \<Rightarrow> string" where
  "userInfoLabel masterchef poolId user = masterchef @ ''.userInfo('' @ poolId @ '', '' @ user @ '')''"

definition pendingRewardsLabel :: "string \<Rightarrow> string \<Rightarrow> string \<Rightarrow> string" where
  "pendingRewardsLabel masterchef poolId user = masterchef @ ''.pendingRewards('' @ poolId @ '', '' @ user @ '')''"

text \<open>\<open>id.split('::')\<close>.\<close>

fun splitColons :: "string \<Rightarrow> string list" where
  "splitColons [] = [[]]"
| "splitColons [c] = [[c]]"
| "splitColons (c # d # s) =
     (if c = CHR '':'' \<and> d = CHR '':'' then [] # splitColons s
      else (case splitColons (d # s) of x # xs \<Rightarrow> (c # x) # xs | [] \<Rightarrow> [[c]]))"

text \<open>The contract and the number of a pool; an absent number cannot be encoded.\<close>

definition poolOfId :: "string \<Rightarrow> string + string \<times> string" where
  "poolOfId s = (case splitColons s of masterchef # poolId # _ \<Rightarrow> Inr (masterchef, poolId) | _ \<Rightarrow> Inl ''TypeError'')"

definition poolUserCalls :: "chef_meta \<Rightarrow> named_functions \<Rightarrow> string \<Rightarrow> stake_pool \<Rightarrow> string + (string \<times> call_data) list" where
  "poolUserCalls M fs address pool =
     sum_bind (poolOfId (sp_id pool)) (\<lambda>(masterchef, poolId).
     sum_bind (callNamed (ch_address M) fs ''userInfo'' [ArgString poolId, ArgString address]) (\<lambda>c1.
     sum_bind (callNamed (ch_address M) fs ''pendingRewards'' [ArgString poolId, ArgString address]) (\<lambda>c2.
       Inr [(userInfoLabel masterchef poolId address, c1), (pendingRewardsLabel masterchef poolId address, c2)])))"

definition getUserInfoAndRewardsFromChain ::
  "node_calls \<Rightarrow> chef_meta \<Rightarrow> named_functions \<Rightarrow> stake_pool list \<Rightarrow> string \<Rightarrow> string + (string, call_data) js_map" where
  "getUserInfoAndRewardsFromChain N M fs pools address =
     sum_bind (sum_map (poolUserCalls M fs address) pools) (\<lambda>calls.
       handleInBatches (nc_web3 N) (nc_aggregate N) (newMap (concat calls)) (ch_chain M))"

definition shareUnderlying :: "js_number \<Rightarrow> underlying_token \<Rightarrow> underlying_token" where
  "shareUnderlying poolShare underlying =
     (let balance = num_mul (ut_reserve underlying) poolShare
      in underlying\<lparr> ut_balance := Some balance, ut_value := Some (num_mul balance (ut_price underlying)) \<rparr>)"

definition modifyUserEntrySupplied :: "pool_item \<Rightarrow> js_number \<Rightarrow> pool_item" where
  "modifyUserEntrySupplied supplied balance =
     (let poolShare = num_div balance (st_totalSupply (it_token supplied));
          token = (it_token supplied)\<lparr> st_underlying := map_option (map (shareUnderlying poolShare)) (st_underlying (it_token supplied)) \<rparr>
      in supplied\<lparr> it_token := token, it_amount := Some balance, it_value := Some (num_mul balance (st_price token)) \<rparr>)"

text \<open>The output of the call under a label, and the amount in the result of \<open>userInfo\<close>.\<close>

definition outputOf :: "(string, call_data) js_map \<Rightarrow> string \<Rightarrow> string + output_data" where
  "outputOf results label = (case js_get results label of
     None \<Rightarrow> Inl ''TypeError''
   | Some c \<Rightarrow> (case ca_output c of None \<Rightarrow> Inl ''TypeError'' | Some d \<Rightarrow> Inr d))"

definition userAmount :: "output_data \<Rightarrow> string + js_number" where
  "userAmount userInfo = (case userInfo of
     Fields m \<Rightarrow> (case readResult m (ByName ''amount'') of Missing \<Rightarrow> Inl ''TypeError'' | v \<Rightarrow> Inr (numberText v))
   | Single _ \<Rightarrow> Inl ''TypeError'')"

definition pendingAmount :: "output_data \<Rightarrow> string + js_number" where
  "pendingAmount pendingRewards = (case pendingRewards of
     Single Missing \<Rightarrow> Inl ''TypeError'' | Single v \<Rightarrow> Inr (numberText v) | Fields _ \<Rightarrow> Inr None)"

definition headItem :: "pool_item list \<Rightarrow> string + pool_item" where
  "headItem items = (case items of [] \<Rightarrow> Inl ''TypeError'' | i # _ \<Rightarrow> Inr i)"

text \<open>Given what the two calls of the pool returned; the second is only read when there is a balance.\<close>

definition formatPosition :: "stake_pool \<Rightarrow> string + output_data \<Rightarrow> string + output_data \<Rightarrow> string + stake_pool option" where
  "formatPosition pool userInfo pendingRewards =
     sum_bind userInfo (\<lambda>info.
     sum_bind (userAmount info) (\<lambda>amount.
     sum_bind (headItem (sp_supplied pool)) (\<lambda>supplied.
       (let balance = normalizeDecimals amount (st_decimals (it_token supplied)) in
        if \<not> truthy_num balance then Inr None
        else sum_bind pendingRewards (\<lambda>pending.
             sum_bind (pendingAmount pending) (\<lambda>pendingNumber.
             sum_bind (headItem (sp_rewarded pool)) (\<lambda>rewarded.
               (let rewardBalance = normalizeDecimals pendingNumber (st_decimals (it_token rewarded)) in
                Inr (Some (pool\<lparr> sp_supplied := modifyUserEntrySupplied supplied balance # tl (sp_supplied pool),
                  sp_rewarded := rewarded\<lparr> it_amount := Some rewardBalance,
                    it_value := Some (num_mul rewardBalance (st_price (it_token rewarded))) \<rparr> # tl (sp_rewarded pool) \<rparr>))))))))))"

definition formatUserData :: "string \<Rightarrow> (string, call_data) js_map \<Rightarrow> stake_pool \<Rightarrow> string + stake_pool option" where
  "formatUserData address results pool =
     sum_bind (poolOfId (sp_id pool)) (\<lambda>(masterchef, poolId).
       formatPosition pool (outputOf results (userInfoLabel masterchef poolId address))
         (outputOf results (pendingRewardsLabel masterchef poolId address)))"

definition chefUserData :: "node_calls \<Rightarrow> chef_meta \<Rightarrow> named_functions \<Rightarrow> string \<Rightarrow> stake_pool list \<Rightarrow> string + stake_pool list" where
  "chefUserData N M fs address pools =
     sum_bind (getUserInfoAndRewardsFromChain N M fs pools address) (\<lambda>results.
     sum_bind (sum_map (formatUserData address results) pools) (\<lambda>us.
       Inr (concat (map (\<lambda>u. case u of Some p \<Rightarrow> [p] | None \<Rightarrow> []) us))))"

section \<open>The pools that are kept\<close>

lemma spliceOne_at: "0 \<le> k \<Longrightarrow> spliceOne xs k = take (nat k) xs @ drop (Suc (nat k)) xs"
  by (simp add: spliceOne_def Let_def)

lemma splice_sorted:
  "sorted bad \<Longrightarrow> distinct bad \<Longrightarrow> (\<forall>i\<in>set bad. 0 \<le> i \<and> i < int m) \<Longrightarrow>
    foldl spliceOne (map int [0..<m] @ rest) (rev bad) = filter (\<lambda>i. i \<notin> set bad) (map int [0..<m]) @ rest"
proof (induction bad arbitrary: m rest rule: rev_induct)
  case (snoc k bad)
  have k: "0 \<le> k" "nat k < m" using snoc.prems(3) by auto
  have below: "\<forall>i\<in>set bad. 0 \<le> i \<and> i < int (nat k)"
  proof
    fix i assume i: "i \<in> set bad"
    then have "i \<le> k" "i \<noteq> k" using snoc.prems(1,2) by (auto simp: sorted_append)
    then show "0 \<le> i \<and> i < int (nat k)" using i snoc.prems(3) by auto
  qed
  have split: "[0..<m] = [0..<nat k] @ nat k # [Suc (nat k)..<m]"
    using upt_add_eq_append[of 0 "nat k" "m - nat k"] k(2) by (simp add: upt_conv_Cons)
  have step: "spliceOne (map int [0..<m] @ rest) k = map int [0..<nat k] @ (map int [Suc (nat k)..<m] @ rest)"
    using k by (simp add: spliceOne_at split)
  have kept: "filter (\<lambda>i. i \<notin> set (bad @ [k])) (map int [Suc (nat k)..<m]) = map int [Suc (nat k)..<m]"
    using below k by (fastforce intro!: filter_True)
  have same: "filter (\<lambda>i. i \<notin> set (bad @ [k])) (map int [0..<nat k]) = filter (\<lambda>i. i \<notin> set bad) (map int [0..<nat k])"
    by (rule filter_cong) auto
  have "foldl spliceOne (map int [0..<m] @ rest) (rev (bad @ [k]))
      = filter (\<lambda>i. i \<notin> set bad) (map int [0..<nat k]) @ (map int [Suc (nat k)..<m] @ rest)"
    using snoc.IH[OF _ _ below] snoc.prems by (simp add: step sorted_append)
  also have "\<dots> = filter (\<lambda>i. i \<notin> set (bad @ [k])) (map int ([0..<nat k] @ nat k # [Suc (nat k)..<m])) @ rest"
    using kept same k(1) by simp
  finally show ?case unfolding split .
qed simp

text \<open>The pools that are left after the bad ones are removed are the others in their order, when the list of bad pools names
  pools of the contract and none of them twice.\<close>

theorem kept_pools:
  assumes "distinct bad" "\<forall>i\<in>set bad. 0 \<le> i \<and> i < n"
  shows "keptPools n (Some bad) = filter (\<lambda>i. i \<notin> set bad) (map int [0..<nat n])"
proof -
  have "\<forall>i\<in>set (sort bad). 0 \<le> i \<and> i < int (nat n)" using assms(2) by auto
  from splice_sorted[OF _ _ this, of "[]"] assms(1) show ?thesis by (simp add: keptPools_def)
qed

theorem kept_pools_witness: "keptPools 5 (Some [1, 3]) = [0, 2, 4]"
  using kept_pools[of "[1, 3]" 5] by (simp add: upt_rec)

text \<open>A pool that is named twice takes the pool after it away as well.\<close>

lemma repeated_bad_pool: "keptPools 5 (Some [1, 1]) = [0, 3, 4]"
  by (simp add: keptPools_def spliceOne_def upt_rec)

section \<open>The emission is shared\<close>

lemma callArray_length: "callArray W agg calls chain = Inr rs \<Longrightarrow> length rs = length calls"
  by (auto simp: callArray_def Let_def sums dest!: list_all2_lengthD)

lemma sum_map_keys:
  assumes "sum_map f xs = Inr ys" "\<And>x y. x \<in> set xs \<Longrightarrow> f x = Inr y \<Longrightarrow> h y = g x"
  shows "map h ys = map g xs"
  using assms by (induction xs arbitrary: ys) (auto simp: sums list_all2_Cons1)

lemma fetchPoolInfos_ids:
  assumes "fetchPoolInfos N M fs ids = Inr infos"
  shows "map pi_poolId infos = ids"
proof -
  obtain abi where abi: "js_get fs ''poolInfo'' = Some abi"
    using assms by (cases "js_get fs ''poolInfo''") (simp_all add: fetchPoolInfos_def sum_bind_Inr_iff)
  then obtain calls rs pools where run: "sum_map (\<lambda>poolId. callNamed (ch_address M) fs ''poolInfo'' [ArgNumber poolId]) ids = Inr calls"
      "callArray (nc_web3 N) (nc_aggregate N) calls (ch_chain M) = Inr rs" "sum_map poolFields (zip ids rs) = Inr pools"
      "formatPoolInfo (ai_outputs abi) pools = Inr infos"
    using assms by (auto simp: fetchPoolInfos_def sum_bind_Inr_iff)
  have len: "length rs = length ids" using callArray_length[OF run(2)] sum_map_keys[OF run(1), of "\<lambda>_. ()" "\<lambda>_. ()"]
    by (metis length_map)
  have "map fst pools = map fst (zip ids rs)"
    using run(3) by (rule sum_map_keys) (auto simp: poolFields_def split: option.splits output_data.splits)
  moreover have "map pi_poolId infos = map fst pools"
    using run(4) unfolding formatPoolInfo_def Let_def by (rule sum_map_keys) (auto split: sol_value.splits)
  ultimately show ?thesis using len by simp
qed

lemma completePool_fields:
  assumes "completePool M interactive c (info, r) = Inr op"
  shows "mo_id op = chefPoolId M (pi_poolId info)
    \<and> mo_rewardPerSecond op = num_mul (cx_rewardPerSecond c) (num_div (numOfInt (pi_allocPoint info)) (numOfInt (cx_totalAllocPoint c)))"
  using assms by (auto simp: completePool_def formatStakingOpportunityMinimal_def Let_def sum_bind_Inr_iff)

lemma shared_sum: "(\<Sum>i\<leftarrow>xs. r * of_int (p i) / of_int t) = r * of_int (\<Sum>i\<leftarrow>xs. p i) / (of_int t :: rat)"
  by (induction xs) (simp_all add: field_simps add_divide_distrib)

text \<open>C20: The contract gets one opportunity for every pool that is kept, under the identifier of the pool, and the rates of
  the opportunities add up to the emission times the share of the kept pools in the points of all pools: to the whole emission when no
  pool is left out and the points of the pools add up.\<close>

theorem emission_shared:
  assumes "fetchOpportunityData N M fs interactive c = Inr ops" "cx_poolLength c = Some n"
    and "fetchPoolInfos N M fs (keptPools n (ch_badPools M)) = Inr infos" "\<forall>i\<in>set infos. pi_allocPoint i = Some (points (pi_poolId i))"
    and "cx_totalAllocPoint c = Some allPoints" "allPoints \<noteq> 0" "cx_rewardPerSecond c = Some rate"
  shows "map mo_id ops = map (chefPoolId M) (keptPools n (ch_badPools M))
    \<and> (\<Sum>op\<leftarrow>ops. valueOf (mo_rewardPerSecond op)) = rate * of_int (\<Sum>i\<leftarrow>keptPools n (ch_badPools M). points i) / of_int allPoints"
proof -
  obtain calls totals where run: "sum_map (stakedCall M) infos = Inr calls"
      "callArray (nc_web3 N) (nc_aggregate N) calls (ch_chain M) = Inr totals"
      "sum_map (completePool M interactive c) (zip infos totals) = Inr ops"
    using assms(1,2,3) by (auto simp: fetchOpportunityData_def sum_bind_Inr_iff split: if_splits)
  have "length totals = length infos"
    using callArray_length[OF run(2)] sum_map_keys[OF run(1), of "\<lambda>_. ()" "\<lambda>_. ()"] by (metis length_map)
  then have infos: "map fst (zip infos totals) = infos" by simp
  have ids: "map pi_poolId infos = keptPools n (ch_badPools M)" using fetchPoolInfos_ids[OF assms(3)] .
  have "map mo_id ops = map (\<lambda>p. chefPoolId M (pi_poolId (fst p))) (zip infos totals)"
    using run(3) by (rule sum_map_keys) (auto dest: completePool_fields)
  also have "\<dots> = map (chefPoolId M) (map pi_poolId (map fst (zip infos totals)))" by simp
  finally have 1: "map mo_id ops = map (chefPoolId M) (keptPools n (ch_badPools M))" by (simp only: infos ids)
  have "map (\<lambda>op. valueOf (mo_rewardPerSecond op)) ops = map (\<lambda>p. rate * of_int (points (pi_poolId (fst p))) / of_int allPoints) (zip infos totals)"
  proof (rule sum_map_keys[OF run(3)])
    fix p op assume p: "p \<in> set (zip infos totals)" "completePool M interactive c p = Inr op"
    then have "fst p \<in> set infos" using set_zip_leftD[of "fst p" "snd p" infos totals] by simp
    then have "pi_allocPoint (fst p) = Some (points (pi_poolId (fst p)))" using assms(4) by blast
    then show "valueOf (mo_rewardPerSecond op) = rate * of_int (points (pi_poolId (fst p))) / of_int allPoints"
      using completePool_fields[of M interactive c "fst p" "snd p" op] p(2) assms(5-7) by (simp add: numOfInt_def valueOf_def)
  qed
  also have "\<dots> = map (\<lambda>i. rate * of_int (points i) / of_int allPoints) (map pi_poolId (map fst (zip infos totals)))" by simp
  finally have "(\<Sum>op\<leftarrow>ops. valueOf (mo_rewardPerSecond op)) = (\<Sum>i\<leftarrow>keptPools n (ch_badPools M). rate * of_int (points i) / of_int allPoints)"
    by (simp only: infos ids)
  also have "\<dots> = rate * of_int (\<Sum>i\<leftarrow>keptPools n (ch_badPools M). points i) / of_int allPoints"
    by (rule shared_sum)
  finally show ?thesis using 1 by blast
qed

section \<open>The positions of a user\<close>

text \<open>What the two functions of the contract answer when they are called alone.\<close>

definition askAlone :: "node_calls \<Rightarrow> (string \<times> string \<Rightarrow> string) \<Rightarrow> chef_meta \<Rightarrow> named_functions \<Rightarrow> string \<Rightarrow> string \<Rightarrow> string \<Rightarrow> string + output_data" where
  "askAlone N node M fs name poolId address =
     sum_bind (callNamed (ch_address M) fs name [ArgString poolId, ArgString address]) (singleOutput (nc_web3 N) node)"

definition positionOf ::
  "node_calls \<Rightarrow> (string \<times> string \<Rightarrow> string) \<Rightarrow> chef_meta \<Rightarrow> named_functions \<Rightarrow> string \<Rightarrow> stake_pool \<Rightarrow> string \<Rightarrow> string + stake_pool option" where
  "positionOf N node M fs address pool poolId =
     formatPosition pool (askAlone N node M fs ''userInfo'' poolId address) (askAlone N node M fs ''pendingRewards'' poolId address)"

lemma splitColons_plain: "CHR '':'' \<notin> set s \<Longrightarrow> splitColons s = [s]"
  by (induction s rule: splitColons.induct) auto

lemma splitColons_parts: "CHR '':'' \<notin> set a \<Longrightarrow> CHR '':'' \<notin> set b \<Longrightarrow> splitColons (a @ ''::'' @ b) = [a, b]"
proof (induction a)
  case (Cons c a)
  then show ?case by (cases a) auto
qed (simp add: splitColons_plain)

lemma poolOfId_parts: "CHR '':'' \<notin> set a \<Longrightarrow> CHR '':'' \<notin> set b \<Longrightarrow> poolOfId (a @ ''::'' @ b) = Inr (a, b)"
  using splitColons_parts[of a b] by (simp add: poolOfId_def)

lemma labels_differ: "userInfoLabel mc p u \<noteq> pendingRewardsLabel mc q u"
  by (simp add: userInfoLabel_def pendingRewardsLabel_def)

lemma labels_same:
  "userInfoLabel mc p u = userInfoLabel mc q u \<Longrightarrow> p = q"
  "pendingRewardsLabel mc p u = pendingRewardsLabel mc q u \<Longrightarrow> p = q"
  by (simp_all add: userInfoLabel_def pendingRewardsLabel_def)

text \<open>The calls for the pools with the given numbers.\<close>

definition numberedCalls :: "chef_meta \<Rightarrow> abi_entry \<Rightarrow> abi_entry \<Rightarrow> string \<Rightarrow> string list \<Rightarrow> (string \<times> call_data) list" where
  "numberedCalls M info pending address ids = concat (map (\<lambda>i.
     [(userInfoLabel (ch_address M) i address, createCall (ch_address M) info [ArgString i, ArgString address]),
      (pendingRewardsLabel (ch_address M) i address, createCall (ch_address M) pending [ArgString i, ArgString address])]) ids)"

lemma numberedCalls_get:
  assumes "i \<in> set ids"
  shows "js_get (newMap (numberedCalls M info pending address ids)) (userInfoLabel (ch_address M) i address)
      = Some (createCall (ch_address M) info [ArgString i, ArgString address])"
    and "js_get (newMap (numberedCalls M info pending address ids)) (pendingRewardsLabel (ch_address M) i address)
      = Some (createCall (ch_address M) pending [ArgString i, ArgString address])"
proof -
  have one: "map_of xs k = Some v" if "(k, v) \<in> set xs" "\<And>w. (k, w) \<in> set xs \<Longrightarrow> w = v" for xs k and v :: call_data
  proof -
    have "map_of xs k \<noteq> None" using that(1) by (metis map_of_eq_None_iff image_eqI fst_conv)
    then obtain w where "map_of xs k = Some w" by blast
    with that(2) show ?thesis by (metis map_of_SomeD)
  qed
  have mem: "(k, w) \<in> set (numberedCalls M info pending address ids) \<longleftrightarrow> (\<exists>j\<in>set ids.
      (k = userInfoLabel (ch_address M) j address \<and> w = createCall (ch_address M) info [ArgString j, ArgString address])
      \<or> (k = pendingRewardsLabel (ch_address M) j address \<and> w = createCall (ch_address M) pending [ArgString j, ArgString address]))" for k w
    by (auto simp: numberedCalls_def)
  show "js_get (newMap (numberedCalls M info pending address ids)) (userInfoLabel (ch_address M) i address)
      = Some (createCall (ch_address M) info [ArgString i, ArgString address])"
    unfolding newMap_get by (rule one) (use assms in \<open>auto simp: mem labels_differ dest: labels_same\<close>)
  show "js_get (newMap (numberedCalls M info pending address ids)) (pendingRewardsLabel (ch_address M) i address)
      = Some (createCall (ch_address M) pending [ArgString i, ArgString address])"
    unfolding newMap_get by (rule one) (use assms in \<open>auto simp: mem labels_differ[symmetric] dest: labels_same\<close>)
qed

lemma newMap_wf: "js_wf (newMap kvs)"
proof (induction kvs rule: rev_induct)
  case (snoc kv kvs)
  then show ?case by (cases kv) (simp add: newMap_snoc)
qed (simp add: newMap_def)

lemma newMap_values: "c \<in> set (map snd (newMap kvs)) \<Longrightarrow> c \<in> set (map snd kvs)"
proof -
  assume "c \<in> set (map snd (newMap kvs))"
  then obtain k where "(k, c) \<in> set (newMap kvs)" by auto
  then have "js_get (newMap kvs) k = Some c" using newMap_wf[of kvs] by (simp add: js_wf_def js_keys_def)
  then show ?thesis by (auto simp: newMap_get dest!: map_of_SomeD intro: image_eqI[where x = "(k, c)"])
qed

text \<open>The calls of the two functions have different encodings: their selectors differ.\<close>

definition selectorsDiffer :: "web3 \<Rightarrow> abi_entry \<Rightarrow> abi_entry \<Rightarrow> bool" where
  "selectorsDiffer W f g \<longleftrightarrow> (\<forall>a b x. w3_encodeFunctionCall W (abi_item.truncate f) a = Inr x
     \<longrightarrow> w3_encodeFunctionCall W (abi_item.truncate g) b \<noteq> Inr x)"

lemma encoded: "encodeCall W (createCall a f args) = Inr c1 \<Longrightarrow> \<exists>x. w3_encodeFunctionCall W (abi_item.truncate f) args = Inr x
    \<and> c1 = (createCall a f args)\<lparr> ca_inputPlain := Some x \<rparr>"
  by (auto simp: encodeCall_def createCall_def sum_bind_Inr_iff)

lemma numbered_outputs:
  assumes "selectorsDiffer W info pending" "CHR ''_'' \<notin> set (ch_address M)"
  shows "sameOutputs W chain (map snd (newMap (numberedCalls M info pending address ids)))"
proof -
  let ?call = "\<lambda>f i. createCall (ch_address M) f [ArgString i, ArgString address]"
  have mem: "\<exists>f i. f \<in> {info, pending} \<and> c = ?call f i" if "c \<in> set (map snd (newMap (numberedCalls M info pending address ids)))" for c
  proof -
    note c = newMap_values[OF that]
    have "c \<in> (\<Union>i\<in>set ids. {?call info i, ?call pending i})" using c unfolding numberedCalls_def by force
    then show ?thesis by blast
  qed
  have same: "ai_outputs (ca_abi (?call f i)) = ai_outputs (ca_abi (?call g j))"
    if "f \<in> {info, pending}" "g \<in> {info, pending}" "encodeCall W (?call f i) = Inr c1" "encodeCall W (?call g j) = Inr d1"
      "callIdOf chain c1 = callIdOf chain d1" for f g i j c1 d1
  proof -
    note enc = encoded[OF that(3)] encoded[OF that(4)]
    obtain x y where x: "w3_encodeFunctionCall W (abi_item.truncate f) [ArgString i, ArgString address] = Inr x"
        "c1 = (?call f i)\<lparr> ca_inputPlain := Some x \<rparr>"
      and y: "w3_encodeFunctionCall W (abi_item.truncate g) [ArgString j, ArgString address] = Inr y"
        "d1 = (?call g j)\<lparr> ca_inputPlain := Some y \<rparr>"
      using enc by blast
    have "x = y" using that(5) by (simp add: x(2) y(2) callIdOf_def concatStrings_def createCall_def)
    with x(1) y(1) assms(1) that(1,2) have "f = g" unfolding selectorsDiffer_def by blast
    then show ?thesis by (simp add: createCall_def)
  qed
  have addr: "CHR ''_'' \<notin> set (ca_address (?call f i))" for f i using assms(2) by (simp add: createCall_def)
  show ?thesis unfolding sameOutputs_def using mem same addr by (metis (no_types, lifting))
qed

lemma sum_map_zip:
  "length xs = length ys \<Longrightarrow> (\<And>x y. (x, y) \<in> set (zip xs ys) \<Longrightarrow> f x = g x y) \<Longrightarrow> sum_map f xs = sum_map (\<lambda>(x, y). g x y) (zip xs ys)"
proof (induction xs ys rule: list_induct2)
  case (Cons x xs y ys)
  have "f x = g x y" using Cons.prems by simp
  moreover have "sum_map f xs = sum_map (\<lambda>(x, y). g x y) (zip xs ys)" using Cons.IH Cons.prems by simp
  ultimately show ?case by simp
qed simp

text \<open>C22: The batch does not show in the positions of a user: each pool is shown as if its two functions had been asked alone, and the
  pools with a balance are listed in their order.  The pools carry the identifiers that the opportunities of the contract have, and the
  contract for batches answers its calls in their order.\<close>

theorem chef_positions:
  assumes "multicall_contract (nc_aggregate N) node" "chefUserData N M fs address pools = Inr us"
    and "js_get fs ''userInfo'' = Some info" "js_get fs ''pendingRewards'' = Some pending" "selectorsDiffer (nc_web3 N) info pending"
    and "map sp_id pools = map (\<lambda>i. ch_address M @ ''::'' @ i) ids"
    and "CHR ''_'' \<notin> set (ch_address M)" "CHR '':'' \<notin> set (ch_address M)" "\<forall>i\<in>set ids. CHR '':'' \<notin> set i"
  shows "\<exists>ps. sum_map (\<lambda>(pool, i). positionOf N node M fs address pool i) (zip pools ids) = Inr ps
    \<and> us = concat (map (\<lambda>u. case u of Some p \<Rightarrow> [p] | None \<Rightarrow> []) ps)"
proof -
  let ?calls = "newMap (numberedCalls M info pending address ids)"
  have len: "length pools = length ids" using assms(6) by (metis length_map)
  have pool: "poolOfId (sp_id p) = Inr (ch_address M, i)" if "(p, i) \<in> set (zip pools ids)" for p i
  proof -
    have "sp_id p = ch_address M @ ''::'' @ i" using that assms(6) by (auto simp: set_zip) (metis nth_map)
    then show ?thesis using poolOfId_parts assms(8,9) set_zip_rightD[OF that] by simp
  qed
  have "sum_map (poolUserCalls M fs address) pools = sum_map (\<lambda>(p, i). Inr
     [(userInfoLabel (ch_address M) i address, createCall (ch_address M) info [ArgString i, ArgString address]),
      (pendingRewardsLabel (ch_address M) i address, createCall (ch_address M) pending [ArgString i, ArgString address])]) (zip pools ids)"
    using len by (rule sum_map_zip) (simp add: poolUserCalls_def pool callNamed_def assms(3,4))
  also have "\<dots> = Inr (map (\<lambda>(p, i).
     [(userInfoLabel (ch_address M) i address, createCall (ch_address M) info [ArgString i, ArgString address]),
      (pendingRewardsLabel (ch_address M) i address, createCall (ch_address M) pending [ArgString i, ArgString address])]) (zip pools ids))"
    by (rule sum_map_total) auto
  also have "\<dots> = Inr (map (\<lambda>i.
     [(userInfoLabel (ch_address M) i address, createCall (ch_address M) info [ArgString i, ArgString address]),
      (pendingRewardsLabel (ch_address M) i address, createCall (ch_address M) pending [ArgString i, ArgString address])]) (map snd (zip pools ids)))"
    by (simp add: case_prod_beta o_def)
  finally obtain results where res: "handleInBatches (nc_web3 N) (nc_aggregate N) ?calls (ch_chain M) = Inr results"
      "sum_bind (sum_map (formatUserData address results) pools) (\<lambda>us. Inr (concat (map (\<lambda>u. case u of Some p \<Rightarrow> [p] | None \<Rightarrow> []) us))) = Inr us"
    using assms(2) len by (auto simp: chefUserData_def getUserInfoAndRewardsFromChain_def sum_bind_Inr_iff numberedCalls_def)
  have out: "outputOf results k = singleOutput (nc_web3 N) node c" if "js_get ?calls k = Some c" for k c
    using batch_outputs[OF assms(1) res(1) newMap_wf numbered_outputs[OF assms(5,7)] that] by (auto simp: outputOf_def)
  have "sum_map (formatUserData address results) pools
      = sum_map (\<lambda>(p, i). positionOf N node M fs address p i) (zip pools ids)"
    using len
  proof (rule sum_map_zip)
    fix p i assume pi: "(p, i) \<in> set (zip pools ids)"
    note got = numberedCalls_get[OF set_zip_rightD[OF pi], of M info pending address, THEN out]
    show "formatUserData address results p = positionOf N node M fs address p i"
      by (simp add: formatUserData_def pool[OF pi] got positionOf_def askAlone_def callNamed_def assms(3,4))
  qed
  then show ?thesis using res(2) by (auto simp: sum_bind_Inr_iff)
qed

section \<open>The worth of a position\<close>

lemma underlying_worth:
  assumes "\<forall>u\<in>set us. ut_reserve u = Some (r u) \<and> ut_price u = Some (p u)"
  shows "(\<Sum>u\<leftarrow>map (shareUnderlying (Some share)) us. valueOf (case ut_value u of Some v \<Rightarrow> v | None \<Rightarrow> None)) = share * (\<Sum>u\<leftarrow>us. r u * p u)"
  using assms by (induction us) (simp_all add: shareUnderlying_def Let_def valueOf_def algebra_simps)

text \<open>A position is shown exactly when its balance is a number other than zero.  When the price of the staked token is what the
  reserves behind one token are worth, the position is worth as much as the underlying tokens that are shown for it.\<close>

theorem position_worth:
  assumes "formatPosition pool (Inr info) pending = Inr shown" "userAmount info = Inr amount" "sp_supplied pool = item # items"
    and "st_underlying (it_token item) = Some us" "\<forall>u\<in>set us. ut_reserve u = Some (r u) \<and> ut_price u = Some (q u)"
    and "st_totalSupply (it_token item) = Some supply" "supply \<noteq> 0" "st_price (it_token item) = Some ((\<Sum>u\<leftarrow>us. r u * q u) / supply)"
  shows "case shown of
      None \<Rightarrow> \<not> truthy_num (normalizeDecimals amount (st_decimals (it_token item)))
    | Some p \<Rightarrow> \<exists>balance item' us'. balance \<noteq> 0 \<and> normalizeDecimals amount (st_decimals (it_token item)) = Some balance
        \<and> sp_supplied p = item' # items \<and> it_amount item' = Some (Some balance) \<and> st_underlying (it_token item') = Some us'
        \<and> it_value item' = Some (Some (\<Sum>u\<leftarrow>us'. valueOf (case ut_value u of Some v \<Rightarrow> v | None \<Rightarrow> None)))"
proof (cases shown)
  case None
  with assms(1,2,3) show ?thesis
    by (auto simp: formatPosition_def headItem_def Let_def sum_bind_Inr_iff split: if_splits)
next
  case (Some p)
  let ?balance = "normalizeDecimals amount (st_decimals (it_token item))"
  from assms(1,2,3) Some have truthy: "truthy_num ?balance" and p: "sp_supplied p = modifyUserEntrySupplied item ?balance # items"
    by (auto simp: formatPosition_def headItem_def Let_def sum_bind_Inr_iff split: if_splits)
  from truthy obtain b where b: "?balance = Some b" "b \<noteq> 0" by (auto simp: truthy_num_def)
  have share: "num_div (Some b) (st_totalSupply (it_token item)) = Some (b / supply)" using assms(6,7) by simp
  let ?us = "map (shareUnderlying (Some (b / supply))) us"
  have "sp_supplied p = modifyUserEntrySupplied item (Some b) # items" using p b(1) by simp
  moreover have "it_amount (modifyUserEntrySupplied item (Some b)) = Some (Some b)" by (simp add: modifyUserEntrySupplied_def Let_def)
  moreover have "st_underlying (it_token (modifyUserEntrySupplied item (Some b))) = Some ?us"
    by (simp add: modifyUserEntrySupplied_def Let_def share assms(4))
  moreover have "it_value (modifyUserEntrySupplied item (Some b))
      = Some (Some (\<Sum>u\<leftarrow>?us. valueOf (case ut_value u of Some v \<Rightarrow> v | None \<Rightarrow> None)))"
    unfolding underlying_worth[OF assms(5)] by (simp add: modifyUserEntrySupplied_def Let_def assms(8))
  ultimately show ?thesis using Some b by fastforce
qed

section \<open>A concrete contract\<close>

definition demoWeb3 :: web3 where
  "demoWeb3 = \<lparr> w3_encodeFunctionCall = (\<lambda>abi args. Inr (ai_name abi @ json_args (Some args))),
     w3_decodeParameters = (\<lambda>outs plain. Inr
       (if plain = ''pool'' then [(ByIndex 0, Scalar ''0xLP''), (ByIndex 1, Scalar ''30'')]
        else if plain = ''user'' then [(ByName ''amount'', Scalar ''200''), (ByIndex 0, Scalar ''200'')]
        else [(ByIndex 0, Scalar plain)])),
     w3_bigNumber = (\<lambda>v. if v = Scalar ''30'' then Some 30 else if v = Scalar ''200'' then Some 200 else if v = Scalar ''7'' then Some 7 else None) \<rparr>"

definition demoNode :: "string \<times> string \<Rightarrow> string" where
  "demoNode = (\<lambda>(address, plain). if take 8 plain = ''poolInfo'' then ''pool'' else if take 8 plain = ''userInfo'' then ''user''
     else if take 9 plain = ''balanceOf'' then ''200'' else ''7'')"

definition demoCalls :: node_calls where
  "demoCalls = \<lparr> nc_web3 = demoWeb3, nc_aggregate = (\<lambda>xs. Inr (map demoNode xs)) \<rparr>"

definition demoMeta :: chef_meta where
  "demoMeta = \<lparr> ch_address = ''0xchef'', ch_chain = 2, ch_badPools = Some [1] \<rparr>"

definition demoEntry :: "string \<Rightarrow> abi_output list \<Rightarrow> abi_entry" where
  "demoEntry name outs = \<lparr> ai_name = name, ai_inputs = [''_pid''], ai_outputs = outs, ae_type = ''function'', ae_mutability = Some ''view'' \<rparr>"

definition demoFunctions :: named_functions where
  "demoFunctions = [(''poolInfo'', demoEntry ''poolInfo'' [\<lparr> ao_name = ''lpToken'', ao_type = ''address'' \<rparr>, \<lparr> ao_name = ''allocPoint'', ao_type = ''uint256'' \<rparr>]),
     (''userInfo'', demoEntry ''userInfo'' [\<lparr> ao_name = ''amount'', ao_type = ''uint256'' \<rparr>, \<lparr> ao_name = ''rewardDebt'', ao_type = ''uint256'' \<rparr>]),
     (''pendingRewards'', demoEntry ''pendingCake'' [\<lparr> ao_name = [], ao_type = ''uint256'' \<rparr>])]"

definition demoContext :: chef_context where
  "demoContext = \<lparr> cx_poolLength = Some 3, cx_rewardToken = ''0xcake'', cx_totalAllocPoint = Some 90, cx_rewardPerSecond = Some 6 \<rparr>"

definition demoOpportunity :: "int \<Rightarrow> chef_minimal" where
  "demoOpportunity i = \<lparr> mo_id = chefPoolId demoMeta i, mo_chain = 2, mo_staked = ''0xlp'', mo_totalSupplied = Some 200,
     mo_rewardToken = ''0xcake'', mo_rewardPerSecond = Some 2, mo_interactive = [] \<rparr>"

lemma demo_infos: "fetchPoolInfos demoCalls demoMeta demoFunctions [0, 2] =
    Inr [\<lparr> pi_poolId = 0, pi_stakedToken = Some ''0xlp'', pi_allocPoint = Some 30 \<rparr>, \<lparr> pi_poolId = 2, pi_stakedToken = Some ''0xlp'', pi_allocPoint = Some 30 \<rparr>]"
  by code_simp

lemma demo_kept: "keptPools 3 (Some [1]) = [0, 2]"
  by code_simp

lemma demo_opportunities: "fetchOpportunityData demoCalls demoMeta demoFunctions [] demoContext = Inr [demoOpportunity 0, demoOpportunity 2]"
  by code_simp

theorem emission_shared_witness:
  "(\<Sum>op\<leftarrow>[demoOpportunity 0, demoOpportunity 2]. valueOf (mo_rewardPerSecond op)) = 6 * of_int (30 + 30) / of_int 90"
  using emission_shared[OF demo_opportunities, of 3 "[\<lparr> pi_poolId = 0, pi_stakedToken = Some ''0xlp'', pi_allocPoint = Some 30 \<rparr>,
      \<lparr> pi_poolId = 2, pi_stakedToken = Some ''0xlp'', pi_allocPoint = Some 30 \<rparr>]" "\<lambda>_. 30" 90 6]
  by (simp add: demoContext_def demoMeta_def demo_kept demo_infos[unfolded demoMeta_def])

definition demoToken :: "nat \<Rightarrow> js_number \<Rightarrow> underlying_token list option \<Rightarrow> staked_token" where
  "demoToken decimals price us = \<lparr> st_address = ''0xt'', st_decimals = decimals, st_price = price, st_totalSupply = Some 10, st_underlying = us \<rparr>"

definition demoItem :: "staked_token \<Rightarrow> pool_item" where
  "demoItem t = \<lparr> it_token = t, it_amount = None, it_value = None \<rparr>"

definition demoReserve :: "rat \<Rightarrow> underlying_token" where
  "demoReserve x = \<lparr> ut_reserve = Some x, ut_price = Some 1, ut_balance = None, ut_value = None \<rparr>"

definition demoPool :: stake_pool where
  "demoPool = \<lparr> sp_id = ''0xchef::2'', sp_supplied = [demoItem (demoToken 2 (Some 3) (Some [demoReserve 10, demoReserve 20]))],
     sp_rewarded = [demoItem (demoToken 0 (Some 5) None)] \<rparr>"

definition demoPosition :: stake_pool where
  "demoPosition = \<lparr> sp_id = ''0xchef::2'',
     sp_supplied = [\<lparr> it_token = demoToken 2 (Some 3) (Some [(demoReserve 10)\<lparr> ut_balance := Some (Some 2), ut_value := Some (Some 2) \<rparr>,
         (demoReserve 20)\<lparr> ut_balance := Some (Some 4), ut_value := Some (Some 4) \<rparr>]), it_amount = Some (Some 2), it_value = Some (Some 6) \<rparr>],
     sp_rewarded = [\<lparr> it_token = demoToken 0 (Some 5) None, it_amount = Some (Some 7), it_value = Some (Some 35) \<rparr>] \<rparr>"

lemma demo_positions: "chefUserData demoCalls demoMeta demoFunctions ''0xuser'' [demoPool] = Inr [demoPosition]"
  by code_simp

lemma demo_selectors: "selectorsDiffer demoWeb3 (demoEntry ''userInfo'' o1) (demoEntry ''pendingCake'' o2)"
  by (simp add: selectorsDiffer_def demoWeb3_def demoEntry_def abi_item.truncate_def)

theorem chef_positions_witness:
  "\<exists>ps. sum_map (\<lambda>(pool, i). positionOf demoCalls demoNode demoMeta demoFunctions ''0xuser'' pool i) [(demoPool, ''2'')] = Inr ps
    \<and> [demoPosition] = concat (map (\<lambda>u. case u of Some p \<Rightarrow> [p] | None \<Rightarrow> []) ps)"
proof -
  have node: "multicall_contract (nc_aggregate demoCalls) demoNode" by unfold_locales (simp add: demoCalls_def)
  have web: "nc_web3 demoCalls = demoWeb3" by (simp add: demoCalls_def)
  show ?thesis
    using chef_positions[OF node demo_positions, of _ _ "[''2'']"] demo_selectors
    by (simp add: demoFunctions_def web demoMeta_def demoPool_def)
qed

theorem position_worth_witness:
  "\<exists>balance item' us'. balance \<noteq> 0 \<and> normalizeDecimals (Some 200) 2 = Some balance
    \<and> sp_supplied demoPosition = item' # [] \<and> it_amount item' = Some (Some balance) \<and> st_underlying (it_token item') = Some us'
    \<and> it_value item' = Some (Some (\<Sum>u\<leftarrow>us'. valueOf (case ut_value u of Some v \<Rightarrow> v | None \<Rightarrow> None)))"
proof -
  have shown: "formatPosition demoPool (Inr (Fields [(ByName ''amount'', BigNum (Some 200))])) (Inr (Single (BigNum (Some 7)))) = Inr (Some demoPosition)"
    by code_simp
  have item: "sp_supplied demoPool = [demoItem (demoToken 2 (Some 3) (Some [demoReserve 10, demoReserve 20]))]" by (simp add: demoPool_def)
  show ?thesis
    using position_worth[OF shown _ item, of "Some 200" "[demoReserve 10, demoReserve 20]" "\<lambda>u. valueOf (ut_reserve u)" "\<lambda>_. 1" 10]
    by (simp add: userAmount_def readResult_def demoItem_def demoToken_def demoReserve_def valueOf_def)
qed

end
