(* ===== verification/StakingRewards.thy ===== *)
theory StakingRewards
  imports MasterChef
begin

text \<open>
  \<open>framework/support/EVM/MultiContractProtocol.ts\<close> and \<open>protocols/Yield/StakingRewards.ts\<close>: protocols that have a contract of
  the same shape for every pool.  The positions of users are the pool objects themselves, which the code changes in place, so that the
  pools live in a store here: a list of objects, which are named by their position in it.
\<close>

section \<open>The list of contracts\<close>

text \<open>Where the addresses of the contracts come from; the web is a parameter.  An absent handler is \<open>None\<close>.\<close>

record 'j pool_source =
  ps_poolList :: "string list"
  ps_api :: "(string \<times> string \<times> ('j \<Rightarrow> string list) option) option"
  ps_scrape :: "string option"

record 'j pool_web =
  pw_get :: "string \<Rightarrow> string + 'j"
  pw_jsonPath :: "string \<Rightarrow> 'j \<Rightarrow> string list"
  pw_asList :: "'j \<Rightarrow> string list"
  pw_scrape :: "string \<Rightarrow> string + string list"

definition fetchPoolListViaApi :: "'j pool_web \<Rightarrow> string \<times> string \<times> ('j \<Rightarrow> string list) option \<Rightarrow> string + string list" where
  "fetchPoolListViaApi W = (\<lambda>(endpoint, path, handler). sum_bind (pw_get W endpoint) (\<lambda>json. Inr (case handler of
     Some h \<Rightarrow> h json
   | None \<Rightarrow> if path \<noteq> [] then pw_jsonPath W path json else pw_asList W json)))"

definition fetchPoolList :: "'j pool_web \<Rightarrow> 'j pool_source \<Rightarrow> string + string list" where
  "fetchPoolList W src =
     (if ps_poolList src \<noteq> [] then Inr (ps_poolList src)
      else case ps_api src of
        Some api \<Rightarrow> fetchPoolListViaApi W api
      | None \<Rightarrow> (case ps_scrape src of
          Some url \<Rightarrow> pw_scrape W url
        | None \<Rightarrow> Inl ''No pool list options provided. Failed to retrieve pool list''))"

text \<open>
  The functions are those of the first contract whose ABI can be parsed: the address of the protocol is tried first, then the first
  three of the list.  An address that is absent fails at once.  When none can be parsed, there are no functions.
\<close>

definition addressesToTry :: "string option \<Rightarrow> string list \<Rightarrow> string list" where
  "addressesToTry metaAddress addresses = (case metaAddress of Some a \<Rightarrow> [a] | None \<Rightarrow> []) @ take 3 addresses"

fun firstParsed :: "(string \<Rightarrow> 's \<Rightarrow> ((string + named_functions) \<times> 's) option) \<Rightarrow> string list \<Rightarrow> 's \<Rightarrow> (named_functions \<times> 's) option" where
  "firstParsed parse [] s = Some ([], s)"
| "firstParsed parse (a # as) s = Option.bind (parse a s) (\<lambda>(r, s'). case r of
     Inr fs \<Rightarrow> Some (fs, s')
   | Inl _ \<Rightarrow> firstParsed parse as s')"

definition initializeMany ::
  "abi_world \<Rightarrow> ('s, abi_entry list, int) cache_manager \<Rightarrow> 'j pool_web \<Rightarrow> 'j pool_source \<Rightarrow> string option \<Rightarrow> int
    \<Rightarrow> (string \<times> predicate) list \<Rightarrow> 's \<Rightarrow> (string + named_functions) option \<times> 's" where
  "initializeMany W C P src metaAddress chain functionPredicates s =
     (case fetchPoolList P src of
        Inl e \<Rightarrow> (Some (Inl e), s)
      | Inr addresses \<Rightarrow>
          (case firstParsed (\<lambda>a. parseFunctionsFromAddress W C a chain functionPredicates viewFunctions) (addressesToTry metaAddress addresses) s of
             None \<Rightarrow> (None, s)
           | Some (fs, s') \<Rightarrow> (Some (Inr fs), s')))"

section \<open>The users of all pools\<close>

text \<open>
  One step of the loops: the position of an address in a pool, which is a named object or nothing, is added to those of the address.
  An error ends the loops and is the last component.
\<close>

type_synonym 'p store = "'p list"
type_synonym 'p formatter = "string \<Rightarrow> nat \<Rightarrow> 'p store \<Rightarrow> (string + nat option) \<times> 'p store"

fun collectPositions ::
  "'p formatter \<Rightarrow> (string \<times> nat) list \<Rightarrow> (string, nat list) js_map \<Rightarrow> 'p store \<Rightarrow> (string, nat list) js_map \<times> 'p store \<times> string option" where
  "collectPositions fmt [] results store = (results, store, None)"
| "collectPositions fmt ((address, pool) # todo) results store =
     (case fmt address pool store of
        (Inl err, store') \<Rightarrow> (results, store', Some err)
      | (Inr None, store') \<Rightarrow> collectPositions fmt todo results store'
      | (Inr (Some userPool), store') \<Rightarrow>
          collectPositions fmt todo
            (js_put results address ((case js_get results address of None \<Rightarrow> [] | Some l \<Rightarrow> l) @ [userPool])) store')"

text \<open>The pools are the objects of the store in their order.\<close>

definition getUsersPositions ::
  "(string list \<Rightarrow> 'p list \<Rightarrow> string + 'd) \<Rightarrow> ('d \<Rightarrow> 'p formatter) \<Rightarrow> string list \<Rightarrow> 'p list \<times> string list
    \<Rightarrow> (string, nat list) js_map \<times> 'p store \<times> string list" where
  "getUsersPositions fetch fmt addresses = (\<lambda>(pools, errors).
     (let results = newMap (map (\<lambda>address. (address, [])) addresses)
      in case fetch addresses pools of
           Inl err \<Rightarrow> (results, pools, errors @ [err])
         | Inr multicallResults \<Rightarrow>
             (case collectPositions (fmt multicallResults) (List.product addresses [0..<length pools]) results pools of
                (results', store, None) \<Rightarrow> (results', store, errors)
              | (results', store, Some err) \<Rightarrow> (results', store, errors @ [err]))))"

text \<open>What the answer shows for an address: the objects as they are in the end.\<close>

definition shownPositions :: "(string, nat list) js_map \<times> 'p store \<times> string list \<Rightarrow> string \<Rightarrow> 'p list" where
  "shownPositions = (\<lambda>(results, store, _) address. map (\<lambda>i. store ! i) (case js_get results address of None \<Rightarrow> [] | Some l \<Rightarrow> l))"

section \<open>Staking with one contract per pool\<close>

definition rewardsPredicates :: "(string \<times> predicate) list" where
  "rewardsPredicates =
    [(''balanceOf'', on_name (\<lambda>n. n \<in> {''balanceOf'', ''userInfo''})),
     (''earned'', on_name (\<lambda>n. n \<in> {''pendingReward'', ''earned''})),
     (''stakingToken'', on_name (\<lambda>n. startsWith n ''stak'' \<and> endsWith n ''token'')),
     (''rewardToken'', on_name (\<lambda>n. n \<in> {''rewardToken'', ''rewardsToken''})),
     (''rewardPerSecond'', on_name (\<lambda>n. n \<in> {''rewardRate'', ''rewardPerBlock''})),
     (''rewardBlockLast'', on_name (\<lambda>n. n = ''bonusEndBlock''))]"

definition callLabel :: "string \<Rightarrow> string \<Rightarrow> string" where
  "callLabel address genericName = address @ ''.'' @ genericName @ ''()''"

definition balanceOfLabel :: "string \<Rightarrow> string \<Rightarrow> string" where
  "balanceOfLabel address user = address @ ''.balanceOf('' @ user @ '')''"

definition earnedLabel :: "string \<Rightarrow> string \<Rightarrow> string \<Rightarrow> string" where
  "earnedLabel address reward user = address @ ''.'' @ reward @ ''.earned('' @ user @ '')''"

text \<open>The text of a result, and a result that must be a number or a text.\<close>

definition textOutput :: "output_data \<Rightarrow> string + string" where
  "textOutput d = (case d of Single (Scalar s) \<Rightarrow> Inr s | _ \<Rightarrow> Inl ''TypeError'')"

definition numberOutput :: "output_data \<Rightarrow> string + js_number" where
  "numberOutput d = (case d of Single (BigNum n) \<Rightarrow> Inr n | _ \<Rightarrow> Inl ''TypeError'')"

definition nameOf :: "named_functions \<Rightarrow> string \<Rightarrow> string + string" where
  "nameOf fs generic = (case js_get fs generic of None \<Rightarrow> Inl ''TypeError'' | Some abi \<Rightarrow> Inr (ai_name abi))"

definition outputNamed :: "named_functions \<Rightarrow> (string, call_data) js_map \<Rightarrow> string \<Rightarrow> string \<Rightarrow> string + output_data" where
  "outputNamed fs results address generic = sum_bind (nameOf fs generic) (\<lambda>name. outputOf results (callLabel address name))"

definition formatRewardsMinimal ::
  "int \<Rightarrow> named_functions \<Rightarrow> string \<Rightarrow> (string, call_data) js_map \<Rightarrow> rat \<Rightarrow> string + chef_minimal" where
  "formatRewardsMinimal chain fs address results blockNumber =
     (let avgBlockTime = (case averageBlockTimeByChain chain of Some t \<Rightarrow> t | None \<Rightarrow> 1) in
      sum_bind (sum_bind (outputNamed fs results address ''rewardPerSecond'') numberOutput) (\<lambda>rewardPerBlock.
      sum_bind (sum_bind (outputNamed fs results address ''rewardBlockLast'') numberOutput) (\<lambda>rewardBlockLast.
      (let ended = (case rewardBlockLast of Some b \<Rightarrow> b < blockNumber | None \<Rightarrow> False);
           rewardPerSecond = (if ended then Some 0 else dividedBy rewardPerBlock (Some (of_int avgBlockTime)))
       in sum_bind (sum_bind (outputNamed fs results address ''stakingToken'') textOutput) (\<lambda>staked.
          sum_bind (sum_bind (outputOf results (callLabel address ''totalStaked'')) (\<lambda>d. stakedAmount (Some d))) (\<lambda>totalSupplied.
          sum_bind (sum_bind (outputNamed fs results address ''rewardToken'') textOutput) (\<lambda>reward.
            Inr \<lparr> mo_id = address, mo_chain = chain, mo_staked = to_lower staked, mo_totalSupplied = totalSupplied,
              mo_rewardToken = to_lower reward, mo_rewardPerSecond = rewardPerSecond, mo_interactive = [] \<rparr>)))))))"

definition erc20BalanceOf :: "string \<Rightarrow> string \<Rightarrow> call_data" where
  "erc20BalanceOf token holder = \<lparr> ca_address = token, ca_abi = ERC20_balanceOf, ca_input = Some [ArgString holder], ca_inputPlain = None,
     ca_outputPlain = None, ca_output = None \<rparr>"

definition totalStakedCall :: "named_functions \<Rightarrow> (string, call_data) js_map \<Rightarrow> string \<Rightarrow> string + string \<times> call_data" where
  "totalStakedCall fs results address =
     sum_bind (sum_bind (outputNamed fs results address ''stakingToken'') textOutput) (\<lambda>stakedToken.
       Inr (callLabel address ''totalStaked'', erc20BalanceOf stakedToken address))"

text \<open>The node also tells the number of the current block.\<close>

definition fetchRewardsData ::
  "node_calls \<Rightarrow> int \<Rightarrow> named_functions \<Rightarrow> (string + string list) \<Rightarrow> (string + rat) \<Rightarrow> string + chef_minimal list" where
  "fetchRewardsData N chain fs poolList blockNumber =
     sum_bind poolList (\<lambda>poolAddresses.
     (let inputlessFunctions = filter (\<lambda>item. ai_inputs item = []) (map snd fs);
          calls = newMap (concat (map (\<lambda>address. map (\<lambda>item. (callLabel address (ai_name item), createCall address item [])) inputlessFunctions) poolAddresses))
      in sum_bind (handleInBatches (nc_web3 N) (nc_aggregate N) calls chain) (\<lambda>results.
         sum_bind (sum_map (totalStakedCall fs results) poolAddresses) (\<lambda>totalStakedCalls.
         sum_bind (handleInBatches (nc_web3 N) (nc_aggregate N) (newMap totalStakedCalls) chain) (\<lambda>totalStakedResults.
         sum_bind blockNumber (\<lambda>n.
           sum_map (\<lambda>address. formatRewardsMinimal chain fs address
             (foldl (\<lambda>m (k, c). js_put m k c) results totalStakedResults) n) poolAddresses))))))"

definition poolBalanceCalls :: "named_functions \<Rightarrow> string \<Rightarrow> stake_pool \<Rightarrow> string + (string \<times> call_data) list" where
  "poolBalanceCalls fs address pool =
     sum_bind (callNamed (sp_id pool) fs ''balanceOf'' [ArgString address]) (\<lambda>c1.
     sum_bind (headItem (sp_rewarded pool)) (\<lambda>reward.
     sum_bind (callNamed (sp_id pool) fs ''earned'' [ArgString address]) (\<lambda>c2.
       Inr [(balanceOfLabel (sp_id pool) address, c1), (earnedLabel (sp_id pool) (st_address (it_token reward)) address, c2)])))"

definition fetchUsersData :: "node_calls \<Rightarrow> int \<Rightarrow> named_functions \<Rightarrow> string list \<Rightarrow> stake_pool list \<Rightarrow> string + (string, call_data) js_map" where
  "fetchUsersData N chain fs addresses pools =
     sum_bind (sum_map (\<lambda>(address, pool). poolBalanceCalls fs address pool) (List.product addresses pools)) (\<lambda>calls.
       handleInBatches (nc_web3 N) (nc_aggregate N) (newMap (concat calls)) chain)"

text \<open>The result of \<open>balanceOf\<close> is a number or a structure with an amount; the operator \<open>in\<close> throws on a text.\<close>

definition balanceRaw :: "output_data \<Rightarrow> string + js_number" where
  "balanceRaw d = (case d of
     Fields m \<Rightarrow> (case js_get m (ByName ''amount'') of
         None \<Rightarrow> Inr None | Some Missing \<Rightarrow> Inl ''TypeError'' | Some v \<Rightarrow> Inr (numberText v))
   | Single (BigNum n) \<Rightarrow> Inr n
   | Single (SolArray vs) \<Rightarrow> Inr (numberText (SolArray vs))
   | Single _ \<Rightarrow> Inl ''TypeError'')"

definition showAmount :: "js_number \<Rightarrow> pool_item \<Rightarrow> pool_item" where
  "showAmount amount item = item\<lparr> it_amount := Some amount, it_value := Some (num_mul amount (st_price (it_token item))) \<rparr>"

definition earnedAmount :: "(string, call_data) js_map \<Rightarrow> string \<Rightarrow> string \<Rightarrow> pool_item \<Rightarrow> string + js_number" where
  "earnedAmount results poolId address reward =
     sum_bind (outputOf results (earnedLabel poolId (st_address (it_token reward)) address)) (\<lambda>d.
     sum_bind (pendingAmount d) (\<lambda>n. Inr (normalizeDecimals n (st_decimals (it_token reward)))))"

text \<open>The rewards are written one after the other; an error leaves those before it written.\<close>

fun showRewards :: "(pool_item \<Rightarrow> string + js_number) \<Rightarrow> pool_item list \<Rightarrow> string option \<times> pool_item list" where
  "showRewards earned [] = (None, [])"
| "showRewards earned (r # rs) = (case earned r of
     Inl e \<Rightarrow> (Some e, r # rs)
   | Inr amount \<Rightarrow> (let (err, rs') = showRewards earned rs in (err, showAmount amount r # rs')))"

definition heldBalance :: "(string, call_data) js_map \<Rightarrow> string \<Rightarrow> stake_pool \<Rightarrow> string + js_number" where
  "heldBalance results address pool =
     sum_bind (outputOf results (balanceOfLabel (sp_id pool) address)) (\<lambda>d.
     sum_bind (balanceRaw d) (\<lambda>n.
     sum_bind (headItem (sp_supplied pool)) (\<lambda>supplied. Inr (normalizeDecimals n (st_decimals (it_token supplied))))))"

text \<open>The pool object is changed in place and is itself the position.\<close>

definition writePosition ::
  "(string, call_data) js_map \<Rightarrow> string \<Rightarrow> js_number \<Rightarrow> stake_pool \<Rightarrow> string option \<times> stake_pool" where
  "writePosition results address balance pool =
     (let pool1 = pool\<lparr> sp_supplied := (case sp_supplied pool of [] \<Rightarrow> [] | s # ss \<Rightarrow> showAmount balance s # ss) \<rparr>;
          (err, rewarded) = showRewards (earnedAmount results (sp_id pool) address) (sp_rewarded pool1)
      in (err, pool1\<lparr> sp_rewarded := rewarded \<rparr>))"

definition formatRewardsUser :: "(string, call_data) js_map \<Rightarrow> stake_pool formatter" where
  "formatRewardsUser results address i store =
     (case heldBalance results address (store ! i) of
        Inl e \<Rightarrow> (Inl e, store)
      | Inr balance \<Rightarrow>
          if \<not> truthy_num balance then (Inr None, store)
          else (case writePosition results address balance (store ! i) of
              (Some e, pool) \<Rightarrow> (Inl e, store[i := pool])
            | (None, pool) \<Rightarrow> (Inr (Some i), store[i := pool])))"

definition rewardsUsersData ::
  "node_calls \<Rightarrow> int \<Rightarrow> named_functions \<Rightarrow> string list \<Rightarrow> stake_pool list \<times> string list
    \<Rightarrow> (string, nat list) js_map \<times> stake_pool store \<times> string list" where
  "rewardsUsersData N chain fs = getUsersPositions (fetchUsersData N chain fs) formatRewardsUser"

section \<open>Positions are shared between users\<close>

text \<open>Whether an address holds something in a pool, and the pool as it is written for the address.\<close>

definition holds :: "(string, call_data) js_map \<Rightarrow> string \<Rightarrow> stake_pool \<Rightarrow> bool" where
  "holds results address pool \<longleftrightarrow> (case heldBalance results address pool of Inr b \<Rightarrow> truthy_num b | Inl _ \<Rightarrow> False)"

definition written :: "(string, call_data) js_map \<Rightarrow> string \<Rightarrow> stake_pool \<Rightarrow> stake_pool" where
  "written results address pool = (case heldBalance results address pool of
     Inr b \<Rightarrow> snd (writePosition results address b pool) | Inl _ \<Rightarrow> pool)"

text \<open>Two objects for the same pool, whatever amounts are written into them.\<close>

definition samePool :: "stake_pool \<Rightarrow> stake_pool \<Rightarrow> bool" where
  "samePool p q \<longleftrightarrow> sp_id p = sp_id q \<and> map it_token (sp_supplied p) = map it_token (sp_supplied q)
     \<and> map it_token (sp_rewarded p) = map it_token (sp_rewarded q)"

lemma showAmount_token [simp]: "it_token (showAmount a i) = it_token i"
  by (simp add: showAmount_def)

lemma showAmount_twice [simp]: "showAmount a (showAmount b i) = showAmount a i"
  by (simp add: showAmount_def)

lemma showRewards_tokens: "map it_token (snd (showRewards f rs)) = map it_token rs"
  by (induction rs) (auto simp: case_prod_beta Let_def split: sum.split)

lemma showRewards_done: "fst (showRewards f rs) = None \<Longrightarrow> snd (showRewards f rs) = map (\<lambda>r. showAmount (case f r of Inr a \<Rightarrow> a | Inl _ \<Rightarrow> None) r) rs
    \<and> (\<forall>r\<in>set rs. \<exists>a. f r = Inr a)"
  by (induction rs) (auto simp: case_prod_beta Let_def split: sum.splits)

lemma writePosition_same: "samePool (snd (writePosition results a b p)) p"
  by (auto simp: samePool_def writePosition_def case_prod_beta Let_def showRewards_tokens split: list.split)

lemma heldBalance_same: "samePool p q \<Longrightarrow> heldBalance results a p = heldBalance results a q"
  by (cases "sp_supplied p"; cases "sp_supplied q") (auto simp: samePool_def heldBalance_def headItem_def)

lemma holds_written: "holds results a (written results b p) = holds results a p"
  using heldBalance_same[OF writePosition_same] by (auto simp: holds_def written_def split: sum.split)

lemma earnedAmount_showAmount: "earnedAmount results i a (showAmount x r) = earnedAmount results i a r"
  by (simp add: earnedAmount_def)

lemma showRewards_again_fst:
  "fst (showRewards f rs) = None \<Longrightarrow> (\<And>r x. g (showAmount x r) = g r) \<Longrightarrow>
    fst (showRewards g (snd (showRewards f rs))) = fst (showRewards g rs)"
  by (induction rs) (auto simp: case_prod_beta Let_def split: sum.splits)

lemma showRewards_again_snd:
  "fst (showRewards f rs) = None \<Longrightarrow> fst (showRewards g rs) = None \<Longrightarrow> (\<And>r x. g (showAmount x r) = g r) \<Longrightarrow>
    snd (showRewards g (snd (showRewards f rs))) = snd (showRewards g rs)"
  by (induction rs) (auto simp: case_prod_beta Let_def split: sum.splits)

text \<open>Writing the position of an address over that of another leaves nothing of the other.\<close>

definition writes :: "(string, call_data) js_map \<Rightarrow> string \<Rightarrow> stake_pool \<Rightarrow> bool" where
  "writes results address pool \<longleftrightarrow> (case heldBalance results address pool of
     Inr b \<Rightarrow> fst (writePosition results address b pool) = None | Inl _ \<Rightarrow> False)"

lemma writePosition_again:
  assumes "fst (writePosition results b y p) = None"
  shows "fst (writePosition results a x (snd (writePosition results b y p))) = fst (writePosition results a x p)"
    and "fst (writePosition results a x p) = None \<Longrightarrow>
      snd (writePosition results a x (snd (writePosition results b y p))) = snd (writePosition results a x p)"
proof -
  have rewards: "fst (showRewards (earnedAmount results (sp_id p) b) (sp_rewarded p)) = None"
    using assms by (simp add: writePosition_def case_prod_beta Let_def)
  show "fst (writePosition results a x (snd (writePosition results b y p))) = fst (writePosition results a x p)"
    using showRewards_again_fst[OF rewards, of "earnedAmount results (sp_id p) a"]
    by (simp add: writePosition_def case_prod_beta Let_def earnedAmount_showAmount)
  assume "fst (writePosition results a x p) = None"
  then have "fst (showRewards (earnedAmount results (sp_id p) a) (sp_rewarded p)) = None"
    by (simp add: writePosition_def case_prod_beta Let_def)
  then show "snd (writePosition results a x (snd (writePosition results b y p))) = snd (writePosition results a x p)"
    using showRewards_again_snd[OF rewards, of "earnedAmount results (sp_id p) a"]
    by (cases p) (auto simp: writePosition_def case_prod_beta Let_def earnedAmount_showAmount split: list.split)
qed

lemma writes_written: "writes results b p \<Longrightarrow> writes results a (written results b p) = writes results a p"
  using heldBalance_same[OF writePosition_same] writePosition_again(1)
  by (auto simp: writes_def written_def split: sum.splits)

lemma written_again: "writes results b p \<Longrightarrow> writes results a p \<Longrightarrow> written results a (written results b p) = written results a p"
  using heldBalance_same[OF writePosition_same] writePosition_again(2)
  by (auto simp: writes_def written_def split: sum.splits)

lemma formatRewardsUser_step:
  "fst (formatRewardsUser results a i store) = Inr None \<Longrightarrow> \<not> holds results a (store ! i) \<and> snd (formatRewardsUser results a i store) = store"
  "fst (formatRewardsUser results a i store) = Inr (Some j) \<Longrightarrow> j = i \<and> holds results a (store ! i) \<and> writes results a (store ! i)
     \<and> snd (formatRewardsUser results a i store) = store[i := written results a (store ! i)]"
  by (auto simp: formatRewardsUser_def holds_def writes_def written_def split: sum.splits if_splits prod.splits option.splits)

text \<open>The addresses of the steps that are still to do and hold something in a pool.\<close>

definition holdersIn :: "(string, call_data) js_map \<Rightarrow> (string \<times> nat) list \<Rightarrow> nat \<Rightarrow> stake_pool \<Rightarrow> string list" where
  "holdersIn results todo i pool = map fst (filter (\<lambda>(a, j). j = i \<and> holds results a pool) todo)"

definition lastWritten :: "(string, call_data) js_map \<Rightarrow> string list \<Rightarrow> stake_pool \<Rightarrow> stake_pool" where
  "lastWritten results holders pool = (if holders = [] then pool else written results (last holders) pool)"

abbreviation refsOf :: "(string, nat list) js_map \<Rightarrow> string \<Rightarrow> nat list" where
  "refsOf results a \<equiv> (case js_get results a of None \<Rightarrow> [] | Some l \<Rightarrow> l)"

lemma collected_positions:
  assumes "collectPositions (formatRewardsUser results) todo res store = (res', store', None)" "\<forall>(a, i)\<in>set todo. i < length store"
  shows "length store' = length store
    \<and> (\<forall>k<length store. store' ! k = lastWritten results (holdersIn results todo k (store ! k)) (store ! k)
      \<and> (\<forall>a\<in>set (holdersIn results todo k (store ! k)). writes results a (store ! k)))
    \<and> (\<forall>a. refsOf res' a = refsOf res a @ map snd (filter (\<lambda>(b, k). b = a \<and> holds results a (store ! k)) todo))"
  using assms
proof (induction todo arbitrary: res store)
  case Nil
  then show ?case by (simp add: holdersIn_def lastWritten_def)
next
  case (Cons x todo)
  obtain a i where x: "x = (a, i)" by (cases x)
  have i: "i < length store" "\<forall>(a, i)\<in>set todo. i < length store" using Cons.prems(2) by (auto simp: x)
  obtain r store1 where step: "formatRewardsUser results a i store = (r, store1)" by fastforce
  show ?case
  proof (cases r)
    case (Inl e)
    then show ?thesis using Cons.prems(1) by (simp add: x step)
  next
    case r: (Inr u)
    show ?thesis
    proof (cases u)
      case None
      then have no: "\<not> holds results a (store ! i)" "store1 = store"
        using formatRewardsUser_step(1)[of results a i store] by (simp_all add: step r)
      have same: "holdersIn results (x # todo) k (store ! k) = holdersIn results todo k (store ! k)" for k
        using no(1) by (auto simp: holdersIn_def x)
      have "collectPositions (formatRewardsUser results) todo res store = (res', store', None)"
        using Cons.prems(1) by (simp add: x step r None no(2))
      from Cons.IH[OF this i(2)] no(1) show ?thesis unfolding same by (auto simp: x)
    next
      case (Some j)
      let ?p = "store ! i" and ?w = "written results a (store ! i)"
      have yes: "j = i" "holds results a ?p" "writes results a ?p" "store1 = store[i := ?w]"
        using formatRewardsUser_step(2)[of results a i store j] by (simp_all add: step r Some)
      have run: "collectPositions (formatRewardsUser results) todo (js_put res a (refsOf res a @ [i])) store1 = (res', store', None)"
        using Cons.prems(1) by (simp add: x step r Some yes(1))
      have held: "holds results b (store1 ! k) = holds results b (store ! k)" for b k
        using i(1) by (cases "k = i") (simp_all add: yes(4) holds_written)
      have other: "holdersIn results todo k (store1 ! k) = holdersIn results todo k (store ! k)" for k
        by (simp add: holdersIn_def held)
      have IH: "length store' = length store1"
          "\<And>k. k < length store1 \<Longrightarrow> store' ! k = lastWritten results (holdersIn results todo k (store ! k)) (store1 ! k)
            \<and> (\<forall>b\<in>set (holdersIn results todo k (store ! k)). writes results b (store1 ! k))"
          "\<And>b. refsOf res' b = refsOf (js_put res a (refsOf res a @ [i])) b
            @ map snd (filter (\<lambda>(c, k). c = b \<and> holds results b (store ! k)) todo)"
        using Cons.IH[OF run] i(2) by (simp_all add: yes(4) other[unfolded yes(4)] held[unfolded yes(4)])
      have final: "store' ! k = lastWritten results (holdersIn results (x # todo) k (store ! k)) (store ! k)
          \<and> (\<forall>b\<in>set (holdersIn results (x # todo) k (store ! k)). writes results b (store ! k))" if "k < length store" for k
      proof (cases "k = i")
        case False
        then have "holdersIn results (x # todo) k (store ! k) = holdersIn results todo k (store ! k)" by (simp add: holdersIn_def x)
        then show ?thesis using IH(2)[of k] that False by (simp add: yes(4))
      next
        case True
        let ?hs = "holdersIn results todo i ?p"
        have hs: "holdersIn results (x # todo) i ?p = a # ?hs" using yes(2) by (simp add: holdersIn_def x)
        have w: "store' ! i = lastWritten results ?hs ?w" "\<forall>b\<in>set ?hs. writes results b ?w"
          using IH(2)[of i] i(1) by (simp_all add: yes(4))
        then have all: "\<forall>b\<in>set ?hs. writes results b ?p" using writes_written[OF yes(3)] by simp
        have "lastWritten results ?hs ?w = lastWritten results (a # ?hs) ?p"
          using written_again[OF yes(3)] all by (simp add: lastWritten_def)
        then show ?thesis using w(1) all yes(3) by (simp add: True hs)
      qed
      show ?thesis using IH(1,3) final yes(2) by (auto simp: x yes(4))
    qed
  qed
qed

lemma product_holders: "i < n \<Longrightarrow> map fst (filter (\<lambda>(a, j). j = i \<and> P a) (List.product as [0..<n])) = filter P as"
proof (induction as)
  case (Cons a as)
  have "filter (\<lambda>j. j = i) [0..<n] = [i]" using Cons.prems by (induction n) auto
  then have "map fst (filter (\<lambda>(b, j). j = i \<and> P b) (map (Pair a) [0..<n])) = (if P a then [a] else [])"
    by (auto simp: filter_map o_def)
  then show ?case using Cons by simp
qed simp

lemma product_refs: "distinct as \<Longrightarrow> a \<in> set as \<Longrightarrow>
    map snd (filter (\<lambda>(b, j). b = a \<and> P j) (List.product as [0..<n])) = filter P [0..<n]"
proof (induction as)
  case (Cons b as)
  have one: "map snd (filter (\<lambda>(c, j). c = a \<and> P j) (map (Pair b) [0..<n])) = (if b = a then filter P [0..<n] else [])"
    by (auto simp: filter_map o_def)
  show ?case
  proof (cases "b = a")
    case True
    then have "filter (\<lambda>(c, j). c = a \<and> P j) (List.product as [0..<n]) = []"
      using Cons.prems by (auto simp: filter_empty_conv)
    then show ?thesis using one True by simp
  next
    case False
    then show ?thesis using Cons one by simp
  qed
qed simp

text \<open>C6: When the positions of several addresses are asked for at once, an address sees exactly the pools in which it holds
  something, but every one of them with the position of the last address that holds something in it: the amounts of the others are
  overwritten.  What an address sees is its own position when it is the only holder or the last one.\<close>

theorem shared_positions:
  assumes "rewardsUsersData N chain fs addresses (pools, errors) = (res, store, errors)" "distinct addresses" "a \<in> set addresses"
  shows "\<exists>results. fetchUsersData N chain fs addresses pools = Inr results
    \<and> shownPositions (res, store, errors) a
      = map (\<lambda>p. written results (last (filter (\<lambda>b. holds results b p) addresses)) p) (filter (holds results a) pools)"
proof -
  let ?res0 = "newMap (map (\<lambda>address. (address, [] :: nat list)) addresses)" and ?todo = "List.product addresses [0..<length pools]"
  obtain results where data: "fetchUsersData N chain fs addresses pools = Inr results"
    using assms(1) by (auto simp: rewardsUsersData_def getUsersPositions_def Let_def split: sum.splits)
  then have run: "collectPositions (formatRewardsUser results) ?todo ?res0 pools = (res, store, None)"
    using assms(1) by (auto simp: rewardsUsersData_def getUsersPositions_def Let_def split: prod.splits option.splits)
  have "\<forall>(b, i)\<in>set ?todo. i < length pools" by auto
  note fin = collected_positions[OF run this]
  have "refsOf ?res0 b = []" for b
  proof (cases "js_get ?res0 b")
    case (Some l)
    from map_of_SomeD[OF this[unfolded newMap_get]] have "l = []" by auto
    with Some show ?thesis by simp
  qed simp
  then have refs: "refsOf res a = filter (\<lambda>i. holds results a (pools ! i)) [0..<length pools]"
    using fin product_refs[OF assms(2,3)] by simp
  have shown: "store ! i = written results (last (filter (\<lambda>b. holds results b (pools ! i)) addresses)) (pools ! i)"
    if "i < length pools" "holds results a (pools ! i)" for i
  proof -
    have "holdersIn results ?todo i (pools ! i) = filter (\<lambda>b. holds results b (pools ! i)) addresses"
      unfolding holdersIn_def using product_holders[OF that(1)] .
    moreover have "filter (\<lambda>b. holds results b (pools ! i)) addresses \<noteq> []" using that(2) assms(3) by (auto simp: filter_empty_conv)
    ultimately show ?thesis using fin that(1) by (simp add: lastWritten_def)
  qed
  have "shownPositions (res, store, errors) a = map (\<lambda>i. store ! i) (filter (\<lambda>i. holds results a (pools ! i)) [0..<length pools])"
    by (simp add: shownPositions_def refs)
  also have "\<dots> = map (\<lambda>i. written results (last (filter (\<lambda>b. holds results b (pools ! i)) addresses)) (pools ! i))
      (filter (\<lambda>i. holds results a (pools ! i)) [0..<length pools])"
    by (rule map_cong[OF refl]) (auto intro: shown)
  also have "\<dots> = map (\<lambda>p. written results (last (filter (\<lambda>b. holds results b p) addresses)) p)
      (filter (holds results a) (map ((!) pools) [0..<length pools]))"
    by (simp add: filter_map o_def)
  finally show ?thesis using data by (simp add: map_nth)
qed

section \<open>Two holders of one pool\<close>

definition aPool :: stake_pool where
  "aPool = \<lparr> sp_id = ''0xpool'', sp_supplied = [demoItem (demoToken 2 (Some 3) None)], sp_rewarded = [demoItem (demoToken 0 (Some 5) None)] \<rparr>"

text \<open>The first user holds 2 tokens and the second one 9.\<close>

definition twoHolders :: node_calls where
  "twoHolders = \<lparr> nc_web3 = \<lparr> w3_encodeFunctionCall = (\<lambda>abi args. Inr (ai_name abi @ json_args (Some args))),
       w3_decodeParameters = (\<lambda>outs plain. Inr [(ByIndex 0, Scalar plain)]),
       w3_bigNumber = (\<lambda>v. if v = Scalar ''one'' then Some 200 else if v = Scalar ''two'' then Some 900 else Some 7) \<rparr>,
     nc_aggregate = (\<lambda>xs. Inr (map (\<lambda>(address, plain).
       if take 9 plain = ''balanceOf'' then (if str_includes plain ''0x1'' then ''one'' else ''two'') else ''earned'') xs)) \<rparr>"

definition rewardsFunctions :: named_functions where
  "rewardsFunctions = [(''balanceOf'', demoEntry ''balanceOf'' [\<lparr> ao_name = [], ao_type = ''uint256'' \<rparr>]),
     (''earned'', demoEntry ''earned'' [\<lparr> ao_name = [], ao_type = ''uint256'' \<rparr>])]"

definition positionWith :: "rat \<Rightarrow> stake_pool" where
  "positionWith b = aPool\<lparr> sp_supplied := [showAmount (Some b) (demoItem (demoToken 2 (Some 3) None))],
     sp_rewarded := [showAmount (Some 7) (demoItem (demoToken 0 (Some 5) None))] \<rparr>"

lemma two_holders_data: "rewardsUsersData twoHolders 1 rewardsFunctions [''0x1'', ''0x2''] ([aPool], [])
    = ([(''0x1'', [0]), (''0x2'', [0])], [positionWith 9], [])"
  by code_simp

text \<open>Asked for alone, the first user sees the own position; together with the second one, that of the other.\<close>

lemma alone_or_together:
  "shownPositions (rewardsUsersData twoHolders 1 rewardsFunctions [''0x1''] ([aPool], [])) ''0x1'' = [positionWith 2]"
  "shownPositions (rewardsUsersData twoHolders 1 rewardsFunctions [''0x1'', ''0x2''] ([aPool], [])) ''0x1'' = [positionWith 9]"
  by code_simp+

theorem shared_positions_witness:
  "\<exists>results. fetchUsersData twoHolders 1 rewardsFunctions [''0x1'', ''0x2''] [aPool] = Inr results
    \<and> [positionWith 9] = map (\<lambda>p. written results (last (filter (\<lambda>b. holds results b p) [''0x1'', ''0x2''])) p)
        (filter (holds results ''0x1'') [aPool])"
  using shared_positions[OF two_holders_data, of "''0x1''"] by (simp add: shownPositions_def)

end
