(* ===== verification/Liquidity.thy ===== *)
theory Liquidity
  imports ProtocolCache
begin

text \<open>
  \<open>framework/support/EVM/protocols/Liquidity/UniswapV2Liquidity.ts\<close>: liquidity pools with two tokens.  The pools and the balances of
  users come from a subgraph, the tokens from the asset service.  A user owns the share of the tokens of a pool that the balance has in the
  supply of the token of the pool.  The answers of the subgraph are parameters; a share is exact.
\<close>

section \<open>Pools\<close>

record amm_pair =
  pair_address :: string
  pair_token0 :: string
  pair_token1 :: string

record lp_minimal =
  lm_id :: string
  lm_chain :: int
  lm_supplied :: "string list"

definition toFeatureEntryMinimal :: "int \<Rightarrow> amm_pair \<Rightarrow> lp_minimal" where
  "toFeatureEntryMinimal chain pool = \<lparr> lm_id = pair_address pool, lm_chain = chain, lm_supplied = [pair_token0 pool, pair_token1 pool] \<rparr>"

definition getCacheablePairs :: "int \<Rightarrow> (string + amm_pair list) \<Rightarrow> string + lp_minimal list" where
  "getCacheablePairs chain answer = sum_bind answer (\<lambda>pairs. Inr (map (toFeatureEntryMinimal chain) pairs))"

text \<open>A token of the asset service; an underlying token may be absent.\<close>

record amm_underlying =
  au_address :: string
  au_price :: js_number
  au_reserve :: js_number

record amm_token =
  am_address :: string
  am_price :: js_number
  am_totalSupply :: js_number
  am_underlying :: "amm_underlying option list option"

record lp_receipt =
  lr_address :: string
  lr_price :: js_number
  lr_totalSupply :: js_number
  lr_amount :: "js_number option"
  lr_value :: "js_number option"

record lp_supplied =
  ls_address :: string
  ls_price :: js_number
  ls_totalSupplied :: js_number
  ls_tvl :: "js_number option"
  ls_amount :: "js_number option"
  ls_value :: "js_number option"

record lp_pool =
  lp_id :: string
  lp_chain :: int
  lp_token :: lp_receipt
  lp_supplied :: "lp_supplied option list"

datatype lp_error = MissingTokenException | MissingUnderlyingException | ThrownError string

definition formatOpportunitySuppliedSingleToken :: "amm_underlying option \<Rightarrow> lp_supplied option" where
  "formatOpportunitySuppliedSingleToken token = (case token of None \<Rightarrow> None
     | Some t \<Rightarrow> Some \<lparr> ls_address = au_address t, ls_price = au_price t, ls_totalSupplied = au_reserve t,
         ls_tvl = Some (num_mul (au_reserve t) (au_price t)), ls_amount = None, ls_value = None \<rparr>)"

definition formatLpOpportunity :: "lp_minimal \<Rightarrow> (string, amm_token) js_map \<Rightarrow> lp_error + lp_pool" where
  "formatLpOpportunity opportunity tokens =
     (case js_get tokens (lm_id opportunity) of
        None \<Rightarrow> Inl MissingTokenException
      | Some receipt \<Rightarrow> (case am_underlying receipt of
          None \<Rightarrow> Inl MissingUnderlyingException
        | Some supplied \<Rightarrow>
            if length supplied < 2 then Inl MissingUnderlyingException
            else Inr \<lparr> lp_id = lm_id opportunity, lp_chain = lm_chain opportunity,
              lp_token = \<lparr> lr_address = am_address receipt, lr_price = am_price receipt, lr_totalSupply = am_totalSupply receipt,
                lr_amount = None, lr_value = None \<rparr>,
              lp_supplied = map formatOpportunitySuppliedSingleToken supplied \<rparr>))"

section \<open>Positions\<close>

record lp_balance =
  lb_pair :: string
  lb_user :: string
  lb_balance :: js_number

text \<open>The identifier of a balance is the pair and the user with a dash between; an absent user is \<open>undefined\<close>.\<close>

definition parseBalance :: "string \<times> string \<Rightarrow> lp_balance" where
  "parseBalance = (\<lambda>(ident, balance). case split_on (CHR ''-'') ident of
     pair # user # _ \<Rightarrow> \<lparr> lb_pair = pair, lb_user = user, lb_balance = text_number balance \<rparr>
   | [pair] \<Rightarrow> \<lparr> lb_pair = pair, lb_user = ''undefined'', lb_balance = text_number balance \<rparr>
   | [] \<Rightarrow> \<lparr> lb_pair = [], lb_user = ''undefined'', lb_balance = text_number balance \<rparr>)"

definition getSubgraphAccountBalances :: "(string + (string \<times> string) list) \<Rightarrow> string + lp_balance list" where
  "getSubgraphAccountBalances answer = sum_bind answer (\<lambda>balances. Inr (map parseBalance balances))"

definition shareOf :: "js_number \<Rightarrow> lp_supplied \<Rightarrow> lp_supplied" where
  "shareOf poolShare s = s\<lparr> ls_amount := Some (num_mul poolShare (ls_totalSupplied s)),
     ls_value := Some (num_mul (num_mul (ls_price s) poolShare) (ls_totalSupplied s)) \<rparr>"

text \<open>An absent supplied token throws.\<close>

definition calculateBalances :: "lp_pool \<Rightarrow> js_number \<Rightarrow> lp_error + lp_pool" where
  "calculateBalances pool balance =
     (let poolShare = num_div balance (lr_totalSupply (lp_token pool));
          token = (lp_token pool)\<lparr> lr_amount := Some balance, lr_value := Some (num_mul balance (lr_price (lp_token pool))) \<rparr>
      in sum_bind (sum_map (\<lambda>s. case s of None \<Rightarrow> Inl (ThrownError ''TypeError'') | Some t \<Rightarrow> Inr (shareOf poolShare t)) (lp_supplied pool))
           (\<lambda>supplied. Inr (pool\<lparr> lp_token := token, lp_supplied := map Some supplied \<rparr>)))"

text \<open>The loop over the balances ends with an error; what was found before it is kept.\<close>

fun collectBalances :: "(string, lp_pool) js_map \<Rightarrow> lp_balance list \<Rightarrow> (string, lp_pool list) js_map
    \<Rightarrow> (string, lp_pool list) js_map \<times> lp_error option" where
  "collectBalances poolsMap [] wallets = (wallets, None)"
| "collectBalances poolsMap (b # bs) wallets = (case js_get poolsMap (lb_pair b) of
     None \<Rightarrow> collectBalances poolsMap bs wallets
   | Some pool \<Rightarrow> (case calculateBalances pool (lb_balance b) of
       Inl e \<Rightarrow> (wallets, Some e)
     | Inr data \<Rightarrow> collectBalances poolsMap bs
         (js_put wallets (lb_user b) ((case js_get wallets (lb_user b) of None \<Rightarrow> [] | Some l \<Rightarrow> l) @ [data]))))"

definition lpUsersData :: "(string + (string \<times> string) list) \<Rightarrow> lp_pool list \<times> lp_error list \<Rightarrow> (string, lp_pool list) js_map \<times> lp_error list" where
  "lpUsersData answer = (\<lambda>(pools, errors).
     (case getSubgraphAccountBalances answer of
        Inl e \<Rightarrow> ([], errors @ [ThrownError e])
      | Inr balances \<Rightarrow> (case collectBalances (newMap (map (\<lambda>p. (lp_id p, p)) pools)) balances [] of
          (wallets, None) \<Rightarrow> (wallets, errors)
        | (wallets, Some e) \<Rightarrow> (wallets, errors @ [e]))))"

section \<open>The shares of a pool\<close>

definition amountNumber :: "js_number option \<Rightarrow> rat" where
  "amountNumber a = (case a of Some n \<Rightarrow> valueOf n | None \<Rightarrow> 0)"

lemma calculateBalances_supplied:
  "calculateBalances pool balance = Inr u \<Longrightarrow> lp_supplied pool = map Some ss \<Longrightarrow>
    lp_supplied u = map (\<lambda>s. Some (shareOf (num_div balance (lr_totalSupply (lp_token pool))) s)) ss"
proof -
  assume run: "calculateBalances pool balance = Inr u" and ss: "lp_supplied pool = map Some ss"
  have "sum_map (\<lambda>s. case s of None \<Rightarrow> Inl (ThrownError ''TypeError'') | Some t \<Rightarrow> Inr (shareOf x t)) (map Some ss) = Inr (map (shareOf x) ss)" for x
    by (induction ss) simp_all
  then show ?thesis using run by (auto simp: calculateBalances_def Let_def ss)
qed

lemma sum_shares: "(\<Sum>b\<leftarrow>bs. b / s * t) = (\<Sum>b\<leftarrow>bs. b) / s * (t :: rat)"
  by (induction bs) (simp_all add: add_divide_distrib algebra_simps)

text \<open>C33: No liquidity is lost or made up: when the balances of the holders of a pool add up to the supply of its token, the
  amounts that the holders are shown of each token of the pool add up to what the pool holds of it.\<close>

theorem liquidity_shared:
  assumes "lp_supplied pool = map Some ss" "lr_totalSupply (lp_token pool) = Some supply" "supply \<noteq> 0" "(\<Sum>b\<leftarrow>balances. b) = supply"
    and "list_all2 (\<lambda>b u. calculateBalances pool (Some b) = Inr u) balances users" "k < length ss" "ls_totalSupplied (ss ! k) = Some held"
  shows "(\<Sum>u\<leftarrow>users. case lp_supplied u ! k of Some s \<Rightarrow> amountNumber (ls_amount s) | None \<Rightarrow> 0) = held"
proof -
  have "map (\<lambda>u. case lp_supplied u ! k of Some s \<Rightarrow> amountNumber (ls_amount s) | None \<Rightarrow> 0) users = map (\<lambda>b. b / supply * held) balances"
    using assms(5)
  proof (induction rule: list_all2_induct)
    case (Cons b bs u us)
    then have "lp_supplied u ! k = Some (shareOf (Some (b / supply)) (ss ! k))"
      using calculateBalances_supplied[OF Cons(1) assms(1)] assms(2,3,6) by simp
    then show ?case using Cons assms(7) by (simp add: shareOf_def amountNumber_def valueOf_def)
  qed simp
  then have "(\<Sum>u\<leftarrow>users. case lp_supplied u ! k of Some s \<Rightarrow> amountNumber (ls_amount s) | None \<Rightarrow> 0) = (\<Sum>b\<leftarrow>balances. b) / supply * held"
    by (simp only: sum_shares)
  then show ?thesis using assms(3,4) by simp
qed

text \<open>The positions of a user are those of the user's balances in known pools, in the order of the balances.\<close>

definition positionsFrom :: "(string, lp_pool) js_map \<Rightarrow> string \<Rightarrow> lp_balance list \<Rightarrow> lp_pool list" where
  "positionsFrom poolsMap user bs = concat (map (\<lambda>b.
     if lb_user b \<noteq> user then []
     else (case js_get poolsMap (lb_pair b) of None \<Rightarrow> []
       | Some pool \<Rightarrow> (case calculateBalances pool (lb_balance b) of Inl _ \<Rightarrow> [] | Inr data \<Rightarrow> [data]))) bs)"

lemma collectBalances_positions:
  "collectBalances poolsMap bs wallets = (wallets', None) \<Longrightarrow>
    (case js_get wallets' user of None \<Rightarrow> [] | Some l \<Rightarrow> l)
      = (case js_get wallets user of None \<Rightarrow> [] | Some l \<Rightarrow> l) @ positionsFrom poolsMap user bs"
proof (induction bs arbitrary: wallets)
  case (Cons b bs)
  show ?case
  proof (cases "js_get poolsMap (lb_pair b)")
    case None
    then show ?thesis using Cons by (simp add: positionsFrom_def)
  next
    case (Some pool)
    then obtain data where data: "calculateBalances pool (lb_balance b) = Inr data"
      using Cons.prems by (cases "calculateBalances pool (lb_balance b)") simp_all
    then show ?thesis using Cons.IH Cons.prems Some by (simp add: positionsFrom_def)
  qed
qed (simp add: positionsFrom_def)

lemma lp_positions:
  assumes "lpUsersData answer (pools, errors) = (wallets, errors)"
  shows "\<exists>bs. answer = Inr bs \<and> (\<forall>user. (case js_get wallets user of None \<Rightarrow> [] | Some l \<Rightarrow> l)
    = positionsFrom (newMap (map (\<lambda>p. (lp_id p, p)) pools)) user (map parseBalance bs))"
proof (cases answer)
  case (Inr bs)
  then have "collectBalances (newMap (map (\<lambda>p. (lp_id p, p)) pools)) (map parseBalance bs) [] = (wallets, None)"
    using assms by (auto simp: lpUsersData_def getSubgraphAccountBalances_def split: prod.splits option.splits)
  from collectBalances_positions[OF this] show ?thesis using Inr by simp
qed (use assms in \<open>simp add: lpUsersData_def getSubgraphAccountBalances_def\<close>)

section \<open>A pool with two holders\<close>

definition pairToken :: "string \<Rightarrow> rat \<Rightarrow> lp_supplied" where
  "pairToken a held = \<lparr> ls_address = a, ls_price = Some 1, ls_totalSupplied = Some held, ls_tvl = None, ls_amount = None, ls_value = None \<rparr>"

definition pairPool :: lp_pool where
  "pairPool = \<lparr> lp_id = ''0xpair'', lp_chain = 1,
     lp_token = \<lparr> lr_address = ''0xpair'', lr_price = Some 2, lr_totalSupply = Some 10, lr_amount = None, lr_value = None \<rparr>,
     lp_supplied = map Some [pairToken ''0xa'' 50, pairToken ''0xb'' 20] \<rparr>"

definition pairShare :: "rat \<Rightarrow> lp_pool" where
  "pairShare b = (case calculateBalances pairPool (Some b) of Inr u \<Rightarrow> u | Inl _ \<Rightarrow> pairPool)"

theorem liquidity_shared_witness:
  "(\<Sum>u\<leftarrow>[pairShare 4, pairShare 6]. case lp_supplied u ! 0 of Some s \<Rightarrow> amountNumber (ls_amount s) | None \<Rightarrow> 0) = 50"
proof -
  have "lp_supplied pairPool = map Some [pairToken ''0xa'' 50, pairToken ''0xb'' 20]" "lr_totalSupply (lp_token pairPool) = Some 10"
    by (simp_all add: pairPool_def)
  moreover have "list_all2 (\<lambda>b u. calculateBalances pairPool (Some b) = Inr u) [4, 6] [pairShare 4, pairShare 6]"
    by (simp add: pairShare_def calculateBalances_def pairPool_def Let_def)
  ultimately show ?thesis
    using liquidity_shared[of pairPool "[pairToken ''0xa'' 50, pairToken ''0xb'' 20]" 10 "[4, 6]" "[pairShare 4, pairShare 6]" 0 50]
    by (simp add: pairToken_def)
qed

end
