(* ===== verification/Lending.thy ===== *)
theory Lending
  imports MasterChef
begin

text \<open>
  \<open>framework/support/EVM/protocols/Lending/BenqiLending.ts\<close>: a lending protocol with one market per token.  The markets and the
  state of a user come from one batch of calls; the code derives the supplied and borrowed tokens of the user, the rewards from the
  indices of the contract, the yields and the ratio of collateral to debt.  The pools are shared by all users of a request, and the code
  changes them: they are state here, and rewards are named by their position in the first pool.
\<close>

section \<open>Numbers\<close>

text \<open>\<open>bignumber.js\<close>: a power of ten with a negative exponent is rounded as a quotient is; a shift is exact.\<close>

definition tenTo :: "int \<Rightarrow> rat" where
  "tenTo d = (if 0 \<le> d then 10 ^ nat d else roundPlaces (1 / 10 ^ nat (- d)))"

definition toDecimals :: "js_number \<Rightarrow> int option \<Rightarrow> js_number" where
  "toDecimals amount decimals = (case decimals of None \<Rightarrow> None | Some d \<Rightarrow> num_mul amount (Some (tenTo (- d))))"

definition normalizeBy :: "js_number \<Rightarrow> int option \<Rightarrow> js_number" where
  "normalizeBy number decimals = (case decimals of None \<Rightarrow> None | Some d \<Rightarrow> dividedBy number (Some (tenTo d)))"

definition shiftedBy :: "js_number \<Rightarrow> int \<Rightarrow> js_number" where
  "shiftedBy n k = num_mul n (Some (if 0 \<le> k then 10 ^ nat k else 1 / 10 ^ nat (- k)))"

text \<open>Where infinite values matter.\<close>

datatype big = Fin rat | Inf bool | NotNum

definition bigDiv :: "js_number \<Rightarrow> js_number \<Rightarrow> big" where
  "bigDiv a b = (case (a, b) of
     (Some x, Some y) \<Rightarrow> if y \<noteq> 0 then Fin (roundPlaces (x / y)) else if x = 0 then NotNum else Inf (0 < x)
   | _ \<Rightarrow> NotNum)"

fun bigPlus :: "big \<Rightarrow> big \<Rightarrow> big" where
  "bigPlus (Fin x) (Fin y) = Fin (x + y)"
| "bigPlus (Inf s) (Fin y) = Inf s"
| "bigPlus (Fin x) (Inf s) = Inf s"
| "bigPlus (Inf s) (Inf t) = (if s = t then Inf s else NotNum)"
| "bigPlus _ _ = NotNum"

text \<open>The yield of a year in per cent from the rate of a day, compounded.\<close>

fun yearly :: "big \<Rightarrow> big" where
  "yearly (Fin r) = Fin (((r + 1) ^ 365 - 1) * 100)"
| "yearly b = b"

text \<open>\<open>toFixed(2)\<close>, capped at ten thousand.\<close>

fun cappedRate :: "big \<Rightarrow> js_number" where
  "cappedRate (Fin r) = Some (if 10000 \<le> r then 10000
     else (let n = of_int \<lfloor>\<bar>r\<bar> * 100 + 1 / 2\<rfloor> / 100 in if r < 0 then - n else n))"
| "cappedRate (Inf s) = (if s then Some 10000 else None)"
| "cappedRate NotNum = None"

section \<open>Markets\<close>

record bq_meta =
  bq_address :: string
  bq_chain :: int
  bq_avax :: string
  bq_qi :: string

record bq_underlying =
  bu_symbol :: string
  bu_decimals :: int
  bu_price :: js_number

record bq_token =
  bt_address :: string
  bt_decimals :: int
  bt_underlying :: "bq_underlying list"

record bq_market =
  bm_id :: string
  bm_totalSupplied :: js_number
  bm_supplyRate :: js_number
  bm_exchangeRate :: js_number
  bm_totalBorrowed :: js_number
  bm_borrowRate :: "js_number option"
  bm_rewards :: "string list"

definition bareContract :: string where
  "bareContract = ''0x5c0401e81bc07ca70fad469b451682c0d747ef1c''"

definition marketCalls :: "named_functions \<Rightarrow> string \<Rightarrow> string + (string \<times> call_data) list" where
  "marketCalls fs market =
     sum_map (\<lambda>(suffix, name). sum_bind (callNamed market fs name []) (\<lambda>c. Inr (market @ suffix, c)))
       ([(''.totalSupply'', ''totalSupply''), (''.totalBorrows'', ''totalBorrows''), (''.supplyRate'', ''supplyRatePerTimestamp''),
         (''.borrowRate'', ''borrowRatePerTimestamp''), (''.exchangeRate'', ''exchangeRateStored'')]
        @ (if to_lower market = bareContract then [] else [(''.underlying'', ''underlying'')]))"

definition resultText :: "(string, call_data) js_map \<Rightarrow> string \<Rightarrow> string + js_number" where
  "resultText results label = sum_bind (outputOf results label) pendingAmount"

definition optionalText :: "(string, call_data) js_map \<Rightarrow> string \<Rightarrow> string + js_number option" where
  "optionalText results label = sum_bind (outputOf results label) (\<lambda>d. case d of
     Single Missing \<Rightarrow> Inr None | Single v \<Rightarrow> Inr (Some (numberText v)) | Fields _ \<Rightarrow> Inr (Some None))"

definition formatMarket :: "bq_meta \<Rightarrow> (string, call_data) js_map \<Rightarrow> string \<Rightarrow> string + bq_market" where
  "formatMarket M results market =
     sum_bind (resultText results (market @ ''.totalSupply'')) (\<lambda>supply.
     sum_bind (resultText results (market @ ''.supplyRate'')) (\<lambda>supplyRate.
     sum_bind (resultText results (market @ ''.exchangeRate'')) (\<lambda>exchangeRate.
     sum_bind (resultText results (market @ ''.totalBorrows'')) (\<lambda>borrows.
     sum_bind (optionalText results (market @ ''.borrowRate'')) (\<lambda>borrowRate.
       Inr \<lparr> bm_id = to_lower market, bm_totalSupplied = supply, bm_supplyRate = supplyRate, bm_exchangeRate = exchangeRate,
         bm_totalBorrowed = borrows, bm_borrowRate = borrowRate, bm_rewards = map to_lower [bq_avax M, bq_qi M] \<rparr>)))))"

definition fetchMarkets :: "node_calls \<Rightarrow> bq_meta \<Rightarrow> named_functions \<Rightarrow> string list \<Rightarrow> string + bq_market list" where
  "fetchMarkets N M marketFunctions allMarkets =
     sum_bind (sum_map (marketCalls marketFunctions) allMarkets) (\<lambda>calls.
     sum_bind (handleInBatches (nc_web3 N) (nc_aggregate N) (newMap (concat calls)) (bq_chain M)) (\<lambda>results.
       sum_map (formatMarket M results) allMarkets))"

text \<open>The names of the functions of the contract and of a market.\<close>

definition byName :: "string \<times> string \<Rightarrow> string \<times> predicate" where
  "byName = (\<lambda>(generic, name). (generic, on_name (\<lambda>n. n = name)))"

definition lendingPredicates :: "(string \<times> predicate) list" where
  "lendingPredicates = map byName
    [(''rewardAccrued'', ''rewardAccrued''), (''allMarkets'', ''getAllMarkets''), (''rewardBorrowState'', ''rewardBorrowState''),
     (''rewardSupplyState'', ''rewardSupplyState''), (''rewardBorrowerIndex'', ''rewardBorrowerIndex''),
     (''rewardSupplierIndex'', ''rewardSupplierIndex''), (''initialIndexConstant'', ''initialIndexConstant''), (''markets'', ''markets''),
     (''checkMembership'', ''checkMembership''), (''supplyRewardSpeeds'', ''supplyRewardSpeeds''), (''borrowRewardSpeeds'', ''borrowRewardSpeeds'')]"

definition marketPredicates :: "(string \<times> predicate) list" where
  "marketPredicates = map byName
    [(''exchangeRateStored'', ''exchangeRateStored''), (''accountSnapshot'', ''getAccountSnapshot''), (''balance'', ''balanceOf''),
     (''totalSupply'', ''totalSupply''), (''totalBorrows'', ''totalBorrows''), (''supplyRatePerTimestamp'', ''supplyRatePerTimestamp''),
     (''borrowRatePerTimestamp'', ''borrowRatePerTimestamp''), (''underlying'', ''underlying''), (''borrowIndex'', ''borrowIndex'')]"

definition initializeLending ::
  "abi_world \<Rightarrow> ('s, abi_entry list, int) cache_manager \<Rightarrow> bq_meta \<Rightarrow> string \<Rightarrow> 's \<Rightarrow> ((string + named_functions \<times> named_functions) \<times> 's) option" where
  "initializeLending W C M market s =
     Option.bind (parseFunctionsFromAddress W C (bq_address M) (bq_chain M) lendingPredicates viewFunctions s) (\<lambda>(r, s1).
       case r of
         Inl e \<Rightarrow> Some (Inl e, s1)
       | Inr fs \<Rightarrow> map_option (\<lambda>(r2, s2). (sum_bind r2 (\<lambda>mfs. Inr (fs, mfs)), s2))
           (parseFunctionsFromAddress W C market (bq_chain M) marketPredicates viewFunctions s1))"

text \<open>The list of markets is a result of the contract: an array of texts.\<close>

definition marketsOf :: "(string, output_data) js_map \<Rightarrow> string + string list" where
  "marketsOf context = (case js_get context ''allMarkets'' of
     Some (Single (SolArray vs)) \<Rightarrow> sum_map (\<lambda>v. case v of Scalar s \<Rightarrow> Inr s | _ \<Rightarrow> Inl ''TypeError'') vs
   | _ \<Rightarrow> Inl ''TypeError'')"

definition lendingOpportunities :: "node_calls \<Rightarrow> bq_meta \<Rightarrow> named_functions \<Rightarrow> named_functions \<Rightarrow> string + bq_market list" where
  "lendingOpportunities N M fs marketFunctions =
     sum_bind (callInputlessFunctions N \<lparr> ch_address = bq_address M, ch_chain = bq_chain M, ch_badPools = None \<rparr> fs) (\<lambda>context.
     sum_bind (marketsOf context) (fetchMarkets N M marketFunctions))"

text \<open>A rate per second becomes a yield per year: it is compounded by the day.\<close>

definition formatApy :: "js_number \<Rightarrow> js_number" where
  "formatApy rate = map_option (\<lambda>r. (roundPlaces (r / 10 ^ 18) * 86400 + 1) ^ 365 - 1) rate"

record bq_side =
  bs_token :: bq_token
  bs_total :: js_number
  bs_tvl :: js_number
  bs_apyYear :: js_number

definition firstDecimals :: "bq_token \<Rightarrow> int option" where
  "firstDecimals t = (case bt_underlying t of [] \<Rightarrow> None | u # _ \<Rightarrow> Some (bu_decimals u))"

definition firstPrice :: "bq_token \<Rightarrow> js_number" where
  "firstPrice t = (case bt_underlying t of [] \<Rightarrow> None | u # _ \<Rightarrow> bu_price u)"

definition formatSuppliedMarket :: "bq_market \<Rightarrow> bq_token \<Rightarrow> bq_side" where
  "formatSuppliedMarket m token =
     (let totalSupplyDec = normalizeBy (bm_totalSupplied m) (Some (bt_decimals token));
          decimals = map_option (\<lambda>d. 18 + d - bt_decimals token) (firstDecimals token);
          exchangeRateDec = normalizeBy (bm_exchangeRate m) decimals;
          totalSupply = num_mul totalSupplyDec exchangeRateDec;
          tvl = num_mul (num_sub totalSupply (toDecimals (bm_totalBorrowed m) (firstDecimals token))) (firstPrice token)
      in \<lparr> bs_token = token, bs_total = totalSupply, bs_tvl = tvl, bs_apyYear = formatApy (bm_supplyRate m) \<rparr>)"

definition headUnderlying :: "bq_token \<Rightarrow> string + bq_underlying" where
  "headUnderlying t = (case bt_underlying t of [] \<Rightarrow> Inl ''TypeError'' | u # _ \<Rightarrow> Inr u)"

text \<open>An absent rate of the borrowed token leaves no number: the rate of the supplied token is not in the same object.\<close>

definition formatBorrowedMarket :: "bq_market \<Rightarrow> bq_token \<Rightarrow> string + bq_side" where
  "formatBorrowedMarket m token = sum_bind (headUnderlying token) (\<lambda>u.
     (let totalBorrowed = normalizeBy (bm_totalBorrowed m) (Some (bu_decimals u))
      in Inr \<lparr> bs_token = token, bs_total = totalBorrowed, bs_tvl = num_mul totalBorrowed (bu_price u),
           bs_apyYear = formatApy (case bm_borrowRate m of Some r \<Rightarrow> r | None \<Rightarrow> None) \<rparr>))"

record bq_reward =
  br_address :: string
  br_symbol :: string
  br_decimals :: int
  br_price :: js_number
  br_amount :: "js_number option"
  br_value :: "js_number option"

record bq_pool =
  bp_id :: string
  bp_supplied :: bq_side
  bp_borrowed :: bq_side
  bp_rewarded :: "bq_reward list"

section \<open>The state of a user\<close>

text \<open>The index of a reward token in the contract; another symbol has none, and its results are missing.\<close>

definition returnTokenIndex :: "string \<Rightarrow> string + int" where
  "returnTokenIndex symbol = (if symbol = ''AVAX'' then Inr 1 else if symbol = ''QI'' then Inr 0 else Inl ''TypeError'')"

definition indexLabel :: "string list \<Rightarrow> int \<Rightarrow> string \<Rightarrow> string" where
  "indexLabel parts i name = concatStrings (parts @ [show_int i, name])"

text \<open>The labels of the calls are made of the market, the user, the index of a reward and the name of the function in the ABI.\<close>

definition labelled :: "string \<Rightarrow> named_functions \<Rightarrow> string \<Rightarrow> (string \<Rightarrow> string) \<Rightarrow> call_arg list \<Rightarrow> string + string \<times> call_data" where
  "labelled contract fs generic label args = (case js_get fs generic of
     None \<Rightarrow> Inl ''TypeError''
   | Some abi \<Rightarrow> Inr (label (ai_name abi), createCall contract abi args))"

definition setMarketRewardCalls :: "bq_meta \<Rightarrow> named_functions \<Rightarrow> string \<Rightarrow> string \<Rightarrow> int \<Rightarrow> string + (string \<times> call_data) list" where
  "setMarketRewardCalls M fs address market i =
     sum_map (\<lambda>(generic, parts, args). labelled (bq_address M) fs generic (indexLabel parts i) args)
       [(''supplyRewardSpeeds'', [market], [ArgNumber i, ArgString market]),
        (''borrowRewardSpeeds'', [market], [ArgNumber i, ArgString market]),
        (''rewardSupplierIndex'', [market, address], [ArgNumber i, ArgString market, ArgString address]),
        (''rewardBorrowerIndex'', [market, address], [ArgNumber i, ArgString market, ArgString address]),
        (''rewardAccrued'', [address], [ArgNumber i, ArgString address]),
        (''rewardBorrowState'', [market], [ArgNumber i, ArgString market]),
        (''rewardSupplyState'', [market], [ArgNumber i, ArgString market])]"

definition marketUserCalls ::
  "bq_meta \<Rightarrow> named_functions \<Rightarrow> named_functions \<Rightarrow> string \<Rightarrow> string \<Rightarrow> string + (string \<times> call_data) list" where
  "marketUserCalls M fs marketFunctions address market =
     sum_bind (setMarketRewardCalls M fs address market 0) (\<lambda>avax.
     sum_bind (setMarketRewardCalls M fs address market 1) (\<lambda>qi.
     sum_bind (labelled market marketFunctions ''borrowIndex'' (\<lambda>n. concatStrings [market, n]) []) (\<lambda>index.
     sum_bind (labelled market marketFunctions ''accountSnapshot'' (\<lambda>n. concatStrings [address, market, n]) [ArgString address]) (\<lambda>snapshot.
     sum_bind (labelled (bq_address M) fs ''markets'' (\<lambda>n. concatStrings [market, n]) [ArgString market]) (\<lambda>markets.
     sum_bind (labelled (bq_address M) fs ''checkMembership'' (\<lambda>n. concatStrings [address, market, n]) [ArgString address, ArgString market]) (\<lambda>member.
       Inr (avax @ qi @ [index, snapshot, markets, member])))))))"

definition getMulticallMarketsData ::
  "node_calls \<Rightarrow> bq_meta \<Rightarrow> named_functions \<Rightarrow> named_functions \<Rightarrow> string \<Rightarrow> bq_pool list \<Rightarrow> string + (string, call_data) js_map" where
  "getMulticallMarketsData N M fs marketFunctions address pools =
     sum_bind (sum_map (\<lambda>pool. marketUserCalls M fs marketFunctions address (bp_id pool)) pools) (\<lambda>calls.
       handleInBatches (nc_web3 N) (nc_aggregate N) (newMap (concat calls)) (bq_chain M))"

text \<open>What the results say about a market: the readers of one batch.\<close>

record bq_reader =
  rd_snapshot :: "string \<Rightarrow> string + output_data"
  rd_market :: "string \<Rightarrow> string + output_data"
  rd_member :: "string \<Rightarrow> string + output_data"
  rd_supplySpeed :: "string \<Rightarrow> int \<Rightarrow> string + output_data"
  rd_borrowSpeed :: "string \<Rightarrow> int \<Rightarrow> string + output_data"
  rd_supplyState :: "string \<Rightarrow> int \<Rightarrow> string + output_data"
  rd_borrowState :: "string \<Rightarrow> int \<Rightarrow> string + output_data"
  rd_supplierIndex :: "string \<Rightarrow> int \<Rightarrow> string + output_data"
  rd_borrowerIndex :: "string \<Rightarrow> int \<Rightarrow> string + output_data"
  rd_accrued :: "int \<Rightarrow> string + output_data"

definition readLabel :: "named_functions \<Rightarrow> (string, call_data) js_map \<Rightarrow> string \<Rightarrow> (string \<Rightarrow> string) \<Rightarrow> string + output_data" where
  "readLabel fs results generic label = (case js_get fs generic of
     None \<Rightarrow> Inl ''TypeError'' | Some abi \<Rightarrow> outputOf results (label (ai_name abi)))"

definition readerOf :: "named_functions \<Rightarrow> named_functions \<Rightarrow> (string, call_data) js_map \<Rightarrow> string \<Rightarrow> bq_reader" where
  "readerOf fs marketFunctions results address =
     \<lparr> rd_snapshot = (\<lambda>m. readLabel marketFunctions results ''accountSnapshot'' (\<lambda>n. concatStrings [address, m, n])),
       rd_market = (\<lambda>m. readLabel fs results ''markets'' (\<lambda>n. concatStrings [m, n])),
       rd_member = (\<lambda>m. readLabel fs results ''checkMembership'' (\<lambda>n. concatStrings [address, m, n])),
       rd_supplySpeed = (\<lambda>m i. readLabel fs results ''supplyRewardSpeeds'' (indexLabel [m] i)),
       rd_borrowSpeed = (\<lambda>m i. readLabel fs results ''borrowRewardSpeeds'' (indexLabel [m] i)),
       rd_supplyState = (\<lambda>m i. readLabel fs results ''rewardSupplyState'' (indexLabel [m] i)),
       rd_borrowState = (\<lambda>m i. readLabel fs results ''rewardBorrowState'' (indexLabel [m] i)),
       rd_supplierIndex = (\<lambda>m i. readLabel fs results ''rewardSupplierIndex'' (indexLabel [m, address] i)),
       rd_borrowerIndex = (\<lambda>m i. readLabel fs results ''rewardBorrowerIndex'' (indexLabel [m, address] i)),
       rd_accrued = (\<lambda>i. readLabel fs results ''rewardAccrued'' (indexLabel [address] i)) \<rparr>"

definition numberResult :: "output_data \<Rightarrow> string + js_number" where
  "numberResult d = (case d of Single (BigNum n) \<Rightarrow> Inr n | _ \<Rightarrow> Inl ''TypeError'')"

definition fieldOf :: "output_data \<Rightarrow> result_key \<Rightarrow> sol_value" where
  "fieldOf d k = (case d of Fields m \<Rightarrow> readResult m k | Single _ \<Rightarrow> Missing)"

definition numberField :: "output_data \<Rightarrow> result_key \<Rightarrow> string + js_number" where
  "numberField d k = (case fieldOf d k of BigNum n \<Rightarrow> Inr n | _ \<Rightarrow> Inl ''TypeError'')"

section \<open>Rewards\<close>

text \<open>
  \<open>useDistributionApy\<close>: the yields that the rewards of a market add, in per cent of what is supplied and borrowed.  The
  rewards of one token, then their capped sums.
\<close>

definition rewardYields :: "bq_reader \<Rightarrow> bq_pool \<Rightarrow> bq_reward \<Rightarrow> string + big \<times> big" where
  "rewardYields R pool token =
     sum_bind (returnTokenIndex (br_symbol token)) (\<lambda>i.
     sum_bind (rd_borrowSpeed R (bp_id pool) i) (\<lambda>borrowSpeed.
     sum_bind (rd_supplySpeed R (bp_id pool) i) (\<lambda>supplySpeed.
     sum_bind (numberResult supplySpeed) (\<lambda>supplyRaw.
     sum_bind (numberResult borrowSpeed) (\<lambda>borrowRaw.
     sum_bind (headUnderlying (bs_token (bp_supplied pool))) (\<lambda>u.
       (let perDay = (\<lambda>raw. num_mul (dividedBy raw (Some (tenTo (br_decimals token)))) (Some 86400));
            supply = yearly (bigDiv (num_mul (br_price token) (perDay supplyRaw)) (num_mul (bs_total (bp_supplied pool)) (bu_price u)));
            borrow = yearly (bigDiv (num_mul (br_price token) (perDay borrowRaw)) (num_mul (bs_total (bp_borrowed pool)) (bu_price u)))
        in Inr (if supply = NotNum then Fin 0 else supply,
                if borrow = NotNum \<or> bu_symbol u = ''sAVAX'' then Fin 0 else borrow))))))))"

definition useDistributionApy :: "bq_reader \<Rightarrow> bq_pool \<Rightarrow> string + js_number \<times> js_number" where
  "useDistributionApy R pool =
     sum_bind (sum_map (rewardYields R pool) (bp_rewarded pool)) (\<lambda>rewards.
       (let (supply, borrow) = foldl (\<lambda>(s, b) (supply, borrow). (bigPlus s supply, bigPlus b borrow)) (Fin 0, Fin 0) rewards
        in Inr (cappedRate supply, cappedRate borrow)))"

definition isPositive :: "js_number \<Rightarrow> bool" where
  "isPositive n = (case n of Some x \<Rightarrow> 0 < x | None \<Rightarrow> False)"

text \<open>What one market adds to a reward, from the indices of the market and of the user.\<close>

definition accruedReward ::
  "int \<Rightarrow> int \<Rightarrow> js_number \<Rightarrow> js_number \<Rightarrow> js_number \<Rightarrow> js_number \<Rightarrow> js_number \<Rightarrow> js_number \<Rightarrow> js_number \<Rightarrow> js_number" where
  "accruedReward supplyDecimals borrowDecimals rewardAccruedDec supplyState borrowState supplierIndex borrowerIndex supplyBalance borrowBalance =
     (let supplyStateDec = shiftedBy supplyState (supplyDecimals - 54);
          borrowStateDec = shiftedBy borrowState (borrowDecimals - 54);
          supplierIndex1 = shiftedBy supplierIndex (supplyDecimals - 54);
          borrowerIndexDec = shiftedBy borrowerIndex (borrowDecimals - 54);
          supplyBalanceDec = shiftedBy supplyBalance (- supplyDecimals);
          borrowBalanceDec = shiftedBy borrowBalance (- borrowDecimals);
          supplierIndexDec = (if supplierIndex1 = Some 0 then shiftedBy (Some (10 ^ 36)) (supplyDecimals - 54) else supplierIndex1);
          userSupplyBalance = num_mul supplyBalanceDec (num_sub supplyStateDec supplierIndexDec);
          supplierAccrued = (if isPositive supplierIndexDec
            then (if isPositive userSupplyBalance then userSupplyBalance else rewardAccruedDec) else Some 0);
          borrowerAccrued = (if isPositive borrowerIndexDec
            then num_mul borrowBalanceDec (num_sub borrowStateDec borrowerIndexDec) else Some 0)
      in num_add supplierAccrued borrowerAccrued)"

definition marketReward :: "bq_reader \<Rightarrow> bq_pool \<Rightarrow> js_number \<Rightarrow> js_number \<Rightarrow> bq_reward \<Rightarrow> string + js_number" where
  "marketReward R pool borrowBalance supplyBalance reward =
     sum_bind (returnTokenIndex (br_symbol reward)) (\<lambda>i.
     sum_bind (sum_bind (rd_accrued R i) numberResult) (\<lambda>rewardAccrued.
     sum_bind (sum_bind (rd_supplyState R (bp_id pool) i) (\<lambda>d. numberField d (ByName ''index''))) (\<lambda>supplyState.
     sum_bind (sum_bind (rd_borrowState R (bp_id pool) i) (\<lambda>d. numberField d (ByName ''index''))) (\<lambda>borrowState.
     sum_bind (headUnderlying (bs_token (bp_supplied pool))) (\<lambda>u.
     sum_bind (sum_bind (rd_supplierIndex R (bp_id pool) i) numberResult) (\<lambda>supplierIndex.
     sum_bind (sum_bind (rd_borrowerIndex R (bp_id pool) i) numberResult) (\<lambda>borrowerIndex.
       Inr (accruedReward (bt_decimals (bs_token (bp_supplied pool))) (bu_decimals u) (shiftedBy rewardAccrued (- br_decimals reward))
         supplyState borrowState supplierIndex borrowerIndex supplyBalance borrowBalance))))))))"

definition addMarketReward :: "bq_reader \<Rightarrow> bq_pool \<Rightarrow> js_number \<Rightarrow> js_number \<Rightarrow> (string, js_number) js_map \<Rightarrow> bq_reward
    \<Rightarrow> string + (string, js_number) js_map" where
  "addMarketReward R pool borrowBalance supplyBalance balances reward =
     sum_bind (marketReward R pool borrowBalance supplyBalance reward) (\<lambda>rewards.
       Inr (js_put balances (br_address reward)
         (num_add (case js_get balances (br_address reward) of Some n \<Rightarrow> n | None \<Rightarrow> None) rewards)))"

definition getUserMarketRewards :: "bq_reader \<Rightarrow> bq_pool \<Rightarrow> js_number \<Rightarrow> js_number \<Rightarrow> (string, js_number) js_map
    \<Rightarrow> string + (string, js_number) js_map" where
  "getUserMarketRewards R pool borrowBalance supplyBalance balances =
     sum_foldl (addMarketReward R pool borrowBalance supplyBalance) balances (bp_rewarded pool)"

section \<open>Positions\<close>

text \<open>A supplied or borrowed token of a user: the data of the market, whose yield is replaced by \<open>us_apy\<close>.  It is absent
  (\<open>null\<close>, which counts as zero) when the market has none.\<close>

record user_side =
  us_side :: bq_side
  us_amount :: js_number
  us_value :: js_number
  us_apy :: "js_num timeframes"

definition formatLendingUserData :: "bq_side \<Rightarrow> js_number \<Rightarrow> js_number \<Rightarrow> js_number \<Rightarrow> string + user_side" where
  "formatLendingUserData side balance distributionApy exchangeRate = sum_bind (headUnderlying (bs_token side)) (\<lambda>u.
     (let userBalance = num_mul (toDecimals balance (Some (bu_decimals u))) (toDecimals exchangeRate (Some 18));
          apy = (if truthy_num (bs_apyYear side) then Val (num_add (bs_apyYear side) (num_div distributionApy (Some 100))) else Null);
          over = (\<lambda>n. Val (num_div (numberOf apy) (Some n)))
      in Inr \<lparr> us_side = side, us_amount = userBalance, us_value = num_mul userBalance (bu_price u),
           us_apy = \<lparr> tf_day = over 365, tf_week = over 52, tf_month = over 12, tf_year = apy \<rparr> \<rparr>))"

record lending_acc =
  la_supplied :: "user_side list"
  la_borrowed :: "user_side list"
  la_collateral :: js_number
  la_debt :: js_number
  la_rewards :: "(string, js_number) js_map"

text \<open>A boolean result is one of the texts \<open>true\<close> and \<open>false\<close>.\<close>

definition truthyOutput :: "output_data \<Rightarrow> bool" where
  "truthyOutput d \<longleftrightarrow> (case d of
     Single Missing \<Rightarrow> False | Single (Scalar s) \<Rightarrow> s \<noteq> [] \<and> s \<noteq> ''false'' | _ \<Rightarrow> True)"

definition supplyStep :: "bq_reader \<Rightarrow> bq_pool \<Rightarrow> js_number \<Rightarrow> js_number \<Rightarrow> js_number \<Rightarrow> lending_acc \<Rightarrow> string + lending_acc" where
  "supplyStep R pool supplyBalance supply exchangeRate acc =
     (if \<not> isPositive supplyBalance then Inr acc
      else sum_bind (rd_market R (bp_id pool)) (\<lambda>market.
           sum_bind (formatLendingUserData (bp_supplied pool) supplyBalance supply exchangeRate) (\<lambda>userSupply.
           sum_bind (rd_member R (bp_id pool)) (\<lambda>member.
             (let collateralFactor = numberText (fieldOf market (ByName ''collateralFactorMantissa''));
                  collateral = (if truthyOutput member
                    then num_add (la_collateral acc) (num_mul (us_value userSupply) (toDecimals collateralFactor (Some 18)))
                    else la_collateral acc)
              in Inr (acc\<lparr> la_collateral := collateral, la_supplied := la_supplied acc @ [userSupply] \<rparr>))))))"

text \<open>The yield of the borrowed token of the shared pool changes its sign.\<close>

definition negateApy :: "bq_pool \<Rightarrow> bq_pool" where
  "negateApy pool = pool\<lparr> bp_borrowed := (bp_borrowed pool)\<lparr> bs_apyYear := map_option uminus (bs_apyYear (bp_borrowed pool)) \<rparr> \<rparr>"

definition borrowStep :: "bq_pool \<Rightarrow> js_number \<Rightarrow> js_number \<Rightarrow> lending_acc \<Rightarrow> (string + lending_acc) \<times> bq_pool" where
  "borrowStep pool borrowBalance borrow acc =
     (if \<not> isPositive borrowBalance then (Inr acc, pool)
      else (let pool1 = negateApy pool in
        (sum_bind (formatLendingUserData (bp_borrowed pool1) borrowBalance borrow (Some (10 ^ 18))) (\<lambda>userBorrow.
           Inr (acc\<lparr> la_debt := num_add (la_debt acc) (us_value userBorrow), la_borrowed := la_borrowed acc @ [userBorrow] \<rparr>)), pool1)))"

text \<open>One pool: the balances, the supplied token, the borrowed token, the rewards.  The pool comes back as it was left.\<close>

definition lendingPool :: "bq_reader \<Rightarrow> lending_acc \<Rightarrow> bq_pool \<Rightarrow> (string + lending_acc) \<times> bq_pool" where
  "lendingPool R acc pool =
     (case sum_bind (rd_snapshot R (bp_id pool)) (\<lambda>snapshot.
        sum_bind (numberField snapshot (ByIndex 2)) (\<lambda>borrowBalance.
        sum_bind (numberField snapshot (ByIndex 1)) (\<lambda>supplyBalance.
        sum_bind (if fieldOf snapshot (ByIndex 3) = Missing then Inl ''TypeError'' else Inr (numberText (fieldOf snapshot (ByIndex 3)))) (\<lambda>exchangeRate.
        sum_bind (useDistributionApy R pool) (\<lambda>(supply, borrow).
        sum_bind (supplyStep R pool supplyBalance supply exchangeRate acc) (\<lambda>acc1.
          Inr (borrowBalance, supplyBalance, borrow, acc1))))))) of
        Inl e \<Rightarrow> (Inl e, pool)
      | Inr (borrowBalance, supplyBalance, borrow, acc1) \<Rightarrow>
          (case borrowStep pool borrowBalance borrow acc1 of
             (Inl e, pool1) \<Rightarrow> (Inl e, pool1)
           | (Inr acc2, pool1) \<Rightarrow>
               (if isPositive supplyBalance \<or> isPositive borrowBalance
                then sum_bind (getUserMarketRewards R pool1 borrowBalance supplyBalance (la_rewards acc2)) (\<lambda>rewards.
                       Inr (acc2\<lparr> la_rewards := rewards \<rparr>))
                else Inr acc2, pool1)))"

text \<open>An error ends the loop; the pools before and at it stay changed.\<close>

fun lendingPools :: "bq_reader \<Rightarrow> lending_acc \<Rightarrow> bq_pool list \<Rightarrow> (string + lending_acc) \<times> bq_pool list" where
  "lendingPools R acc [] = (Inr acc, [])"
| "lendingPools R acc (pool # pools) = (case lendingPool R acc pool of
     (Inl e, pool1) \<Rightarrow> (Inl e, pool1 # pools)
   | (Inr acc1, pool1) \<Rightarrow> (let (r, pools1) = lendingPools R acc1 pools in (r, pool1 # pools1)))"

text \<open>The ratio is one million at most, also without debt; zero over zero is no number.\<close>

definition debtRatio :: "js_number \<Rightarrow> js_number \<Rightarrow> js_number" where
  "debtRatio collateral debt = (case (collateral, debt) of
     (Some c, Some d) \<Rightarrow> if d \<noteq> 0 then Some (min (c / d) 1000000)
       else if 0 < c then Some 1000000 else None
   | _ \<Rightarrow> None)"

record lending_entry =
  le_supplied :: "user_side list"
  le_borrowed :: "user_side list"
  le_rewarded :: "nat list"
  le_debtRatio :: js_number

text \<open>The rewards of the first pool are changed in place and named by their positions.\<close>

definition showReward :: "(string, js_number) js_map \<Rightarrow> bq_reward \<Rightarrow> bq_reward option" where
  "showReward balances reward = (case js_get balances (br_address reward) of
     Some n \<Rightarrow> if truthy_num n then Some (reward\<lparr> br_amount := Some n, br_value := Some (num_mul n (br_price reward)) \<rparr>) else None
   | None \<Rightarrow> None)"

definition writeRewards :: "(string, js_number) js_map \<Rightarrow> bq_reward list \<Rightarrow> bq_reward list" where
  "writeRewards balances = map (\<lambda>r. case showReward balances r of Some r' \<Rightarrow> r' | None \<Rightarrow> r)"

definition listedRewards :: "(string, js_number) js_map \<Rightarrow> bq_reward list \<Rightarrow> nat list" where
  "listedRewards balances rewards = filter (\<lambda>i. showReward balances (rewards ! i) \<noteq> None) [0..<length rewards]"

definition lendingStart :: "bq_meta \<Rightarrow> lending_acc" where
  "lendingStart M = \<lparr> la_supplied = [], la_borrowed = [], la_collateral = Some 0, la_debt = Some 0,
     la_rewards = newMap [(bq_avax M, Some 0), (bq_qi M, Some 0)] \<rparr>"

definition lendingEntry :: "lending_acc \<Rightarrow> nat list \<Rightarrow> lending_entry" where
  "lendingEntry acc rewards = \<lparr> le_supplied = la_supplied acc, le_borrowed = la_borrowed acc, le_rewarded = rewards,
     le_debtRatio = (if la_borrowed acc \<noteq> [] \<or> la_supplied acc \<noteq> [] then debtRatio (la_collateral acc) (la_debt acc) else Some 0) \<rparr>"

definition lendingUser :: "bq_meta \<Rightarrow> (string + bq_reader) \<Rightarrow> bq_pool list \<Rightarrow> (string + lending_entry) \<times> bq_pool list" where
  "lendingUser M reader pools = (case reader of
     Inl e \<Rightarrow> (Inl e, pools)
   | Inr R \<Rightarrow> (case lendingPools R (lendingStart M) pools of
       (Inl e, pools1) \<Rightarrow> (Inl e, pools1)
     | (Inr acc, []) \<Rightarrow> (Inl ''TypeError'', [])
     | (Inr acc, pool # pools1) \<Rightarrow>
         (Inr (lendingEntry acc (listedRewards (la_rewards acc) (bp_rewarded pool))),
          pool\<lparr> bp_rewarded := writeRewards (la_rewards acc) (bp_rewarded pool) \<rparr> # pools1)))"

definition lendingUserData ::
  "node_calls \<Rightarrow> bq_meta \<Rightarrow> named_functions \<Rightarrow> named_functions \<Rightarrow> string \<Rightarrow> bq_pool list \<Rightarrow> (string + lending_entry) \<times> bq_pool list" where
  "lendingUserData N M fs marketFunctions address pools =
     lendingUser M (sum_bind (getMulticallMarketsData N M fs marketFunctions address pools) (\<lambda>results.
       Inr (readerOf fs marketFunctions results address))) pools"

text \<open>The users of a request, in the order in which their batches complete, work on the same pools.\<close>

fun lendingUsers :: "(string \<Rightarrow> bq_pool list \<Rightarrow> (string + lending_entry) \<times> bq_pool list) \<Rightarrow> string list \<Rightarrow> bq_pool list
    \<Rightarrow> (string + lending_entry) list \<times> bq_pool list" where
  "lendingUsers user [] pools = ([], pools)"
| "lendingUsers user (a # as) pools = (let (r, pools1) = user a pools; (rs, pools2) = lendingUsers user as pools1 in (r # rs, pools2))"

section \<open>Rewards of a market\<close>

lemma shiftedBy_Some: "shiftedBy (Some x) k = Some (x * 10 powi k)"
  by (cases "0 \<le> k") (simp_all add: shiftedBy_def power_int_def inverse_eq_divide power_one_over)

lemma powi_split: "(10 :: rat) powi (a + b) = 10 powi a * 10 powi b"
  by (simp add: power_int_add)

lemma shift_product: "(x * 10 powi (- d)) * (y * 10 powi (d - 54) - z * 10 powi (d - 54)) = x * (y - z) / (10 ^ 54 :: rat)"
proof -
  have "(x * 10 powi (- d)) * (y * 10 powi (d - 54) - z * 10 powi (d - 54)) = x * (y - z) * (10 powi (- d) * 10 powi (d - 54))"
    by (simp add: algebra_simps)
  also have "(10 :: rat) powi (- d) * 10 powi (d - 54) = 10 powi (- 54)"
    using powi_split[of "- d" "d - 54"] by simp
  also have "(10 :: rat) powi (- 54) = 1 / 10 ^ 54" by (simp add: power_int_def inverse_eq_divide power_one_over)
  finally show ?thesis by simp
qed

text \<open>What the contract owes to a user: what it has recorded and what the balances have earned since, at the indices of the market.  An
  index of zero of a supplier stands for the initial one.\<close>

definition supplyEarned :: "rat \<Rightarrow> rat \<Rightarrow> rat \<Rightarrow> rat" where
  "supplyEarned balance state index = balance * (state - (if index = 0 then 10 ^ 36 else index)) / 10 ^ 54"

definition borrowEarned :: "rat \<Rightarrow> rat \<Rightarrow> rat \<Rightarrow> rat" where
  "borrowEarned balance state index = (if 0 < index then balance * (state - index) / 10 ^ 54 else 0)"

definition contractReward :: "rat \<Rightarrow> rat \<Rightarrow> rat \<Rightarrow> rat" where
  "contractReward recorded supply borrow = recorded + supply + borrow"

text \<open>What a market adds to a reward is what the contract owes only when the supplied tokens have earned nothing since the last
  record.  As soon as they have, the recorded amount is left out.\<close>

theorem market_reward:
  assumes "0 \<le> supplierIndex" "0 \<le> borrowerIndex"
  shows "accruedReward supplyDecimals borrowDecimals (Some recorded) (Some supplyState) (Some borrowState) (Some supplierIndex)
      (Some borrowerIndex) (Some supplied) (Some borrowed)
    = Some (let s = supplyEarned supplied supplyState supplierIndex; b = borrowEarned borrowed borrowState borrowerIndex
        in if 0 < s then contractReward recorded s b - recorded else contractReward recorded 0 b)"
proof -
  let ?index = "if supplierIndex = 0 then 10 ^ 36 else supplierIndex"
  have index: "(if shiftedBy (Some supplierIndex) (supplyDecimals - 54) = Some 0 then shiftedBy (Some (10 ^ 36)) (supplyDecimals - 54)
      else shiftedBy (Some supplierIndex) (supplyDecimals - 54)) = Some (?index * 10 powi (supplyDecimals - 54))"
    by (simp add: shiftedBy_Some)
  have pos: "0 < ?index * 10 powi (supplyDecimals - 54)" using assms(1) by (auto simp: zero_less_mult_iff)
  have bpos: "0 < borrowerIndex * 10 powi (borrowDecimals - 54) \<longleftrightarrow> 0 < borrowerIndex"
    using assms(2) by (auto simp: zero_less_mult_iff)
  let ?s = "supplyEarned supplied supplyState supplierIndex"
  have supplyPart: "num_mul (shiftedBy (Some supplied) (- supplyDecimals))
      (num_sub (shiftedBy (Some supplyState) (supplyDecimals - 54)) (Some (?index * 10 powi (supplyDecimals - 54)))) = Some ?s"
    by (simp only: shiftedBy_Some num_sub.simps num_mul.simps shift_product supplyEarned_def)
  have borrowPart: "num_mul (shiftedBy (Some borrowed) (- borrowDecimals))
      (num_sub (shiftedBy (Some borrowState) (borrowDecimals - 54)) (shiftedBy (Some borrowerIndex) (borrowDecimals - 54)))
      = Some (borrowed * (borrowState - borrowerIndex) / 10 ^ 54)"
    by (simp only: shiftedBy_Some num_sub.simps num_mul.simps shift_product)
  have positive: "isPositive (Some (?index * 10 powi (supplyDecimals - 54)))"
      "isPositive (shiftedBy (Some borrowerIndex) (borrowDecimals - 54)) = (0 < borrowerIndex)" "isPositive (Some ?s) = (0 < ?s)"
    using pos bpos by (simp_all add: isPositive_def shiftedBy_Some)
  have "accruedReward supplyDecimals borrowDecimals (Some recorded) (Some supplyState) (Some borrowState) (Some supplierIndex)
      (Some borrowerIndex) (Some supplied) (Some borrowed)
    = num_add (if 0 < ?s then Some ?s else Some recorded)
        (if 0 < borrowerIndex then Some (borrowed * (borrowState - borrowerIndex) / 10 ^ 54) else Some 0)"
    by (simp only: accruedReward_def Let_def index supplyPart borrowPart positive if_True)
  also have "\<dots> = num_add (Some (if 0 < ?s then ?s else recorded)) (Some (borrowEarned borrowed borrowState borrowerIndex))"
    unfolding borrowEarned_def by (cases "0 < ?s"; cases "0 < borrowerIndex"; simp only: if_True if_False)
  finally have "accruedReward supplyDecimals borrowDecimals (Some recorded) (Some supplyState) (Some borrowState) (Some supplierIndex)
      (Some borrowerIndex) (Some supplied) (Some borrowed)
    = Some ((if 0 < ?s then ?s else recorded) + borrowEarned borrowed borrowState borrowerIndex)" by (simp only: num_add.simps)
  then show ?thesis by (simp add: contractReward_def Let_def)
qed

theorem market_reward_witness:
  "accruedReward 8 18 (Some 7) (Some (3 * 10 ^ 36)) (Some (10 ^ 36)) (Some (2 * 10 ^ 36)) (Some 0) (Some (5 * 10 ^ 18)) (Some 0)
    = Some (contractReward 7 5 0 - 7)"
  using market_reward[of "2 * 10 ^ 36" 0 8 18 7 "3 * 10 ^ 36" "10 ^ 36" "5 * 10 ^ 18" 0]
  by (simp add: supplyEarned_def borrowEarned_def Let_def)

section \<open>Shared yields\<close>

definition borrowsIn :: "bq_reader \<Rightarrow> string \<Rightarrow> bool" where
  "borrowsIn R market \<longleftrightarrow> (case sum_bind (rd_snapshot R market) (\<lambda>d. numberField d (ByIndex 2)) of
     Inr n \<Rightarrow> isPositive n | Inl _ \<Rightarrow> False)"

definition yieldOf :: "bq_pool \<Rightarrow> js_number" where
  "yieldOf pool = bs_apyYear (bp_borrowed pool)"

lemma lendingPool_yield:
  assumes "lendingPool R acc pool = (Inr acc', pool')"
  shows "pool' = (if borrowsIn R (bp_id pool) then negateApy pool else pool)"
proof (cases "sum_bind (rd_snapshot R (bp_id pool)) (\<lambda>d. numberField d (ByIndex 2))")
  case (Inl e)
  then show ?thesis using assms by (auto simp: lendingPool_def sum_bind_Inl_iff)
next
  case (Inr n)
  then obtain d where d: "rd_snapshot R (bp_id pool) = Inr d" "numberField d (ByIndex 2) = Inr n" by (auto simp: sum_bind_Inr_iff)
  from assms have "pool' = (if isPositive n then negateApy pool else pool)"
    by (auto simp: lendingPool_def d borrowStep_def Let_def sum_bind_Inr_iff split: sum.splits prod.splits if_splits)
  then show ?thesis by (simp add: borrowsIn_def Inr)
qed

lemma negateApy_id [simp]: "bp_id (negateApy p) = bp_id p"
  by (simp add: negateApy_def)

lemma yieldOf_negateApy [simp]: "yieldOf (negateApy p) = map_option uminus (yieldOf p)"
  by (simp add: yieldOf_def negateApy_def)

lemma lendingPools_yields:
  "lendingPools R acc pools = (Inr acc', pools') \<Longrightarrow>
    map (\<lambda>p. (bp_id p, yieldOf p)) pools'
      = map (\<lambda>p. (bp_id p, if borrowsIn R (bp_id p) then map_option uminus (yieldOf p) else yieldOf p)) pools"
proof (induction pools arbitrary: acc pools')
  case (Cons p pools)
  obtain r p1 where step: "lendingPool R acc p = (r, p1)" by fastforce
  obtain r1 ps1 where rest: "lendingPools R (case r of Inr acc1 \<Rightarrow> acc1 | Inl _ \<Rightarrow> acc) pools = (r1, ps1)" by fastforce
  from Cons.prems step rest obtain acc1 where acc1: "r = Inr acc1" "r1 = Inr acc'" "pools' = p1 # ps1"
    by (cases r) auto
  from lendingPool_yield[of R acc p acc1 p1] step acc1(1) have "p1 = (if borrowsIn R (bp_id p) then negateApy p else p)" by simp
  then show ?case using Cons.IH[of acc1 ps1] rest acc1 by simp
qed simp

text \<open>Whether a user borrows from a market, as the batch of the user says.\<close>

definition borrower :: "string + bq_reader \<Rightarrow> string \<Rightarrow> bool" where
  "borrower reader market \<longleftrightarrow> (case reader of Inr R \<Rightarrow> borrowsIn R market | Inl _ \<Rightarrow> False)"

lemma lendingUser_yields:
  assumes "lendingUser M reader pools = (Inr e, pools')"
  shows "map (\<lambda>p. (bp_id p, yieldOf p)) pools'
    = map (\<lambda>p. (bp_id p, if borrower reader (bp_id p) then map_option uminus (yieldOf p) else yieldOf p)) pools"
proof (cases reader)
  case (Inr R)
  obtain r ps where run: "lendingPools R (lendingStart M) pools = (r, ps)" by fastforce
  from assms Inr run obtain acc p ps1 where acc: "r = Inr acc" "ps = p # ps1"
      "pools' = p\<lparr> bp_rewarded := writeRewards (la_rewards acc) (bp_rewarded p) \<rparr> # ps1"
    by (cases r; cases ps) (auto simp: lendingUser_def)
  have "map (\<lambda>p. (bp_id p, yieldOf p)) pools' = map (\<lambda>p. (bp_id p, yieldOf p)) ps" by (simp add: acc yieldOf_def)
  also have "\<dots> = map (\<lambda>p. (bp_id p, if borrowsIn R (bp_id p) then map_option uminus (yieldOf p) else yieldOf p)) pools"
    using run acc(1) by (auto intro: lendingPools_yields)
  finally show ?thesis by (simp add: borrower_def Inr)
qed (use assms in \<open>simp add: lendingUser_def\<close>)

lemma uminus_twice [simp]: "map_option uminus (map_option uminus (y :: js_number)) = y"
  by (cases y) simp_all

text \<open>What a user is shown does not depend on the amounts of rewards that were written into the pools for other users.\<close>

definition rewardKind :: "bq_reward \<Rightarrow> string \<times> string \<times> int \<times> js_number" where
  "rewardKind r = (br_address r, br_symbol r, br_decimals r, br_price r)"

definition sameMarket :: "bq_pool \<Rightarrow> bq_pool \<Rightarrow> bool" where
  "sameMarket p q \<longleftrightarrow> bp_id q = bp_id p \<and> bp_supplied q = bp_supplied p \<and> bs_total (bp_borrowed q) = bs_total (bp_borrowed p)
     \<and> map rewardKind (bp_rewarded q) = map rewardKind (bp_rewarded p)"

definition loanReward :: "bq_reader \<Rightarrow> bq_pool \<Rightarrow> js_number" where
  "loanReward R pool = (case useDistributionApy R pool of Inr (_, borrow) \<Rightarrow> borrow | Inl _ \<Rightarrow> None)"

lemma sum_map_same: "map f xs = map g ys \<Longrightarrow> sum_map f xs = sum_map g ys"
proof (induction xs arbitrary: ys)
  case (Cons x xs)
  then obtain y ys' where ys: "ys = y # ys'" by (cases ys) auto
  then have "f x = g y" "sum_map f xs = sum_map g ys'" using Cons by simp_all
  then show ?case by (simp add: ys)
qed simp

lemma rewardYields_same:
  "sameMarket p q \<Longrightarrow> rewardKind r = rewardKind r' \<Longrightarrow> rewardYields R q r = rewardYields R p r'"
  by (simp add: rewardYields_def sameMarket_def rewardKind_def)

lemma map_same:
  assumes "map k ys = map k xs" "\<And>x y. k y = k x \<Longrightarrow> f y = g x"
  shows "map f ys = map g xs"
proof (rule nth_equalityI)
  show "length (map f ys) = length (map g xs)" using assms(1) by (metis length_map)
  fix i assume "i < length (map f ys)"
  then have "i < length ys" "i < length xs" using assms(1) by (simp, metis length_map)
  then show "map f ys ! i = map g xs ! i" using arg_cong[OF assms(1), of "\<lambda>zs. zs ! i"] by (simp add: assms(2))
qed

lemma loanReward_same: "sameMarket p q \<Longrightarrow> loanReward R q = loanReward R p"
proof -
  assume same: "sameMarket p q"
  have "map (rewardYields R q) (bp_rewarded q) = map (rewardYields R p) (bp_rewarded p)"
    by (rule map_same[of rewardKind]) (use same in \<open>simp only: sameMarket_def\<close>, rule rewardYields_same[OF same])
  then have "sum_map (rewardYields R q) (bp_rewarded q) = sum_map (rewardYields R p) (bp_rewarded p)" by (rule sum_map_same)
  then have "useDistributionApy R q = useDistributionApy R p" unfolding useDistributionApy_def by simp
  then show ?thesis by (simp add: loanReward_def)
qed

lemma sameMarket_refl [simp]: "sameMarket p p"
  by (simp add: sameMarket_def)

lemma sameMarket_negateApy [simp]: "sameMarket p (negateApy p)"
  by (simp add: sameMarket_def negateApy_def)

lemma rewardKind_written: "map rewardKind (writeRewards balances rs) = map rewardKind rs"
  by (auto simp: writeRewards_def showReward_def rewardKind_def split: option.splits)

text \<open>The yield that is shown for a loan: the yield of the market and that of the rewards, and nothing for a market without yield.\<close>

definition shownYield :: "js_number \<Rightarrow> js_number \<Rightarrow> js_num" where
  "shownYield apy reward = (if truthy_num apy then Val (num_add apy (num_div reward (Some 100))) else Null)"

definition yieldsOfLoans :: "user_side list \<Rightarrow> js_num list" where
  "yieldsOfLoans = map (\<lambda>u. tf_year (us_apy u))"

lemma supplyStep_borrowed: "supplyStep R pool b d x acc = Inr acc' \<Longrightarrow> la_borrowed acc' = la_borrowed acc"
  by (auto simp: supplyStep_def sum_bind_Inr_iff Let_def split: if_splits)

lemma borrowStep_borrowed:
  assumes "borrowStep pool balance reward acc = (Inr acc', pool')"
  shows "yieldsOfLoans (la_borrowed acc') = yieldsOfLoans (la_borrowed acc)
    @ (if isPositive balance then [shownYield (map_option uminus (yieldOf pool)) reward] else [])"
  using assms by (auto simp: borrowStep_def Let_def sum_bind_Inr_iff formatLendingUserData_def yieldsOfLoans_def shownYield_def yieldOf_def negateApy_def
      split: if_splits)

lemma lendingPool_borrowed:
  assumes "lendingPool R acc pool = (Inr acc', pool')"
  shows "yieldsOfLoans (la_borrowed acc') = yieldsOfLoans (la_borrowed acc)
    @ (if borrowsIn R (bp_id pool) then [shownYield (map_option uminus (yieldOf pool)) (loanReward R pool)] else [])"
proof -
  obtain snapshot balance supplied x s b acc1 where d: "rd_snapshot R (bp_id pool) = Inr snapshot" "numberField snapshot (ByIndex 2) = Inr balance"
      "useDistributionApy R pool = Inr (s, b)" "supplyStep R pool supplied s x acc = Inr acc1"
      "\<exists>acc2. borrowStep pool balance b acc1 = (Inr acc2, pool') \<and> la_borrowed acc' = la_borrowed acc2"
    using assms by (auto simp: lendingPool_def sum_bind_Inr_iff split: sum.splits prod.splits if_splits)
  then show ?thesis
    using borrowStep_borrowed[of pool balance b acc1] supplyStep_borrowed[OF d(4)] by (auto simp: borrowsIn_def loanReward_def)
qed

lemma lendingPools_borrowed:
  "lendingPools R acc pools = (Inr acc', pools') \<Longrightarrow> yieldsOfLoans (la_borrowed acc') = yieldsOfLoans (la_borrowed acc)
    @ map (\<lambda>p. shownYield (map_option uminus (yieldOf p)) (loanReward R p)) (filter (\<lambda>p. borrowsIn R (bp_id p)) pools)
    \<and> pools' = map (\<lambda>p. if borrowsIn R (bp_id p) then negateApy p else p) pools"
proof (induction pools arbitrary: acc pools')
  case (Cons p pools)
  obtain r p1 where step: "lendingPool R acc p = (r, p1)" by fastforce
  obtain r1 ps1 where rest: "lendingPools R (case r of Inr acc1 \<Rightarrow> acc1 | Inl _ \<Rightarrow> acc) pools = (r1, ps1)" by fastforce
  from Cons.prems step rest obtain acc1 where acc1: "r = Inr acc1" "r1 = Inr acc'" "pools' = p1 # ps1"
    by (cases r) auto
  then have "lendingPool R acc p = (Inr acc1, p1)" "lendingPools R acc1 pools = (Inr acc', ps1)" using step rest by simp_all
  from lendingPool_borrowed[OF this(1)] lendingPool_yield[OF this(1)] Cons.IH[OF this(2)] show ?case by (simp add: acc1(3))
qed simp

text \<open>What a user leaves of the pools, and what later users find.\<close>

definition loansOf :: "bq_reader \<Rightarrow> bq_pool list \<Rightarrow> (bq_pool \<Rightarrow> js_number) \<Rightarrow> js_num list" where
  "loansOf R pools y = map (\<lambda>p. shownYield (map_option uminus (y p)) (loanReward R p)) (filter (\<lambda>p. borrowsIn R (bp_id p)) pools)"

lemma lendingUser_shown:
  assumes "lendingUser M (Inr R) pools = (Inr e, pools')"
  shows "yieldsOfLoans (le_borrowed e) = loansOf R pools yieldOf"
    and "list_all2 (\<lambda>p q. sameMarket p q \<and> yieldOf q = (if borrowsIn R (bp_id p) then map_option uminus (yieldOf p) else yieldOf p)) pools pools'"
proof -
  obtain acc p ps where run: "lendingPools R (lendingStart M) pools = (Inr acc, p # ps)" and e: "e = lendingEntry acc (listedRewards (la_rewards acc) (bp_rewarded p))"
      and pools': "pools' = p\<lparr> bp_rewarded := writeRewards (la_rewards acc) (bp_rewarded p) \<rparr> # ps"
    using assms by (auto simp: lendingUser_def split: prod.splits sum.splits list.splits)
  note r = lendingPools_borrowed[OF run]
  show "yieldsOfLoans (le_borrowed e) = loansOf R pools yieldOf"
    using r by (simp add: e lendingEntry_def loansOf_def lendingStart_def yieldsOfLoans_def)
  have written: "sameMarket x p \<Longrightarrow> sameMarket x (p\<lparr> bp_rewarded := writeRewards b (bp_rewarded p) \<rparr>)" for x b
    by (simp add: sameMarket_def rewardKind_written)
  let ?left = "\<lambda>p. if borrowsIn R (bp_id p) then negateApy p else p"
  have each: "sameMarket x (?left x) \<and> yieldOf (?left x) = (if borrowsIn R (bp_id x) then map_option uminus (yieldOf x) else yieldOf x)" for x
    by simp
  from r obtain p0 ps0 where pools: "pools = p0 # ps0" "p = ?left p0" "ps = map ?left ps0" by (cases pools) auto
  have "yieldOf (p\<lparr> bp_rewarded := rs \<rparr>) = yieldOf p" for rs by (simp add: yieldOf_def)
  then show "list_all2 (\<lambda>p q. sameMarket p q \<and> yieldOf q = (if borrowsIn R (bp_id p) then map_option uminus (yieldOf p) else yieldOf p)) pools pools'"
    using each[of p0] written[of p0] unfolding pools(1) pools' pools(2)[symmetric] pools(3)
    by (simp only: list.rel_inject list_all2_map2 each list_all2_same simp_thms) simp
qed

lemma loansOf_later:
  "list_all2 (\<lambda>p q. sameMarket p q \<and> y q = z p) pools pools' \<Longrightarrow> loansOf R pools' y = loansOf R pools z"
proof (induction rule: list_all2_induct)
  case (Cons p ps q qs)
  then show ?case using loanReward_same[of p q R] by (auto simp: loansOf_def sameMarket_def)
qed (simp add: loansOf_def)

definition signedYield :: "nat \<Rightarrow> js_number \<Rightarrow> js_number" where
  "signedYield n y = (if even n then y else map_option uminus y)"

lemma lendingUsers_shown:
  "lendingUsers (\<lambda>a. lendingUser M (reader a)) users pools = (map Inr entries, pools') \<Longrightarrow> i < length users \<Longrightarrow> reader (users ! i) = Inr R \<Longrightarrow>
    yieldsOfLoans (le_borrowed (entries ! i))
      = loansOf R pools (\<lambda>p. signedYield (length (filter (\<lambda>a. borrower (reader a) (bp_id p)) (take i users))) (yieldOf p))"
proof (induction users arbitrary: pools entries i)
  case (Cons a users)
  obtain r pools1 where one: "lendingUser M (reader a) pools = (r, pools1)" by fastforce
  obtain rs pools2 where rest: "lendingUsers (\<lambda>a. lendingUser M (reader a)) users pools1 = (rs, pools2)" by fastforce
  from Cons.prems(1) one rest have "r # rs = map Inr entries" "pools2 = pools'" by simp_all
  then obtain e es where e: "r = Inr e" "rs = map Inr es" "pools2 = pools'" "entries = e # es" by (cases entries) auto
  obtain R0 where R0: "reader a = Inr R0" using one e(1) by (cases "reader a") (auto simp: lendingUser_def)
  have user: "lendingUser M (Inr R0) pools = (Inr e, pools1)" using one e(1) R0 by simp
  show ?case
  proof (cases i)
    case 0
    then show ?thesis using lendingUser_shown(1)[OF user] R0 Cons.prems(3) e(4) by (simp add: signedYield_def)
  next
    case (Suc j)
    let ?n = "\<lambda>p. length (filter (\<lambda>a. borrower (reader a) (bp_id p)) (take j users))"
    have "yieldsOfLoans (le_borrowed (es ! j)) = loansOf R pools1 (\<lambda>p. signedYield (?n p) (yieldOf p))"
      using Cons.IH[of pools1 es j] rest e Cons.prems(2,3) Suc by simp
    also have "\<dots> = loansOf R pools (\<lambda>p. signedYield (?n p) (if borrowsIn R0 (bp_id p) then map_option uminus (yieldOf p) else yieldOf p))"
      by (rule loansOf_later) (rule list_all2_mono[OF lendingUser_shown(2)[OF user]], auto simp: sameMarket_def)
    also have "(\<lambda>p. signedYield (?n p) (if borrowsIn R0 (bp_id p) then map_option uminus (yieldOf p) else yieldOf p))
        = (\<lambda>p. signedYield (length (filter (\<lambda>a. borrower (reader a) (bp_id p)) (take i (a # users)))) (yieldOf p))"
      by (auto simp: fun_eq_iff signedYield_def borrower_def R0 Suc)
    finally show ?thesis by (simp add: e(4) Suc)
  qed
qed simp

text \<open>C7: Of the users of a request that are all answered, the one at position \<open>i\<close> is shown, for each market that it borrows from, the cost of the loan
  as a negative yield only when an even number of the users before it borrow from the market too; otherwise the sign is wrong.  The yield of
  the rewards for the user is added, and a market without yield shows none.\<close>

theorem borrow_yields_alternate:
  assumes "lendingUsers (\<lambda>a. lendingUser M (reader a)) users pools = (map Inr entries, pools')"
    and "i < length users" "reader (users ! i) = Inr R"
  shows "map (\<lambda>u. tf_year (us_apy u)) (le_borrowed (entries ! i))
    = map (\<lambda>p. let cost = map_option uminus (yieldOf p);
          apy = (if even (length (filter (\<lambda>a. borrower (reader a) (bp_id p)) (take i users))) then cost else yieldOf p)
        in if truthy_num apy then Val (num_add apy (num_div (loanReward R p) (Some 100))) else Null)
      (filter (\<lambda>p. borrowsIn R (bp_id p)) pools)"
  using lendingUsers_shown[OF assms] unfolding yieldsOfLoans_def loansOf_def shownYield_def signedYield_def Let_def
  by (auto simp: if_distrib[of "map_option uminus"] intro!: map_cong)

section \<open>Two borrowers\<close>

definition snapshotOf :: "rat \<Rightarrow> rat \<Rightarrow> bq_reader" where
  "snapshotOf supplied borrowed = \<lparr> rd_snapshot = (\<lambda>_. Inr (Fields [(ByIndex 1, BigNum (Some supplied)), (ByIndex 2, BigNum (Some borrowed)),
       (ByIndex 3, BigNum (Some (10 ^ 18)))])),
     rd_market = (\<lambda>_. Inr (Fields [(ByName ''collateralFactorMantissa'', BigNum (Some (5 * 10 ^ 17)))])),
     rd_member = (\<lambda>_. Inr (Single (Scalar ''true''))), rd_supplySpeed = (\<lambda>_ _. Inl ''none''), rd_borrowSpeed = (\<lambda>_ _. Inl ''none''),
     rd_supplyState = (\<lambda>_ _. Inl ''none''), rd_borrowState = (\<lambda>_ _. Inl ''none''), rd_supplierIndex = (\<lambda>_ _. Inl ''none''),
     rd_borrowerIndex = (\<lambda>_ _. Inl ''none''), rd_accrued = (\<lambda>_. Inl ''none'') \<rparr>"

definition marketSide :: "rat \<Rightarrow> bq_side" where
  "marketSide y = \<lparr> bs_token = \<lparr> bt_address = ''0xqi'', bt_decimals = 8,
       bt_underlying = [\<lparr> bu_symbol = ''DAI'', bu_decimals = 2, bu_price = Some 1 \<rparr>] \<rparr>,
     bs_total = Some 1000, bs_tvl = Some 1000, bs_apyYear = Some y \<rparr>"

definition daiMarket :: "rat \<Rightarrow> bq_pool" where
  "daiMarket y = \<lparr> bp_id = ''0xqi'', bp_supplied = marketSide 3, bp_borrowed = marketSide y, bp_rewarded = [] \<rparr>"

definition aMeta :: bq_meta where
  "aMeta = \<lparr> bq_address = ''0xbq'', bq_chain = 6, bq_avax = ''0xavax'', bq_qi = ''0xqi'' \<rparr>"

definition yieldsShown :: "string + lending_entry \<Rightarrow> js_num list" where
  "yieldsShown r = (case r of Inr e \<Rightarrow> map (\<lambda>u. tf_year (us_apy u)) (le_borrowed e) | Inl _ \<Rightarrow> [])"

definition twoBorrowers :: "(string + lending_entry) list \<times> bq_pool list" where
  "twoBorrowers = lendingUsers (\<lambda>a. lendingUser aMeta (Inr (snapshotOf 0 100))) [''0x1'', ''0x2''] [daiMarket 5]"

text \<open>The first borrower is shown the cost of the loan as a negative yield, the second one as a positive yield.\<close>

lemma two_borrowers_shown: "map yieldsShown (fst twoBorrowers) = [[Val (Some (- 5))], [Val (Some 5)]]"
  by code_simp

theorem borrow_yields_alternate_witness:
  "map (\<lambda>r. case r of Inr e \<Rightarrow> map (\<lambda>u. tf_year (us_apy u)) (le_borrowed e) | Inl _ \<Rightarrow> []) (fst twoBorrowers) ! 1 = [Val (Some 5)]"
proof -
  have all: "list_all (\<lambda>r. case r of Inr _ \<Rightarrow> True | Inl _ \<Rightarrow> False) (fst twoBorrowers) \<and> length (fst twoBorrowers) = 2" by code_simp
  then obtain x y where "fst twoBorrowers = [x, y]" "(case x of Inr _ \<Rightarrow> True | Inl _ \<Rightarrow> False)" "(case y of Inr _ \<Rightarrow> True | Inl _ \<Rightarrow> False)"
    by (auto simp: length_Suc_conv numeral_2_eq_2)
  then obtain e1 e2 where e: "fst twoBorrowers = map Inr [e1, e2]" by (cases x; cases y) auto
  then have run: "lendingUsers (\<lambda>a. lendingUser aMeta (Inr (snapshotOf 0 100))) [''0x1'', ''0x2''] [daiMarket 5] = (map Inr [e1, e2], snd twoBorrowers)"
    unfolding twoBorrowers_def[symmetric] by (metis prod.collapse)
  have "loanReward (snapshotOf 0 100) (daiMarket 5) = Some 0" by code_simp
  then show ?thesis using borrow_yields_alternate[OF run, of 1] e
    by (simp add: borrower_def borrowsIn_def snapshotOf_def numberField_def fieldOf_def readResult_def isPositive_def
        daiMarket_def marketSide_def yieldOf_def truthy_num_def)
qed

end
