(* ===== verification/Currencies.thy ===== *)
theory Currencies
  imports Cache Chains
begin

text \<open>
  \<open>apps/price/src/modules/lookup\<close>: the rates of currencies, which come from a web service for the currencies of states and from the
  price service for the coins of some chains, and the descriptions of chains.  Both services and the cache are parameters.
\<close>

section \<open>Cached lookups\<close>

definition getOrSetCache ::
  "('s, 'v, int) cache_manager \<Rightarrow> int \<Rightarrow> string \<Rightarrow> ('s \<Rightarrow> (string + 'v js_value) \<times> 's) \<Rightarrow> 's \<Rightarrow> (string + 'v js_value) \<times> 's" where
  "getOrSetCache C cacheTTLInSeconds cacheKey callback s =
     (if present (cm_get C cacheKey s) then (Inr (cm_get C cacheKey s), s)
      else (case callback s of
          (Inl e, s') \<Rightarrow> (Inl e, s')
        | (Inr response, s') \<Rightarrow>
            (Inr response, if response \<noteq> Undef then cm_set C cacheKey response (Some cacheTTLInSeconds) s' else s')))"

definition currencyById ::
  "('s, 'v, int) cache_manager \<Rightarrow> int \<Rightarrow> (int \<Rightarrow> string + 'v js_value) \<Rightarrow> int \<Rightarrow> 's \<Rightarrow> (string + 'v js_value) \<times> 's" where
  "currencyById C ttl findOne i s = getOrSetCache C ttl (''currency_'' @ show_int i) (\<lambda>s. (findOne i, s)) s"

section \<open>Rates\<close>

text \<open>The answer of the web service; \<open>cr_info\<close> is the text of its error.\<close>

record currency_response =
  cr_success :: bool
  cr_quotes :: "(string, js_number) js_map"
  cr_info :: "string option"

record currency_rates =
  cu_quotes :: "(string, js_number) js_map"
  cu_errors :: "string list"

definition requestedCurrencies :: string where
  "requestedCurrencies = join_with '','' [''USD'', ''CAD'', ''EUR'', ''JPY'', ''GBP'', ''AUD'', ''CNY'']"

text \<open>The request to the web service: an answer without success is logged, and nothing is returned for it.\<close>

definition loadCurrencies :: "(string + currency_response) \<Rightarrow> string + currency_response js_value \<times> string list" where
  "loadCurrencies answer = sum_bind answer (\<lambda>response.
     if cr_success response then Inr (Val response, [])
     else (case cr_info response of None \<Rightarrow> Inl ''TypeError'' | Some _ \<Rightarrow> Inr (Undef, [''Failure with CurrencyLayer''])))"

text \<open>The prices of a chain, by address; an absent price is \<open>Undef\<close>.\<close>

type_synonym coin_prices = "string + (string \<Rightarrow> js_num)"

definition addCryptoPriceToCurrencyLayerResponse ::
  "string \<Rightarrow> string \<Rightarrow> coin_prices \<Rightarrow> (string, js_number) js_map \<times> string list \<Rightarrow> (string, js_number) js_map \<times> string list" where
  "addCryptoPriceToCurrencyLayerResponse key address prices = (\<lambda>(quotes, errors).
     (case prices of
        Inr price \<Rightarrow>
          if truthyValue (price address) then (js_put quotes key (num_div (Some 1) (numberOf (price address))), errors)
          else (quotes, set_add errors (''Failed to get price for '' @ key))
      | Inl _ \<Rightarrow> (quotes, set_add errors (''Failed to get price for '' @ key))))"

definition coins :: "(string \<times> chain \<times> string) list" where
  "coins =
    [(''USDETH'', Eth, ''0xc02aaa39b223fe8d0a0e5c4f27ead9083c756cc2''),
     (''USDBTC'', Eth, ''0x2260fac5e5542a773aa44fbcfedf7c193bc2c599''),
     (''USDBNB'', Bnb, ''0xbb4cdb9cbd36b01bd1cbaebf2de08d9173bc095c''),
     (''USDMATIC'', Plg, ''0x0d500b1d8e8ef31e21c99d1db9a6444d3adf1270''),
     (''USDFTM'', Ftm, ''0x21be370d5312f44cb42ce377bc9b8a0cef1a4c83''),
     (''USDAVAX'', Avax, ''0xb31f66aa3c1e785363f0875a1b74e27b85fd66c7''),
     (''USDADA'', Cardano, ''addr100000000000000000000000000000000000000000000'')]"

text \<open>The addresses that are asked for on a chain, in the order of the request.\<close>

definition coinAddresses :: "chain \<Rightarrow> string list" where
  "coinAddresses c =
     (if c = Eth then [''0x2260fac5e5542a773aa44fbcfedf7c193bc2c599'', ''0xc02aaa39b223fe8d0a0e5c4f27ead9083c756cc2'']
      else map (\<lambda>(_, _, a). a) (filter (\<lambda>(_, c', _). c' = c) coins))"

definition withoutUsd :: "string \<Rightarrow> string" where
  "withoutUsd currency = (if take 3 currency = ''USD'' then drop 3 currency else currency)"

definition getAvailablePrices ::
  "('s, currency_response, int) cache_manager \<Rightarrow> int \<Rightarrow> (string + currency_response) \<Rightarrow> (int \<Rightarrow> string list \<Rightarrow> coin_prices) \<Rightarrow> 's
    \<Rightarrow> (string + currency_rates) \<times> 's" where
  "getAvailablePrices C ttl answer coinPrices s =
     (let errors = (if present (cm_get C (''currencies-'' @ requestedCurrencies) s) then []
            else (case loadCurrencies answer of Inr (_, es) \<Rightarrow> es | Inl _ \<Rightarrow> []))
      in case getOrSetCache C ttl (''currencies-'' @ requestedCurrencies)
           (\<lambda>s. (sum_bind (loadCurrencies answer) (\<lambda>(r, _). Inr r), s)) s of
         (Inl e, s') \<Rightarrow> (Inl e, s')
       | (Inr (Val currencies), s') \<Rightarrow>
           (let quotes = (if cr_success currencies then cr_quotes currencies else [(''USDUSD'', Some 1)]);
                (quotes', errors') = foldl (\<lambda>acc (key, c, address).
                  addCryptoPriceToCurrencyLayerResponse key address (coinPrices (ChainIdEnum c) (coinAddresses c)) acc) (quotes, errors) coins
            in (Inr \<lparr> cu_quotes = foldl (\<lambda>m (currency, price). js_put m (withoutUsd currency) price) [] quotes', cu_errors = errors' \<rparr>, s'))
       | (Inr _, s') \<Rightarrow> (Inl ''TypeError'', s'))"

section \<open>Chains\<close>

definition chainById :: "int \<Rightarrow> chain_dto" where
  "chainById i =
     (let abbr = chainAbbrOfId i
      in \<lparr> chain_id = Some (EnumNum i),
           chain_name = (case abbr of None \<Rightarrow> None | Some a \<Rightarrow> js_get (map (\<lambda>c. (ChainAbbrEnum c, ChainNameEnum c)) all_chains) a),
           chain_abbr = (case abbr of None \<Rightarrow> None | Some a \<Rightarrow> js_get (map (\<lambda>c. (ChainAbbrEnum c, ChainAbbrEnum c)) all_chains) a) \<rparr>)"

definition allChains :: "chain_dto list" where
  "allChains = map (\<lambda>(_, i). chainById i) InternalChainIdByAbbr"

section \<open>What the answer holds\<close>

text \<open>The price of a coin, if the price service has it.\<close>

definition coinPrice :: "(int \<Rightarrow> string list \<Rightarrow> coin_prices) \<Rightarrow> chain \<Rightarrow> string \<Rightarrow> js_num" where
  "coinPrice coinPrices c address = (case coinPrices (ChainIdEnum c) (coinAddresses c) of Inr price \<Rightarrow> price address | Inl _ \<Rightarrow> Undef)"

lemma addCrypto_price:
  "addCryptoPriceToCurrencyLayerResponse key address (coinPrices (ChainIdEnum c) (coinAddresses c)) (quotes, errors)
    = (if truthyValue (coinPrice coinPrices c address)
       then (js_put quotes key (num_div (Some 1) (numberOf (coinPrice coinPrices c address))), errors)
       else (quotes, set_add errors (''Failed to get price for '' @ key)))"
  by (auto simp: addCryptoPriceToCurrencyLayerResponse_def coinPrice_def split: sum.split)

text \<open>An answer of the web service without success makes the request for rates fail: the rate of the dollar alone, which the code
  has for that case, is never given, and neither are the rates of the coins.\<close>

theorem no_currencies_no_rates:
  assumes "\<not> present (cm_get C (''currencies-'' @ requestedCurrencies) s)" "answer = Inr response" "\<not> cr_success response"
  shows "getAvailablePrices C ttl answer coinPrices s = (Inl ''TypeError'', s)"
  using assms by (auto simp: getAvailablePrices_def getOrSetCache_def loadCurrencies_def split: option.split)

theorem no_currencies_no_rates_witness:
  "getAvailablePrices memory_cache 60 (Inr \<lparr> cr_success = False, cr_quotes = [], cr_info = Some ''limit'' \<rparr>)
     (\<lambda>_ _. Inr (\<lambda>_. Val (Some 2))) [] = (Inl ''TypeError'', [])"
  by (rule no_currencies_no_rates[OF _ refl]) (simp_all add: memory_cache_def memory_get_def)

lemma coins_folded:
  assumes "distinct (map fst cs)" "foldl (\<lambda>acc (key, c, address).
      addCryptoPriceToCurrencyLayerResponse key address (coinPrices (ChainIdEnum c) (coinAddresses c)) acc) (quotes, errors) cs = (quotes', errors')"
  shows "(\<forall>(key, c, address)\<in>set cs. js_get quotes' key
        = (if truthyValue (coinPrice coinPrices c address) then Some (num_div (Some 1) (numberOf (coinPrice coinPrices c address))) else js_get quotes key))
    \<and> (\<forall>key. key \<notin> fst ` set cs \<longrightarrow> js_get quotes' key = js_get quotes key)
    \<and> set errors' = set errors \<union> {''Failed to get price for '' @ key | key c address.
        (key, c, address) \<in> set cs \<and> \<not> truthyValue (coinPrice coinPrices c address)}"
  using assms
proof (induction cs arbitrary: quotes errors)
  case (Cons x cs)
  obtain key c address where x: "x = (key, c, address)" by (cases x)
  obtain q e where step: "addCryptoPriceToCurrencyLayerResponse key address (coinPrices (ChainIdEnum c) (coinAddresses c)) (quotes, errors) = (q, e)"
    by fastforce
  have new: "key \<notin> fst ` set cs" using Cons.prems(1) by (simp add: x)
  have q: "q = (if truthyValue (coinPrice coinPrices c address) then js_put quotes key (num_div (Some 1) (numberOf (coinPrice coinPrices c address))) else quotes)"
    "set e = set errors \<union> (if truthyValue (coinPrice coinPrices c address) then {} else {''Failed to get price for '' @ key})"
    using step unfolding addCrypto_price by (auto simp: set_add_def split: if_splits)
  have IH: "\<forall>(key, c, address)\<in>set cs. js_get quotes' key
        = (if truthyValue (coinPrice coinPrices c address) then Some (num_div (Some 1) (numberOf (coinPrice coinPrices c address))) else js_get q key)"
      "\<forall>key. key \<notin> fst ` set cs \<longrightarrow> js_get quotes' key = js_get q key"
      "set errors' = set e \<union> {''Failed to get price for '' @ key | key c address.
        (key, c, address) \<in> set cs \<and> \<not> truthyValue (coinPrice coinPrices c address)}"
    using Cons.IH[of q e] Cons.prems step by (simp_all add: x)
  have other: "js_get q k = js_get quotes k" if "k \<noteq> key" for k using that by (simp add: q(1))
  have 1: "\<forall>(k, c', a)\<in>set cs. js_get quotes' k
      = (if truthyValue (coinPrice coinPrices c' a) then Some (num_div (Some 1) (numberOf (coinPrice coinPrices c' a))) else js_get quotes k)"
  proof clarify
    fix k c' a assume m: "(k, c', a) \<in> set cs"
    then have "k \<noteq> key" using new by (metis fst_conv image_eqI)
    then show "js_get quotes' k
      = (if truthyValue (coinPrice coinPrices c' a) then Some (num_div (Some 1) (numberOf (coinPrice coinPrices c' a))) else js_get quotes k)"
      using IH(1) m other by fastforce
  qed
  have 2: "js_get quotes' key
      = (if truthyValue (coinPrice coinPrices c address) then Some (num_div (Some 1) (numberOf (coinPrice coinPrices c address))) else js_get quotes key)"
    using IH(2) new by (simp add: q(1))
  have 3: "set errors' = set errors \<union> {''Failed to get price for '' @ key | key c address.
      (key, c, address) \<in> set (x # cs) \<and> \<not> truthyValue (coinPrice coinPrices c address)}"
    unfolding IH(3) q(2) by (auto simp: x)
  have 4: "\<forall>k. k \<notin> fst ` set (x # cs) \<longrightarrow> js_get quotes' k = js_get quotes k" using IH(2) other by (auto simp: x)
  show ?case using 1 2 3 4 by (simp add: x)
qed simp

definition dollarKeys :: "(string, js_number) js_map \<Rightarrow> bool" where
  "dollarKeys m \<longleftrightarrow> js_wf m \<and> (\<forall>k\<in>set (js_keys m). take 3 k = ''USD'')"

lemma coins_keys:
  assumes "\<forall>(key, c, address)\<in>set cs. take 3 key = ''USD''" "dollarKeys quotes" "foldl (\<lambda>acc (key, c, address).
      addCryptoPriceToCurrencyLayerResponse key address (coinPrices (ChainIdEnum c) (coinAddresses c)) acc) (quotes, errors) cs = (quotes', errors')"
  shows "dollarKeys quotes'"
  using assms
proof (induction cs arbitrary: quotes errors)
  case (Cons x cs)
  obtain key c address where x: "x = (key, c, address)" by (cases x)
  obtain q e where step: "addCryptoPriceToCurrencyLayerResponse key address (coinPrices (ChainIdEnum c) (coinAddresses c)) (quotes, errors) = (q, e)"
    by fastforce
  have "dollarKeys q" using step Cons.prems(1,2) unfolding addCrypto_price
    by (auto simp: dollarKeys_def x split: if_splits)
  then show ?case using Cons step by (simp add: x)
qed simp

lemma dollar_key: "take 3 k = ''USD'' \<Longrightarrow> take 3 k' = ''USD'' \<Longrightarrow> drop 3 k = drop 3 k' \<longleftrightarrow> k = k'"
  by (metis append_take_drop_id)

lemma renamed_get:
  "dollarKeys m \<Longrightarrow> take 3 k = ''USD'' \<Longrightarrow>
    js_get (foldl (\<lambda>m (currency, price). js_put m (withoutUsd currency) price) [] m) (drop 3 k) = js_get m k"
proof (induction m rule: rev_induct)
  case (snoc x m)
  obtain c p where x: "x = (c, p)" by (cases x)
  have c: "take 3 c = ''USD''" "c \<notin> fst ` set m" and m: "dollarKeys m"
    using snoc.prems(1) by (auto simp: dollarKeys_def js_wf_def js_keys_def x)
  have none: "js_get m c = None" using c(2) by (simp add: map_of_eq_None_iff)
  have "js_get (m @ [(c, p)]) k = (if k = c then Some p else js_get m k)"
    using none by (auto simp: map_add_def split: option.split)
  then show ?case using snoc.IH[OF m snoc.prems(2)] c(1) dollar_key[OF snoc.prems(2) c(1)]
    by (auto simp: x withoutUsd_def)
qed simp

text \<open>With an answer of the web service, the rates are those of the answer, under the names without the dollar, and for every coin
  with a price the inverse of its price; the coins without one are reported, and no others.\<close>

theorem available_rates:
  assumes "\<not> present (cm_get C (''currencies-'' @ requestedCurrencies) s)" "cr_success response" "dollarKeys (cr_quotes response)"
  shows "\<exists>rates s'. getAvailablePrices C ttl (Inr response) coinPrices s = (Inr rates, s')
    \<and> (\<forall>(key, c, address)\<in>set coins. js_get (cu_quotes rates) (drop 3 key) = (if truthyValue (coinPrice coinPrices c address)
        then Some (num_div (Some 1) (numberOf (coinPrice coinPrices c address))) else js_get (cr_quotes response) key))
    \<and> (\<forall>key. take 3 key = ''USD'' \<and> key \<notin> fst ` set coins \<longrightarrow> js_get (cu_quotes rates) (drop 3 key) = js_get (cr_quotes response) key)
    \<and> set (cu_errors rates) = {''Failed to get price for '' @ key | key c address.
        (key, c, address) \<in> set coins \<and> \<not> truthyValue (coinPrice coinPrices c address)}"
proof -
  obtain quotes' errors' where run: "foldl (\<lambda>acc (key, c, address).
      addCryptoPriceToCurrencyLayerResponse key address (coinPrices (ChainIdEnum c) (coinAddresses c)) acc) (cr_quotes response, []) coins
      = (quotes', errors')" by fastforce
  let ?rates = "\<lparr> cu_quotes = foldl (\<lambda>m (currency, price). js_put m (withoutUsd currency) price) [] quotes', cu_errors = errors' \<rparr>"
  have "distinct (map fst coins)" by (simp add: coins_def)
  note folded = coins_folded[OF this run]
  have dollar: "\<forall>(key, c, address)\<in>set coins. take 3 key = ''USD''" by (simp add: coins_def)
  note keys = coins_keys[OF dollar assms(3) run]
  have got: "js_get (cu_quotes ?rates) (drop 3 k) = js_get quotes' k" if "take 3 k = ''USD''" for k
    using renamed_get[OF keys that] by simp
  have "getAvailablePrices C ttl (Inr response) coinPrices s
      = (Inr ?rates, cm_set C (''currencies-'' @ requestedCurrencies) (Val response) (Some ttl) s)"
    using assms(1,2) by (simp add: getAvailablePrices_def getOrSetCache_def loadCurrencies_def run)
  moreover have "\<forall>(key, c, address)\<in>set coins. js_get (cu_quotes ?rates) (drop 3 key) = (if truthyValue (coinPrice coinPrices c address)
        then Some (num_div (Some 1) (numberOf (coinPrice coinPrices c address))) else js_get (cr_quotes response) key)"
    using folded dollar got by fastforce
  moreover have "\<forall>key. take 3 key = ''USD'' \<and> key \<notin> fst ` set coins \<longrightarrow> js_get (cu_quotes ?rates) (drop 3 key) = js_get (cr_quotes response) key"
    using folded got by simp
  moreover have "set (cu_errors ?rates) = {''Failed to get price for '' @ key | key c address.
        (key, c, address) \<in> set coins \<and> \<not> truthyValue (coinPrice coinPrices c address)}"
    using folded by simp
  ultimately show ?thesis by blast
qed

definition euroAnswer :: currency_response where
  "euroAnswer = \<lparr> cr_success = True, cr_quotes = [(''USDEUR'', Some 2)], cr_info = None \<rparr>"

theorem available_rates_witness:
  "\<exists>rates s'. getAvailablePrices memory_cache 60 (Inr euroAnswer)
      (\<lambda>chain _. if chain = 1 then Inr (\<lambda>_. Val (Some 4)) else Inl ''down'') [] = (Inr rates, s')
    \<and> js_get (cu_quotes rates) ''ETH'' = Some (Some (1 / 4)) \<and> js_get (cu_quotes rates) ''EUR'' = Some (Some 2)
    \<and> ''Failed to get price for USDBNB'' \<in> set (cu_errors rates)"
proof -
  let ?prices = "\<lambda>chain (_ :: string list). if chain = (1 :: int) then Inr (\<lambda>_ :: string. Val (Some (4 :: rat))) else (Inl ''down'' :: coin_prices)"
  have miss: "\<not> present (cm_get memory_cache (''currencies-'' @ requestedCurrencies) [])" by (simp add: memory_cache_def memory_get_def)
  have dollar: "dollarKeys (cr_quotes euroAnswer)"
    by (simp add: dollarKeys_def js_wf_def js_keys_def euroAnswer_def)
  have ok: "cr_success euroAnswer" by (simp add: euroAnswer_def)
  from available_rates[OF miss ok dollar, of 60 ?prices] obtain rates s' where
      run: "getAvailablePrices memory_cache 60 (Inr euroAnswer) ?prices [] = (Inr rates, s')"
    and coin: "\<forall>(key, c, address)\<in>set coins. js_get (cu_quotes rates) (drop 3 key) = (if truthyValue (coinPrice ?prices c address)
        then Some (num_div (Some 1) (numberOf (coinPrice ?prices c address))) else js_get (cr_quotes euroAnswer) key)"
    and other: "\<forall>key. take 3 key = ''USD'' \<and> key \<notin> fst ` set coins \<longrightarrow> js_get (cu_quotes rates) (drop 3 key) = js_get (cr_quotes euroAnswer) key"
    and errors: "set (cu_errors rates) = {''Failed to get price for '' @ key | key c address.
        (key, c, address) \<in> set coins \<and> \<not> truthyValue (coinPrice ?prices c address)}"
    by blast
  have "(''USDETH'', Eth, ''0xc02aaa39b223fe8d0a0e5c4f27ead9083c756cc2'') \<in> set coins" by (simp add: coins_def)
  with coin have "js_get (cu_quotes rates) ''ETH'' = Some (Some (1 / 4))" by (auto simp: coinPrice_def truthy_num_def)
  moreover have "js_get (cu_quotes rates) ''EUR'' = Some (Some 2)" using other[rule_format, of "''USDEUR''"] by (simp add: coins_def euroAnswer_def)
  moreover have "''Failed to get price for '' @ ''USDBNB'' \<in> set (cu_errors rates)"
  proof -
    have "(''USDBNB'', Bnb, ''0xbb4cdb9cbd36b01bd1cbaebf2de08d9173bc095c'') \<in> set coins"
      "\<not> truthyValue (coinPrice ?prices Bnb ''0xbb4cdb9cbd36b01bd1cbaebf2de08d9173bc095c'')" by (simp_all add: coins_def coinPrice_def)
    then show ?thesis unfolding errors by blast
  qed
  ultimately show ?thesis using run by auto
qed

end
