(* ===== verification/AssetPrices.thy ===== *)
theory AssetPrices
  imports Cache Collections
begin

text \<open>
  \<open>apps/assets/src/modules/prices/price.service.ts\<close>, the keeper of the current prices of assets.  The sources of prices hand in
  batches; the cache keeps for every asset the last price of each source, and their mean under a key of its own.  The cache is the one
  of theory \<open>Cache\<close>, the table of historical prices is a parameter, and the clock is a function of the place in the batch.
\<close>

section \<open>Data\<close>

record asset_ref =
  ar_chainId :: int
  ar_address :: string

record asset_price = asset_ref +
  ap_sourceId :: int
  ap_price :: js_num

record source_price =
  sp_sourceId :: int
  sp_price :: js_num
  sp_timestamp :: int

record stored_prices =
  as_asset :: asset_ref
  as_prices :: "source_price list"

record avg_price =
  av_price :: js_num
  av_reserves :: "string list option"

record asset_avg_price =
  aa_asset :: asset_ref
  aa_price :: js_num
  aa_reserves :: "string list option"

text \<open>The two kinds of values that the service puts into the cache.\<close>

datatype cached_price = SourceItem stored_prices | AvgItem avg_price

definition assetPricesTTLInSeconds :: "int option \<Rightarrow> int" where
  "assetPricesTTLInSeconds configured = (case configured of Some n \<Rightarrow> if n \<noteq> 0 then n else 60 * 60 | None \<Rightarrow> 60 * 60)"

section \<open>Keys\<close>

definition getPriceMapKey :: "'a asset_ref_scheme \<Rightarrow> string" where
  "getPriceMapKey a = show_int (ar_chainId a) @ ''_'' @ to_lower (ar_address a)"

definition getSourcePricesCacheKey :: "'a asset_ref_scheme \<Rightarrow> string" where
  "getSourcePricesCacheKey a = ''asset_source_prices_'' @ show_int (ar_chainId a) @ ''_'' @ to_lower (ar_address a)"

definition getAvgPriceCacheKey :: "'a asset_ref_scheme \<Rightarrow> string" where
  "getAvgPriceCacheKey a = ''asset_avg_price_'' @ show_int (ar_chainId a) @ ''_'' @ to_lower (ar_address a)"

section \<open>Current prices\<close>

definition createPriceMap :: "asset_price list \<Rightarrow> (string, asset_price) js_map" where
  "createPriceMap prices = foldl (\<lambda>m price. js_put m (getPriceMapKey price) price) [] prices"

definition refOf :: "'a asset_ref_scheme \<Rightarrow> asset_ref" where
  "refOf a = \<lparr> ar_chainId = ar_chainId a, ar_address = ar_address a \<rparr>"

definition emptyPrices :: "'a asset_ref_scheme \<Rightarrow> stored_prices" where
  "emptyPrices asset = \<lparr> as_asset = refOf asset, as_prices = [] \<rparr>"

definition updatePrices :: "stored_prices \<Rightarrow> (string, asset_price) js_map \<Rightarrow> int \<Rightarrow> int \<Rightarrow> string + stored_prices" where
  "updatePrices ap priceMap expiredAt now =
     (case js_get priceMap (getPriceMapKey (as_asset ap)) of
        None \<Rightarrow> Inl ''TypeError''
      | Some updatedPrice \<Rightarrow>
          if \<not> truthyValue (ap_price updatedPrice) then Inr \<lparr> as_asset = as_asset ap, as_prices = as_prices ap \<rparr>
          else Inr \<lparr> as_asset = as_asset ap,
            as_prices = filter (\<lambda>p. sp_sourceId p \<noteq> ap_sourceId updatedPrice \<and> sp_timestamp p \<ge> expiredAt) (as_prices ap)
              @ [\<lparr> sp_sourceId = ap_sourceId updatedPrice, sp_price = ap_price updatedPrice, sp_timestamp = now \<rparr>] \<rparr>)"

definition calculateAveragePrice :: "stored_prices \<Rightarrow> asset_avg_price" where
  "calculateAveragePrice ap =
     \<lparr> aa_asset = as_asset ap,
       aa_price = (if as_prices ap \<noteq> []
         then Val (num_div (foldl (\<lambda>sum cur. num_add sum (numberOf (sp_price cur))) (Some 0) (as_prices ap)) (Some (of_nat (length (as_prices ap)))))
         else Null),
       aa_reserves = None \<rparr>"

definition toSourcePricesCacheItem :: "stored_prices \<Rightarrow> string \<times> cached_price js_value" where
  "toSourcePricesCacheItem ap = (getSourcePricesCacheKey (as_asset ap), Val (SourceItem ap))"

definition toAvgPriceCacheItem :: "asset_avg_price \<Rightarrow> string \<times> cached_price js_value" where
  "toAvgPriceCacheItem a = (getAvgPriceCacheKey (aa_asset a), Val (AvgItem \<lparr> av_price = aa_price a, av_reserves = aa_reserves a \<rparr>))"

text \<open>What is taken for the source prices at a place of the batch: the item of the cache, or no prices when there is none.\<close>

definition cachedOrEmpty :: "asset_price list \<Rightarrow> nat \<Rightarrow> cached_price js_value \<Rightarrow> string + stored_prices" where
  "cachedOrEmpty prices index price =
     (case price of
        Val (SourceItem ap) \<Rightarrow> Inr ap
      | Val (AvgItem _) \<Rightarrow> Inl ''TypeError''
      | _ \<Rightarrow> if index < length prices then Inr (emptyPrices (prices ! index)) else Inl ''TypeError'')"

definition updatedPricesOf ::
  "asset_price list \<Rightarrow> cached_price js_value list \<Rightarrow> int \<Rightarrow> (nat \<Rightarrow> int) \<Rightarrow> string + stored_prices list" where
  "updatedPricesOf prices cachedAssetPrices expiredAt clock =
     sum_map (\<lambda>(index, price). sum_bind (cachedOrEmpty prices index price)
         (\<lambda>ap. updatePrices ap (createPriceMap prices) expiredAt (clock index)))
       (enumerate 0 cachedAssetPrices)"

definition saveAssetPrices ::
  "('s, cached_price, int) cache_manager \<Rightarrow> int \<Rightarrow> int \<Rightarrow> (nat \<Rightarrow> int) \<Rightarrow> asset_price list \<Rightarrow> 's \<Rightarrow> (string + unit) \<times> 's" where
  "saveAssetPrices C ttl now clock prices s =
     (let expiredPricesTimestamp = now - ttl * 1000;
          cachedAssetPrices = cacheMget C (map getSourcePricesCacheKey prices) s
      in case updatedPricesOf prices cachedAssetPrices expiredPricesTimestamp clock of
           Inl e \<Rightarrow> (Inl e, s)
         | Inr updatedPrices \<Rightarrow>
             (let notEmptyUpdatedPrices = filter (\<lambda>ap. length (as_prices ap) > 0) updatedPrices;
                  s1 = cacheMset C (map toSourcePricesCacheItem notEmptyUpdatedPrices) (Some ttl) s;
                  averagePrices = filter (\<lambda>a. truthyValue (aa_price a)) (map calculateAveragePrice updatedPrices)
              in (Inr (), cacheMset C (map toAvgPriceCacheItem averagePrices) (Some ttl) s1)))"

definition getAssetPrices :: "('s, cached_price, int) cache_manager \<Rightarrow> asset_ref list \<Rightarrow> 's \<Rightarrow> asset_avg_price list" where
  "getAssetPrices C assets s =
     map (\<lambda>(value, asset). case value of
         Val (AvgItem v) \<Rightarrow> \<lparr> aa_asset = asset, aa_price = av_price v, aa_reserves = av_reserves v \<rparr>
       | _ \<Rightarrow> \<lparr> aa_asset = asset, aa_price = Undef, aa_reserves = None \<rparr>)
       (zip (cacheMget C (map getAvgPriceCacheKey assets) s) assets)"

text \<open>The prices of assets that another part of the service knows, with the reserves of their underlying assets.\<close>

record priced_dto = asset_ref +
  pd_price :: js_num
  pd_underlying :: "string option list option"

definition saveSpecificAssetPrices :: "('s, cached_price, int) cache_manager \<Rightarrow> int \<Rightarrow> priced_dto list \<Rightarrow> 's \<Rightarrow> 's" where
  "saveSpecificAssetPrices C ttl dtos s =
     cacheMset C (map (\<lambda>dto. toAvgPriceCacheItem
         \<lparr> aa_asset = refOf dto, aa_price = pd_price dto,
           aa_reserves = Some (case pd_underlying dto of
               None \<Rightarrow> []
             | Some us \<Rightarrow> foldl (\<lambda>rs u. case u of Some r \<Rightarrow> if r \<noteq> '''' then rs @ [r] else rs | None \<Rightarrow> rs) [] us) \<rparr>)
       (filter (\<lambda>dto. truthyValue (pd_price dto)) dtos)) (Some ttl) s"

section \<open>Historical prices\<close>

definition getPriceMap :: "asset_avg_price list \<Rightarrow> (string, asset_avg_price) js_map" where
  "getPriceMap prices = foldl (\<lambda>priceMap p. js_put priceMap (getPriceMapKey (aa_asset p)) p) [] prices"

record historical_price =
  hp_asset :: asset_ref
  hp_price :: js_num
  hp_timestamp :: int

definition historicalRows :: "('s, cached_price, int) cache_manager \<Rightarrow> 's \<Rightarrow> int \<Rightarrow> asset_ref list \<Rightarrow> historical_price list" where
  "historicalRows C s now trackedAssetsChunk =
     (let assetsPricesMap = getPriceMap (filter (\<lambda>p. truthyValue (aa_price p)) (getAssetPrices C trackedAssetsChunk s))
      in concat (map (\<lambda>asset. case js_get assetsPricesMap (getPriceMapKey asset) of
             None \<Rightarrow> []
           | Some p \<Rightarrow> [\<lparr> hp_asset = asset, hp_price = aa_price p, hp_timestamp = now \<rparr>]) trackedAssetsChunk))"

definition insertChunkAssetPrices ::
  "('s, cached_price, int) cache_manager \<Rightarrow> 's \<Rightarrow> int \<Rightarrow> (historical_price list \<Rightarrow> 'd \<Rightarrow> (string + unit) \<times> 'd) \<Rightarrow> asset_ref list
    \<Rightarrow> 'd \<Rightarrow> (string + unit js_item) \<times> 'd" where
  "insertChunkAssetPrices C s now insertRows trackedAssetsChunk d =
     (case insertRows (historicalRows C s now trackedAssetsChunk) d of
        (Inl e, d') \<Rightarrow> (Inl e, d')
      | (Inr _, d') \<Rightarrow> (Inr (Elem ()), d'))"

definition saveHistoricalPricesFromCurrentOnes ::
  "('s, cached_price, int) cache_manager \<Rightarrow> 's \<Rightarrow> (int \<Rightarrow> int) \<Rightarrow> (historical_price list \<Rightarrow> 'd \<Rightarrow> (string + unit) \<times> 'd) \<Rightarrow> asset_ref list
    \<Rightarrow> 'd \<Rightarrow> ((string + unit js_item list) \<times> 'd) option" where
  "saveHistoricalPricesFromCurrentOnes C s clock insertRows trackedAssets d =
     chunkRunAsync (\<lambda>chunk index. insertChunkAssetPrices C s (clock index) insertRows chunk) trackedAssets 500 d"

section \<open>What is stored\<close>

definition sources :: "('s, cached_price, int) cache_manager \<Rightarrow> 'a asset_ref_scheme \<Rightarrow> 's \<Rightarrow> source_price list" where
  "sources C a s = (case cm_get C (getSourcePricesCacheKey a) s of Val (SourceItem ap) \<Rightarrow> as_prices ap | _ \<Rightarrow> [])"

definition goodItem :: "string \<Rightarrow> cached_price js_value \<Rightarrow> bool" where
  "goodItem k v = (case v of
       Val (SourceItem ap) \<Rightarrow> getPriceMapKey (as_asset ap) = k \<and> distinct (map sp_sourceId (as_prices ap))
         \<and> (\<forall>p\<in>set (as_prices ap). truthyValue (sp_price p))
     | Val (AvgItem _) \<Rightarrow> False
     | _ \<Rightarrow> True)"

text \<open>Under the key of an asset there are prices of that asset, one of each source, and all of them are numbers other than zero.\<close>

definition prices_ok :: "('s, cached_price, int) cache_manager \<Rightarrow> 's \<Rightarrow> bool" where
  "prices_ok C s \<longleftrightarrow> (\<forall>a :: asset_ref. goodItem (getPriceMapKey a) (cm_get C (getSourcePricesCacheKey a) s))"

text \<open>The price that counts for an asset is the last one of the batch.\<close>

definition lastPrice :: "asset_price list \<Rightarrow> string \<Rightarrow> asset_price option" where
  "lastPrice prices k = find (\<lambda>p. getPriceMapKey p = k) (rev prices)"

definition savedSources :: "asset_price option \<Rightarrow> int \<Rightarrow> int \<Rightarrow> source_price list \<Rightarrow> source_price list" where
  "savedSources u expiredAt t ps =
     (case u of
        Some u \<Rightarrow> if truthyValue (ap_price u)
          then filter (\<lambda>p. sp_sourceId p \<noteq> ap_sourceId u \<and> sp_timestamp p \<ge> expiredAt) ps
            @ [\<lparr> sp_sourceId = ap_sourceId u, sp_price = ap_price u, sp_timestamp = t \<rparr>]
          else ps
      | None \<Rightarrow> ps)"

definition meanPrice :: "source_price list \<Rightarrow> js_num" where
  "meanPrice ps = (if ps = [] then Null
     else Val (num_div (foldl (\<lambda>sum p. num_add sum (numberOf (sp_price p))) (Some 0) ps) (Some (of_nat (length ps)))))"

lemma source_key: "getSourcePricesCacheKey a = ''asset_source_prices_'' @ getPriceMapKey a"
  by (simp add: getSourcePricesCacheKey_def getPriceMapKey_def)

lemma avg_key: "getAvgPriceCacheKey a = ''asset_avg_price_'' @ getPriceMapKey a"
  by (simp add: getAvgPriceCacheKey_def getPriceMapKey_def)

lemma key_refOf [simp]: "getPriceMapKey (refOf a) = getPriceMapKey a"
  by (simp add: getPriceMapKey_def refOf_def)

lemma sources_key: "getPriceMapKey a = getPriceMapKey b \<Longrightarrow> sources C a s = sources C b s"
  by (simp add: sources_def source_key)

lemma put_all_get: "js_get (foldl (\<lambda>m x. js_put m (f x) x) m xs) k
    = (case find (\<lambda>x. f x = k) (rev xs) of Some x \<Rightarrow> Some x | None \<Rightarrow> js_get m k)"
  by (induction xs rule: rev_induct) auto

lemma createPriceMap_get: "js_get (createPriceMap prices) k = lastPrice prices k"
  by (simp add: createPriceMap_def lastPrice_def put_all_get split: option.split)

lemma lastPrice_in: "i < length prices \<Longrightarrow> \<exists>u. lastPrice prices (getPriceMapKey (prices ! i)) = Some u"
  using find_NoneD[of "\<lambda>p. getPriceMapKey p = getPriceMapKey (prices ! i)" "rev prices" "prices ! i"]
  by (auto simp: lastPrice_def)

lemma lastPrice_None: "lastPrice prices k = None \<Longrightarrow> i < length prices \<Longrightarrow> getPriceMapKey (prices ! i) \<noteq> k"
  using lastPrice_in[of i prices] by auto

lemma savedSources_truthy:
  assumes "distinct (map sp_sourceId ps)" "\<forall>p\<in>set ps. truthyValue (sp_price p)"
  shows "distinct (map sp_sourceId (savedSources u e t ps)) \<and> (\<forall>p\<in>set (savedSources u e t ps). truthyValue (sp_price p))"
  using assms by (auto simp: savedSources_def distinct_map_filter split: option.split)

lemma mean_savedSources: "meanPrice (savedSources u e t ps) = meanPrice (savedSources u e t' ps)"
  by (simp add: savedSources_def meanPrice_def split: option.split)

lemma average_mean: "calculateAveragePrice ap = \<lparr> aa_asset = as_asset ap, aa_price = meanPrice (as_prices ap), aa_reserves = None \<rparr>"
  by (simp add: calculateAveragePrice_def meanPrice_def)

section \<open>Saving a batch\<close>

text \<open>The updated prices, place by place.\<close>

lemma updated_at:
  assumes "cache_store C" "prices_ok C s"
  obtains us where "updatedPricesOf prices (cacheMget C (map getSourcePricesCacheKey prices) s) e clock = Inr us"
    and "length us = length prices"
    and "\<And>i. i < length prices \<Longrightarrow> getPriceMapKey (as_asset (us ! i)) = getPriceMapKey (prices ! i)
      \<and> as_prices (us ! i) = savedSources (lastPrice prices (getPriceMapKey (prices ! i))) e (clock i) (sources C (prices ! i) s)"
proof -
  let ?cached = "cacheMget C (map getSourcePricesCacheKey prices) s"
  have cached: "?cached = map (\<lambda>p. cm_get C (getSourcePricesCacheKey p) s) prices"
    by (simp add: cache_store.cacheMget_map[OF assms(1)])
  let ?base = "\<lambda>i. case cm_get C (getSourcePricesCacheKey (prices ! i)) s of Val (SourceItem ap) \<Rightarrow> ap | _ \<Rightarrow> emptyPrices (prices ! i)"
  let ?g = "\<lambda>(i, price :: cached_price js_value). \<lparr> as_asset = as_asset (?base i),
      as_prices = savedSources (lastPrice prices (getPriceMapKey (prices ! i))) e (clock i) (sources C (prices ! i) s) \<rparr>"
  have good: "goodItem (getPriceMapKey (prices ! i)) (cm_get C (getSourcePricesCacheKey (prices ! i)) s)" for i
    using assms(2) spec[of "\<lambda>a :: asset_ref. goodItem (getPriceMapKey a) (cm_get C (getSourcePricesCacheKey a) s)" "refOf (prices ! i)"]
    by (simp add: prices_ok_def source_key)
  have base: "getPriceMapKey (as_asset (?base i)) = getPriceMapKey (prices ! i)"
    "as_prices (?base i) = sources C (prices ! i) s" for i
    using good[of i] by (auto simp: goodItem_def emptyPrices_def sources_def split: js_value.split cached_price.split)
  have entry: "cachedOrEmpty prices i (?cached ! i) = Inr (?base i)" if "i < length prices" for i
    using good[of i] that by (auto simp: cachedOrEmpty_def cached goodItem_def split: js_value.split cached_price.split)
  have step: "sum_bind (cachedOrEmpty prices i (?cached ! i)) (\<lambda>ap. updatePrices ap (createPriceMap prices) e (clock i)) = Inr (?g (i, ?cached ! i))"
    if "i < length prices" for i
    using lastPrice_in[OF that] base[of i]
    by (auto simp: entry[OF that] updatePrices_def createPriceMap_get savedSources_def)
  have "updatedPricesOf prices ?cached e clock = Inr (map ?g (enumerate 0 ?cached))"
    unfolding updatedPricesOf_def
  proof (rule sum_map_total)
    fix x assume "x \<in> set (enumerate 0 ?cached)"
    moreover obtain i price where "x = (i, price)" by fastforce
    ultimately have "x = (i, ?cached ! i)" "i < length prices" by (auto simp: cached in_set_enumerate_eq)
    then show "(case x of (index, price) \<Rightarrow> sum_bind (cachedOrEmpty prices index price)
         (\<lambda>ap. updatePrices ap (createPriceMap prices) e (clock index))) = Inr (?g x)" using step by simp
  qed
  then show thesis
    by (rule that) (auto simp: cached nth_enumerate_eq base)
qed

text \<open>What the two writes leave under a key.\<close>

lemma map_of_rev_cases:
  obtains "map_of (rev kvs) k = None" "\<And>v. (k, v) \<notin> set kvs" | v where "map_of (rev kvs) k = Some v" "(k, v) \<in> set kvs"
proof (cases "map_of (rev kvs) k")
  case None
  then have "k \<notin> fst ` set kvs" by (simp add: map_of_eq_None_iff)
  then have "(k, v) \<notin> set kvs" for v by force
  with None show ?thesis by (rule that(1))
next
  case (Some v)
  then have "(k, v) \<in> set kvs" using map_of_SomeD[OF Some] by simp
  with Some show ?thesis by (rule that(2))
qed

lemma all_defined [simp]:
  "filter (\<lambda>(k, v). v \<noteq> Undef) (map toSourcePricesCacheItem xs) = map toSourcePricesCacheItem xs"
  "filter (\<lambda>(k, v). v \<noteq> Undef) (map toAvgPriceCacheItem ys) = map toAvgPriceCacheItem ys"
  by (auto simp: filter_id_conv toSourcePricesCacheItem_def toAvgPriceCacheItem_def)

lemma cross_keys [simp]:
  "(getSourcePricesCacheKey a, v) \<notin> set (map toAvgPriceCacheItem ys)"
  "(getAvgPriceCacheKey b, v) \<notin> set (map toSourcePricesCacheItem xs)"
  by (auto simp: toAvgPriceCacheItem_def toSourcePricesCacheItem_def source_key avg_key)

lemma get_source_after:
  assumes "cache_store C"
  shows "cm_get C (getSourcePricesCacheKey a) (cacheMset C (map toAvgPriceCacheItem ys) o1 (cacheMset C (map toSourcePricesCacheItem xs) o2 s))
      = cm_get C (getSourcePricesCacheKey a) s \<and> (\<forall>ap\<in>set xs. getPriceMapKey (as_asset ap) \<noteq> getPriceMapKey a)
    \<or> (\<exists>ap\<in>set xs. getPriceMapKey (as_asset ap) = getPriceMapKey a
      \<and> cm_get C (getSourcePricesCacheKey a) (cacheMset C (map toAvgPriceCacheItem ys) o1 (cacheMset C (map toSourcePricesCacheItem xs) o2 s))
        = Val (SourceItem ap))"
proof -
  let ?k = "getSourcePricesCacheKey a"
  have avg: "map_of (rev (map toAvgPriceCacheItem ys)) ?k = None"
    using cross_keys(1)[of a _ ys] by (cases rule: map_of_rev_cases[of "map toAvgPriceCacheItem ys" ?k]) auto
  have split: "cm_get C ?k (cacheMset C (map toAvgPriceCacheItem ys) o1 (cacheMset C (map toSourcePricesCacheItem xs) o2 s))
      = (case map_of (rev (map toSourcePricesCacheItem xs)) ?k of Some v \<Rightarrow> v | None \<Rightarrow> cm_get C ?k s)"
    by (simp add: cache_store.get_cacheMset[OF assms] avg del: rev_map)
  show ?thesis
  proof (cases rule: map_of_rev_cases[of "map toSourcePricesCacheItem xs" ?k])
    case 1
    have "\<forall>ap\<in>set xs. getPriceMapKey (as_asset ap) \<noteq> getPriceMapKey a"
    proof
      fix ap assume "ap \<in> set xs"
      then have "(getSourcePricesCacheKey (as_asset ap), Val (SourceItem ap)) \<in> set (map toSourcePricesCacheItem xs)"
        unfolding toSourcePricesCacheItem_def[symmetric] by simp
      then show "getPriceMapKey (as_asset ap) \<noteq> getPriceMapKey a" using 1(2) source_key by metis
    qed
    then show ?thesis unfolding split 1(1) by simp
  next
    case (2 v)
    then obtain ap where "ap \<in> set xs" "getPriceMapKey (as_asset ap) = getPriceMapKey a" "v = Val (SourceItem ap)"
      by (auto simp: toSourcePricesCacheItem_def source_key)
    then show ?thesis unfolding split 2(1) by auto
  qed
qed

lemma get_avg_after:
  assumes "cache_store C"
  shows "cm_get C (getAvgPriceCacheKey a) (cacheMset C (map toAvgPriceCacheItem ys) o1 (cacheMset C (map toSourcePricesCacheItem xs) o2 s))
      = cm_get C (getAvgPriceCacheKey a) s \<and> (\<forall>m\<in>set ys. getPriceMapKey (aa_asset m) \<noteq> getPriceMapKey a)
    \<or> (\<exists>m\<in>set ys. getPriceMapKey (aa_asset m) = getPriceMapKey a
      \<and> cm_get C (getAvgPriceCacheKey a) (cacheMset C (map toAvgPriceCacheItem ys) o1 (cacheMset C (map toSourcePricesCacheItem xs) o2 s))
        = Val (AvgItem \<lparr> av_price = aa_price m, av_reserves = aa_reserves m \<rparr>))"
proof -
  let ?k = "getAvgPriceCacheKey a"
  have src: "map_of (rev (map toSourcePricesCacheItem xs)) ?k = None"
    using cross_keys(2)[of a _ xs] by (cases rule: map_of_rev_cases[of "map toSourcePricesCacheItem xs" ?k]) auto
  have split: "cm_get C ?k (cacheMset C (map toAvgPriceCacheItem ys) o1 (cacheMset C (map toSourcePricesCacheItem xs) o2 s))
      = (case map_of (rev (map toAvgPriceCacheItem ys)) ?k of Some v \<Rightarrow> v | None \<Rightarrow> cm_get C ?k s)"
    by (simp add: cache_store.get_cacheMset[OF assms] src del: rev_map split: option.split)
  show ?thesis
  proof (cases rule: map_of_rev_cases[of "map toAvgPriceCacheItem ys" ?k])
    case 1
    have "\<forall>m\<in>set ys. getPriceMapKey (aa_asset m) \<noteq> getPriceMapKey a"
    proof
      fix m assume "m \<in> set ys"
      then have "(getAvgPriceCacheKey (aa_asset m), Val (AvgItem \<lparr> av_price = aa_price m, av_reserves = aa_reserves m \<rparr>)) \<in> set (map toAvgPriceCacheItem ys)"
        unfolding toAvgPriceCacheItem_def[symmetric] by simp
      then show "getPriceMapKey (aa_asset m) \<noteq> getPriceMapKey a" using 1(2) avg_key by metis
    qed
    then show ?thesis unfolding split 1(1) by simp
  next
    case (2 v)
    then obtain m where "m \<in> set ys" "getPriceMapKey (aa_asset m) = getPriceMapKey a"
        "v = Val (AvgItem \<lparr> av_price = aa_price m, av_reserves = aa_reserves m \<rparr>)"
      by (auto simp: toAvgPriceCacheItem_def avg_key)
    then show ?thesis unfolding split 2(1) by auto
  qed
qed

text \<open>The state after a batch, from the updated prices of its places.\<close>

definition stateAfter :: "('s, cached_price, int) cache_manager \<Rightarrow> int \<Rightarrow> stored_prices list \<Rightarrow> 's \<Rightarrow> 's" where
  "stateAfter C ttl us s =
     cacheMset C (map toAvgPriceCacheItem (filter (\<lambda>a. truthyValue (aa_price a)) (map calculateAveragePrice us))) (Some ttl)
       (cacheMset C (map toSourcePricesCacheItem (filter (\<lambda>ap. length (as_prices ap) > 0) us)) (Some ttl) s)"

lemma save_run:
  "saveAssetPrices C ttl now clock prices s
     = (case updatedPricesOf prices (cacheMget C (map getSourcePricesCacheKey prices) s) (now - ttl * 1000) clock of
          Inl e \<Rightarrow> (Inl e, s) | Inr us \<Rightarrow> (Inr (), stateAfter C ttl us s))"
  by (simp add: saveAssetPrices_def stateAfter_def split: sum.split)

definition updatedTo :: "('s, cached_price, int) cache_manager \<Rightarrow> 's \<Rightarrow> asset_price list \<Rightarrow> int \<Rightarrow> (nat \<Rightarrow> int) \<Rightarrow> stored_prices list \<Rightarrow> bool" where
  "updatedTo C s prices e clock us \<longleftrightarrow> length us = length prices
    \<and> (\<forall>i < length prices. getPriceMapKey (as_asset (us ! i)) = getPriceMapKey (prices ! i)
      \<and> as_prices (us ! i) = savedSources (lastPrice prices (getPriceMapKey (prices ! i))) e (clock i) (sources C (prices ! i) s))"

lemma updatedTo_at:
  assumes "updatedTo C s prices e clock us" "u \<in> set us" "getPriceMapKey (as_asset u) = getPriceMapKey a"
  obtains i where "i < length prices" "getPriceMapKey (prices ! i) = getPriceMapKey a" "u = us ! i"
    "as_prices u = savedSources (lastPrice prices (getPriceMapKey a)) e (clock i) (sources C a s)"
proof -
  obtain i where i: "i < length prices" "u = us ! i" using assms(1,2) by (auto simp: updatedTo_def in_set_conv_nth)
  have k: "getPriceMapKey (prices ! i) = getPriceMapKey a" using assms(1,3) i by (simp add: updatedTo_def)
  show thesis
    by (rule that[OF i(1) k i(2)]) (use assms(1) i k sources_key[OF k, of C s] in \<open>simp add: updatedTo_def\<close>)
qed

lemma updatedTo_last:
  assumes "updatedTo C s prices e clock us" "lastPrice prices (getPriceMapKey a) = Some p"
  obtains u where "u \<in> set us" "getPriceMapKey (as_asset u) = getPriceMapKey a"
proof -
  have "p \<in> set prices" "getPriceMapKey p = getPriceMapKey a" using assms(2) find_SomeD unfolding lastPrice_def by fastforce+
  then obtain i where i: "i < length prices" "getPriceMapKey (prices ! i) = getPriceMapKey a" by (metis in_set_conv_nth)
  show thesis by (rule that[of "us ! i"]) (use assms(1) i in \<open>simp_all add: updatedTo_def\<close>)
qed

lemma stored_after:
  assumes "cache_store C" "prices_ok C s" "updatedTo C s prices e clock us"
  shows "goodItem (getPriceMapKey a) (cm_get C (getSourcePricesCacheKey a) (stateAfter C ttl us s))
    \<and> (\<exists>t. (lastPrice prices (getPriceMapKey a) \<noteq> None
        \<longrightarrow> t \<in> clock ` {i. i < length prices \<and> getPriceMapKey (prices ! i) = getPriceMapKey a})
      \<and> sources C a (stateAfter C ttl us s) = savedSources (lastPrice prices (getPriceMapKey a)) e t (sources C (a :: asset_ref) s))"
proof -
  let ?xs = "filter (\<lambda>ap. length (as_prices ap) > 0) us" and ?s' = "stateAfter C ttl us s"
  have good: "goodItem (getPriceMapKey a) (cm_get C (getSourcePricesCacheKey a) s)"
    using assms(2) by (simp add: prices_ok_def)
  have olds: "distinct (map sp_sourceId (sources C a s)) \<and> (\<forall>p\<in>set (sources C a s). truthyValue (sp_price p))"
    using good by (auto simp: goodItem_def sources_def split: js_value.splits cached_price.splits)
  consider (kept) "cm_get C (getSourcePricesCacheKey a) ?s' = cm_get C (getSourcePricesCacheKey a) s"
      "\<forall>ap\<in>set ?xs. getPriceMapKey (as_asset ap) \<noteq> getPriceMapKey a"
    | (new) ap where "ap \<in> set ?xs" "getPriceMapKey (as_asset ap) = getPriceMapKey a"
      "cm_get C (getSourcePricesCacheKey a) ?s' = Val (SourceItem ap)"
    using get_source_after[OF assms(1), of a _ "Some ttl" ?xs "Some ttl" s] unfolding stateAfter_def by blast
  then show ?thesis
  proof cases
    case kept
    have same: "sources C a ?s' = sources C a s" by (simp add: sources_def kept(1))
    show ?thesis
    proof (cases "lastPrice prices (getPriceMapKey a)")
      case None
      then show ?thesis using good by (simp add: kept(1) same savedSources_def)
    next
      case (Some u)
      obtain v where v: "v \<in> set us" "getPriceMapKey (as_asset v) = getPriceMapKey a" using updatedTo_last[OF assms(3) Some] .
      obtain i where i: "i < length prices" "getPriceMapKey (prices ! i) = getPriceMapKey a"
        "as_prices v = savedSources (lastPrice prices (getPriceMapKey a)) e (clock i) (sources C a s)" using updatedTo_at[OF assms(3) v] .
      have empty: "savedSources (lastPrice prices (getPriceMapKey a)) e (clock i) (sources C a s) = []" using kept(2) v i(3) by auto
      then have "sources C a s = []" by (auto simp: savedSources_def Some split: if_splits)
      with empty show ?thesis using i good by (auto simp: kept(1) same intro!: exI[of _ "clock i"])
    qed
  next
    case new
    obtain i where i: "i < length prices" "getPriceMapKey (prices ! i) = getPriceMapKey a"
      "as_prices ap = savedSources (lastPrice prices (getPriceMapKey a)) e (clock i) (sources C a s)"
      using updatedTo_at[OF assms(3) _ new(2)] new(1) by auto
    then show ?thesis using new savedSources_truthy[of "sources C a s"] olds
      by (auto simp: goodItem_def sources_def intro!: exI[of _ "clock i"])
  qed
qed

lemma mean_after:
  assumes "cache_store C" "prices_ok C s" "updatedTo C s prices e clock us"
  shows "getAssetPrices C [a] (stateAfter C ttl us s)
    = (if lastPrice prices (getPriceMapKey a) \<noteq> None \<and> truthyValue (meanPrice (sources C a (stateAfter C ttl us s)))
       then [\<lparr> aa_asset = a, aa_price = meanPrice (sources C a (stateAfter C ttl us s)), aa_reserves = None \<rparr>] else getAssetPrices C [a] s)"
proof -
  let ?ys = "filter (\<lambda>a. truthyValue (aa_price a)) (map calculateAveragePrice us)" and ?s' = "stateAfter C ttl us s"
  have mean: "meanPrice (as_prices u) = meanPrice (sources C a ?s')" if "u \<in> set us" "getPriceMapKey (as_asset u) = getPriceMapKey a" for u
    using updatedTo_at[OF assms(3) that] stored_after[OF assms, of a ttl] by (metis mean_savedSources)
  have answer: "getAssetPrices C [a] s = [case cm_get C (getAvgPriceCacheKey a) s of
         Val (AvgItem v) \<Rightarrow> \<lparr> aa_asset = a, aa_price = av_price v, aa_reserves = av_reserves v \<rparr>
       | _ \<Rightarrow> \<lparr> aa_asset = a, aa_price = Undef, aa_reserves = None \<rparr>]" for s
    by (simp add: getAssetPrices_def cache_store.cacheMget_map[OF assms(1)])
  consider (kept) "cm_get C (getAvgPriceCacheKey a) ?s' = cm_get C (getAvgPriceCacheKey a) s"
      "\<forall>m\<in>set ?ys. getPriceMapKey (aa_asset m) \<noteq> getPriceMapKey a"
    | (new) m where "m \<in> set ?ys" "getPriceMapKey (aa_asset m) = getPriceMapKey a"
      "cm_get C (getAvgPriceCacheKey a) ?s' = Val (AvgItem \<lparr> av_price = aa_price m, av_reserves = aa_reserves m \<rparr>)"
    using get_avg_after[OF assms(1), of a ?ys "Some ttl" _ "Some ttl" s] unfolding stateAfter_def by blast
  then show ?thesis
  proof cases
    case kept
    have "\<not> truthyValue (meanPrice (sources C a ?s'))" if last: "lastPrice prices (getPriceMapKey a) = Some p" for p
    proof -
      obtain u where u: "u \<in> set us" "getPriceMapKey (as_asset u) = getPriceMapKey a" using updatedTo_last[OF assms(3) last] .
      then show ?thesis using kept(2) mean[OF u] by (force simp: average_mean)
    qed
    then show ?thesis by (auto simp: answer kept(1))
  next
    case new
    then obtain u where u: "u \<in> set us" "m = calculateAveragePrice u" "truthyValue (aa_price m)" by auto
    have k: "getPriceMapKey (as_asset u) = getPriceMapKey a" using new(2) u(2) by (simp add: average_mean)
    have "lastPrice prices (getPriceMapKey a) \<noteq> None" using updatedTo_at[OF assms(3) u(1) k] lastPrice_None by metis
    then show ?thesis using u mean[OF u(1) k] by (simp add: answer new(3) average_mean)
  qed
qed

lemma save_updated:
  assumes "cache_store C" "prices_ok C s"
  obtains us where "saveAssetPrices C ttl now clock prices s = (Inr (), stateAfter C ttl us s)"
    "updatedTo C s prices (now - ttl * 1000) clock us"
proof -
  obtain us where "updatedPricesOf prices (cacheMget C (map getSourcePricesCacheKey prices) s) (now - ttl * 1000) clock = Inr us"
    and "updatedTo C s prices (now - ttl * 1000) clock us"
    unfolding updatedTo_def by (rule updated_at[OF assms, of prices "now - ttl * 1000" clock]) blast
  then show thesis using that by (simp add: save_run)
qed

text \<open>C19: When the cache holds, for every asset, prices other than zero with one of each source, saving a batch succeeds and keeps it
  so.  For an asset whose last price in the batch is a number other than zero, that price replaces the one of its source, the prices
  that are too old are dropped, and the others stay.  Of all other assets nothing changes: without such a price even the prices that
  are too old stay.\<close>

theorem saved_prices:
  assumes "cache_store C" "prices_ok C s"
  shows "\<exists>s'. saveAssetPrices C ttl now clock prices s = (Inr (), s') \<and> prices_ok C s'
    \<and> (\<forall>a :: asset_ref. \<exists>t. (lastPrice prices (getPriceMapKey a) \<noteq> None
        \<longrightarrow> t \<in> clock ` {i. i < length prices \<and> getPriceMapKey (prices ! i) = getPriceMapKey a})
      \<and> sources C a s' = savedSources (lastPrice prices (getPriceMapKey a)) (now - ttl * 1000) t (sources C a s))"
proof -
  obtain us where run: "saveAssetPrices C ttl now clock prices s = (Inr (), stateAfter C ttl us s)"
    and us: "updatedTo C s prices (now - ttl * 1000) clock us" using save_updated[OF assms] .
  note after = stored_after[OF assms us, of _ ttl]
  then have "prices_ok C (stateAfter C ttl us s)" by (simp add: prices_ok_def)
  with run after show ?thesis by blast
qed

definition demoAsset :: asset_ref where
  "demoAsset = \<lparr> ar_chainId = 1, ar_address = ''0xA'' \<rparr>"

definition demoPrices :: "(string, cached_price js_value) js_map" where
  "demoPrices = [(''asset_source_prices_1_0xa'', Val (SourceItem \<lparr> as_asset = demoAsset, as_prices =
     [\<lparr> sp_sourceId = 1, sp_price = Val (Some 2), sp_timestamp = 50 \<rparr>, \<lparr> sp_sourceId = 2, sp_price = Val (Some 3), sp_timestamp = 5000 \<rparr>] \<rparr>))]"

definition demoBatch :: "asset_price list" where
  "demoBatch = [\<lparr> ar_chainId = 1, ar_address = ''0xa'', ap_sourceId = 3, ap_price = Val (Some 5) \<rparr>]"

lemma demoPrices_ok: "prices_ok (memory_cache :: (_, _, int) cache_manager) demoPrices"
proof -
  have key: "getPriceMapKey demoAsset = ''1_0xa''" by code_simp
  have "goodItem k (memory_get (''asset_source_prices_'' @ k) demoPrices)" for k
    using key by (simp add: memory_get_def demoPrices_def goodItem_def truthy_num_def)
  then show ?thesis by (simp add: prices_ok_def memory_cache_def source_key)
qed

theorem saved_prices_witness:
  "\<exists>s'. saveAssetPrices memory_cache 1 5500 (\<lambda>i. 5600 + int i) demoBatch demoPrices = (Inr (), s')
    \<and> sources (memory_cache :: (_, _, int) cache_manager) demoAsset s'
      = [\<lparr> sp_sourceId = 2, sp_price = Val (Some 3), sp_timestamp = 5000 \<rparr>, \<lparr> sp_sourceId = 3, sp_price = Val (Some 5), sp_timestamp = 5600 \<rparr>]"
proof -
  have key: "getPriceMapKey demoAsset = ''1_0xa''" "getPriceMapKey (demoBatch ! 0) = ''1_0xa''" by code_simp+
  have old: "sources (memory_cache :: (_, _, int) cache_manager) demoAsset demoPrices =
      [\<lparr> sp_sourceId = 1, sp_price = Val (Some 2), sp_timestamp = 50 \<rparr>, \<lparr> sp_sourceId = 2, sp_price = Val (Some 3), sp_timestamp = 5000 \<rparr>]"
    by (simp add: sources_def source_key key memory_cache_def memory_get_def demoPrices_def)
  have last: "lastPrice demoBatch ''1_0xa'' = Some (demoBatch ! 0)" using key(2) by (simp add: lastPrice_def demoBatch_def)
  have times: "(\<lambda>i. 5600 + int i) ` {i. i < length demoBatch \<and> getPriceMapKey (demoBatch ! i) = getPriceMapKey demoAsset} \<subseteq> {5600}"
    by (auto simp: demoBatch_def)
  let ?C = "memory_cache :: (_, _, int) cache_manager"
  from saved_prices[OF memory.cache_store_axioms demoPrices_ok, of 1 5500 "\<lambda>i. 5600 + int i" demoBatch] obtain s' where
      run: "saveAssetPrices ?C 1 5500 (\<lambda>i. 5600 + int i) demoBatch demoPrices = (Inr (), s')"
    and all: "\<forall>a :: asset_ref. \<exists>t. (lastPrice demoBatch (getPriceMapKey a) \<noteq> None
        \<longrightarrow> t \<in> (\<lambda>i. 5600 + int i) ` {i. i < length demoBatch \<and> getPriceMapKey (demoBatch ! i) = getPriceMapKey a})
      \<and> sources ?C a s' = savedSources (lastPrice demoBatch (getPriceMapKey a)) (5500 - 1 * 1000) t (sources ?C a demoPrices)"
    by blast
  obtain t where t: "lastPrice demoBatch (getPriceMapKey demoAsset) \<noteq> None
        \<longrightarrow> t \<in> (\<lambda>i. 5600 + int i) ` {i. i < length demoBatch \<and> getPriceMapKey (demoBatch ! i) = getPriceMapKey demoAsset}"
    and new: "sources ?C demoAsset s' = savedSources (lastPrice demoBatch (getPriceMapKey demoAsset)) (5500 - 1 * 1000) t (sources ?C demoAsset demoPrices)"
    using spec[OF all, of demoAsset] by blast
  have "t = 5600" using t times by (auto simp: key last)
  then have "sources ?C demoAsset s' = [\<lparr> sp_sourceId = 2, sp_price = Val (Some 3), sp_timestamp = 5000 \<rparr>,
      \<lparr> sp_sourceId = 3, sp_price = Val (Some 5), sp_timestamp = 5600 \<rparr>]"
    using new unfolding key(1) last old by (simp add: savedSources_def demoBatch_def truthy_num_def)
  with run show ?thesis by (intro exI[of _ s'] conjI)
qed

text \<open>After a batch, an asset of the batch is answered with the mean of the prices stored for it, unless that mean is zero; every
  other asset is answered as before.\<close>

theorem mean_answered:
  assumes "cache_store C" "prices_ok C s" "saveAssetPrices C ttl now clock prices s = (Inr (), s')"
  shows "getAssetPrices C [a] s' = (if lastPrice prices (getPriceMapKey a) \<noteq> None \<and> truthyValue (meanPrice (sources C a s'))
    then [\<lparr> aa_asset = a, aa_price = meanPrice (sources C a s'), aa_reserves = None \<rparr>] else getAssetPrices C [a] s)"
proof -
  obtain us where run: "saveAssetPrices C ttl now clock prices s = (Inr (), stateAfter C ttl us s)"
    and us: "updatedTo C s prices (now - ttl * 1000) clock us" using save_updated[OF assms(1,2)] .
  have "s' = stateAfter C ttl us s" using run assms(3) by simp
  then show ?thesis using mean_after[OF assms(1,2) us] by simp
qed

theorem mean_answered_witness:
  "\<exists>s'. saveAssetPrices memory_cache 1 5500 (\<lambda>i. 5600 + int i) demoBatch demoPrices = (Inr (), s')
    \<and> getAssetPrices (memory_cache :: (_, _, int) cache_manager) [demoAsset] s' = [\<lparr> aa_asset = demoAsset, aa_price = Val (Some 4), aa_reserves = None \<rparr>]"
proof -
  let ?C = "memory_cache :: (_, _, int) cache_manager"
  let ?s = "snd (saveAssetPrices ?C 1 5500 (\<lambda>i. 5600 + int i) demoBatch demoPrices)"
  have run: "saveAssetPrices ?C 1 5500 (\<lambda>i. 5600 + int i) demoBatch demoPrices = (Inr (), ?s)" by code_simp
  have "lastPrice demoBatch (getPriceMapKey demoAsset) \<noteq> None" "meanPrice (sources ?C demoAsset ?s) = Val (Some 4)" by code_simp+
  then have "getAssetPrices ?C [demoAsset] ?s = [\<lparr> aa_asset = demoAsset, aa_price = Val (Some 4), aa_reserves = None \<rparr>]"
    using mean_answered[OF memory.cache_store_axioms demoPrices_ok run, of demoAsset] by (simp add: truthy_num_def)
  with run show ?thesis by (intro exI[of _ ?s] conjI)
qed

section \<open>Prices that are known elsewhere\<close>

lemma map_of_rev_find: "map_of (rev (map (\<lambda>d. (g d, h d)) xs)) k = map_option h (find (\<lambda>d. g d = k) (rev xs))"
  by (induction xs rule: rev_induct) auto

definition currentPrice :: "('s, cached_price, int) cache_manager \<Rightarrow> 's \<Rightarrow> 'a asset_ref_scheme \<Rightarrow> js_num" where
  "currentPrice C s a = (case cm_get C (getAvgPriceCacheKey a) s of Val (AvgItem v) \<Rightarrow> av_price v | _ \<Rightarrow> Undef)"

lemma getAssetPrices_current:
  assumes "cache_store C"
  shows "map (\<lambda>p. (aa_asset p, aa_price p)) (getAssetPrices C assets s) = map (\<lambda>a. (a, currentPrice C s a)) assets"
proof -
  have "zip (cacheMget C (map getAvgPriceCacheKey assets) s) assets = map (\<lambda>a. (cm_get C (getAvgPriceCacheKey a) s, a)) assets"
    by (simp add: cache_store.cacheMget_map[OF assms] zip_map1 zip_same_conv_map)
  then show ?thesis by (simp add: getAssetPrices_def currentPrice_def split: js_value.split cached_price.split)
qed

lemma specific_prices:
  assumes "cache_store C"
  shows "currentPrice C (saveSpecificAssetPrices C ttl dtos s) a
    = (case find (\<lambda>d. getPriceMapKey d = getPriceMapKey a) (rev (filter (\<lambda>d. truthyValue (pd_price d)) dtos)) of
         Some d \<Rightarrow> pd_price d | None \<Rightarrow> currentPrice C s a)"
proof -
  let ?kv = "\<lambda>dto. toAvgPriceCacheItem \<lparr> aa_asset = refOf dto, aa_price = pd_price dto,
           aa_reserves = Some (case pd_underlying dto of None \<Rightarrow> []
             | Some us \<Rightarrow> foldl (\<lambda>rs u. case u of Some r \<Rightarrow> if r \<noteq> '''' then rs @ [r] else rs | None \<Rightarrow> rs) [] us) \<rparr>"
  let ?dtos = "filter (\<lambda>d. truthyValue (pd_price d)) dtos"
  have "filter (\<lambda>(k, v). v \<noteq> Undef) (map ?kv ?dtos) = map ?kv ?dtos" by (auto simp: filter_id_conv toAvgPriceCacheItem_def)
  moreover have "map_of (rev (map ?kv ?dtos)) (getAvgPriceCacheKey a)
      = map_option (\<lambda>d. snd (?kv d)) (find (\<lambda>d. getPriceMapKey d = getPriceMapKey a) (rev ?dtos))"
    using map_of_rev_find[of "\<lambda>d. fst (?kv d)" "\<lambda>d. snd (?kv d)" ?dtos "getAvgPriceCacheKey a"]
    by (simp add: toAvgPriceCacheItem_def avg_key del: rev_map)
  ultimately show ?thesis
    unfolding currentPrice_def saveSpecificAssetPrices_def cache_store.get_cacheMset[OF assms]
    by (auto simp: toAvgPriceCacheItem_def split: option.split)
qed

section \<open>The table of historical prices\<close>

lemma getPriceMap_current:
  assumes "cache_store C" "a \<in> set refs"
  shows "js_get (getPriceMap (filter (\<lambda>p. truthyValue (aa_price p)) (getAssetPrices C refs s))) (getPriceMapKey a) = None
      \<and> \<not> truthyValue (currentPrice C s a)
    \<or> (\<exists>p. js_get (getPriceMap (filter (\<lambda>p. truthyValue (aa_price p)) (getAssetPrices C refs s))) (getPriceMapKey a) = Some p
      \<and> aa_price p = currentPrice C s a \<and> truthyValue (currentPrice C s a))"
proof -
  let ?ps = "filter (\<lambda>p. truthyValue (aa_price p)) (getAssetPrices C refs s)"
  let ?found = "find (\<lambda>p. getPriceMapKey (aa_asset p) = getPriceMapKey a) (rev ?ps)"
  have price: "aa_price p = currentPrice C s (aa_asset p)" "aa_asset p \<in> set refs" if "p \<in> set (getAssetPrices C refs s)" for p
    using arg_cong[OF getAssetPrices_current[OF assms(1), of refs s], of set] that by auto
  obtain q where q: "q \<in> set (getAssetPrices C refs s)" "aa_asset q = a"
  proof -
    have "(a, currentPrice C s a) \<in> set (map (\<lambda>p. (aa_asset p, aa_price p)) (getAssetPrices C refs s))"
      unfolding getAssetPrices_current[OF assms(1)] using assms(2) by simp
    then show thesis using that by auto
  qed
  have got: "js_get (getPriceMap ?ps) (getPriceMapKey a) = ?found"
    by (simp add: getPriceMap_def put_all_get split: option.split)
  show ?thesis
  proof (cases ?found)
    case None
    then have "\<not> truthyValue (aa_price q)" using find_NoneD[OF None, of q] q by auto
    then show ?thesis using None got price(1)[OF q(1)] q(2) by simp
  next
    case (Some p)
    then have p: "p \<in> set ?ps" "getPriceMapKey (aa_asset p) = getPriceMapKey a" using find_SomeD[OF Some] by auto
    then have "aa_price p = currentPrice C s a" using price(1)[of p] by (simp add: currentPrice_def avg_key)
    then show ?thesis using Some got p(1) by auto
  qed
qed

abbreviation priced :: "('s, cached_price, int) cache_manager \<Rightarrow> 's \<Rightarrow> asset_ref list \<Rightarrow> (asset_ref \<times> js_num) list" where
  "priced C s assets \<equiv> map (\<lambda>a. (a, currentPrice C s a)) (filter (\<lambda>a. truthyValue (currentPrice C s a)) assets)"

lemma historicalRows_priced:
  assumes "cache_store C"
  shows "map (\<lambda>r. (hp_asset r, hp_price r)) (historicalRows C s now refs) = priced C s refs"
proof -
  let ?m = "getPriceMap (filter (\<lambda>p. truthyValue (aa_price p)) (getAssetPrices C refs s))"
  let ?row = "\<lambda>a. case js_get ?m (getPriceMapKey a) of None \<Rightarrow> []
      | Some p \<Rightarrow> [\<lparr> hp_asset = a, hp_price = aa_price p, hp_timestamp = now \<rparr>]"
  have one: "map (\<lambda>r. (hp_asset r, hp_price r)) (?row a) = (if truthyValue (currentPrice C s a) then [(a, currentPrice C s a)] else [])"
    if "a \<in> set refs" for a
    using getPriceMap_current[OF assms that, of s] by auto
  have "map (\<lambda>r. (hp_asset r, hp_price r)) (concat (map ?row xs)) = priced C s xs" if "set xs \<subseteq> set refs" for xs
    using that by (induction xs) (simp_all add: one)
  then show ?thesis by (simp add: historicalRows_def)
qed

lemma insert_pieces:
  assumes "cache_store C"
  shows "\<exists>rows. runPieces (\<lambda>chunk index. insertChunkAssetPrices C s (clock index) (\<lambda>rows d. (Inr (), d @ rows)) chunk) ps d
      = (Inr (replicate (length ps) (Elem ())), d @ rows)
    \<and> map (\<lambda>r. (hp_asset r, hp_price r)) rows = priced C s (concat (map fst ps))"
proof (induction ps arbitrary: d)
  case (Cons p ps)
  obtain c i where p: "p = (c, i)" by (cases p)
  show ?case using Cons.IH[of "d @ historicalRows C s (clock (int i)) c"] historicalRows_priced[OF assms, of s "clock (int i)" c]
    by (auto simp: p insertChunkAssetPrices_def)
qed simp

text \<open>The historical prices of all tracked assets are written in the order of the assets: one row for every asset with a current
  price other than zero, holding that price, and none for the others, however the assets fall into chunks.\<close>

theorem historical_rows:
  assumes "cache_store C"
  shows "\<exists>rows result. saveHistoricalPricesFromCurrentOnes C s clock (\<lambda>rows d. (Inr (), d @ rows)) trackedAssets d = Some (Inr result, d @ rows)
    \<and> map (\<lambda>r. (hp_asset r, hp_price r)) rows
      = map (\<lambda>a. (a, currentPrice C s a)) (filter (\<lambda>a. truthyValue (currentPrice C s a)) trackedAssets)"
proof -
  have pos: "0 < (500 :: nat)" by simp
  obtain ps where ps: "concat (map fst ps) = trackedAssets"
    and run: "saveHistoricalPricesFromCurrentOnes C s clock (\<lambda>rows d. (Inr (), d @ rows)) trackedAssets d
      = Some (case runPieces (\<lambda>chunk index. insertChunkAssetPrices C s (clock index) (\<lambda>rows d. (Inr (), d @ rows)) chunk) ps d of
          (Inl e, s') \<Rightarrow> (Inl e, s') | (Inr rs, s') \<Rightarrow> (Inr (concat (map spread rs)), s'))"
    using chunkRunAsync_partition[OF pos, of trackedAssets
        "\<lambda>chunk index. insertChunkAssetPrices C s (clock index) (\<lambda>rows d. (Inr (), d @ rows)) chunk" d]
    by (auto simp: saveHistoricalPricesFromCurrentOnes_def)
  show ?thesis using insert_pieces[OF assms, of s clock ps d] by (auto simp: run ps)
qed

theorem historical_rows_witness:
  "\<exists>rows result. saveHistoricalPricesFromCurrentOnes memory_cache
      [(''asset_avg_price_1_0xa'', Val (AvgItem \<lparr> av_price = Val (Some 4), av_reserves = None \<rparr>))] (\<lambda>i. i) (\<lambda>rows d. (Inr (), d @ rows))
      [demoAsset, \<lparr> ar_chainId = 1, ar_address = ''0xb'' \<rparr>] [] = Some (Inr result, rows)
    \<and> map (\<lambda>r. (hp_asset r, hp_price r)) rows = [(demoAsset, Val (Some 4))]"
proof -
  let ?s = "[(''asset_avg_price_1_0xa'', Val (AvgItem \<lparr> av_price = Val (Some 4), av_reserves = None \<rparr>))]"
  let ?as = "[demoAsset, \<lparr> ar_chainId = 1, ar_address = ''0xb'' \<rparr>]"
  have "map (\<lambda>a. (a, currentPrice memory_cache ?s a)) (filter (\<lambda>a. truthyValue (currentPrice memory_cache ?s a)) ?as) = [(demoAsset, Val (Some 4))]"
    by code_simp
  then show ?thesis using historical_rows[OF memory.cache_store_axioms, of ?s "\<lambda>i. i" ?as "[]"] by simp
qed

end
