(* ===== verification/PoolPrices.thy ===== *)
theory PoolPrices
  imports AssetPrices MasterChef Balances
begin

text \<open>
  \<open>apps/assets/src/modules/prices/strategies/univ2-network.strategy.ts\<close> and \<open>common/types/asset-bag.ts\<close>: prices of assets from the
  reserves of pools with two tokens.  A pool with a token of known price tells the price of the other one; the prices that several
  pools tell are weighted by the capital of the pools.  The table of pools and the table of assets are parameters; the prices of the
  known tokens come from theory \<open>AssetPrices\<close> and the reserves from the node through theory \<open>Multicall\<close>.
\<close>

section \<open>Data\<close>

record asset_info =
  in_address :: string
  in_decimals :: nat

record asset_bag =
  bg_prices :: "(string, js_num) js_map"
  bg_assets :: "(string, asset_info) js_map"

definition setBagPrice :: "string \<Rightarrow> js_num \<Rightarrow> asset_bag \<Rightarrow> asset_bag" where
  "setBagPrice address price bag = bag\<lparr> bg_prices := js_put (bg_prices bag) address price \<rparr>"

definition getBagPrice :: "asset_bag \<Rightarrow> string \<Rightarrow> js_num" where
  "getBagPrice bag address = (case js_get (bg_prices bag) address of Some p \<Rightarrow> p | None \<Rightarrow> Undef)"

definition hasBagPrice :: "asset_bag \<Rightarrow> string \<Rightarrow> bool" where
  "hasBagPrice bag address = (case numberOf (getBagPrice bag address) of Some p \<Rightarrow> p > 0 | None \<Rightarrow> False)"

definition setBagAssets :: "asset_info list \<Rightarrow> asset_bag \<Rightarrow> asset_bag" where
  "setBagAssets infos bag = bag\<lparr> bg_assets := foldl (\<lambda>m info. js_put m (in_address info) info) (bg_assets bag) infos \<rparr>"

definition getBagAsset :: "asset_bag \<Rightarrow> string \<Rightarrow> asset_info option" where
  "getBagAsset bag address = js_get (bg_assets bag) address"

definition hasBagAsset :: "asset_bag \<Rightarrow> string \<Rightarrow> bool" where
  "hasBagAsset bag address \<longleftrightarrow> getBagAsset bag address \<noteq> None"

record asset_pair =
  pr_address :: string
  pr_token0 :: string
  pr_token1 :: string

record pool_price_config =
  uc_chainId :: int
  uc_factory :: string
  uc_wrappedCoin :: string
  uc_stableCoins :: "string list"
  uc_proxyCoins :: "string list option"
  uc_minCap :: "rat option"

record pair_price =
  pp_cap :: js_number
  pp_asset :: string
  pp_price :: js_number

section \<open>Known tokens\<close>

definition getBaseAssetsAddresses :: "address_lib \<Rightarrow> pool_price_config \<Rightarrow> string list" where
  "getBaseAssetsAddresses L config =
     map (formatAddress L) ([uc_wrappedCoin config] @ uc_stableCoins config @ (case uc_proxyCoins config of Some ps \<Rightarrow> ps | None \<Rightarrow> []))"

definition loadBaseAssetsPricesIntoBag ::
  "address_lib \<Rightarrow> ('s, cached_price, int) cache_manager \<Rightarrow> 's \<Rightarrow> pool_price_config \<Rightarrow> asset_bag \<Rightarrow> asset_bag" where
  "loadBaseAssetsPricesIntoBag L C s config bag =
     (let prices = getAssetPrices C (map (\<lambda>address. \<lparr> ar_chainId = uc_chainId config, ar_address = address \<rparr>) (getBaseAssetsAddresses L config)) s;
          bag1 = foldl (\<lambda>b p. setBagPrice (ar_address (aa_asset p)) (aa_price p) b) bag prices
      in foldl (\<lambda>b address. if truthyValue (getBagPrice b address) then b else setBagPrice address (Val (Some 1)) b)
           bag1 (map (formatAddress L) (uc_stableCoins config)))"

definition getBaseAssetWithPrices :: "address_lib \<Rightarrow> asset_bag \<Rightarrow> pool_price_config \<Rightarrow> string list" where
  "getBaseAssetWithPrices L bag config = filter (hasBagPrice bag) (getBaseAssetsAddresses L config)"

definition uniqueAssetsOf :: "string list \<Rightarrow> asset_pair list \<Rightarrow> string list" where
  "uniqueAssetsOf baseAssets pairs =
     foldl (\<lambda>u pair. set_add (set_add u (pr_token0 pair)) (pr_token1 pair)) baseAssets pairs"

section \<open>The price in one pool\<close>

definition json_pair :: "asset_pair \<Rightarrow> string" where
  "json_pair pair = concat [''{'', json_string ''address'', '':'', json_string (pr_address pair), '','', json_string ''token0'', '':'',
     json_string (pr_token0 pair), '','', json_string ''token1'', '':'', json_string (pr_token1 pair), ''}'']"

text \<open>Reading a field of the answer of the contract: there is nothing to read from without an answer.\<close>

definition reserveField :: "output_data \<Rightarrow> string \<Rightarrow> sol_value" where
  "reserveField out name = (case out of Fields m \<Rightarrow> readResult m (ByName name) | Single _ \<Rightarrow> Missing)"

definition decimalsOf :: "asset_bag \<Rightarrow> string \<Rightarrow> string + nat" where
  "decimalsOf bag address = (case getBagAsset bag address of Some info \<Rightarrow> Inr (in_decimals info) | None \<Rightarrow> Inl ''TypeError'')"

text \<open>Which token is the known one, with the reserves of the known and of the other token.\<close>

definition orientPair :: "string list \<Rightarrow> asset_pair \<Rightarrow> output_data \<Rightarrow> string + string \<times> js_number \<times> string \<times> js_number" where
  "orientPair baseAssets pair out =
     (let reserve0 = numberText (reserveField out ''_reserve0''); reserve1 = numberText (reserveField out ''_reserve1'')
      in if pr_token0 pair \<in> set baseAssets then Inr (pr_token0 pair, reserve0, pr_token1 pair, reserve1)
         else if pr_token1 pair \<in> set baseAssets then Inr (pr_token1 pair, reserve1, pr_token0 pair, reserve0)
         else Inl (''None asset in pair is in base assets, this is not possible. Pair '' @ json_pair pair))"

definition calculatePrice :: "asset_bag \<Rightarrow> string list \<Rightarrow> asset_pair \<Rightarrow> output_data option \<Rightarrow> string + pair_price" where
  "calculatePrice bag baseAssets pair reserves =
     (case reserves of
        None \<Rightarrow> Inl ''TypeError''
      | Some out \<Rightarrow> sum_bind (orientPair baseAssets pair out) (\<lambda>(baseAsset, baseAssetReserve, targetAsset, targetAssetReserve).
          sum_bind (decimalsOf bag baseAsset) (\<lambda>baseAssetDecimals.
          sum_bind (decimalsOf bag targetAsset) (\<lambda>targetAssetDecimals.
            (let oneAssetCap = num_mul (numberOf (getBagPrice bag baseAsset)) (normalizeDecimals baseAssetReserve baseAssetDecimals)
             in Inr \<lparr> pp_cap = num_mul oneAssetCap (Some 2), pp_asset = targetAsset,
                  pp_price = num_div oneAssetCap (normalizeDecimals targetAssetReserve targetAssetDecimals) \<rparr>)))))"

section \<open>Weighted prices\<close>

definition addPairPrice :: "(string, js_number \<times> js_number) js_map \<Rightarrow> pair_price \<Rightarrow> (string, js_number \<times> js_number) js_map" where
  "addPairPrice m p =
     (case js_get m (pp_asset p) of
        None \<Rightarrow> js_put m (pp_asset p) (pp_price p, pp_cap p)
      | Some (prevPrice, prevCap) \<Rightarrow>
          (let totalCap = num_add prevCap (pp_cap p);
               newPrice = num_add (num_mul prevPrice (num_div prevCap totalCap)) (num_mul (pp_price p) (num_div (pp_cap p) totalCap))
           in js_put m (pp_asset p) (newPrice, totalCap)))"

definition calculateWeightedPrices :: "pair_price list \<Rightarrow> (string \<times> js_number) list" where
  "calculateWeightedPrices pairPrices = map (\<lambda>(address, (price, cap)). (address, price)) (foldl addPairPrice [] pairPrices)"

section \<open>All prices\<close>

definition getReservesAbi :: abi_item where
  "getReservesAbi = \<lparr> ai_name = ''getReserves'', ai_inputs = [],
     ai_outputs = [\<lparr> ao_name = ''_reserve0'', ao_type = ''uint112'' \<rparr>, \<lparr> ao_name = ''_reserve1'', ao_type = ''uint112'' \<rparr>,
       \<lparr> ao_name = ''_blockTimestampLast'', ao_type = ''uint32'' \<rparr>] \<rparr>"

definition reservesCall :: "string \<Rightarrow> call_data" where
  "reservesCall address = \<lparr> ca_address = address, ca_abi = getReservesAbi, ca_input = Some [], ca_inputPlain = None,
     ca_outputPlain = None, ca_output = None \<rparr>"

definition reservesCalls :: "asset_bag \<Rightarrow> asset_pair list \<Rightarrow> call_data list" where
  "reservesCalls bag pairs =
     map (\<lambda>pair. reservesCall (pr_address pair)) (filter (\<lambda>pair. hasBagAsset bag (pr_token0 pair) \<and> hasBagAsset bag (pr_token1 pair)) pairs)"

text \<open>The pools are asked for in pieces; the piece size is positive, so that the loop returns.\<close>

definition loadPiece :: "node_calls \<Rightarrow> int \<Rightarrow> call_data list \<Rightarrow> int \<Rightarrow> unit \<Rightarrow> (string + output_data option js_item) \<times> unit" where
  "loadPiece N chainId piece index s =
     ((case callArray (nc_web3 N) (nc_aggregate N) piece chainId of Inl e \<Rightarrow> Inl e | Inr outputs \<Rightarrow> Inr (Arr (map Elem outputs))), s)"

definition loadReserves :: "node_calls \<Rightarrow> int \<Rightarrow> call_data list \<Rightarrow> string + output_data option list" where
  "loadReserves N chainId calls =
     (case chunkRunAsync (loadPiece N chainId) calls 1000 () of
        Some (Inr responses, _) \<Rightarrow> Inr (map (\<lambda>x. case x of Elem out \<Rightarrow> out | Arr _ \<Rightarrow> None) responses)
      | Some (Inl e, _) \<Rightarrow> Inl e
      | None \<Rightarrow> Inl ''does not return'')"

text \<open>The price of pool number \<open>index\<close> is read from answer number \<open>index\<close>.\<close>

definition pairPricesOf :: "asset_bag \<Rightarrow> string list \<Rightarrow> asset_pair list \<Rightarrow> output_data option list \<Rightarrow> string + pair_price list" where
  "pairPricesOf bag baseAssets pairs responses =
     sum_map (\<lambda>(index, pair). calculatePrice bag baseAssets pair (if index < length responses then responses ! index else None))
       (enumerate 0 pairs)"

definition networkPrices ::
  "address_lib \<Rightarrow> node_calls \<Rightarrow> ('s, cached_price, int) cache_manager \<Rightarrow> 's \<Rightarrow> (int \<Rightarrow> string \<Rightarrow> string + asset_pair list)
    \<Rightarrow> (int \<Rightarrow> string list \<Rightarrow> string + asset_info list) \<Rightarrow> int \<Rightarrow> pool_price_config \<Rightarrow> string + asset_price list" where
  "networkPrices L N C s findPairs findAssets sourceId config =
     (let bag = loadBaseAssetsPricesIntoBag L C s config \<lparr> bg_prices = [], bg_assets = [] \<rparr>;
          baseAssets = getBaseAssetWithPrices L bag config
      in if baseAssets = [] then Inr []
         else sum_bind (findPairs (uc_chainId config) (formatAddress L (uc_factory config))) (\<lambda>pairs.
           if pairs = [] then Inr []
           else sum_bind (findAssets (uc_chainId config) (uniqueAssetsOf baseAssets pairs)) (\<lambda>infos.
             (let bag1 = setBagAssets infos bag
              in sum_bind (loadReserves N (uc_chainId config) (reservesCalls bag1 pairs)) (\<lambda>responses.
                 sum_bind (pairPricesOf bag1 baseAssets pairs responses) (\<lambda>pairPrices.
                   (let minCap = (case uc_minCap config of Some m \<Rightarrow> m | None \<Rightarrow> 2000);
                        assetPrices = calculateWeightedPrices (filter (\<lambda>p. case pp_cap p of Some c \<Rightarrow> c \<ge> minCap | None \<Rightarrow> False) pairPrices);
                        wrappedCoinPrice = find (\<lambda>(address, price). to_lower address = to_lower (uc_wrappedCoin config) \<and> truthy_num price) assetPrices;
                        allPrices = (case wrappedCoinPrice of Some (_, price) \<Rightarrow> assetPrices @ [(COIN_ADDRESS, price)] | None \<Rightarrow> assetPrices)
                    in Inr (map (\<lambda>(address, price). \<lparr> ar_chainId = uc_chainId config, ar_address = address, ap_sourceId = sourceId,
                         ap_price = Val price \<rparr>) allPrices))))))))"

section \<open>The weighted mean\<close>

definition sumOf :: "('a \<Rightarrow> js_number) \<Rightarrow> 'a list \<Rightarrow> js_number" where
  "sumOf f xs = foldl (\<lambda>acc x. num_add acc (f x)) (Some 0) xs"

text \<open>The mean of the prices of pools, weighted by their capital.\<close>

definition weightedMean :: "pair_price list \<Rightarrow> js_number" where
  "weightedMean ps = num_div (sumOf (\<lambda>p. num_mul (pp_price p) (pp_cap p)) ps) (sumOf pp_cap ps)"

definition withCapital :: "pair_price \<Rightarrow> bool" where
  "withCapital p \<longleftrightarrow> (\<exists>c > 0. pp_cap p = Some c)"

lemma sumOf_snoc [simp]: "sumOf f (xs @ [x]) = num_add (sumOf f xs) (f x)" "sumOf f [] = Some 0"
  by (simp_all add: sumOf_def)

lemma capital_sum: "\<forall>p\<in>set ps. withCapital p \<Longrightarrow> \<exists>c \<ge> 0. sumOf pp_cap ps = Some c \<and> (ps \<noteq> [] \<longrightarrow> c > 0)"
proof (induction ps rule: rev_induct)
  case (snoc p ps)
  then obtain c d where "c \<ge> 0" "sumOf pp_cap ps = Some c" "d > 0" "pp_cap p = Some d" by (auto simp: withCapital_def)
  then show ?case by (auto intro!: exI[of _ "c + d"])
qed simp

text \<open>One more pool: the new mean from the old one.\<close>

lemma weightedMean_step:
  assumes "\<forall>q\<in>set ps. withCapital q" "withCapital p" "ps \<noteq> []"
  shows "num_add (num_mul (weightedMean ps) (num_div (sumOf pp_cap ps) (num_add (sumOf pp_cap ps) (pp_cap p))))
      (num_mul (pp_price p) (num_div (pp_cap p) (num_add (sumOf pp_cap ps) (pp_cap p)))) = weightedMean (ps @ [p])"
proof -
  obtain c where c: "c > 0" "sumOf pp_cap ps = Some c" using capital_sum[OF assms(1)] assms(3) by auto
  obtain d where d: "d > 0" "pp_cap p = Some d" using assms(2) by (auto simp: withCapital_def)
  have nz: "c \<noteq> 0" "c + d \<noteq> 0" using c(1) d(1) by simp_all
  show ?thesis
  proof (cases "sumOf (\<lambda>p. num_mul (pp_price p) (pp_cap p)) ps")
    case None
    then show ?thesis by (simp add: weightedMean_def)
  next
    case (Some t)
    then show ?thesis using nz c d
      by (cases "pp_price p") (simp_all add: weightedMean_def add_divide_distrib)
  qed
qed

lemma weightedMean_one: "withCapital p \<Longrightarrow> weightedMean [p] = pp_price p"
  by (cases "pp_price p") (auto simp: weightedMean_def sumOf_def withCapital_def)

definition poolsOf :: "string \<Rightarrow> pair_price list \<Rightarrow> pair_price list" where
  "poolsOf a ps = filter (\<lambda>q. pp_asset q = a) ps"

lemma weighted_fold:
  "\<forall>p\<in>set ps. withCapital p \<Longrightarrow> foldl addPairPrice [] ps
    = map (\<lambda>a. (a, (weightedMean (poolsOf a ps), sumOf pp_cap (poolsOf a ps)))) (js_set (map pp_asset ps))"
proof (induction ps rule: rev_induct)
  case (snoc p ps)
  let ?a = "pp_asset p" and ?as = "js_set (map pp_asset ps)"
  let ?v = "\<lambda>ps a. (weightedMean (poolsOf a ps), sumOf pp_cap (poolsOf a ps))"
  have IH: "foldl addPairPrice [] ps = map (\<lambda>a. (a, ?v ps a)) ?as" and caps: "\<forall>q\<in>set (poolsOf ?a ps). withCapital q" and p: "withCapital p"
    using snoc by (simp_all add: poolsOf_def)
  have other: "poolsOf a (ps @ [p]) = poolsOf a ps" if "a \<noteq> ?a" for a using that by (simp add: poolsOf_def)
  have this_one: "poolsOf ?a (ps @ [p]) = poolsOf ?a ps @ [p]" by (simp add: poolsOf_def)
  have keys: "js_set (map pp_asset (ps @ [p])) = set_add ?as ?a" by (simp add: js_set_def)
  show ?case
  proof (cases "?a \<in> set ?as")
    case False
    then have "pp_asset q \<noteq> ?a" if "q \<in> set ps" for q using that by (metis image_eqI list.set_map set_js_set)
    then have "poolsOf ?a ps = []" by (simp add: poolsOf_def filter_empty_conv)
    moreover have "js_get (foldl addPairPrice [] ps) ?a = None" using False by (simp add: IH map_of_map_restrict restrict_map_def)
    moreover have "js_put (map (\<lambda>a. (a, ?v ps a)) ?as) ?a v = map (\<lambda>a. (a, ?v ps a)) ?as @ [(?a, v)]" for v
      by (rule js_put_new) (use False in \<open>simp add: js_keys_def comp_def\<close>)
    ultimately have new: "foldl addPairPrice [] (ps @ [p]) = map (\<lambda>a. (a, ?v ps a)) ?as @ [(?a, pp_price p, pp_cap p)]"
      unfolding foldl_append foldl.simps IH by (simp add: addPairPrice_def)
    have one: "?v (ps @ [p]) ?a = (pp_price p, pp_cap p)"
      using \<open>poolsOf ?a ps = []\<close> p by (simp add: this_one weightedMean_one sumOf_def)
    have others: "map (\<lambda>a. (a, ?v (ps @ [p]) a)) ?as = map (\<lambda>a. (a, ?v ps a)) ?as"
    proof (rule map_cong[OF refl])
      fix a assume "a \<in> set ?as"
      with False have "a \<noteq> ?a" by blast
      from other[OF this] show "(a, ?v (ps @ [p]) a) = (a, ?v ps a)" by simp
    qed
    have "set_add ?as ?a = ?as @ [?a]" using False by (simp add: set_add_def)
    then show ?thesis unfolding new keys by (simp only: map_append others one list.map)
  next
    case True
    then have some: "poolsOf ?a ps \<noteq> []" by (auto simp: poolsOf_def filter_empty_conv)
    have get: "js_get (foldl addPairPrice [] ps) ?a = Some (?v ps ?a)" using True by (simp add: IH map_of_map_restrict restrict_map_def)
    have put: "js_put (map (\<lambda>a. (a, ?v ps a)) xs) ?a v = map (\<lambda>a. (a, if a = ?a then v else ?v ps a)) xs" if "distinct xs" "?a \<in> set xs" for xs v
      using that by (induction xs) (auto cong: map_cong)
    have "foldl addPairPrice [] (ps @ [p]) = js_put (map (\<lambda>a. (a, ?v ps a)) ?as) ?a (?v (ps @ [p]) ?a)"
      using weightedMean_step[OF caps p some]
      unfolding foldl_append foldl.simps addPairPrice_def[of "foldl addPairPrice [] ps" p] get by (simp add: Let_def this_one IH)
    also have "... = map (\<lambda>a. (a, ?v (ps @ [p]) a)) ?as"
      using True other by (subst put) (auto cong: map_cong)
    finally have new: "foldl addPairPrice [] (ps @ [p]) = map (\<lambda>a. (a, ?v (ps @ [p]) a)) ?as" .
    have "set_add ?as ?a = ?as" using True by (simp add: set_add_def)
    then show ?thesis unfolding new keys by (simp only:)
  qed
qed (simp add: js_set_def)

lemma weighted_prices:
  assumes "\<forall>p\<in>set ps. withCapital p"
  shows "calculateWeightedPrices ps = map (\<lambda>a. (a, weightedMean (poolsOf a ps))) (js_set (map pp_asset ps))"
  by (simp add: calculateWeightedPrices_def weighted_fold[OF assms] comp_def)

section \<open>Reserves of the pools\<close>

lemma reservesCall_key: "callKey (reservesCall a) = callKey (reservesCall b) \<longleftrightarrow> a = b"
  by (auto simp: callKey_def reservesCall_def getReservesAbi_def concatStrings_def)

lemma reservesCalls_same:
  "(\<And>a. a \<in> set as \<Longrightarrow> CHR ''_'' \<notin> set a) \<Longrightarrow> sameOutputs W chain (map reservesCall as)"
  by (auto simp: sameOutputs_def reservesCall_def)

definition answered :: "node_calls \<Rightarrow> (string \<times> string \<Rightarrow> string) \<Rightarrow> string \<Rightarrow> output_data option \<Rightarrow> bool" where
  "answered N node a r \<longleftrightarrow> (\<exists>out. singleOutput (nc_web3 N) node (reservesCall a) = Inr out \<and> r = Some out)"

lemma piece_answered:
  assumes "multicall_contract (nc_aggregate N) node" "\<And>a. a \<in> set as \<Longrightarrow> CHR ''_'' \<notin> set a"
    and "callArray (nc_web3 N) (nc_aggregate N) (map reservesCall as) chain = Inr rs"
  shows "list_all2 (answered N node) as rs"
proof -
  have found: "d = reservesCall a" if "find (\<lambda>d. callKey d = callKey (reservesCall a)) (rev (map reservesCall as)) = Some d" for a d
    using find_SomeD[OF that] by (auto simp: reservesCall_key)
  show ?thesis using array_outputs[OF assms(1,3) reservesCalls_same[OF assms(2)]]
    unfolding list_all2_map1 by (rule list_all2_mono) (auto simp: answered_def dest: found)
qed

lemma pieces_answered:
  assumes "multicall_contract (nc_aggregate N) node"
  shows "runPieces (loadPiece N chainId) ps u = (Inr items, v) \<Longrightarrow>
    concat (map fst ps) = map reservesCall as \<Longrightarrow> (\<And>a. a \<in> set as \<Longrightarrow> CHR ''_'' \<notin> set a) \<Longrightarrow>
    \<exists>rs. concat (map spread items) = map Elem rs \<and> list_all2 (answered N node) as rs"
proof (induction ps arbitrary: items u as)
  case (Cons p ps)
  obtain c i where p: "p = (c, i)" by (cases p)
  let ?b = "take (length c) as" and ?rest = "drop (length c) as"
  have split: "c = map reservesCall ?b" "concat (map fst ps) = map reservesCall ?rest"
    using Cons.prems(2) by (auto simp: p take_map[symmetric] drop_map[symmetric] append_eq_conv_conj dest: arg_cong[of _ _ "take (length c)"] arg_cong[of _ _ "drop (length c)"])
  obtain rs items' where rs: "callArray (nc_web3 N) (nc_aggregate N) (map reservesCall ?b) chainId = Inr rs"
    and rest: "runPieces (loadPiece N chainId) ps u = (Inr items', v)"
    and items: "items = Arr (map Elem rs) # items'"
    using Cons.prems(1) unfolding p split(1)[symmetric] by (auto simp: loadPiece_def[of N chainId c] split: prod.splits sum.splits)
  have plain: "CHR ''_'' \<notin> set a" if "a \<in> set ?b \<or> a \<in> set ?rest" for a
    using that Cons.prems(3) by (meson in_set_dropD in_set_takeD)
  obtain rs' where "concat (map spread items') = map Elem rs'" "list_all2 (answered N node) ?rest rs'"
    using Cons.IH[OF rest split(2)] plain by blast
  moreover have "list_all2 (answered N node) ?b rs" using piece_answered[OF assms _ rs] plain by blast
  ultimately have "list_all2 (answered N node) (?b @ ?rest) (rs @ rs')" "concat (map spread items) = map Elem (rs @ rs')"
    using list_all2_appendI[of "answered N node" ?b rs ?rest rs'] by (simp_all add: items del: append_take_drop_id)
  then show ?case by (intro exI[of _ "rs @ rs'"]) simp
qed simp

lemma loaded_reserves:
  assumes "multicall_contract (nc_aggregate N) node" "loadReserves N chainId (map reservesCall as) = Inr rs" "\<And>a. a \<in> set as \<Longrightarrow> CHR ''_'' \<notin> set a"
  shows "list_all2 (answered N node) as rs"
proof -
  let ?f = "loadPiece N chainId"
  have pos: "0 < (1000 :: nat)" by simp
  obtain ps where ps: "concat (map fst ps) = map reservesCall as"
    and run: "chunkRunAsync ?f (map reservesCall as) 1000 () = Some (case runPieces ?f ps () of
        (Inl e, s') \<Rightarrow> (Inl e, s') | (Inr rs, s') \<Rightarrow> (Inr (concat (map spread rs)), s'))"
    using chunkRunAsync_partition[OF pos, of "map reservesCall as" ?f "()"] by auto
  obtain items where items: "runPieces ?f ps () = (Inr items, ())"
    and rs: "rs = map (\<lambda>x. case x of Elem out \<Rightarrow> out | Arr _ \<Rightarrow> None) (concat (map spread items))"
    using assms(2) by (auto simp: loadReserves_def run split: prod.splits sum.splits)
  obtain rs' where "concat (map spread items) = map Elem rs'" "list_all2 (answered N node) as rs'"
    using pieces_answered[OF assms(1) items ps assms(3)] by blast
  then show ?thesis by (simp add: rs comp_def)
qed

section \<open>All prices\<close>

definition knownTokens :: "address_lib \<Rightarrow> ('s, cached_price, int) cache_manager \<Rightarrow> 's \<Rightarrow> pool_price_config \<Rightarrow> asset_bag \<times> string list" where
  "knownTokens L C s config =
     (let bag = loadBaseAssetsPricesIntoBag L C s config \<lparr> bg_prices = [], bg_assets = [] \<rparr>
      in (bag, getBaseAssetWithPrices L bag config))"

abbreviation capitalAtLeast :: "pool_price_config \<Rightarrow> pair_price \<Rightarrow> bool" where
  "capitalAtLeast config p \<equiv> (case pp_cap p of Some c \<Rightarrow> c \<ge> (case uc_minCap config of Some m \<Rightarrow> m | None \<Rightarrow> 2000) | None \<Rightarrow> False)"

lemma networkPrices_cases:
  assumes "networkPrices L N C s findPairs findAssets sourceId config = Inr ps" "knownTokens L C s config = (bag, baseAssets)"
    and "baseAssets \<noteq> []" "findPairs (uc_chainId config) (formatAddress L (uc_factory config)) = Inr pairs" "pairs \<noteq> []"
  obtains infos responses pairPrices where "findAssets (uc_chainId config) (uniqueAssetsOf baseAssets pairs) = Inr infos"
    "loadReserves N (uc_chainId config) (reservesCalls (setBagAssets infos bag) pairs) = Inr responses"
    "pairPricesOf (setBagAssets infos bag) baseAssets pairs responses = Inr pairPrices"
    "map (\<lambda>p. (ar_address p, ap_price p)) ps =
       (let prices = calculateWeightedPrices (filter (capitalAtLeast config) pairPrices)
        in map (\<lambda>(a, p). (a, Val p)) (prices @ (case find (\<lambda>(a, p). to_lower a = to_lower (uc_wrappedCoin config) \<and> truthy_num p) prices of
             Some (_, p) \<Rightarrow> [(COIN_ADDRESS, p)] | None \<Rightarrow> [])))"
proof -
  have known: "loadBaseAssetsPricesIntoBag L C s config \<lparr> bg_prices = [], bg_assets = [] \<rparr> = bag" "getBaseAssetWithPrices L bag config = baseAssets"
    using assms(2) by (auto simp: knownTokens_def Let_def)
  obtain infos where infos: "findAssets (uc_chainId config) (uniqueAssetsOf baseAssets pairs) = Inr infos"
    using assms(1,3-5) by (auto simp: networkPrices_def known Let_def sum_bind_Inr_iff)
  obtain responses where responses: "loadReserves N (uc_chainId config) (reservesCalls (setBagAssets infos bag) pairs) = Inr responses"
    using assms(1,3-5) by (auto simp: networkPrices_def known Let_def sum_bind_Inr_iff infos)
  obtain pairPrices where pairPrices: "pairPricesOf (setBagAssets infos bag) baseAssets pairs responses = Inr pairPrices"
    using assms(1,3-5) by (auto simp: networkPrices_def known Let_def sum_bind_Inr_iff infos responses)
  show thesis
    by (rule that[OF infos responses pairPrices])
      (use assms(1,3-5) in \<open>auto simp: networkPrices_def known Let_def infos responses pairPrices comp_def split: option.split prod.split\<close>)
qed

lemma calculatePrice_known:
  "calculatePrice bag baseAssets pair r = Inr p \<Longrightarrow> hasBagAsset bag (pr_token0 pair) \<and> hasBagAsset bag (pr_token1 pair)"
  by (auto simp: calculatePrice_def orientPair_def decimalsOf_def hasBagAsset_def Let_def sum_bind_Inr_iff split: option.splits if_splits)

lemma bag_assets: "bg_assets (setBagPrice a p bag) = bg_assets bag"
  by (simp add: setBagPrice_def)

lemma known_no_assets: "knownTokens L C s config = (bag, baseAssets) \<Longrightarrow> bg_assets bag = []"
proof -
  have 1: "bg_assets (foldl (\<lambda>b p. setBagPrice (f p) (g p) b) bag ps) = bg_assets bag" for f :: "asset_avg_price \<Rightarrow> string" and g ps bag
    by (induction ps arbitrary: bag) (simp_all add: bag_assets)
  have 2: "bg_assets (foldl (\<lambda>b address. if truthyValue (getBagPrice b address) then b else setBagPrice address v b) bag as) = bg_assets bag" for v as bag
    by (induction as arbitrary: bag) (simp_all add: bag_assets)
  show "knownTokens L C s config = (bag, baseAssets) \<Longrightarrow> bg_assets bag = []"
    by (auto simp: knownTokens_def loadBaseAssetsPricesIntoBag_def Let_def 1 2)
qed

lemma setBagAssets_has: "bg_assets bag = [] \<Longrightarrow> hasBagAsset (setBagAssets infos bag) a \<longleftrightarrow> a \<in> in_address ` set infos"
  by (induction infos rule: rev_induct) (auto simp: setBagAssets_def hasBagAsset_def getBagAsset_def)

section \<open>An example\<close>

definition demoPoolConfig :: pool_price_config where
  "demoPoolConfig = \<lparr> uc_chainId = 1, uc_factory = ''f'', uc_wrappedCoin = ''w'', uc_stableCoins = [''usd''], uc_proxyCoins = None, uc_minCap = Some 1 \<rparr>"

definition demoReservesNode :: node_calls where
  "demoReservesNode = \<lparr> nc_web3 = \<lparr> w3_encodeFunctionCall = (\<lambda>abi args. Inr (ai_name abi)),
       w3_decodeParameters = (\<lambda>outs plain. Inr [(ByName ''_reserve0'', Scalar ''||||||||''), (ByName ''_reserve1'', Scalar ''||'')]),
       w3_bigNumber = (\<lambda>v. case v of Scalar s \<Rightarrow> Some (of_nat (length s)) | _ \<Rightarrow> None) \<rparr>, nc_aggregate = (\<lambda>xs. Inr (map (\<lambda>_. '''') xs)) \<rparr>"

interpretation demoReserves: multicall_contract "nc_aggregate demoReservesNode" "\<lambda>_. ''''"
  by unfold_locales (simp add: demoReservesNode_def)

definition demoPairs :: "asset_pair list" where
  "demoPairs = [\<lparr> pr_address = ''p'', pr_token0 = ''usd'', pr_token1 = ''w'' \<rparr>]"

definition demoInfos :: "asset_info list" where
  "demoInfos = [\<lparr> in_address = ''usd'', in_decimals = 0 \<rparr>, \<lparr> in_address = ''w'', in_decimals = 0 \<rparr>]"

definition demoBag :: asset_bag where
  "demoBag = \<lparr> bg_prices = [(''w'', Undef), (''usd'', Val (Some 1))], bg_assets = [] \<rparr>"

lemma demo_known: "knownTokens plain_lib (memory_cache :: (_, _, int) cache_manager) [] demoPoolConfig = (demoBag, [''usd''])"
  by code_simp

text \<open>The prices are told only when the table of assets has both tokens of every pool.  One pool with an unknown token makes the
  whole source fail, although its reserves are not asked for: the code means to leave such a pool out.\<close>

theorem unknown_token_fails:
  assumes "knownTokens L C s config = (bag, baseAssets)" "baseAssets \<noteq> []"
    and "findPairs (uc_chainId config) (formatAddress L (uc_factory config)) = Inr pairs" "pair \<in> set pairs"
    and "findAssets (uc_chainId config) (uniqueAssetsOf baseAssets pairs) = Inr infos"
    and "pr_token0 pair \<notin> in_address ` set infos \<or> pr_token1 pair \<notin> in_address ` set infos"
  shows "\<exists>e. networkPrices L N C s findPairs findAssets sourceId config = Inl e"
proof (cases "networkPrices L N C s findPairs findAssets sourceId config")
  case (Inr ps)
  have some: "pairs \<noteq> []" using assms(4) by auto
  obtain responses pairPrices where pp: "pairPricesOf (setBagAssets infos bag) baseAssets pairs responses = Inr pairPrices"
    using networkPrices_cases[OF Inr assms(1-3) some] assms(5) by (metis sum.inject(2))
  obtain i where i: "i < length pairs" "pair = pairs ! i" using assms(4) by (auto simp: in_set_conv_nth)
  then have "\<exists>p. calculatePrice (setBagAssets infos bag) baseAssets pair (if i < length responses then responses ! i else None) = Inr p"
    using pp by (auto simp: pairPricesOf_def sum_map_Inr_iff list_all2_conv_all_nth nth_enumerate_eq)
  then show ?thesis using assms(6) calculatePrice_known setBagAssets_has[OF known_no_assets[OF assms(1)], of infos] by blast
qed simp

theorem unknown_token_fails_witness:
  "\<exists>e. networkPrices plain_lib demoReservesNode (memory_cache :: (_, _, int) cache_manager) [] (\<lambda>_ _. Inr demoPairs) (\<lambda>_ _. Inr []) 7 demoPoolConfig = Inl e"
  by (rule unknown_token_fails[OF demo_known, where pairs = demoPairs and pair = "hd demoPairs" and infos = "[]"]) (simp_all add: demoPairs_def)

text \<open>C4: When prices are told, every pool's capital and price are computed from the reserves that the node tells of that very pool.
  Each token that is not known is priced once, with the mean over its pools with enough capital, weighted by capital; the coin of the
  chain gets the price that its wrapped token got.\<close>

theorem network_prices:
  assumes "networkPrices L N C s findPairs findAssets sourceId config = Inr ps" "knownTokens L C s config = (bag, baseAssets)"
    and "baseAssets \<noteq> []" "findPairs (uc_chainId config) (formatAddress L (uc_factory config)) = Inr pairs" "pairs \<noteq> []"
    and "multicall_contract (nc_aggregate N) node" "\<And>pair. pair \<in> set pairs \<Longrightarrow> CHR ''_'' \<notin> set (pr_address pair)"
    and "\<And>m. uc_minCap config = Some m \<Longrightarrow> m > 0"
  shows "\<exists>infos pairPrices. findAssets (uc_chainId config) (uniqueAssetsOf baseAssets pairs) = Inr infos
    \<and> list_all2 (\<lambda>pair p. \<exists>out. singleOutput (nc_web3 N) node (reservesCall (pr_address pair)) = Inr out
        \<and> calculatePrice (setBagAssets infos bag) baseAssets pair (Some out) = Inr p) pairs pairPrices
    \<and> (let counted = filter (capitalAtLeast config) pairPrices;
           prices = map (\<lambda>a. (a, weightedMean (filter (\<lambda>p. pp_asset p = a) counted))) (js_set (map pp_asset counted))
       in map (\<lambda>p. (ar_address p, ap_price p)) ps = map (\<lambda>(a, p). (a, Val p))
         (prices @ (case find (\<lambda>(a, p). to_lower a = to_lower (uc_wrappedCoin config) \<and> truthy_num p) prices of
             Some (_, p) \<Rightarrow> [(COIN_ADDRESS, p)] | None \<Rightarrow> [])))"
proof -
  obtain infos responses pairPrices where infos: "findAssets (uc_chainId config) (uniqueAssetsOf baseAssets pairs) = Inr infos"
    and responses: "loadReserves N (uc_chainId config) (reservesCalls (setBagAssets infos bag) pairs) = Inr responses"
    and pp: "pairPricesOf (setBagAssets infos bag) baseAssets pairs responses = Inr pairPrices"
    and prices: "map (\<lambda>p. (ar_address p, ap_price p)) ps =
       (let prices = calculateWeightedPrices (filter (capitalAtLeast config) pairPrices)
        in map (\<lambda>(a, p). (a, Val p)) (prices @ (case find (\<lambda>(a, p). to_lower a = to_lower (uc_wrappedCoin config) \<and> truthy_num p) prices of
             Some (_, p) \<Rightarrow> [(COIN_ADDRESS, p)] | None \<Rightarrow> [])))"
    using networkPrices_cases[OF assms(1-5)] .
  have len: "length pairPrices = length pairs"
    and at: "calculatePrice (setBagAssets infos bag) baseAssets (pairs ! i) (if i < length responses then responses ! i else None) = Inr (pairPrices ! i)"
    if "i < length pairs" for i
    using pp that by (auto simp: pairPricesOf_def sum_map_Inr_iff list_all2_conv_all_nth nth_enumerate_eq)
  have "length pairPrices = length pairs" using pp by (auto simp: pairPricesOf_def sum_map_Inr_iff dest!: list_all2_lengthD)
  have "hasBagAsset (setBagAssets infos bag) (pr_token0 pair) \<and> hasBagAsset (setBagAssets infos bag) (pr_token1 pair)" if "pair \<in> set pairs" for pair
    using that at calculatePrice_known by (metis in_set_conv_nth)
  then have "reservesCalls (setBagAssets infos bag) pairs = map reservesCall (map pr_address pairs)"
    by (simp add: reservesCalls_def comp_def cong: filter_cong)
  then have answers: "list_all2 (answered N node) (map pr_address pairs) responses"
    using loaded_reserves[OF assms(6), of "uc_chainId config" "map pr_address pairs" responses] responses assms(7) by auto
  have "list_all2 (\<lambda>pair p. \<exists>out. singleOutput (nc_web3 N) node (reservesCall (pr_address pair)) = Inr out
        \<and> calculatePrice (setBagAssets infos bag) baseAssets pair (Some out) = Inr p) pairs pairPrices"
    using answers at \<open>length pairPrices = length pairs\<close> by (fastforce simp: list_all2_conv_all_nth answered_def)
  moreover have "\<forall>p\<in>set (filter (capitalAtLeast config) pairPrices). withCapital p"
    using assms(8) by (fastforce simp: withCapital_def split: option.splits)
  ultimately show ?thesis using infos prices by (auto simp: weighted_prices poolsOf_def Let_def)
qed

definition demoAnswer :: output_data where
  "demoAnswer = Fields [(ByName ''_reserve0'', BigNum (Some 8)), (ByIndex 0, BigNum None),
     (ByName ''_reserve1'', BigNum (Some 2)), (ByIndex 1, BigNum None), (ByName ''_blockTimestampLast'', BigNum None), (ByIndex 2, BigNum None)]"

lemma demo_reserves: "loadReserves demoReservesNode 1 [reservesCall ''p''] = Inr [Some demoAnswer]"
proof -
  have "loadPiece demoReservesNode 1 [reservesCall ''p''] 0 () = (Inr (Arr [Elem (Some demoAnswer)]), ())" by code_simp
  then have "chunkRunLoop (loadPiece demoReservesNode 1) [reservesCall ''p''] 1000 0 [] ()
      = chunkRunLoop (loadPiece demoReservesNode 1) [reservesCall ''p''] 1000 1000 [Arr [Elem (Some demoAnswer)]] ()"
    by (subst chunkRunLoop.simps) (simp add: js_slice_def)
  also have "... = Some (Inr [Arr [Elem (Some demoAnswer)]], ())" by (subst chunkRunLoop.simps) simp
  finally show ?thesis by (simp add: loadReserves_def chunkRunAsync_def)
qed

theorem network_prices_witness:
  "networkPrices plain_lib demoReservesNode (memory_cache :: (_, _, int) cache_manager) [] (\<lambda>_ _. Inr demoPairs) (\<lambda>_ _. Inr demoInfos) 7 demoPoolConfig
     = Inr [\<lparr> ar_chainId = 1, ar_address = ''w'', ap_sourceId = 7, ap_price = Val (Some 4) \<rparr>,
         \<lparr> ar_chainId = 1, ar_address = COIN_ADDRESS, ap_sourceId = 7, ap_price = Val (Some 4) \<rparr>]
   \<and> (\<exists>out p. singleOutput (nc_web3 demoReservesNode) (\<lambda>_. '''') (reservesCall ''p'') = Inr out
     \<and> calculatePrice (setBagAssets demoInfos demoBag) [''usd''] (hd demoPairs) (Some out) = Inr p)"
proof -
  let ?run = "networkPrices plain_lib demoReservesNode (memory_cache :: (_, _, int) cache_manager) [] (\<lambda>_ _. Inr demoPairs) (\<lambda>_ _. Inr demoInfos) 7 demoPoolConfig"
  have run: "?run = Inr [\<lparr> ar_chainId = 1, ar_address = ''w'', ap_sourceId = 7, ap_price = Val (Some 4) \<rparr>,
         \<lparr> ar_chainId = 1, ar_address = COIN_ADDRESS, ap_sourceId = 7, ap_price = Val (Some 4) \<rparr>]" 
  proof -
    have calls: "reservesCalls (setBagAssets demoInfos demoBag) demoPairs = [reservesCall ''p'']" by code_simp
    have prices: "pairPricesOf (setBagAssets demoInfos demoBag) [''usd''] demoPairs [Some demoAnswer]
        = Inr [\<lparr> pp_cap = Some 16, pp_asset = ''w'', pp_price = Some 4 \<rparr>]" by code_simp
    have known: "loadBaseAssetsPricesIntoBag plain_lib (memory_cache :: (_, _, int) cache_manager) [] demoPoolConfig \<lparr> bg_prices = [], bg_assets = [] \<rparr> = demoBag"
        "getBaseAssetWithPrices plain_lib demoBag demoPoolConfig = [''usd'']" by code_simp+
    have mean: "calculateWeightedPrices [\<lparr> pp_cap = Some 16, pp_asset = ''w'', pp_price = Some 4 \<rparr>] = [(''w'', Some 4)]" by code_simp
    have config: "uc_chainId demoPoolConfig = 1" "uc_minCap demoPoolConfig = Some 1" "uc_wrappedCoin demoPoolConfig = ''w''" "demoPairs \<noteq> []"
      by (simp_all add: demoPoolConfig_def demoPairs_def)
    show ?thesis by (simp add: networkPrices_def known config calls demo_reserves prices mean truthy_num_def)
  qed
  have pairs: "demoPairs \<noteq> []" "\<And>pair. pair \<in> set demoPairs \<Longrightarrow> CHR ''_'' \<notin> set (pr_address pair)"
    and noCap: "\<And>m. uc_minCap demoPoolConfig = Some m \<Longrightarrow> m > 0" by (simp_all add: demoPairs_def demoPoolConfig_def)
  show ?thesis using run network_prices[OF run demo_known _ _ pairs(1) demoReserves.multicall_contract_axioms pairs(2) noCap]
    by (auto simp: demoPairs_def list_all2_Cons1)
qed

end
