(* ===== verification/PriceSources.thy ===== *)
theory PriceSources
  imports PoolPrices
begin

text \<open>
  The sources of prices that ask services of the web: \<open>univ2-subgraph.strategy.ts\<close>, \<open>solana-scan.strategy.ts\<close>,
  \<open>coingecko.strategy.ts\<close>, \<open>debank.strategy.ts\<close> and \<open>sundae-swap.strategy.ts\<close> under
  \<open>apps/assets/src/modules/prices/strategies\<close>, and the job that runs one source and saves what it tells.  The services are parameters;
  pauses between requests are left out.
\<close>

definition assetPriceOf :: "int \<Rightarrow> int \<Rightarrow> string \<Rightarrow> js_num \<Rightarrow> asset_price" where
  "assetPriceOf sourceId chainId address price =
     \<lparr> ar_chainId = chainId, ar_address = address, ap_sourceId = sourceId, ap_price = price \<rparr>"

section \<open>A subgraph\<close>

record graph_token =
  gt_id :: string
  gt_derived :: string

record graph_data =
  gd_prices :: "string option list"
  gd_tokens :: "graph_token list"

text \<open>A request fails with a message, or is answered with errors and data.\<close>

datatype graph_reply = GraphFailed string | GraphReplied "string list" "graph_data option"

record graph_config =
  gc_chainId :: int
  gc_wrappedCoin :: "string option"
  gc_maxItems :: "int option"
  gc_chunkSize :: "int option"
  gc_ignoreCoin :: bool

definition graphNumber :: "string option \<Rightarrow> js_number" where
  "graphNumber t = (case t of Some s \<Rightarrow> numberText (Scalar s) | None \<Rightarrow> None)"

definition parseToken :: "int \<Rightarrow> int \<Rightarrow> js_number \<Rightarrow> graph_token \<Rightarrow> asset_price" where
  "parseToken sourceId chainId baseDerived token =
     assetPriceOf sourceId chainId (gt_id token) (Val (num_mul baseDerived (numberText (Scalar (gt_derived token)))))"

definition getChunkPrices :: "(int \<Rightarrow> int \<Rightarrow> graph_reply) \<Rightarrow> int \<Rightarrow> graph_config \<Rightarrow> int \<Rightarrow> int \<Rightarrow> string + asset_price list" where
  "getChunkPrices post sourceId config chunkSize skip =
     (case post skip chunkSize of
        GraphFailed message \<Rightarrow> if str_includes message ''timeout'' then Inr [] else Inl message
      | GraphReplied errors data \<Rightarrow>
          if errors \<noteq> [] then Inl (join_with ''; '' errors)
          else (case data of
            None \<Rightarrow> Inl ''TypeError''
          | Some d \<Rightarrow>
              (let baseDerived = graphNumber (case gd_prices d of p # _ \<Rightarrow> p | [] \<Rightarrow> None);
                   prices = map (parseToken sourceId (gc_chainId config) baseDerived) (gd_tokens d)
               in Inr (if \<not> gc_ignoreCoin config \<and> skip = 0
                    then prices @ [assetPriceOf sourceId (gc_chainId config) COIN_ADDRESS (Val baseDerived)] else prices))))"

text \<open>
  The loop over the pages, with the error that ended it.  Every further round has found something, so that the place in the list of the
  service grows and the loop ends.
\<close>

function graphPages :: "(int \<Rightarrow> string + asset_price list) \<Rightarrow> int \<Rightarrow> int \<Rightarrow> asset_price list \<Rightarrow> string option \<times> asset_price list" where
  "graphPages page maxItems skip prices =
     (case page skip of
        Inl e \<Rightarrow> (Some e, prices)
      | Inr chunkPrices \<Rightarrow>
          if skip + int (length chunkPrices) < maxItems \<and> chunkPrices \<noteq> []
          then graphPages page maxItems (skip + int (length chunkPrices)) (prices @ chunkPrices)
          else (None, prices @ chunkPrices))"
  by pat_completeness auto

termination
  by (relation "measure (\<lambda>(page, maxItems, skip, prices). nat (maxItems - skip))") (auto simp flip: length_greater_0_conv)

declare graphPages.simps [simp del]

definition graphPrices :: "(int \<Rightarrow> int \<Rightarrow> graph_reply) \<Rightarrow> int \<Rightarrow> graph_config \<Rightarrow> string + asset_price list" where
  "graphPrices post sourceId config =
     (let maxItems = (case gc_maxItems config of Some n \<Rightarrow> n | None \<Rightarrow> 5000);
          chunkSize = (case gc_chunkSize config of Some n \<Rightarrow> n | None \<Rightarrow> 1000);
          (failure, prices) = graphPages (getChunkPrices post sourceId config chunkSize) maxItems 0 []
      in case (failure, prices) of
           (Some e, []) \<Rightarrow> Inl e
         | _ \<Rightarrow> Inr (case gc_wrappedCoin config of
               None \<Rightarrow> prices
             | Some wrappedCoin \<Rightarrow>
                 if wrappedCoin = [] then prices
                 else (case find (\<lambda>p. to_lower (ar_address p) = to_lower wrappedCoin) prices of
                     Some entry \<Rightarrow> if truthyValue (ap_price entry) then prices @ [entry\<lparr> ar_address := COIN_ADDRESS \<rparr>] else prices
                   | None \<Rightarrow> prices)))"

section \<open>Solana\<close>

record solana_token =
  so_mintAddress :: string
  so_priceUst :: js_num

definition WRAPPED_SOL_ADDRESS :: string where
  "WRAPPED_SOL_ADDRESS = ''So11111111111111111111111111111111111111112''"

definition solanaChunk :: "(int \<Rightarrow> int \<Rightarrow> string + solana_token list) \<Rightarrow> int \<Rightarrow> int \<Rightarrow> int \<Rightarrow> string + asset_price list" where
  "solanaChunk get sourceId chunkSize skip = sum_bind (get chunkSize skip) (\<lambda>assets.
     (let wrappedSol = find (\<lambda>t. so_mintAddress t = WRAPPED_SOL_ADDRESS) assets;
          assets1 = (case wrappedSol of
              Some t \<Rightarrow> if truthyValue (so_priceUst t) then assets @ [t\<lparr> so_mintAddress := SOL_COIN_ADDRESS \<rparr>] else assets
            | None \<Rightarrow> assets)
      in Inr (map (\<lambda>token. assetPriceOf sourceId (ChainIdEnum Sol) (so_mintAddress token) (so_priceUst token)) assets1)))"

text \<open>The loop does not return when the service never runs out of tokens and the piece size is not positive.\<close>

partial_function (option) solanaPages ::
  "(int \<Rightarrow> string + asset_price list) \<Rightarrow> int \<Rightarrow> int \<Rightarrow> int \<Rightarrow> asset_price list \<Rightarrow> (string + asset_price list) option" where
  "solanaPages page chunkSize maxItems skip prices =
     (case page skip of
        Inl e \<Rightarrow> Some (Inl e)
      | Inr chunkPrices \<Rightarrow>
          if skip + chunkSize < maxItems \<and> length chunkPrices > 0
          then solanaPages page chunkSize maxItems (skip + chunkSize) (prices @ chunkPrices)
          else Some (Inr (prices @ chunkPrices)))"

definition solanaPrices :: "(int \<Rightarrow> int \<Rightarrow> string + solana_token list) \<Rightarrow> int \<Rightarrow> int option \<Rightarrow> int option \<Rightarrow> (string + asset_price list) option" where
  "solanaPrices get sourceId maxItemsConfig chunkSizeConfig =
     (let maxItems = (case maxItemsConfig of Some n \<Rightarrow> n | None \<Rightarrow> 500);
          chunkSize = (case chunkSizeConfig of Some n \<Rightarrow> n | None \<Rightarrow> 100)
      in solanaPages (solanaChunk get sourceId chunkSize) chunkSize maxItems 0 [])"

section \<open>Coingecko\<close>

record coin_asset = asset_ref +
  ca_coingeckoId :: string

definition pieceSize :: "int option \<Rightarrow> int \<Rightarrow> int" where
  "pieceSize configured limit = (case configured of Some n \<Rightarrow> if n \<noteq> 0 then min n limit else limit | None \<Rightarrow> limit)"

definition fetchCoinsPrices :: "(string list \<Rightarrow> string + (string \<Rightarrow> js_num)) \<Rightarrow> string list \<Rightarrow> string + (string \<times> js_num) list" where
  "fetchCoinsPrices simplePrice coinIds = sum_bind (simplePrice coinIds) (\<lambda>coins. Inr (map (\<lambda>i. (i, coins i)) coinIds))"

text \<open>
  The callback returns the promise of the request without waiting for it inside its \<open>try\<close>: a rejected request is not caught there, so
  that it ends the loop over the pieces.
\<close>

definition coingeckoPiece ::
  "(string list \<Rightarrow> string + (string \<Rightarrow> js_num)) \<Rightarrow> string list \<Rightarrow> int \<Rightarrow> unit \<Rightarrow> (string + (string \<times> js_num) js_item) \<times> unit" where
  "coingeckoPiece simplePrice chunkIds index s =
     ((case fetchCoinsPrices simplePrice chunkIds of Inl e \<Rightarrow> Inl e | Inr prices \<Rightarrow> Inr (Arr (map Elem prices))), s)"

definition coingeckoPrices ::
  "(string list \<Rightarrow> string + (string \<Rightarrow> js_num)) \<Rightarrow> int \<Rightarrow> int option \<Rightarrow> coin_asset list \<Rightarrow> (string + asset_price list) option" where
  "coingeckoPrices simplePrice sourceId chunkSizeConfig assets =
     (let uniqueCoinIds = foldl (\<lambda>l a. if ca_coingeckoId a \<in> set l then l else l @ [ca_coingeckoId a]) [] assets
      in map_option (\<lambda>(r, _). sum_bind r (\<lambda>coinPrices.
           (let priceMapping = foldl (\<lambda>m x. case x of Elem (coinId, price) \<Rightarrow> js_put m coinId price | Arr _ \<Rightarrow> m) [] coinPrices
            in Inr (map (\<lambda>a. assetPriceOf sourceId (ar_chainId a) (ar_address a)
                 (case js_get priceMapping (ca_coingeckoId a) of Some p \<Rightarrow> p | None \<Rightarrow> Undef)) assets))))
         (chunkRunAsync (coingeckoPiece simplePrice) uniqueCoinIds (pieceSize chunkSizeConfig 500) ()))"

section \<open>Debank\<close>

record debank_chain =
  dc_id :: int
  dc_platform :: "string option"

definition debankPiece ::
  "(string \<Rightarrow> string list \<Rightarrow> string + (string \<times> js_num) list) \<Rightarrow> int \<Rightarrow> int \<Rightarrow> string \<Rightarrow> asset_ref list \<Rightarrow> int \<Rightarrow> unit
    \<Rightarrow> (string + asset_price js_item) \<times> unit" where
  "debankPiece tokenList sourceId chainId debankId chunkAssets index s =
     ((case tokenList debankId (map ar_address chunkAssets) of
         Inl e \<Rightarrow> Inl e
       | Inr debankAssets \<Rightarrow> Inr (Arr (map (\<lambda>(i, price). Elem (assetPriceOf sourceId chainId i price)) debankAssets))), s)"

definition fetchChainPrices ::
  "(string \<Rightarrow> string list \<Rightarrow> string + (string \<times> js_num) list) \<Rightarrow> int \<Rightarrow> int option \<Rightarrow> asset_ref list \<Rightarrow> debank_chain
    \<Rightarrow> (string + asset_price list) option" where
  "fetchChainPrices tokenList sourceId chunkSizeConfig assets chain =
     (case dc_platform chain of
        None \<Rightarrow> Some (Inr [])
      | Some debankId \<Rightarrow>
          if debankId = [] then Some (Inr [])
          else (let chainAssets = filter (\<lambda>a. dc_id chain = ar_chainId a) assets
                in map_option (\<lambda>(r, _). sum_bind r (\<lambda>items. Inr (concat (map (\<lambda>x. case x of Elem p \<Rightarrow> [p] | Arr _ \<Rightarrow> []) items))))
                     (chunkRunAsync (debankPiece tokenList sourceId (dc_id chain) debankId) chainAssets (pieceSize chunkSizeConfig 80) ())))"

fun debankPrices ::
  "(string \<Rightarrow> string list \<Rightarrow> string + (string \<times> js_num) list) \<Rightarrow> int \<Rightarrow> int option \<Rightarrow> asset_ref list \<Rightarrow> debank_chain list
    \<Rightarrow> asset_price list \<Rightarrow> asset_price list option" where
  "debankPrices tokenList sourceId chunkSizeConfig assets [] prices = Some prices"
| "debankPrices tokenList sourceId chunkSizeConfig assets (chain # chs) prices =
     (case fetchChainPrices tokenList sourceId chunkSizeConfig assets chain of
        None \<Rightarrow> None
      | Some (Inl e) \<Rightarrow> debankPrices tokenList sourceId chunkSizeConfig assets chs prices
      | Some (Inr chainPrices) \<Rightarrow> debankPrices tokenList sourceId chunkSizeConfig assets chs (prices @ chainPrices))"

section \<open>SundaeSwap\<close>

record sundae_pool =
  su_assetId :: string
  su_decimals :: "nat option"
  su_quantityA :: string
  su_quantityB :: string

definition parseSundaePool :: "int \<Rightarrow> sundae_pool \<Rightarrow> js_num \<Rightarrow> asset_price option" where
  "parseSundaePool sourceId token ADAprice =
     (case su_decimals token of
        None \<Rightarrow> None
      | Some decimals \<Rightarrow> Some (assetPriceOf sourceId (ChainIdEnum Cardano) (su_assetId token)
          (Val (num_mul (dividedBy (normalizeDecimals (numberText (Scalar (su_quantityA token))) 6)
             (normalizeDecimals (numberText (Scalar (su_quantityB token))) decimals)) (case ADAprice of Val n \<Rightarrow> n | _ \<Rightarrow> None)))))"

definition sundaePrices ::
  "('s, cached_price, int) cache_manager \<Rightarrow> 's \<Rightarrow> (int \<Rightarrow> string + sundae_pool list) \<Rightarrow> int \<Rightarrow> int option \<Rightarrow> string + asset_price list" where
  "sundaePrices C s poolsPopular sourceId maxItemsConfig =
     (let maxItems = (case maxItemsConfig of Some n \<Rightarrow> n | None \<Rightarrow> 1000);
          answer = getAssetPrices C [\<lparr> ar_chainId = ChainIdEnum Cardano, ar_address = CARDANO_COIN_ADDRESS \<rparr>] s
      in sum_bind (poolsPopular maxItems) (\<lambda>pools.
           (case answer of
              ADAprice # _ \<Rightarrow> Inr (concat (map (\<lambda>token. case parseSundaePool sourceId token (aa_price ADAprice) of Some p \<Rightarrow> [p] | None \<Rightarrow> []) pools))
            | [] \<Rightarrow> if pools = [] then Inr [] else Inl ''TypeError'')))"

section \<open>Running a source\<close>

datatype price_strategy = CoingeckoStrategy | DebankStrategy | SolanaScanStrategy | SundaeSwapStrategy | Univ2SubgraphStrategy | Univ2NetworkStrategy

definition priceStrategies :: "(string, price_strategy) js_map" where
  "priceStrategies = [(''coingecko'', CoingeckoStrategy), (''debank'', DebankStrategy), (''solana-scan'', SolanaScanStrategy),
     (''sundaeswap'', SundaeSwapStrategy), (''univ2-subgraph'', Univ2SubgraphStrategy), (''univ2-network'', Univ2NetworkStrategy)]"

definition getPriceStrategyType :: "string \<Rightarrow> string + price_strategy" where
  "getPriceStrategyType strategy = (case js_get priceStrategies strategy of
     Some t \<Rightarrow> Inr t | None \<Rightarrow> Inl (''Unknown strategy '' @ strategy))"

text \<open>The job of one source: what the source tells is saved, and nothing is saved when it fails.\<close>

definition updateCurrentPricesFromSource ::
  "('s, cached_price, int) cache_manager \<Rightarrow> int \<Rightarrow> int \<Rightarrow> (nat \<Rightarrow> int) \<Rightarrow> (price_strategy \<Rightarrow> 's \<Rightarrow> string + asset_price list) \<Rightarrow> string \<Rightarrow> 's
    \<Rightarrow> (string + unit) \<times> 's" where
  "updateCurrentPricesFromSource C ttl now clock tell strategy s =
     (case sum_bind (getPriceStrategyType strategy) (\<lambda>t. tell t s) of
        Inl e \<Rightarrow> (Inl e, s)
      | Inr assetsPrices \<Rightarrow> saveAssetPrices C ttl now clock assetsPrices s)"

section \<open>What is loaded\<close>

text \<open>Once the coin has been dealt with, the pages add up to what is left of the list.\<close>

lemma graphPages_rest:
  assumes "\<And>skip. k \<le> skip \<Longrightarrow> page (int skip) = Inr (map f (take c (drop skip ts)))" "0 < c" "int (length ts) < m" "k \<le> n"
  shows "graphPages page m (int n) acc = (None, acc @ map f (drop n ts))"
  using assms(4)
proof (induction "length ts - n" arbitrary: n acc rule: less_induct)
  case less
  let ?piece = "take c (drop n ts)"
  have here: "page (int n) = Inr (map f ?piece)" using assms(1) less.prems by simp
  show ?case
  proof (cases "n < length ts")
    case False
    then show ?thesis by (subst graphPages.simps) (simp add: here)
  next
    case True
    let ?n = "n + length ?piece"
    have grow: "n < ?n" "?n \<le> length ts" using True assms(2) by auto
    have "graphPages page m (int n) acc = graphPages page m (int ?n) (acc @ map f ?piece)"
      using True assms(2,3) grow(2) by (subst graphPages.simps) (simp add: here)
    also have "... = (None, (acc @ map f ?piece) @ map f (drop ?n ts))"
      by (rule less.hyps) (use grow True less.prems in simp_all)
    finally have whole: "graphPages page m (int n) acc = (None, (acc @ map f ?piece) @ map f (drop ?n ts))" .
    have "?piece @ drop ?n ts = drop n ts"
    proof -
      have "drop ?n ts = drop c (drop n ts)" by (cases "c \<le> length ts - n") (simp_all add: min_def add.commute)
      then show ?thesis by (simp only: append_take_drop_id)
    qed
    then have "map f ?piece @ map f (drop ?n ts) = map f (drop n ts)" by (metis map_append)
    with whole show ?thesis by simp
  qed
qed

text \<open>C36: A subgraph that answers every page is loaded in pages, in the order of its list.  When the price of the coin is wanted, it is
  counted as one of the tokens of the first page, so that the token after the first full page is never loaded.\<close>

theorem subgraph_tokens:
  assumes "\<And>skip. 0 \<le> skip \<Longrightarrow>
      post skip c = GraphReplied [] (Some \<lparr> gd_prices = [base], gd_tokens = take (nat c) (drop (nat skip) ts) \<rparr>)"
    and "gc_chunkSize config = Some c" "0 < c" "gc_maxItems config = Some m" "int (length ts) + 1 < m" "gc_wrappedCoin config = None"
  shows "graphPrices post sourceId config = Inr
    (let parse = parseToken sourceId (gc_chainId config) (graphNumber base)
     in if gc_ignoreCoin config then map parse ts
        else map parse (take (nat c) ts) @ [assetPriceOf sourceId (gc_chainId config) COIN_ADDRESS (Val (graphNumber base))]
          @ map parse (drop (Suc (nat c)) ts))"
proof -
  let ?page = "getChunkPrices post sourceId config c"
  let ?parse = "parseToken sourceId (gc_chainId config) (graphNumber base)"
  let ?coin = "assetPriceOf sourceId (gc_chainId config) COIN_ADDRESS (Val (graphNumber base))"
  have page: "?page (int skip) = Inr (map ?parse (take (nat c) (drop skip ts)) @ (if \<not> gc_ignoreCoin config \<and> skip = 0 then [?coin] else []))" for skip
    using assms(1)[of "int skip"] by (simp add: getChunkPrices_def Let_def)
  have c: "0 < nat c" and m: "int (length ts) < m" using assms(3,5) by simp_all
  have "graphPages ?page m 0 [] = (None, if gc_ignoreCoin config then map ?parse ts
      else map ?parse (take (nat c) ts) @ [?coin] @ map ?parse (drop (Suc (nat c)) ts))"
  proof (cases "gc_ignoreCoin config")
    case True
    then show ?thesis using graphPages_rest[of 0 ?page ?parse "nat c" ts m 0 "[]", OF _ c m] page by simp
  next
    case False
    let ?n = "Suc (min (length ts) (nat c))"
    have first: "?page 0 = Inr (map ?parse (take (nat c) ts) @ [?coin])" using page[of 0] False by simp
    have "graphPages ?page m 0 [] = graphPages ?page m (int ?n) (map ?parse (take (nat c) ts) @ [?coin])"
    proof -
      have len: "0 + int (length (map ?parse (take (nat c) ts) @ [?coin])) = int ?n" by simp
      have "int ?n < m" using assms(5) by simp
      then show ?thesis unfolding graphPages.simps[of ?page m 0] first sum.case len by simp
    qed
    also have "... = (None, (map ?parse (take (nat c) ts) @ [?coin]) @ map ?parse (drop ?n ts))"
      by (rule graphPages_rest[of 1, OF _ c m]) (use page in simp_all)
    also have "drop ?n ts = drop (Suc (nat c)) ts" by (simp add: min_def)
    finally show ?thesis using False by simp
  qed
  then show ?thesis using assms(2,4,6) by (auto simp: graphPrices_def Let_def)
qed

definition demoTokens :: "graph_token list" where
  "demoTokens = map (\<lambda>i. \<lparr> gt_id = i, gt_derived = ''1'' \<rparr>) [''a'', ''b'', ''c'']"

theorem subgraph_tokens_witness:
  "\<exists>ps. graphPrices (\<lambda>skip size. GraphReplied [] (Some \<lparr> gd_prices = [None], gd_tokens = take (nat size) (drop (nat skip) demoTokens) \<rparr>)) 7
      \<lparr> gc_chainId = 1, gc_wrappedCoin = None, gc_maxItems = Some 9, gc_chunkSize = Some 1, gc_ignoreCoin = False \<rparr> = Inr ps
    \<and> map ar_address ps = [''a'', COIN_ADDRESS, ''c'']"
proof -
  have small: "int (length demoTokens) + 1 < 9" by (simp add: demoTokens_def)
  show ?thesis
    using subgraph_tokens[of "\<lambda>skip size. GraphReplied [] (Some \<lparr> gd_prices = [None], gd_tokens = take (nat size) (drop (nat skip) demoTokens) \<rparr>)"
        1 None demoTokens "\<lparr> gc_chainId = 1, gc_wrappedCoin = None, gc_maxItems = Some 9, gc_chunkSize = Some 1, gc_ignoreCoin = False \<rparr>" 9 7, OF refl _ _ _ small]
    by (simp add: demoTokens_def parseToken_def assetPriceOf_def)
qed

section \<open>One request of many\<close>

definition priceTable :: "(string \<Rightarrow> js_num) \<Rightarrow> string set \<Rightarrow> string \<Rightarrow> string list \<Rightarrow> string + (string \<Rightarrow> js_num)" where
  "priceTable p bad e ids = (if set ids \<inter> bad = {} then Inr p else Inl e)"

lemma coingecko_pieces:
  "runPieces (coingeckoPiece (priceTable p bad e)) ps u =
    (if set (concat (map fst ps)) \<inter> bad = {} then (Inr (map (\<lambda>(ids, i). Arr (map (\<lambda>x. Elem (x, p x)) ids)) ps), u) else (Inl e, u))"
proof (induction ps arbitrary: u)
  case (Cons q ps)
  obtain ids i where q: "q = (ids, i)" by (cases q)
  show ?case
  proof (cases "set ids \<inter> bad = {}")
    case True
    then have "coingeckoPiece (priceTable p bad e) ids (int i) u = (Inr (Arr (map (\<lambda>x. Elem (x, p x)) ids)), u)"
      by (simp add: coingeckoPiece_def fetchCoinsPrices_def priceTable_def comp_def)
    moreover have "set (concat (map fst (q # ps))) \<inter> bad = {} \<longleftrightarrow> set (concat (map fst ps)) \<inter> bad = {}" using True by (auto simp: q)
    ultimately show ?thesis unfolding q using Cons.IH[of u] by auto
  next
    case False
    then have "coingeckoPiece (priceTable p bad e) ids (int i) u = (Inl e, u)"
      by (simp add: coingeckoPiece_def fetchCoinsPrices_def priceTable_def)
    then show ?thesis using False by (auto simp: q)
  qed
qed simp

lemma unique_ids: "foldl (\<lambda>l a. if f a \<in> set l then l else l @ [f a]) l xs = foldl set_add l (map f xs)"
  by (induction xs arbitrary: l) (simp_all add: set_add_def)

lemma mapping_get:
  "js_get (foldl (\<lambda>m x. case x of Elem (coinId, price) \<Rightarrow> js_put m coinId price | Arr _ \<Rightarrow> m) m (map (\<lambda>x. Elem (x, p x)) xs)) i
    = (if i \<in> set xs then Some (p i) else js_get m i)"
  by (induction xs arbitrary: m) auto

text \<open>When the service answers every request that names no bad coin, each asset gets the price of its coin.  When a coin of any asset
  is bad, no prices are told at all: a failed request for one piece of the coins is meant to cost only that piece, but is not caught.\<close>

theorem coingecko_outcome:
  assumes "\<And>n. chunkSizeConfig = Some n \<Longrightarrow> 0 < n"
  shows "coingeckoPrices (priceTable p bad e) sourceId chunkSizeConfig assets = Some
    (if ca_coingeckoId ` set assets \<inter> bad = {} then Inr (map (\<lambda>a. assetPriceOf sourceId (ar_chainId a) (ar_address a) (p (ca_coingeckoId a))) assets)
     else Inl e)"
proof -
  let ?ids = "js_set (map ca_coingeckoId assets)" and ?n = "nat (pieceSize chunkSizeConfig 500)"
  have n: "0 < ?n" "int ?n = pieceSize chunkSizeConfig 500"
    using assms by (auto simp: pieceSize_def split: option.split)
  obtain ps where ps: "concat (map fst ps) = ?ids"
    and run: "chunkRunAsync (coingeckoPiece (priceTable p bad e)) ?ids (int ?n) () = Some (case runPieces (coingeckoPiece (priceTable p bad e)) ps () of
        (Inl e, s') \<Rightarrow> (Inl e, s') | (Inr rs, s') \<Rightarrow> (Inr (concat (map spread rs)), s'))"
    using chunkRunAsync_partition[OF n(1), of ?ids "coingeckoPiece (priceTable p bad e)" "()"] by auto
  have items: "concat (map spread (map (\<lambda>(ids, i). Arr (map (\<lambda>x. Elem (x, p x)) ids)) ps)) = map (\<lambda>x. Elem (x, p x)) ?ids"
    unfolding ps[symmetric] map_concat by (simp add: comp_def case_prod_beta)
  have ids: "set ?ids = ca_coingeckoId ` set assets" by simp
  show ?thesis
  proof (cases "ca_coingeckoId ` set assets \<inter> bad = {}")
    case True
    then have "chunkRunAsync (coingeckoPiece (priceTable p bad e)) ?ids (pieceSize chunkSizeConfig 500) () = Some (Inr (map (\<lambda>x. Elem (x, p x)) ?ids), ())"
      using run[unfolded n(2) coingecko_pieces ps ids] items by simp
    then show ?thesis using True by (simp add: coingeckoPrices_def unique_ids js_set_def[symmetric] mapping_get)
  next
    case False
    then have "chunkRunAsync (coingeckoPiece (priceTable p bad e)) ?ids (pieceSize chunkSizeConfig 500) () = Some (Inl e, ())"
      using run[unfolded n(2) coingecko_pieces ps ids] by simp
    then show ?thesis using False by (simp add: coingeckoPrices_def unique_ids js_set_def[symmetric])
  qed
qed

theorem coingecko_outcome_witness:
  "coingeckoPrices (priceTable (\<lambda>_. Val (Some 3)) {''x''} ''limit'') 7 (Some 1)
    [\<lparr> ar_chainId = 1, ar_address = ''0xa'', ca_coingeckoId = ''a'' \<rparr>, \<lparr> ar_chainId = 1, ar_address = ''0xx'', ca_coingeckoId = ''x'' \<rparr>] = Some (Inl ''limit'')"
  by (subst coingecko_outcome) simp_all

text \<open>The chains of Debank are isolated from each other.\<close>

lemma debank_isolated:
  assumes "\<And>chain. chain \<in> set chs \<Longrightarrow> fetchChainPrices tokenList sourceId limit assets chain = Some (r chain)"
  shows "debankPrices tokenList sourceId limit assets chs prices
    = Some (prices @ concat (map (\<lambda>chain. case r chain of Inr ps \<Rightarrow> ps | Inl _ \<Rightarrow> []) chs))"
  using assms by (induction chs arbitrary: prices) (auto split: sum.split)

text \<open>The pages of Solana end for a positive piece size.\<close>

lemma solana_returns: "0 < c \<Longrightarrow> \<exists>r. solanaPages page c m skip prices = Some r"
proof (induction "nat (m - skip)" arbitrary: skip prices rule: less_induct)
  case less
  show ?case
  proof (cases "page skip")
    case (Inr ps)
    show ?thesis
    proof (cases "skip + c < m \<and> length ps > 0")
      case True
      then have "\<exists>r. solanaPages page c m (skip + c) (prices @ ps) = Some r" using less by simp
      then show ?thesis using True Inr by (subst solanaPages.simps) simp
    next
      case False
      then show ?thesis using Inr by (subst solanaPages.simps) auto
    qed
  qed (subst solanaPages.simps, simp)
qed

end
