(* ===== verification/ProfitLoss.thy ===== *)
theory ProfitLoss
  imports MasterChef
begin

text \<open>
  \<open>apps/account/src/modules/analytics/profitandloss.service.ts\<close>: what the accounts of a user have gained or lost with one asset, from the
  transfers of the asset and its prices at their times.  The tables of assets, transfers and blacklisted addresses and the price service are
  parameters; times are whole seconds.
\<close>

section \<open>Data\<close>

record pl_asset =
  pa_address :: string
  pa_decimals :: nat
  pa_analytic :: bool

record pl_transfer =
  pt_from :: string
  pt_to :: string
  pt_time :: int
  pt_amount :: string

record pl_data =
  pl_profitAndLoss :: js_number
  pl_profitAndLoss24h :: js_number
  pl_averageCost :: js_number

record pl_response =
  pr_ok :: bool
  pr_errors :: "string list"
  pr_data :: "pl_data option"

text \<open>The prices of an asset by time, for every asset that the price service knows.\<close>

type_synonym price_history = "string \<Rightarrow> (int \<Rightarrow> js_num) option"

section \<open>One span of time\<close>

definition decimalsAmount :: "string \<Rightarrow> nat \<Rightarrow> js_number" where
  "decimalsAmount amount decimals = normalizeDecimals (numberText (Scalar amount)) decimals"

definition roundEight :: "rat \<Rightarrow> rat" where
  "roundEight r = (let n = of_int \<lfloor>\<bar>r\<bar> * 10 ^ 8 + 1 / 2\<rfloor> / 10 ^ 8 in if r < 0 then - n else n)"

definition toFixed8 :: "js_number \<Rightarrow> js_number" where
  "toFixed8 n = map_option roundEight n"

definition balanceStep :: "pl_asset \<Rightarrow> string list \<Rightarrow> js_number \<Rightarrow> pl_transfer \<Rightarrow> js_number" where
  "balanceStep asset addresses balance t =
     (let amount = decimalsAmount (pt_amount t) (pa_decimals asset);
          b1 = (if pt_from t \<in> set addresses then num_sub balance amount else balance)
      in if pt_to t \<in> set addresses then num_add b1 amount else b1)"

text \<open>Sent amount and value, received amount and value.\<close>

type_synonym flows = "js_number \<times> js_number \<times> js_number \<times> js_number"

definition flowStep :: "pl_asset \<Rightarrow> string list \<Rightarrow> (int \<Rightarrow> js_num) \<Rightarrow> flows \<Rightarrow> pl_transfer \<Rightarrow> flows" where
  "flowStep asset addresses price = (\<lambda>(sent, sentValue, received, receivedValue) t.
     (let amount = decimalsAmount (pt_amount t) (pa_decimals asset);
          v = num_mul amount (numberOf (price (pt_time t)));
          (s, sv) = (if pt_from t \<in> set addresses then (num_add sent amount, num_add sentValue v) else (sent, sentValue))
      in if pt_to t \<in> set addresses then (s, sv, num_add received amount, num_add receivedValue v) else (s, sv, received, receivedValue)))"

definition calculateProfitAndLoss ::
  "pl_asset \<Rightarrow> pl_transfer list \<Rightarrow> string list \<Rightarrow> price_history \<Rightarrow> int \<Rightarrow> int \<Rightarrow> string + js_number \<times> js_number" where
  "calculateProfitAndLoss asset transfers addresses priceData fromTimestamp toTimestamp =
     (let transfersForBalanceStart = filter (\<lambda>t. pt_time t < fromTimestamp) transfers;
          transfersForProfitAndLoss = filter (\<lambda>t. pt_time t \<ge> fromTimestamp \<and> pt_time t \<le> toTimestamp) transfers;
          tokenBalanceStart = foldl (balanceStep asset addresses) (Some 0) transfersForBalanceStart
      in case priceData (pa_address asset) of
           None \<Rightarrow> Inl ''TypeError''
         | Some price \<Rightarrow>
             (let tokenBalanceStartValue = num_mul tokenBalanceStart (numberOf (price fromTimestamp));
                  (sent, sentValue, received, receivedValue) = foldl (flowStep asset addresses price) (Some 0, Some 0, Some 0, Some 0) transfersForProfitAndLoss;
                  weightedPrice = (if received \<noteq> Some 0 then num_div receivedValue received else Some 0);
                  tokenBalanceEndValue = num_mul (num_sub (num_add tokenBalanceStart received) sent) (numberOf (price toTimestamp));
                  tokenBalanceChangeValue = num_sub tokenBalanceEndValue tokenBalanceStartValue;
                  tokenNetReceiveValueTotal = num_sub receivedValue sentValue
              in Inr (toFixed8 (num_sub tokenBalanceChangeValue tokenNetReceiveValueTotal), toFixed8 weightedPrice)))"

section \<open>The request\<close>

definition SECONDS_IN_DAY :: int where
  "SECONDS_IN_DAY = 86400"

definition getProfitAndLoss ::
  "(string + pl_asset option) \<Rightarrow> (string list \<Rightarrow> string + string list) \<Rightarrow> (pl_asset \<Rightarrow> string list \<Rightarrow> string + pl_transfer list)
    \<Rightarrow> (string \<Rightarrow> int list \<Rightarrow> string + price_history) \<Rightarrow> int \<Rightarrow> string \<Rightarrow> string list \<Rightarrow> string + pl_response" where
  "getProfitAndLoss found blacklisted queryTransfers getHistoricalPrices currentTimestamp assetAddress addresses =
     sum_bind found (\<lambda>a. case a of
       None \<Rightarrow> Inl ''TypeError''
     | Some asset \<Rightarrow> sum_bind (blacklisted addresses) (\<lambda>addressBlacklisted.
         (let errors = (if pa_analytic asset then [] else [''Asset with address '' @ assetAddress @ '' is not ready''])
            @ (if addressBlacklisted \<noteq> [] then [''Found blacklisted addresses: '' @ join_with '','' addressBlacklisted] else [])
          in if errors \<noteq> [] then Inr \<lparr> pr_ok = False, pr_errors = errors, pr_data = None \<rparr>
             else sum_bind (queryTransfers asset addresses) (\<lambda>transfers.
               if transfers = [] then Inr \<lparr> pr_ok = True, pr_errors = [],
                   pr_data = Some \<lparr> pl_profitAndLoss = Some 0, pl_profitAndLoss24h = Some 0, pl_averageCost = Some 0 \<rparr> \<rparr>
               else (let timestamp24hAgo = currentTimestamp - SECONDS_IN_DAY;
                         sorted_transfers = sort_key pt_time transfers;
                         fromTimestamp = pt_time (hd sorted_transfers)
                     in sum_bind (getHistoricalPrices (pa_address asset) (map pt_time transfers @ [currentTimestamp, timestamp24hAgo])) (\<lambda>priceData.
                        sum_bind (calculateProfitAndLoss asset sorted_transfers addresses priceData fromTimestamp currentTimestamp) (\<lambda>(total, average).
                        sum_bind (calculateProfitAndLoss asset sorted_transfers addresses priceData timestamp24hAgo currentTimestamp) (\<lambda>(total24, _).
                          Inr \<lparr> pr_ok = True, pr_errors = [], pr_data = Some \<lparr> pl_profitAndLoss = total, pl_profitAndLoss24h = total24,
                            pl_averageCost = average \<rparr> \<rparr>))))))))"

section \<open>What a transfer gains\<close>

text \<open>What a transfer adds to the balance of the accounts: nothing when it moves the asset between two of them.\<close>

definition amountIn :: "pl_asset \<Rightarrow> pl_transfer \<Rightarrow> rat" where
  "amountIn asset t = valueOf (decimalsAmount (pt_amount t) (pa_decimals asset))"

definition netAmount :: "pl_asset \<Rightarrow> string list \<Rightarrow> pl_transfer \<Rightarrow> rat" where
  "netAmount asset addresses t = (if pt_to t \<in> set addresses then amountIn asset t else 0) - (if pt_from t \<in> set addresses then amountIn asset t else 0)"

definition readable :: "pl_asset \<Rightarrow> pl_transfer list \<Rightarrow> bool" where
  "readable asset ts \<longleftrightarrow> (\<forall>t\<in>set ts. decimalsAmount (pt_amount t) (pa_decimals asset) \<noteq> None)"

lemma balance_sum:
  "readable asset ts \<Longrightarrow> foldl (balanceStep asset addresses) (Some b) ts = Some (b + sum_list (map (netAmount asset addresses) ts))"
proof (induction ts arbitrary: b)
  case (Cons t ts)
  obtain a where a: "decimalsAmount (pt_amount t) (pa_decimals asset) = Some a" using Cons.prems by (auto simp: readable_def)
  have "balanceStep asset addresses (Some b) t = Some (b + netAmount asset addresses t)"
    by (simp add: balanceStep_def netAmount_def amountIn_def a valueOf_def Let_def)
  then show ?case using Cons by (simp add: readable_def add.assoc)
qed simp

abbreviation priceAt :: "(int \<Rightarrow> js_num) \<Rightarrow> int \<Rightarrow> rat" where
  "priceAt price time \<equiv> valueOf (numberOf (price time))"

lemma flow_sums:
  assumes "readable asset ts" "\<forall>t\<in>set ts. numberOf (price (pt_time t)) \<noteq> None"
  shows "\<exists>s sv r rv. foldl (flowStep asset addresses price) (Some s0, Some sv0, Some r0, Some rv0) ts = (Some s, Some sv, Some r, Some rv)
    \<and> r - s = r0 - s0 + sum_list (map (netAmount asset addresses) ts)
    \<and> rv - sv = rv0 - sv0 + sum_list (map (\<lambda>t. netAmount asset addresses t * priceAt price (pt_time t)) ts)"
  using assms
proof (induction ts arbitrary: s0 sv0 r0 rv0)
  case (Cons t ts)
  obtain a where a: "decimalsAmount (pt_amount t) (pa_decimals asset) = Some a" using Cons.prems by (auto simp: readable_def)
  obtain p where p: "numberOf (price (pt_time t)) = Some p" using Cons.prems by auto
  define s1 where "s1 = (if pt_from t \<in> set addresses then s0 + a else s0)"
  define sv1 where "sv1 = (if pt_from t \<in> set addresses then sv0 + a * p else sv0)"
  define r1 where "r1 = (if pt_to t \<in> set addresses then r0 + a else r0)"
  define rv1 where "rv1 = (if pt_to t \<in> set addresses then rv0 + a * p else rv0)"
  have step: "flowStep asset addresses price (Some s0, Some sv0, Some r0, Some rv0) t = (Some s1, Some sv1, Some r1, Some rv1)"
    by (simp add: flowStep_def a p s1_def sv1_def r1_def rv1_def Let_def)
  have net: "r1 - s1 = r0 - s0 + netAmount asset addresses t" "rv1 - sv1 = rv0 - sv0 + netAmount asset addresses t * priceAt price (pt_time t)"
    by (simp_all add: s1_def sv1_def r1_def rv1_def netAmount_def amountIn_def a p valueOf_def algebra_simps)
  have "readable asset ts" "\<forall>t\<in>set ts. numberOf (price (pt_time t)) \<noteq> None" using Cons.prems by (simp_all add: readable_def)
  from Cons.IH[OF this, of s1 sv1 r1 rv1] show ?case unfolding foldl_Cons step using net by (auto simp: algebra_simps)
qed simp

lemma span_gain:
  assumes "readable asset ts" "priceData (pa_address asset) = Some price"
    and "\<forall>t\<in>set ts. numberOf (price (pt_time t)) \<noteq> None" "numberOf (price a) \<noteq> None" "numberOf (price b) \<noteq> None"
  shows "\<exists>average. calculateProfitAndLoss asset ts addresses priceData a b = Inr (Some (roundEight
      (sum_list (map (netAmount asset addresses) (filter (\<lambda>t. pt_time t < a) ts)) * (priceAt price b - priceAt price a)
       + sum_list (map (\<lambda>t. netAmount asset addresses t * (priceAt price b - priceAt price (pt_time t))) (filter (\<lambda>t. pt_time t \<ge> a \<and> pt_time t \<le> b) ts)))), average)"
proof -
  let ?before = "filter (\<lambda>t. pt_time t < a) ts" and ?in = "filter (\<lambda>t. pt_time t \<ge> a \<and> pt_time t \<le> b) ts"
  have "readable asset ?before" "readable asset ?in" "\<forall>t\<in>set ?in. numberOf (price (pt_time t)) \<noteq> None"
    using assms(1,3) by (auto simp: readable_def)
  note start = balance_sum[OF this(1), of addresses 0] and flow = flow_sums[OF this(2,3), of addresses 0 0 0 0]
  obtain pa pb where p: "numberOf (price a) = Some pa" "numberOf (price b) = Some pb" using assms(4,5) by auto
  obtain s sv r rv where run: "foldl (flowStep asset addresses price) (Some 0, Some 0, Some 0, Some 0) ?in = (Some s, Some sv, Some r, Some rv)"
    and r: "r - s = sum_list (map (netAmount asset addresses) ?in)"
    and rv: "rv - sv = sum_list (map (\<lambda>t. netAmount asset addresses t * priceAt price (pt_time t)) ?in)"
    using flow by auto
  let ?b0 = "sum_list (map (netAmount asset addresses) ?before)"
  have "(?b0 + r - s) * pb - ?b0 * pa - (rv - sv)
      = ?b0 * (pb - pa) + (sum_list (map (netAmount asset addresses) ?in) * pb - sum_list (map (\<lambda>t. netAmount asset addresses t * priceAt price (pt_time t)) ?in))"
    unfolding rv r[symmetric] by (simp add: algebra_simps)
  also have "sum_list (map (netAmount asset addresses) xs) * pb - sum_list (map (\<lambda>t. netAmount asset addresses t * priceAt price (pt_time t)) xs)
      = sum_list (map (\<lambda>t. netAmount asset addresses t * (pb - priceAt price (pt_time t))) xs)" for xs
    by (induction xs) (simp_all add: algebra_simps)
  finally show ?thesis using start
    by (simp add: calculateProfitAndLoss_def Let_def run assms(2) p toFixed8_def valueOf_def)
qed

text \<open>C23: The gain of an asset is the sum, over its transfers up to now, of the amount that the transfer brought in or took out times the
  change of the price since then, rounded to eight places.  Transfers between the accounts of the user do not count.  The gain of a day
  counts what was held at its beginning with the change of the price over the day.\<close>

theorem profit_and_loss:
  assumes "getProfitAndLoss (Inr (Some asset)) blacklisted queryTransfers getHistoricalPrices now assetAddress addresses
      = Inr \<lparr> pr_ok = True, pr_errors = errors, pr_data = Some d \<rparr>"
    and "queryTransfers asset addresses = Inr ts" "ts \<noteq> []" "readable asset ts"
    and "getHistoricalPrices (pa_address asset) (map pt_time ts @ [now, now - SECONDS_IN_DAY]) = Inr priceData" "priceData (pa_address asset) = Some price"
    and "\<forall>time\<in>set (map pt_time ts @ [now, now - SECONDS_IN_DAY]). numberOf (price time) \<noteq> None"
  shows "pl_profitAndLoss d = Some (roundEight (sum_list (map (\<lambda>t. netAmount asset addresses t * (priceAt price now - priceAt price (pt_time t)))
      (filter (\<lambda>t. pt_time t \<le> now) (sort_key pt_time ts)))))
    \<and> pl_profitAndLoss24h d = Some (roundEight
      (sum_list (map (netAmount asset addresses) (filter (\<lambda>t. pt_time t < now - SECONDS_IN_DAY) (sort_key pt_time ts)))
         * (priceAt price now - priceAt price (now - SECONDS_IN_DAY))
       + sum_list (map (\<lambda>t. netAmount asset addresses t * (priceAt price now - priceAt price (pt_time t)))
           (filter (\<lambda>t. pt_time t \<ge> now - SECONDS_IN_DAY \<and> pt_time t \<le> now) (sort_key pt_time ts)))))"
proof -
  let ?ts = "sort_key pt_time ts"
  let ?from = "pt_time (hd ?ts)"
  have ts: "readable asset ?ts" "\<forall>t\<in>set ?ts. numberOf (price (pt_time t)) \<noteq> None" using assms(4,7) by (simp_all add: readable_def)
  have some: "?ts \<noteq> []" using assms(3) by (metis length_0_conv length_sort)
  then have member: "hd ?ts \<in> set ?ts" by (rule hd_in_set)
  then have ends: "numberOf (price ?from) \<noteq> None" "numberOf (price now) \<noteq> None" "numberOf (price (now - SECONDS_IN_DAY)) \<noteq> None"
    using ts(2) assms(7) by auto
  have first: "?from \<le> pt_time t" if "t \<in> set ?ts" for t
  proof -
    have "sorted (map pt_time ?ts)" by simp
    then show ?thesis using that some by (cases ?ts) auto
  qed
  have none: "filter (\<lambda>t. pt_time t < ?from) ?ts = []" using first by (fastforce simp: filter_empty_conv)
  have all: "filter (\<lambda>t. pt_time t \<ge> ?from \<and> pt_time t \<le> now) ?ts = filter (\<lambda>t. pt_time t \<le> now) ?ts"
    by (rule filter_cong[OF refl]) (use first in simp)
  note whole = span_gain[where asset = asset and ts = ?ts and price = price and priceData = priceData and a = ?from and b = now and addresses = addresses, OF ts(1) assms(6) ts(2) ends(1,2), unfolded none all]
  note day = span_gain[where asset = asset and ts = ?ts and price = price and priceData = priceData and a = "now - SECONDS_IN_DAY" and b = now and addresses = addresses, OF ts(1) assms(6) ts(2) ends(3,2)]
  show ?thesis using assms(1-3,5) whole day
    by (auto simp: getProfitAndLoss_def Let_def sum_bind_Inr_iff split: if_splits)
qed

definition demoHolding :: pl_asset where
  "demoHolding = \<lparr> pa_address = ''a'', pa_decimals = 0, pa_analytic = True \<rparr>"

definition demoReceipt :: pl_transfer where
  "demoReceipt = \<lparr> pt_from = ''x'', pt_to = ''me'', pt_time = 100, pt_amount = ''5'' \<rparr>"

definition demoHistory :: price_history where
  "demoHistory = (\<lambda>a. Some (\<lambda>time. Val (Some (if time = 100 then 1 else 3))))"

lemma demo_amount: "decimalsAmount ''5'' 0 = Some 5"
  by (simp add: decimalsAmount_def normalizeDecimals_def dividedBy_def roundPlaces_def text_number_def unsigned_number_def
      trim_def is_space_def to_lower_def is_digit_def exponent_def scale_number_def Let_def floor_eq_iff)

theorem profit_and_loss_witness:
  "\<exists>d. getProfitAndLoss (Inr (Some demoHolding)) (\<lambda>_. Inr []) (\<lambda>_ _. Inr [demoReceipt]) (\<lambda>_ _. Inr demoHistory) 200000 ''a'' [''me'']
      = Inr \<lparr> pr_ok = True, pr_errors = [], pr_data = Some d \<rparr>
    \<and> pl_profitAndLoss d = Some (roundEight 10)"
proof -
  let ?run = "getProfitAndLoss (Inr (Some demoHolding)) (\<lambda>_. Inr []) (\<lambda>_ _. Inr [demoReceipt]) (\<lambda>_ _. Inr demoHistory) 200000 ''a'' [''me'']"
  have "\<exists>d. ?run = Inr \<lparr> pr_ok = True, pr_errors = [], pr_data = Some d \<rparr>"
    by (simp add: getProfitAndLoss_def calculateProfitAndLoss_def demoHolding_def demoHistory_def Let_def split: prod.split)
  then obtain d where run: "?run = Inr \<lparr> pr_ok = True, pr_errors = [], pr_data = Some d \<rparr>" ..
  have "readable demoHolding [demoReceipt]" by (simp add: readable_def demoHolding_def demoReceipt_def demo_amount)
  from profit_and_loss[OF run refl _ this refl, of "\<lambda>time. Val (Some (if time = 100 then 1 else 3))"]
  have "pl_profitAndLoss d = Some (roundEight 10)"
    by (simp add: demoHistory_def netAmount_def amountIn_def demoReceipt_def demoHolding_def demo_amount valueOf_def)
  with run show ?thesis by blast
qed

text \<open>An asset that the table does not have is meant to be answered with a message, but fails the request.\<close>

lemma unknown_asset_throws:
  "getProfitAndLoss (Inr None) blacklisted queryTransfers getHistoricalPrices now assetAddress addresses = Inl ''TypeError''"
  by (simp add: getProfitAndLoss_def)

text \<open>Without transfers before the end of the span, and for transfers between the accounts alone, nothing is gained.\<close>

lemma internal_transfers_gain_nothing:
  "\<forall>t\<in>set ts. pt_from t \<in> set addresses \<and> pt_to t \<in> set addresses \<Longrightarrow> sum_list (map (\<lambda>t. netAmount asset addresses t * f t) ts) = 0"
  by (induction ts) (simp_all add: netAmount_def)

end
