(* ===== verification/Opportunities.thy ===== *)
theory Opportunities
  imports MasterChef "HOL-Library.Multiset"
begin

text \<open>
  \<open>apps/opportunities/src/modules/opportunity\<close>: the opportunities to invest that the two adapters \<open>internal.v2.adapter.ts\<close> and
  \<open>internal.v3.adapter.ts\<close> make of what the integration service knows, and how \<open>opportunity.adapter.service.ts\<close> and
  \<open>opportunity.service.ts\<close> replace the table of opportunities with them.  The integration service, the cache and the table of farms are
  parameters; so are the exponential function and the logarithm between yearly rates and yields.  Requests that the code starts together
  are handled in the order in which their answers arrive.
\<close>

section \<open>Data\<close>

record farm =
  fm_id :: nat
  fm_name :: string
  fm_url :: string

datatype vault_type = PoolVault | StablePool | SingleStake | NoIl | LendingVault

record shown_token =
  sh_address :: "string option"
  sh_symbol :: "string option"
  sh_name :: "string option"

record weighted_token = shown_token +
  sh_weight :: "js_number option"

record deposit_token = shown_token +
  de_tokens :: "weighted_token list option"

text \<open>
  Numbers that are computed from rates: the exponential function of a large rate is infinite, the logarithm of zero is minus infinity, and
  both are truthy.  The numbers of the answers come as JSON and are finite.  \<open>null\<close> counts as \<open>NotANumber\<close>: it is falsy as well.
\<close>

datatype js_real = Real rat | Infinite bool | NotANumber

definition realOf :: "js_number \<Rightarrow> js_real" where
  "realOf n = (case n of Some r \<Rightarrow> Real r | None \<Rightarrow> NotANumber)"

definition truthyReal :: "js_real \<Rightarrow> bool" where
  "truthyReal n \<longleftrightarrow> n \<noteq> NotANumber \<and> n \<noteq> Real 0"

record farm_opportunity =
  op_farm :: farm
  op_source :: string
  op_sourceId :: string
  op_chainId :: int
  op_apr :: js_real
  op_apy :: js_real
  op_investmentUrl :: "string option"
  op_totalValueLocked :: js_num
  op_categories :: "vault_type list"
  op_rewards :: "shown_token list"
  op_deposit :: deposit_token

definition roundThousandth :: "js_number \<Rightarrow> js_number" where
  "roundThousandth n = map_option (\<lambda>r. of_int \<lfloor>r * 1000 + 1 / 2\<rfloor> / 1000) n"

definition numSum :: "js_num list \<Rightarrow> js_number" where
  "numSum vs = foldl (\<lambda>acc v. num_add acc (numberOf v)) (Some 0) vs"

text \<open>A number that is \<open>NaN\<close> or zero gives way to zero; an infinite one stays.\<close>

definition orZeroReal :: "js_real \<Rightarrow> js_real" where
  "orZeroReal n = (if truthyReal n then n else Real 0)"

text \<open>The same of a number of an answer, which is finite.\<close>

definition orZeroNumber :: "js_number \<Rightarrow> js_number" where
  "orZeroNumber n = (if truthy_num n then n else Some 0)"

text \<open>Yields of continuous compounding; the exponential function and the logarithm are parameters.\<close>

definition aprToApy :: "(rat \<Rightarrow> js_real) \<Rightarrow> rat \<Rightarrow> js_real" where
  "aprToApy exponential rateForPeriod = (case exponential rateForPeriod of Real x \<Rightarrow> Real (x - 1) | n \<Rightarrow> n)"

definition apyToApr :: "(rat \<Rightarrow> js_real) \<Rightarrow> rat \<Rightarrow> js_real" where
  "apyToApr logarithm rateForYear = logarithm (rateForYear + 1)"

section \<open>Items of the third version\<close>

record under_token = shown_token +
  un_reserve :: js_num
  un_price :: js_num

record vault_token = shown_token +
  va_underlying :: "under_token list option"

record supplied_item =
  si_token :: vault_token
  si_tvl :: js_num
  si_aprYear :: js_num
  si_supplyApy :: js_num

record rewarded_item =
  re_token :: shown_token
  re_aprYear :: js_num

record v3_item =
  vi_id :: string
  vi_chain :: int
  vi_feature :: string
  vi_link :: "string option"
  vi_supplied :: "supplied_item list option"
  vi_rewarded :: "rewarded_item list option"

definition firstTruthy :: "js_num \<Rightarrow> js_num \<Rightarrow> js_num" where
  "firstTruthy a b = (if truthyValue a then a else if truthyValue b then b else Val (Some 0))"

definition getTotalApr :: "v3_item \<Rightarrow> js_number" where
  "getTotalApr item =
     num_add (case vi_supplied item of None \<Rightarrow> Some 0 | Some ss \<Rightarrow> numSum (map (\<lambda>s. firstTruthy (si_aprYear s) (si_supplyApy s)) ss))
       (case vi_rewarded item of None \<Rightarrow> Some 0 | Some rs \<Rightarrow> numSum (map (\<lambda>r. firstTruthy (re_aprYear r) (Val (Some 0))) rs))"

definition getRewardTokens :: "v3_item \<Rightarrow> shown_token list" where
  "getRewardTokens item = (case vi_rewarded item of None \<Rightarrow> [] | Some rs \<Rightarrow> map (\<lambda>r. shown_token.truncate (re_token r)) rs)"

definition underlyingWeight :: "js_number \<Rightarrow> under_token \<Rightarrow> weighted_token" where
  "underlyingWeight tvl token =
     (let total = num_mul (numberOf (un_reserve token)) (numberOf (un_price token))
      in \<lparr> sh_address = sh_address token, sh_symbol = sh_symbol token, sh_name = sh_name token,
           sh_weight = (if truthy_num total then Some (roundThousandth (num_div total tvl)) else None) \<rparr>)"

definition getDepositToken :: "supplied_item list \<Rightarrow> string + deposit_token" where
  "getDepositToken supplied =
     (case supplied of
        [] \<Rightarrow> Inl ''TypeError''
      | s # _ \<Rightarrow> (let tvl = numSum (map si_tvl supplied); token = si_token s
          in Inr \<lparr> sh_address = sh_address token, sh_symbol = sh_symbol token, sh_name = sh_name token,
               de_tokens = Some (case va_underlying token of None \<Rightarrow> [] | Some us \<Rightarrow> map (underlyingWeight tvl) us) \<rparr>))"

definition underlyingCount :: "supplied_item \<Rightarrow> nat" where
  "underlyingCount s = (case va_underlying (si_token s) of None \<Rightarrow> 0 | Some us \<Rightarrow> length us)"

definition vaultIsPool :: "v3_item \<Rightarrow> supplied_item list \<Rightarrow> bool" where
  "vaultIsPool item tokens \<longleftrightarrow> length tokens = 1 \<and> underlyingCount (hd tokens) \<ge> 2 \<or> vi_feature item = ''pools''"

definition vaultIsSingleStake :: "supplied_item list \<Rightarrow> string + bool" where
  "vaultIsSingleStake tokens = (case tokens of [] \<Rightarrow> Inl ''TypeError'' | s # _ \<Rightarrow> Inr (length tokens = 1 \<and> underlyingCount s < 2))"

definition getVaultCategories :: "v3_item \<Rightarrow> supplied_item list \<Rightarrow> string + vault_type list" where
  "getVaultCategories item supplied = sum_bind (vaultIsSingleStake supplied) (\<lambda>single.
     Inr ((if vaultIsPool item supplied then [PoolVault] else []) @ (if single then [SingleStake] else [])
       @ (if vi_feature item = ''lending'' then [LendingVault] else [])))"

text \<open>One item, which throws without the tokens that it is supplied with.\<close>

definition v3Opportunity :: "(rat \<Rightarrow> js_real) \<Rightarrow> farm \<Rightarrow> v3_item \<Rightarrow> string + farm_opportunity" where
  "v3Opportunity exponential farm item =
     (case vi_supplied item of
        None \<Rightarrow> Inl ''TypeError''
      | Some supplied \<Rightarrow>
          (let totalApr = getTotalApr item; totalApy = (case totalApr of None \<Rightarrow> NotANumber | Some r \<Rightarrow> aprToApy exponential r); tvl = numSum (map si_tvl supplied)
           in sum_bind (getVaultCategories item supplied) (\<lambda>categories.
              sum_bind (getDepositToken supplied) (\<lambda>deposit.
                Inr \<lparr> op_farm = farm, op_source = ''internal_v3'', op_sourceId = vi_id item, op_chainId = vi_chain item,
                  op_apr = orZeroReal (realOf totalApr), op_apy = orZeroReal totalApy, op_investmentUrl = vi_link item,
                  op_totalValueLocked = Val (orZeroNumber tvl), op_categories = categories, op_rewards = getRewardTokens item,
                  op_deposit = deposit \<rparr>))))"

text \<open>The items of one protocol: the first one that throws ends them, what was gathered before stays.\<close>

fun v3Items :: "(rat \<Rightarrow> js_real) \<Rightarrow> farm \<Rightarrow> v3_item list \<Rightarrow> farm_opportunity list \<Rightarrow> farm_opportunity list" where
  "v3Items exponential farm [] opportunities = opportunities"
| "v3Items exponential farm (item # items) opportunities =
     (case v3Opportunity exponential farm item of
        Inl e \<Rightarrow> opportunities
      | Inr o1 \<Rightarrow> v3Items exponential farm items (if truthyReal (op_apr o1) then opportunities @ [o1] else opportunities))"

record v3_protocol =
  vp_slug :: string
  vp_links :: "string option option"
  vp_chains :: "int list"

definition farmMapOf :: "farm list \<Rightarrow> (string, farm) js_map" where
  "farmMapOf farms = foldl (\<lambda>m f. js_put m (fm_name f) f) [] farms"

definition v3Protocol ::
  "(rat \<Rightarrow> js_real) \<Rightarrow> (string \<Rightarrow> int list \<Rightarrow> string + v3_item list) \<Rightarrow> (string, farm) js_map \<Rightarrow> farm_opportunity list \<Rightarrow> v3_protocol \<Rightarrow> farm_opportunity list" where
  "v3Protocol exponential getOpportunities included opportunities protocol =
     (case js_get included (vp_slug protocol) of
        None \<Rightarrow> opportunities
      | Some farm \<Rightarrow> (case getOpportunities (vp_slug protocol) (vp_chains protocol) of
          Inl e \<Rightarrow> opportunities
        | Inr items \<Rightarrow> v3Items exponential farm items opportunities))"

definition v3Opportunities ::
  "(rat \<Rightarrow> js_real) \<Rightarrow> (string \<Rightarrow> int list \<Rightarrow> string + v3_item list) \<Rightarrow> farm list \<Rightarrow> v3_protocol list \<Rightarrow> farm_opportunity list" where
  "v3Opportunities exponential getOpportunities farms protocols =
     foldl (v3Protocol exponential getOpportunities (farmMapOf farms)) [] protocols"

section \<open>The table of farms\<close>

record 'd farm_repository =
  fr_findAllByName :: "string list \<Rightarrow> 'd \<Rightarrow> farm list"
  fr_insertMany :: "(string \<times> string) list \<Rightarrow> 'd \<Rightarrow> farm list \<times> 'd"
  fr_update :: "farm \<Rightarrow> 'd \<Rightarrow> 'd"

text \<open>What the table promises: it finds its rows by name, and returns the rows that it inserts, in some order.\<close>

definition farmTable :: "'d farm_repository \<Rightarrow> ('d \<Rightarrow> farm list) \<Rightarrow> bool" where
  "farmTable R rows \<longleftrightarrow> (\<forall>names d. set (fr_findAllByName R names d) = {f \<in> set (rows d). fm_name f \<in> set names})
     \<and> (\<forall>new d. mset (map (\<lambda>f. (fm_name f, fm_url f)) (fst (fr_insertMany R new d))) = mset new
         \<and> set (rows (snd (fr_insertMany R new d))) = set (rows d) \<union> set (fst (fr_insertMany R new d)))"

text \<open>
  A farm that the table does not have is new; a farm whose link has changed is written back.  A protocol without links throws.
  The farms are objects: the new link is seen in the list of farms too.
\<close>

definition setUrl :: "string \<Rightarrow> string \<Rightarrow> farm list \<Rightarrow> farm list" where
  "setUrl name url farms =
     (case find (\<lambda>i. fm_name (farms ! i) = name) (rev [0..<length farms]) of
        None \<Rightarrow> farms | Some i \<Rightarrow> farms[i := (farms ! i)\<lparr> fm_url := url \<rparr>])"

definition v3FarmStep ::
  "farm list \<times> (string \<times> string) list \<times> string list \<Rightarrow> v3_protocol \<Rightarrow> string + farm list \<times> (string \<times> string) list \<times> string list" where
  "v3FarmStep = (\<lambda>(farms, missing, updating) protocol.
     (case vp_links protocol of
        None \<Rightarrow> Inl ''TypeError''
      | Some url \<Rightarrow>
          (case js_get (farmMapOf farms) (vp_slug protocol) of
             None \<Rightarrow> Inr (farms, missing @ [(vp_slug protocol, case url of Some u \<Rightarrow> u | None \<Rightarrow> [])], updating)
           | Some farm \<Rightarrow> (case url of
               Some u \<Rightarrow> if fm_url farm \<noteq> u \<and> u \<noteq> [] then Inr (setUrl (vp_slug protocol) u farms, missing, updating @ [vp_slug protocol])
                 else Inr (farms, missing, updating)
             | None \<Rightarrow> Inr (farms, missing, updating)))))"

definition v3LoadFarms :: "'d farm_repository \<Rightarrow> v3_protocol list \<Rightarrow> 'd \<Rightarrow> (string + farm list) \<times> 'd" where
  "v3LoadFarms R protocols d =
     (case sum_foldl v3FarmStep (fr_findAllByName R (js_set (map vp_slug protocols)) d, [], []) protocols of
        Inl e \<Rightarrow> (Inl e, d)
      | Inr (farms, missing, updating) \<Rightarrow>
          (let d1 = foldl (\<lambda>d name. case js_get (farmMapOf farms) name of Some f \<Rightarrow> fr_update R f d | None \<Rightarrow> d) d updating;
               (missed, d2) = fr_insertMany R missing d1
           in (Inr (farms @ missed), d2)))"

section \<open>Items of the second version\<close>

record vault_base = vault_token +
  vb_tokens :: "under_token list option"
  vb_price :: js_num
  vb_totalSupply :: js_num

record v2_reward = shown_token +
  vr_apr :: js_num

record v2_stats =
  vs_poolApy :: js_num
  vs_apy :: js_num
  vs_tvl :: js_num

text \<open>A reward may be absent; the address of a token may be absent or empty.\<close>

record v2_item =
  v2_rewards :: "v2_reward option list option"
  v2_stats :: "v2_stats option"
  v2_lpToken :: "vault_base option"
  v2_stakingToken :: "vault_base option"
  v2_tokens :: "under_token list option"

definition firstGiven :: "js_num \<Rightarrow> js_num \<Rightarrow> js_num" where
  "firstGiven a b = (case a of Val n \<Rightarrow> Val n | _ \<Rightarrow> b)"

text \<open>A rate in percent as a share, \<open>None\<close> when it is no number or zero.\<close>

definition percentShare :: "js_number \<Rightarrow> js_number" where
  "percentShare n = (let q = num_div n (Some 100) in if truthy_num q then q else None)"

definition storedApr :: "v2_item \<Rightarrow> js_number" where
  "storedApr item = (case v2_rewards item of
     None \<Rightarrow> None
   | Some rs \<Rightarrow> percentShare (numSum (map (\<lambda>r. case r of None \<Rightarrow> Val (Some 0) | Some x \<Rightarrow> firstGiven (vr_apr x) (Val (Some 0))) rs)))"

definition storedApy :: "v2_stats \<Rightarrow> js_number" where
  "storedApy stats = percentShare (numberOf (firstGiven (vs_poolApy stats) (vs_apy stats)))"

definition v2RewardTokens :: "v2_item \<Rightarrow> shown_token list" where
  "v2RewardTokens item = (case v2_rewards item of
     None \<Rightarrow> []
   | Some rs \<Rightarrow> concat (map (\<lambda>r. case r of
       None \<Rightarrow> []
     | Some x \<Rightarrow> (case sh_address x of None \<Rightarrow> [] | Some a \<Rightarrow> if a = [] then [] else [shown_token.truncate x])) rs))"

definition tokenValue :: "under_token \<Rightarrow> js_number" where
  "tokenValue t = num_mul (numberOf (un_reserve t)) (numberOf (un_price t))"

definition v2DepositToken :: "v2_item \<Rightarrow> v2_stats \<Rightarrow> string + deposit_token" where
  "v2DepositToken item stats =
     (let baseToken = (case v2_lpToken item of Some t \<Rightarrow> Some t | None \<Rightarrow> v2_stakingToken item);
          underlyingTokens = (case v2_tokens item of Some ts \<Rightarrow> Some ts | None \<Rightarrow> Option.bind (v2_stakingToken item) vb_tokens)
      in case baseToken of
           None \<Rightarrow> Inl ''TypeError''
         | Some base \<Rightarrow>
             (let tvl = (case underlyingTokens of
                   Some (t # ts) \<Rightarrow> foldl (\<lambda>acc cur. num_add acc (tokenValue cur)) (Some 0) (t # ts)
                 | _ \<Rightarrow> if truthyValue (vs_tvl stats) then numberOf (vs_tvl stats) else num_mul (numberOf (vb_price base)) (numberOf (vb_totalSupply base)))
              in Inr \<lparr> sh_address = sh_address base, sh_symbol = sh_symbol base, sh_name = sh_name base,
                   de_tokens = map_option (map (\<lambda>t. \<lparr> sh_address = sh_address t, sh_symbol = sh_symbol t, sh_name = sh_name t,
                     sh_weight = Some (roundThousandth (num_div (tokenValue t) tvl)) \<rparr>)) underlyingTokens \<rparr>))"

text \<open>The tokens by which a vault is put into a category; without them it counts as a single stake.\<close>

definition v2Categories :: "v2_item \<Rightarrow> vault_type list" where
  "v2Categories vault =
     (case (case Option.bind (v2_stakingToken vault) vb_tokens of Some ts \<Rightarrow> Some ts | None \<Rightarrow> v2_tokens vault) of
        Some tokens \<Rightarrow> if length tokens \<ge> 2 then [PoolVault] else [SingleStake]
      | None \<Rightarrow> [SingleStake])"

definition v2Opportunity ::
  "(rat \<Rightarrow> js_real) \<Rightarrow> (rat \<Rightarrow> js_real) \<Rightarrow> farm \<Rightarrow> string \<Rightarrow> int \<Rightarrow> v2_item \<Rightarrow> string + farm_opportunity" where
  "v2Opportunity exponential logarithm farm cacheKey chain item =
     (case v2_stats item of
        None \<Rightarrow> Inl ''TypeError''
      | Some stats \<Rightarrow>
          (let storedAPR = storedApr item; storedAPY = storedApy stats;
               apr = (if truthy_num storedAPR then realOf storedAPR
                 else case storedAPY of Some y \<Rightarrow> if y \<noteq> 0 then apyToApr logarithm y else NotANumber | None \<Rightarrow> NotANumber);
               apy = (if truthy_num storedAPY then realOf storedAPY
                 else case storedAPR of Some r \<Rightarrow> if r \<noteq> 0 then aprToApy exponential r else NotANumber | None \<Rightarrow> NotANumber)
           in sum_bind (v2DepositToken item stats) (\<lambda>deposit.
                Inr \<lparr> op_farm = farm, op_source = ''internal_v2'', op_sourceId = cacheKey, op_chainId = chain, op_apr = apr, op_apy = apy,
                  op_investmentUrl = None, op_totalValueLocked = vs_tvl stats, op_categories = v2Categories item,
                  op_rewards = v2RewardTokens item, op_deposit = deposit \<rparr>)))"

record v2_protocol =
  v2p_name :: string
  v2p_features :: "(int \<times> string list) list"

definition v2CacheKey :: "int \<Rightarrow> string \<Rightarrow> string \<Rightarrow> string" where
  "v2CacheKey chain name feature = show_int chain @ ''_'' @ name @ ''_'' @ feature"

definition v2Items ::
  "(rat \<Rightarrow> js_real) \<Rightarrow> (rat \<Rightarrow> js_real) \<Rightarrow> farm \<Rightarrow> string \<Rightarrow> int \<Rightarrow> v2_item list \<Rightarrow> string + farm_opportunity list" where
  "v2Items exponential logarithm farm cacheKey chain items =
     sum_bind (sum_map (v2Opportunity exponential logarithm farm cacheKey chain) items) (\<lambda>os. Inr (filter (\<lambda>o1. truthyReal (op_apr o1)) os))"

text \<open>An item that throws makes the whole adapter fail.\<close>

definition v2Opportunities ::
  "(rat \<Rightarrow> js_real) \<Rightarrow> (rat \<Rightarrow> js_real) \<Rightarrow> (string \<Rightarrow> v2_item list) \<Rightarrow> farm list \<Rightarrow> v2_protocol list \<Rightarrow> string + farm_opportunity list" where
  "v2Opportunities exponential logarithm getCachedData farms protocols =
     sum_bind (sum_map (\<lambda>protocol. case js_get (farmMapOf farms) (v2p_name protocol) of
         None \<Rightarrow> Inr []
       | Some farm \<Rightarrow> sum_bind (sum_map (\<lambda>(chain, feature).
             v2Items exponential logarithm farm (v2CacheKey chain (v2p_name protocol) feature) chain
               (getCachedData (v2CacheKey chain (v2p_name protocol) feature)))
           (concat (map (\<lambda>(chain, features). map (\<lambda>f. (chain, f)) features) (v2p_features protocol))))
         (\<lambda>oss. Inr (concat oss))) protocols) (\<lambda>oss. Inr (concat oss))"

definition v2LoadFarms :: "'d farm_repository \<Rightarrow> v2_protocol list \<Rightarrow> 'd \<Rightarrow> farm list \<times> 'd" where
  "v2LoadFarms R protocols d =
     (let protocolNames = js_set (map v2p_name protocols);
          farms = fr_findAllByName R protocolNames d;
          missing = map (\<lambda>name. (name, [])) (filter (\<lambda>name. js_get (farmMapOf farms) name = None) protocolNames);
          (missed, d1) = fr_insertMany R missing d
      in (farms @ missed, d1))"

section \<open>The adapters in order\<close>

type_synonym 'd farm_adapter = "farm list \<Rightarrow> 'd \<Rightarrow> (string + farm list \<times> farm_opportunity list) \<times> 'd"

definition v2Adapter ::
  "(rat \<Rightarrow> js_real) \<Rightarrow> (rat \<Rightarrow> js_real) \<Rightarrow> (string + v2_protocol list) \<Rightarrow> (string \<Rightarrow> v2_item list) \<Rightarrow> 'd farm_repository \<Rightarrow> 'd farm_adapter" where
  "v2Adapter exponential logarithm protocolList getCachedData R processed d =
     (case protocolList of
        Inl e \<Rightarrow> (Inl e, d)
      | Inr protocols \<Rightarrow> (let (farms, d1) = v2LoadFarms R protocols d
          in (sum_bind (v2Opportunities exponential logarithm getCachedData farms protocols) (\<lambda>os. Inr (farms, os)), d1)))"

definition v3Adapter ::
  "(rat \<Rightarrow> js_real) \<Rightarrow> (string + v3_protocol list) \<Rightarrow> (string \<Rightarrow> int list \<Rightarrow> string + v3_item list) \<Rightarrow> 'd farm_repository \<Rightarrow> 'd farm_adapter" where
  "v3Adapter exponential protocolList getOpportunities R processed d =
     (case protocolList of
        Inl e \<Rightarrow> (Inl e, d)
      | Inr protocols \<Rightarrow> (case v3LoadFarms R protocols d of
          (Inl e, d1) \<Rightarrow> (Inl e, d1)
        | (Inr farms, d1) \<Rightarrow> (Inr (farms, v3Opportunities exponential getOpportunities farms protocols), d1)))"

fun runAdapters :: "'d farm_adapter list \<Rightarrow> farm list \<Rightarrow> farm_opportunity list \<Rightarrow> 'd \<Rightarrow> (farm list \<times> farm_opportunity list) \<times> 'd" where
  "runAdapters [] farms opportunities d = ((farms, opportunities), d)"
| "runAdapters (a # as) farms opportunities d =
     (case a farms d of
        (Inl e, d1) \<Rightarrow> runAdapters as farms opportunities d1
      | (Inr (localFarms, localOpportunities), d1) \<Rightarrow> runAdapters as (farms @ localFarms) (opportunities @ localOpportunities) d1)"

text \<open>The rows are written in chunks, all in one transaction: when one chunk is refused, the table stays as it is.\<close>

definition replaceOpportunities ::
  "(farm_opportunity js_item list \<Rightarrow> string + nat list) \<Rightarrow> farm_opportunity list \<Rightarrow> farm_opportunity list \<Rightarrow> (string + nat list \<times> nat) \<times> farm_opportunity list" where
  "replaceOpportunities insertRows opportunities table =
     (let chunks = chunk (map Elem opportunities) 1500
      in case sum_map insertRows chunks of
           Inl e \<Rightarrow> (Inl e, table)
         | Inr ids \<Rightarrow> (Inr (concat ids, length (concat ids)), concat (map (\<lambda>c. concat (map (\<lambda>x. case x of Elem row \<Rightarrow> [row] | Arr _ \<Rightarrow> []) c)) chunks)))"

definition runInOrder ::
  "(farm_opportunity js_item list \<Rightarrow> string + nat list) \<Rightarrow> 'd farm_adapter list \<Rightarrow> 'd \<Rightarrow> farm_opportunity list \<Rightarrow> (string + nat option) \<times> 'd \<times> farm_opportunity list" where
  "runInOrder insertRows adapters d table =
     (let ((farms, opportunities), d1) = runAdapters adapters [] [] d
      in if opportunities \<noteq> [] then (case replaceOpportunities insertRows opportunities table of
             (Inl e, t) \<Rightarrow> (Inl e, d1, t)
           | (Inr (_, written), t) \<Rightarrow> (Inr (Some written), d1, t))
         else (Inr None, d1, table))"

record sync_result =
  sy_success :: bool
  sy_count :: "nat option"
  sy_error :: "string option"

definition sync_opportunities ::
  "(farm_opportunity js_item list \<Rightarrow> string + nat list) \<Rightarrow> 'd farm_adapter list \<Rightarrow> 'd \<Rightarrow> farm_opportunity list \<Rightarrow> sync_result \<times> 'd \<times> farm_opportunity list" where
  "sync_opportunities insertRows adapters d table =
     (case runInOrder insertRows adapters d table of
        (Inr written, d1, t) \<Rightarrow> (\<lparr> sy_success = True, sy_count = written, sy_error = None \<rparr>, d1, t)
      | (Inl e, d1, t) \<Rightarrow> (\<lparr> sy_success = False, sy_count = Some 0, sy_error = Some e \<rparr>, d1, t))"

section \<open>What is gathered\<close>

lemma farmMapOf_get: "js_get (farmMapOf fs) n = find (\<lambda>f. fm_name f = n) (rev fs)"
proof -
  have "js_get (foldl (\<lambda>m f. js_put m (fm_name f) f) m fs) n
      = (case find (\<lambda>f. fm_name f = n) (rev fs) of Some f \<Rightarrow> Some f | None \<Rightarrow> js_get m n)" for m
    by (induction fs rule: rev_induct) auto
  then show ?thesis by (simp add: farmMapOf_def split: option.split)
qed

lemma farmMapOf_name: "js_get (farmMapOf fs) n = Some f \<Longrightarrow> fm_name f = n \<and> f \<in> set fs"
  unfolding farmMapOf_get by (drule find_SomeD) simp

lemma orZeroNumber_number: "\<exists>x. orZeroNumber n = Some x"
  by (auto simp: orZeroNumber_def truthy_num_def)

lemma truthyReal_realOf [simp]: "truthyReal (orZeroReal (realOf n)) = truthy_num n" "truthy_num n \<Longrightarrow> orZeroReal (realOf n) = realOf n"
  by (auto simp: truthyReal_def orZeroReal_def realOf_def truthy_num_def split: option.splits)

text \<open>An opportunity as it is gathered: the rate is a number other than zero, the yield is that of the rate under continuous compounding, which is
  infinite for a large rate, the capital is a number, no category is named twice, and the farm is one of those that were asked for.\<close>

definition wellFormed :: "(rat \<Rightarrow> js_real) \<Rightarrow> farm list \<Rightarrow> farm_opportunity \<Rightarrow> bool" where
  "wellFormed exponential farms o1 \<longleftrightarrow> (case op_apr o1 of
       Real r \<Rightarrow> r \<noteq> 0 \<and> op_apy o1 = (case exponential r of Real x \<Rightarrow> Real (x - 1) | Infinite s \<Rightarrow> Infinite s | NotANumber \<Rightarrow> Real 0)
     | _ \<Rightarrow> False)
     \<and> numberOf (op_totalValueLocked o1) \<noteq> None \<and> distinct (op_categories o1)
     \<and> op_farm o1 \<in> set farms \<and> js_get (farmMapOf farms) (fm_name (op_farm o1)) = Some (op_farm o1)"

lemma v3Opportunity_fields:
  assumes "v3Opportunity f farm item = Inr o1"
  shows "op_farm o1 = farm" "op_sourceId o1 = vi_id item" "op_apr o1 = orZeroReal (realOf (getTotalApr item))"
    "op_apy o1 = orZeroReal (case getTotalApr item of None \<Rightarrow> NotANumber | Some r \<Rightarrow> aprToApy f r)"
    "numberOf (op_totalValueLocked o1) \<noteq> None" "distinct (op_categories o1)"
proof -
  obtain supplied categories deposit where "getVaultCategories item supplied = Inr categories"
    and o1: "o1 = \<lparr> op_farm = farm, op_source = ''internal_v3'', op_sourceId = vi_id item, op_chainId = vi_chain item,
                  op_apr = orZeroReal (realOf (getTotalApr item)),
                  op_apy = orZeroReal (case getTotalApr item of None \<Rightarrow> NotANumber | Some r \<Rightarrow> aprToApy f r), op_investmentUrl = vi_link item,
                  op_totalValueLocked = Val (orZeroNumber (numSum (map si_tvl supplied))), op_categories = categories,
                  op_rewards = getRewardTokens item, op_deposit = deposit \<rparr>"
    using assms by (auto simp: v3Opportunity_def Let_def sum_bind_Inr_iff split: option.splits)
  then have "distinct categories" by (auto simp: getVaultCategories_def sum_bind_Inr_iff)
  then show "op_farm o1 = farm" "op_sourceId o1 = vi_id item" "op_apr o1 = orZeroReal (realOf (getTotalApr item))"
    "op_apy o1 = orZeroReal (case getTotalApr item of None \<Rightarrow> NotANumber | Some r \<Rightarrow> aprToApy f r)"
    "numberOf (op_totalValueLocked o1) \<noteq> None" "distinct (op_categories o1)"
    using orZeroNumber_number[of "numSum (map si_tvl supplied)"] by (auto simp: o1)
qed

lemma v3Opportunity_wellFormed:
  assumes "v3Opportunity f farm item = Inr o1" "truthyReal (op_apr o1)" "js_get (farmMapOf farms) n = Some farm"
  shows "wellFormed f farms o1"
proof -
  note flds = v3Opportunity_fields[OF assms(1)]
  obtain r where r: "getTotalApr item = Some r" "r \<noteq> 0"
    using assms(2) unfolding flds(3) truthyReal_realOf by (auto simp: truthy_num_def)
  have "op_apr o1 = Real r" "op_apy o1 = (case f r of Real x \<Rightarrow> Real (x - 1) | Infinite s \<Rightarrow> Infinite s | NotANumber \<Rightarrow> Real 0)"
    using flds(3,4) r by (auto simp: realOf_def orZeroReal_def truthyReal_def aprToApy_def split: js_real.splits)
  then show ?thesis using r flds farmMapOf_name[OF assms(3)] assms(3) by (auto simp: wellFormed_def)
qed

text \<open>An item can be gathered when it names what is supplied; the first one that does not ends the items of its protocol.\<close>

definition hasSupplied :: "v3_item \<Rightarrow> bool" where
  "hasSupplied item \<longleftrightarrow> vi_supplied item \<noteq> None \<and> vi_supplied item \<noteq> Some []"

lemma v3Opportunity_ok: "isl (v3Opportunity f farm item) = (\<not> hasSupplied item)"
proof (cases "vi_supplied item")
  case (Some ss)
  then show ?thesis
    by (cases ss) (simp_all add: hasSupplied_def v3Opportunity_def getVaultCategories_def vaultIsSingleStake_def getDepositToken_def Let_def)
qed (simp add: hasSupplied_def v3Opportunity_def)

definition ratedItems :: "v3_item list \<Rightarrow> v3_item list" where
  "ratedItems items = filter (\<lambda>i. truthy_num (getTotalApr i)) (takeWhile hasSupplied items)"

definition rowsOf :: "(rat \<Rightarrow> js_real) \<Rightarrow> farm \<Rightarrow> v3_item list \<Rightarrow> farm_opportunity list \<Rightarrow> bool" where
  "rowsOf f farm items rows \<longleftrightarrow> list_all2 (\<lambda>i o1. v3Opportunity f farm i = Inr o1 \<and> truthyReal (op_apr o1)) (ratedItems items) rows"

lemma v3Items_rows: "\<exists>rows. v3Items f farm items os = os @ rows \<and> rowsOf f farm items rows"
proof (induction items arbitrary: os)
  case (Cons item items)
  show ?case
  proof (cases "v3Opportunity f farm item")
    case (Inl e)
    then show ?thesis using v3Opportunity_ok[of f farm item] by (simp add: rowsOf_def ratedItems_def)
  next
    case (Inr o1)
    then have "hasSupplied item" using v3Opportunity_ok[of f farm item] by simp
    moreover have "truthyReal (op_apr o1) = truthy_num (getTotalApr item)" using v3Opportunity_fields[OF Inr] by simp
    moreover obtain rows where "v3Items f farm items (if truthyReal (op_apr o1) then os @ [o1] else os) = (if truthyReal (op_apr o1) then os @ [o1] else os) @ rows"
        "rowsOf f farm items rows" using Cons by blast
    ultimately show ?thesis using Inr by (cases "truthy_num (getTotalApr item)") (auto simp: rowsOf_def ratedItems_def)
  qed
qed (simp add: rowsOf_def ratedItems_def)

lemma v3Protocol_rows:
  "\<exists>rows. v3Protocol f g m os p = os @ rows \<and> (rows = [] \<or> (\<exists>farm items. js_get m (vp_slug p) = Some farm \<and> rowsOf f farm items rows))"
proof (cases "js_get m (vp_slug p)")
  case (Some farm)
  show ?thesis
  proof (cases "g (vp_slug p) (vp_chains p)")
    case (Inr items)
    then show ?thesis using v3Items_rows[of f farm items os] Some by (auto simp: v3Protocol_def)
  qed (simp add: v3Protocol_def Some)
qed (simp add: v3Protocol_def)

lemma rowsOf_wellFormed:
  assumes "rowsOf f farm items rows" "js_get (farmMapOf farms) n = Some farm"
  shows "\<forall>o1\<in>set rows. wellFormed f farms o1"
  using assms v3Opportunity_wellFormed[OF _ _ assms(2)] by (fastforce simp: rowsOf_def list_all2_conv_all_nth in_set_conv_nth)

text \<open>C34: Every opportunity of the third version that is gathered has a number other than zero as its rate and a number as its capital, its
  categories differ from each other and its farm is one of those that were asked for.  Its yield is the exponential function of
  the rate less one, so that it is infinite where that function is: an infinite yield is not replaced.\<close>

theorem v3_well_formed:
  "\<forall>o1\<in>set (v3Opportunities exponential getOpportunities farms protocols). wellFormed exponential farms o1"
proof -
  have step: "\<forall>o1\<in>set os. wellFormed exponential farms o1 \<Longrightarrow>
      \<forall>o1\<in>set (foldl (v3Protocol exponential getOpportunities (farmMapOf farms)) os protocols). wellFormed exponential farms o1" for os
  proof (induction protocols arbitrary: os)
    case (Cons p protocols)
    have "\<forall>o1\<in>set (v3Protocol exponential getOpportunities (farmMapOf farms) os p). wellFormed exponential farms o1"
      using v3Protocol_rows[of exponential getOpportunities "farmMapOf farms" os p] Cons.prems rowsOf_wellFormed by fastforce
    from Cons.IH[OF this] show ?case by simp
  qed simp
  show ?thesis using step[of "[]"] by (simp add: v3Opportunities_def)
qed

lemma v3_foldl_grow: "\<exists>new. foldl (v3Protocol f g m) os ps = os @ new"
proof (induction ps arbitrary: os)
  case (Cons p ps)
  obtain new where new: "v3Protocol f g m os p = os @ new" using v3Protocol_rows by blast
  then show ?case using Cons[of "os @ new"] by auto
qed simp

lemma v3_complete:
  assumes "p \<in> set protocols" "js_get (farmMapOf farms) (vp_slug p) = Some farm" "getOpportunities (vp_slug p) (vp_chains p) = Inr items"
  shows "\<exists>before rows after. v3Opportunities exponential getOpportunities farms protocols = before @ rows @ after \<and> rowsOf exponential farm items rows"
proof -
  let ?step = "v3Protocol exponential getOpportunities (farmMapOf farms)"
  obtain ps qs where ps: "protocols = ps @ p # qs" using split_list[OF assms(1)] by blast
  let ?os = "foldl ?step [] ps"
  obtain rows where rows: "?step ?os p = ?os @ rows" "rowsOf exponential farm items rows"
    using v3Items_rows[of exponential farm items ?os] by (auto simp: v3Protocol_def assms(2,3))
  obtain new where "foldl ?step (?step ?os p) qs = ?step ?os p @ new" using v3_foldl_grow by blast
  then show ?thesis using rows by (auto simp: v3Opportunities_def ps)
qed

lemma rowsOf_shown:
  assumes "rowsOf f farm items rows"
  shows "map (\<lambda>o1. (op_sourceId o1, op_apr o1)) rows = map (\<lambda>i. (vi_id i, realOf (getTotalApr i))) (ratedItems items)" "\<forall>o1\<in>set rows. op_farm o1 = farm"
proof -
  have one: "op_sourceId o1 = vi_id i \<and> op_apr o1 = realOf (getTotalApr i) \<and> op_farm o1 = farm" if "v3Opportunity f farm i = Inr o1" "truthyReal (op_apr o1)" for i o1
    using v3Opportunity_fields[OF that(1)] that(2) by simp
  have "list_all2 (\<lambda>i o1. op_sourceId o1 = vi_id i \<and> op_apr o1 = realOf (getTotalApr i) \<and> op_farm o1 = farm) (ratedItems items) rows"
    using assms unfolding rowsOf_def by (rule list_all2_mono) (use one in blast)
  then show "map (\<lambda>o1. (op_sourceId o1, op_apr o1)) rows = map (\<lambda>i. (vi_id i, realOf (getTotalApr i))) (ratedItems items)" "\<forall>o1\<in>set rows. op_farm o1 = farm"
    by (induction rule: list_all2_induct) simp_all
qed

section \<open>What is stored\<close>

lemma chunk_snoc:
  assumes "0 < n" "length (chunk (map Elem xs) (int n)) = (length xs + n - 1) div n"
  shows "length (chunk (map Elem (xs @ [x])) (int n)) = (length xs + n) div n
    \<and> concat (chunk (map Elem (xs @ [x])) (int n)) = concat (chunk (map Elem xs) (int n)) @ [Elem x]"
proof -
  let ?c = "chunk (map Elem xs) (int n)" and ?i = "length xs div n"
  have step: "chunk (map Elem (xs @ [x])) (int n) = chunkStep (int n) ?c (Elem x, length xs)" by (simp add: chunk_def)
  have i: "nat (int (length xs) div int n) = ?i" by (simp flip: zdiv_int)
  have nonneg: "\<not> int (length xs) div int n < 0" by (simp flip: zdiv_int)
  show ?thesis
  proof (cases "?i < length ?c")
    case True
    have "(length xs + n - 1) div n \<le> (length xs + n) div n" by (rule div_le_mono) simp
    then have "length ?c = Suc ?i" using True assms by simp
    then have "?c \<noteq> []" "?i = length ?c - 1" by auto
    then have "?c[?i := ?c ! ?i @ [Elem x]] = butlast ?c @ [last ?c @ [Elem x]]" 
      by (metis append_butlast_last_id last_conv_nth length_butlast list_update_length)
    then have "concat (?c[?i := ?c ! ?i @ [Elem x]]) = concat ?c @ [Elem x]"
      using \<open>?c \<noteq> []\<close> by (metis append.assoc append_butlast_last_id concat.simps(2) concat_append append_Nil2 concat.simps(1))
    then show ?thesis using True assms(1) \<open>length ?c = Suc ?i\<close> unfolding step by (simp add: chunkStep_def i nonneg Let_def)
  next
    case False
    have "?i = (length xs + n) div n - 1" using assms(1) by simp
    moreover have "(length xs + n) div n - 1 \<le> (length xs + n - 1) div n"
    proof -
      have "?i \<le> (length xs + n - 1) div n" using assms(1) by (intro div_le_mono) simp
      then show ?thesis using assms(1) by simp
    qed
    ultimately have "length ?c = ?i" using False assms by simp
    then show ?thesis using False assms(1) unfolding step by (simp add: chunkStep_def i nonneg Let_def)
  qed
qed

lemma chunk_concat: "0 < n \<Longrightarrow> concat (chunk (map Elem xs) (int n)) = map Elem xs \<and> length (chunk (map Elem xs) (int n)) = (length xs + n - 1) div n"
proof (induction xs rule: rev_induct)
  case (snoc x xs)
  from chunk_snoc[OF snoc.prems, of xs x] snoc show ?case by simp
qed (simp add: chunk_def)


lemma chunk_all: "concat (chunk (map Elem xs) 1500) = map Elem xs"
  using chunk_concat[of 1500 xs] by simp

text \<open>The rows of all chunks are the opportunities, in their order.\<close>

lemma chunk_rows:
  "concat (map (\<lambda>c. concat (map (\<lambda>x. case x of Elem row \<Rightarrow> [row] | Arr _ \<Rightarrow> []) c)) (chunk (map Elem xs) 1500)) = xs"
proof -
  have "concat (map (\<lambda>c. concat (map h c)) cs) = concat (map h (concat cs))" for h :: "'a js_item \<Rightarrow> 'a list" and cs
    by (induction cs) auto
  then show ?thesis by (simp add: chunk_all comp_def)
qed

lemma replaceOpportunities_table:
  "snd (replaceOpportunities w os t) = (if isl (fst (replaceOpportunities w os t)) then t else os)"
  "isl (fst (replaceOpportunities w os t)) = isl (sum_map w (chunk (map Elem os) 1500))"
  by (simp_all add: replaceOpportunities_def Let_def chunk_rows split: sum.split)

text \<open>C10: After the opportunities are refreshed, the table holds what the adapters gathered, in the order of the adapters, or is
  exactly what it was: that when nothing was gathered or a chunk of rows was refused, and the answer is a failure in the second case only.\<close>

theorem sync_replaces:
  "let gathered = snd (fst (runAdapters adapters [] [] d)); (r, _, table') = sync_opportunities insertRows adapters d table
   in table' = (if sy_success r \<and> gathered \<noteq> [] then gathered else table)
     \<and> (\<not> sy_success r) = (gathered \<noteq> [] \<and> isl (sum_map insertRows (chunk (map Elem gathered) 1500)))
     \<and> sy_success r = (sy_error r = None)"
proof (cases "runAdapters adapters [] [] d")
  case (Pair fc d1)
  obtain farms gathered where fc: "fc = (farms, gathered)" by (cases fc)
  show ?thesis
  proof (cases "gathered = []")
    case True
    then show ?thesis by (simp add: Pair fc sync_opportunities_def runInOrder_def)
  next
    case False
    obtain r t where r: "replaceOpportunities insertRows gathered table = (r, t)" by (cases "replaceOpportunities insertRows gathered table")
    then have t: "t = (if isl r then table else gathered)" "isl (sum_map insertRows (chunk (map Elem gathered) 1500)) = isl r"
      using replaceOpportunities_table[of insertRows gathered table] by simp_all
    show ?thesis by (cases r) (use False in \<open>auto simp: Pair fc sync_opportunities_def runInOrder_def r t\<close>)
  qed
qed

lemma farmMapOf_found: "n \<in> fm_name ` set fs \<Longrightarrow> js_get (farmMapOf fs) n \<noteq> None"
  by (auto simp: farmMapOf_get find_None_iff)

lemma inserted_names: "farmTable R rows \<Longrightarrow> fm_name ` set (fst (fr_insertMany R new d)) = fst ` set new"
proof -
  assume R: "farmTable R rows"
  let ?fs = "fst (fr_insertMany R new d)"
  have "mset (map (\<lambda>f. (fm_name f, fm_url f)) ?fs) = mset new" using R by (simp only: farmTable_def)
  from mset_eq_setD[OF this] have "fst ` set (map (\<lambda>f. (fm_name f, fm_url f)) ?fs) = fst ` set new" by simp
  then show ?thesis by (simp add: image_image)
qed

text \<open>After the second version's protocols are loaded, every one of them has a farm, and loading them again adds no farm to the table.\<close>

lemma v2_farms_loaded:
  assumes "farmTable R rows" "v2LoadFarms R protocols d = (farms, d1)" "v2LoadFarms R protocols d1 = (farms2, d2)"
  shows "(\<forall>p\<in>set protocols. js_get (farmMapOf farms) (v2p_name p) \<noteq> None \<and> v2p_name p \<in> fm_name ` set (rows d1)) \<and> set (rows d2) = set (rows d1)"
proof (intro conjI)
  let ?names = "js_set (map v2p_name protocols)"
  let ?new = "\<lambda>d. map (\<lambda>name. (name, [] :: string)) (filter (\<lambda>name. js_get (farmMapOf (fr_findAllByName R ?names d)) name = None) ?names)"
  have load: "v2LoadFarms R protocols d = (fr_findAllByName R ?names d @ fst (fr_insertMany R (?new d) d), snd (fr_insertMany R (?new d) d))" for d
    by (simp add: v2LoadFarms_def Let_def case_prod_beta)
  have farms: "farms = fr_findAllByName R ?names d @ fst (fr_insertMany R (?new d) d)" and d1: "d1 = snd (fr_insertMany R (?new d) d)"
    using assms(2) by (simp_all add: load)
  have d2: "d2 = snd (fr_insertMany R (?new d1) d1)" using assms(3) by (simp add: load)
  have R: "set (fr_findAllByName R ns d) = {f \<in> set (rows d). fm_name f \<in> set ns}"
    "set (rows (snd (fr_insertMany R new d))) = set (rows d) \<union> set (fst (fr_insertMany R new d))" for ns new d
    using assms(1) by (simp_all add: farmTable_def)
  have all: "n \<in> fm_name ` set farms" "n \<in> fm_name ` set (rows d1)" if "n \<in> set (map v2p_name protocols)" for n
  proof -
    have "n \<in> fm_name ` set (fr_findAllByName R ?names d) \<or> n \<in> fm_name ` set (fst (fr_insertMany R (?new d) d))"
    proof (cases "js_get (farmMapOf (fr_findAllByName R ?names d)) n")
      case None
      then have "(n, []) \<in> set (?new d)" using that by simp
      then show ?thesis unfolding inserted_names[OF assms(1)] by force
    next
      case (Some f)
      from farmMapOf_name[OF Some] show ?thesis by force
    qed
    then show "n \<in> fm_name ` set farms" "n \<in> fm_name ` set (rows d1)" by (auto simp: farms d1 R)
  qed
  show "\<forall>p\<in>set protocols. js_get (farmMapOf farms) (v2p_name p) \<noteq> None \<and> v2p_name p \<in> fm_name ` set (rows d1)"
    using all farmMapOf_found[of _ farms] by simp
  have "?new d1 = []"
  proof -
    have "js_get (farmMapOf (fr_findAllByName R ?names d1)) n \<noteq> None" if "n \<in> set ?names" for n
      by (rule farmMapOf_found) (use all(2)[of n] that in \<open>auto simp: R\<close>)
    then show ?thesis by (simp add: filter_empty_conv)
  qed
  then have "fst (fr_insertMany R (?new d1) d1) = []"
    using inserted_names[OF assms(1), of "?new d1" d1] by simp
  then show "set (rows d2) = set (rows d1)" by (simp add: d2 R)
qed


lemma setUrl_names: "map fm_name (setUrl n u fs) = map fm_name fs"
proof (cases "find (\<lambda>i. fm_name (fs ! i) = n) (rev [0..<length fs])")
  case (Some i)
  then have "i < length fs" by (drule_tac find_SomeD) simp
  then have "map fm_name (fs[i := (fs ! i)\<lparr> fm_url := u \<rparr>]) = (map fm_name fs)[i := map fm_name fs ! i]" by (simp add: map_update)
  then show ?thesis by (simp add: setUrl_def Some)
qed (simp add: setUrl_def)

lemma v3FarmStep_names:
  assumes "v3FarmStep (fs, ms, us) p = Inr (fs', ms', us')"
  shows "map fm_name fs' = map fm_name fs" "set ms \<subseteq> set ms'" "vp_slug p \<in> fm_name ` set fs \<union> fst ` set ms'"
proof -
  obtain url where url: "vp_links p = Some url" using assms by (cases "vp_links p") (auto simp: v3FarmStep_def)
  have "map fm_name fs' = map fm_name fs \<and> set ms \<subseteq> set ms' \<and> vp_slug p \<in> fm_name ` set fs \<union> fst ` set ms'"
  proof (cases "js_get (farmMapOf fs) (vp_slug p)")
    case None
    then show ?thesis using assms by (auto simp: v3FarmStep_def url)
  next
    case (Some f)
    from farmMapOf_name[OF Some] have "vp_slug p \<in> fm_name ` set fs" by force
    then show ?thesis using assms by (auto simp: v3FarmStep_def url Some setUrl_names split: option.splits if_splits)
  qed
  then show "map fm_name fs' = map fm_name fs" "set ms \<subseteq> set ms'" "vp_slug p \<in> fm_name ` set fs \<union> fst ` set ms'" by blast+
qed

lemma v3_farm_names:
  assumes "sum_foldl v3FarmStep (fs, ms, us) ps = Inr (fs', ms', us')"
  shows "fm_name ` set fs' = fm_name ` set fs \<and> set ms \<subseteq> set ms' \<and> vp_slug ` set ps \<subseteq> fm_name ` set fs \<union> fst ` set ms'"
  using assms
proof (induction ps arbitrary: fs ms us)
  case (Cons p ps)
  obtain fs1 ms1 us1 where step: "v3FarmStep (fs, ms, us) p = Inr (fs1, ms1, us1)"
    and rest: "sum_foldl v3FarmStep (fs1, ms1, us1) ps = Inr (fs', ms', us')"
    using Cons.prems by (auto simp: sum_bind_Inr_iff)
  note names = v3FarmStep_names[OF step]
  have "fm_name ` set fs1 = fm_name ` set fs" using names(1) by (metis list.set_map)
  then show ?case using Cons.IH[OF rest] names(2,3) by auto
qed simp

lemma v3_farms_loaded:
  assumes "farmTable R rows" "v3LoadFarms R protocols d = (Inr farms, d1)" "p \<in> set protocols"
  shows "js_get (farmMapOf farms) (vp_slug p) \<noteq> None"
proof -
  let ?found = "fr_findAllByName R (js_set (map vp_slug protocols)) d"
  obtain fs ms us where fold: "sum_foldl v3FarmStep (?found, [], []) protocols = Inr (fs, ms, us)"
    using assms(2) by (auto simp: v3LoadFarms_def split: sum.splits)
  obtain d0 where farms: "farms = fs @ fst (fr_insertMany R ms d0)"
    using assms(2) by (auto simp: v3LoadFarms_def fold Let_def case_prod_beta)
  have "vp_slug p \<in> fm_name ` set farms"
    using v3_farm_names[OF fold] assms(3) inserted_names[OF assms(1), of ms d0] by (auto simp: farms image_Un)
  then show ?thesis by (rule farmMapOf_found)
qed

text \<open>C8: When the adapter of the third version succeeds, every protocol that the service answers contributes consecutive rows to what is
  gathered: one for each of its items with a rate other than zero, in their order, with that rate and under the farm of the protocol, up
  to the first item that names nothing that is supplied, which loses the items after it; whatever the other protocols answer.\<close>

theorem v3_adapter_complete:
  assumes "farmTable R table" "v3Adapter exponential (Inr protocols) getOpportunities R processed d = (Inr (farms, gathered), d1)"
    and "p \<in> set protocols" "getOpportunities (vp_slug p) (vp_chains p) = Inr items"
  shows "\<exists>before rows after. gathered = before @ rows @ after
    \<and> map (\<lambda>o1. (op_sourceId o1, op_apr o1)) rows = map (\<lambda>i. (vi_id i, realOf (getTotalApr i)))
        (filter (\<lambda>i. truthy_num (getTotalApr i)) (takeWhile (\<lambda>i. vi_supplied i \<noteq> None \<and> vi_supplied i \<noteq> Some []) items))
    \<and> (\<forall>o1\<in>set rows. fm_name (op_farm o1) = vp_slug p)"
proof -
  have load: "v3LoadFarms R protocols d = (Inr farms, d1)" and gathered: "gathered = v3Opportunities exponential getOpportunities farms protocols"
    using assms(2) by (auto simp: v3Adapter_def split: prod.splits sum.splits)
  obtain farm where farm: "js_get (farmMapOf farms) (vp_slug p) = Some farm" using v3_farms_loaded[OF assms(1) load assms(3)] by auto
  obtain before rows after where rows: "gathered = before @ rows @ after" "rowsOf exponential farm items rows"
    using v3_complete[of p protocols farms farm getOpportunities items exponential, OF assms(3) farm assms(4)] unfolding gathered by blast
  have "\<forall>o1\<in>set rows. fm_name (op_farm o1) = vp_slug p" using rowsOf_shown(2)[OF rows(2)] farmMapOf_name[OF farm] by simp
  with rows(1) rowsOf_shown(1)[OF rows(2)] show ?thesis unfolding ratedItems_def hasSupplied_def by (intro exI conjI)
qed

section \<open>A table in memory\<close>

definition memoryFarms :: "farm list farm_repository" where
  "memoryFarms = \<lparr> fr_findAllByName = (\<lambda>names d. filter (\<lambda>f. fm_name f \<in> set names) d),
     fr_insertMany = (\<lambda>new d. let fs = map (\<lambda>(i, n, u). \<lparr> fm_id = length d + i, fm_name = n, fm_url = u \<rparr>) (zip [0..<length new] new) in (fs, d @ fs)),
     fr_update = (\<lambda>f d. map (\<lambda>g. if fm_id g = fm_id f then f else g) d) \<rparr>"

lemma memoryFarms_table: "farmTable memoryFarms (\<lambda>d. d)"
proof -
  have "map (\<lambda>f. (fm_name f, fm_url f)) (fst (fr_insertMany memoryFarms new d)) = new" for new d
    by (rule nth_equalityI) (simp_all add: memoryFarms_def Let_def case_prod_beta)
  then have "mset (map (\<lambda>f. (fm_name f, fm_url f)) (fst (fr_insertMany memoryFarms new d))) = mset new" for new d by presburger
  then show ?thesis by (auto simp: farmTable_def memoryFarms_def Let_def)
qed

definition exampleItem :: v3_item where
  "exampleItem = \<lparr> vi_id = ''vault'', vi_chain = 1, vi_feature = ''lending'', vi_link = None,
     vi_supplied = Some [\<lparr> si_token = \<lparr> sh_address = Some ''0xa'', sh_symbol = None, sh_name = None, va_underlying = None \<rparr>,
       si_tvl = Val (Some 100), si_aprYear = Undef, si_supplyApy = Val (Some (1 / 20)) \<rparr>],
     vi_rewarded = None \<rparr>"

definition exampleProtocol :: v3_protocol where
  "exampleProtocol = \<lparr> vp_slug = ''aave'', vp_links = Some (Some ''https''), vp_chains = [1] \<rparr>"

definition hollowItem :: v3_item where
  "hollowItem = exampleItem\<lparr> vi_id := ''hollow'', vi_supplied := Some [] \<rparr>"

lemma exampleItem_apr: "getTotalApr exampleItem = Some (1 / 20)"
  by (simp add: getTotalApr_def exampleItem_def numSum_def firstTruthy_def truthy_num_def)

lemma exampleItem_rated: "truthy_num (getTotalApr exampleItem)" "vi_supplied exampleItem \<noteq> None" "vi_supplied exampleItem \<noteq> Some []"
  unfolding exampleItem_apr by (simp_all add: truthy_num_def exampleItem_def)

text \<open>Of three items the second one is malformed: only the first one is gathered.\<close>

theorem v3_adapter_complete_witness:
  "\<exists>farms gathered d1. v3Adapter (\<lambda>r. Real (1 + r)) (Inr [exampleProtocol]) (\<lambda>_ _. Inr [exampleItem, hollowItem, exampleItem]) memoryFarms [] []
       = (Inr (farms, gathered), d1)
     \<and> (\<exists>before rows after. gathered = before @ rows @ after \<and> map (\<lambda>o1. (op_sourceId o1, op_apr o1)) rows = [(''vault'', Real (1 / 20))])"
proof -
  obtain farms d1 where load: "v3LoadFarms memoryFarms [exampleProtocol] [] = (Inr farms, d1)"
    by (simp add: v3LoadFarms_def v3FarmStep_def exampleProtocol_def memoryFarms_def Let_def farmMapOf_def)
  let ?items = "[exampleItem, hollowItem, exampleItem]"
  let ?gathered = "v3Opportunities (\<lambda>r. Real (1 + r)) (\<lambda>_ _. Inr ?items) farms [exampleProtocol]"
  have run: "v3Adapter (\<lambda>r. Real (1 + r)) (Inr [exampleProtocol]) (\<lambda>_ _. Inr ?items) memoryFarms [] [] = (Inr (farms, ?gathered), d1)"
    by (simp add: v3Adapter_def load)
  have "filter (\<lambda>i. truthy_num (getTotalApr i)) (takeWhile (\<lambda>i. vi_supplied i \<noteq> None \<and> vi_supplied i \<noteq> Some []) ?items) = [exampleItem]"
    using exampleItem_rated by (simp add: hollowItem_def)
  note shown = this
  obtain before rows after where "?gathered = before @ rows @ after"
      "map (\<lambda>o1. (op_sourceId o1, op_apr o1)) rows = map (\<lambda>i. (vi_id i, realOf (getTotalApr i))) [exampleItem]"
    using v3_adapter_complete[OF memoryFarms_table run list.set_intros(1) refl, unfolded shown] by blast
  moreover have "map (\<lambda>i. (vi_id i, realOf (getTotalApr i))) [exampleItem] = [(''vault'', Real (1 / 20))]"
    by (simp add: exampleItem_apr realOf_def) (simp add: exampleItem_def)
  ultimately show ?thesis using run by (intro exI conjI) simp_all
qed

definition exampleFarm :: farm where
  "exampleFarm = \<lparr> fm_id = 0, fm_name = ''aave'', fm_url = [] \<rparr>"

text \<open>An opportunity whose yield is infinite, when the exponential function of its rate is.\<close>

theorem v3_well_formed_witness:
  "\<exists>o1\<in>set (v3Opportunities (\<lambda>r. Infinite True) (\<lambda>_ _. Inr [exampleItem]) [exampleFarm] [exampleProtocol]).
     wellFormed (\<lambda>r. Infinite True) [exampleFarm] o1 \<and> op_apy o1 = Infinite True"
proof -
  have farm: "js_get (farmMapOf [exampleFarm]) (vp_slug exampleProtocol) = Some exampleFarm"
    by (simp add: farmMapOf_def exampleProtocol_def exampleFarm_def)
  let ?gathered = "v3Opportunities (\<lambda>r. Infinite True) (\<lambda>_ _. Inr [exampleItem]) [exampleFarm] [exampleProtocol]"
  obtain before rows after where rows: "?gathered = before @ rows @ after" "rowsOf (\<lambda>r. Infinite True) exampleFarm [exampleItem] rows"
    using v3_complete[of exampleProtocol "[exampleProtocol]" "[exampleFarm]" exampleFarm "\<lambda>_ _. Inr [exampleItem]" "[exampleItem]" "\<lambda>r. Infinite True"] farm
    by auto
  have "ratedItems [exampleItem] = [exampleItem]"
    using exampleItem_rated by (simp add: ratedItems_def hasSupplied_def)
  then obtain o1 where "o1 \<in> set ?gathered" using rows by (cases rows) (auto simp: rowsOf_def)
  then have "o1 \<in> set ?gathered" "wellFormed (\<lambda>r. Infinite True) [exampleFarm] o1"
    using v3_well_formed[of "\<lambda>r. Infinite True" "\<lambda>_ _. Inr [exampleItem]" "[exampleFarm]" "[exampleProtocol]"] by blast+
  moreover from this(2) have "op_apy o1 = Infinite True" by (auto simp: wellFormed_def split: js_real.splits)
  ultimately show ?thesis by blast
qed

lemma v2_farms_loaded_example:
  "snd (v2LoadFarms memoryFarms [\<lparr> v2p_name = ''curve'', v2p_features = [] \<rparr>] (snd (v2LoadFarms memoryFarms [\<lparr> v2p_name = ''curve'', v2p_features = [] \<rparr>] [])))
     = [\<lparr> fm_id = 0, fm_name = ''curve'', fm_url = [] \<rparr>]
   \<and> js_get (farmMapOf (fst (v2LoadFarms memoryFarms [\<lparr> v2p_name = ''curve'', v2p_features = [] \<rparr>] []))) ''curve'' \<noteq> None"
proof -
  let ?ps = "[\<lparr> v2p_name = ''curve'', v2p_features = [] \<rparr>]"
  obtain farms d1 where first_load: "v2LoadFarms memoryFarms ?ps [] = (farms, d1)" by fastforce
  obtain farms2 d2 where second_load: "v2LoadFarms memoryFarms ?ps d1 = (farms2, d2)" by fastforce
  have "d1 = [\<lparr> fm_id = 0, fm_name = ''curve'', fm_url = [] \<rparr>]"
    using first_load by (auto simp: v2LoadFarms_def memoryFarms_def Let_def farmMapOf_def js_set_def set_add_def)
  moreover from this have "d2 = d1"
    using second_load by (auto simp: v2LoadFarms_def memoryFarms_def Let_def farmMapOf_def js_set_def set_add_def)
  moreover have "js_get (farmMapOf farms) ''curve'' \<noteq> None"
    using v2_farms_loaded[OF memoryFarms_table first_load second_load] by simp
  ultimately show ?thesis unfolding first_load snd_conv fst_conv second_load by simp
qed

end
