(* ===== verification/AssetStore.thy ===== *)
theory AssetStore
  imports AssetPrices
begin

text \<open>
  \<open>apps/assets/src/modules/assets/repositories/assets.cached-repository.ts\<close> and \<open>utils/cache-mapping.ts\<close>: assets and the assets that they
  are made of, read from the cache level by level, put together again, and written to the cache as flat objects that name their parts by
  address.  The cache is the one of theory \<open>Cache\<close>, the table of assets is a parameter.
\<close>

section \<open>Data\<close>

text \<open>
  An asset of the table and one of the cache are objects of one shape: the parts of the former hold the asset itself, those of the latter its
  address.  Fields that are copied together are one record.  An asset that was put together without its data has none of them.
\<close>

record asset_fields =
  in_id :: nat
  in_name :: "string option"
  in_symbol :: "string option"
  in_displayName :: "string option"
  in_icon :: "string option"
  in_decimals :: nat
  in_rank :: "nat option"
  in_isNotAccounted :: bool
  in_isTracked :: bool
  in_categories :: "string list"
  in_updatedAt :: int

datatype asset = Asset (a_chainId: "int option") (a_address: "string option") (a_info: "asset_fields option") (a_underlying: "underlying list option")
  and underlying = Underlying (u_id: "nat option") (u_position: int) (u_address: "string option") (u_asset: "asset option")

record asset_request = asset_ref +
  rq_pricesAt :: "int list option"
  rq_forceUpdate :: bool

section \<open>Keys and requests\<close>

definition getAssetCacheKey :: "int option \<Rightarrow> string option \<Rightarrow> string + string" where
  "getAssetCacheKey chainId address =
     (case address of
        None \<Rightarrow> Inl ''TypeError''
      | Some a \<Rightarrow> Inr (''asset-'' @ (case chainId of Some c \<Rightarrow> show_int c | None \<Rightarrow> ''undefined'') @ ''-'' @ to_lower a))"

definition isRequestMatchingAsset :: "asset_request \<Rightarrow> asset \<Rightarrow> bool" where
  "isRequestMatchingAsset request a \<longleftrightarrow> a_chainId a = Some (ar_chainId request) \<and> map_option to_lower (a_address a) = Some (to_lower (ar_address request))"

definition excludeAssetsByRequests :: "asset_request list \<Rightarrow> asset list \<Rightarrow> asset list" where
  "excludeAssetsByRequests requests assets = filter (\<lambda>a. \<exists>request\<in>set requests. isRequestMatchingAsset request a) assets"

definition excludeFoundAssets :: "asset_request list \<Rightarrow> asset list \<Rightarrow> asset_request list" where
  "excludeFoundAssets requests assets = filter (\<lambda>request. \<not> (\<exists>a\<in>set assets. isRequestMatchingAsset request a)) requests"

section \<open>Reading from the cache\<close>

definition partsOf :: "asset \<Rightarrow> underlying list" where
  "partsOf a = (case a_underlying a of None \<Rightarrow> [] | Some us \<Rightarrow> us)"

text \<open>The keys of the parts of the assets that were read: those not met before, which from now on count as met.\<close>

definition collectKey :: "int option \<Rightarrow> string list \<times> string list \<Rightarrow> underlying \<Rightarrow> string + string list \<times> string list" where
  "collectKey chainId = (\<lambda>(assetCacheKeys, allCacheKeys) u. sum_bind (getAssetCacheKey chainId (u_address u)) (\<lambda>key.
     Inr (if key \<in> set allCacheKeys then (assetCacheKeys, allCacheKeys) else (assetCacheKeys @ [key], allCacheKeys @ [key]))))"

definition collectKeys :: "asset list \<Rightarrow> string list \<Rightarrow> string + string list \<times> string list" where
  "collectKeys cachedAssets allCacheKeys =
     sum_foldl (\<lambda>keys cachedAsset. sum_foldl (collectKey (a_chainId cachedAsset)) keys (partsOf cachedAsset)) ([], allCacheKeys) cachedAssets"

definition readKeys :: "('s, asset, int) cache_manager \<Rightarrow> string list \<Rightarrow> 's \<Rightarrow> asset list" where
  "readKeys C keys s = concat (map (\<lambda>v. case v of Val a \<Rightarrow> [a] | _ \<Rightarrow> []) (cacheMget C keys s))"

partial_function (option) getAssetsFromCacheWithUnderlying ::
  "('s, asset, int) cache_manager \<Rightarrow> string list \<Rightarrow> string list \<Rightarrow> 's \<Rightarrow> (string + asset list) option" where
  "getAssetsFromCacheWithUnderlying C cacheKeys allCacheKeys s =
     (let cachedAssets = readKeys C cacheKeys s
      in case collectKeys cachedAssets allCacheKeys of
           Inl e \<Rightarrow> Some (Inl e)
         | Inr (assetCacheKeys, all1) \<Rightarrow>
             if assetCacheKeys = [] then Some (Inr cachedAssets)
             else Option.bind (getAssetsFromCacheWithUnderlying C assetCacheKeys all1 s) (\<lambda>r.
               Some (sum_bind r (\<lambda>more. Inr (cachedAssets @ more)))))"

text \<open>
  The parts of an asset, each with its own parts; a part that was not read becomes an asset without data.
  On assets that contain themselves it does not return.
\<close>

partial_function (option) getUnderlying ::
  "(string, asset) js_map \<Rightarrow> int option \<Rightarrow> underlying list \<Rightarrow> (string + underlying list) option" where
  "getUnderlying m chainId us =
     (case us of
        [] \<Rightarrow> Some (Inr [])
      | u # rest \<Rightarrow>
          (case getAssetCacheKey chainId (u_address u) of
             Inl e \<Rightarrow> Some (Inl e)
           | Inr key \<Rightarrow>
               (let dto = js_get m key in
                Option.bind (case dto of
                      None \<Rightarrow> Some (Inr [])
                    | Some d \<Rightarrow> (case a_underlying d of None \<Rightarrow> Some (Inr []) | Some parts \<Rightarrow> getUnderlying m (a_chainId d) parts))
                  (\<lambda>r. case r of
                      Inl e \<Rightarrow> Some (Inl e)
                    | Inr parts \<Rightarrow> Option.bind (getUnderlying m chainId rest) (\<lambda>r2.
                        Some (sum_bind r2 (\<lambda>more. Inr (Underlying None (u_position u) None
                          (Some (case dto of None \<Rightarrow> Asset None None None (Some parts) | Some d \<Rightarrow> Asset (a_chainId d) (a_address d) (a_info d) (Some parts)))
                          # more))))))))"

definition cachedAssetsMapOf :: "asset list \<Rightarrow> string + (string, asset) js_map" where
  "cachedAssetsMapOf cachedAssets =
     sum_foldl (\<lambda>m a. sum_bind (getAssetCacheKey (a_chainId a) (a_address a)) (\<lambda>key. Inr (js_put m key a))) [] cachedAssets"

text \<open>An asset without a list of parts is left out: \<open>undefined\<close> is not the length of the empty list.\<close>

fun cachedEntities :: "(string, asset) js_map \<Rightarrow> asset list \<Rightarrow> (string + asset list) option" where
  "cachedEntities m [] = Some (Inr [])"
| "cachedEntities m (a # as) =
     (case (if partsOf a \<noteq> [] then getUnderlying m (a_chainId a) (partsOf a) else Some (Inr [])) of
        None \<Rightarrow> None
      | Some (Inl e) \<Rightarrow> Some (Inl e)
      | Some (Inr parts) \<Rightarrow> map_option (\<lambda>r. sum_bind r (\<lambda>more.
          Inr ((if map_option length (a_underlying a) = Some (length parts) then [Asset (a_chainId a) (a_address a) (a_info a) (Some parts)] else []) @ more)))
          (cachedEntities m as))"

definition mapCachedAssetsToEntities :: "asset list \<Rightarrow> (string + asset list) option" where
  "mapCachedAssetsToEntities cachedAssets =
     (case cachedAssetsMapOf cachedAssets of Inl e \<Rightarrow> Some (Inl e) | Inr m \<Rightarrow> cachedEntities m cachedAssets)"

definition requestKeys :: "asset_request list \<Rightarrow> string + string list" where
  "requestKeys requests = sum_map (\<lambda>request. getAssetCacheKey (Some (ar_chainId request)) (Some (ar_address request))) requests"

definition getCachedAssetsByAddressesAndChainIds ::
  "('s, asset, int) cache_manager \<Rightarrow> asset_request list \<Rightarrow> 's \<Rightarrow> (string + asset list) option" where
  "getCachedAssetsByAddressesAndChainIds C requests s =
     (case requestKeys requests of
        Inl e \<Rightarrow> Some (Inl e)
      | Inr cacheKeys \<Rightarrow>
          (case getAssetsFromCacheWithUnderlying C cacheKeys [] s of
             None \<Rightarrow> None
           | Some (Inl e) \<Rightarrow> Some (Inl e)
           | Some (Inr cachedAssets) \<Rightarrow> map_option (\<lambda>r. sum_bind r (\<lambda>es. Inr (excludeAssetsByRequests requests es)))
               (mapCachedAssetsToEntities cachedAssets)))"

section \<open>Writing to the cache\<close>

text \<open>
  The assets that an asset is made of, and itself at the end, as flat objects.  What the conversion leaves where an object has no list of parts
  is the argument \<open>unset\<close>; the objects for the cache keep the identifiers of the parts, those of the answers do not.
\<close>

fun flatAssets :: "bool \<Rightarrow> underlying list option \<Rightarrow> asset \<Rightarrow> string + asset list"
  and flatParts :: "bool \<Rightarrow> underlying list option \<Rightarrow> underlying list \<Rightarrow> string + asset list \<times> underlying list" where
  "flatAssets ids unset (Asset c a i us) =
     (case us of
        None \<Rightarrow> Inr [Asset c a i unset]
      | Some parts \<Rightarrow> sum_bind (flatParts ids unset parts) (\<lambda>(dtos, refs). Inr (dtos @ [Asset c a i (Some refs)])))"
| "flatParts ids unset [] = Inr ([], [])"
| "flatParts ids unset (Underlying i p _ x # us) =
     (case x of
        None \<Rightarrow> Inl ''TypeError''
      | Some b \<Rightarrow> sum_bind (flatAssets ids unset b) (\<lambda>dtos.
          sum_bind (flatParts ids unset us) (\<lambda>(more, refs).
            Inr (dtos @ more, Underlying (if ids then i else None) p (a_address b) None # refs))))"

definition mapAssetsToCachePlain :: "underlying list option \<Rightarrow> asset list \<Rightarrow> string + asset list" where
  "mapAssetsToCachePlain unset assets = sum_bind (sum_map (flatAssets True unset) assets) (\<lambda>dss. Inr (concat dss))"

definition mapAssetsToAPIPlain :: "underlying list option \<Rightarrow> asset list \<Rightarrow> string + asset list" where
  "mapAssetsToAPIPlain unset assets = sum_bind (sum_map (flatAssets False unset) assets) (\<lambda>dss. Inr (concat dss))"

text \<open>When an asset cannot be written, nothing is.\<close>

definition saveAssetsToCache ::
  "('s, asset, int) cache_manager \<Rightarrow> underlying list option \<Rightarrow> int \<Rightarrow> asset list \<Rightarrow> 's \<Rightarrow> (string + unit) \<times> 's" where
  "saveAssetsToCache C unset ttl assets s =
     (case sum_bind (mapAssetsToCachePlain unset assets)
         (sum_map (\<lambda>a. sum_bind (getAssetCacheKey (a_chainId a) (a_address a)) (\<lambda>key. Inr (key, Val a)))) of
        Inl e \<Rightarrow> (Inl e, s)
      | Inr items \<Rightarrow> (Inr (), cacheMset C items (Some ttl) s))"

section \<open>Finding assets\<close>

text \<open>Assets that are not in the cache are read from the table and written to the cache; that this fails is only logged.\<close>

definition findManyByAddressesAndChainIds ::
  "('s, asset, int) cache_manager \<Rightarrow> underlying list option \<Rightarrow> int \<Rightarrow> (asset_request list \<Rightarrow> string + asset list) \<Rightarrow> asset_request list \<Rightarrow> 's
    \<Rightarrow> ((string + asset list) \<times> 's) option" where
  "findManyByAddressesAndChainIds C unset ttl findRows requests s =
     map_option (\<lambda>r. case r of
         Inl e \<Rightarrow> (Inl e, s)
       | Inr cachedAssets \<Rightarrow>
           (let notCachedAssetsRequests = excludeFoundAssets requests cachedAssets
            in if notCachedAssetsRequests = [] then (Inr cachedAssets, s)
               else case findRows notCachedAssetsRequests of
                   Inl e \<Rightarrow> (Inl e, s)
                 | Inr assetsToCache \<Rightarrow> (Inr (cachedAssets @ assetsToCache), snd (saveAssetsToCache C unset ttl assetsToCache s))))
       (getCachedAssetsByAddressesAndChainIds C requests s)"

text \<open>One asset is cached as it comes from the table, under the same key as the flat objects.\<close>

definition findOneByAddressAndChain ::
  "('s, asset, int) cache_manager \<Rightarrow> (string \<Rightarrow> int \<Rightarrow> 's \<Rightarrow> (string + asset js_value) \<times> 's) \<Rightarrow> string \<Rightarrow> int \<Rightarrow> 's \<Rightarrow> (string + asset js_value) \<times> 's" where
  "findOneByAddressAndChain C findRow address chainId s =
     (case getAssetCacheKey (Some chainId) (Some address) of
        Inl e \<Rightarrow> (Inl e, s)
      | Inr key \<Rightarrow> getOrLoad C key (findRow address chainId) None s)"


section \<open>What is read\<close>

definition keyText :: "int option \<Rightarrow> string \<Rightarrow> string" where
  "keyText chainId a = ''asset-'' @ (case chainId of Some c \<Rightarrow> show_int c | None \<Rightarrow> ''undefined'') @ ''-'' @ to_lower a"

lemma key_Some [simp]: "getAssetCacheKey c (Some a) = Inr (keyText c a)"
  by (simp add: getAssetCacheKey_def keyText_def)

definition partKeys :: "asset \<Rightarrow> string list" where
  "partKeys a = map (\<lambda>u. keyText (a_chainId a) (case u_address u of Some x \<Rightarrow> x | None \<Rightarrow> [])) (partsOf a)"

definition namesParts :: "asset \<Rightarrow> bool" where
  "namesParts a \<longleftrightarrow> (\<forall>u\<in>set (partsOf a). u_address u \<noteq> None)"

text \<open>From the key of a cached asset to the keys of its parts.\<close>

definition partEdges :: "('s, asset, int) cache_manager \<Rightarrow> 's \<Rightarrow> (string \<times> string) set" where
  "partEdges C s = {(k, k'). \<exists>a. cm_get C k s = Val a \<and> k' \<in> set (partKeys a)}"

definition assetsAt :: "('s, asset, int) cache_manager \<Rightarrow> 's \<Rightarrow> string set \<Rightarrow> asset set" where
  "assetsAt C s K = {a. \<exists>k\<in>K. cm_get C k s = Val a}"

definition addKey :: "string list \<times> string list \<Rightarrow> string \<Rightarrow> string list \<times> string list" where
  "addKey = (\<lambda>(new, all) k. if k \<in> set all then (new, all) else (new @ [k], all @ [k]))"

lemma addKey_foldl: "\<exists>n. foldl addKey (new, all) ks = (new @ n, all @ n) \<and> set n = set ks - set all"
proof (induction ks arbitrary: new all)
  case (Cons k ks)
  show ?case
  proof (cases "k \<in> set all")
    case True
    obtain n where "foldl addKey (new, all) ks = (new @ n, all @ n)" "set n = set ks - set all" using Cons.IH by blast
    then show ?thesis using True by (auto simp: addKey_def)
  next
    case False
    obtain n where "foldl addKey (new @ [k], all @ [k]) ks = ((new @ [k]) @ n, (all @ [k]) @ n)" "set n = set ks - set (all @ [k])"
      using Cons.IH by blast
    then show ?thesis using False by (intro exI[of _ "k # n"]) (auto simp: addKey_def)
  qed
qed simp

lemma collect_parts:
  "\<forall>u\<in>set us. u_address u \<noteq> None \<Longrightarrow> sum_foldl (collectKey c) keys us
    = Inr (foldl addKey keys (map (\<lambda>u. keyText c (case u_address u of Some x \<Rightarrow> x | None \<Rightarrow> [])) us))"
  by (induction us arbitrary: keys) (auto simp: collectKey_def addKey_def split: prod.split)

lemma collectKeys_new:
  assumes "\<forall>a\<in>set as. namesParts a"
  obtains new where "collectKeys as all = Inr (new, all @ new)" "set new = (\<Union>a\<in>set as. set (partKeys a)) - set all"
proof -
  have "sum_foldl (\<lambda>keys a. sum_foldl (collectKey (a_chainId a)) keys (partsOf a)) keys as
      = Inr (foldl addKey keys (concat (map partKeys as)))" for keys
    using assms by (induction as arbitrary: keys) (simp_all add: namesParts_def collect_parts partKeys_def)
  moreover obtain new where "foldl addKey ([], all) (concat (map partKeys as)) = ([] @ new, all @ new)" "set new = set (concat (map partKeys as)) - set all"
    using addKey_foldl by blast
  ultimately show thesis by (intro that[of new]) (simp_all add: collectKeys_def)
qed

lemma readKeys_set: "cache_store C \<Longrightarrow> set (readKeys C keys s) = assetsAt C s (set keys)"
  by (auto simp: readKeys_def assetsAt_def cache_store.cacheMget_map split: js_value.splits intro!: bexI)

lemma reach_closed: "K \<subseteq> S \<Longrightarrow> E `` S \<subseteq> S \<Longrightarrow> E\<^sup>* `` K \<subseteq> S"
proof
  fix y assume S: "K \<subseteq> S" "E `` S \<subseteq> S" and "y \<in> E\<^sup>* `` K"
  then obtain x where "(x, y) \<in> E\<^sup>*" "x \<in> S" by blast
  then show "y \<in> S" by (induction rule: rtrancl_induct) (use S in blast)+
qed

lemma load_first:
  assumes "getAssetsFromCacheWithUnderlying C keys all s = Some (Inr as)"
  shows "set (readKeys C keys s) \<subseteq> set as"
proof -
  obtain new all1 where new: "collectKeys (readKeys C keys s) all = Inr (new, all1)"
    using assms by (subst (asm) getAssetsFromCacheWithUnderlying.simps) (auto simp: Let_def split: sum.splits)
  show ?thesis
  proof (cases "new = []")
    case True
    then show ?thesis using assms by (subst (asm) getAssetsFromCacheWithUnderlying.simps) (simp add: new)
  next
    case False
    then show ?thesis using assms
      by (subst (asm) getAssetsFromCacheWithUnderlying.simps) (auto simp: new sums bind_eq_Some_conv)
  qed
qed

text \<open>The levels that are read: with the keys met so far, whose assets' parts have all been met unless they are about to be read.\<close>

lemma load_levels:
  assumes "cache_store C" "\<forall>k a. cm_get C k s = Val a \<longrightarrow> namesParts a" "finite {k. present (cm_get C k s)}"
    and "\<forall>k\<in>set all - set keys. partEdges C s `` {k} \<subseteq> set all"
  shows "\<exists>as. getAssetsFromCacheWithUnderlying C keys all s = Some (Inr as)
    \<and> set as \<union> assetsAt C s (set all) = assetsAt C s (set all \<union> (partEdges C s)\<^sup>* `` set keys)"
  using assms(4)
proof (induction "card ({k. present (cm_get C k s)} - set all)" arbitrary: keys all rule: less_induct)
  case less
  let ?E = "partEdges C s" and ?P = "{k. present (cm_get C k s)}"
  let ?as = "readKeys C keys s"
  have as: "set ?as = assetsAt C s (set keys)" by (rule readKeys_set[OF assms(1)])
  then have names: "\<forall>a\<in>set ?as. namesParts a" using assms(2) by (auto simp: assetsAt_def)
  obtain new where new: "collectKeys ?as all = Inr (new, all @ new)" "set new = (\<Union>a\<in>set ?as. set (partKeys a)) - set all"
    by (rule collectKeys_new[OF names])
  have edges: "(\<Union>a\<in>set ?as. set (partKeys a)) = ?E `` set keys" by (auto simp: as assetsAt_def partEdges_def)
  have new_keys: "set new = ?E `` set keys - set all" using new(2) by (simp add: edges)
  let ?S = "set keys \<union> set all \<union> ?E\<^sup>* `` set new"
  have "?E `` ?S \<subseteq> ?S"
  proof -
    have "?E `` set keys \<subseteq> ?S" using new_keys by blast
    moreover have "?E `` set all \<subseteq> ?S" using less.prems \<open>?E `` set keys \<subseteq> ?S\<close> by blast
    moreover have "?E `` (?E\<^sup>* `` set new) \<subseteq> ?S" by (auto intro: rtrancl_into_rtrancl)
    ultimately show ?thesis by blast
  qed
  then have "?E\<^sup>* `` set keys \<subseteq> ?S" by (intro reach_closed) auto
  moreover have "set keys \<union> ?E\<^sup>* `` set new \<subseteq> ?E\<^sup>* `` set keys"
    using new_keys by (auto intro: converse_rtrancl_into_rtrancl)
  ultimately have reach: "set all \<union> ?E\<^sup>* `` set keys = ?S" by blast
  show ?case
  proof (cases "new = []")
    case True
    then have "getAssetsFromCacheWithUnderlying C keys all s = Some (Inr ?as)"
      by (subst getAssetsFromCacheWithUnderlying.simps) (simp add: new)
    then show ?thesis unfolding reach using True by (auto simp: as assetsAt_def)
  next
    case False
    have inv: "\<forall>k\<in>set (all @ new) - set new. ?E `` {k} \<subseteq> set (all @ new)"
      using less.prems new_keys by auto
    have rest: "\<exists>more. getAssetsFromCacheWithUnderlying C new (all @ new) s = Some (Inr more)
        \<and> set more \<union> assetsAt C s (set (all @ new)) = assetsAt C s (set (all @ new) \<union> ?E\<^sup>* `` set new)"
    proof (cases "set new \<inter> ?P = {}")
      case True
      then have none: "readKeys C new s = []"
        by (auto simp: readKeys_def cache_store.cacheMget_map[OF assms(1)] split: js_value.split)
      then have "assetsAt C s (set new) = {}" using readKeys_set[OF assms(1), of new s] by simp
      then have stay: "?E `` set new = {}" by (auto simp: partEdges_def assetsAt_def)
      then have "?E\<^sup>* `` set new = set new" using reach_closed[of "set new" "set new" ?E] by auto
      moreover have "getAssetsFromCacheWithUnderlying C new (all @ new) s = Some (Inr [])"
        by (subst getAssetsFromCacheWithUnderlying.simps) (simp add: none collectKeys_def)
      ultimately show ?thesis by simp
    next
      case False
      then obtain k where k: "k \<in> set new" "k \<in> ?P" by blast
      have "card (?P - set (all @ new)) < card (?P - set all)"
        by (rule psubset_card_mono) (use assms(3) k new_keys in auto)
      from less.hyps[OF this inv] show ?thesis .
    qed
    then obtain more where more: "getAssetsFromCacheWithUnderlying C new (all @ new) s = Some (Inr more)"
      "set more \<union> assetsAt C s (set (all @ new)) = assetsAt C s (set (all @ new) \<union> ?E\<^sup>* `` set new)" by blast
    have "getAssetsFromCacheWithUnderlying C keys all s = Some (Inr (?as @ more))"
      by (subst getAssetsFromCacheWithUnderlying.simps) (simp add: new False more)
    moreover have "set (?as @ more) \<union> assetsAt C s (set all) = assetsAt C s ?S"
    proof -
      have un: "assetsAt C s (A \<union> B) = assetsAt C s A \<union> assetsAt C s B" for A B by (auto simp: assetsAt_def)
      have "assetsAt C s (set new) \<subseteq> set more \<union> {}"
        using load_first[OF more(1)] readKeys_set[OF assms(1), of new s] by simp
      moreover have "assetsAt C s (set new) \<subseteq> assetsAt C s (?E\<^sup>* `` set new)" by (auto simp: assetsAt_def)
      ultimately show ?thesis using more(2) by (auto simp: as un)
    qed
    ultimately show ?thesis unfolding reach by blast
  qed
qed

text \<open>C5: With finitely many assets in the cache that name their parts, the reading of the levels ends, also for assets that contain each
  other, and has found exactly the assets that can be reached from the keys over the parts of cached assets.\<close>

theorem cached_closure:
  assumes "cache_store C" "finite {k. present (cm_get C k s)}" "\<forall>k a. cm_get C k s = Val a \<longrightarrow> namesParts a"
  shows "\<exists>assets. getAssetsFromCacheWithUnderlying C keys [] s = Some (Inr assets)
    \<and> set assets = {a. \<exists>k\<in>set keys. \<exists>k'. (k, k') \<in> (partEdges C s)\<^sup>* \<and> cm_get C k' s = Val a}"
proof -
  have "assetsAt C s ((partEdges C s)\<^sup>* `` set keys) = {a. \<exists>k\<in>set keys. \<exists>k'. (k, k') \<in> (partEdges C s)\<^sup>* \<and> cm_get C k' s = Val a}"
    by (auto simp: assetsAt_def)
  moreover have "assetsAt C s {} = {}" by (simp add: assetsAt_def)
  ultimately show ?thesis using load_levels[OF assms(1,3,2), of "[]" keys] by simp
qed

section \<open>What is put together\<close>

lemma getUnderlying_Nil [simp]: "getUnderlying m c [] = Some (Inr [])"
  by (subst getUnderlying.simps) simp

lemma getUnderlying_length: "getUnderlying m c us = Some (Inr parts) \<Longrightarrow> length parts = length us"
proof (induction us arbitrary: parts)
  case (Cons u us)
  note run = Cons.prems[unfolded getUnderlying.simps[of m c "u # us"] list.case]
  obtain key where key: "getAssetCacheKey c (u_address u) = Inr key" using run by (auto split: sum.splits)
  let ?D = "case js_get m key of None \<Rightarrow> Some (Inr []) | Some d \<Rightarrow> (case a_underlying d of None \<Rightarrow> Some (Inr []) | Some parts \<Rightarrow> getUnderlying m (a_chainId d) parts)"
  obtain r where r: "?D = Some r" using run by (cases ?D) (simp_all add: key)
  then obtain found where "r = Inr found" using run by (cases r) (simp_all add: key)
  then obtain more where "getUnderlying m c us = Some (Inr more)" "length parts = Suc (length more)"
    using run by (auto simp: key r Let_def sums bind_eq_Some_conv)
  then show ?case using Cons.IH by simp
qed simp

text \<open>A part that was not in the cache.\<close>

definition emptyPart :: "underlying \<Rightarrow> underlying" where
  "emptyPart u = Underlying None (u_position u) None (Some (Asset None None None (Some [])))"

lemma getUnderlying_missing:
  assumes "\<forall>u\<in>set us. \<exists>x. u_address u = Some x \<and> js_get m (keyText c x) = None"
  shows "getUnderlying m c us = Some (Inr (map emptyPart us))"
  using assms
proof (induction us)
  case (Cons u us)
  then obtain x where "u_address u = Some x" "js_get m (keyText c x) = None" by auto
  then show ?case using Cons by (subst getUnderlying.simps) (simp add: emptyPart_def)
qed simp

text \<open>A cached asset whose parts are not in the cache is meant to be left out, so that it is read from the table, but is answered with
  parts that have neither an address nor any other data: the comparison of the numbers of parts never fails.\<close>

theorem missing_part_served:
  assumes "a_address a = Some x" "a_underlying a = Some us" "us \<noteq> []"
    and "\<forall>u\<in>set us. \<exists>y. u_address u = Some y \<and> keyText (a_chainId a) y \<noteq> keyText (a_chainId a) x"
  shows "mapCachedAssetsToEntities [a] = Some (Inr [Asset (a_chainId a) (a_address a) (a_info a) (Some (map emptyPart us))])"
proof -
  have m: "cachedAssetsMapOf [a] = Inr [(keyText (a_chainId a) x, a)]" by (simp add: cachedAssetsMapOf_def assms(1))
  have parts: "partsOf a = us" by (simp add: partsOf_def assms(2))
  have "getUnderlying [(keyText (a_chainId a) x, a)] (a_chainId a) us = Some (Inr (map emptyPart us))"
    by (rule getUnderlying_missing) (use assms(4) in auto)
  then show ?thesis by (simp add: mapCachedAssetsToEntities_def m parts assms(2,3))
qed

text \<open>An asset that is cached as it comes from the table, with parts, ends every request that meets it.\<close>

lemma nested_asset_throws:
  assumes "cache_store C" "cm_get C k s = Val a" "a_underlying a = Some (Underlying i p None x # us)"
  shows "getAssetsFromCacheWithUnderlying C (k # keys) all s = Some (Inl ''TypeError'')"
proof -
  have "readKeys C (k # keys) s = a # readKeys C keys s"
    by (simp add: readKeys_def cache_store.cacheMget_map[OF assms(1)] assms(2))
  then show ?thesis
    by (subst getAssetsFromCacheWithUnderlying.simps)
      (simp add: collectKeys_def partsOf_def assms(3) collectKey_def getAssetCacheKey_def)
qed


section \<open>What is written is read\<close>

text \<open>An asset of the table and all that it is made of.\<close>

fun nodes :: "asset \<Rightarrow> asset set" and partNodes :: "underlying list \<Rightarrow> asset set" where
  "nodes (Asset c a i us) = insert (Asset c a i us) (case us of None \<Rightarrow> {} | Some ps \<Rightarrow> partNodes ps)"
| "partNodes [] = {}"
| "partNodes (Underlying i p ad x # us) = (case x of None \<Rightarrow> {} | Some b \<Rightarrow> nodes b) \<union> partNodes us"

text \<open>Every asset has a chain and an address, every part its asset, on the chain of the whole.\<close>

fun complete :: "asset \<Rightarrow> bool" and completeParts :: "int option \<Rightarrow> underlying list \<Rightarrow> bool" where
  "complete (Asset c a i us) = (c \<noteq> None \<and> a \<noteq> None \<and> (case us of None \<Rightarrow> True | Some ps \<Rightarrow> completeParts c ps))"
| "completeParts c [] = True"
| "completeParts c (Underlying i p ad x # us) = ((case x of None \<Rightarrow> False | Some b \<Rightarrow> a_chainId b = c \<and> complete b) \<and> completeParts c us)"

definition keyOf :: "asset \<Rightarrow> string" where
  "keyOf a = keyText (a_chainId a) (case a_address a of Some x \<Rightarrow> x | None \<Rightarrow> [])"

definition consistent :: "asset \<Rightarrow> bool" where
  "consistent a \<longleftrightarrow> complete a \<and> (\<forall>y\<in>nodes a. \<forall>z\<in>nodes a. keyOf y = keyOf z \<longrightarrow> y = z)"

text \<open>The flat object of an asset, and the asset as it is put together again: without the identifiers of the parts.\<close>

definition refTo :: "underlying \<Rightarrow> underlying" where
  "refTo u = Underlying (u_id u) (u_position u) (Option.bind (u_asset u) a_address) None"

definition flat :: "underlying list option \<Rightarrow> asset \<Rightarrow> asset" where
  "flat unset a = Asset (a_chainId a) (a_address a) (a_info a) (case a_underlying a of None \<Rightarrow> unset | Some ps \<Rightarrow> Some (map refTo ps))"

fun normal :: "asset \<Rightarrow> asset" and normalParts :: "underlying list \<Rightarrow> underlying list" where
  "normal (Asset c a i us) = Asset c a i (Some (case us of None \<Rightarrow> [] | Some ps \<Rightarrow> normalParts ps))"
| "normalParts [] = []"
| "normalParts (Underlying i p ad x # us) = Underlying None p None (case x of None \<Rightarrow> None | Some b \<Rightarrow> Some (normal b)) # normalParts us"

lemma flat_nodes:
  "complete a \<Longrightarrow> \<exists>ds. flatAssets True unset a = Inr ds \<and> set ds = flat unset ` nodes a"
  "completeParts c us \<Longrightarrow> \<exists>ds. flatParts True unset us = Inr (ds, map refTo us) \<and> set ds = flat unset ` partNodes us"
proof (induction a and us arbitrary: and c rule: nodes_partNodes.induct)
  case (1 c a i us)
  show ?case
  proof (cases us)
    case None
    then show ?thesis by (simp add: flat_def)
  next
    case (Some ps)
    then obtain ds where "flatParts True unset ps = Inr (ds, map refTo ps)" "set ds = flat unset ` partNodes ps"
      using 1(1)[OF Some, of c] 1(2) by (auto simp: Some)
    then show ?thesis by (simp add: Some flat_def)
  qed
next
  case (3 i p ad x us)
  then obtain b where b: "x = Some b" "complete b" "completeParts c us" by (cases x) auto
  obtain ds where "flatAssets True unset b = Inr ds" "set ds = flat unset ` nodes b" using 3(1)[OF b(1)] b(2) by auto
  moreover obtain more where "flatParts True unset us = Inr (more, map refTo us)" "set more = flat unset ` partNodes us"
    using 3(2)[of c] b(3) by auto
  ultimately show ?case by (simp add: b refTo_def image_Un)
qed simp_all

lemma self_node [simp]: "a \<in> nodes a"
  by (cases a) simp

lemma nodes_trans:
  "b \<in> nodes a \<Longrightarrow> nodes b \<subseteq> nodes a"
  "b \<in> partNodes us \<Longrightarrow> nodes b \<subseteq> partNodes us"
  by (induction a and us rule: nodes_partNodes.induct) (auto split: option.splits)

lemma complete_node:
  "complete a \<Longrightarrow> b \<in> nodes a \<Longrightarrow> complete b"
  "completeParts c us \<Longrightarrow> b \<in> partNodes us \<Longrightarrow> complete b"
  by (induction a and us arbitrary: and c rule: nodes_partNodes.induct) (auto split: option.splits)

lemma complete_address: "complete a \<Longrightarrow> \<exists>c x. a_chainId a = Some c \<and> a_address a = Some x"
  by (cases a) auto

lemma complete_key: "complete a \<Longrightarrow> getAssetCacheKey (a_chainId a) (a_address a) = Inr (keyOf a)"
  using complete_address[of a] by (auto simp: keyOf_def)

lemma part_complete: "completeParts c us \<Longrightarrow> u \<in> set us \<Longrightarrow> \<exists>b. u_asset u = Some b \<and> a_chainId b = c \<and> complete b \<and> b \<in> partNodes us"
proof (induction us)
  case (Cons v us)
  then show ?case by (cases v) (auto split: option.splits)
qed simp

lemma part_node: "a_underlying a = Some ps \<Longrightarrow> partNodes ps \<subseteq> nodes a"
  by (cases a) auto

lemma parts_complete: "complete a \<Longrightarrow> a_underlying a = Some ps \<Longrightarrow> completeParts (a_chainId a) ps"
  by (cases a) simp


text \<open>An invariant of the cache: finitely many assets, all of them flat.\<close>

definition flat_cache :: "('s, asset, int) cache_manager \<Rightarrow> 's \<Rightarrow> bool" where
  "flat_cache C s \<longleftrightarrow> finite {k. present (cm_get C k s)} \<and> (\<forall>k a. cm_get C k s = Val a \<longrightarrow> namesParts a)"

lemma flat_names: "complete a \<Longrightarrow> unset \<in> {None, Some []} \<Longrightarrow> namesParts (flat unset a)"
  using parts_complete[of a] part_complete[of "a_chainId a"] complete_address
  by (fastforce simp: namesParts_def partsOf_def flat_def refTo_def split: option.splits)

lemma flat_key: "complete a \<Longrightarrow> getAssetCacheKey (a_chainId (flat unset a)) (a_address (flat unset a)) = Inr (keyOf a)"
  using complete_key[of a] by (simp add: flat_def)

lemma keyOf_flat [simp]: "keyOf (flat unset a) = keyOf a"
  by (simp add: keyOf_def flat_def)

text \<open>The items that are written for assets, and what is under a key afterwards.\<close>

lemma save_items:
  assumes "\<forall>a\<in>set as. complete a"
  shows "\<exists>ds. saveAssetsToCache C unset ttl as s = (Inr (), cacheMset C (map (\<lambda>d. (keyOf d, Val d)) ds) (Some ttl) s)
    \<and> set ds = flat unset ` (\<Union>a\<in>set as. nodes a)"
proof -
  have "\<exists>ds. sum_bind (sum_map (flatAssets True unset) as) (\<lambda>dss. Inr (concat dss)) = Inr ds \<and> set ds = flat unset ` (\<Union>a\<in>set as. nodes a)"
    using assms
  proof (induction as)
    case (Cons a as)
    obtain ds where "flatAssets True unset a = Inr ds" "set ds = flat unset ` nodes a" using flat_nodes(1)[of a unset] Cons.prems by auto
    moreover obtain dss where "sum_map (flatAssets True unset) as = Inr dss" "set (concat dss) = flat unset ` (\<Union>a\<in>set as. nodes a)"
      using Cons by (auto simp: sum_bind_Inr_iff)
    ultimately show ?case by (auto simp: image_Un)
  qed simp
  then obtain ds where ds: "mapAssetsToCachePlain unset as = Inr ds" "set ds = flat unset ` (\<Union>a\<in>set as. nodes a)"
    by (auto simp: mapAssetsToCachePlain_def)
  have "\<forall>d\<in>set ds. getAssetCacheKey (a_chainId d) (a_address d) = Inr (keyOf d)"
    using assms complete_node(1) by (auto simp: ds flat_key)
  then have "sum_map (\<lambda>a. sum_bind (getAssetCacheKey (a_chainId a) (a_address a)) (\<lambda>key. Inr (key, Val a))) ds = Inr (map (\<lambda>d. (keyOf d, Val d)) ds)"
    by (intro sum_map_total) simp
  then show ?thesis using ds by (auto simp: saveAssetsToCache_def)
qed

lemma get_saved:
  assumes "cache_store C"
  shows "cm_get C k (cacheMset C (map (\<lambda>d. (keyOf d, Val d)) ds) o1 s)
    = (case find (\<lambda>d. keyOf d = k) (rev ds) of Some d \<Rightarrow> Val d | None \<Rightarrow> cm_get C k s)"
proof -
  have all: "filter (\<lambda>(k, v). v \<noteq> Undef) (map (\<lambda>d. (keyOf d, Val d)) ds) = map (\<lambda>d. (keyOf d, Val d)) ds"
    by (auto simp: filter_id_conv)
  have "map_of (map (\<lambda>d. (keyOf d, Val d)) xs) k = map_option Val (find (\<lambda>d. keyOf d = k) xs)" for xs
    by (induction xs) auto
  then show ?thesis
    by (simp add: cache_store.get_cacheMset[OF assms] all rev_map split: option.split)
qed

text \<open>The cache stays finite and flat when assets of the table are written to it.\<close>

lemma saving_flat:
  assumes "cache_store C" "flat_cache C s" "\<forall>a\<in>set as. complete a" "unset \<in> {None, Some []}"
  shows "fst (saveAssetsToCache C unset ttl as s) = Inr () \<and> flat_cache C (snd (saveAssetsToCache C unset ttl as s))"
proof -
  obtain ds where run: "saveAssetsToCache C unset ttl as s = (Inr (), cacheMset C (map (\<lambda>d. (keyOf d, Val d)) ds) (Some ttl) s)"
    and ds: "set ds = flat unset ` (\<Union>a\<in>set as. nodes a)"
    using save_items[OF assms(3), of C unset ttl s] by (elim exE conjE) (rule that)
  let ?s = "cacheMset C (map (\<lambda>d. (keyOf d, Val d)) ds) (Some ttl) s"
  have names: "\<forall>d\<in>set ds. namesParts d"
  proof
    fix d assume "d \<in> set ds"
    then obtain a b where "a \<in> set as" "b \<in> nodes a" "d = flat unset b" by (auto simp: ds)
    then show "namesParts d" using assms(3,4) complete_node(1)[of a b] flat_names[of b unset] by simp
  qed
  have "{k. present (cm_get C k ?s)} \<subseteq> keyOf ` set ds \<union> {k. present (cm_get C k s)}"
    by (auto simp: get_saved[OF assms(1)] split: option.splits dest: find_SomeD)
  then have "finite {k. present (cm_get C k ?s)}" using assms(2) by (auto simp: flat_cache_def intro: finite_subset)
  moreover have "namesParts a" if "cm_get C k ?s = Val a" for k a
    using that names assms(2) by (auto simp: get_saved[OF assms(1)] flat_cache_def split: option.splits dest!: find_SomeD)
  ultimately show ?thesis by (simp add: run flat_cache_def)
qed


text \<open>A cache that holdsFlat the flat objects of an asset and of all that it is made of.\<close>

definition holdsFlat :: "('s, asset, int) cache_manager \<Rightarrow> underlying list option \<Rightarrow> asset \<Rightarrow> 's \<Rightarrow> bool" where
  "holdsFlat C unset e s \<longleftrightarrow> (\<forall>y\<in>nodes e. cm_get C (keyOf y) s = Val (flat unset y))"

lemma holds_saved:
  assumes "cache_store C" "consistent e"
  shows "holdsFlat C unset e (snd (saveAssetsToCache C unset ttl [e] s))"
proof -
  have "\<forall>a\<in>set [e]. complete a" using assms(2) by (simp add: consistent_def)
  from save_items[OF this, of C unset ttl s] obtain ds
    where run: "saveAssetsToCache C unset ttl [e] s = (Inr (), cacheMset C (map (\<lambda>d. (keyOf d, Val d)) ds) (Some ttl) s)"
      and ds: "set ds = flat unset ` nodes e" by auto
  show ?thesis unfolding holdsFlat_def run snd_conv get_saved[OF assms(1)]
  proof
    fix y assume y: "y \<in> nodes e"
    show "(case find (\<lambda>d. keyOf d = keyOf y) (rev ds) of Some d \<Rightarrow> Val d | None \<Rightarrow> cm_get C (keyOf y) s) = Val (flat unset y)"
    proof (cases "find (\<lambda>d. keyOf d = keyOf y) (rev ds)")
      case None
      from find_NoneD[OF this, of "flat unset y"] y show ?thesis by (simp add: ds)
    next
      case (Some d)
      then have "d \<in> flat unset ` nodes e" "keyOf d = keyOf y" using find_SomeD[OF Some] by (simp_all add: ds)
      then obtain z where "z \<in> nodes e" "d = flat unset z" "keyOf z = keyOf y" by auto
      then show ?thesis using y assms(2) by (auto simp: Some consistent_def)
    qed
  qed
qed

lemma flat_partKeys:
  assumes "complete y" "a_underlying y = Some ps"
  shows "partKeys (flat unset y) = map (\<lambda>u. keyOf (the (u_asset u))) ps"
  unfolding partKeys_def partsOf_def
proof (simp add: flat_def assms(2), rule ballI)
  fix u assume u: "u \<in> set ps"
  from part_complete[OF parts_complete[OF assms] u] obtain b where "u_asset u = Some b" "a_chainId b = a_chainId y" by blast
  then show "keyText (a_chainId y) (case u_address (refTo u) of None \<Rightarrow> [] | Some x \<Rightarrow> x) = keyOf (the (u_asset u))"
    by (simp add: refTo_def keyOf_def)
qed

lemma part_edge:
  assumes "holdsFlat C unset e s" "consistent e" "y \<in> nodes e" "a_underlying y = Some ps" "u \<in> set ps" "u_asset u = Some b"
  shows "(keyOf y, keyOf b) \<in> partEdges C s"
proof -
  have "complete y" using assms(2,3) complete_node(1) by (auto simp: consistent_def)
  then have "keyOf b \<in> set (partKeys (flat unset y))" using assms(4-6) by (force simp: flat_partKeys)
  then show ?thesis using assms(1,3) by (auto simp: partEdges_def holdsFlat_def)
qed

lemma reach_nodes:
  assumes "holdsFlat C unset e s" "consistent e" "unset \<in> {None, Some []}"
  shows "(partEdges C s)\<^sup>* `` {keyOf e} = keyOf ` nodes e"
proof
  show "(partEdges C s)\<^sup>* `` {keyOf e} \<subseteq> keyOf ` nodes e"
  proof (rule reach_closed)
    show "partEdges C s `` (keyOf ` nodes e) \<subseteq> keyOf ` nodes e"
    proof
      fix k assume "k \<in> partEdges C s `` (keyOf ` nodes e)"
      then obtain y where y: "y \<in> nodes e" "k \<in> set (partKeys (flat unset y))" using assms(1) by (auto simp: partEdges_def holdsFlat_def)
      have c: "complete y" using assms(2) y(1) complete_node(1) by (auto simp: consistent_def)
      then obtain ps where ps: "a_underlying y = Some ps"
        using y(2) assms(3) by (cases "a_underlying y") (auto simp: partKeys_def partsOf_def flat_def)
      from y(2) obtain u where u: "u \<in> set ps" "k = keyOf (the (u_asset u))" by (auto simp: flat_partKeys[OF c ps])
      from part_complete[OF parts_complete[OF c ps] u(1)] obtain b where b: "u_asset u = Some b" "b \<in> partNodes ps" by blast
      then have "b \<in> nodes e" using nodes_trans(1)[OF y(1)] part_node[OF ps] by blast
      then show "k \<in> keyOf ` nodes e" by (simp add: u b)
    qed
  qed simp
next
  have down: "a \<in> nodes e \<Longrightarrow> \<forall>b\<in>nodes a. (keyOf a, keyOf b) \<in> (partEdges C s)\<^sup>*"
    "(\<And>u b. u \<in> set us \<Longrightarrow> u_asset u = Some b \<Longrightarrow> (k, keyOf b) \<in> partEdges C s \<and> b \<in> nodes e)
      \<Longrightarrow> \<forall>b\<in>partNodes us. (k, keyOf b) \<in> (partEdges C s)\<^sup>*" for a us k
  proof (induction a and us arbitrary: and k rule: nodes_partNodes.induct)
    case (1 c a i us)
    let ?a = "Asset c a i us"
    show ?case
    proof (cases us)
      case (Some ps)
      have "(keyOf ?a, keyOf b) \<in> partEdges C s \<and> b \<in> nodes e" if "u \<in> set ps" "u_asset u = Some b" for u b
      proof -
        have und: "a_underlying ?a = Some ps" by (simp add: Some)
        have "complete ?a" using assms(2) 1(2) complete_node(1) unfolding consistent_def by blast
        from part_complete[OF parts_complete[OF this und] that(1)] that(2) have "b \<in> partNodes ps" by simp
        then show ?thesis using part_edge[OF assms(1,2) 1(2) und that] nodes_trans(1)[OF 1(2)] part_node[OF und] by blast
      qed
      from 1(1)[OF Some this] show ?thesis by (auto simp: Some)
    qed simp
  next
    case (3 i p ad x us)
    have rest: "\<forall>b\<in>partNodes us. (k, keyOf b) \<in> (partEdges C s)\<^sup>*" by (rule 3(2), rule 3(3)) simp_all
    show ?case
    proof (cases x)
      case (Some b)
      then have b: "(k, keyOf b) \<in> partEdges C s" "b \<in> nodes e" using 3(3)[of "Underlying i p ad x" b] by simp_all
      from 3(1)[OF Some b(2)] b(1) rest show ?thesis by (auto simp: Some intro: converse_rtrancl_into_rtrancl)
    qed (use rest in simp)
  qed simp
  show "keyOf ` nodes e \<subseteq> (partEdges C s)\<^sup>* `` {keyOf e}" using down(1)[of e] by auto
qed

text \<open>What was read is put together again.\<close>

lemma parts_again:
  assumes "\<And>y. y \<in> nodes e \<Longrightarrow> js_get m (keyOf y) = Some (flat unset y)" "unset \<in> {None, Some []}" "complete e"
  shows "a \<in> nodes e \<Longrightarrow> getUnderlying m (a_chainId a) (map refTo (partsOf a)) = Some (Inr (normalParts (partsOf a)))"
    "completeParts c us \<Longrightarrow> partNodes us \<subseteq> nodes e \<Longrightarrow> getUnderlying m c (map refTo us) = Some (Inr (normalParts us))"
proof (induction a and us arbitrary: and c rule: nodes_partNodes.induct)
  case (1 c a i us)
  show ?case
  proof (cases us)
    case (Some ps)
    have und: "a_underlying (Asset c a i us) = Some ps" by (simp add: Some)
    have "complete (Asset c a i us)" using assms(3) 1(2) complete_node(1) by blast
    from parts_complete[OF this und] have "completeParts c ps" by simp
    moreover have "partNodes ps \<subseteq> nodes e" using nodes_trans(1)[OF 1(2)] part_node[OF und] by blast
    ultimately show ?thesis using 1(1)[OF Some, of c] by (simp add: partsOf_def Some)
  qed (simp add: partsOf_def)
next
  case (3 i p ad x us)
  obtain b where b: "x = Some b" "a_chainId b = c" "complete b" "completeParts c us" using 3(3) by (cases x) auto
  have "b \<in> nodes e" "partNodes us \<subseteq> nodes e" using 3(4) by (auto simp: b)
  note here = 3(1)[OF b(1) this(1)] and rest = 3(2)[OF b(4) this(2)]
  obtain x where x: "a_address b = Some x" using complete_address[OF b(3)] by blast
  have key: "keyText c x = keyOf b" by (simp add: keyOf_def x b)
  have dto: "js_get m (keyOf b) = Some (flat unset b)" by (rule assms(1)) fact
  have norm: "normal b = Asset (a_chainId b) (a_address b) (a_info b) (Some (normalParts (partsOf b)))"
    by (cases b) (simp add: partsOf_def split: option.split)
  have found: "(case a_underlying (flat unset b) of None \<Rightarrow> Some (Inr []) | Some parts \<Rightarrow> getUnderlying m (a_chainId (flat unset b)) parts)
    = Some (Inr (normalParts (partsOf b)))"
    using here assms(2) b(2) by (auto simp: flat_def partsOf_def split: option.splits)
  have fields_b: "a_chainId (flat unset b) = c" "a_address (flat unset b) = Some x" "a_info (flat unset b) = a_info b"
    by (simp_all add: flat_def b x)
  show ?case
    by (subst list.map, subst getUnderlying.simps) (simp add: refTo_def b(1,2) x key dto rest norm found fields_b)
qed simp


lemma normalParts_length [simp]: "length (normalParts us) = length us"
proof (induction us)
  case (Cons u us)
  then show ?case by (cases u) simp
qed simp

lemma normal_eq: "normal a = Asset (a_chainId a) (a_address a) (a_info a) (Some (normalParts (partsOf a)))"
  by (cases a) (simp add: partsOf_def split: option.split)

lemma entities_again:
  assumes "\<And>y. y \<in> nodes e \<Longrightarrow> js_get m (keyOf y) = Some (flat unset y)" "unset \<in> {None, Some []}" "consistent e"
    and "set as \<subseteq> flat unset ` nodes e"
  shows "\<exists>es. cachedEntities m as = Some (Inr es) \<and> set es \<subseteq> normal ` nodes e
    \<and> (\<forall>y\<in>nodes e. flat unset y \<in> set as \<longrightarrow> a_underlying y \<noteq> None \<longrightarrow> normal y \<in> set es)"
  using assms(4)
proof (induction as)
  case (Cons a as)
  obtain es where es: "cachedEntities m as = Some (Inr es)" "set es \<subseteq> normal ` nodes e"
    "\<forall>y\<in>nodes e. flat unset y \<in> set as \<longrightarrow> a_underlying y \<noteq> None \<longrightarrow> normal y \<in> set es" using Cons by auto
  obtain y where y: "y \<in> nodes e" "a = flat unset y" using Cons.prems by auto
  have flds: "a_chainId a = a_chainId y" "a_address a = a_address y" "a_info a = a_info y" "partsOf a = map refTo (partsOf y)"
    using assms(2) by (auto simp: y flat_def partsOf_def split: option.split)
  have run: "(if partsOf a \<noteq> [] then getUnderlying m (a_chainId a) (partsOf a) else Some (Inr [])) = Some (Inr (normalParts (partsOf y)))"
    using parts_again(1)[of e m unset, OF assms(1,2) _ y(1)] assms(3) by (auto simp: flds consistent_def)
  let ?kept = "map_option length (a_underlying a) = Some (length (partsOf y))"
  have kept: "?kept = (a_underlying a \<noteq> None)" using flds(4) by (cases "a_underlying a") (auto simp: partsOf_def dest: arg_cong[of _ _ length])
  have step: "cachedEntities m (a # as) = Some (Inr ((if ?kept then [normal y] else []) @ es))"
    by (simp only: cachedEntities.simps run) (simp add: es normal_eq[of y] flds)
  have "normal z \<in> set ((if ?kept then [normal y] else []) @ es)"
    if z: "z \<in> nodes e" "flat unset z \<in> set (a # as)" "a_underlying z \<noteq> None" for z
  proof (cases "flat unset z \<in> set as")
    case False
    then have "flat unset z = a" using z(2) by simp
    then have "keyOf z = keyOf y" using keyOf_flat[of unset z] keyOf_flat[of unset y] by (simp add: y(2))
    then have "z = y" using assms(3) z(1) y(1) by (simp add: consistent_def)
    then show ?thesis using z(3) kept by (auto simp: y(2) flat_def)
  qed (use es(3) z in auto)
  then show ?case using step es(2) y(1) by auto
qed simp

text \<open>C24: An asset of the table that is written to the cache is answered from the cache, with all that it is made of and without its
  parts' identifiers, and the table is not asked.\<close>

theorem saved_asset_is_read:
  assumes "cache_store C" "flat_cache C s" "unset \<in> {None, Some []}" "consistent e" "a_underlying e \<noteq> None" "isRequestMatchingAsset r e"
    and "s1 = snd (saveAssetsToCache C unset ttl [e] s)"
  shows "\<exists>es. findManyByAddressesAndChainIds C unset ttl findRows [r] s1 = Some (Inr es, s1) \<and> set es = {normal e}"
proof -
  have complete: "complete e" using assms(4) by (simp add: consistent_def)
  have h: "holdsFlat C unset e s1" using holds_saved[OF assms(1,4)] by (simp add: assms(7))
  have flat_s1: "flat_cache C s1" using saving_flat[of C s "[e]" unset] assms(1-3) complete by (simp add: assms(7))
  obtain c x where cx: "a_chainId e = Some c" "a_address e = Some x" using complete_address[OF complete] by blast
  have r: "ar_chainId r = c" "to_lower (ar_address r) = to_lower x" using assms(6) by (simp_all add: isRequestMatchingAsset_def cx)
  have keys: "requestKeys [r] = Inr [keyOf e]" by (simp add: requestKeys_def r keyOf_def cx keyText_def)
  obtain as where load: "getAssetsFromCacheWithUnderlying C [keyOf e] [] s1 = Some (Inr as)"
    and as: "set as = assetsAt C s1 ((partEdges C s1)\<^sup>* `` {keyOf e})"
    using load_levels[of C s1 "[]" "[keyOf e]"] assms(1) flat_s1 by (auto simp: flat_cache_def assetsAt_def)
  have as_nodes: "set as = flat unset ` nodes e"
    using h by (auto simp: as reach_nodes[OF h assms(4,3)] assetsAt_def holdsFlat_def)
  have asset_keys: "\<forall>a\<in>set as. getAssetCacheKey (a_chainId a) (a_address a) = Inr (keyOf a)"
    using complete complete_node(1) by (auto simp: as_nodes flat_key)
  define m where "m = foldl (\<lambda>m a. js_put m (keyOf a) a) [] as"
  have map: "cachedAssetsMapOf as = Inr m"
    unfolding cachedAssetsMapOf_def m_def by (rule sum_foldl_total) (use asset_keys in simp)
  have get: "js_get m (keyOf y) = Some (flat unset y)" if y: "y \<in> nodes e" for y
  proof (cases "find (\<lambda>a. keyOf a = keyOf y) (rev as)")
    case None
    from find_NoneD[OF this, of "flat unset y"] y show ?thesis by (simp add: as_nodes)
  next
    case (Some d)
    then have "d \<in> flat unset ` nodes e" "keyOf d = keyOf y" using find_SomeD[OF Some] by (simp_all add: as_nodes)
    then obtain z where "z \<in> nodes e" "d = flat unset z" "keyOf z = keyOf y" by auto
    then have "d = flat unset y" using y assms(4) by (auto simp: consistent_def)
    then show ?thesis by (simp add: m_def put_all_get Some)
  qed
  obtain es where es: "cachedEntities m as = Some (Inr es)" "set es \<subseteq> normal ` nodes e"
    "\<forall>y\<in>nodes e. flat unset y \<in> set as \<longrightarrow> a_underlying y \<noteq> None \<longrightarrow> normal y \<in> set es"
    using entities_again[OF get assms(3,4)] as_nodes by blast
  have "normal e \<in> set es" using es(3) assms(5) by (simp add: as_nodes)
  moreover have "y = e" if "y \<in> nodes e" "isRequestMatchingAsset r (normal y)" for y
  proof -
    have "keyOf y = keyOf e" using that(2) r by (auto simp: isRequestMatchingAsset_def normal_eq keyOf_def keyText_def cx)
    then show ?thesis using that(1) assms(4) by (simp add: consistent_def)
  qed
  moreover have matches: "isRequestMatchingAsset r (normal e)" using assms(6) by (simp add: isRequestMatchingAsset_def normal_eq)
  ultimately have found: "set (excludeAssetsByRequests [r] es) = {normal e}"
    using es(2) by (auto simp: excludeAssetsByRequests_def)
  then have "excludeFoundAssets [r] (excludeAssetsByRequests [r] es) = []" using matches by (simp add: excludeFoundAssets_def)
  then have "findManyByAddressesAndChainIds C unset ttl findRows [r] s1 = Some (Inr (excludeAssetsByRequests [r] es), s1)"
    by (simp add: findManyByAddressesAndChainIds_def getCachedAssetsByAddressesAndChainIds_def keys load mapCachedAssetsToEntities_def map es(1))
  then show ?thesis using found by blast
qed


section \<open>Examples\<close>

definition tokenA :: asset where
  "tokenA = Asset (Some 1) (Some ''0xA'') None None"

definition tokenB :: asset where
  "tokenB = Asset (Some 1) (Some ''0xB'') None None"

definition pairAB :: asset where
  "pairAB = Asset (Some 1) (Some ''0xAB'') None (Some [Underlying (Some 7) 0 None (Some tokenA), Underlying (Some 8) 1 None (Some tokenB)])"

definition requestFor :: "string \<Rightarrow> asset_request" where
  "requestFor a = \<lparr> ar_chainId = 1, ar_address = a, rq_pricesAt = None, rq_forceUpdate = False \<rparr>"

lemma finite_memory: "finite {k. present (cm_get memory_cache k s)}"
proof (rule finite_subset)
  show "{k. present (cm_get memory_cache k s)} \<subseteq> fst ` set s"
    by (auto simp: memory_cache_def memory_get_def split: option.splits dest: map_of_SomeD intro!: rev_image_eqI)
qed simp

lemma key_eq: "keyText c x = keyText c y \<longleftrightarrow> to_lower x = to_lower y"
  by (simp add: keyText_def)

theorem saved_asset_is_read_witness:
  "\<exists>es. findManyByAddressesAndChainIds memory_cache None 60 (\<lambda>_. Inl ''table'') [requestFor ''0xab''] (snd (saveAssetsToCache memory_cache None 60 [pairAB] []))
     = Some (Inr es, snd (saveAssetsToCache memory_cache None 60 [pairAB] [])) \<and> set es = {normal pairAB}"
proof (rule saved_asset_is_read[OF memory.cache_store_axioms, where s = "[]" and unset = None and e = pairAB])
  show "flat_cache memory_cache []" using finite_memory[of "[]"] by (simp add: flat_cache_def memory_cache_def memory_get_def)
  show "consistent pairAB"
    by (simp add: consistent_def pairAB_def tokenA_def tokenB_def keyOf_def key_eq lower_char_def Let_def)
  show "isRequestMatchingAsset (requestFor ''0xab'') pairAB"
    by code_simp
qed (simp_all add: pairAB_def)

text \<open>Two assets that contain each other.\<close>

definition loopA :: asset where
  "loopA = Asset (Some 1) (Some ''a'') None (Some [Underlying None 0 (Some ''b'') None])"

definition loopB :: asset where
  "loopB = Asset (Some 1) (Some ''b'') None (Some [Underlying None 0 (Some ''a'') None])"

definition loopCache :: "(string, asset js_value) js_map" where
  "loopCache = [(keyOf loopA, Val loopA), (keyOf loopB, Val loopB)]"

theorem cached_closure_witness:
  "\<exists>assets. getAssetsFromCacheWithUnderlying memory_cache [keyOf loopA] [] loopCache = Some (Inr assets) \<and> loopB \<in> set assets"
proof -
  have other: "keyOf loopB \<noteq> keyOf loopA" by (simp add: keyOf_def loopA_def loopB_def key_eq lower_char_def Let_def)
  have get: "cm_get memory_cache (keyOf loopA) loopCache = Val loopA" "cm_get memory_cache (keyOf loopB) loopCache = Val loopB"
    using other by (simp_all add: memory_cache_def memory_get_def loopCache_def)
  have names: "\<forall>k a. cm_get memory_cache k loopCache = Val a \<longrightarrow> namesParts a"
    by (auto simp: memory_cache_def memory_get_def loopCache_def namesParts_def partsOf_def loopA_def loopB_def split: if_splits)
  have "keyOf loopB \<in> set (partKeys loopA)" by (simp add: partKeys_def partsOf_def loopA_def loopB_def keyOf_def)
  then have "(keyOf loopA, keyOf loopB) \<in> partEdges memory_cache loopCache" using get(1) by (auto simp: partEdges_def)
  then have "\<exists>k\<in>set [keyOf loopA]. \<exists>k'. (k, k') \<in> (partEdges memory_cache loopCache)\<^sup>* \<and> cm_get memory_cache k' loopCache = Val loopB"
    using get(2) by auto
  then show ?thesis using cached_closure[OF memory.cache_store_axioms finite_memory names, of "[keyOf loopA]"] by auto
qed

theorem missing_part_served_witness:
  "mapCachedAssetsToEntities [loopA] = Some (Inr [Asset (Some 1) (Some ''a'') None (Some [Underlying None 0 None (Some (Asset None None None (Some [])))])])"
  using missing_part_served[of loopA "''a''" "[Underlying None 0 (Some ''b'') None]"]
  by (simp add: loopA_def key_eq emptyPart_def lower_char_def Let_def)

end
