(* ===== verification/AssetAnswers.thy ===== *)
theory AssetAnswers
  imports AssetStore Addresses
begin

text \<open>
  \<open>apps/assets/src/modules/assets/services/assets.service.ts\<close> and the prices of \<open>asset-analyser.service.ts\<close>: the answer to a request for many
  assets.  Assets come from theory \<open>AssetStore\<close>, their prices from theory \<open>AssetPrices\<close>, each with its own part of the cache; the prices
  that only the contract of an asset knows come from providers, which are parameters.  Requests for unknown assets are put into a queue.
\<close>

section \<open>Data\<close>

record answer_part =
  an_address :: "string option"
  an_position :: int
  an_reserve :: "string option"

text \<open>An asset of the answer; one that was put together without its data has neither a chain and an address nor other fields.\<close>

record asset_answer =
  aw_ref :: "asset_ref option"
  aw_info :: "asset_fields option"
  aw_price :: js_num
  aw_underlying :: "answer_part list option"
  aw_historical :: "(js_num \<times> int) list"

definition answerOf :: "asset \<Rightarrow> asset_answer" where
  "answerOf a =
     \<lparr> aw_ref = (case (a_chainId a, a_address a) of (Some c, Some x) \<Rightarrow> Some \<lparr> ar_chainId = c, ar_address = x \<rparr> | _ \<Rightarrow> None),
       aw_info = a_info a, aw_price = Undef,
       aw_underlying = map_option (map (\<lambda>u. \<lparr> an_address = u_address u, an_position = u_position u, an_reserve = None \<rparr>)) (a_underlying a),
       aw_historical = [] \<rparr>"

section \<open>Mean prices\<close>

definition nestedKey :: "asset_answer \<Rightarrow> string" where
  "nestedKey dto = (case aw_ref dto of None \<Rightarrow> ''undefined_undefined'' | Some r \<Rightarrow> show_int (ar_chainId r) @ ''_'' @ ar_address r)"

definition getAllNestedAssets :: "asset_answer list \<Rightarrow> asset_answer list" where
  "getAllNestedAssets dtos = map snd (foldl (\<lambda>m dto. js_put m (nestedKey dto) dto) [] dtos)"

definition refOfAnswer :: "asset_answer \<Rightarrow> string + asset_ref" where
  "refOfAnswer dto = (case aw_ref dto of None \<Rightarrow> Inl ''TypeError'' | Some r \<Rightarrow> Inr r)"

definition sameAsset :: "asset_ref \<Rightarrow> asset_ref \<Rightarrow> bool" where
  "sameAsset a b \<longleftrightarrow> to_lower (ar_address a) = to_lower (ar_address b) \<and> ar_chainId a = ar_chainId b"

definition updateDtoWithPrices :: "asset_avg_price list \<Rightarrow> asset_answer \<Rightarrow> string + asset_answer" where
  "updateDtoWithPrices prices dto = sum_bind (refOfAnswer dto) (\<lambda>ref.
     (case find (\<lambda>p. sameAsset (aa_asset p) ref) prices of
        None \<Rightarrow> Inl ''TypeError''
      | Some assetPrice \<Rightarrow> Inr (dto\<lparr> aw_price := aa_price assetPrice,
          aw_underlying := (case (aw_underlying dto, aa_reserves assetPrice) of
              (Some us, Some (x # xs)) \<Rightarrow> Some (map (\<lambda>(index, u). u\<lparr> an_reserve := (if index < length (x # xs) then Some ((x # xs) ! index) else None) \<rparr>) (enumerate 0 us))
            | _ \<Rightarrow> aw_underlying dto) \<rparr>)))"

definition updateDtosWithPrices :: "asset_answer list \<Rightarrow> asset_avg_price list \<Rightarrow> string + asset_answer list" where
  "updateDtosWithPrices dtos prices = sum_map (updateDtoWithPrices prices) dtos"

section \<open>Prices of special assets\<close>

record complex_asset =
  co_address :: string
  co_decimals :: nat
  co_underlying :: "(string \<times> nat \<times> js_num) list option"

record price_with_reserves =
  pw_address :: string
  pw_price :: js_num
  pw_reserves :: "string list option"

record price_provider =
  canHandleCategories :: "string list \<Rightarrow> bool"
  pv_getPrices :: "int \<Rightarrow> complex_asset list \<Rightarrow> string + price_with_reserves list"

definition addressOf :: "asset_answer \<Rightarrow> string option" where
  "addressOf dto = map_option ar_address (aw_ref dto)"

definition answerDecimals :: "asset_answer \<Rightarrow> nat" where
  "answerDecimals dto = (case aw_info dto of Some i \<Rightarrow> in_decimals i | None \<Rightarrow> 0)"

text \<open>The part of a special asset is looked up by its address alone.\<close>

definition complexPart :: "asset_answer list \<Rightarrow> answer_part \<Rightarrow> string + string \<times> nat \<times> js_num" where
  "complexPart allAssets u =
     (case find (\<lambda>dto. addressOf dto = an_address u) allAssets of
        None \<Rightarrow> Inl ''TypeError''
      | Some dto \<Rightarrow> (case addressOf dto of
          None \<Rightarrow> Inl ''TypeError''
        | Some a \<Rightarrow> Inr (a, answerDecimals dto, aw_price dto)))"

definition sortParts :: "asset_answer \<Rightarrow> asset_answer" where
  "sortParts dto = dto\<lparr> aw_underlying := map_option (sort_key an_position) (aw_underlying dto) \<rparr>"

definition complexAsset :: "asset_answer list \<Rightarrow> asset_answer \<Rightarrow> string + complex_asset" where
  "complexAsset allAssets dto = sum_bind (refOfAnswer dto) (\<lambda>ref.
     (case aw_underlying (sortParts dto) of
        None \<Rightarrow> Inr \<lparr> co_address = ar_address ref, co_decimals = answerDecimals dto, co_underlying = None \<rparr>
      | Some us \<Rightarrow> sum_bind (sum_map (complexPart allAssets) us) (\<lambda>parts.
          Inr \<lparr> co_address = ar_address ref, co_decimals = answerDecimals dto, co_underlying = Some parts \<rparr>)))"

definition applySpecialPrice :: "price_with_reserves list \<Rightarrow> asset_answer \<Rightarrow> asset_answer" where
  "applySpecialPrice prices dto =
     (let price = find (\<lambda>p. Some (pw_address p) = addressOf dto) prices
      in dto\<lparr> aw_price := (case price of Some p \<Rightarrow> pw_price p | None \<Rightarrow> Undef),
           aw_underlying := (case Option.bind price pw_reserves of
               None \<Rightarrow> aw_underlying dto
             | Some rs \<Rightarrow> map_option (\<lambda>us. map (\<lambda>(index, u). u\<lparr> an_reserve := (if index < length rs then Some (rs ! index) else None) \<rparr>) (enumerate 0 us))
                 (aw_underlying dto)) \<rparr>)"

text \<open>The assets at some places of the list of all assets, which the provider changes in place.\<close>

definition updateSpecificAssetsPricesForChain :: "int \<Rightarrow> nat list \<Rightarrow> price_provider \<Rightarrow> asset_answer list \<Rightarrow> string + asset_answer list" where
  "updateSpecificAssetsPricesForChain chainId places provider allAssets =
     (let sorted_assets = foldl (\<lambda>ds i. ds[i := sortParts (ds ! i)]) allAssets places
      in sum_bind (sum_map (\<lambda>i. complexAsset allAssets (allAssets ! i)) places) (\<lambda>assets.
           (case pv_getPrices provider chainId assets of
              Inl e \<Rightarrow> Inr sorted_assets
            | Inr prices \<Rightarrow> Inr (foldl (\<lambda>ds i. ds[i := applySpecialPrice prices (ds ! i)]) sorted_assets places))))"

definition categoriesOf :: "asset_answer \<Rightarrow> string list" where
  "categoriesOf dto = (case aw_info dto of Some i \<Rightarrow> in_categories i | None \<Rightarrow> [])"

definition providerStep :: "int \<Rightarrow> nat list \<Rightarrow> asset_answer list \<Rightarrow> price_provider \<Rightarrow> string + asset_answer list" where
  "providerStep chainId chainAssets allAssets provider =
     (let priceProviderAssets = filter (\<lambda>i. canHandleCategories provider (categoriesOf (allAssets ! i))) chainAssets
      in if priceProviderAssets \<noteq> [] then updateSpecificAssetsPricesForChain chainId priceProviderAssets provider allAssets else Inr allAssets)"

definition chainOf :: "asset_answer \<Rightarrow> int option" where
  "chainOf dto = map_option ar_chainId (aw_ref dto)"

definition updateSpecificAssetsPrices :: "price_provider list \<Rightarrow> asset_answer list \<Rightarrow> string + asset_answer list" where
  "updateSpecificAssetsPrices providers assets =
     (let assetsWithoutPrices = filter (\<lambda>i. \<not> truthyValue (aw_price (assets ! i))) [0..<length assets];
          chains = js_set (map (\<lambda>i. chainOf (assets ! i)) assetsWithoutPrices)
      in sum_foldl (\<lambda>ds chainId. case chainId of
             None \<Rightarrow> Inr ds
           | Some c \<Rightarrow> sum_foldl (providerStep c (filter (\<lambda>i. chainOf (assets ! i) = chainId) assetsWithoutPrices)) ds providers) assets chains)"

section \<open>The answer\<close>

definition addAnswerPrices ::
  "('p, cached_price, int) cache_manager \<Rightarrow> price_provider list \<Rightarrow> 'p \<Rightarrow> asset_answer list \<Rightarrow> string + asset_answer list" where
  "addAnswerPrices P providers p dtos =
     sum_bind (sum_map refOfAnswer (getAllNestedAssets dtos)) (\<lambda>assets.
     sum_bind (updateDtosWithPrices dtos (getAssetPrices P assets p)) (\<lambda>priced.
       updateSpecificAssetsPrices providers priced))"

text \<open>The prices with reserves that are written back to the cache.\<close>

definition dtosToUpdatePricesInCache :: "asset_answer list \<Rightarrow> priced_dto list" where
  "dtosToUpdatePricesInCache dtos =
     concat (map (\<lambda>dto. case (aw_ref dto, aw_underlying dto) of
         (Some r, Some us) \<Rightarrow> if \<exists>u\<in>set us. an_reserve u \<noteq> None \<and> an_reserve u \<noteq> Some []
           then [\<lparr> ar_chainId = ar_chainId r, ar_address = ar_address r, pd_price = aw_price dto, pd_underlying = Some (map an_reserve us) \<rparr>] else []
       | _ \<Rightarrow> []) dtos)"

definition getHistoricalPricesRequests :: "asset_request list \<Rightarrow> asset_answer list \<Rightarrow> string + (nat \<times> int list) list" where
  "getHistoricalPricesRequests requests assets =
     sum_bind (sum_map (\<lambda>request.
         (case rq_pricesAt request of
            Some (t # ts) \<Rightarrow> sum_foldl (\<lambda>found a. if found \<noteq> [] then Inr found else sum_bind (refOfAnswer a) (\<lambda>r.
                Inr (if sameAsset r \<lparr> ar_chainId = ar_chainId request, ar_address = ar_address request \<rparr>
                  then [(case aw_info a of Some i \<Rightarrow> in_id i | None \<Rightarrow> 0, t # ts)] else []))) [] assets
          | _ \<Rightarrow> Inr [])) requests)
       (\<lambda>rss. Inr (concat rss))"

definition updateAssetsWithHistoricalPrices ::
  "((nat \<times> int list) list \<Rightarrow> string + (nat \<times> js_num \<times> int) list) \<Rightarrow> asset_request list \<Rightarrow> asset_answer list \<Rightarrow> string + asset_answer list" where
  "updateAssetsWithHistoricalPrices getRows requests assets =
     sum_bind (getHistoricalPricesRequests requests assets) (\<lambda>historicalPricesRequests.
       if historicalPricesRequests = [] then Inr assets
       else sum_bind (getRows historicalPricesRequests) (\<lambda>rows.
         (let historicalPrices = foldl (\<lambda>priceMap (asset, price, timestamp).
               js_put priceMap asset ((case js_get priceMap asset of Some ps \<Rightarrow> ps | None \<Rightarrow> []) @ [(price, timestamp)])) [] rows
          in Inr (map (\<lambda>a. a\<lparr> aw_historical := (case Option.bind (aw_info a) (\<lambda>i. js_get historicalPrices (in_id i)) of Some ps \<Rightarrow> ps | None \<Rightarrow> []) \<rparr>) assets))))"

text \<open>The requests that are put into the queue: for assets that were not found or are outdated, or when it is asked for.\<close>

definition isAssetOutdated :: "int \<Rightarrow> int \<Rightarrow> asset \<Rightarrow> string + bool" where
  "isAssetOutdated period now a =
     (if period > 0 then (case a_info a of None \<Rightarrow> Inl ''TypeError'' | Some i \<Rightarrow> Inr (now - in_updatedAt i \<ge> period)) else Inr False)"

definition requestsToProcess :: "int \<Rightarrow> int \<Rightarrow> asset_request list \<Rightarrow> asset list \<Rightarrow> string + asset_request list" where
  "requestsToProcess period now requests assets =
     sum_bind (sum_map (\<lambda>request.
         (case find (isRequestMatchingAsset request) assets of
            None \<Rightarrow> Inr [request]
          | Some a \<Rightarrow> if rq_forceUpdate request then Inr [request]
              else sum_bind (isAssetOutdated period now a) (\<lambda>outdated. Inr (if outdated then [request] else [])))) requests)
       (\<lambda>rss. Inr (concat rss))"

definition getAssetProcessJobId :: "asset_request \<Rightarrow> string" where
  "getAssetProcessJobId r = ''process-asset:'' @ show_int (ar_chainId r) @ ''-'' @ ar_address r"

definition processAssets :: "(asset_request \<Rightarrow> bool) \<Rightarrow> asset_request list \<Rightarrow> (string \<times> asset_request) list" where
  "processAssets isAssetInvalid requests =
     map (\<lambda>r. (getAssetProcessJobId r, r)) (filter (\<lambda>r. rq_forceUpdate r \<or> \<not> isAssetInvalid r) requests)"

record ('s, 'p) answer_env =
  ev_cache :: "('s, asset, int) cache_manager"
  ev_prices :: "('p, cached_price, int) cache_manager"
  ev_lib :: address_lib
  ev_unset :: "underlying list option"
  ev_ttl :: int
  ev_priceTtl :: int
  ev_period :: int
  ev_providers :: "price_provider list"
  ev_findRows :: "asset_request list \<Rightarrow> string + asset list"
  ev_historical :: "(nat \<times> int list) list \<Rightarrow> string + (nat \<times> js_num \<times> int) list"
  ev_isAssetInvalid :: "asset_request \<Rightarrow> bool"

text \<open>The answer, the requests put into the queue, and the two parts of the cache afterwards.\<close>

definition getBulkAssets ::
  "('s, 'p) answer_env \<Rightarrow> int \<Rightarrow> asset_request list \<Rightarrow> 's \<Rightarrow> 'p \<Rightarrow> ((string + asset_answer list) \<times> (string \<times> asset_request) list \<times> 's \<times> 'p) option" where
  "getBulkAssets E now requests s p =
     (let validRequests = filter (\<lambda>r. isSomeAddress (ev_lib E) (ar_address r)) requests
      in map_option (\<lambda>(found, s1).
          (case found of
             Inl e \<Rightarrow> (Inl e, [], s1, p)
           | Inr assets \<Rightarrow> (case requestsToProcess (ev_period E) now validRequests assets of
               Inl e \<Rightarrow> (Inl e, [], s1, p)
             | Inr missing \<Rightarrow>
                 (let queued = processAssets (ev_isAssetInvalid E) missing
                  in case sum_bind (mapAssetsToAPIPlain (ev_unset E) assets) (\<lambda>dtos.
                       sum_bind (updateAssetsWithHistoricalPrices (ev_historical E) requests (map answerOf dtos)) (\<lambda>answers.
                         addAnswerPrices (ev_prices E) (ev_providers E) p answers)) of
                     Inl e \<Rightarrow> (Inl e, queued, s1, p)
                   | Inr responses \<Rightarrow> (Inr responses, queued, s1,
                       saveSpecificAssetPrices (ev_prices E) (ev_priceTtl E) (dtosToUpdatePricesInCache responses) p)))))
        (findManyByAddressesAndChainIds (ev_cache E) (ev_unset E) (ev_ttl E) (ev_findRows E) validRequests s))"

text \<open>The assets of a chain for the balances: those that count, with a price.\<close>

definition getAccountedAssetsByChain ::
  "('p, cached_price, int) cache_manager \<Rightarrow> price_provider list \<Rightarrow> underlying list option \<Rightarrow> (string + asset list) \<Rightarrow> 'p \<Rightarrow> string + asset_answer list" where
  "getAccountedAssetsByChain P providers unset loaded p =
     sum_bind loaded (\<lambda>assets.
     sum_bind (mapAssetsToAPIPlain unset (filter (\<lambda>a. case a_info a of Some i \<Rightarrow> \<not> in_isNotAccounted i | None \<Rightarrow> True) assets)) (\<lambda>dtos.
     sum_bind (addAnswerPrices P providers p (map answerOf dtos)) (\<lambda>dtosWithPrices.
       Inr (filter (\<lambda>d. truthyValue (aw_price d)) dtosWithPrices))))"


section \<open>Prices that are known\<close>

text \<open>The mean price that the cache has for an asset.\<close>

definition cachedMean :: "('p, cached_price, int) cache_manager \<Rightarrow> 'p \<Rightarrow> asset_ref \<Rightarrow> js_num" where
  "cachedMean P p r = (case cm_get P (getAvgPriceCacheKey r) p of Val (AvgItem v) \<Rightarrow> av_price v | _ \<Rightarrow> Undef)"

lemma nested_all:
  assumes "dto \<in> set dtos"
  shows "\<exists>d\<in>set (getAllNestedAssets dtos). nestedKey d = nestedKey dto"
proof -
  have "js_get (foldl (\<lambda>m dto. js_put m (nestedKey dto) dto) [] dtos) (nestedKey dto) \<noteq> None"
    using find_NoneD[of "\<lambda>x. nestedKey x = nestedKey dto" "rev dtos" dto] assms by (auto simp: put_all_get split: option.split)
  then obtain d where d: "js_get (foldl (\<lambda>m dto. js_put m (nestedKey dto) dto) [] dtos) (nestedKey dto) = Some d" by blast
  then have "nestedKey d = nestedKey dto" using find_SomeD by (fastforce simp: put_all_get split: option.splits)
  moreover have "d \<in> set (getAllNestedAssets dtos)" using map_of_SomeD[OF d] by (force simp: getAllNestedAssets_def)
  ultimately show ?thesis by blast
qed

lemma prices_answered:
  assumes "cache_store P"
  shows "getAssetPrices P assets p = map (\<lambda>a. case cm_get P (getAvgPriceCacheKey a) p of
       Val (AvgItem v) \<Rightarrow> \<lparr> aa_asset = a, aa_price = av_price v, aa_reserves = av_reserves v \<rparr>
     | _ \<Rightarrow> \<lparr> aa_asset = a, aa_price = Undef, aa_reserves = None \<rparr>) assets"
  unfolding getAssetPrices_def cache_store.cacheMget_map[OF assms]
  by (induction assets) simp_all

lemma prices_entry:
  assumes "cache_store P" "pr \<in> set (getAssetPrices P assets p)"
  shows "aa_price pr = cachedMean P p (aa_asset pr) \<and> aa_asset pr \<in> set assets"
  using assms(2) by (auto simp: prices_answered[OF assms(1)] cachedMean_def split: js_value.splits cached_price.splits)

lemma prices_has: "cache_store P \<Longrightarrow> a \<in> set assets \<Longrightarrow> \<exists>pr\<in>set (getAssetPrices P assets p). aa_asset pr = a"
  by (force simp: prices_answered split: js_value.split cached_price.split)

lemma same_mean: "sameAsset a b \<Longrightarrow> cachedMean P p a = cachedMean P p b"
  by (simp add: sameAsset_def cachedMean_def getAvgPriceCacheKey_def)

text \<open>A list whose elements at some places are changed one after the other.\<close>

lemma changed_places:
  "length (foldl (\<lambda>ds i. ds[i := f (ds ! i)]) ds places) = length ds"
  "i \<notin> set places \<Longrightarrow> foldl (\<lambda>ds i. ds[i := f (ds ! i)]) ds places ! i = ds ! i"
  "(\<And>d. g (f d) = g d) \<Longrightarrow> map g (foldl (\<lambda>ds i. ds[i := f (ds ! i)]) ds places) = map g ds"
proof (induction places arbitrary: ds)
  case (Cons j places)
  { case 1 then show ?case using Cons.IH(1) by simp }
  { case 2 then show ?case using Cons.IH(2) by simp }
  { case 3
    have "map g (ds[j := f (ds ! j)]) = map g ds"
      by (cases "j < length ds") (simp_all add: map_update 3 list_update_same_conv list_update_beyond not_less)
    then show ?case using Cons.IH(3)[OF 3] by simp }
qed simp_all

text \<open>What the providers keep: the assets in their order, and the assets at all places but those without a price.\<close>

definition keeps :: "nat list \<Rightarrow> asset_answer list \<Rightarrow> asset_answer list \<Rightarrow> bool" where
  "keeps places ds ds' \<longleftrightarrow> map aw_ref ds' = map aw_ref ds \<and> (\<forall>i. i \<notin> set places \<longrightarrow> ds' ! i = ds ! i)"

lemma keeps_trans: "keeps ps a b \<Longrightarrow> keeps ps b c \<Longrightarrow> keeps ps a c"
  by (simp add: keeps_def)

lemma keeps_mono: "keeps ps a b \<Longrightarrow> set ps \<subseteq> set qs \<Longrightarrow> keeps qs a b"
  by (auto simp: keeps_def)

lemma keeps_fold:
  assumes "sum_foldl f ds xs = Inr ds'" "\<And>a b x. x \<in> set xs \<Longrightarrow> f a x = Inr b \<Longrightarrow> keeps ps a b"
  shows "keeps ps ds ds'"
  using assms
proof (induction xs arbitrary: ds)
  case Nil
  then show ?case by (simp add: keeps_def)
next
  case (Cons x xs)
  then obtain b where "f ds x = Inr b" "sum_foldl f b xs = Inr ds'" by (auto simp: sum_bind_Inr_iff)
  then show ?case using Cons.IH[of b] Cons.prems(2) keeps_trans[of ps ds b ds'] by (meson list.set_intros)
qed

lemma keeps_foldl:
  assumes "\<And>d. aw_ref (f d) = aw_ref d"
  shows "keeps places ds (foldl (\<lambda>ds i. ds[i := f (ds ! i)]) ds places)"
  using changed_places(2)[where places = places and f = f and ds = ds] changed_places(3)[where g = aw_ref and f = f, OF assms]
  by (auto simp: keeps_def)

lemma keeps_provider:
  assumes "updateSpecificAssetsPricesForChain c places provider ds = Inr ds'"
  shows "keeps places ds ds'"
proof -
  let ?sorted = "foldl (\<lambda>ds i. ds[i := sortParts (ds ! i)]) ds places"
  have sorted: "keeps places ds ?sorted" by (rule keeps_foldl) (simp add: sortParts_def)
  have "ds' = ?sorted \<or> (\<exists>prices. ds' = foldl (\<lambda>ds i. ds[i := applySpecialPrice prices (ds ! i)]) ?sorted places)"
  proof -
    obtain assets where "(case pv_getPrices provider c assets of Inl e \<Rightarrow> Inr ?sorted
        | Inr prices \<Rightarrow> Inr (foldl (\<lambda>ds i. ds[i := applySpecialPrice prices (ds ! i)]) ?sorted places)) = (Inr ds' :: string + asset_answer list)"
      using assms by (auto simp: updateSpecificAssetsPricesForChain_def Let_def sum_bind_Inr_iff)
    then show ?thesis by (cases "pv_getPrices provider c assets") auto
  qed
  moreover have "keeps places ?sorted (foldl (\<lambda>ds i. ds[i := applySpecialPrice prices (ds ! i)]) ?sorted places)" for prices
    by (rule keeps_foldl) (simp add: applySpecialPrice_def Let_def)
  ultimately show ?thesis using sorted keeps_trans by blast
qed

lemma keeps_specific:
  assumes "updateSpecificAssetsPrices providers ds = Inr ds'"
  shows "keeps (filter (\<lambda>i. \<not> truthyValue (aw_price (ds ! i))) [0..<length ds]) ds ds'"
proof -
  let ?places = "filter (\<lambda>i. \<not> truthyValue (aw_price (ds ! i))) [0..<length ds]"
  have provider: "keeps ?places a b" if "providerStep c (filter P ?places) a pv = Inr b" for c P a pv b
  proof -
    have "b = a \<or> (\<exists>ps. set ps \<subseteq> set ?places \<and> updateSpecificAssetsPricesForChain c ps pv a = Inr b)"
      using that by (force simp: providerStep_def Let_def split: if_splits)
    then show ?thesis using keeps_provider keeps_mono by (metis keeps_def)
  qed
  have chain: "keeps ?places a b" if "sum_foldl (providerStep c (filter P ?places)) a providers = Inr b" for c P a b
    using keeps_fold[OF that] provider by blast
  show ?thesis
  proof (rule keeps_fold[OF assms[unfolded updateSpecificAssetsPrices_def Let_def]])
    fix a b x
    assume "(case x of None \<Rightarrow> Inr a | Some c \<Rightarrow> sum_foldl (providerStep c (filter (\<lambda>i. chainOf (ds ! i) = x) ?places)) a providers) = Inr b"
    then show "keeps ?places a b" using chain by (cases x) (auto simp: keeps_def[of _ b b] simp del: filter_filter)
  qed
qed


lemma dto_priced:
  assumes "cache_store P" "updateDtoWithPrices (getAssetPrices P assets p) dto = Inr d"
  shows "\<exists>r. aw_ref dto = Some r \<and> aw_ref d = Some r \<and> aw_price d = cachedMean P p r"
proof -
  obtain r pr where r: "aw_ref dto = Some r" and pr: "find (\<lambda>x. sameAsset (aa_asset x) r) (getAssetPrices P assets p) = Some pr"
    and d: "aw_ref d = aw_ref dto" "aw_price d = aa_price pr"
    using assms(2) by (auto simp: updateDtoWithPrices_def refOfAnswer_def sum_bind_Inr_iff split: option.splits list.splits)
  have "pr \<in> set (getAssetPrices P assets p)" "sameAsset (aa_asset pr) r" using find_SomeD[OF pr] by simp_all
  then have "aa_price pr = cachedMean P p r" using prices_entry[OF assms(1)] same_mean by metis
  then show ?thesis using r d by simp
qed

text \<open>C12: In the answer every asset that was asked for has its place, and an asset whose mean price the cache has is answered with that price,
  in whatever case its address is written: the providers of special prices change only assets without one.\<close>

theorem known_prices_answered:
  assumes "cache_store P" "addAnswerPrices P providers p dtos = Inr ds" "i < length dtos"
  shows "length ds = length dtos \<and> aw_ref (ds ! i) = aw_ref (dtos ! i)
    \<and> (\<exists>r. aw_ref (dtos ! i) = Some r \<and> (truthyValue (cachedMean P p r) \<longrightarrow> aw_price (ds ! i) = cachedMean P p r))"
proof -
  obtain assets priced where priced: "updateDtosWithPrices dtos (getAssetPrices P assets p) = Inr priced"
    and special: "updateSpecificAssetsPrices providers priced = Inr ds"
    using assms(2) by (auto simp: addAnswerPrices_def sum_bind_Inr_iff)
  have each: "list_all2 (\<lambda>x y. updateDtoWithPrices (getAssetPrices P assets p) x = Inr y) dtos priced"
    using priced by (simp add: updateDtosWithPrices_def sum_map_Inr_iff)
  then have len: "length priced = length dtos" by (simp add: list_all2_lengthD)
  obtain r where r: "aw_ref (dtos ! i) = Some r" "aw_ref (priced ! i) = Some r" "aw_price (priced ! i) = cachedMean P p r"
    using dto_priced[OF assms(1)] list_all2_nthD[OF each assms(3)] by blast
  have kept: "map aw_ref ds = map aw_ref priced"
    "\<And>j. j \<notin> set (filter (\<lambda>i. \<not> truthyValue (aw_price (priced ! i))) [0..<length priced]) \<Longrightarrow> ds ! j = priced ! j"
    using keeps_specific[OF special] by (auto simp: keeps_def)
  then have len2: "length ds = length dtos" using len by (metis length_map)
  have "aw_ref (ds ! i) = aw_ref (priced ! i)" using kept(1) assms(3) len len2 by (metis nth_map)
  then show ?thesis using r kept(2)[of i] len2 by auto
qed

section \<open>Assets without data\<close>

lemma flat_has:
  "b \<in> nodes a \<Longrightarrow> flatAssets ids unset a = Inr ds \<Longrightarrow> \<exists>d\<in>set ds. a_chainId d = a_chainId b \<and> a_address d = a_address b"
  "b \<in> partNodes us \<Longrightarrow> flatParts ids unset us = Inr (ds, refs) \<Longrightarrow> \<exists>d\<in>set ds. a_chainId d = a_chainId b \<and> a_address d = a_address b"
proof (induction a and us arbitrary: ds and ds refs rule: nodes_partNodes.induct)
  case (1 c a i us)
  show ?case
  proof (cases us)
    case (Some ps)
    then obtain dtos refs where run: "flatParts ids unset ps = Inr (dtos, refs)" "ds = dtos @ [Asset c a i (Some refs)]"
      using 1(3) by (auto simp: sum_bind_Inr_iff)
    then show ?thesis using 1(1)[OF Some _ run(1)] 1(2) by (auto simp: Some)
  qed (use 1 in auto)
next
  case (3 i p ad x us)
  obtain a where x: "x = Some a" using 3(4) by (cases x) auto
  obtain d1 d2 refs2 where run: "flatAssets ids unset a = Inr d1" "flatParts ids unset us = Inr (d2, refs2)" "ds = d1 @ d2"
    using 3(4) by (auto simp: x sum_bind_Inr_iff)
  then show ?case using 3(1)[OF x _ run(1)] 3(2)[OF _ run(2)] 3(3) by (auto simp: x)
qed simp

lemma show_int_start: "show_int c = x # xs \<Longrightarrow> x \<noteq> CHR ''u''"
proof -
  assume s: "show_int c = x # xs"
  then have "x = CHR ''-'' \<or> x \<in> set (decimal (nat c))"
    by (auto simp: show_int_def split: if_splits)
  then show "x \<noteq> CHR ''u''"
  proof
    assume "x \<in> set (decimal (nat c))"
    then obtain d where "x = digit d" "d < 10" using set_decimal by blast
    then have "x \<in> set ''0123456789''" using digit_range by blast
    then show ?thesis by auto
  qed simp
qed

lemma hollow_not_priced:
  assumes "dto \<in> set dtos" "aw_ref dto = None"
  shows "addAnswerPrices P providers p dtos = Inl ''TypeError''"
proof -
  obtain d where d: "d \<in> set (getAllNestedAssets dtos)" "nestedKey d = nestedKey dto" using nested_all[OF assms(1)] by blast
  have "aw_ref d = None"
  proof (cases "aw_ref d")
    case (Some r)
    then have "CHR ''u'' # ''ndefined_undefined'' = show_int (ar_chainId r) @ CHR ''_'' # ar_address r" using d(2) assms(2) by (simp add: nestedKey_def)
    then show ?thesis using show_int_start[of "ar_chainId r"] by (cases "show_int (ar_chainId r)") auto
  qed
  then have "refOfAnswer d = Inl ''TypeError''" by (simp add: refOfAnswer_def)
  then have "\<forall>r. sum_map refOfAnswer (getAllNestedAssets dtos) \<noteq> Inr r"
    using d(1) by (auto simp: sum_map_Inr_iff list_all2_conv_all_nth in_set_conv_nth)
  moreover have "\<forall>e. sum_map refOfAnswer xs = Inl e \<longrightarrow> e = ''TypeError''" for xs
    by (induction xs) (auto simp: sums refOfAnswer_def split: option.splits)
  ultimately show ?thesis by (cases "sum_map refOfAnswer (getAllNestedAssets dtos)") (auto simp: addAnswerPrices_def)
qed

text \<open>C38: When one asset that was found contains an asset without data, as one from the cache does whose part has left the cache, the whole
  request fails, for all the assets that were asked for.\<close>

theorem hollow_part_fails_request:
  assumes "findManyByAddressesAndChainIds (ev_cache E) (ev_unset E) (ev_ttl E) (ev_findRows E)
      (filter (\<lambda>r. isSomeAddress (ev_lib E) (ar_address r)) requests) s = Some (Inr assets, s1)"
    and "a \<in> set assets" "Asset None None None (Some []) \<in> nodes a"
  shows "\<exists>e queued. getBulkAssets E now requests s p = Some (Inl e, queued, s1, p)"
proof -
  have fails: "\<exists>e. sum_bind (mapAssetsToAPIPlain (ev_unset E) assets) (\<lambda>dtos.
      sum_bind (updateAssetsWithHistoricalPrices (ev_historical E) requests (map answerOf dtos)) (\<lambda>answers.
        addAnswerPrices (ev_prices E) (ev_providers E) p answers)) = Inl e" (is "\<exists>e. ?run = Inl e")
  proof (cases ?run)
    case (Inr out)
    then obtain dss answers where dss: "sum_map (flatAssets False (ev_unset E)) assets = Inr dss"
      and hist: "updateAssetsWithHistoricalPrices (ev_historical E) requests (map answerOf (concat dss)) = Inr answers"
      and prices: "addAnswerPrices (ev_prices E) (ev_providers E) p answers = Inr out"
      by (auto simp: mapAssetsToAPIPlain_def sum_bind_Inr_iff)
    obtain i where i: "i < length assets" "assets ! i = a" using assms(2) by (auto simp: in_set_conv_nth)
    obtain ds where ds: "ds \<in> set dss" "flatAssets False (ev_unset E) a = Inr ds"
      using dss i that[of "dss ! i"] by (auto simp: sum_map_Inr_iff list_all2_conv_all_nth)
    from flat_has(1)[OF assms(3) ds(2)] ds(1) obtain d where "d \<in> set (concat dss)" "a_address d = None" by auto
    then have "None \<in> set (map aw_ref (map answerOf (concat dss)))" by (force simp: answerOf_def split: option.splits)
    moreover have "map aw_ref answers = map aw_ref (map answerOf (concat dss))"
      using hist by (auto simp: updateAssetsWithHistoricalPrices_def sum_bind_Inr_iff Let_def split: if_splits)
    ultimately obtain dto where "dto \<in> set answers" "aw_ref dto = None" by (metis (no_types, lifting) imageE list.set_map)
    from hollow_not_priced[OF this, of "ev_prices E" "ev_providers E" p] prices show ?thesis by simp
  qed simp
  then show ?thesis
    unfolding getBulkAssets_def Let_def assms(1)
    by (cases "requestsToProcess (ev_period E) now (filter (\<lambda>r. isSomeAddress (ev_lib E) (ar_address r)) requests) assets") auto
qed


section \<open>Examples\<close>

definition answerA :: asset_answer where
  "answerA = \<lparr> aw_ref = Some \<lparr> ar_chainId = 1, ar_address = ''0xA'' \<rparr>, aw_info = None, aw_price = Undef, aw_underlying = None, aw_historical = [] \<rparr>"

definition meanCache :: "(string, cached_price js_value) js_map" where
  "meanCache = [(getAvgPriceCacheKey \<lparr> ar_chainId = 1, ar_address = ''0xa'' \<rparr>, Val (AvgItem \<lparr> av_price = Val (Some 2), av_reserves = None \<rparr>))]"

lemma demo_mean: "cachedMean memory_cache meanCache \<lparr> ar_chainId = 1, ar_address = ''0xA'' \<rparr> = Val (Some 2)"
proof -
  have "getAvgPriceCacheKey \<lparr> ar_chainId = 1, ar_address = ''0xA'' \<rparr> = getAvgPriceCacheKey \<lparr> ar_chainId = 1, ar_address = ''0xa'' \<rparr>"
    by code_simp
  then show ?thesis by (simp add: cachedMean_def memory_cache_def memory_get_def meanCache_def)
qed

lemma no_providers: "updateSpecificAssetsPrices [] ds = Inr ds"
proof -
  have "sum_foldl (\<lambda>ds c. case c of None \<Rightarrow> Inr ds | Some c1 \<Rightarrow> sum_foldl (f c c1) ds []) ds xs = Inr ds"
    for f :: "int option \<Rightarrow> int \<Rightarrow> asset_answer list \<Rightarrow> price_provider \<Rightarrow> string + asset_answer list" and xs
    by (induction xs) (auto split: option.split)
  then show ?thesis by (simp add: updateSpecificAssetsPrices_def Let_def)
qed

theorem known_prices_answered_witness:
  "\<exists>ds. addAnswerPrices memory_cache [] meanCache [answerA] = Inr ds \<and> aw_price (ds ! 0) = Val (Some 2)"
proof -
  have "\<exists>d. updateDtoWithPrices (getAssetPrices memory_cache [\<lparr> ar_chainId = 1, ar_address = ''0xA'' \<rparr>] meanCache) answerA = Inr d"
    by (simp add: prices_answered[OF memory.cache_store_axioms] updateDtoWithPrices_def refOfAnswer_def answerA_def sameAsset_def
        split: js_value.split cached_price.split)
  then obtain d where d: "updateDtoWithPrices (getAssetPrices memory_cache [\<lparr> ar_chainId = 1, ar_address = ''0xA'' \<rparr>] meanCache) answerA = Inr d" ..
  have "sum_map refOfAnswer (getAllNestedAssets [answerA]) = Inr [\<lparr> ar_chainId = 1, ar_address = ''0xA'' \<rparr>]"
    by (simp add: getAllNestedAssets_def refOfAnswer_def answerA_def)
  then have "addAnswerPrices memory_cache [] meanCache [answerA] = Inr [d]"
    by (simp add: addAnswerPrices_def updateDtosWithPrices_def d no_providers)
  with known_prices_answered[OF memory.cache_store_axioms this, of 0] show ?thesis by (auto simp: answerA_def demo_mean truthy_num_def)
qed

definition demoEnv :: "((string, asset js_value) js_map, (string, cached_price js_value) js_map) answer_env" where
  "demoEnv = \<lparr> ev_cache = memory_cache, ev_prices = memory_cache, ev_lib = \<lparr> isETHAddress = (\<lambda>_. False), toChecksumAddress = (\<lambda>a. a), newPublicKey = (\<lambda>_. False), bech32_decode = (\<lambda>_ _. None) \<rparr>,
     ev_unset = None, ev_ttl = 60, ev_priceTtl = 60, ev_period = 0, ev_providers = [], ev_findRows = (\<lambda>_. Inr []), ev_historical = (\<lambda>_. Inr []),
     ev_isAssetInvalid = (\<lambda>_. False) \<rparr>"

theorem hollow_part_fails_request_witness:
  "\<exists>e queued. getBulkAssets demoEnv 0 [requestFor ''a''] [(keyOf loopA, Val loopA)] [] = Some (Inl e, queued, [(keyOf loopA, Val loopA)], [])"
proof -
  let ?s = "[(keyOf loopA, Val loopA)]"
  let ?e = "Asset (Some 1) (Some ''a'') None (Some [Underlying None 0 None (Some (Asset None None None (Some [])))])"
  have other: "keyText (Some 1) ''b'' \<noteq> keyOf loopA" by (simp add: keyOf_def loopA_def key_eq lower_char_def Let_def)
  have read: "readKeys memory_cache [keyOf loopA] ?s = [loopA]" "readKeys memory_cache [keyText (Some 1) ''b''] ?s = []"
    unfolding readKeys_def cache_store.cacheMget_map[OF memory.cache_store_axioms]
    using other by (simp_all add: memory_cache_def memory_get_def)
  have keys: "collectKeys [loopA] [] = Inr ([keyText (Some 1) ''b''], [keyText (Some 1) ''b''])"
    by (simp add: collectKeys_def partsOf_def loopA_def collectKey_def)
  have last: "getAssetsFromCacheWithUnderlying memory_cache [keyText (Some 1) ''b''] [keyText (Some 1) ''b''] ?s = Some (Inr [])"
    by (subst getAssetsFromCacheWithUnderlying.simps) (simp add: read collectKeys_def)
  have load: "getAssetsFromCacheWithUnderlying memory_cache [keyOf loopA] [] ?s = Some (Inr [loopA])"
    by (subst getAssetsFromCacheWithUnderlying.simps) (simp add: read keys last)
  have "cachedAssetsMapOf [loopA] = Inr [(keyOf loopA, loopA)]" by (simp add: cachedAssetsMapOf_def keyOf_def loopA_def)
  moreover have "getUnderlying [(keyOf loopA, loopA)] (Some 1) [Underlying None 0 (Some ''b'') None] = Some (Inr [emptyPart (Underlying None 0 (Some ''b'') None)])"
    using getUnderlying_missing[of "[Underlying None 0 (Some ''b'') None]" "[(keyOf loopA, loopA)]" "Some 1"] other by simp
  ultimately have "mapCachedAssetsToEntities [loopA] = Some (Inr [?e])"
    by (simp add: mapCachedAssetsToEntities_def loopA_def partsOf_def emptyPart_def)
  then have "findManyByAddressesAndChainIds memory_cache None 60 (\<lambda>_. Inr []) [requestFor ''a''] ?s = Some (Inr [?e], ?s)"
    using load by (simp add: findManyByAddressesAndChainIds_def getCachedAssetsByAddressesAndChainIds_def requestKeys_def requestFor_def
        keyOf_def loopA_def excludeAssetsByRequests_def excludeFoundAssets_def isRequestMatchingAsset_def)
  then show ?thesis
    by (intro hollow_part_fails_request[where assets = "[?e]" and a = ?e]) (simp_all add: demoEnv_def isSomeAddress_always requestFor_def)
qed

end
