(* ===== verification/AssetProcessing.thy ===== *)
theory AssetProcessing
  imports Chains
begin

text \<open>
  \<open>apps/assets/src/modules/assets/processors/assets.processor.ts\<close>, \<open>services/asset-analyser.service.ts\<close> and \<open>invalid-asset.service.ts\<close>: an
  asset that is unknown is analysed, the assets that it is made of are processed in the same way, and the result is saved; assets that
  cannot be analysed are counted.  The analysers, the table of assets, its categories and the icons are parameters; the table of
  invalid assets is part of the state.
\<close>

section \<open>Analyses\<close>

text \<open>A key of an object is absent (\<open>None\<close>), or has a value, which may be \<open>undefined\<close> or \<open>null\<close>.\<close>

type_synonym 'a object_key = "'a js_value option"

definition valueOfKey :: "'a object_key \<Rightarrow> 'a option" where
  "valueOfKey k = (case k of Some (Val x) \<Rightarrow> Some x | _ \<Rightarrow> None)"

record asset_metadata =
  md_coingeckoId :: "string object_key"
  md_coinmarketcapId :: "string object_key"
  md_marketCapRank :: "nat object_key"
  md_coingeckoRank :: "nat object_key"

record asset_analysis =
  al_name :: "string option"
  al_symbol :: "string option"
  al_decimals :: "nat option"
  al_displayName :: "string option"
  al_isTracked :: "bool option"
  al_icons :: "string list option"
  al_categories :: "string list option"
  al_underlying :: "string list option"
  al_metadata :: "asset_metadata option"

definition getNotEmpty :: "'a option \<Rightarrow> 'a option \<Rightarrow> 'a option" where
  "getNotEmpty one two = (if one \<noteq> None then one else two)"

definition getNotEmptyArray :: "'a list option \<Rightarrow> 'a list option \<Rightarrow> 'a list option" where
  "getNotEmptyArray one two = (case one of Some (x # xs) \<Rightarrow> one | _ \<Rightarrow> two)"

definition orEmpty :: "'a list option \<Rightarrow> 'a list" where
  "orEmpty xs = (case xs of Some ys \<Rightarrow> ys | None \<Rightarrow> [])"

definition mergeArrays :: "'a list option \<Rightarrow> 'a list option \<Rightarrow> 'a list" where
  "mergeArrays one two = orEmpty one @ orEmpty two"

text \<open>The spread of two objects: a key of the second hides the same key of the first, also when its value is \<open>null\<close> or \<open>undefined\<close>.\<close>

definition noMetadata :: asset_metadata where
  "noMetadata = \<lparr> md_coingeckoId = None, md_coinmarketcapId = None, md_marketCapRank = None, md_coingeckoRank = None \<rparr>"

definition keysOf :: "asset_metadata option \<Rightarrow> asset_metadata" where
  "keysOf m = (case m of Some k \<Rightarrow> k | None \<Rightarrow> noMetadata)"

definition spreadKey :: "'a object_key \<Rightarrow> 'a object_key \<Rightarrow> 'a object_key" where
  "spreadKey one two = (case two of Some v \<Rightarrow> Some v | None \<Rightarrow> one)"

definition spreadMetadata :: "asset_metadata option \<Rightarrow> asset_metadata option \<Rightarrow> asset_metadata" where
  "spreadMetadata one two =
     \<lparr> md_coingeckoId = spreadKey (md_coingeckoId (keysOf one)) (md_coingeckoId (keysOf two)),
       md_coinmarketcapId = spreadKey (md_coinmarketcapId (keysOf one)) (md_coinmarketcapId (keysOf two)),
       md_marketCapRank = spreadKey (md_marketCapRank (keysOf one)) (md_marketCapRank (keysOf two)),
       md_coingeckoRank = spreadKey (md_coingeckoRank (keysOf one)) (md_coingeckoRank (keysOf two)) \<rparr>"

fun mergeAssetAnalysis :: "asset_analysis option \<Rightarrow> asset_analysis option \<Rightarrow> asset_analysis option" where
  "mergeAssetAnalysis None None = None"
| "mergeAssetAnalysis None (Some two) = Some two"
| "mergeAssetAnalysis (Some one) None = Some one"
| "mergeAssetAnalysis (Some one) (Some two) = Some
     \<lparr> al_name = getNotEmpty (al_name one) (al_name two),
       al_symbol = getNotEmpty (al_symbol one) (al_symbol two),
       al_decimals = getNotEmpty (al_decimals one) (al_decimals two),
       al_displayName = getNotEmpty (al_displayName one) (al_displayName two),
       al_isTracked = (if al_isTracked one = Some True then Some True else al_isTracked two),
       al_icons = Some (mergeArrays (al_icons one) (al_icons two)),
       al_categories = Some (js_set (mergeArrays (al_categories one) (al_categories two))),
       al_underlying = getNotEmptyArray (al_underlying one) (al_underlying two),
       al_metadata = Some (spreadMetadata (al_metadata one) (al_metadata two)) \<rparr>"

record asset_analyser =
  canAnalyseAsset :: "int \<Rightarrow> string \<Rightarrow> string + bool"
  an_analyseAsset :: "int \<Rightarrow> string \<Rightarrow> string + asset_analysis option"

text \<open>An analyser that throws counts as one that does not know the asset.\<close>

definition analyseAssetByAnalyser :: "int \<Rightarrow> string \<Rightarrow> asset_analyser \<Rightarrow> asset_analysis option" where
  "analyseAssetByAnalyser chainId address analyser =
     (case canAnalyseAsset analyser chainId address of
        Inr True \<Rightarrow> (case an_analyseAsset analyser chainId address of Inr a \<Rightarrow> a | Inl e \<Rightarrow> None)
      | _ \<Rightarrow> None)"

definition analyseAsset :: "asset_analyser list \<Rightarrow> int \<Rightarrow> string \<Rightarrow> string + asset_analysis option" where
  "analyseAsset analysers chainId address =
     (case map (analyseAssetByAnalyser chainId address) analysers of
        [] \<Rightarrow> Inl ''TypeError''
      | a # as \<Rightarrow> Inr (foldl mergeAssetAnalysis a as))"

section \<open>Invalid assets\<close>

definition MAX_INVALID_ASSET_RETRY :: nat where
  "MAX_INVALID_ASSET_RETRY = 5"

type_synonym invalid_table = "(int \<times> string, nat) js_map"

definition invalidKey :: "int \<Rightarrow> string \<Rightarrow> int \<times> string" where
  "invalidKey chainId address = (chainId, to_lower address)"

definition isAssetInvalid :: "int \<Rightarrow> string \<Rightarrow> invalid_table \<Rightarrow> bool" where
  "isAssetInvalid chainId address t = (case js_get t (invalidKey chainId address) of None \<Rightarrow> False | Some retries \<Rightarrow> retries \<ge> MAX_INVALID_ASSET_RETRY)"

definition increaseInvalidRetries :: "int \<Rightarrow> string \<Rightarrow> invalid_table \<Rightarrow> invalid_table" where
  "increaseInvalidRetries chainId address t =
     js_put t (invalidKey chainId address) ((case js_get t (invalidKey chainId address) of None \<Rightarrow> 0 | Some retries \<Rightarrow> retries) + 1)"

definition cleanInvalidAsset :: "int \<Rightarrow> string \<Rightarrow> invalid_table \<Rightarrow> invalid_table" where
  "cleanInvalidAsset chainId address t = filter (\<lambda>(k, v). k \<noteq> invalidKey chainId address) t"

section \<open>Assets\<close>

record row_fields =
  rw_id :: "nat option"
  rw_address :: string
  rw_chainId :: int
  rw_symbol :: "string option"
  rw_name :: "string option"
  rw_displayName :: "string option"
  rw_decimals :: "nat option"
  rw_rank :: "nat option"
  rw_isTracked :: bool
  rw_metadata :: asset_metadata
  rw_icon :: "string option"
  rw_categories :: "string list"

text \<open>
  The parts of an asset with their positions.  An asset is an entity, or a plain object: one that came from the cache, or the copy that is
  saved of a new asset.  A plain object does not have the getter \<open>isLpToken\<close>, and the parts of one from the cache may be without their
  asset, as the cache keeps their addresses only.
\<close>

datatype asset_row = AssetRow (ro_fields: row_fields) (ro_isEntity: bool) (ro_underlying: "(nat \<times> asset_row option) list")

record processing_request =
  pq_chainId :: int
  pq_address :: string
  pq_isTracked :: bool
  pq_metadata :: "asset_metadata option"
  pq_forceUpdate :: bool

definition truthyNat :: "nat option \<Rightarrow> bool" where
  "truthyNat n \<longleftrightarrow> n \<noteq> None \<and> n \<noteq> Some 0"

definition givenText :: "string option \<Rightarrow> bool" where
  "givenText s \<longleftrightarrow> s \<noteq> None \<and> s \<noteq> Some []"

definition calculateRank :: "string \<Rightarrow> asset_metadata \<Rightarrow> nat option" where
  "calculateRank address metadata =
     (if isZeroAddress address then Some 1
      else if truthyNat (valueOfKey (md_marketCapRank metadata)) then valueOfKey (md_marketCapRank metadata)
      else if truthyNat (valueOfKey (md_coingeckoRank metadata)) then valueOfKey (md_coingeckoRank metadata)
      else if givenText (valueOfKey (md_coinmarketcapId metadata)) \<or> givenText (valueOfKey (md_coingeckoId metadata)) then Some 10000
      else None)"

definition to_upper :: "string \<Rightarrow> string" where
  "to_upper s = map (\<lambda>c. let n = of_char c :: nat in if 97 \<le> n \<and> n \<le> 122 then char_of (n - 32) else c) s"

definition isLpToken :: "bool \<Rightarrow> row_fields \<Rightarrow> bool" where
  "isLpToken entity r \<longleftrightarrow> entity \<and> ''lp-token'' \<in> set (rw_categories r)"

lemma sum_map_cong [fundef_cong]: "xs = ys \<Longrightarrow> (\<And>x. x \<in> set ys \<Longrightarrow> f x = g x) \<Longrightarrow> sum_map f xs = sum_map g ys"
  by (induction xs arbitrary: ys) auto

text \<open>The name of a part without its asset throws.  In the joined text an absent name is empty.\<close>

definition textOf :: "string option \<Rightarrow> string" where
  "textOf n = (case n of Some t \<Rightarrow> t | None \<Rightarrow> [])"

fun buildDisplayName :: "asset_row \<Rightarrow> string + string option" where
  "buildDisplayName (AssetRow r entity us) =
     (if us \<noteq> []
      then sum_bind (sum_map (\<lambda>(p, u). case u of None \<Rightarrow> Inl ''TypeError'' | Some part \<Rightarrow> buildDisplayName part) us) (\<lambda>names.
        Inr (Some (join_with ''/'' (map textOf names) @ (if isLpToken entity r then '' LP'' else []))))
      else Inr (case rw_symbol r of Some (c # s) \<Rightarrow> Some (to_upper (c # s)) | _ \<Rightarrow> rw_name r))"

declare buildDisplayName.simps [simp del]

record saved_icon =
  ic_url :: string
  ic_fileSize :: nat

definition largestIcon :: "saved_icon list \<Rightarrow> string option" where
  "largestIcon savedIcons = fst (foldl (\<lambda>(url, size1) i. if ic_fileSize i \<ge> size1 then (Some (ic_url i), ic_fileSize i) else (url, size1)) (None, 0) savedIcons)"

section \<open>Processing\<close>

text \<open>The table of assets and the services around it, over a state of their own.\<close>

record 'w processing_env =
  pe_find :: "int \<Rightarrow> string \<Rightarrow> 'w \<Rightarrow> (string + asset_row option) \<times> 'w"
  pe_save :: "asset_row \<Rightarrow> 'w \<Rightarrow> (string + asset_row) \<times> 'w"
  pe_uploadIcons :: "int \<Rightarrow> string \<Rightarrow> string list \<Rightarrow> 'w \<Rightarrow> (string + saved_icon list) \<times> 'w"
  pe_findOrCreate :: "string list \<Rightarrow> 'w \<Rightarrow> (string + string list) \<times> 'w"
  pe_analysers :: "asset_analyser list"

definition updateAsset :: "'w processing_env \<Rightarrow> asset_row \<Rightarrow> processing_request \<Rightarrow> 'w \<Rightarrow> (string + asset_row) \<times> 'w" where
  "updateAsset P row request w =
     (let r = ro_fields row; metadata = spreadMetadata (Some (rw_metadata r)) (pq_metadata request);
          row1 = AssetRow (r\<lparr> rw_metadata := metadata, rw_rank := calculateRank (rw_address r) metadata, rw_isTracked := rw_isTracked r \<or> pq_isTracked request \<rparr>)
            (ro_isEntity row) (ro_underlying row)
      in case pe_save P row1 w of (Inl e, w1) \<Rightarrow> (Inl e, w1) | (Inr _, w1) \<Rightarrow> (Inr row1, w1))"

definition emptyFields :: row_fields where
  "emptyFields = \<lparr> rw_id = None, rw_address = [], rw_chainId = 0, rw_symbol = None, rw_name = None, rw_displayName = None, rw_decimals = None,
     rw_rank = None, rw_isTracked = False, rw_metadata = noMetadata, rw_icon = None, rw_categories = [] \<rparr>"

text \<open>What the analysis gives an asset, before its parts.\<close>

definition analysedFields :: "row_fields \<Rightarrow> processing_request \<Rightarrow> asset_analysis \<Rightarrow> string option \<Rightarrow> string list \<Rightarrow> row_fields" where
  "analysedFields old request a icon categories =
     old\<lparr> rw_address := pq_address request, rw_chainId := pq_chainId request, rw_symbol := al_symbol a, rw_name := al_name a,
       rw_decimals := al_decimals a,
       rw_rank := calculateRank (pq_address request) (case al_metadata a of Some m \<Rightarrow> m | None \<Rightarrow> noMetadata),
       rw_isTracked := al_isTracked a = Some True \<or> pq_isTracked request,
       rw_metadata := (case al_metadata a of Some m \<Rightarrow> m | None \<Rightarrow> noMetadata), rw_icon := icon, rw_categories := categories \<rparr>"

definition partRequest :: "processing_request \<Rightarrow> string \<Rightarrow> processing_request" where
  "partRequest request address = \<lparr> pq_chainId = pq_chainId request, pq_address = address, pq_isTracked = False, pq_metadata = None,
     pq_forceUpdate = pq_forceUpdate request \<rparr>"

text \<open>The position of a part is that of the first part with its address.\<close>

definition positioned :: "string list \<Rightarrow> asset_row list \<Rightarrow> (nat \<times> asset_row option) list" where
  "positioned addresses rows = map (\<lambda>(a, row). (length (takeWhile (\<lambda>b. b \<noteq> a) addresses), Some row)) (zip addresses rows)"

text \<open>How the processing of an asset begins: it ends at once, or goes on with the fields and the parts of the analysed asset.\<close>

datatype processing_start = Ended "string + asset_row option" | Parts row_fields bool "string list"

definition startProcessing :: "'w processing_env \<Rightarrow> processing_request \<Rightarrow> 'w \<times> invalid_table \<Rightarrow> processing_start \<times> 'w \<times> invalid_table" where
  "startProcessing P request = (\<lambda>(w, t).
     (let chainId = pq_chainId request; address = pq_address request in
      case pe_find P chainId address w of
        (Inl e, w1) \<Rightarrow> (Ended (Inl e), w1, t)
      | (Inr existing, w1) \<Rightarrow>
          if existing \<noteq> None \<and> \<not> pq_forceUpdate request
          then (case updateAsset P (the existing) request w1 of
              (Inl e, w2) \<Rightarrow> (Ended (Inl e), w2, t)
            | (Inr row, w2) \<Rightarrow> (Ended (Inr (Some row)), w2, t))
          else if \<not> pq_forceUpdate request \<and> isAssetInvalid chainId address t then (Ended (Inr None), w1, t)
          else (case analyseAsset (pe_analysers P) chainId address of
              Inl e \<Rightarrow> (Ended (Inl e), w1, t)
            | Inr None \<Rightarrow> (Ended (Inr None), w1, increaseInvalidRetries chainId address t)
            | Inr (Some a) \<Rightarrow>
                (case pe_uploadIcons P chainId address (orEmpty (al_icons a)) w1 of
                   (Inl e, w2) \<Rightarrow> (Ended (Inl e), w2, t)
                 | (Inr icons, w2) \<Rightarrow>
                     (case pe_findOrCreate P (orEmpty (al_categories a)) w2 of
                        (Inl e, w3) \<Rightarrow> (Ended (Inl e), w3, t)
                      | (Inr categories, w3) \<Rightarrow>
                          (Parts (analysedFields (case existing of Some row \<Rightarrow> ro_fields row | None \<Rightarrow> emptyFields) request a (largestIcon icons) categories)
                             (case existing of Some row \<Rightarrow> ro_isEntity row | None \<Rightarrow> True) (orEmpty (al_underlying a)), w3, t))))))"

text \<open>How it ends, after the parts: an asset without one of its parts is given up.  Every error counts and is thrown again.\<close>

definition failProcessing :: "processing_request \<Rightarrow> string \<Rightarrow> 'w \<times> invalid_table \<Rightarrow> (string + asset_row option) \<times> 'w \<times> invalid_table" where
  "failProcessing request e = (\<lambda>(w, t). (Inl e, w, increaseInvalidRetries (pq_chainId request) (pq_address request) t))"

definition endProcessing ::
  "'w processing_env \<Rightarrow> processing_request \<Rightarrow> row_fields \<Rightarrow> bool \<Rightarrow> string list \<Rightarrow> (string + asset_row list option) \<Rightarrow> 'w \<times> invalid_table
    \<Rightarrow> (string + asset_row option) \<times> 'w \<times> invalid_table" where
  "endProcessing P request r entity addresses parts = (\<lambda>(w, t).
     (case parts of
        Inl e \<Rightarrow> failProcessing request e (w, t)
      | Inr None \<Rightarrow> (Inr None, w, t)
      | Inr (Some rows) \<Rightarrow>
          (let us = positioned addresses rows
           in case buildDisplayName (AssetRow r entity us) of
                Inl e \<Rightarrow> failProcessing request e (w, t)
              | Inr name \<Rightarrow>
                  (case pe_save P (AssetRow (r\<lparr> rw_displayName := name \<rparr>) entity us) w of
                     (Inl e, w1) \<Rightarrow> failProcessing request e (w1, t)
                   | (Inr saved, w1) \<Rightarrow> (Inr (Some saved), w1, cleanInvalidAsset (pq_chainId request) (pq_address request) t)))))"

text \<open>
  The requests are processed one after the other, up to the first error or the first asset that could not be had.
  On analyses that name an asset as a part of itself the processing does not end.
\<close>

partial_function (option) processAssets_inOrder ::
  "'w processing_env \<Rightarrow> processing_request list \<Rightarrow> 'w \<times> invalid_table \<Rightarrow> ((string + asset_row list option) \<times> 'w \<times> invalid_table) option" where
  "processAssets_inOrder P requests s =
     (case requests of
        [] \<Rightarrow> Some (Inr (Some []), s)
      | request # rest \<Rightarrow>
          (let (start, s1) = startProcessing P request s in
           Option.bind
             (case start of
                Ended (Inl e) \<Rightarrow> Some (failProcessing request e s1)
              | Ended (Inr r) \<Rightarrow> Some (Inr r, s1)
              | Parts r entity addresses \<Rightarrow> Option.bind (processAssets_inOrder P (map (partRequest request) addresses) s1) (\<lambda>(parts, s2).
                  Some (endProcessing P request r entity addresses parts s2)))
             (\<lambda>(result, s3).
               (case result of
                  Inl e \<Rightarrow> Some (Inl e, s3)
                | Inr None \<Rightarrow> Some (Inr None, s3)
                | Inr (Some row) \<Rightarrow> Option.bind (processAssets_inOrder P rest s3) (\<lambda>(more, s4).
                    Some (sum_bind more (\<lambda>rows. Inr (map_option (\<lambda>rs. row # rs) rows)), s4))))))"

definition processAsset :: "'w processing_env \<Rightarrow> processing_request \<Rightarrow> 'w \<times> invalid_table \<Rightarrow> ((string + asset_row option) \<times> 'w \<times> invalid_table) option" where
  "processAsset P request s =
     map_option (\<lambda>(r, s1). (sum_bind r (\<lambda>rows. Inr (Option.bind rows (\<lambda>rs. case rs of [] \<Rightarrow> None | row # _ \<Rightarrow> Some row))), s1))
       (processAssets_inOrder P [request] s)"


section \<open>Merging analyses\<close>

definition firstGivenOf :: "'a option list \<Rightarrow> 'a option" where
  "firstGivenOf xs = (case find (\<lambda>x. x \<noteq> None) xs of Some x \<Rightarrow> x | None \<Rightarrow> None)"

lemma firstGivenOf_snoc: "firstGivenOf (xs @ [x]) = getNotEmpty (firstGivenOf xs) x"
  by (induction xs) (auto simp: firstGivenOf_def getNotEmpty_def)

definition lastKeyOf :: "'a object_key list \<Rightarrow> 'a object_key" where
  "lastKeyOf xs = (case filter (\<lambda>x. x \<noteq> None) (rev xs) of x # _ \<Rightarrow> x | [] \<Rightarrow> None)"

lemma lastKeyOf_one: "lastKeyOf [x] = x"
  by (simp add: lastKeyOf_def)

lemma lastKeyOf_snoc: "lastKeyOf (xs @ [x]) = spreadKey (lastKeyOf xs) x"
  by (auto simp: lastKeyOf_def spreadKey_def split: option.split)

definition presentOf :: "'a option list \<Rightarrow> 'a list" where
  "presentOf xs = concat (map (\<lambda>x. case x of Some a \<Rightarrow> [a] | None \<Rightarrow> []) xs)"

lemma presentOf_snoc: "presentOf (xs @ [x]) = presentOf xs @ (case x of Some a \<Rightarrow> [a] | None \<Rightarrow> [])"
  by (simp add: presentOf_def)

text \<open>The merged analysis in one step, from the analyses in their order.\<close>

definition mergedWith :: "asset_analysis list \<Rightarrow> asset_analysis \<Rightarrow> bool" where
  "mergedWith as m \<longleftrightarrow> al_name m = firstGivenOf (map al_name as) \<and> al_symbol m = firstGivenOf (map al_symbol as)
     \<and> al_decimals m = firstGivenOf (map al_decimals as) \<and> al_displayName m = firstGivenOf (map al_displayName as)
     \<and> md_coingeckoId (keysOf (al_metadata m)) = lastKeyOf (map (md_coingeckoId \<circ> keysOf \<circ> al_metadata) as)
     \<and> md_coinmarketcapId (keysOf (al_metadata m)) = lastKeyOf (map (md_coinmarketcapId \<circ> keysOf \<circ> al_metadata) as)
     \<and> md_marketCapRank (keysOf (al_metadata m)) = lastKeyOf (map (md_marketCapRank \<circ> keysOf \<circ> al_metadata) as)
     \<and> md_coingeckoRank (keysOf (al_metadata m)) = lastKeyOf (map (md_coingeckoRank \<circ> keysOf \<circ> al_metadata) as)
     \<and> (al_isTracked m = Some True \<longleftrightarrow> Some True \<in> set (map al_isTracked as))
     \<and> set (orEmpty (al_categories m)) = (\<Union>a\<in>set as. set (orEmpty (al_categories a)))
     \<and> orEmpty (al_icons m) = concat (map (orEmpty \<circ> al_icons) as)
     \<and> orEmpty (al_underlying m) = (case filter (\<lambda>xs. xs \<noteq> []) (map (orEmpty \<circ> al_underlying) as) of [] \<Rightarrow> [] | xs # _ \<Rightarrow> xs)"

lemma merged_one: "mergedWith [a] a"
  by (auto simp: mergedWith_def firstGivenOf_def lastKeyOf_one)

lemma merged_step:
  assumes "mergedWith as m" "as \<noteq> []"
  shows "mergedWith (as @ [b]) (the (mergeAssetAnalysis (Some m) (Some b)))"
proof -
  have "orEmpty (getNotEmptyArray x y) = (if orEmpty x \<noteq> [] then orEmpty x else orEmpty y)" for x y :: "string list option"
    by (auto simp: getNotEmptyArray_def orEmpty_def split: option.splits list.splits)
  moreover have "(case filter (\<lambda>xs. xs \<noteq> []) xss of [] \<Rightarrow> [] | xs # _ \<Rightarrow> xs) = [] \<longleftrightarrow> filter (\<lambda>xs. xs \<noteq> []) xss = []" for xss :: "string list list"
    by (induction xss) auto
  ultimately show ?thesis using assms
    by (auto simp: mergedWith_def firstGivenOf_snoc lastKeyOf_snoc spreadMetadata_def keysOf_def[of "Some x" for x] mergeArrays_def orEmpty_def[of "Some x" for x] split: list.splits)
qed

text \<open>C29: The analysis of an asset is that of its analysers, in their order: each name, the symbol and the decimals are the first ones given, each key of
  the metadata has the value of the last analyser that sets it, be it \<open>null\<close>, the categories and icons are those of all of them, the asset is tracked when
  one of them says so, and its parts are those of the first that names any.  When no analyser knows the asset there is no analysis.\<close>

theorem analyses_merged:
  assumes "analysers \<noteq> []"
  shows "\<exists>m. analyseAsset analysers chainId address = Inr m
    \<and> (case presentOf (map (analyseAssetByAnalyser chainId address) analysers) of [] \<Rightarrow> m = None | a # as \<Rightarrow> \<exists>x. m = Some x \<and> mergedWith (a # as) x)"
proof -
  let ?rs = "map (analyseAssetByAnalyser chainId address) analysers"
  have start: "mergeAssetAnalysis None x = x" for x by (cases x) simp_all
  have fold: "analyseAsset analysers chainId address = Inr (foldl mergeAssetAnalysis None ?rs)"
    using assms by (cases analysers) (simp_all add: analyseAsset_def start)
  have "case presentOf rs of [] \<Rightarrow> foldl mergeAssetAnalysis None rs = None
      | a # as \<Rightarrow> \<exists>x. foldl mergeAssetAnalysis None rs = Some x \<and> mergedWith (a # as) x" for rs
  proof (induction rs rule: rev_induct)
    case (snoc r rs)
    show ?case
    proof (cases r)
      case None
      then show ?thesis using snoc by (cases "foldl mergeAssetAnalysis None rs") (auto simp: presentOf_snoc split: list.splits)
    next
      case (Some b)
      show ?thesis
      proof (cases "presentOf rs")
        case Nil
        then show ?thesis using snoc Some by (simp add: presentOf_snoc merged_one)
      next
        case (Cons a as)
        then obtain x where "foldl mergeAssetAnalysis None rs = Some x" "mergedWith (a # as) x" using snoc by auto
        then show ?thesis using merged_step[of "a # as" x b] Some Cons by (simp add: presentOf_snoc)
      qed
    qed
  qed (simp add: presentOf_def)
  then show ?thesis using fold by blast
qed

section \<open>Processing ends\<close>

lemma start_parts:
  assumes "startProcessing P request s = (Parts r entity addresses, s1)"
  shows "(\<exists>a. analyseAsset (pe_analysers P) (pq_chainId request) (pq_address request) = Inr (Some a) \<and> addresses = orEmpty (al_underlying a)
      \<and> rw_symbol r = al_symbol a \<and> rw_name r = al_name a \<and> (\<exists>w2 w3. pe_findOrCreate P (orEmpty (al_categories a)) w2 = (Inr (rw_categories r), w3)))
    \<and> rw_address r = pq_address request \<and> (fst (pe_find P (pq_chainId request) (pq_address request) (fst s)) = Inr None \<longrightarrow> entity)"
proof -
  obtain w t where s: "s = (w, t)" by (cases s)
  obtain existing w1 where find: "pe_find P (pq_chainId request) (pq_address request) w = (Inr existing, w1)"
    using assms by (cases "pe_find P (pq_chainId request) (pq_address request) w") (auto simp: startProcessing_def s Let_def split: sum.splits)
  obtain a where a: "analyseAsset (pe_analysers P) (pq_chainId request) (pq_address request) = Inr (Some a)"
    using assms by (cases "analyseAsset (pe_analysers P) (pq_chainId request) (pq_address request)")
      (auto simp: startProcessing_def s find Let_def split: prod.splits sum.splits if_splits option.splits)
  show ?thesis using assms
    by (auto simp: startProcessing_def s find a analysedFields_def Let_def split: prod.splits sum.splits if_splits) blast+
qed

text \<open>The processing of one request.\<close>

definition processOne :: "'w processing_env \<Rightarrow> processing_request \<Rightarrow> 'w \<times> invalid_table \<Rightarrow> ((string + asset_row option) \<times> 'w \<times> invalid_table) option" where
  "processOne P request s =
     (let (start, s1) = startProcessing P request s in
      case start of
        Ended (Inl e) \<Rightarrow> Some (failProcessing request e s1)
      | Ended (Inr r) \<Rightarrow> Some (Inr r, s1)
      | Parts r entity addresses \<Rightarrow> Option.bind (processAssets_inOrder P (map (partRequest request) addresses) s1) (\<lambda>(parts, s2).
          Some (endProcessing P request r entity addresses parts s2)))"

lemma inOrder_Nil [simp]: "processAssets_inOrder P [] s = Some (Inr (Some []), s)"
  by (subst processAssets_inOrder.simps) simp

lemma inOrder_Cons:
  "processAssets_inOrder P (request # rest) s = Option.bind (processOne P request s) (\<lambda>(result, s3).
     (case result of
        Inl e \<Rightarrow> Some (Inl e, s3)
      | Inr None \<Rightarrow> Some (Inr None, s3)
      | Inr (Some row) \<Rightarrow> Option.bind (processAssets_inOrder P rest s3) (\<lambda>(more, s4).
          Some (sum_bind more (\<lambda>rows. Inr (map_option (\<lambda>rs. row # rs) rows)), s4))))"
  by (subst processAssets_inOrder.simps) (simp add: processOne_def Let_def case_prod_beta)


text \<open>C11: When every part that the analyses name is simpler than its whole, for some measure of how complex an asset is, the processing of any
  assets ends, whatever the table, the icons and the analysers answer.\<close>

theorem processing_ends:
  fixes h :: "string \<Rightarrow> nat"
  assumes "\<And>address a u. analyseAsset (pe_analysers P) c address = Inr (Some a) \<Longrightarrow> u \<in> set (orEmpty (al_underlying a)) \<Longrightarrow> h u < h address"
    and "\<forall>request\<in>set requests. pq_chainId request = c"
  shows "processAssets_inOrder P requests s \<noteq> None"
proof -
  have below: "\<forall>requests s. (\<forall>request\<in>set requests. pq_chainId request = c \<and> h (pq_address request) < n) \<longrightarrow> processAssets_inOrder P requests s \<noteq> None" for n
  proof (induction n rule: less_induct)
    case (less n)
    have one: "processOne P request s \<noteq> None" if request: "pq_chainId request = c" "h (pq_address request) < n" for request s
    proof -
      obtain start s1 where start: "startProcessing P request s = (start, s1)" by (cases "startProcessing P request s")
      show ?thesis
      proof (cases start)
        case (Ended x)
        then show ?thesis by (cases x) (simp_all add: processOne_def start)
      next
        case (Parts r entity addresses)
        obtain a where a: "analyseAsset (pe_analysers P) c (pq_address request) = Inr (Some a)" "addresses = orEmpty (al_underlying a)"
          using start_parts[of P request s r entity addresses s1] start Parts request(1) by auto
        have "\<forall>x\<in>set (map (partRequest request) addresses). pq_chainId x = c \<and> h (pq_address x) < h (pq_address request)"
          using assms(1)[OF a(1)] request(1) by (auto simp: partRequest_def a(2))
        then have "processAssets_inOrder P (map (partRequest request) addresses) s1 \<noteq> None"
          using less.IH[OF request(2)] by blast
        then obtain parts s2 where "processAssets_inOrder P (map (partRequest request) addresses) s1 = Some (parts, s2)" by auto
        then show ?thesis by (simp add: processOne_def start Parts)
      qed
    qed
    have "\<forall>request\<in>set requests. pq_chainId request = c \<and> h (pq_address request) < n \<Longrightarrow> processAssets_inOrder P requests s \<noteq> None" for requests s
    proof (induction requests arbitrary: s)
      case (Cons request rest)
      obtain result s3 where result: "processOne P request s = Some (result, s3)" using one[of request s] Cons.prems by auto
      obtain more s4 where "processAssets_inOrder P rest s3 = Some (more, s4)" using Cons.IH[of s3] Cons.prems by auto
      then show ?case by (auto simp: inOrder_Cons result split: sum.split option.split)
    qed simp
    then show ?case by blast
  qed
  have "\<forall>request\<in>set requests. pq_chainId request = c \<and> h (pq_address request) < Suc (Max (insert 0 (h ` pq_address ` set requests)))"
    using assms(2) by (simp add: less_Suc_eq_le)
  then show ?thesis using below by blast
qed

section \<open>What is saved\<close>









text \<open>A liquidity token that is a plain object has no \<open>LP\<close> in its name, and with it the token that contains it; a part of one from the cache throws.\<close>

lemma plain_parts_named:
  assumes "buildDisplayName a = Inr (Some n)" "buildDisplayName b = Inr (Some m)"
  shows "buildDisplayName (AssetRow r False [(0, Some a), (1, Some b)]) = Inr (Some (n @ ''/'' @ m))"
    and "buildDisplayName (AssetRow r entity [(0, Some (AssetRow r1 False [(0, None)]))]) = Inl ''TypeError''"
  using assms by (simp_all add: buildDisplayName.simps isLpToken_def textOf_def)

text \<open>An asset whose first part counts as invalid is given up, but does not count itself: it is analysed anew by every request.\<close>

lemma invalid_part_not_counted:
  assumes "pe_find P c u w1 = (Inr None, w2)" "isAssetInvalid c u t" "startProcessing P request (w, t) = (Parts r entity (u # us), w1, t)"
    and "pq_chainId request = c" "\<not> pq_forceUpdate request"
  shows "processAsset P request (w, t) = Some (Inr None, w2, t)"
proof -
  have "processOne P (partRequest request u) (w1, t) = Some (Inr None, w2, t)"
    using assms(1,2,4,5) by (simp add: processOne_def startProcessing_def partRequest_def)
  then have "processAssets_inOrder P (map (partRequest request) (u # us)) (w1, t) = Some (Inr None, w2, t)"
    by (simp add: inOrder_Cons)
  then have "processOne P request (w, t) = Some (Inr None, w2, t)"
    by (simp add: processOne_def assms(3) endProcessing_def)
  then show ?thesis by (simp add: processAsset_def inOrder_Cons)
qed

section \<open>Examples\<close>

definition demoAnalysis :: "string \<Rightarrow> asset_analysis" where
  "demoAnalysis address = \<lparr> al_name = None, al_symbol = Some address, al_decimals = Some 18, al_displayName = None, al_isTracked = None, al_icons = None,
     al_categories = (if address = ''lp'' then Some [''lp-token''] else None), al_underlying = (if address = ''lp'' then Some [''t''] else None),
     al_metadata = None \<rparr>"

definition demoAnalyser :: asset_analyser where
  "demoAnalyser = \<lparr> canAnalyseAsset = (\<lambda>_ _. Inr True), an_analyseAsset = (\<lambda>_ address. Inr (Some (demoAnalysis address))) \<rparr>"

definition demoTable :: "unit processing_env" where
  "demoTable = \<lparr> pe_find = (\<lambda>_ _ w. (Inr None, w)), pe_save = (\<lambda>row w. (Inr row, w)), pe_uploadIcons = (\<lambda>_ _ _ w. (Inr [], w)),
     pe_findOrCreate = (\<lambda>codes w. (Inr codes, w)), pe_analysers = [demoAnalyser] \<rparr>"

definition demoRequest :: "string \<Rightarrow> processing_request" where
  "demoRequest address = \<lparr> pq_chainId = 1, pq_address = address, pq_isTracked = False, pq_metadata = None, pq_forceUpdate = False \<rparr>"

lemma demo_analyse: "analyseAsset [demoAnalyser] c address = Inr (Some (demoAnalysis address))"
  by (simp add: analyseAsset_def analyseAssetByAnalyser_def demoAnalyser_def)


theorem analyses_merged_witness:
  "\<exists>x. analyseAsset [demoAnalyser, demoAnalyser] 1 ''lp'' = Inr (Some x) \<and> al_symbol x = Some ''lp'' \<and> orEmpty (al_underlying x) = [''t'']"
  using analyses_merged[of "[demoAnalyser, demoAnalyser]" 1 "''lp''"]
  by (auto simp: presentOf_def analyseAssetByAnalyser_def demoAnalyser_def mergedWith_def firstGivenOf_def demoAnalysis_def orEmpty_def)

theorem processing_ends_witness: "processAssets_inOrder demoTable [demoRequest ''lp'', demoRequest ''t''] ((), []) \<noteq> None"
  by (rule processing_ends[where h = length and c = 1]) (auto simp: demoTable_def demo_analyse demoAnalysis_def orEmpty_def demoRequest_def split: if_splits)


end
