(* ===== verification/CurveAssets.thy ===== *)
theory CurveAssets
  imports MasterChef
begin

text \<open>
  \<open>apps/integration/src/framework/support/assets/curve.assets.manager.ts\<close>: tokens of pools, priced from the reserves of their pools, which may
  hold tokens of other pools.  The table of assets, the price service and the batches of contract calls are parameters.
\<close>

section \<open>Data\<close>

record curve_fields =
  cf_address :: string
  cf_decimals :: nat
  cf_isLp :: bool
  cf_positionInPool :: nat

datatype curve_token = CurveToken (ct_fields: curve_fields) (ct_underlying: "curve_token list option")

datatype curve_call = TotalSupplyCall string | BalancesCall "string option" nat

record priced_fields =
  pf_address :: string
  pf_price :: js_number
  pf_totalSupply :: "js_number option"
  pf_reserve :: "js_number option"
  pf_value :: "js_number option"
  pf_position :: "nat option"

datatype curve_priced = CurvePriced (cp_fields: priced_fields) (cp_underlying: "curve_priced list option")

definition partsOfToken :: "curve_token \<Rightarrow> curve_token list" where
  "partsOfToken t = (case ct_underlying t of Some us \<Rightarrow> us | None \<Rightarrow> [])"

definition getBalancesLabel :: "string \<Rightarrow> nat \<Rightarrow> string" where
  "getBalancesLabel lpAddress positionInPool = concatStrings [lpAddress, show_int (int positionInPool)]"

definition getTotalSupplyLabel :: "string \<Rightarrow> string" where
  "getTotalSupplyLabel tokenAddress = concatStrings [tokenAddress, ''totalSupply'']"

section \<open>Addresses and calls\<close>

fun getLpTokenAddressesRecursively :: "curve_token \<Rightarrow> string list" where
  "getLpTokenAddressesRecursively (CurveToken f us) =
     foldl (\<lambda>addresses ua. if cf_isLp (ct_fields ua) then js_set (addresses @ getLpTokenAddressesRecursively ua) else addresses)
       [cf_address f] (case us of Some xs \<Rightarrow> xs | None \<Rightarrow> [])"

fun getUnderlyingTokenAddressesRecursively :: "curve_token \<Rightarrow> string list" where
  "getUnderlyingTokenAddressesRecursively (CurveToken f us) =
     foldl (\<lambda>addresses ua. let added = set_add addresses (cf_address (ct_fields ua))
         in if cf_isLp (ct_fields ua) then js_set (added @ getUnderlyingTokenAddressesRecursively ua) else added)
       (if cf_isLp f then [] else [cf_address f]) (case us of Some xs \<Rightarrow> xs | None \<Rightarrow> [])"

definition js_merge :: "('k, 'v) js_map \<Rightarrow> ('k, 'v) js_map \<Rightarrow> ('k, 'v) js_map" where
  "js_merge m n = foldl (\<lambda>m (k, v). js_put m k v) m n"

fun buildCallsForLpToken :: "(string, string) js_map \<Rightarrow> curve_token \<Rightarrow> (string, curve_call) js_map" where
  "buildCallsForLpToken mintersMap (CurveToken f us) =
     foldl (\<lambda>callsMap ua.
         let withBalance = js_put callsMap (getBalancesLabel (cf_address f) (cf_positionInPool (ct_fields ua)))
             (BalancesCall (js_get mintersMap (cf_address f)) (cf_positionInPool (ct_fields ua)))
         in if cf_isLp (ct_fields ua) then js_merge withBalance (buildCallsForLpToken mintersMap ua) else withBalance)
       [(getTotalSupplyLabel (cf_address f), TotalSupplyCall (cf_address f))] (case us of Some xs \<Rightarrow> xs | None \<Rightarrow> [])"

definition buildCalls :: "curve_token list \<Rightarrow> (string, string) js_map \<Rightarrow> (string, curve_call) js_map" where
  "buildCalls lpTokens mintersMap = foldl (\<lambda>calls t. js_merge calls (buildCallsForLpToken mintersMap t)) [] lpTokens"

section \<open>Prices\<close>

text \<open>The output of a call, which throws for a call that was not made or not answered.\<close>

definition dataFrom :: "(string, js_number option) js_map \<Rightarrow> string \<Rightarrow> string + js_number" where
  "dataFrom callsResult label = (case js_get callsResult label of Some (Some n) \<Rightarrow> Inr n | _ \<Rightarrow> Inl ''TypeError'')"

text \<open>
  A token of a pool is worth the values of what the pool holds, divided by its supply.  The object of a token is changed in place: the place of
  a nested token in its pool has been removed when it is read.
\<close>

fun processTokenBalancesRecursively :: "(string \<Rightarrow> js_num) \<Rightarrow> (string, js_number option) js_map \<Rightarrow> curve_token \<Rightarrow> string + curve_priced"
  and processParts :: "(string \<Rightarrow> js_num) \<Rightarrow> (string, js_number option) js_map \<Rightarrow> string \<Rightarrow> js_number \<Rightarrow> curve_token list \<Rightarrow> string + js_number \<times> curve_priced list" where
  "processTokenBalancesRecursively prices callsResult (CurveToken f us) =
     (if \<not> cf_isLp f
      then Inr (CurvePriced \<lparr> pf_address = cf_address f, pf_price = numberOf (prices (cf_address f)), pf_totalSupply = None, pf_reserve = None,
        pf_value = None, pf_position = None \<rparr> None)
      else (case us of
          None \<Rightarrow> Inl ''TypeError''
        | Some uas \<Rightarrow> sum_bind (processParts prices callsResult (cf_address f) (Some 0) uas) (\<lambda>(underlyingAssetsValue, underlyingAssets).
            sum_bind (dataFrom callsResult (getTotalSupplyLabel (cf_address f))) (\<lambda>lpTokenTotalSupply.
              (let lpTokenTotalSupplyNormalized = normalizeDecimals lpTokenTotalSupply (cf_decimals f)
               in Inr (CurvePriced \<lparr> pf_address = cf_address f, pf_price = num_div underlyingAssetsValue lpTokenTotalSupplyNormalized,
                 pf_totalSupply = Some lpTokenTotalSupplyNormalized, pf_reserve = None, pf_value = None, pf_position = None \<rparr>
                 (Some underlyingAssets)))))))"
| "processParts prices callsResult address underlyingAssetsValue [] = Inr (underlyingAssetsValue, [])"
| "processParts prices callsResult address underlyingAssetsValue (ua # uas) =
     sum_bind (dataFrom callsResult (getBalancesLabel address (cf_positionInPool (ct_fields ua)))) (\<lambda>balance.
       (let balanceNormalized = normalizeDecimals balance (cf_decimals (ct_fields ua)) in
        sum_bind (if cf_isLp (ct_fields ua)
            then sum_bind (processTokenBalancesRecursively prices callsResult ua) (\<lambda>lpToken.
              (let v = num_mul balanceNormalized (pf_price (cp_fields lpToken))
               in Inr (v, CurvePriced ((cp_fields lpToken)\<lparr> pf_reserve := Some balanceNormalized, pf_value := Some v, pf_position := None \<rparr>) (cp_underlying lpToken))))
            else (let price = numberOf (prices (cf_address (ct_fields ua))); v = num_mul balanceNormalized price
              in Inr (v, CurvePriced \<lparr> pf_address = cf_address (ct_fields ua), pf_price = price, pf_totalSupply = None, pf_reserve = Some balanceNormalized,
                pf_value = Some v, pf_position = Some (cf_positionInPool (ct_fields ua)) \<rparr> None)))
          (\<lambda>(v, priced). sum_bind (processParts prices callsResult address (num_add underlyingAssetsValue v) uas) (\<lambda>(worth, more).
            Inr (worth, priced # more)))))"

definition getTokens_curve ::
  "curve_token list \<Rightarrow> (string list \<Rightarrow> string + string list) \<Rightarrow> ((string, curve_call) js_map \<Rightarrow> string + (string, js_number option) js_map)
    \<Rightarrow> (string list \<Rightarrow> string + (string \<Rightarrow> js_num)) \<Rightarrow> string + (string \<times> curve_priced \<times> string option) list" where
  "getTokens_curve tokens fetchMinters askContracts getTokenPricesFetch =
     (let lpTokens = filter (\<lambda>t. cf_isLp (ct_fields t)) tokens;
          lpTokenAddressesArray = foldl (\<lambda>addresses t. js_set (addresses @ getLpTokenAddressesRecursively t)) [] lpTokens
      in sum_bind (fetchMinters lpTokenAddressesArray) (\<lambda>tokenMinters.
         (let mintersMap = foldl (\<lambda>m (a, minter). js_put m a (to_lower minter)) [] (zip lpTokenAddressesArray tokenMinters)
          in sum_bind (askContracts (buildCalls lpTokens mintersMap)) (\<lambda>callsResult.
             (let tokenAddresses = foldl (\<lambda>addresses t. js_set (addresses @ getUnderlyingTokenAddressesRecursively t)) [] tokens
              in sum_bind (getTokenPricesFetch tokenAddresses) (\<lambda>prices.
                 sum_bind (sum_map (processTokenBalancesRecursively prices callsResult) tokens) (\<lambda>tokensFormatted.
                   Inr (map (\<lambda>t. (pf_address (cp_fields t), t, js_get mintersMap (pf_address (cp_fields t)))) tokensFormatted))))))))"


section \<open>What pools are worth\<close>

text \<open>What the contracts answer for the reserve of a token in its pool, and for the supply of a pool, in units of the token.\<close>

definition reserveOf :: "(string, js_number option) js_map \<Rightarrow> string \<Rightarrow> curve_token \<Rightarrow> js_number" where
  "reserveOf calls a t = (case js_get calls (a @ ''_'' @ show_int (int (cf_positionInPool (ct_fields t)))) of
     Some (Some n) \<Rightarrow> normalizeDecimals n (cf_decimals (ct_fields t)) | _ \<Rightarrow> None)"

definition supplyOf :: "(string, js_number option) js_map \<Rightarrow> curve_fields \<Rightarrow> js_number" where
  "supplyOf calls f = (case js_get calls (cf_address f @ ''_totalSupply'') of Some (Some n) \<Rightarrow> normalizeDecimals n (cf_decimals f) | _ \<Rightarrow> None)"

text \<open>The price of a token is that of the price service; the price of a pool is the worth of its reserves divided by its supply.\<close>

fun worthOf :: "(string \<Rightarrow> js_num) \<Rightarrow> (string, js_number option) js_map \<Rightarrow> curve_token \<Rightarrow> js_number" where
  "worthOf prices calls (CurveToken f us) =
     (if cf_isLp f
      then num_div (foldl num_add (Some 0) (map (\<lambda>u. num_mul (reserveOf calls (cf_address f) u) (worthOf prices calls u)) (case us of Some xs \<Rightarrow> xs | None \<Rightarrow> [])))
        (supplyOf calls f)
      else numberOf (prices (cf_address f)))"

text \<open>How an answer shows a token: its address and price, and for a pool its supply and, in their order, what it holds, each with its reserve and
  the worth of that.\<close>

fun showsToken :: "(string \<Rightarrow> js_num) \<Rightarrow> (string, js_number option) js_map \<Rightarrow> curve_token \<Rightarrow> curve_priced \<Rightarrow> bool" where
  "showsToken prices calls t (CurvePriced q qs) =
     (pf_address q = cf_address (ct_fields t) \<and> pf_price q = worthOf prices calls t \<and>
      (if cf_isLp (ct_fields t)
       then pf_totalSupply q = Some (supplyOf calls (ct_fields t))
         \<and> (case (ct_underlying t, qs) of
              (Some us, Some ps) \<Rightarrow> list_all2 (\<lambda>p u. showsToken prices calls u p
                \<and> pf_reserve (cp_fields p) = Some (reserveOf calls (cf_address (ct_fields t)) u)
                \<and> pf_value (cp_fields p) = Some (num_mul (reserveOf calls (cf_address (ct_fields t)) u) (worthOf prices calls u))) ps us
            | _ \<Rightarrow> False)
       else pf_totalSupply q = None \<and> qs = None))"










declare worthOf.simps [simp del] showsToken.simps [simp del]






section \<open>The calls are enough\<close>

fun completePools :: "curve_token \<Rightarrow> bool" where
  "completePools (CurveToken f us) = (case us of None \<Rightarrow> \<not> cf_isLp f | Some uas \<Rightarrow> list_all completePools uas)"

definition answeredCalls :: "(string, curve_call) js_map \<Rightarrow> (string, js_number option) js_map \<Rightarrow> bool" where
  "answeredCalls calls r \<longleftrightarrow> (\<forall>k\<in>fst ` set calls. \<exists>n. js_get r k = Some (Some n))"

lemma put_keys: "fst ` set (js_put m k v) = insert k (fst ` set m)"
  using js_keys_put_set[of k v m] by (simp add: js_keys_def)

lemma merge_keys: "fst ` set (js_merge m n) = fst ` set m \<union> fst ` set n"
proof (induction n arbitrary: m)
  case (Cons p n)
  then show ?case by (cases p) (simp add: js_merge_def put_keys)
qed (simp add: js_merge_def)

definition partCalls :: "(string, string) js_map \<Rightarrow> string \<Rightarrow> curve_token \<Rightarrow> string set" where
  "partCalls m a ua = insert (getBalancesLabel a (cf_positionInPool (ct_fields ua))) (if cf_isLp (ct_fields ua) then fst ` set (buildCallsForLpToken m ua) else {})"

lemma call_keys:
  "fst ` set (buildCallsForLpToken m (CurveToken f us))
    = insert (getTotalSupplyLabel (cf_address f)) (\<Union>ua\<in>set (case us of Some xs \<Rightarrow> xs | None \<Rightarrow> []). partCalls m (cf_address f) ua)"
proof -
  have "fst ` set (foldl (\<lambda>callsMap ua.
         let withBalance = js_put callsMap (getBalancesLabel (cf_address f) (cf_positionInPool (ct_fields ua)))
             (BalancesCall (js_get m (cf_address f)) (cf_positionInPool (ct_fields ua)))
         in if cf_isLp (ct_fields ua) then js_merge withBalance (buildCallsForLpToken m ua) else withBalance) acc uas)
      = fst ` set acc \<union> (\<Union>ua\<in>set uas. partCalls m (cf_address f) ua)" for acc uas
    by (induction uas arbitrary: acc) (auto simp: partCalls_def put_keys merge_keys Let_def)
  then show ?thesis by simp
qed

lemma buildCalls_keys: "fst ` set (buildCalls lps m) = (\<Union>t\<in>set lps. fst ` set (buildCallsForLpToken m t))"
proof -
  have "fst ` set (foldl (\<lambda>calls t. js_merge calls (buildCallsForLpToken m t)) acc lps) = fst ` set acc \<union> (\<Union>t\<in>set lps. fst ` set (buildCallsForLpToken m t))" for acc
    by (induction lps arbitrary: acc) (auto simp: merge_keys)
  then show ?thesis by (simp add: buildCalls_def)
qed

lemma calls_suffice:
  "completePools t \<Longrightarrow> (cf_isLp (ct_fields t) \<Longrightarrow> answeredCalls (buildCallsForLpToken m t) calls) \<Longrightarrow> \<exists>p. processTokenBalancesRecursively prices calls t = Inr p"
  "list_all completePools uas \<Longrightarrow> (\<And>ua k. ua \<in> set uas \<Longrightarrow> k \<in> partCalls m a ua \<Longrightarrow> \<exists>n. js_get calls k = Some (Some n))
    \<Longrightarrow> \<exists>r. processParts prices calls a acc uas = Inr r"
proof (induction prices calls t and prices calls a acc uas rule: processTokenBalancesRecursively_processParts.induct)
  case (1 prices calls f us)
  show ?case
  proof (cases "cf_isLp f")
    case True
    then obtain uas where us: "us = Some uas" using 1(2) by (cases us) auto
    have answered: "\<exists>n. js_get calls k = Some (Some n)" if "k \<in> fst ` set (buildCallsForLpToken m (CurveToken f us))" for k
      using 1(3) True that unfolding answeredCalls_def by auto
    obtain v qs where "processParts prices calls (cf_address f) (Some 0) uas = Inr (v, qs)"
      using 1(1)[OF _ us] True 1(2) answered unfolding call_keys us by fastforce
    moreover obtain n where "js_get calls (getTotalSupplyLabel (cf_address f)) = Some (Some n)"
      using answered unfolding call_keys by blast
    ultimately show ?thesis by (simp add: True us dataFrom_def Let_def)
  qed simp
next
  case (3 prices calls a acc ua uas)
  have keys: "\<exists>n. js_get calls k = Some (Some n)" if "k \<in> partCalls m a ua" for k by (rule 3(4)[OF list.set_intros(1) that])
  then obtain n where n: "js_get calls (getBalancesLabel a (cf_positionInPool (ct_fields ua))) = Some (Some n)" by (auto simp: partCalls_def)
  let ?n = "normalizeDecimals n (cf_decimals (ct_fields ua))"
  have balance: "dataFrom calls (getBalancesLabel a (cf_positionInPool (ct_fields ua))) = Inr n" by (simp add: dataFrom_def n)
  have "answeredCalls (buildCallsForLpToken m ua) calls" if "cf_isLp (ct_fields ua)" using keys that by (auto simp: answeredCalls_def partCalls_def)
  then have lp: "\<exists>p. processTokenBalancesRecursively prices calls ua = Inr p" if "cf_isLp (ct_fields ua)" using 3(1)[OF refl that] 3(3) that by simp
  have more: "\<exists>v qs. processParts prices calls a (num_add acc x) uas = Inr (v, qs)" for x
  proof -
    have "\<exists>r. processParts prices calls a (num_add acc x) uas = Inr r"
      by (rule 3(2)[OF refl]) (use 3(3) in simp, rule 3(4)[OF list.set_intros(2)])
    then show ?thesis by simp
  qed
  show ?case
  proof (cases "cf_isLp (ct_fields ua)")
    case True
    then obtain p where p: "processTokenBalancesRecursively prices calls ua = Inr p" using lp by blast
    then show ?thesis using True more[of "num_mul ?n (pf_price (cp_fields p))"] by (auto simp: balance Let_def)
  next
    case False
    then show ?thesis using more[of "num_mul ?n (numberOf (prices (cf_address (ct_fields ua))))"] by (auto simp: balance Let_def)
  qed
qed simp_all

text \<open>C26: When every call that is built is answered, every pool can be priced: the calls that are made are those whose answers are read, for pools
  in pools too.\<close>

theorem pools_answered:
  assumes complete: "list_all completePools tokens" and minters: "\<And>xs. \<exists>ms. fetchMinters xs = Inr ms"
    and asked: "\<And>calls. \<exists>r. askContracts calls = Inr r \<and> answeredCalls calls r" and priced: "\<And>xs. \<exists>ps. getTokenPricesFetch xs = Inr ps"
  shows "\<exists>out. getTokens_curve tokens fetchMinters askContracts getTokenPricesFetch = Inr out \<and> length out = length tokens"
proof -
  let ?lps = "filter (\<lambda>t. cf_isLp (ct_fields t)) tokens"
  let ?as = "foldl (\<lambda>addresses t. js_set (addresses @ getLpTokenAddressesRecursively t)) [] ?lps"
  obtain ms where ms: "fetchMinters ?as = Inr ms" using minters by blast
  let ?m = "foldl (\<lambda>m (a, minter). js_put m a (to_lower minter)) [] (zip ?as ms)"
  obtain r where r: "askContracts (buildCalls ?lps ?m) = Inr r" "answeredCalls (buildCalls ?lps ?m) r" using asked by blast
  obtain ps where ps: "getTokenPricesFetch (foldl (\<lambda>addresses t. js_set (addresses @ getUnderlyingTokenAddressesRecursively t)) [] tokens) = Inr ps"
    using priced by blast
  have one: "\<exists>p. processTokenBalancesRecursively ps r t = Inr p" if t: "t \<in> set tokens" for t
  proof (rule calls_suffice(1))
    show "completePools t" using complete t by (simp add: list_all_iff)
    assume "cf_isLp (ct_fields t)"
    then have "fst ` set (buildCallsForLpToken ?m t) \<subseteq> fst ` set (buildCalls ?lps ?m)" unfolding buildCalls_keys using t by auto
    then show "answeredCalls (buildCallsForLpToken ?m t) r" using r(2) unfolding answeredCalls_def by blast
  qed
  obtain g where "\<And>t. t \<in> set tokens \<Longrightarrow> processTokenBalancesRecursively ps r t = Inr (g t)" using one by metis
  then have "sum_map (processTokenBalancesRecursively ps r) tokens = Inr (map g tokens)" by (rule sum_map_total)
  then show ?thesis by (simp add: getTokens_curve_def Let_def ms r(1) ps)
qed

section \<open>Witnesses\<close>

definition demoCurvePool :: curve_token where
  "demoCurvePool = CurveToken \<lparr> cf_address = ''p'', cf_decimals = 0, cf_isLp = True, cf_positionInPool = 0 \<rparr> (Some
     [CurveToken \<lparr> cf_address = ''a'', cf_decimals = 0, cf_isLp = False, cf_positionInPool = 0 \<rparr> None,
      CurveToken \<lparr> cf_address = ''q'', cf_decimals = 0, cf_isLp = True, cf_positionInPool = 1 \<rparr> (Some
        [CurveToken \<lparr> cf_address = ''b'', cf_decimals = 0, cf_isLp = False, cf_positionInPool = 0 \<rparr> None])])"

definition demoAsk :: "(string, curve_call) js_map \<Rightarrow> string + (string, js_number option) js_map" where
  "demoAsk calls = Inr (map (\<lambda>(k, _). (k, Some (Some 4))) calls)"

lemma demo_asked: "\<exists>r. demoAsk calls = Inr r \<and> answeredCalls calls r"
  by (induction calls) (auto simp: demoAsk_def answeredCalls_def split: if_splits)

theorem pools_answered_witness:
  "\<exists>out. getTokens_curve [demoCurvePool] (\<lambda>xs. Inr (map (\<lambda>_. ''M'') xs)) demoAsk (\<lambda>_. Inr (\<lambda>_. Val (Some 3))) = Inr out \<and> length out = length [demoCurvePool]"
  by (rule pools_answered[OF _ _ demo_asked]) (simp_all add: demoCurvePool_def)


end
