(* ===== verification/Spec2Isabelle.thy ===== *)
theory Spec2Isabelle
  imports TickMath Chains Addresses Collections Cache Endpoints RpcProxy ProtocolCache Prices Scans Integrations IntegrationsV2 Scheduler Multicall TxParsing FeatureResults Blocks Balances AbiFunctions MasterChef StakingRewards Liquidity Lending Currencies AssetPrices PoolPrices PriceSources ProfitLoss Opportunities AssetStore AssetAnswers AssetProcessing CurveAssets
begin

text \<open>
  This library models the core of the backend whose sources are under \<open>src/\<close>: a set of services in
  TypeScript that collect what the accounts of a user hold on some thirty block chains (balances, transfers, positions
  in protocols), price it, and hand it out over HTTP.  Paths below are relative to \<open>src/\<close>.

  \<^bold>\<open>The parts of the program and how they interact.\<close>  The gateway forwards a request to one of the
  services.  The \<^bold>\<open>account\<close> service reads balances and transfers; the \<^bold>\<open>integration\<close> service
  asks platforms, and these their protocols, for the positions of the accounts; the \<^bold>\<open>price\<close> service keeps
  current and historical prices; the \<^bold>\<open>rpc\<close> service proxies calls to the nodes of the chains and scores them; the
  \<^bold>\<open>scheduler\<close> starts jobs, and the \<^bold>\<open>jobs\<close> migrate transactions.  All of them share \<open>libs/common\<close>: the catalogue of chains,
  normal forms of addresses, helpers on collections, the cache and the batches of contract calls.

  \<^bold>\<open>Conventions.\<close>  An object is a record, an enumeration a datatype, a \<open>Map\<close> or an object used as one an association
  list in insertion order (\<open>Prelude.js_map\<close>), a \<open>Set\<close> a list without duplicates.  A thrown error that a caller
  can see is the left side of a sum, an absent value an option or a \<open>js_value\<close> where \<open>undefined\<close> and \<open>null\<close> differ.
  Numbers of JavaScript and of \<open>bignumber.js\<close> are exact rationals with \<open>None\<close> for \<open>NaN\<close> and for infinite values
  (\<open>js_number\<close>); the rounding of binary floating point is not modelled, the rounding of decimal quotients to twenty
  places is (\<open>MasterChef.dividedBy\<close>); infinite values are kept where the code shows them (\<open>Opportunities.js_real\<close>, \<open>Lending.big\<close>).  State that outlives a call (a cache, a table, a registry, the statistics of endpoints) is passed and
  returned; objects that are changed in place and seen by several owners are a store of objects (\<open>StakingRewards\<close>, \<open>Lending\<close>).
  Operations that run concurrently are sequences of their atomic steps where the code can be interrupted between them
  (\<open>Endpoints\<close>, \<open>Scheduler\<close>), and are performed in the order in which they are started or completed elsewhere.
  Code that is not under \<open>src/\<close> (packages, databases, nodes, web services) is a parameter; what the code relies on is stated as a locale
  with an instance, or as a named hypothesis of a theorem.

  \<^bold>\<open>Shared libraries\<close> (\<open>libs/common\<close>).
  \<open>Prelude\<close>: maps, sets, settled promises, sums, texts and numbers.
  \<open>Chains\<close>: \<open>enum/chain.enum.ts\<close>, \<open>utils/chains.ts\<close>; lookups, their domains and round trips.
  \<open>Addresses\<close>: \<open>utils/addresses.ts\<close>; normal forms, what a chain keeps of a list of addresses (locale \<open>eth_addresses\<close>).
  \<open>Collections\<close>: \<open>utils/array.ts\<close>, \<open>transform.ts\<close>, \<open>string.ts\<close>, \<open>promise.ts\<close>, \<open>retry.ts\<close> and others; grouping, chunks, retries.
  \<open>Cache\<close>: \<open>services/cache.service.ts\<close> over the locale \<open>cache_store\<close>.
  \<open>Multicall\<close>: \<open>web3provider/multicall.aggregator.ts\<close>, \<open>utils/multicall.ts\<close>; that a batch answers each call as the node answers it alone
  (locale \<open>multicall_contract\<close>), on which \<open>MasterChef\<close> builds.

  \<^bold>\<open>The rpc service\<close> (\<open>apps/rpc\<close>).
  \<open>Endpoints\<close>: the table of endpoints, its synchronisation and the score history, with interleaved updates as an inductive step
  relation and its invariant (locales \<open>js_sorting\<close>, \<open>endpoint_table\<close>).
  \<open>RpcProxy\<close>: the round robin over the endpoints of a chain.

  \<^bold>\<open>The price service\<close> (\<open>apps/price\<close>).
  \<open>Prices\<close>: \<open>prices.service.ts\<close> and \<open>price.repository.ts\<close>; cached, current and historical prices (locale \<open>lodash_laws\<close>).
  \<open>Currencies\<close>: \<open>modules/lookup\<close>; rates of currencies and coins.

  \<^bold>\<open>The assets service\<close> (\<open>apps/assets\<close>).
  \<open>AssetPrices\<close>: \<open>modules/prices/price.service.ts\<close>; the prices of each source in the cache with their invariant, their means, historical rows.
  \<open>PoolPrices\<close>: \<open>strategies/univ2-network.strategy.ts\<close>; prices from the reserves of pools, weighted by capital.
  \<open>AssetStore\<close>: \<open>repositories/assets.cached-repository.ts\<close>, \<open>utils/cache-mapping.ts\<close>; assets and what they are made of in the cache.
  \<open>AssetAnswers\<close>: \<open>services/assets.service.ts\<close>, \<open>asset-analyser.service.ts\<close>; requests for many assets with mean, special and historical prices.
  \<open>AssetProcessing\<close>: \<open>processors/assets.processor.ts\<close>, \<open>asset-analyser.service.ts\<close>, \<open>invalid-asset.service.ts\<close>; the analysis of unknown assets
  and of what they are made of.
  \<open>PriceSources\<close>: the other strategies and the job that runs one; pages of subgraphs, pieces of coins, chains.

  \<^bold>\<open>The account service\<close> (\<open>apps/account\<close>).
  \<open>Transfers\<close>, \<open>Scans\<close>: \<open>transfers.service.ts\<close>, \<open>scan.api.service.ts\<close>; merging and grouping of transfers.
  \<open>Blocks\<close>: \<open>blocktime.service.ts\<close>; the search for the block of a date.
  \<open>Balances\<close>: \<open>balances-v2.service.ts\<close> and the strategy \<open>network.strategy.ts\<close>; balances, their merging, and the changes of a day.
  \<open>ProfitLoss\<close>: \<open>modules/analytics/profitandloss.service.ts\<close>; what the accounts gained with an asset, as a sum over its transfers.

  \<^bold>\<open>The integration service\<close> (\<open>apps/integration\<close>).
  \<open>Platform\<close>: \<open>framework/support/RootPlatform.ts\<close>, \<open>framework/services/platform.service.ts\<close>; the protocol instances, those that
  failed, as a state machine with its invariant, and the answers of all platforms.
  \<open>ProtocolCache\<close>: \<open>framework/support/RootProtocolCacheable.ts\<close>; pools in the cache, their completion with tokens, the users.
  \<open>AbiFunctions\<close>: \<open>framework/support/EVM/AbiModule/AbiService.ts\<close>; ABIs through sources, cache and proxies, functions by predicates.
  \<open>MasterChef\<close>: \<open>SingleContractProtocol.ts\<close>, \<open>protocols/Yield/MasterChef.ts\<close>; staking with one contract.
  \<open>StakingRewards\<close>: \<open>MultiContractProtocol.ts\<close>, \<open>protocols/Yield/StakingRewards.ts\<close>; staking with a contract per pool, in a store of objects.
  \<open>CurveAssets\<close>: \<open>framework/support/assets/curve.assets.manager.ts\<close>; tokens of pools in pools, their contract calls and their prices.
  \<open>Liquidity\<close>: \<open>protocols/Liquidity/UniswapV2Liquidity.ts\<close>; shares of liquidity pools.
  \<open>Lending\<close>: \<open>protocols/Lending/BenqiLending.ts\<close>; lending markets, rewards from indices, shared yields.
  \<open>Integrations\<close>: \<open>integrations.service.v3.decorator.ts\<close>; the conversion of platform answers and their totals.
  \<open>IntegrationsV2\<close>, \<open>BasePrices\<close>, \<open>FeatureResults\<close>: \<open>integrations.service.ts\<close>, \<open>features.service.ts\<close>, \<open>protocol.service.ts\<close>; the second and the first
  version of the interface, and the prices of positions.
  \<open>TickMath\<close>: \<open>common/utils/uniswapV3PositionMath.ts\<close>; amounts and fees of concentrated liquidity, refined to 256-bit words
  (locale \<open>bn_arith\<close>).

  \<^bold>\<open>The opportunities service\<close> (\<open>apps/opportunities\<close>).
  \<open>Opportunities\<close>: the two adapters \<open>internal.v2.adapter.ts\<close> and \<open>internal.v3.adapter.ts\<close>, the farms that they load, and the
  replacement of the table of opportunities (\<open>opportunity.adapter.service.ts\<close>, \<open>opportunity.repository.ts\<close>).

  \<^bold>\<open>The scheduler and the jobs.\<close>
  \<open>Scheduler\<close>: \<open>apps/scheduler\<close>; tasks and running jobs as a step relation whose invariant keeps them equal but for
  the tasks that were stored as inactive (locales \<open>task_table\<close>,
  \<open>job_registry\<close> and their combination \<open>scheduler\<close>).
  \<open>TxParsing\<close>: \<open>jobs/migration_transactions_consumer\<close>; logs of a transaction to rows, balanced but for transfers with one end.

  \<^bold>\<open>What the groups of lemmas show.\<close>  For every component: what each operation returns, its error branches included; for those with state,
  an invariant kept by every operation or reachable step; for conversions, that totals are the sums of what is shown; for caches, that what was
  stored is what a later request reads; for batches, that they answer as single requests would.  Where the code departs from this, the
  theorem states what it does instead: the departures are the findings of the manifest.

  \<^bold>\<open>Loops.\<close>  Loops over lists are structural.  Loops that the code does not bound are partial functions whose result is
  \<open>None\<close> when they do not end: \<open>Collections.chunkRunLoop\<close> and \<open>toChunkedLoop\<close> (they end for every positive size),
  \<open>Blocks.estimateBlockTimes\<close> (it ends on a chain with regular blocks, theorem \<open>block_found\<close>), \<open>AbiFunctions.fetchAbi\<close> (it ends
  exactly when the chain of proxies does, lemma \<open>fetchAbi_resolves\<close>), \<open>AssetStore.getAssetsFromCacheWithUnderlying\<close> (it ends on every
  finite cache, theorem \<open>cached_closure\<close>), \<open>AssetStore.getUnderlying\<close> (it ends on assets that do not contain themselves, used in
  theorem \<open>saved_asset_is_read\<close>), \<open>AssetProcessing.processAssets_inOrder\<close> (it ends when parts are simpler than their whole, theorem
  \<open>processing_ends\<close>) and \<open>PriceSources.solanaPages\<close> (it ends for every positive size).
  \<open>PriceSources.graphPages\<close> ends because every further round has found something.  The proxy of calls makes at most one attempt more than its retries.
  No definition uses fuel.

  \<^bold>\<open>Not modelled.\<close>  Most adapters of protocols (some two hundred classes over contract interfaces and subgraphs; the base classes they
  share and one representative of each kind, staking, liquidity and lending, are modelled); the strategies for balances that call third parties, the first version
  of the balances, approvals and NFTs; the tables of assets and the analysers that read contracts for them, the searches of the opportunities service, the categorization and gateway services, which are access to tables and
  forwarding of requests; the jobs that crawl web pages; bootstrap, logging and interceptors; ABIs, entities and migrations, which are data.
\<close>

end
